(* ===== verification/Prelude.thy ===== *)
theory Prelude imports
  Main
  "HOL-Library.Word"
  "HOL-Library.Sublist"
  "HOL-Library.Char_ord"
  "HOL-Library.List_Lexorder"
  "HOL-Library.Product_Lexorder"
  "HOL-Library.Multiset"
begin

text \<open>
  What every component shares: the types of machine integers and of UTF-8 text, the
  string operations of the standard library as they act on the bytes of a \<open>str\<close>, and
  the generic facts about sorted lists and slices the component proofs use.

  A Rust \<open>str\<close> is the list of its UTF-8 bytes, so \<open>length\<close> is \<open>str::len\<close> and a byte
  offset is an index into the list; \<open>char\<close> is a byte.
\<close>

section \<open>Types\<close>

type_synonym u8 = "8 word"
type_synonym u32 = "32 word"
type_synonym u64 = "64 word"

named_theorems byte_simps \<open>evaluation rules of the string operations\<close>

abbreviation newline :: char where
  "newline \<equiv> CHR 0x0A"

abbreviation carriage_return :: char where
  "carriage_return \<equiv> CHR 0x0D"

section \<open>Slices of a str\<close>

text \<open>
  \<open>str::is_char_boundary\<close>: an offset lies between two characters when it is the start or
  the end of the text or the byte there does not continue a multi-byte sequence.
\<close>

definition continuation_byte :: "char \<Rightarrow> bool" where
  "continuation_byte c \<longleftrightarrow> 128 \<le> (of_char c :: nat) \<and> (of_char c :: nat) < 192"

definition char_boundary :: "string \<Rightarrow> nat \<Rightarrow> bool" where
  "char_boundary s i \<longleftrightarrow> i = 0 \<or> i = length s \<or> (i < length s \<and> \<not> continuation_byte (s ! i))"

definition span :: "string \<Rightarrow> nat \<Rightarrow> nat \<Rightarrow> string" where
  "span s a b = take (b - a) (drop a s)"

text \<open>\<open>str::get(a..b)\<close>: \<open>None\<close> out of range or inside a character. \<open>&s[a..b]\<close> panics there.\<close>

definition str_slice :: "string \<Rightarrow> nat \<Rightarrow> nat \<Rightarrow> string option" where
  "str_slice s a b =
     (if a \<le> b \<and> b \<le> length s \<and> char_boundary s a \<and> char_boundary s b
      then Some (span s a b) else None)"

lemma char_boundary_0 [simp]: "char_boundary s 0"
  by (simp add: char_boundary_def)

lemma char_boundary_length [simp]: "char_boundary s (length s)"
  by (simp add: char_boundary_def)

lemma char_boundary_le: "char_boundary s i \<Longrightarrow> i \<le> length s"
  by (auto simp: char_boundary_def)

lemma str_slice_Some_iff:
  "str_slice s a b = Some t \<longleftrightarrow>
     a \<le> b \<and> b \<le> length s \<and> char_boundary s a \<and> char_boundary s b \<and> t = span s a b"
  by (auto simp: str_slice_def)

lemma length_span [simp]: "b \<le> length s \<Longrightarrow> length (span s a b) = b - a"
  by (simp add: span_def)

lemma span_append: "a \<le> b \<Longrightarrow> b \<le> c \<Longrightarrow> span s a b @ span s b c = span s a c"
proof -
  assume "a \<le> b" "b \<le> c"
  then have "take (c - a) (drop a s) = take (b - a) (drop a s) @ take (c - b) (drop (b - a) (drop a s))"
    by (metis diff_add_inverse2 le_add_diff_inverse2 diff_le_mono le_add_diff_inverse take_add
        diff_diff_left le_trans Nat.diff_add_assoc2 add.commute)
  with \<open>a \<le> b\<close> show ?thesis by (simp add: span_def)
qed

lemma span_all: "span s 0 (length s) = s"
  by (simp add: span_def)

lemma span_drop: "span s a (length s) = drop a s"
  by (simp add: span_def)

lemma span_take: "span s 0 b = take b s"
  by (simp add: span_def)

lemma span_split: "a \<le> b \<Longrightarrow> take a s @ span s a b = take b s"
  by (metis span_append span_take le0)

lemma take_eq_le: "take n xs = take n ys \<Longrightarrow> m \<le> n \<Longrightarrow> take m xs = take m ys"
  by (metis min.absorb1 take_take)

lemma take_append_short: "length xs = n \<Longrightarrow> take n (xs @ ys) = xs"
  by simp

lemma drop_append_short: "length xs = n \<Longrightarrow> drop n (xs @ ys) = ys"
  by simp

lemma subset_mset_add: "A \<subseteq># B \<Longrightarrow> A \<subseteq># add_mset x B"
  by (metis add_mset_add_single mset_subset_eq_add_left subset_mset.order_trans)

lemma sum_list_mset_cong: "mset xs = mset ys \<Longrightarrow> sum_list (map f xs) = sum_list (map f ys)"
  for f :: "'a \<Rightarrow> 'b::comm_monoid_add"
  by (simp flip: sum_mset_sum_list)

section \<open>Pairwise relations and order\<close>

text \<open>A symmetric relation that holds between all positions of a list does not depend on its order.\<close>

lemma sorted_wrt_insert_sym:
  assumes "\<And>a b. R a b \<Longrightarrow> R b a"
  shows "sorted_wrt R (xs @ x # ys) \<longleftrightarrow> sorted_wrt R (xs @ ys) \<and> (\<forall>y \<in> set (xs @ ys). R x y)"
  using assms by (auto simp: sorted_wrt_append)

lemma sorted_wrt_mset_cong:
  assumes sym: "\<And>a b. R a b \<Longrightarrow> R b a"
  shows "mset xs = mset ys \<Longrightarrow> sorted_wrt R xs \<longleftrightarrow> sorted_wrt R ys"
proof (induction xs arbitrary: ys)
  case (Cons x xs)
  then have "x \<in> set ys" by (metis list.set_intros(1) mset_eq_setD)
  then obtain as bs where ys: "ys = as @ x # bs" by (auto simp: in_set_conv_decomp)
  with Cons.prems have eq: "mset xs = mset (as @ bs)" by simp
  then have "set xs = set (as @ bs)" by (rule mset_eq_setD)
  with Cons.IH [OF eq] show ?case
    by (simp only: ys sorted_wrt_insert_sym [where R = R, OF sym] sorted_wrt.simps) auto
qed simp

lemma sorted_wrt_nth_less: "sorted_wrt R xs \<longleftrightarrow> (\<forall>i j. i < j \<longrightarrow> j < length xs \<longrightarrow> R (xs ! i) (xs ! j))"
  by (auto simp: sorted_wrt_iff_nth_less)

lemma takeWhile_sorted_filter:
  "sorted xs \<Longrightarrow> \<forall>x y. x \<le> y \<longrightarrow> P y \<longrightarrow> P x \<Longrightarrow> takeWhile P xs = filter P xs"
proof (induction xs)
  case (Cons x xs)
  show ?case
  proof (cases "P x")
    case False
    with Cons.prems have "filter P xs = []" by (auto simp: filter_empty_conv)
    with False show ?thesis by simp
  qed (use Cons in simp)
qed simp

section \<open>Operations of str\<close>

text \<open>\<open>str::split(c)\<close> for an ASCII character: always at least one piece.\<close>

fun split_on :: "char \<Rightarrow> string \<Rightarrow> string list" where
  "split_on c [] = [[]]"
| "split_on c (x # xs) =
     (if x = c then [] # split_on c xs
      else case split_on c xs of [] \<Rightarrow> [[x]] | w # ws \<Rightarrow> (x # w) # ws)"

fun join_with :: "string \<Rightarrow> string list \<Rightarrow> string" where
  "join_with sep [] = []"
| "join_with sep [w] = w"
| "join_with sep (w # ws) = w @ sep @ join_with sep ws"

lemma join_with_append:
  "xs \<noteq> [] \<Longrightarrow> join_with sep (xs @ ys) = join_with sep xs @ (if ys = [] then [] else sep @ join_with sep ys)"
proof (induction sep xs rule: join_with.induct)
  case (2 sep w)
  then show ?case by (cases ys) simp_all
qed simp_all

text \<open>\<open>split_once\<close> and \<open>rsplit_once\<close>: around the first or the last occurrence.\<close>

fun split_once :: "char \<Rightarrow> string \<Rightarrow> (string \<times> string) option" where
  "split_once c [] = None"
| "split_once c (x # xs) =
     (if x = c then Some ([], xs) else map_option (\<lambda>(a, b). (x # a, b)) (split_once c xs))"

fun rsplit_once :: "char \<Rightarrow> string \<Rightarrow> (string \<times> string) option" where
  "rsplit_once c [] = None"
| "rsplit_once c (x # xs) =
     (case rsplit_once c xs of
        Some (a, b) \<Rightarrow> Some (x # a, b)
      | None \<Rightarrow> if x = c then Some ([], xs) else None)"

definition strip_prefix :: "string \<Rightarrow> string \<Rightarrow> string option" where
  "strip_prefix p s = (if prefix p s then Some (drop (length p) s) else None)"

definition strip_suffix :: "string \<Rightarrow> string \<Rightarrow> string option" where
  "strip_suffix p s = (if suffix p s then Some (take (length s - length p) s) else None)"

text \<open>\<open>str::find\<close> of a pattern: the offset of its first occurrence.\<close>

fun find_sub :: "string \<Rightarrow> string \<Rightarrow> nat option" where
  "find_sub p [] = (if p = [] then Some 0 else None)"
| "find_sub p (x # xs) = (if prefix p (x # xs) then Some 0 else map_option Suc (find_sub p xs))"

definition contains_sub :: "string \<Rightarrow> string \<Rightarrow> bool" where
  "contains_sub p s \<longleftrightarrow> find_sub p s \<noteq> None"

definition ascii_lower :: "char \<Rightarrow> char" where
  "ascii_lower c = (let n = of_char c :: nat in if 65 \<le> n \<and> n \<le> 90 then char_of (n + 32) else c)"

definition to_ascii_lowercase :: "string \<Rightarrow> string" where
  "to_ascii_lowercase = map ascii_lower"

lemma split_on_not_Nil [simp]: "split_on c s \<noteq> []"
  by (induction s) (auto split: list.splits)

lemma split_on_word: "c \<notin> set w \<Longrightarrow> split_on c w = [w]"
  by (induction w) auto

lemma split_on_append: "c \<notin> set w \<Longrightarrow> split_on c (w @ c # s) = w # split_on c s"
  by (induction w) auto

lemma split_on_pieces: "w \<in> set (split_on c s) \<Longrightarrow> c \<notin> set w"
  by (induction s arbitrary: w) (auto split: list.splits if_splits)

lemma split_on_subset: "w \<in> set (split_on c s) \<Longrightarrow> set w \<subseteq> set s"
proof (induction s arbitrary: w)
  case (Cons x s)
  obtain v vs where vs: "split_on c s = v # vs" by (cases "split_on c s") auto
  with Cons.IH have "\<forall>u \<in> set (v # vs). set u \<subseteq> set s" by auto
  with Cons.prems vs show ?case by (auto split: if_splits)
qed simp

lemma join_split_on: "join_with [c] (split_on c s) = s"
proof (induction s)
  case (Cons x s)
  obtain w ws where "split_on c s = w # ws" by (cases "split_on c s") auto
  with Cons show ?case by (cases ws) auto
qed simp

lemma split_once_Some:
  "split_once c s = Some (a, b) \<longleftrightarrow> s = a @ c # b \<and> c \<notin> set a"
proof (induction s arbitrary: a)
  case (Cons x s)
  then show ?case by (cases a) auto
qed simp

lemma split_once_None: "split_once c s = None \<longleftrightarrow> c \<notin> set s"
  by (induction s) auto

lemma rsplit_once_None: "rsplit_once c s = None \<longleftrightarrow> c \<notin> set s"
  by (induction s) (auto split: option.splits)

lemma rsplit_once_Some:
  "rsplit_once c s = Some (a, b) \<longleftrightarrow> s = a @ c # b \<and> c \<notin> set b"
proof (induction s arbitrary: a)
  case (Cons x s)
  then show ?case
    using rsplit_once_None [of c s]
    by (cases a; cases "rsplit_once c s") (auto split: if_splits)
qed simp

lemma find_sub_Some:
  "find_sub p s = Some i \<Longrightarrow> i + length p \<le> length s \<and> prefix p (drop i s)"
  by (induction p s arbitrary: i rule: find_sub.induct)
    (auto split: if_splits dest: prefix_length_le)

lemma find_sub_None: "find_sub p s = None \<longleftrightarrow> \<not> sublist p s"
proof (induction p s rule: find_sub.induct)
  case (2 p x xs)
  then show ?case by (auto simp: sublist_Cons_right)
qed simp

lemma contains_sub_iff: "contains_sub p s \<longleftrightarrow> sublist p s"
  by (auto simp: contains_sub_def find_sub_None)

lemma strip_prefix_Some: "strip_prefix p s = Some t \<longleftrightarrow> s = p @ t"
  by (auto simp: strip_prefix_def elim: prefixE)

section \<open>Paths\<close>

text \<open>
  The components of a Unix path, less empty and \<open>.\<close> ones, and \<open>Path::file_name\<close>: the last one,
  unless it is \<open>..\<close> or there is none.
\<close>

definition path_components :: "string \<Rightarrow> string list" where
  "path_components p = filter (\<lambda>c. c \<noteq> [] \<and> c \<noteq> ''.'') (split_on (CHR ''/'') p)"

definition file_name :: "string \<Rightarrow> string option" where
  "file_name p =
     (let cs = path_components p in
      if cs = [] \<or> last cs = ''..'' then None else Some (last cs))"

lemma split_on_append_sep: "split_on c (a @ c # b) = split_on c a @ split_on c b"
  by (induction a) (auto split: list.splits simp: neq_Nil_conv)

lemma file_name_in_dir:
  assumes "CHR ''/'' \<notin> set n" "n \<noteq> []" "n \<noteq> ''.''" "n \<noteq> ''..''"
  shows "file_name n = Some n" "file_name (d @ CHR ''/'' # n) = Some n"
  using assms by (simp_all add: file_name_def path_components_def split_on_append_sep split_on_word)

section \<open>Numbers\<close>

fun digit_char :: "nat \<Rightarrow> char" where
  "digit_char d = char_of (48 + d)"

fun decimal :: "nat \<Rightarrow> string" where
  "decimal n = (if n < 10 then [digit_char n] else decimal (n div 10) @ [digit_char (n mod 10)])"

declare decimal.simps [simp del]

section \<open>Unicode white space\<close>

text \<open>
  \<open>str::trim\<close> and its kin strip characters with the \<open>White_Space\<close> property; these are their
  UTF-8 encodings. In valid UTF-8 an encoding at either end of a text is a whole character.
\<close>

definition bytes :: "nat list \<Rightarrow> string" where
  "bytes ns = map char_of ns"

definition WHITE_SPACE :: "string list" where
  "WHITE_SPACE =
     map bytes ([[9], [10], [11], [12], [13], [32], [194, 133], [194, 160], [225, 154, 128]] @
       map (\<lambda>b. [226, 128, b]) ([128..<139] @ [168, 169, 175]) @ [[226, 129, 159], [227, 128, 128]])"

lemma WHITE_SPACE_code [code]:
  "WHITE_SPACE =
     [[CHR 0x09], [CHR 0x0A], [CHR 0x0B], [CHR 0x0C], [CHR 0x0D], [CHR 0x20], [CHR 0xC2, CHR 0x85], [CHR
      0xC2, CHR 0xA0], [CHR 0xE1, CHR 0x9A, CHR 0x80], [CHR 0xE2, CHR 0x80, CHR 0x80], [CHR 0xE2, CHR
      0x80, CHR 0x81], [CHR 0xE2, CHR 0x80, CHR 0x82], [CHR 0xE2, CHR 0x80, CHR 0x83], [CHR 0xE2, CHR
      0x80, CHR 0x84], [CHR 0xE2, CHR 0x80, CHR 0x85], [CHR 0xE2, CHR 0x80, CHR 0x86], [CHR 0xE2, CHR
      0x80, CHR 0x87], [CHR 0xE2, CHR 0x80, CHR 0x88], [CHR 0xE2, CHR 0x80, CHR 0x89], [CHR 0xE2, CHR
      0x80, CHR 0x8A], [CHR 0xE2, CHR 0x80, CHR 0xA8], [CHR 0xE2, CHR 0x80, CHR 0xA9], [CHR 0xE2, CHR
      0x80, CHR 0xAF], [CHR 0xE2, CHR 0x81, CHR 0x9F], [CHR 0xE3, CHR 0x80, CHR 0x80]]"
  by (simp add: WHITE_SPACE_def bytes_def upt_rec char_of_def bit_iff_odd)

lemma prefix_shortens: "w \<noteq> [] \<Longrightarrow> prefix w s \<Longrightarrow> length s - length w < length s"
  by (cases w; cases s) auto

function strip_seqs :: "string list \<Rightarrow> string \<Rightarrow> string" where
  "strip_seqs ws s =
     (case find (\<lambda>w. w \<noteq> [] \<and> prefix w s) ws of
        None \<Rightarrow> s
      | Some w \<Rightarrow> strip_seqs ws (drop (length w) s))"
  by pat_completeness auto
termination
  by (relation "measure (\<lambda>(ws, s). length s)")
    (auto simp: find_Some_iff intro: prefix_shortens)

declare strip_seqs.simps [simp del]

definition trim_start :: "string \<Rightarrow> string" where
  "trim_start s = strip_seqs WHITE_SPACE s"

definition trim_end :: "string \<Rightarrow> string" where
  "trim_end s = rev (strip_seqs (map rev WHITE_SPACE) (rev s))"

definition trim_ws :: "string \<Rightarrow> string" where
  "trim_ws s = trim_end (trim_start s)"

lemma strip_seqs_suffix: "suffix (strip_seqs ws s) s"
proof (induction ws s rule: strip_seqs.induct)
  case (1 ws s)
  show ?case
  proof (cases "find (\<lambda>w. w \<noteq> [] \<and> prefix w s) ws")
    case None
    then show ?thesis by (subst strip_seqs.simps) simp
  next
    case (Some w)
    then have "suffix (strip_seqs ws (drop (length w) s)) (drop (length w) s)" by (rule 1)
    with Some show ?thesis
      by (subst strip_seqs.simps) (simp add: suffix_order.order_trans [OF _ suffix_drop])
  qed
qed

lemma trim_end_prefix: "prefix (trim_end s) s"
  using strip_seqs_suffix [of "map rev WHITE_SPACE" "rev s"]
  by (simp add: trim_end_def suffix_to_prefix)

lemma set_trim_end: "set (trim_end s) \<subseteq> set s"
  using set_mono_prefix [OF trim_end_prefix] .

lemma set_join_with: "set (join_with sep ws) \<subseteq> set sep \<union> \<Union> (set ` set ws)"
  by (induction sep ws rule: join_with.induct) auto

lemma decimal_digits: "c \<in> set (decimal n) \<Longrightarrow> 48 \<le> (of_char c :: nat) \<and> (of_char c :: nat) \<le> 57"
proof (induction n rule: decimal.induct)
  case (1 n)
  have "48 \<le> (of_char (digit_char d) :: nat) \<and> (of_char (digit_char d) :: nat) \<le> 57" if "d < 10" for d
    using that by simp
  with 1 show ?case
    by (subst (asm) (2) decimal.simps) (auto simp del: digit_char.simps split: if_splits)
qed

lemma decimal_plain: "newline \<notin> set (decimal n)" "CHR 0x1B \<notin> set (decimal n)"
  using decimal_digits by fastforce+

lemma count_list_concat: "count_list (concat xss) x = sum_list (map (\<lambda>xs. count_list xs x) xss)"
  by (induction xss) simp_all

definition option_list :: "'a option \<Rightarrow> 'a list" where
  "option_list x = (case x of None \<Rightarrow> [] | Some y \<Rightarrow> [y])"

lemma set_option_list [simp]: "set (option_list x) = set_option x"
  by (auto simp: option_list_def split: option.split)

lemma find_mem: "find P xs = Some x \<Longrightarrow> x \<in> set xs \<and> P x"
  by (metis find_Some_iff nth_mem)

section \<open>Paths, numbers and quoted strings\<close>

text \<open>\<open>Path::join\<close> and \<open>is_relative\<close> on Unix.\<close>

definition is_relative :: "string \<Rightarrow> bool" where
  "is_relative p \<longleftrightarrow> \<not> prefix ''/'' p"

definition path_join :: "string \<Rightarrow> string \<Rightarrow> string" where
  "path_join dir p =
     (if \<not> is_relative p then p
      else if dir = [] \<or> suffix ''/'' dir then dir @ p
      else dir @ ''/'' @ p)"

text \<open>\<open>str::parse::<usize>\<close>: an optional plus sign and at least one digit, within 64 bits.\<close>

definition is_digit :: "char \<Rightarrow> bool" where
  "is_digit c \<longleftrightarrow> 48 \<le> (of_char c :: nat) \<and> (of_char c :: nat) \<le> 57"

definition digits_value :: "string \<Rightarrow> nat" where
  "digits_value ds = foldl (\<lambda>n c. 10 * n + (of_char c - 48)) 0 ds"

definition parse_usize :: "string \<Rightarrow> nat option" where
  "parse_usize s =
     (let ds = (case strip_prefix ''+'' s of Some t \<Rightarrow> t | None \<Rightarrow> s) in
      if ds \<noteq> [] \<and> list_all is_digit ds \<and> digits_value ds < 2 ^ 64 then Some (digits_value ds) else None)"

text \<open>
  The \<open>Debug\<close> form of a string, exact for ASCII; characters outside ASCII, which it shows as they are
  when they are printable, are always kept.
\<close>

definition hex_digits :: string where
  "hex_digits = ''0123456789abcdef''"

definition debug_char :: "char \<Rightarrow> string" where
  "debug_char c =
     (let n = of_char c :: nat; bs = CHR 0x5C in
      if n = 0 then [bs, CHR ''0'']
      else if n = 9 then [bs, CHR ''t'']
      else if n = 10 then [bs, CHR ''n'']
      else if n = 13 then [bs, CHR ''r'']
      else if c = CHR 0x22 \<or> c = bs then [bs, c]
      else if n < 32 \<or> n = 127
      then [bs, CHR ''u'', CHR 0x7B] @ (if n < 16 then [] else [hex_digits ! (n div 16)]) @
        [hex_digits ! (n mod 16), CHR 0x7D]
      else [c])"

definition debug_str :: "string \<Rightarrow> string" where
  "debug_str s = [CHR 0x22] @ concat (map debug_char s) @ [CHR 0x22]"

lemma parse_usize_bound: "parse_usize s = Some n \<Longrightarrow> n < 2 ^ 64"
  by (auto simp: parse_usize_def Let_def split: if_splits)

section \<open>Text\<close>

text \<open>\<open>str::from_utf8\<close> on bytes: the well-formed sequences of the Unicode standard.\<close>

definition byte_in :: "nat \<Rightarrow> nat \<Rightarrow> char \<Rightarrow> bool" where
  "byte_in lo hi c \<longleftrightarrow> lo \<le> (of_char c :: nat) \<and> (of_char c :: nat) \<le> hi"

definition utf8_second :: "char \<Rightarrow> (nat \<times> nat) option" where
  "utf8_second a =
     (if byte_in 0xE0 0xE0 a then Some (0xA0, 0xBF)
      else if byte_in 0xED 0xED a then Some (0x80, 0x9F)
      else if byte_in 0xF0 0xF0 a then Some (0x90, 0xBF)
      else if byte_in 0xF4 0xF4 a then Some (0x80, 0x8F)
      else if byte_in 0xC2 0xF4 a then Some (0x80, 0xBF)
      else None)"

fun valid_utf8 :: "string \<Rightarrow> bool" where
  "valid_utf8 [] \<longleftrightarrow> True"
| "valid_utf8 (a # s) \<longleftrightarrow>
     (if byte_in 0 0x7F a then valid_utf8 s
      else case utf8_second a of
        None \<Rightarrow> False
      | Some (lo, hi) \<Rightarrow>
          (case s of
             [] \<Rightarrow> False
           | b # s1 \<Rightarrow>
               byte_in lo hi b \<and>
               (if byte_in 0xC2 0xDF a then valid_utf8 s1
                else case s1 of
                  [] \<Rightarrow> False
                | c # s2 \<Rightarrow>
                    byte_in 0x80 0xBF c \<and>
                    (if byte_in 0xE0 0xEF a then valid_utf8 s2
                     else case s2 of [] \<Rightarrow> False | d # s3 \<Rightarrow> byte_in 0x80 0xBF d \<and> valid_utf8 s3))))"

text \<open>\<open>String::from_utf8_lossy\<close>: each maximal ill-formed part becomes one U+FFFD.\<close>

definition REPLACEMENT :: string where "REPLACEMENT = [CHR 0xEF, CHR 0xBF, CHR 0xBD]"

fun utf8_lossy :: "string \<Rightarrow> string" where
  "utf8_lossy [] = []"
| "utf8_lossy (a # s) =
     (if byte_in 0 0x7F a then a # utf8_lossy s
      else case utf8_second a of
        None \<Rightarrow> REPLACEMENT @ utf8_lossy s
      | Some (lo, hi) \<Rightarrow>
          (case s of
             [] \<Rightarrow> REPLACEMENT
           | b # s1 \<Rightarrow>
               if \<not> byte_in lo hi b then REPLACEMENT @ utf8_lossy s
               else if byte_in 0xC2 0xDF a then a # b # utf8_lossy s1
               else case s1 of
                 [] \<Rightarrow> REPLACEMENT
               | c # s2 \<Rightarrow>
                   if \<not> byte_in 0x80 0xBF c then REPLACEMENT @ utf8_lossy s1
                   else if byte_in 0xE0 0xEF a then a # b # c # utf8_lossy s2
                   else case s2 of
                     [] \<Rightarrow> REPLACEMENT
                   | d # s3 \<Rightarrow>
                       if \<not> byte_in 0x80 0xBF d then REPLACEMENT @ utf8_lossy s2
                       else a # b # c # d # utf8_lossy s3))"

declare valid_utf8.simps(2) [simp del] utf8_lossy.simps(2) [simp del]

lemma utf8_lossy_valid [simp]: "valid_utf8 s \<Longrightarrow> utf8_lossy s = s"
proof (induction s rule: valid_utf8.induct)
  case (2 a s)
  from 2(5) show ?case
    unfolding utf8_lossy.simps(2) [of a s] valid_utf8.simps(2) [of a s]
    by (auto simp: 2 split: if_splits option.splits list.splits)
qed simp

text \<open>\<open>u32\<close> lengths saturate.\<close>

definition u32_max :: nat where
  "u32_max = 4294967295"

definition saturate_u32 :: "nat \<Rightarrow> u32" where
  "saturate_u32 n = (if n \<le> u32_max then of_nat n else of_nat u32_max)"

lemma saturate_small: "n \<le> u32_max \<Longrightarrow> unat (saturate_u32 n) = n"
  by (simp add: saturate_u32_def u32_max_def unat_of_nat)

lemma saturate_le: "saturate_u32 n \<le> w \<longleftrightarrow> min n u32_max \<le> unat w"
  by (auto simp: saturate_u32_def word_le_nat_alt u32_max_def unat_of_nat min_def)

text \<open>\<open>str::lines\<close>: a line ends with a newline, or with a carriage return and a newline.\<close>

definition strip_cr :: "string \<Rightarrow> string" where
  "strip_cr l = (case strip_suffix [carriage_return] l of Some t \<Rightarrow> t | None \<Rightarrow> l)"

definition str_lines :: "string \<Rightarrow> string list" where
  "str_lines s =
     (let ps = split_on newline s in map strip_cr (butlast ps) @ (if last ps = [] then [] else [last ps]))"

end
