(* ===== verification/Edits.thy ===== *)
theory Edits imports
  Prelude
begin

text \<open>
  \<^verbatim>\<open>crates/core/src/edit.rs\<close>: byte-range replacements of a source text, sets of them, and
  their simultaneous application. Every pass of the formatter hands its result to
  \<open>EditSet::apply\<close>, so this is where an edit could be lost or applied twice.
\<close>

section \<open>Model\<close>

record edit =
  e_start :: u32
  e_end :: u32
  e_text :: string

definition new_edit :: "u32 \<Rightarrow> u32 \<Rightarrow> string \<Rightarrow> edit" where
  "new_edit s e t = \<lparr>e_start = s, e_end = e, e_text = t\<rparr>"

definition insert_edit :: "u32 \<Rightarrow> string \<Rightarrow> edit" where
  "insert_edit p t = new_edit p p t"

definition overlaps :: "edit \<Rightarrow> edit \<Rightarrow> bool" where
  "overlaps a b \<longleftrightarrow> e_start a < e_end b \<and> e_start b < e_end a"

text \<open>
  \<open>apply\<close> fails with the first conflicting pair; a range out of the text or inside a
  character panics in the slice expression.
\<close>

datatype apply_error = EditConflict edit edit | SlicePanic

type_synonym edit_set = "edit list"

definition edit_get :: "string \<Rightarrow> edit \<Rightarrow> string option" where
  "edit_get source e = str_slice source (unat (e_start e)) (unat (e_end e))"

fun normalize_from :: "string \<Rightarrow> edit list \<Rightarrow> edit_set \<Rightarrow> edit_set" where
  "normalize_from source seen [] = []"
| "normalize_from source seen (e # es) =
     (if edit_get source e = Some (e_text e) then normalize_from source seen es
      else if e \<in> set seen then normalize_from source seen es
      else e # normalize_from source (e # seen) es)"

definition normalize :: "string \<Rightarrow> edit_set \<Rightarrow> edit_set" where
  "normalize source es = normalize_from source [] es"

fun keep_free :: "edit list \<Rightarrow> edit list \<Rightarrow> edit list" where
  "keep_free kept [] = kept"
| "keep_free kept (e # es) =
     (if \<forall>k \<in> set kept. \<not> overlaps k e then keep_free (kept @ [e]) es else keep_free kept es)"

text \<open>\<open>sort_by(start, then end descending)\<close> is stable, as \<open>sort_key\<close> is.\<close>

definition retain_key :: "edit \<Rightarrow> int \<times> int" where
  "retain_key e = (uint (e_start e), - uint (e_end e))"

definition retain_non_overlapping :: "edit_set \<Rightarrow> edit_set" where
  "retain_non_overlapping es = keep_free [] (sort_key retain_key es)"

text \<open>
  \<open>apply\<close> orders by start, then end, then the position in the set; the check looks at
  neighbours only (\<open>windows(2)\<close>).
\<close>

definition apply_key :: "nat \<times> edit \<Rightarrow> nat \<times> nat \<times> nat" where
  "apply_key p = (unat (e_start (snd p)), unat (e_end (snd p)), fst p)"

definition apply_order :: "edit_set \<Rightarrow> edit list" where
  "apply_order es = map snd (sort_key apply_key (List.enumerate 0 es))"

fun first_conflict :: "edit list \<Rightarrow> (edit \<times> edit) option" where
  "first_conflict (a # b # es) =
     (if overlaps a b then Some (a, b) else first_conflict (b # es))"
| "first_conflict _ = None"

fun splice_edits :: "string \<Rightarrow> nat \<Rightarrow> edit list \<Rightarrow> string option" where
  "splice_edits source cursor [] = str_slice source cursor (length source)"
| "splice_edits source cursor (e # es) =
     (case str_slice source cursor (unat (e_start e)) of
        None \<Rightarrow> None
      | Some before \<Rightarrow>
          (case splice_edits source (unat (e_end e)) es of
             None \<Rightarrow> None
           | Some after \<Rightarrow> Some (before @ e_text e @ after)))"

definition apply_edits :: "edit_set \<Rightarrow> string \<Rightarrow> apply_error + string" where
  "apply_edits es source =
     (let ordered = apply_order es in
      case first_conflict ordered of
        Some (a, b) \<Rightarrow> Inl (EditConflict a b)
      | None \<Rightarrow>
          (case splice_edits source 0 ordered of
             None \<Rightarrow> Inl SlicePanic
           | Some out \<Rightarrow> Inr out))"

section \<open>Specification\<close>

text \<open>\<open>Edit::new\<close> debug-asserts \<open>start \<le> end\<close>; an edit fits a text when the range is a slice of it.\<close>

definition wf_edit :: "edit \<Rightarrow> bool" where
  "wf_edit e \<longleftrightarrow> e_start e \<le> e_end e"

definition fits :: "string \<Rightarrow> edit \<Rightarrow> bool" where
  "fits source e \<longleftrightarrow> edit_get source e \<noteq> None"

definition replace_one :: "edit \<Rightarrow> string \<Rightarrow> string" where
  "replace_one e s = take (unat (e_start e)) s @ e_text e @ drop (unat (e_end e)) s"

fun chained :: "nat \<Rightarrow> edit list \<Rightarrow> bool" where
  "chained c [] = True"
| "chained c (e # es) = (c \<le> unat (e_start e) \<and> unat (e_start e) \<le> unat (e_end e) \<and> chained (unat (e_end e)) es)"

definition edit_range :: "edit \<Rightarrow> nat \<times> nat" where
  "edit_range e = (unat (e_start e), unat (e_end e))"

lemmas edit_words = word_less_nat_alt word_le_nat_alt

section \<open>Ordering\<close>

lemma map_snd_insort_index:
  "\<forall>q \<in> set zs. n < fst q \<Longrightarrow>
     map snd (insort_key apply_key (n, e) zs) = insort_key edit_range e (map snd zs)"
  by (induction zs) (auto simp: apply_key_def edit_range_def)

lemma map_snd_sort_index:
  "map snd (sort_key apply_key (List.enumerate n es)) = sort_key edit_range es"
proof (induction es arbitrary: n)
  case (Cons e es)
  have "\<forall>q \<in> set (sort_key apply_key (List.enumerate (Suc n) es)). n < fst q"
    by (auto simp: in_set_enumerate_eq)
  with Cons show ?case by (simp add: map_snd_insort_index)
qed simp

text \<open>The explicit index makes the order the stable sort by range.\<close>

lemma apply_order_stable: "apply_order es = sort_key edit_range es"
  by (simp add: apply_order_def map_snd_sort_index)

lemma set_apply_order [simp]: "set (apply_order es) = set es"
  by (simp add: apply_order_stable)

lemma mset_apply_order [simp]: "mset (apply_order es) = mset es"
  by (simp add: apply_order_stable)

lemma sorted_apply_order: "sorted (map edit_range (apply_order es))"
  by (simp add: apply_order_stable)

lemma apply_order_same_range:
  "filter (\<lambda>e. edit_range e = r) (apply_order es) = filter (\<lambda>e. edit_range e = r) es"
  by (simp add: apply_order_stable sort_key_stable)

section \<open>Conflicts\<close>

lemma neighbours_chained:
  "first_conflict es = None \<Longrightarrow> sorted (map edit_range es) \<Longrightarrow> \<forall>e \<in> set es. wf_edit e \<Longrightarrow>
   (case es of [] \<Rightarrow> True | e # _ \<Rightarrow> c \<le> unat (e_start e)) \<Longrightarrow> chained c es"
  by (induction es arbitrary: c rule: first_conflict.induct)
    (auto simp: overlaps_def wf_edit_def edit_range_def edit_words not_less split: if_splits)

lemma chained_starts: "chained c es \<Longrightarrow> e \<in> set es \<Longrightarrow> c \<le> unat (e_start e)"
  by (induction c es rule: chained.induct) force+

lemma chained_no_conflict: "chained c es \<Longrightarrow> first_conflict es = None"
  by (induction es arbitrary: c rule: first_conflict.induct) (auto simp: overlaps_def edit_words)

lemma chained_disjoint:
  "chained c es \<Longrightarrow> i < j \<Longrightarrow> j < length es \<Longrightarrow> \<not> overlaps (es ! i) (es ! j)"
proof (induction es arbitrary: c i j)
  case (Cons e es)
  then obtain k where j: "j = Suc k" by (cases j) auto
  show ?case
  proof (cases i)
    case 0
    from Cons.prems j have "unat (e_end e) \<le> unat (e_start (es ! k))"
      by (auto intro: chained_starts)
    with 0 j show ?thesis by (simp add: overlaps_def edit_words)
  next
    case (Suc i')
    with Cons j show ?thesis by auto
  qed
qed simp

lemma first_conflict_overlaps:
  "first_conflict es = Some (a, b) \<Longrightarrow>
     \<exists>i. Suc i < length es \<and> es ! i = a \<and> es ! Suc i = b \<and> overlaps a b"
proof (induction es rule: first_conflict.induct)
  case (1 a' b' es)
  show ?case
  proof (cases "overlaps a' b'")
    case True
    with 1(2) show ?thesis by (intro exI [of _ 0]) auto
  next
    case False
    with 1 obtain i where "Suc i < length (b' # es)" "(b' # es) ! i = a" "(b' # es) ! Suc i = b" "overlaps a b"
      by auto
    then show ?thesis by (intro exI [of _ "Suc i"]) auto
  qed
qed auto

lemma chained_apply_order:
  "first_conflict (apply_order es) = None \<Longrightarrow> \<forall>e \<in> set es. wf_edit e \<Longrightarrow> chained 0 (apply_order es)"
  by (rule neighbours_chained) (auto simp: sorted_apply_order split: list.splits)

lemma overlaps_sym: "overlaps a b \<Longrightarrow> overlaps b a"
  by (auto simp: overlaps_def)

definition disjoint_edits :: "edit_set \<Rightarrow> bool" where
  "disjoint_edits es \<longleftrightarrow> sorted_wrt (\<lambda>a b. \<not> overlaps a b) es"

lemma disjoint_apply_order [simp]: "disjoint_edits (apply_order es) = disjoint_edits es"
  unfolding disjoint_edits_def by (rule sorted_wrt_mset_cong) (auto dest: overlaps_sym)

lemma chained_disjoint_edits: "chained c es \<Longrightarrow> disjoint_edits es"
  by (auto simp: disjoint_edits_def sorted_wrt_nth_less dest: chained_disjoint)

lemma disjoint_first_conflict: "disjoint_edits es \<Longrightarrow> first_conflict es = None"
  by (induction es rule: first_conflict.induct) (auto simp: disjoint_edits_def)

lemma disjoint_chained:
  "disjoint_edits es \<Longrightarrow> \<forall>e \<in> set es. wf_edit e \<Longrightarrow> chained 0 (apply_order es)"
  by (simp add: chained_apply_order disjoint_first_conflict)

section \<open>Application\<close>

lemma fits_bounds:
  "fits s e \<Longrightarrow> unat (e_start e) \<le> unat (e_end e) \<and> unat (e_end e) \<le> length s \<and>
     char_boundary s (unat (e_start e)) \<and> char_boundary s (unat (e_end e))"
  by (auto simp: fits_def edit_get_def str_slice_def split: if_splits)

lemma splice_edits_total:
  "chained c es \<Longrightarrow> \<forall>e \<in> set es. fits s e \<Longrightarrow> char_boundary s c \<Longrightarrow> \<exists>out. splice_edits s c es = Some out"
proof (induction c es rule: chained.induct)
  case (1 c)
  then show ?case by (auto simp: str_slice_def dest: char_boundary_le)
next
  case (2 c e es)
  from 2 fits_bounds [of s e] show ?case
    by (auto simp: str_slice_def split: option.splits)
qed

lemma splice_fits:
  "splice_edits s c es = Some out \<Longrightarrow> chained c es \<Longrightarrow> \<forall>e \<in> set es. fits s e"
proof (induction s c es arbitrary: out rule: splice_edits.induct)
  case (2 s c e es)
  then obtain before after where
    b: "str_slice s c (unat (e_start e)) = Some before" and
    a: "splice_edits s (unat (e_end e)) es = Some after"
    by (auto split: option.splits)
  have "char_boundary s (unat (e_end e)) \<and> unat (e_end e) \<le> length s"
    using a by (cases es) (auto simp: str_slice_def split: option.splits if_splits)
  with 2(3) b have "fits s e"
    by (auto simp: fits_def edit_get_def str_slice_def split: if_splits)
  moreover from 2 a b have "\<forall>e \<in> set es. fits s e" by auto
  ultimately show ?case by simp
qed simp

definition apply_back_to_front :: "edit list \<Rightarrow> string \<Rightarrow> string" where
  "apply_back_to_front es s = foldr replace_one es s"

lemma apply_back_to_front_simps [simp]:
  "apply_back_to_front [] s = s"
  "apply_back_to_front (e # es) s = replace_one e (apply_back_to_front es s)"
  by (simp_all add: apply_back_to_front_def)

lemma splice_back_to_front:
  "splice_edits s c es = Some out \<Longrightarrow> chained c es \<Longrightarrow> take c s @ out = apply_back_to_front es s"
proof (induction s c es arbitrary: out rule: splice_edits.induct)
  case (1 s c)
  then show ?case by (auto simp: str_slice_Some_iff span_drop)
next
  case (2 s c e es)
  then obtain before after where
    b: "str_slice s c (unat (e_start e)) = Some before" and
    a: "splice_edits s (unat (e_end e)) es = Some after" and
    out: "out = before @ e_text e @ after"
    by (auto split: option.splits)
  from 2 a b have ih: "take (unat (e_end e)) s @ after = apply_back_to_front es s" by auto
  have "\<forall>e \<in> set (e # es). fits s e" using "2.prems" by (rule splice_fits)
  then have le: "unat (e_start e) \<le> unat (e_end e)" "unat (e_end e) \<le> length s"
    using fits_bounds [of s e] by auto
  then have "replace_one e (take (unat (e_end e)) s @ after) = take (unat (e_start e)) s @ e_text e @ after"
    by (simp add: replace_one_def)
  with ih out b show ?case
    by (auto simp: str_slice_Some_iff span_split simp flip: append_assoc)
qed

lemma back_to_front_prefix:
  "chained c es \<Longrightarrow> \<forall>e \<in> set es. fits s e \<Longrightarrow> c \<le> length s \<Longrightarrow>
     take c (apply_back_to_front es s) = take c s \<and> c \<le> length (apply_back_to_front es s)"
proof (induction c es rule: chained.induct)
  case (2 c e es)
  let ?a = "unat (e_start e)" and ?b = "unat (e_end e)" and ?t = "apply_back_to_front es s"
  from 2 fits_bounds [of s e] have le: "c \<le> ?a" "?a \<le> ?b" "?b \<le> length s" by auto
  with 2 have t: "take ?b ?t = take ?b s" "?b \<le> length ?t" by auto
  then have "take c ?t = take c s" using le by (auto intro: take_eq_le)
  with le t show ?case by (auto simp: replace_one_def min_def)
qed simp

lemma no_op_back_to_front:
  assumes "chained c (e # es)" "\<forall>e \<in> set (e # es). fits s e" "edit_get s e = Some (e_text e)"
  shows "replace_one e (apply_back_to_front es s) = apply_back_to_front es s"
proof -
  let ?a = "unat (e_start e)" and ?b = "unat (e_end e)" and ?t = "apply_back_to_front es s"
  from assms fits_bounds [of s e] have le: "?a \<le> ?b" "?b \<le> length s" by auto
  with assms have t: "take ?b ?t = take ?b s"
    using back_to_front_prefix [of ?b es s] by auto
  from assms(3) have "e_text e = span s ?a ?b"
    by (simp add: edit_get_def str_slice_Some_iff)
  moreover from le t have "take ?a ?t = take ?a s" by (metis min.absorb1 take_take)
  ultimately have "take ?a ?t @ e_text e = take ?b ?t" using le t by (simp add: span_split)
  then show ?thesis by (simp add: replace_one_def flip: append_assoc)
qed

lemma back_to_front_drop_no_ops:
  "chained c es \<Longrightarrow> \<forall>e \<in> set es. fits s e \<Longrightarrow>
     apply_back_to_front (filter (\<lambda>e. edit_get s e \<noteq> Some (e_text e)) es) s = apply_back_to_front es s"
proof (induction c es rule: chained.induct)
  case (2 c e es)
  then show ?case using no_op_back_to_front [of c e es s] by auto
qed simp

section \<open>Normalisation and competing edits\<close>

lemma normalize_from_distinct:
  "distinct es \<Longrightarrow> set seen \<inter> set es = {} \<Longrightarrow>
     normalize_from s seen es = filter (\<lambda>e. edit_get s e \<noteq> Some (e_text e)) es"
  by (induction s seen es rule: normalize_from.induct) auto

lemma normalize_from_set:
  "set (normalize_from s seen es) = {e \<in> set es. edit_get s e \<noteq> Some (e_text e)} - set seen"
  by (induction s seen es rule: normalize_from.induct) auto

lemma normalize_from_keeps_distinct: "distinct (normalize_from s seen es)"
  by (induction s seen es rule: normalize_from.induct) (auto simp: normalize_from_set)

lemma apply_order_filter: "apply_order (filter P es) = filter P (apply_order es)"
  by (simp add: apply_order_stable filter_sort)

lemma apply_edits_Inr:
  "apply_edits es s = Inr out \<longleftrightarrow>
     first_conflict (apply_order es) = None \<and> splice_edits s 0 (apply_order es) = Some out"
  by (auto simp: apply_edits_def Let_def split: option.splits)

lemma apply_edits_Inr_back_to_front:
  assumes "apply_edits es s = Inr out" "\<forall>e \<in> set es. wf_edit e"
  shows "out = apply_back_to_front (apply_order es) s" "\<forall>e \<in> set es. fits s e"
    "chained 0 (apply_order es)"
proof -
  from assms have sp: "splice_edits s 0 (apply_order es) = Some out" and ch: "chained 0 (apply_order es)"
    by (auto simp: apply_edits_Inr intro: chained_apply_order)
  from splice_back_to_front [OF sp ch] show "out = apply_back_to_front (apply_order es) s" by simp
  from splice_fits [OF sp ch] show "\<forall>e \<in> set es. fits s e" by simp
  show "chained 0 (apply_order es)" by (rule ch)
qed

lemma apply_edits_disjoint:
  assumes "disjoint_edits es" "\<forall>e \<in> set es. wf_edit e" "\<forall>e \<in> set es. fits s e"
  shows "apply_edits es s = Inr (apply_back_to_front (apply_order es) s)"
proof -
  from assms have ch: "chained 0 (apply_order es)" by (auto intro: disjoint_chained)
  with assms obtain out where out: "splice_edits s 0 (apply_order es) = Some out"
    using splice_edits_total [OF ch, of s] by auto
  with ch splice_back_to_front [OF out ch] show ?thesis
    by (simp add: apply_edits_Inr chained_no_conflict)
qed

lemma keep_free_disjoint: "disjoint_edits kept \<Longrightarrow> disjoint_edits (keep_free kept es)"
  by (induction kept es rule: keep_free.induct) (auto simp: disjoint_edits_def sorted_wrt_append)

lemma keep_free_mset: "mset (keep_free kept es) \<subseteq># mset kept + mset es"
  by (induction kept es rule: keep_free.induct)
    (auto intro: subset_mset_add)

lemma keep_free_keeps: "set kept \<subseteq> set (keep_free kept es)"
  by (induction kept es rule: keep_free.induct) auto

lemma keep_free_maximal:
  "sorted (map retain_key (kept @ es)) \<Longrightarrow> e \<in> set es \<Longrightarrow>
     e \<in> set (keep_free kept es) \<or>
     (\<exists>k \<in> set (keep_free kept es). overlaps k e \<and> retain_key k \<le> retain_key e)"
proof (induction kept es arbitrary: e rule: keep_free.induct)
  case (2 kept e' es)
  show ?case
  proof (cases "e = e'")
    case True
    show ?thesis
    proof (cases "\<forall>k \<in> set kept. \<not> overlaps k e'")
      case True
      with \<open>e = e'\<close> keep_free_keeps [of "kept @ [e']" es] show ?thesis by auto
    next
      case False
      then obtain k where "k \<in> set kept" "overlaps k e'" by blast
      with False \<open>e = e'\<close> 2(3) keep_free_keeps [of kept es] show ?thesis
        by (auto simp: sorted_append)
    qed
  next
    case False
    with 2(4) have "e \<in> set es" by simp
    moreover have "sorted (map retain_key (kept @ es))"
      using 2(3) by (auto simp: sorted_append)
    ultimately show ?thesis using 2 by auto
  qed
qed simp

lemma length_back_to_front:
  "chained c es \<Longrightarrow> \<forall>e \<in> set es. fits s e \<Longrightarrow> c \<le> length s \<Longrightarrow>
     int (length (apply_back_to_front es s)) =
       int (length s) + (\<Sum>e \<leftarrow> es. int (length (e_text e)) - (int (unat (e_end e)) - int (unat (e_start e))))"
proof (induction c es rule: chained.induct)
  case (2 c e es)
  from 2 fits_bounds [of s e] have le: "unat (e_start e) \<le> unat (e_end e)" "unat (e_end e) \<le> length s" by auto
  with 2 have "unat (e_end e) \<le> length (apply_back_to_front es s)"
    using back_to_front_prefix [of "unat (e_end e)" es s] by auto
  with 2 le show ?case by (simp add: replace_one_def)
qed simp

section \<open>Properties\<close>

text \<open>
  C13: A set of well-formed edits that fit the text and do not overlap is applied without a
  conflict and without a slice panic, and the result of applying all of them at once is that of
  applying them one after the other from the last to the first in (start, end, push order).
\<close>

theorem apply_edits_correct:
  assumes "\<forall>e \<in> set es. wf_edit e" "\<forall>e \<in> set es. fits source e" "disjoint_edits es"
  shows "apply_edits es source = Inr (foldr replace_one (sort_key edit_range es) source)"
  using apply_edits_disjoint [OF assms(3,1,2)]
  by (simp add: apply_back_to_front_def apply_order_stable)

theorem apply_edits_correct_witness:
  "apply_edits [insert_edit 9 ''!'', new_edit 0 3 ''let''] ''var a = 1;b'' = Inr ''let a = 1!;b''"
proof -
  let ?es = "[insert_edit 9 ''!'', new_edit 0 3 ''let'']"
  have h: "\<forall>e \<in> set ?es. wf_edit e" "\<forall>e \<in> set ?es. fits ''var a = 1;b'' e" "disjoint_edits ?es"
    by code_simp+
  have "foldr replace_one (sort_key edit_range ?es) ''var a = 1;b'' = ''let a = 1!;b''"
    by code_simp
  with apply_edits_correct [OF h] show ?thesis by simp
qed

text \<open>
  C14: Although only neighbours in the sorted order are compared, \<open>apply\<close> reports a conflict exactly
  when two edits of the set overlap, and the reported pair is such a pair: no overlap is missed and
  none is invented.
\<close>

theorem apply_conflict_iff:
  assumes "\<forall>e \<in> set es. wf_edit e"
  shows "(\<not> disjoint_edits es) = (\<exists>a b. apply_edits es source = Inl (EditConflict a b) \<and>
     a \<in> set es \<and> b \<in> set es \<and> overlaps a b)" (is "?l = ?r")
proof
  assume ?l
  then have "first_conflict (apply_order es) \<noteq> None"
    using chained_apply_order [OF _ assms] chained_disjoint_edits by fastforce
  then obtain a b where ab: "first_conflict (apply_order es) = Some (a, b)" by auto
  from first_conflict_overlaps [OF this] have "a \<in> set es \<and> b \<in> set es \<and> overlaps a b"
    using nth_mem Suc_lessD by (metis set_apply_order)
  with ab show ?r by (auto simp: apply_edits_def)
next
  assume ?r
  then have "first_conflict (apply_order es) \<noteq> None"
    by (auto simp: apply_edits_def Let_def split: option.splits)
  then show ?l using disjoint_first_conflict [of "apply_order es"] by auto
qed

theorem apply_conflict_iff_witness:
  "\<exists>a b. apply_edits [new_edit 0 4 ''a'', new_edit 6 7 ''c'', new_edit 2 6 ''b''] ''0123456789'' = Inl (EditConflict a b) \<and> overlaps a b"
proof -
  let ?es = "[new_edit 0 4 ''a'', new_edit 6 7 ''c'', new_edit 2 6 ''b'']"
  have h: "\<forall>e \<in> set ?es. wf_edit e" "\<not> disjoint_edits ?es" by code_simp+
  from apply_conflict_iff [OF h(1), of "''0123456789''"] h(2) show ?thesis by blast
qed

text \<open>
  C15: Resolving competing edits keeps a conflict-free part of the set (each edit at most as often as
  it was pushed) and is maximal: an edit is dropped only because an edit that was kept overlaps it
  and starts earlier, or starts at the same byte and is at least as long.
\<close>

theorem retain_non_overlapping_maximal:
  "disjoint_edits (retain_non_overlapping es) \<and>
   mset (retain_non_overlapping es) \<subseteq># mset es \<and>
   (\<forall>e \<in> set es - set (retain_non_overlapping es).
      \<exists>k \<in> set (retain_non_overlapping es). overlaps k e \<and>
        (e_start k < e_start e \<or> e_start k = e_start e \<and> e_end e \<le> e_end k))"
proof (intro conjI ballI)
  show "disjoint_edits (retain_non_overlapping es)"
    unfolding retain_non_overlapping_def by (rule keep_free_disjoint) (simp add: disjoint_edits_def)
  show "mset (retain_non_overlapping es) \<subseteq># mset es"
    using keep_free_mset [of "[]" "sort_key retain_key es"] by (simp add: retain_non_overlapping_def)
  fix e assume "e \<in> set es - set (retain_non_overlapping es)"
  then obtain k where "k \<in> set (retain_non_overlapping es)" "overlaps k e" "retain_key k \<le> retain_key e"
    using keep_free_maximal [of "[]" "sort_key retain_key es" e] by (auto simp: retain_non_overlapping_def)
  then show "\<exists>k \<in> set (retain_non_overlapping es). overlaps k e \<and>
      (e_start k < e_start e \<or> e_start k = e_start e \<and> e_end e \<le> e_end k)"
    by (force simp: retain_key_def word_less_def word_le_def word_uint_eq_iff)
qed

theorem retain_non_overlapping_maximal_witness:
  "\<exists>k \<in> set (retain_non_overlapping [new_edit 2 6 ''b'', new_edit 0 4 ''a'', new_edit 0 8 ''c'', new_edit 8 9 ''d'']).
     overlaps k (new_edit 2 6 ''b'')"
proof -
  let ?es = "[new_edit 2 6 ''b'', new_edit 0 4 ''a'', new_edit 0 8 ''c'', new_edit 8 9 ''d'']"
  have "new_edit 2 6 ''b'' \<in> set ?es - set (retain_non_overlapping ?es)" by code_simp
  with retain_non_overlapping_maximal [of ?es] show ?thesis by blast
qed

text \<open>
  Normalising a set of distinct edits (dropping those that leave the text unchanged) never
  changes what applying the set produces.
\<close>

theorem normalize_keeps_result:
  assumes "apply_edits es source = Inr out" "\<forall>e \<in> set es. wf_edit e" "distinct es"
  shows "apply_edits (normalize source es) source = Inr out"
proof -
  let ?P = "\<lambda>e. edit_get source e \<noteq> Some (e_text e)"
  have n: "normalize source es = filter ?P es"
    using assms(3) by (simp add: normalize_def normalize_from_distinct)
  note r = apply_edits_Inr_back_to_front [OF assms(1,2)]
  have "disjoint_edits es" using chained_disjoint_edits [OF r(3)] by simp
  then have "disjoint_edits (filter ?P es)"
    by (auto simp: disjoint_edits_def intro: sorted_wrt_filter)
  then have "apply_edits (filter ?P es) source = Inr (apply_back_to_front (apply_order (filter ?P es)) source)"
    using assms(2) r(2) by (intro apply_edits_disjoint) auto
  also have "\<dots> = Inr out"
    using r by (simp add: apply_order_filter back_to_front_drop_no_ops)
  finally show ?thesis by (simp add: n)
qed

theorem normalize_keeps_result_witness:
  "apply_edits (normalize ''ab'' [new_edit 0 1 ''a'', new_edit 1 2 ''x'']) ''ab'' = Inr ''ax''"
proof -
  have "apply_edits [new_edit 0 1 ''a'', new_edit 1 2 ''x''] ''ab'' = Inr ''ax''"
    "\<forall>e \<in> set [new_edit 0 1 ''a'', new_edit 1 2 ''x'']. wf_edit e" by code_simp+
  moreover have "distinct [new_edit 0 1 ''a'', new_edit 1 2 ''x'']" by (simp add: new_edit_def)
  ultimately show ?thesis by (rule normalize_keeps_result)
qed

text \<open>
  Applying a set changes the length of the text by exactly the sum of what each edit adds and
  removes, so no byte outside the edited ranges is dropped or duplicated.
\<close>

theorem apply_edits_length:
  assumes "apply_edits es source = Inr out" "\<forall>e \<in> set es. wf_edit e"
  shows "int (length out) = int (length source) +
     (\<Sum>e \<leftarrow> es. int (length (e_text e)) - (int (unat (e_end e)) - int (unat (e_start e))))"
proof -
  let ?d = "\<lambda>e. int (length (e_text e)) - (int (unat (e_end e)) - int (unat (e_start e)))"
  note r = apply_edits_Inr_back_to_front [OF assms]
  have "int (length out) = int (length source) + sum_list (map ?d (apply_order es))"
    using r by (simp add: length_back_to_front)
  also have "sum_list (map ?d (apply_order es)) = sum_list (map ?d es)"
    by (rule sum_list_mset_cong) simp
  finally show ?thesis .
qed

theorem apply_edits_length_witness:
  "int (length ''let a = 1!;b'') = int (length ''var a = 1;b'') + 1"
proof -
  have "apply_edits [insert_edit 9 ''!'', new_edit 0 3 ''let''] ''var a = 1;b'' = Inr ''let a = 1!;b''"
    "\<forall>e \<in> set [insert_edit 9 ''!'', new_edit 0 3 ''let'']. wf_edit e" by code_simp+
  from apply_edits_length [OF this] show ?thesis by (simp add: insert_edit_def new_edit_def)
qed

end
