(* ===== verification/Lines.thy ===== *)
theory Lines imports
  Prelude
begin

text \<open>
  \<^verbatim>\<open>crates/core/src/lines.rs\<close>: the index from byte offsets to 1-based lines and columns.
  Offsets are \<open>u32\<close>; positions past \<open>u32::MAX\<close> saturate as in the code.
\<close>

section \<open>Model\<close>

definition memchr_newlines :: "string \<Rightarrow> nat list" where
  "memchr_newlines src = map fst (filter (\<lambda>(i, b). b = newline) (List.enumerate 0 src))"

record line_index =
  starts :: "u32 list"

definition line_index_new :: "string \<Rightarrow> line_index" where
  "line_index_new src = \<lparr>starts = 0 # map (\<lambda>i. saturate_u32 (i + 1)) (memchr_newlines src)\<rparr>"

text \<open>\<open>partition_point\<close> on a partitioned slice is the length of its leading part.\<close>

definition partition_point :: "('a \<Rightarrow> bool) \<Rightarrow> 'a list \<Rightarrow> nat" where
  "partition_point p xs = length (takeWhile p xs)"

definition line_of :: "line_index \<Rightarrow> u32 \<Rightarrow> u32" where
  "line_of ix offset = max (saturate_u32 (partition_point (\<lambda>s. s \<le> offset) (starts ix))) 1"

text \<open>\<open>line_col\<close> indexes \<open>starts\<close>, which panics out of range (\<open>None\<close>).\<close>

definition line_col :: "line_index \<Rightarrow> u32 \<Rightarrow> (u32 \<times> u32) option" where
  "line_col ix offset =
     (let line = line_of ix offset; k = unat (line - 1) in
      if k < length (starts ix) then Some (line, offset - starts ix ! k + 1) else None)"

definition line_start :: "line_index \<Rightarrow> u32 \<Rightarrow> u32 option" where
  "line_start ix line =
     (if line = 0 then None
      else if unat (line - 1) < length (starts ix) then Some (starts ix ! unat (line - 1)) else None)"

section \<open>Facts\<close>

definition newlines_from :: "nat \<Rightarrow> string \<Rightarrow> nat list" where
  "newlines_from n src = map fst (filter (\<lambda>(i, b). b = newline) (List.enumerate n src))"

lemma newlines_from_simps [simp]:
  "newlines_from n [] = []"
  "newlines_from n (x # xs) = (if x = newline then n # newlines_from (Suc n) xs else newlines_from (Suc n) xs)"
  by (simp_all add: newlines_from_def)

lemma memchr_newlines_from: "memchr_newlines src = newlines_from 0 src"
  by (simp add: memchr_newlines_def newlines_from_def)

lemma newlines_from_ge: "i \<in> set (newlines_from n src) \<Longrightarrow> n \<le> i \<and> i < n + length src"
  by (auto simp: newlines_from_def in_set_enumerate_eq)

lemma set_newlines: "set (newlines_from 0 src) = {i. i < length src \<and> src ! i = newline}"
  by (force simp: newlines_from_def in_set_enumerate_eq image_iff)

lemma sorted_newlines: "sorted (newlines_from n src)"
  by (induction src arbitrary: n) (auto dest: newlines_from_ge)

lemma length_newlines_before:
  "n \<le> k \<Longrightarrow> length (filter (\<lambda>i. i < k) (newlines_from n src)) = count_list (take (k - n) src) newline"
proof (induction src arbitrary: n)
  case (Cons x xs)
  show ?case
  proof (cases "n = k")
    case True
    then have "filter (\<lambda>i. i < k) (newlines_from (Suc n) xs) = []"
      by (auto simp: filter_empty_conv dest: newlines_from_ge)
    with True show ?thesis by simp
  next
    case False
    with Cons.prems have "k - n = Suc (k - Suc n)" by simp
    with Cons False show ?thesis by auto
  qed
qed simp

text \<open>What \<open>partition_point\<close> finds in the table: the newlines before the offset, and one.\<close>

lemma partition_point_starts:
  assumes "length src < u32_max"
  shows "partition_point (\<lambda>s. s \<le> offset) (starts (line_index_new src)) =
    Suc (count_list (take (unat offset) src) newline)"
proof -
  have "takeWhile ((\<lambda>s. s \<le> offset) \<circ> (\<lambda>i. saturate_u32 (i + 1))) (newlines_from 0 src)
      = takeWhile (\<lambda>i. i < unat offset) (newlines_from 0 src)"
    using assms by (intro takeWhile_cong) (auto simp: saturate_le dest: newlines_from_ge)
  also have "\<dots> = filter (\<lambda>i. i < unat offset) (newlines_from 0 src)"
    by (rule takeWhile_sorted_filter) (auto simp: sorted_newlines)
  finally show ?thesis
    using length_newlines_before [of 0 "unat offset" src]
    by (simp add: partition_point_def line_index_new_def memchr_newlines_from takeWhile_map)
qed

lemma line_of_count:
  assumes "length src < u32_max"
  shows "unat (line_of (line_index_new src) offset) = Suc (count_list (take (unat offset) src) newline)"
proof -
  let ?n = "Suc (count_list (take (unat offset) src) newline)"
  have "count_list (take (unat offset) src) newline \<le> length src"
    using count_le_length [of "take (unat offset) src" newline] by simp
  with assms have n: "unat (saturate_u32 ?n) = ?n" by (simp add: saturate_small)
  then have "1 \<le> saturate_u32 ?n" by (simp add: word_le_nat_alt)
  with n show ?thesis
    unfolding line_of_def partition_point_starts [OF assms] by (simp add: max_absorb1)
qed

lemma starts_nth:
  assumes "length src < u32_max" "k \<le> length (newlines_from 0 src)"
  shows "unat (starts (line_index_new src) ! k) = (if k = 0 then 0 else Suc (newlines_from 0 src ! (k - 1)))"
proof (cases k)
  case (Suc m)
  with assms have "newlines_from 0 src ! m < length src"
    using newlines_from_ge [of "newlines_from 0 src ! m" 0 src] by auto
  with Suc assms show ?thesis
    by (simp add: line_index_new_def memchr_newlines_from saturate_small)
qed (simp add: line_index_new_def)

text \<open>The last newline before an offset, by its position in the table.\<close>

lemma newline_before:
  assumes "k = count_list (take off src) newline"
  shows "k \<le> length (newlines_from 0 src)"
    "i < length src \<Longrightarrow> i < off \<Longrightarrow> src ! i = newline \<Longrightarrow> \<exists>m < k. newlines_from 0 src ! m = i"
    "m < k \<Longrightarrow> newlines_from 0 src ! m < off"
proof -
  let ?xs = "newlines_from 0 src"
  have f: "filter (\<lambda>i. i < off) ?xs = takeWhile (\<lambda>i. i < off) ?xs"
    by (rule takeWhile_sorted_filter [symmetric]) (auto simp: sorted_newlines)
  have k: "k = length (takeWhile (\<lambda>i. i < off) ?xs)"
    using length_newlines_before [of 0 off src] assms by (simp add: f)
  then show "k \<le> length ?xs" by (simp add: length_takeWhile_le)
  show "m < k \<Longrightarrow> ?xs ! m < off"
    using k nth_length_takeWhile set_takeWhileD by (metis nth_mem takeWhile_nth)
  assume "i < length src" "i < off" "src ! i = newline"
  then have "i \<in> set (filter (\<lambda>i. i < off) ?xs)" by (simp add: set_newlines)
  then show "\<exists>m < k. ?xs ! m = i"
    unfolding f k by (metis in_set_conv_nth takeWhile_nth)
qed

section \<open>Properties\<close>

text \<open>
  For every offset into a text of less than \<open>u32::MAX\<close> bytes, \<open>line_col\<close> returns (never
  panics): the line is one more than the number of newlines before the offset, \<open>line_start\<close> of that
  line exists, is the start of the text or the byte after a newline, no newline lies between it and
  the offset, and it and the column add up to the offset, without wrap-around.
\<close>

theorem line_col_correct:
  assumes "length src < u32_max" "unat offset \<le> length src"
  shows "\<exists>line col s. line_col (line_index_new src) offset = Some (line, col) \<and>
     line_start (line_index_new src) line = Some s \<and>
     unat line = 1 + count_list (take (unat offset) src) newline \<and>
     unat s + unat col = unat offset + 1 \<and>
     newline \<notin> set (span src (unat s) (unat offset)) \<and>
     (s = 0 \<or> src ! (unat s - 1) = newline)"
proof -
  let ?ix = "line_index_new src" and ?o = "unat offset"
  define k where "k = count_list (take ?o src) newline"
  define s where "s = starts ?ix ! k"
  note nb = newline_before [OF k_def]
  have line: "unat (line_of ?ix offset) = Suc k" using line_of_count [OF assms(1)] by (simp add: k_def)
  then have "line_of ?ix offset \<noteq> 0" "unat (line_of ?ix offset - 1) = k"
    by (auto simp: unat_sub word_le_nat_alt)
  moreover have "k < length (starts ?ix)"
    using nb(1) by (simp add: line_index_new_def memchr_newlines_from less_Suc_eq_le)
  ultimately have lc: "line_col ?ix offset = Some (line_of ?ix offset, offset - s + 1)"
    and ls: "line_start ?ix (line_of ?ix offset) = Some s"
    by (simp_all add: line_col_def line_start_def s_def Let_def)
  have us: "unat s = (if k = 0 then 0 else Suc (newlines_from 0 src ! (k - 1)))"
    unfolding s_def by (rule starts_nth [OF assms(1) nb(1)])
  then have so: "unat s \<le> ?o" using nb(3) [of "k - 1"] by auto
  then have "unat (offset - s) = ?o - unat s" by (simp add: unat_sub word_le_nat_alt)
  moreover from this assms have "unat (offset - s + 1) = unat (offset - s) + 1"
    by (simp add: unat_word_ariths u32_max_def)
  ultimately have col: "unat s + unat (offset - s + 1) = ?o + 1" using so by simp
  have "src ! i \<noteq> newline" if "unat s \<le> i" "i < ?o" for i
  proof
    assume "src ! i = newline"
    with that assms nb(2) [of i] obtain m where "m < k" "newlines_from 0 src ! m = i" by auto
    moreover from this nb(1) have "newlines_from 0 src ! m \<le> newlines_from 0 src ! (k - 1)"
      by (intro sorted_nth_mono [OF sorted_newlines]) auto
    ultimately show False using us that by auto
  qed
  then have "newline \<notin> set (span src (unat s) ?o)"
    using assms by (auto simp: span_def in_set_conv_nth)
  moreover have "s = 0 \<or> src ! (unat s - 1) = newline"
  proof (cases "k = 0")
    case False
    then have "newlines_from 0 src ! (k - 1) \<in> set (newlines_from 0 src)" using nb(1) by (intro nth_mem) auto
    with False us show ?thesis by (auto simp: set_newlines)
  qed (use us in \<open>simp add: unat_eq_0\<close>)
  ultimately show ?thesis using lc ls col line by (auto simp: k_def)
qed

theorem line_col_correct_witness:
  "\<exists>line col s. line_col (line_index_new [CHR ''a'', newline, CHR ''c'']) 2 = Some (line, col) \<and>
     line_start (line_index_new [CHR ''a'', newline, CHR ''c'']) line = Some s \<and>
     unat line = 2 \<and> unat s + unat col = 3"
proof -
  have "length [CHR ''a'', newline, CHR ''c''] < u32_max" "unat (2 :: u32) \<le> length [CHR ''a'', newline, CHR ''c'']"
    by (simp_all add: u32_max_def)
  note w = line_col_correct [OF this]
  have "unat (2 :: u32) = 2" "count_list (take 2 [CHR ''a'', newline, CHR ''c'']) newline = 1" by code_simp+
  with w show ?thesis by fastforce
qed

end
