(* ===== verification/Langs.thy ===== *)
theory Langs imports
  Prelude
begin

text \<open>
  \<^verbatim>\<open>crates/core/src/lang.rs\<close>: the languages fmtkit owns, how a path is classified, and the
  predicates the lanes select files with.
\<close>

datatype lang = Go | Ts | Tsx | Mts | Cts | Js | Jsx | Mjs | Cjs | Vue | Html | Markdown

datatype lane = TsLane | GoLane

definition DECLARATION_SUFFIXES :: "string list" where
  "DECLARATION_SUFFIXES = [''.d.ts'', ''.d.mts'', ''.d.cts'']"

text \<open>The arms of the \<open>match\<close> in order; the guard belongs to the \<open>go\<close> arm only.\<close>

definition lang_of_ext :: "string \<Rightarrow> string \<Rightarrow> lang option" where
  "lang_of_ext name ext =
     (if ext = ''go'' \<and> \<not> prefix ''Dockerfile'' name \<and> \<not> suffix ''.gen.go'' name then Some Go
      else if ext = ''ts'' then Some Ts
      else if ext = ''tsx'' then Some Tsx
      else if ext = ''mts'' then Some Mts
      else if ext = ''cts'' then Some Cts
      else if ext = ''js'' then Some Js
      else if ext = ''jsx'' then Some Jsx
      else if ext = ''mjs'' then Some Mjs
      else if ext = ''cjs'' then Some Cjs
      else if ext = ''vue'' then Some Vue
      else if ext = ''html'' \<or> ext = ''htm'' then Some Html
      else if ext = ''md'' \<or> ext = ''markdown'' then Some Markdown
      else None)"

definition lang_from_path :: "string \<Rightarrow> lang option" where
  "lang_from_path path =
     (case file_name path of
        None \<Rightarrow> None
      | Some name \<Rightarrow>
          (case rsplit_once (CHR ''.'') name of
             None \<Rightarrow> None
           | Some (_, ext) \<Rightarrow> lang_of_ext name (to_ascii_lowercase ext)))"

definition is_script :: "lang \<Rightarrow> bool" where
  "is_script l \<longleftrightarrow> l \<in> {Ts, Tsx, Mts, Cts, Js, Jsx, Mjs, Cjs}"

definition is_host :: "lang \<Rightarrow> bool" where
  "is_host l \<longleftrightarrow> l \<in> {Vue, Html, Markdown}"

fun lane_of :: "lang \<Rightarrow> lane" where
  "lane_of Go = GoLane"
| "lane_of _ = TsLane"

definition is_lintable :: "lang \<Rightarrow> bool" where
  "is_lintable l \<longleftrightarrow> is_script l \<or> l = Vue"

definition is_scorable :: "lang \<Rightarrow> bool" where
  "is_scorable l \<longleftrightarrow> l \<in> {Go, Ts, Tsx, Mts, Cts, Js, Jsx}"

definition is_declaration :: "string \<Rightarrow> bool" where
  "is_declaration path =
     (case file_name path of
        None \<Rightarrow> False
      | Some n \<Rightarrow> \<exists>s \<in> set DECLARATION_SUFFIXES. suffix s n)"

definition is_test_file :: "string \<Rightarrow> bool" where
  "is_test_file path =
     (case file_name path of
        None \<Rightarrow> False
      | Some name \<Rightarrow>
          suffix ''_test.go'' name \<or> contains_sub ''.test.'' name \<or> contains_sub ''.spec.'' name)"

section \<open>The derived order\<close>

text \<open>\<open>derive(Ord)\<close> orders the variants as they are declared.\<close>

fun lang_rank :: "lang \<Rightarrow> nat" where
  "lang_rank Go = 0" | "lang_rank Ts = 1" | "lang_rank Tsx = 2" | "lang_rank Mts = 3"
| "lang_rank Cts = 4" | "lang_rank Js = 5" | "lang_rank Jsx = 6" | "lang_rank Mjs = 7"
| "lang_rank Cjs = 8" | "lang_rank Vue = 9" | "lang_rank Html = 10" | "lang_rank Markdown = 11"

lemma lang_rank_inject [simp]: "lang_rank a = lang_rank b \<longleftrightarrow> a = b"
  by (cases a; cases b) simp_all

instantiation lang :: linorder
begin
definition less_eq_lang :: "lang \<Rightarrow> lang \<Rightarrow> bool" where
  "less_eq_lang a b \<longleftrightarrow> lang_rank a \<le> lang_rank b"
definition less_lang :: "lang \<Rightarrow> lang \<Rightarrow> bool" where
  "less_lang a b \<longleftrightarrow> lang_rank a < lang_rank b"
instance
  by standard (auto simp: less_eq_lang_def less_lang_def)
end

section \<open>Facts\<close>

lemma lane_of_script: "is_script l \<or> is_host l \<longleftrightarrow> lane_of l = TsLane"
  by (cases l) (auto simp: is_script_def is_host_def)

lemma scorable_not_host: "is_scorable l \<Longrightarrow> \<not> is_host l"
  by (auto simp: is_scorable_def is_host_def)

lemma lang_from_path_name:
  assumes "CHR ''/'' \<notin> set n" "n \<noteq> []" "n \<noteq> ''.''" "n \<noteq> ''..''"
  shows "lang_from_path (d @ CHR ''/'' # n) = lang_from_path n"
    "is_declaration (d @ CHR ''/'' # n) = is_declaration n"
    "is_test_file (d @ CHR ''/'' # n) = is_test_file n"
  using assms by (simp_all add: lang_from_path_def is_declaration_def is_test_file_def file_name_in_dir)

lemma lang_from_path_generated: "file_name p = Some n \<Longrightarrow> suffix ''.gen.go'' n \<Longrightarrow> lang_from_path p = None"
proof -
  assume n: "file_name p = Some n" "suffix ''.gen.go'' n"
  then obtain m where m: "n = (m @ ''.gen'') @ CHR ''.'' # ''go''" by (auto simp: suffix_def)
  have "rsplit_once (CHR ''.'') n = Some (m @ ''.gen'', ''go'')"
    unfolding m rsplit_once_Some by simp
  with n show ?thesis by (simp add: lang_from_path_def lang_of_ext_def to_ascii_lowercase_def ascii_lower_def)
qed

lemma go_from_path:
  "lang_from_path p = Some Go \<Longrightarrow> \<exists>n. file_name p = Some n \<and> \<not> suffix ''.gen.go'' n \<and> \<not> prefix ''Dockerfile'' n"
  by (auto simp: lang_from_path_def lang_of_ext_def split: option.splits if_splits)

end
