(* ===== verification/Outcomes.thy ===== *)
theory Outcomes imports
  Langs
begin

text \<open>
  \<^verbatim>\<open>crates/core/src/outcome.rs\<close>: what a run reports about a file and as a whole. Lines, columns and
  scores are \<open>u32\<close>.
\<close>

datatype mode = Format | Check

datatype severity = SevError | SevWarning

record diagnostic =
  d_rule :: string
  d_file :: string
  d_line :: u32
  d_column :: u32
  d_message :: string
  d_severity :: severity

record complexity_score =
  s_key :: string
  s_name :: string
  s_line :: u32
  s_cyclomatic :: u32
  s_cognitive :: u32

record file_outcome =
  o_file :: string
  o_lang :: "lang option"
  o_applied :: "string list"
  o_changed :: bool
  o_violations :: "diagnostic list"
  o_lint :: "diagnostic list"
  o_complexity :: "complexity_score list"
  o_error :: "string option"

definition file_outcome_new :: "string \<Rightarrow> lang option \<Rightarrow> file_outcome" where
  "file_outcome_new file lang =
     \<lparr>o_file = file, o_lang = lang, o_applied = [], o_changed = False, o_violations = [],
      o_lint = [], o_complexity = [], o_error = None\<rparr>"

definition file_outcome_failed :: "string \<Rightarrow> lang option \<Rightarrow> string \<Rightarrow> file_outcome" where
  "file_outcome_failed file lang error = (file_outcome_new file lang)\<lparr>o_error := Some error\<rparr>"

record complexity_finding =
  c_file :: string
  c_rule :: string
  c_line :: u32
  c_key :: string
  c_message :: string

record vet_outcome =
  v_skipped :: "string option"
  v_targets :: "string list"
  v_errors :: "diagnostic list"

definition vet_default :: vet_outcome where
  "vet_default = \<lparr>v_skipped = None, v_targets = [], v_errors = []\<rparr>"

datatype run_result = Pass | Fixed | Fail

record report =
  r_schema :: u32
  r_mode :: mode
  r_result :: run_result
  r_files :: "file_outcome list"
  r_complexity :: "complexity_finding list"
  r_vet :: vet_outcome
  r_missing :: "string list"

definition REPORT_SCHEMA :: u32 where
  "REPORT_SCHEMA = 2"

lemma file_outcome_new_simps [simp]:
  "o_file (file_outcome_new f l) = f" "o_lang (file_outcome_new f l) = l"
  "o_applied (file_outcome_new f l) = []" "\<not> o_changed (file_outcome_new f l)"
  "o_violations (file_outcome_new f l) = []" "o_lint (file_outcome_new f l) = []"
  "o_complexity (file_outcome_new f l) = []" "o_error (file_outcome_new f l) = None"
  by (simp_all add: file_outcome_new_def)

lemma file_outcome_failed_simps [simp]:
  "o_file (file_outcome_failed f l e) = f" "o_error (file_outcome_failed f l e) = Some e"
  "\<not> o_changed (file_outcome_failed f l e)" "o_lang (file_outcome_failed f l e) = l"
  by (simp_all add: file_outcome_failed_def)

end
