(* ===== verification/Findings.thy ===== *)
theory Findings imports
  Outcomes
begin

text \<open>
  \<^verbatim>\<open>crates/report/src/findings.rs\<close> and the counts of \<^verbatim>\<open>lib.rs\<close>: everything a report says, grouped by
  path. The \<open>BTreeMap\<close> is a list of groups in ascending order of their path.
\<close>

section \<open>Model\<close>

record item =
  i_line :: u32
  i_column :: u32
  i_rule :: string
  i_message :: string
  i_severity :: severity

record group =
  g_file :: string
  g_items :: "item list"
  g_error :: "string option"
  g_applied :: "string list option"

definition item_of :: "diagnostic \<Rightarrow> item" where
  "item_of d = \<lparr>i_line = d_line d, i_column = d_column d, i_rule = d_rule d,
     i_message = d_message d, i_severity = d_severity d\<rparr>"

definition complexity_item :: "complexity_finding \<Rightarrow> item" where
  "complexity_item c = \<lparr>i_line = c_line c, i_column = 0, i_rule = c_rule c,
     i_message = c_message c, i_severity = SevError\<rparr>"

definition new_group :: "string \<Rightarrow> group" where
  "new_group file = \<lparr>g_file = file, g_items = [], g_error = None, g_applied = None\<rparr>"

text \<open>\<open>entry(file).or_insert_with(...)\<close>, then \<open>f\<close> on the group there.\<close>

fun entry_update :: "string \<Rightarrow> (group \<Rightarrow> group) \<Rightarrow> group list \<Rightarrow> group list" where
  "entry_update file f [] = [f (new_group file)]"
| "entry_update file f (g # gs) =
     (if g_file g = file then f g # gs
      else if file < g_file g then f (new_group file) # g # gs
      else g # entry_update file f gs)"

definition add_items :: "item list \<Rightarrow> group \<Rightarrow> group" where
  "add_items its g = g\<lparr>g_items := g_items g @ its\<rparr>"

definition is_clean :: "file_outcome \<Rightarrow> bool" where
  "is_clean f \<longleftrightarrow> \<not> o_changed f \<and> o_error f = None \<and> o_violations f = [] \<and> o_lint f = []"

definition add_file :: "file_outcome \<Rightarrow> group list \<Rightarrow> group list" where
  "add_file f gs =
     (if is_clean f then gs
      else entry_update (o_file f)
        (\<lambda>g. (add_items (map item_of (o_violations f @ o_lint f)) g)
           \<lparr>g_error := o_error f, g_applied := (if o_changed f then Some (o_applied f) else None)\<rparr>) gs)"

definition add_complexity :: "complexity_finding \<Rightarrow> group list \<Rightarrow> group list" where
  "add_complexity c gs = entry_update (c_file c) (add_items [complexity_item c]) gs"

definition add_vet :: "diagnostic \<Rightarrow> group list \<Rightarrow> group list" where
  "add_vet d gs = entry_update (d_file d) (add_items [item_of d]) gs"

definition sort_items :: "group \<Rightarrow> group" where
  "sort_items g = g\<lparr>g_items := sort_key (\<lambda>i. (i_line i, i_column i)) (g_items g)\<rparr>"

definition groups :: "report \<Rightarrow> group list" where
  "groups r =
     map sort_items
       (fold add_vet (v_errors (r_vet r))
         (fold add_complexity (r_complexity r)
           (fold add_file (r_files r) [])))"

section \<open>Specification\<close>

definition grouped :: "group list \<Rightarrow> (string \<times> item) multiset" where
  "grouped gs = mset (concat (map (\<lambda>g. map (Pair (g_file g)) (g_items g)) gs))"

definition file_findings :: "file_outcome \<Rightarrow> (string \<times> item) list" where
  "file_findings f = map (\<lambda>d. (o_file f, item_of d)) (o_violations f @ o_lint f)"

definition all_findings :: "report \<Rightarrow> (string \<times> item) list" where
  "all_findings r =
     concat (map file_findings (r_files r)) @
     map (\<lambda>c. (c_file c, complexity_item c)) (r_complexity r) @
     map (\<lambda>d. (d_file d, item_of d)) (v_errors (r_vet r))"

definition ordered_groups :: "group list \<Rightarrow> bool" where
  "ordered_groups gs \<longleftrightarrow> sorted_wrt (<) (map g_file gs)"

definition keeps_file :: "(group \<Rightarrow> group) \<Rightarrow> bool" where
  "keeps_file f \<longleftrightarrow> (\<forall>g. g_file (f g) = g_file g)"

section \<open>Facts\<close>

lemma grouped_simps [simp]:
  "grouped [] = {#}"
  "grouped (g # gs) = mset (map (Pair (g_file g)) (g_items g)) + grouped gs"
  by (simp_all add: grouped_def)

lemma new_group_simps [simp]: "g_file (new_group p) = p" "g_items (new_group p) = []"
  "g_error (new_group p) = None" "g_applied (new_group p) = None"
  by (simp_all add: new_group_def)

lemma add_items_simps [simp]: "g_file (add_items its g) = g_file g" "g_items (add_items its g) = g_items g @ its"
  "g_error (add_items its g) = g_error g" "g_applied (add_items its g) = g_applied g"
  by (simp_all add: add_items_def)

lemma files_entry_update:
  "keeps_file f \<Longrightarrow> g_file ` set (entry_update p f gs) = insert p (g_file ` set gs)"
  by (induction gs) (auto simp: keeps_file_def)

lemma ordered_entry_update:
  "keeps_file f \<Longrightarrow> ordered_groups gs \<Longrightarrow> ordered_groups (entry_update p f gs)"
proof (induction gs)
  case (Cons g gs)
  from Cons.prems have f: "\<And>g. g_file (f g) = g_file g" by (simp add: keeps_file_def)
  have "\<forall>q \<in> insert p (g_file ` set gs). g_file g < q" if "g_file g < p"
    using that Cons.prems by (auto simp: ordered_groups_def)
  moreover have "g_file ` set (entry_update p f gs) = insert p (g_file ` set gs)"
    using Cons.prems(1) by (rule files_entry_update)
  ultimately have "\<forall>h \<in> set (entry_update p f gs). g_file g < g_file h" if "g_file g < p"
    using that by (metis image_eqI)
  with Cons f show ?case by (auto simp: ordered_groups_def)
qed (simp add: ordered_groups_def)

lemma grouped_entry_update:
  "\<forall>g. g_file (f g) = g_file g \<and> g_items (f g) = g_items g @ its \<Longrightarrow>
     grouped (entry_update p f gs) = grouped gs + mset (map (Pair p) its)"
  by (induction gs) auto

lemma keeps_file_add [simp]: "keeps_file (add_items its)"
  "keeps_file (\<lambda>g. add_items its g\<lparr>g_error := e, g_applied := a\<rparr>)"
  by (simp_all add: keeps_file_def)

lemma grouped_add_file: "grouped (add_file f gs) = grouped gs + mset (file_findings f)"
proof (cases "is_clean f")
  case True
  then show ?thesis by (simp add: add_file_def file_findings_def is_clean_def)
next
  case False
  then show ?thesis
    unfolding add_file_def file_findings_def
    by (simp add: comp_def grouped_entry_update [where its = "map item_of (o_violations f @ o_lint f)"])
qed

lemma ordered_add: "ordered_groups gs \<Longrightarrow> ordered_groups (add_file f gs)"
  "ordered_groups gs \<Longrightarrow> ordered_groups (add_complexity c gs)"
  "ordered_groups gs \<Longrightarrow> ordered_groups (add_vet d gs)"
  by (simp_all add: add_file_def add_complexity_def add_vet_def ordered_entry_update)

lemma grouped_add: "grouped (add_complexity c gs) = grouped gs + {#(c_file c, complexity_item c)#}"
  "grouped (add_vet d gs) = grouped gs + {#(d_file d, item_of d)#}"
  by (simp_all add: add_complexity_def add_vet_def grouped_entry_update)

lemma ordered_fold:
  "(\<And>x gs. ordered_groups gs \<Longrightarrow> ordered_groups (f x gs)) \<Longrightarrow> ordered_groups gs \<Longrightarrow>
     ordered_groups (fold f xs gs)"
  by (induction xs arbitrary: gs) auto

lemma grouped_fold:
  "(\<And>x gs. grouped (f x gs) = grouped gs + mset (h x)) \<Longrightarrow>
     grouped (fold f xs gs) = grouped gs + mset (concat (map h xs))"
  by (induction xs arbitrary: gs) (auto simp: add.assoc)

lemma files_add:
  "g_file ` set (add_file f gs) = (if is_clean f then g_file ` set gs else insert (o_file f) (g_file ` set gs))"
  "g_file ` set (add_complexity c gs) = insert (c_file c) (g_file ` set gs)"
  "g_file ` set (add_vet d gs) = insert (d_file d) (g_file ` set gs)"
  by (simp_all add: add_file_def add_complexity_def add_vet_def files_entry_update)

lemma files_fold:
  "(\<And>x gs. g_file ` set (f x gs) = h x \<union> g_file ` set gs) \<Longrightarrow>
     g_file ` set (fold f xs gs) = (\<Union>x \<in> set xs. h x) \<union> g_file ` set gs"
  by (induction xs arbitrary: gs) auto

lemma sort_items_simps [simp]: "g_file (sort_items g) = g_file g"
  "mset (g_items (sort_items g)) = mset (g_items g)"
  "g_error (sort_items g) = g_error g" "g_applied (sort_items g) = g_applied g"
  by (simp_all add: sort_items_def)

lemma grouped_sort_items: "grouped (map sort_items gs) = grouped gs"
  by (induction gs) simp_all

lemma ordered_sort_items: "ordered_groups (map sort_items gs) = ordered_groups gs"
  by (simp add: ordered_groups_def comp_def)

section \<open>The counts of a report\<close>

record summary =
  sm_files :: nat
  sm_changed :: nat
  sm_violations :: nat
  sm_lint :: nat
  sm_complexity :: nat
  sm_vet :: nat
  sm_errors :: nat
  sm_missing :: nat

definition summary_of :: "report \<Rightarrow> summary" where
  "summary_of r =
     \<lparr>sm_files = length (r_files r),
      sm_changed = length (filter o_changed (r_files r)),
      sm_violations = sum_list (map (\<lambda>f. length (o_violations f)) (r_files r)),
      sm_lint = sum_list (map (\<lambda>f. length (o_lint f)) (r_files r)),
      sm_complexity = length (r_complexity r),
      sm_vet = length (v_errors (r_vet r)),
      sm_errors = length (filter (\<lambda>f. o_error f \<noteq> None) (r_files r)),
      sm_missing = length (r_missing r)\<rparr>"

fun mode_name :: "mode \<Rightarrow> string" where
  "mode_name Format = ''format''"
| "mode_name Check = ''check''"

fun result_name :: "run_result \<Rightarrow> string" where
  "result_name Pass = ''pass''"
| "result_name Fixed = ''fixed''"
| "result_name Fail = ''fail''"

lemma grouped_groups: "grouped (groups r) = mset (all_findings r)"
proof -
  have "grouped (fold add_file fs gs) = grouped gs + mset (concat (map file_findings fs))" for fs gs
    by (rule grouped_fold) (rule grouped_add_file)
  moreover have "grouped (fold add_complexity cs gs) =
      grouped gs + mset (concat (map (\<lambda>c. [(c_file c, complexity_item c)]) cs))" for cs gs
    by (rule grouped_fold) (simp add: grouped_add)
  moreover have "grouped (fold add_vet ds gs) =
      grouped gs + mset (concat (map (\<lambda>d. [(d_file d, item_of d)]) ds))" for ds gs
    by (rule grouped_fold) (simp add: grouped_add)
  ultimately show ?thesis
    by (simp add: groups_def grouped_sort_items all_findings_def add.assoc concat_map_singleton)
qed

lemma ordered_groups_groups: "ordered_groups (groups r)"
  unfolding groups_def ordered_sort_items
  by (intro ordered_fold) (simp_all add: ordered_add, simp add: ordered_groups_def)

lemma files_groups:
  "g_file ` set (groups r) =
     {o_file f | f. f \<in> set (r_files r) \<and> \<not> is_clean f} \<union> c_file ` set (r_complexity r) \<union>
       d_file ` set (v_errors (r_vet r))"
proof -
  have "g_file ` set (fold add_file fs gs) = (\<Union>f \<in> set fs. if is_clean f then {} else {o_file f}) \<union> g_file ` set gs" for fs gs
    by (rule files_fold) (simp add: files_add)
  moreover have "g_file ` set (fold add_complexity cs gs) = (\<Union>c \<in> set cs. {c_file c}) \<union> g_file ` set gs" for cs gs
    by (rule files_fold) (simp add: files_add)
  moreover have "g_file ` set (fold add_vet ds gs) = (\<Union>d \<in> set ds. {d_file d}) \<union> g_file ` set gs" for ds gs
    by (rule files_fold) (simp add: files_add)
  ultimately show ?thesis
    by (auto simp: groups_def image_image split: if_splits)
qed

lemma concat_map_pairs:
  "concat (map (\<lambda>f. map (Pair (p f)) (h f)) fs) = concat (map (\<lambda>f. map (\<lambda>x. (p f, x)) (h f)) fs)"
  by simp

lemma sum_group_items: "sum_list (map (\<lambda>g. length (g_items g)) gs) = size (grouped gs)"
  by (induction gs) auto

lemma length_all_findings:
  "length (all_findings r) =
     sm_violations (summary_of r) + sm_lint (summary_of r) + sm_complexity (summary_of r) + sm_vet (summary_of r)"
proof -
  have "length (concat (map file_findings fs)) =
      (\<Sum>f \<leftarrow> fs. length (o_violations f)) + (\<Sum>f \<leftarrow> fs. length (o_lint f))" for fs
    by (induction fs) (auto simp: file_findings_def)
  then show ?thesis by (simp add: all_findings_def summary_of_def)
qed

section \<open>Properties\<close>

text \<open>
  Grouping neither loses nor repeats a finding: the findings of the groups, each with the path of
  its group, are exactly the violations and lint diagnostics of the files, the complexity findings and
  the vet errors of the report, as a multiset; groups are strictly ordered by path, the items of each
  are ordered by line and column, and a path has a group exactly when something is said about it.
\<close>

theorem groups_complete:
  "mset (concat (map (\<lambda>g. map (Pair (g_file g)) (g_items g)) (groups r))) = mset (all_findings r) \<and>
   sorted_wrt (<) (map g_file (groups r)) \<and>
   list_all (\<lambda>g. sorted (map (\<lambda>i. (i_line i, i_column i)) (g_items g))) (groups r) \<and>
   g_file ` set (groups r) =
     {o_file f | f. f \<in> set (r_files r) \<and> \<not> is_clean f} \<union> c_file ` set (r_complexity r) \<union>
       d_file ` set (v_errors (r_vet r))"
  using grouped_groups [of r] ordered_groups_groups [of r] files_groups [of r]
  by (auto simp: grouped_def ordered_groups_def groups_def sort_items_def list_all_iff)

text \<open>
  The counts on the last line of every report are those of what the report shows: the number of
  grouped items is the sum of the violation, lint, complexity and vet counts.
\<close>

theorem summary_counts_groups:
  "sum_list (map (\<lambda>g. length (g_items g)) (groups r)) =
     sm_violations (summary_of r) + sm_lint (summary_of r) + sm_complexity (summary_of r) + sm_vet (summary_of r)"
  by (simp add: sum_group_items grouped_groups flip: length_all_findings)

end
