(* ===== verification/Render.thy ===== *)
theory Render imports
  Findings
begin

text \<open>
  \<^verbatim>\<open>crates/report/src/agent.rs\<close>, \<^verbatim>\<open>text.rs\<close> and \<^verbatim>\<open>json.rs\<close>: the three renderings of a report. Writing to
  a \<open>String\<close> cannot fail, so each is a function from the report to the bytes written. The JSON
  printer is \<open>serde_json\<close>, so the model stops at the document handed to it.
\<close>

section \<open>Lines for agents\<close>

definition one_line :: "string \<Rightarrow> string" where
  "one_line message =
     join_with [CHR 0x5C, CHR ''n'']
       (map (filter (\<lambda>c. c \<noteq> carriage_return)) (split_on newline (trim_end message))) @ [newline]"

definition u32_text :: "u32 \<Rightarrow> string" where
  "u32_text w = decimal (unat w)"

definition agent_position :: "string \<Rightarrow> u32 \<Rightarrow> u32 \<Rightarrow> string" where
  "agent_position path line column =
     (if line = 0 then path
      else if column = 0 then path @ '':'' @ u32_text line
      else path @ '':'' @ u32_text line @ '':'' @ u32_text column)"

definition agent_item :: "string \<Rightarrow> item \<Rightarrow> string" where
  "agent_item path i =
     agent_position path (i_line i) (i_column i) @ '' '' @ i_rule i @ '' '' @
     (if i_severity i = SevWarning then ''warning: '' else []) @ one_line (i_message i)"

definition agent_path :: "group \<Rightarrow> string" where
  "agent_path g = (if g_file g = [] then ''workspace'' else g_file g)"

definition agent_error :: "group \<Rightarrow> string" where
  "agent_error g = (case g_error g of None \<Rightarrow> [] | Some e \<Rightarrow> agent_path g @ '' error '' @ one_line e)"

definition agent_applied :: "bool \<Rightarrow> group \<Rightarrow> string" where
  "agent_applied check g =
     (case g_applied g of
        None \<Rightarrow> []
      | Some applied \<Rightarrow>
          agent_path g @ '' format '' @ (if check then ''would apply'' else ''applied'') @ '' '' @
          (if applied = [] then ''formatting'' else join_with '', '' applied) @ [newline])"

definition agent_group :: "bool \<Rightarrow> group \<Rightarrow> string" where
  "agent_group check g =
     concat (map (agent_item (agent_path g)) (g_items g)) @ agent_error g @ agent_applied check g"

definition agent_summary :: "report \<Rightarrow> string" where
  "agent_summary r =
     (let s = summary_of r in
      ''fmtkit schema='' @ u32_text REPORT_SCHEMA @ '' mode='' @ mode_name (r_mode r) @
      '' result='' @ result_name (r_result r) @ '' files='' @ decimal (sm_files s) @
      '' changed='' @ decimal (sm_changed s) @ '' violations='' @ decimal (sm_violations s) @
      '' lint='' @ decimal (sm_lint s) @ '' complexity='' @ decimal (sm_complexity s) @
      '' vet='' @ decimal (sm_vet s) @ '' errors='' @ decimal (sm_errors s) @
      '' missing='' @ decimal (sm_missing s) @ [newline])"

definition agent_render :: "report \<Rightarrow> string" where
  "agent_render r =
     concat (map (agent_group (r_mode r = Check)) (groups r)) @
     concat (map (\<lambda>p. p @ '' missing path not found'' @ [newline]) (r_missing r)) @
     agent_summary r"

section \<open>Text for people\<close>

definition escape :: char where
  "escape = CHR 0x1B"

definition BOLD :: string where "BOLD = ''1''"
definition RED :: string where "RED = ''31''"
definition GREEN :: string where "GREEN = ''32''"
definition YELLOW :: string where "YELLOW = ''33''"
definition MAGENTA :: string where "MAGENTA = ''35''"
definition PATH :: string where "PATH = ''1;36''"

definition paint :: "bool \<Rightarrow> string \<Rightarrow> string \<Rightarrow> string" where
  "paint color style s =
     (if color then [escape] @ ''['' @ style @ ''m'' @ s @ [escape] @ ''[0m'' else s)"

definition text_line :: "bool \<Rightarrow> string \<Rightarrow> string \<Rightarrow> string" where
  "text_line color style s = paint color style s @ [newline]"

definition text_message :: "string \<Rightarrow> string" where
  "text_message message = join_with (newline # ''      '') (split_on newline message) @ [newline]"

definition text_item :: "bool \<Rightarrow> item \<Rightarrow> string" where
  "text_item color i =
     ''    '' @ paint color MAGENTA (''['' @ i_rule i @ '']'') @ '' '' @
     (if i_line i = 0 then []
      else if i_column i = 0 then ''line '' @ u32_text (i_line i) @ '': ''
      else ''line '' @ u32_text (i_line i) @ '':'' @ u32_text (i_column i) @ '': '') @
     (if i_severity i = SevWarning then paint color YELLOW ''warning'' @ '': '' else []) @
     text_message (i_message i)"

definition applied_verb :: "bool \<Rightarrow> string list \<Rightarrow> string" where
  "applied_verb check applied =
     (if check \<and> applied = [] then ''would reformat''
      else if applied = [] then ''reformatted''
      else if check then ''would apply '' @ join_with '', '' applied
      else ''applied '' @ join_with '', '' applied)"

definition check_mark :: string where
  "check_mark = [CHR 0xE2, CHR 0x9C, CHR 0x93]"

definition text_group :: "bool \<Rightarrow> bool \<Rightarrow> bool \<Rightarrow> group \<Rightarrow> string" where
  "text_group color check show_applied g =
     text_line color PATH (''  '' @ (if g_file g = [] then ''workspace'' else g_file g)) @
     concat (map (text_item color) (g_items g)) @
     (case g_error g of
        None \<Rightarrow> []
      | Some e \<Rightarrow> text_message (paint color RED (''    ! '' @ e))) @
     (case g_applied g of
        None \<Rightarrow> []
      | Some applied \<Rightarrow>
          if show_applied
          then text_line color GREEN (''    '' @ check_mark @ '' '' @ applied_verb check applied)
          else []) @
     [newline]"

definition text_vet :: "bool \<Rightarrow> vet_outcome \<Rightarrow> string \<times> bool" where
  "text_vet color v =
     (case v_skipped v of
        Some reason \<Rightarrow> (text_line color YELLOW (''  Skipped go vet: '' @ reason @ ''.''), True)
      | None \<Rightarrow>
          if v_errors v = [] \<and> v_targets v \<noteq> []
          then (text_line color GREEN
                  (''  go vet passed on '' @ decimal (length (v_targets v)) @ '' target(s).''), True)
          else ([], False))"

record options =
  op_color :: bool
  op_quiet :: bool

definition text_scope :: "report \<Rightarrow> options \<Rightarrow> string" where
  "text_scope r opt =
     (if op_quiet opt then []
      else (if sm_files (summary_of r) = 0
            then text_line (op_color opt) YELLOW ''  No files in scope.''
            else text_line (op_color opt) (BOLD @ '';'' @ GREEN)
              (''  '' @ (if r_mode r = Check then ''Checked'' else ''Formatted'') @ '' '' @
               decimal (sm_files (summary_of r)) @ '' file(s).'')) @ [newline])"

definition shown_group :: "report \<Rightarrow> options \<Rightarrow> group \<Rightarrow> bool" where
  "shown_group r opt g \<longleftrightarrow>
     \<not> (g_items g = [] \<and> g_error g = None \<and> \<not> (r_mode r = Check \<or> \<not> op_quiet opt))"

definition text_result :: "report \<Rightarrow> options \<Rightarrow> string" where
  "text_result r opt =
     (let s = summary_of r;
          tone = (case r_result r of Fail \<Rightarrow> RED | _ \<Rightarrow> GREEN) in
      text_line (op_color opt) (BOLD @ '';'' @ tone)
        (''  Result: '' @ result_name (r_result r) @ ''. '' @ decimal (sm_files s) @ '' file(s), '' @
         decimal (sm_changed s) @ '' changed, '' @ decimal (sm_violations s) @ '' violation(s), '' @
         decimal (sm_lint s) @ '' lint, '' @ decimal (sm_complexity s) @ '' complexity, '' @
         decimal (sm_vet s) @ '' vet, '' @ decimal (sm_errors s) @ '' error(s).''))"

definition text_render :: "report \<Rightarrow> options \<Rightarrow> string" where
  "text_render r opt =
     text_scope r opt @
     concat (map (text_group (op_color opt) (r_mode r = Check) (r_mode r = Check \<or> \<not> op_quiet opt))
       (filter (shown_group r opt) (groups r))) @
     (if op_quiet opt then []
      else case text_vet (op_color opt) (r_vet r) of (s, wrote) \<Rightarrow> s @ (if wrote then [newline] else [])) @
     concat (map (\<lambda>p. text_line (op_color opt) YELLOW (''  ! path not found: '' @ p)) (r_missing r)) @
     (if r_missing r = [] then [] else [newline]) @
     text_result r opt"

section \<open>The JSON document\<close>

record json_finding =
  jf_rule :: string
  jf_line :: u32
  jf_column :: u32
  jf_message :: string
  jf_severity :: severity

record json_entry =
  je_file :: string
  je_lang :: "lang option"
  je_changed :: bool
  je_applied :: "string list"
  je_violations :: "json_finding list"
  je_lint :: "json_finding list"
  je_error :: "string option"

record json_vet =
  jv_status :: string
  jv_reason :: "string option"
  jv_targets :: "string list"
  jv_errors :: "diagnostic list"

record document =
  doc_schema :: u32
  doc_mode :: string
  doc_result :: string
  doc_summary :: summary
  doc_files :: "json_entry list"
  doc_complexity :: "complexity_finding list"
  doc_vet :: json_vet
  doc_missing :: "string list"

definition json_finding_of :: "diagnostic \<Rightarrow> json_finding" where
  "json_finding_of d = \<lparr>jf_rule = d_rule d, jf_line = d_line d, jf_column = d_column d,
     jf_message = d_message d, jf_severity = d_severity d\<rparr>"

definition says_something :: "file_outcome \<Rightarrow> bool" where
  "says_something f \<longleftrightarrow> o_changed f \<or> o_error f \<noteq> None \<or> o_violations f \<noteq> [] \<or> o_lint f \<noteq> []"

definition json_entry_of :: "file_outcome \<Rightarrow> json_entry" where
  "json_entry_of f =
     \<lparr>je_file = o_file f, je_lang = o_lang f, je_changed = o_changed f,
      je_applied = (if o_changed f then o_applied f else []),
      je_violations = map json_finding_of (o_violations f),
      je_lint = map json_finding_of (o_lint f), je_error = o_error f\<rparr>"

definition json_vet_of :: "vet_outcome \<Rightarrow> json_vet" where
  "json_vet_of v =
     \<lparr>jv_status =
        (if v_errors v \<noteq> [] then ''fail''
         else if v_skipped v = None \<and> v_targets v \<noteq> [] then ''pass''
         else ''skipped''),
      jv_reason = v_skipped v, jv_targets = v_targets v, jv_errors = v_errors v\<rparr>"

definition json_document :: "report \<Rightarrow> document" where
  "json_document r =
     \<lparr>doc_schema = REPORT_SCHEMA, doc_mode = mode_name (r_mode r),
      doc_result = result_name (r_result r), doc_summary = summary_of r,
      doc_files = map json_entry_of (filter says_something (r_files r)),
      doc_complexity = r_complexity r, doc_vet = json_vet_of (r_vet r), doc_missing = r_missing r\<rparr>"

datatype format = TextFormat | JsonFormat | AgentFormat

definition render_report :: "(document \<Rightarrow> string option) \<Rightarrow> format \<Rightarrow> options \<Rightarrow> report \<Rightarrow> string option" where
  "render_report to_string_pretty f opt r =
     (case f of
        TextFormat \<Rightarrow> Some (text_render r opt)
      | JsonFormat \<Rightarrow> map_option (\<lambda>s. s @ [newline]) (to_string_pretty (json_document r))
      | AgentFormat \<Rightarrow> Some (agent_render r))"

section \<open>Where the strings of a rendering come from\<close>

definition report_diagnostics :: "report \<Rightarrow> diagnostic set" where
  "report_diagnostics r =
     (\<Union>f \<in> set (r_files r). set (o_violations f) \<union> set (o_lint f)) \<union> set (v_errors (r_vet r))"

definition report_paths :: "report \<Rightarrow> string set" where
  "report_paths r = o_file ` set (r_files r) \<union> c_file ` set (r_complexity r) \<union> d_file ` report_diagnostics r"

definition report_rules :: "report \<Rightarrow> string set" where
  "report_rules r = d_rule ` report_diagnostics r \<union> c_rule ` set (r_complexity r)"

definition report_messages :: "report \<Rightarrow> string set" where
  "report_messages r = d_message ` report_diagnostics r \<union> c_message ` set (r_complexity r) \<union>
     {e. \<exists>f \<in> set (r_files r). o_error f = Some e}"

definition report_steps :: "report \<Rightarrow> string set" where
  "report_steps r = (\<Union>f \<in> set (r_files r). set (o_applied f))"

definition of_report :: "report \<Rightarrow> group \<Rightarrow> bool" where
  "of_report r g \<longleftrightarrow>
     (\<forall>i \<in> set (g_items g). i_rule i \<in> report_rules r \<and> i_message i \<in> report_messages r) \<and>
     (\<forall>e. g_error g = Some e \<longrightarrow> e \<in> report_messages r) \<and>
     (\<forall>a. g_applied g = Some a \<longrightarrow> set a \<subseteq> report_steps r)"

lemma entry_update_all:
  "\<forall>g \<in> set gs. P g \<Longrightarrow> P (new_group p) \<Longrightarrow> (\<And>g. P g \<Longrightarrow> P (f g)) \<Longrightarrow>
     \<forall>g \<in> set (entry_update p f gs). P g"
  by (induction gs) auto

definition keeps_all :: "(group \<Rightarrow> bool) \<Rightarrow> (group list \<Rightarrow> group list) \<Rightarrow> bool" where
  "keeps_all P h \<longleftrightarrow> (\<forall>gs. (\<forall>g \<in> set gs. P g) \<longrightarrow> (\<forall>g \<in> set (h gs). P g))"

lemma keeps_allD: "keeps_all P h \<Longrightarrow> \<forall>g \<in> set gs. P g \<Longrightarrow> \<forall>g \<in> set (h gs). P g"
  unfolding keeps_all_def by blast

lemma keeps_all_id: "keeps_all P id"
  by (simp add: keeps_all_def)

lemma keeps_all_comp: "keeps_all P h \<Longrightarrow> keeps_all P k \<Longrightarrow> keeps_all P (k \<circ> h)"
  unfolding keeps_all_def comp_def by blast

lemma keeps_all_if: "keeps_all P h \<Longrightarrow> keeps_all P (\<lambda>gs. if b then gs else h gs)"
  unfolding keeps_all_def by simp

lemma fold_all:
  "\<forall>x \<in> set xs. keeps_all P (f x) \<Longrightarrow> keeps_all P (fold f xs)"
  by (induction xs) (auto intro: keeps_all_comp simp: keeps_all_id)

lemma of_report_new: "of_report r (new_group p)"
  by (simp add: of_report_def)

lemma of_report_entry:
  "\<forall>g. of_report r g \<longrightarrow> of_report r (f g) \<Longrightarrow> keeps_all (of_report r) (entry_update p f)"
  unfolding keeps_all_def
proof (intro allI impI)
  fix gs assume "\<forall>g. of_report r g \<longrightarrow> of_report r (f g)" "\<forall>g \<in> set gs. of_report r g"
  then show "\<forall>g \<in> set (entry_update p f gs). of_report r g"
    by (intro entry_update_all) (simp_all add: of_report_new)
qed

lemma of_report_sort [simp]: "of_report r (sort_items g) = of_report r g"
  by (simp add: of_report_def sort_items_def)

lemma of_report_add_items:
  "of_report r g \<Longrightarrow> \<forall>i \<in> set its. i_rule i \<in> report_rules r \<and> i_message i \<in> report_messages r \<Longrightarrow>
     of_report r (add_items its g)"
  by (auto simp: of_report_def)

lemma item_of_report:
  "d \<in> report_diagnostics r \<Longrightarrow> i_rule (item_of d) \<in> report_rules r \<and> i_message (item_of d) \<in> report_messages r"
  "c \<in> set (r_complexity r) \<Longrightarrow>
     i_rule (complexity_item c) \<in> report_rules r \<and> i_message (complexity_item c) \<in> report_messages r"
  by (auto simp: item_of_def complexity_item_def report_rules_def report_messages_def)

lemma of_report_add_item:
  "i_rule i \<in> report_rules r \<and> i_message i \<in> report_messages r \<Longrightarrow>
     keeps_all (of_report r) (entry_update p (add_items [i]))"
  by (rule of_report_entry) (simp add: of_report_add_items)

lemma of_report_add_file:
  assumes "f \<in> set (r_files r)"
  shows "keeps_all (of_report r) (add_file f)"
proof -
  have d: "set (o_violations f) \<union> set (o_lint f) \<subseteq> report_diagnostics r"
    using assms(1) by (auto simp: report_diagnostics_def)
  have "of_report r (add_items (map item_of (o_violations f @ o_lint f)) g
      \<lparr>g_error := o_error f, g_applied := if o_changed f then Some (o_applied f) else None\<rparr>)"
    if "of_report r g" for g
  proof -
    have "of_report r (add_items (map item_of (o_violations f @ o_lint f)) g)"
      using that d item_of_report(1) by (intro of_report_add_items) auto
    then show ?thesis using assms(1)
      by (auto simp: of_report_def report_messages_def report_steps_def)
  qed
  then have "keeps_all (of_report r) (entry_update (o_file f)
      (\<lambda>g. add_items (map item_of (o_violations f @ o_lint f)) g
        \<lparr>g_error := o_error f, g_applied := if o_changed f then Some (o_applied f) else None\<rparr>))"
    by (intro of_report_entry) blast
  then show ?thesis unfolding add_file_def [abs_def] by (rule keeps_all_if)
qed

lemma of_report_groups: "\<forall>g \<in> set (groups r). of_report r g"
proof -
  have "keeps_all (of_report r) (fold add_file (r_files r))"
    by (intro fold_all ballI of_report_add_file)
  moreover have "keeps_all (of_report r) (fold add_complexity (r_complexity r))"
    unfolding add_complexity_def [abs_def] by (intro fold_all ballI of_report_add_item item_of_report)
  moreover have "keeps_all (of_report r) (fold add_vet (v_errors (r_vet r)))"
    unfolding add_vet_def [abs_def]
    by (intro fold_all ballI of_report_add_item item_of_report) (simp add: report_diagnostics_def)
  ultimately have "keeps_all (of_report r) (fold add_vet (v_errors (r_vet r)) \<circ>
      (fold add_complexity (r_complexity r) \<circ> fold add_file (r_files r)))"
    by (intro keeps_all_comp)
  from keeps_allD [OF this, of "[]"] show ?thesis by (simp add: groups_def)
qed

lemma file_in_report: "g \<in> set (groups r) \<Longrightarrow> g_file g \<in> report_paths r"
  using files_groups [of r] by (auto simp: report_paths_def report_diagnostics_def)

section \<open>Line breaks and escapes\<close>

lemma one_line_newline: "count_list (one_line m) newline = 1"
proof -
  let ?ws = "map (filter (\<lambda>c. c \<noteq> carriage_return)) (split_on newline (trim_end m))"
  have "newline \<notin> \<Union> (set ` set ?ws)" by (auto dest: split_on_pieces)
  moreover have "set (join_with [CHR 0x5C, CHR ''n''] ?ws) \<subseteq> {CHR 0x5C, CHR ''n''} \<union> \<Union> (set ` set ?ws)"
    using set_join_with [of "[CHR 0x5C, CHR ''n'']" ?ws] by simp
  ultimately have "newline \<notin> set (join_with [CHR 0x5C, CHR ''n''] ?ws)" by auto
  then show ?thesis by (simp add: one_line_def count_notin)
qed

lemma u32_text_plain: "newline \<notin> set (u32_text w)" "escape \<notin> set (u32_text w)"
  by (simp_all add: u32_text_def decimal_plain escape_def)

definition plain_names :: "report \<Rightarrow> bool" where
  "plain_names r \<longleftrightarrow>
     (\<forall>s \<in> report_paths r \<union> report_rules r \<union> report_steps r \<union> set (r_missing r). newline \<notin> set s)"

lemma agent_position_plain: "newline \<notin> set p \<Longrightarrow> newline \<notin> set (agent_position p l c)"
  by (simp add: agent_position_def u32_text_plain)

lemma agent_item_newline:
  "newline \<notin> set p \<Longrightarrow> newline \<notin> set (i_rule i) \<Longrightarrow> count_list (agent_item p i) newline = 1"
  by (simp add: agent_item_def one_line_newline count_notin agent_position_plain)

definition group_lines :: "group \<Rightarrow> nat" where
  "group_lines g = length (g_items g) + (if g_error g = None then 0 else 1) + (if g_applied g = None then 0 else 1)"

lemma agent_group_newline:
  assumes "of_report r g" "g_file g \<in> report_paths r" "plain_names r"
  shows "count_list (agent_group check g) newline = group_lines g"
proof -
  have p: "newline \<notin> set (agent_path g)"
    using assms by (auto simp: agent_path_def plain_names_def)
  have i: "newline \<notin> set (i_rule i)" if "i \<in> set (g_items g)" for i
    using assms that by (auto simp: of_report_def plain_names_def)
  have "sum_list (map (\<lambda>i. count_list (agent_item (agent_path g) i) newline) (g_items g)) = length (g_items g)"
    using p i by (simp add: agent_item_newline sum_list_triv cong: map_cong)
  moreover have "count_list (agent_error g) newline = (if g_error g = None then 0 else 1)"
    using p by (auto simp: agent_error_def one_line_newline count_notin split: option.split)
  moreover have "newline \<notin> set (join_with '', '' a)" if "g_applied g = Some a" for a
  proof -
    have "\<forall>s \<in> set a. newline \<notin> set s" using assms that by (fastforce simp: of_report_def plain_names_def)
    then show ?thesis using set_join_with [of "'', ''" a] by auto
  qed
  then have "count_list (agent_applied check g) newline = (if g_applied g = None then 0 else 1)"
    using p by (auto simp: agent_applied_def count_notin split: option.split)
  ultimately show ?thesis
    by (simp add: agent_group_def group_lines_def count_list_concat comp_def)
qed

lemma name_plain: "newline \<notin> set (mode_name m)" "newline \<notin> set (result_name v)"
  "escape \<notin> set (result_name v)"
  by (cases m; simp) (cases v; simp add: escape_def)+

lemma agent_summary_newline: "count_list (agent_summary r) newline = 1"
  by (simp add: agent_summary_def Let_def count_notin decimal_plain u32_text_plain name_plain)

lemma sum_group_lines:
  "sum_list (map group_lines gs) = size (grouped gs) + length (filter (\<lambda>g. g_error g \<noteq> None) gs) +
     length (filter (\<lambda>g. g_applied g \<noteq> None) gs)"
  by (induction gs) (auto simp: group_lines_def)

definition plain_text :: "report \<Rightarrow> bool" where
  "plain_text r \<longleftrightarrow>
     (\<forall>s \<in> report_paths r \<union> report_rules r \<union> report_messages r \<union> report_steps r \<union> set (r_missing r) \<union>
        set_option (v_skipped (r_vet r)). escape \<notin> set s)"

lemma escape_literals [simp]: "escape \<noteq> newline" "escape \<noteq> CHR '' ''"
  by (simp_all add: escape_def)

lemma text_message_plain: "escape \<notin> set m \<Longrightarrow> escape \<notin> set (text_message m)"
  using set_join_with [of "newline # ''      ''" "split_on newline m"] split_on_subset [of _ newline m]
  by (auto simp: text_message_def escape_def)

lemma text_item_plain:
  "escape \<notin> set (i_rule i) \<Longrightarrow> escape \<notin> set (i_message i) \<Longrightarrow> escape \<notin> set (text_item False i)"
  using u32_text_plain(2) text_message_plain [of "i_message i"]
  by (simp add: text_item_def paint_def escape_def)

lemma applied_verb_plain: "\<forall>s \<in> set a. escape \<notin> set s \<Longrightarrow> escape \<notin> set (applied_verb check a)"
  using set_join_with [of "'', ''" a] by (auto simp: applied_verb_def escape_def)

lemma text_group_plain:
  assumes "of_report r g" "g_file g \<in> report_paths r" "plain_text r"
  shows "escape \<notin> set (text_group False check shown g)"
proof -
  have f: "escape \<notin> set (g_file g)" using assms by (simp add: plain_text_def)
  have i: "escape \<notin> set (text_item False i)" if "i \<in> set (g_items g)" for i
    using assms that by (intro text_item_plain) (auto simp: of_report_def plain_text_def)
  have e: "escape \<notin> set (text_message (''    ! '' @ m))" if "g_error g = Some m" for m
    using assms that by (intro text_message_plain) (auto simp: of_report_def plain_text_def escape_def)
  have a: "escape \<notin> set (applied_verb check a)" if "g_applied g = Some a" for a
    using assms that by (intro applied_verb_plain) (fastforce simp: of_report_def plain_text_def)
  have "escape \<notin> set (concat (map (text_item False) (g_items g)))" using i by auto
  with f e a show ?thesis
    by (simp add: text_group_def text_line_def paint_def check_mark_def split: option.split) (simp add: escape_def)
qed

section \<open>Properties\<close>

text \<open>
  The form for agents has one line per thing reported: when no path, rule, step or missing path
  contains a line break, the number of line breaks written is the number of findings (whatever line
  breaks their messages contain), files that failed, files that changed and missing paths, and one.
\<close>

theorem agent_one_line_each:
  assumes "plain_names r"
  shows "count_list (agent_render r) newline =
     length (all_findings r) + length (filter (\<lambda>g. g_error g \<noteq> None) (groups r)) +
     length (filter (\<lambda>g. g_applied g \<noteq> None) (groups r)) + length (r_missing r) + 1"
proof -
  have "(\<Sum>g \<leftarrow> groups r. count_list (agent_group check g) newline) = sum_list (map group_lines (groups r))" for check
    using of_report_groups [of r] file_in_report [of _ r] assms
    by (intro arg_cong [where f = sum_list] map_cong refl agent_group_newline [of r]) auto
  moreover have "count_list (concat (map (\<lambda>p. p @ '' missing path not found'' @ [newline]) ps)) newline = length ps"
    if "\<forall>p \<in> set ps. newline \<notin> set p" for ps
    using that by (induction ps) (auto simp: count_notin)
  moreover have "\<forall>p \<in> set (r_missing r). newline \<notin> set p" using assms by (simp add: plain_names_def)
  moreover have "size (grouped (groups r)) = length (all_findings r)" by (simp add: grouped_groups)
  ultimately show ?thesis
    by (simp add: agent_render_def count_list_concat comp_def agent_summary_newline sum_group_lines)
qed

definition sample_report :: report where
  "sample_report =
     \<lparr>r_schema = 2, r_mode = Check, r_result = Fail,
      r_files = [(file_outcome_new ''a.ts'' (Some Ts))
        \<lparr>o_changed := True, o_applied := [''oxfmt''],
         o_lint := [\<lparr>d_rule = ''no-var'', d_file = ''a.ts'', d_line = 3, d_column = 1,
           d_message = ''bad'' @ [newline] @ ''very'', d_severity = SevError\<rparr>]\<rparr>],
      r_complexity = [], r_vet = vet_default, r_missing = [''b.ts'']\<rparr>"

theorem agent_one_line_each_witness: "count_list (agent_render sample_report) newline = 4"
proof -
  have "plain_names sample_report"
    by (simp add: plain_names_def sample_report_def report_paths_def report_rules_def report_steps_def
        report_diagnostics_def vet_default_def)
  moreover have "length (all_findings sample_report) = 1" "length (r_missing sample_report) = 1"
    "length (filter (\<lambda>g. g_error g \<noteq> None) (groups sample_report)) = 0"
    "length (filter (\<lambda>g. g_applied g \<noteq> None) (groups sample_report)) = 1"
    by (simp_all add: all_findings_def file_findings_def groups_def add_file_def is_clean_def
        sample_report_def vet_default_def)
  ultimately show ?thesis by (simp add: agent_one_line_each)
qed

text \<open>
  Without \<open>color\<close> the text form adds no terminal escape of its own: when no string of the report
  contains an escape character, neither does the output.
\<close>

theorem text_without_color_is_plain:
  assumes "plain_text r" "\<not> op_color opt"
  shows "escape \<notin> set (text_render r opt)"
proof -
  have "escape \<notin> set (text_group False check shown g)" if "g \<in> set (groups r)" for check shown g
    using that assms of_report_groups [of r] file_in_report [of g r] by (intro text_group_plain [of r]) auto
  moreover have "escape \<notin> set (text_scope r opt)" "escape \<notin> set (text_result r opt)"
    using assms name_plain(3) decimal_plain(2)
    by (simp_all add: text_scope_def text_result_def text_line_def paint_def Let_def) (simp_all add: escape_def)
  moreover obtain v w where vw: "text_vet False (r_vet r) = (v, w)" by fastforce
  then have "escape \<notin> set v"
    using assms decimal_plain(2)
    by (auto simp: text_vet_def text_line_def paint_def plain_text_def split: option.splits if_splits)
      (simp_all add: escape_def)
  moreover have "\<forall>p \<in> set (r_missing r). escape \<notin> set p" using assms by (simp add: plain_text_def)
  ultimately show ?thesis
    using assms(2) vw
    by (auto simp: text_render_def text_line_def paint_def split: prod.splits) (simp_all add: escape_def)
qed

theorem text_without_color_is_plain_witness:
  "escape \<notin> set (text_render sample_report \<lparr>op_color = False, op_quiet = False\<rparr>)"
proof -
  have "plain_text sample_report"
    by (simp add: plain_text_def sample_report_def report_paths_def report_rules_def report_steps_def
        report_messages_def report_diagnostics_def vet_default_def escape_def)
  then show ?thesis by (rule text_without_color_is_plain) simp
qed

text \<open>
  The JSON document and the other renderings report the same: it lists exactly the files that
  have something to say, in order, and the diagnostics it carries (with the complexity findings and vet
  errors) are as many as the items shown by path; vet is \<open>fail\<close> exactly when it has errors.
\<close>

theorem json_agrees_with_groups:
  "map je_file (doc_files (json_document r)) = map o_file (filter (\<lambda>f. \<not> is_clean f) (r_files r)) \<and>
   (\<Sum>e \<leftarrow> doc_files (json_document r). length (je_violations e) + length (je_lint e)) +
     length (doc_complexity (json_document r)) + length (jv_errors (doc_vet (json_document r))) =
     (\<Sum>g \<leftarrow> groups r. length (g_items g)) \<and>
   (jv_status (doc_vet (json_document r)) = ''fail'' \<longleftrightarrow> v_errors (r_vet r) \<noteq> [])"
proof -
  have "map je_file (map json_entry_of (filter says_something fs)) = map o_file (filter (\<lambda>f. \<not> is_clean f) fs)" for fs
    by (induction fs) (auto simp: says_something_def is_clean_def json_entry_of_def)
  moreover have "(\<Sum>e \<leftarrow> map json_entry_of (filter says_something fs). length (je_violations e) + length (je_lint e)) =
      (\<Sum>f \<leftarrow> fs. length (o_violations f)) + (\<Sum>f \<leftarrow> fs. length (o_lint f))" for fs
    by (induction fs) (auto simp: says_something_def json_entry_of_def)
  ultimately show ?thesis
    by (simp add: json_document_def json_vet_of_def sum_group_items grouped_groups length_all_findings summary_of_def)
qed

end
