(* ===== verification/Shards.thy ===== *)
theory Shards imports
  Prelude
  "HOL-Library.AList"
begin

text \<open>
  The sharded hash maps of \<^verbatim>\<open>crates/cache/src/lib.rs\<close> (\<open>Shards\<close>): sixteen maps, a key living in the
  one its first byte selects. A hash map is an association list with distinct keys, whose order is
  not meaningful. The interface the store uses is the locale \<open>key_store\<close>.
\<close>

section \<open>Interface\<close>

locale key_store =
  fixes none :: "'m"
    and lookup :: "'m \<Rightarrow> 'k \<Rightarrow> 'v option"
    and put :: "'k \<Rightarrow> 'v \<Rightarrow> 'm \<Rightarrow> 'm"
    and entries :: "'m \<Rightarrow> ('k \<times> 'v) list"
    and invar :: "'m \<Rightarrow> bool"
  assumes invar_none: "invar none"
    and invar_put: "invar m \<Longrightarrow> invar (put k v m)"
    and lookup_none: "lookup none k = None"
    and lookup_put: "invar m \<Longrightarrow> lookup (put k v m) = (lookup m)(k \<mapsto> v)"
    and entries_lookup: "invar m \<Longrightarrow> map_of (entries m) = lookup m"
    and entries_distinct: "invar m \<Longrightarrow> distinct (map fst (entries m))"
begin

text \<open>Putting the entries of a saved map back, in any order, restores it.\<close>

lemma restore_invar: "invar m \<Longrightarrow> invar (fold (\<lambda>(k, v). put k v) kvs m)"
  by (induction kvs arbitrary: m) (auto simp: invar_put)

lemma restore_lookup:
  "invar m \<Longrightarrow> lookup (fold (\<lambda>(k, v). put k v) kvs m) = lookup m ++ map_of (rev kvs)"
  by (induction kvs arbitrary: m) (auto simp: invar_put lookup_put map_add_def fun_eq_iff split: option.splits)

lemma restore:
  assumes "distinct (map fst kvs)"
  shows "lookup (fold (\<lambda>(k, v). put k v) kvs none) = map_of kvs"
proof -
  have "lookup none = Map.empty" by (rule ext) (rule lookup_none)
  moreover have "map_of (rev kvs) = map_of kvs"
    using assms by (intro map_of_eqI) (auto simp: rev_map [symmetric])
  ultimately show ?thesis by (simp add: restore_lookup invar_none)
qed

end

section \<open>Model\<close>

type_synonym key = string

type_synonym 'v shards = "(key \<times> 'v) list list"

definition SHARDS :: nat where
  "SHARDS = 16"

definition shard_index :: "key \<Rightarrow> nat" where
  "shard_index k = (case k of [] \<Rightarrow> 0 | b # _ \<Rightarrow> of_char b mod SHARDS)"

definition shard_empty :: "'v shards" where
  "shard_empty = replicate SHARDS []"

definition shard_lookup :: "'v shards \<Rightarrow> key \<Rightarrow> 'v option" where
  "shard_lookup sh k = map_of (sh ! shard_index k) k"

definition shard_insert :: "key \<Rightarrow> 'v \<Rightarrow> 'v shards \<Rightarrow> 'v shards" where
  "shard_insert k v sh = sh[shard_index k := AList.update k v (sh ! shard_index k)]"

definition shard_entries :: "'v shards \<Rightarrow> (key \<times> 'v) list" where
  "shard_entries sh = concat sh"

definition shard_retain :: "(key \<Rightarrow> 'v \<Rightarrow> bool) \<Rightarrow> 'v shards \<Rightarrow> 'v shards" where
  "shard_retain p sh = map (filter (\<lambda>(k, v). p k v)) sh"

definition shard_map :: "('v \<Rightarrow> 'w) \<Rightarrow> 'v shards \<Rightarrow> 'w shards" where
  "shard_map f sh = map (map (\<lambda>(k, v). (k, f v))) sh"

definition wf_shards :: "'v shards \<Rightarrow> bool" where
  "wf_shards sh \<longleftrightarrow> length sh = SHARDS \<and>
     (\<forall>i < SHARDS. distinct (map fst (sh ! i)) \<and> (\<forall>kv \<in> set (sh ! i). shard_index (fst kv) = i))"

section \<open>The shards are a key store\<close>

lemma shard_index_less [simp]: "shard_index k < SHARDS"
  by (auto simp: shard_index_def SHARDS_def split: list.split)

lemma wf_shard_empty [simp]: "wf_shards shard_empty"
  by (simp add: wf_shards_def shard_empty_def)

lemma wf_shard_insert [simp]:
  assumes "wf_shards sh"
  shows "wf_shards (shard_insert k v sh)"
proof -
  have keys: "fst ` set (AList.update k v al) = insert k (fst ` set al)" for al
    using dom_update [of k v al] by simp
  have "distinct (map fst (shard_insert k v sh ! i)) \<and> (\<forall>q \<in> fst ` set (shard_insert k v sh ! i). shard_index q = i)"
    if "i < SHARDS" for i
  proof (cases "i = shard_index k")
    case True
    with assms have "shard_insert k v sh ! i = AList.update k v (sh ! i)"
      by (simp add: shard_insert_def wf_shards_def)
    with True assms keys show ?thesis by (auto simp: wf_shards_def distinct_update)
  next
    case False
    with assms that show ?thesis by (simp add: shard_insert_def wf_shards_def)
  qed
  with assms show ?thesis by (simp add: wf_shards_def) (simp add: shard_insert_def)
qed

lemma lookup_shard_insert: "wf_shards sh \<Longrightarrow> shard_lookup (shard_insert k v sh) = (shard_lookup sh)(k \<mapsto> v)"
  by (auto simp: fun_eq_iff shard_lookup_def shard_insert_def wf_shards_def nth_list_update update_conv')

lemma lookup_shard_empty: "shard_lookup shard_empty k = None"
  by (simp add: shard_lookup_def shard_empty_def)

lemma map_of_concat_shards:
  assumes "\<forall>i < length sh. \<forall>kv \<in> set (sh ! i). j (fst kv) = i" "j k < length sh"
  shows "map_of (concat sh) k = map_of (sh ! j k) k"
proof -
  have "map_of (concat xs) k = None" if "\<forall>ys \<in> set xs. k \<notin> fst ` set ys" for xs :: "('a \<times> 'b) list list"
    using that by (induction xs) (auto simp: map_add_def map_of_eq_None_iff [THEN iffD2])
  moreover have "k \<notin> fst ` set (sh ! i)" if "i < length sh" "i \<noteq> j k" for i
    using assms that by force
  then have out: "k \<notin> fst ` set ys" if "\<exists>i. i < length sh \<and> i \<noteq> j k \<and> ys = sh ! i" for ys
    using that by blast
  have "k \<notin> fst ` set ys" if ys: "ys \<in> set (take (j k) sh)" for ys
  proof -
    from ys obtain i where "i < j k" "ys = sh ! i" by (auto simp: in_set_conv_nth)
    with assms(2) show ?thesis by (intro out exI [of _ i]) auto
  qed
  moreover have "k \<notin> fst ` set ys" if ys: "ys \<in> set (drop (Suc (j k)) sh)" for ys
  proof -
    from ys obtain i where "i < length sh - Suc (j k)" "ys = sh ! (Suc (j k) + i)"
      by (auto simp: in_set_conv_nth)
    then show ?thesis by (intro out exI [of _ "Suc (j k) + i"]) auto
  qed
  moreover have "concat sh = concat (take (j k) sh) @ sh ! j k @ concat (drop (Suc (j k)) sh)"
    by (metis assms(2) concat.simps(2) concat_append id_take_nth_drop)
  ultimately show ?thesis by (simp add: map_add_def split: option.split)
qed

lemma entries_shard_lookup: "wf_shards sh \<Longrightarrow> map_of (shard_entries sh) = shard_lookup sh"
  by (rule ext) (auto simp: shard_entries_def shard_lookup_def wf_shards_def
      intro!: map_of_concat_shards [where j = shard_index])

lemma distinct_concat_shards:
  assumes "\<forall>i < length sh. distinct (map fst (sh ! i)) \<and> (\<forall>kv \<in> set (sh ! i). j (fst kv) = i + n)"
  shows "distinct (map fst (concat sh))"
  using assms
proof (induction sh arbitrary: n)
  case (Cons s sh)
  have "\<forall>i < length sh. distinct (map fst (sh ! i)) \<and> (\<forall>kv \<in> set (sh ! i). j (fst kv) = i + Suc n)"
  proof (intro allI impI)
    fix i assume "i < length sh"
    with Cons.prems [rule_format, of "Suc i"]
    show "distinct (map fst (sh ! i)) \<and> (\<forall>kv \<in> set (sh ! i). j (fst kv) = i + Suc n)" by simp
  qed
  note rest = this
  then have "distinct (map fst (concat sh))" by (rule Cons.IH)
  moreover have "n < j (fst kv)" if kv: "kv \<in> set (concat sh)" for kv
  proof -
    from kv obtain i where "i < length sh" "kv \<in> set (sh ! i)" by (auto simp: in_set_conv_nth [of _ sh])
    with rest show ?thesis by fastforce
  qed
  moreover have "distinct (map fst s)" "\<forall>kv \<in> set s. j (fst kv) = n"
    using Cons.prems [rule_format, of 0] by simp_all
  ultimately show ?case by force
qed simp

lemma entries_shard_distinct: "wf_shards sh \<Longrightarrow> distinct (map fst (shard_entries sh))"
  unfolding shard_entries_def by (rule distinct_concat_shards [where j = shard_index and n = 0]) (simp add: wf_shards_def)

interpretation sh: key_store shard_empty shard_lookup shard_insert shard_entries wf_shards
  by unfold_locales
    (simp_all add: lookup_shard_insert lookup_shard_empty entries_shard_lookup entries_shard_distinct)

lemma wf_shard_retain [simp]: "wf_shards sh \<Longrightarrow> wf_shards (shard_retain p sh)"
  by (auto simp: wf_shards_def shard_retain_def distinct_map_filter)

lemma lookup_shard_retain:
  assumes "wf_shards sh"
  shows "shard_lookup (shard_retain p sh) k =
    (case shard_lookup sh k of None \<Rightarrow> None | Some v \<Rightarrow> if p k v then Some v else None)"
proof -
  have "map_of (filter (\<lambda>(k, v). p k v) al) k = (case map_of al k of None \<Rightarrow> None | Some v \<Rightarrow> if p k v then Some v else None)"
    if "distinct (map fst al)" for al
    using that by (induction al) (auto simp: map_of_eq_None_iff image_iff split: option.splits)
  with assms show ?thesis by (simp add: shard_lookup_def shard_retain_def wf_shards_def)
qed

lemma wf_shard_map [simp]: "wf_shards sh \<Longrightarrow> wf_shards (shard_map f sh)"
  by (auto simp: wf_shards_def shard_map_def comp_def case_prod_unfold)

lemma lookup_shard_map: "wf_shards sh \<Longrightarrow> shard_lookup (shard_map f sh) k = map_option f (shard_lookup sh k)"
  by (simp add: shard_lookup_def shard_map_def wf_shards_def map_of_map)

end
