(* ===== verification/Wire.thy ===== *)
theory Wire imports
  Outcomes
begin

text \<open>
  \<^verbatim>\<open>crates/cache/src/wire.rs\<close>: the on-disk mirror of an outcome, which carries every field
  unconditionally, and the conversions both ways.
\<close>

record wire_finding =
  wf_rule :: string
  wf_file :: string
  wf_line :: u32
  wf_column :: u32
  wf_message :: string
  wf_severity :: severity

record wire_score =
  ws_key :: string
  ws_name :: string
  ws_line :: u32
  ws_cyclomatic :: u32
  ws_cognitive :: u32

record wire_outcome =
  wo_file :: string
  wo_lang :: "lang option"
  wo_applied :: "string list"
  wo_changed :: bool
  wo_violations :: "wire_finding list"
  wo_lint :: "wire_finding list"
  wo_complexity :: "wire_score list"
  wo_error :: "string option"

definition finding_of_diagnostic :: "diagnostic \<Rightarrow> wire_finding" where
  "finding_of_diagnostic d = \<lparr>wf_rule = d_rule d, wf_file = d_file d, wf_line = d_line d,
     wf_column = d_column d, wf_message = d_message d, wf_severity = d_severity d\<rparr>"

definition diagnostic_of_finding :: "wire_finding \<Rightarrow> diagnostic" where
  "diagnostic_of_finding f = \<lparr>d_rule = wf_rule f, d_file = wf_file f, d_line = wf_line f,
     d_column = wf_column f, d_message = wf_message f, d_severity = wf_severity f\<rparr>"

definition wire_of_score :: "complexity_score \<Rightarrow> wire_score" where
  "wire_of_score s = \<lparr>ws_key = s_key s, ws_name = s_name s, ws_line = s_line s,
     ws_cyclomatic = s_cyclomatic s, ws_cognitive = s_cognitive s\<rparr>"

definition score_of_wire :: "wire_score \<Rightarrow> complexity_score" where
  "score_of_wire s = \<lparr>s_key = ws_key s, s_name = ws_name s, s_line = ws_line s,
     s_cyclomatic = ws_cyclomatic s, s_cognitive = ws_cognitive s\<rparr>"

definition wire_of_outcome :: "file_outcome \<Rightarrow> wire_outcome" where
  "wire_of_outcome f =
     \<lparr>wo_file = o_file f, wo_lang = o_lang f, wo_applied = o_applied f, wo_changed = o_changed f,
      wo_violations = map finding_of_diagnostic (o_violations f),
      wo_lint = map finding_of_diagnostic (o_lint f),
      wo_complexity = map wire_of_score (o_complexity f), wo_error = o_error f\<rparr>"

definition outcome_of_wire :: "wire_outcome \<Rightarrow> file_outcome" where
  "outcome_of_wire w =
     \<lparr>o_file = wo_file w, o_lang = wo_lang w, o_applied = wo_applied w, o_changed = wo_changed w,
      o_violations = map diagnostic_of_finding (wo_violations w),
      o_lint = map diagnostic_of_finding (wo_lint w),
      o_complexity = map score_of_wire (wo_complexity w), o_error = wo_error w\<rparr>"

lemma diagnostic_round_trip [simp]: "diagnostic_of_finding (finding_of_diagnostic d) = d"
  "finding_of_diagnostic (diagnostic_of_finding f) = f"
  by (simp_all add: diagnostic_of_finding_def finding_of_diagnostic_def)

lemma score_round_trip [simp]: "score_of_wire (wire_of_score s) = s" "wire_of_score (score_of_wire w) = w"
  by (simp_all add: score_of_wire_def wire_of_score_def)

lemma outcome_round_trip [simp]: "outcome_of_wire (wire_of_outcome f) = f"
  "wire_of_outcome (outcome_of_wire w) = w"
  by (simp_all add: outcome_of_wire_def wire_of_outcome_def comp_def)

end
