(* ===== verification/Atomic.thy ===== *)
theory Atomic imports
  Prelude
begin

text \<open>
  Replacing a file through a sibling temporary file and a rename: \<^verbatim>\<open>write_atomic\<close> of
  \<^verbatim>\<open>crates/cache/src/lib.rs\<close> and \<^verbatim>\<open>atomic\<close> of \<^verbatim>\<open>crates/engine/src/write.rs\<close>. The model lists
  every file system a crash could leave behind.
\<close>

type_synonym files = "string \<Rightarrow> string option"

text \<open>
  Which calls of the operating system succeed, and how much of the data a failing \<open>write_all\<close>
  had written.
\<close>

record os_oracle =
  os_mkdir :: bool
  os_create :: bool
  os_write :: bool
  os_written :: nat
  os_permissions :: bool
  os_rename :: bool
  os_remove :: bool

text \<open>\<open>Path::with_extension\<close> for a file name with a stem and an extension.\<close>

definition with_extension :: "string \<Rightarrow> string \<Rightarrow> string" where
  "with_extension path ext =
     (case rsplit_once (CHR ''.'') path of
        Some (stem, _) \<Rightarrow> stem @ ''.'' @ ext
      | None \<Rightarrow> path @ ''.'' @ ext)"

definition pid_extension :: "nat \<Rightarrow> string" where
  "pid_extension pid = decimal pid @ ''.tmp''"

definition removed :: "os_oracle \<Rightarrow> string \<Rightarrow> files \<Rightarrow> files list" where
  "removed os tmp fs = (if os_remove os then [fs(tmp := None)] else [])"

text \<open>The states after each call, the last one final, and whether the write succeeded.\<close>

definition write_atomic :: "os_oracle \<Rightarrow> nat \<Rightarrow> string \<Rightarrow> string \<Rightarrow> files \<Rightarrow> files list \<times> bool" where
  "write_atomic os pid path data fs =
     (let tmp = with_extension path (pid_extension pid) in
      if \<not> os_mkdir os then ([fs], False)
      else if \<not> os_create os then (fs # removed os tmp fs, False)
      else let created = fs(tmp \<mapsto> []) in
        if \<not> os_write os
        then let part = fs(tmp \<mapsto> take (os_written os) data) in
             ([fs, created, part] @ removed os tmp part, False)
        else let full = fs(tmp \<mapsto> data) in
          if \<not> os_rename os then ([fs, created, full] @ removed os tmp full, False)
          else ([fs, created, full, (full(path \<mapsto> data))(tmp := None)], True))"

text \<open>
  \<open>write::atomic\<close>: \<open>tmp\<close> is the fresh name \<open>tempfile\<close> picks in the directory of the target (removed
  when the handle is dropped after a failure); the permissions of an existing target are copied first.
\<close>

definition atomic_replace :: "os_oracle \<Rightarrow> bool \<Rightarrow> string \<Rightarrow> string \<Rightarrow> string \<Rightarrow> files \<Rightarrow> files list \<times> bool" where
  "atomic_replace os has_permissions tmp target data fs =
     (if \<not> os_create os then ([fs], False)
      else let created = fs(tmp \<mapsto> []) in
        if \<not> os_write os
        then let part = fs(tmp \<mapsto> take (os_written os) data) in
             ([fs, created, part] @ removed os tmp part, False)
        else let full = fs(tmp \<mapsto> data) in
          if has_permissions \<and> \<not> os_permissions os \<or> \<not> os_rename os
          then ([fs, created, full] @ removed os tmp full, False)
          else ([fs, created, full, (full(target \<mapsto> data))(tmp := None)], True))"

section \<open>Facts\<close>

lemma with_extension_neq:
  "\<not> suffix (''.'' @ ext) path \<Longrightarrow> with_extension path ext \<noteq> path"
  by (auto simp: with_extension_def suffix_def split: option.splits)

lemma tmp_neq: "\<not> suffix ''.tmp'' path \<Longrightarrow> with_extension path (pid_extension pid) \<noteq> path"
proof (rule with_extension_neq)
  assume "\<not> suffix ''.tmp'' path"
  moreover have "suffix ''.tmp'' (''.'' @ pid_extension pid)"
    by (metis append_assoc pid_extension_def suffixI)
  ultimately show "\<not> suffix (''.'' @ pid_extension pid) path"
    using suffix_order.order_trans by blast
qed

lemma removed_other: "f \<in> set (removed os tmp fs) \<Longrightarrow> p \<noteq> tmp \<Longrightarrow> f p = fs p"
  by (auto simp: removed_def split: if_splits)

lemma write_atomic_last:
  "\<not> suffix ''.tmp'' path \<Longrightarrow> write_atomic os pid path data fs = (states, ok) \<Longrightarrow>
     last states path = (if ok then Some data else fs path)"
  using tmp_neq [of path pid] by (auto simp: write_atomic_def Let_def removed_def split: if_splits)

section \<open>Properties\<close>

text \<open>
  C28: Rewriting the cache file never leaves a truncated one: at every point where the process may
  die or a call may fail the path holds its old content or the whole new one, no other file but the
  temporary one is touched, success leaves the new content, failure the old.
\<close>

theorem write_atomic_safe:
  assumes "\<not> suffix ''.tmp'' path" "write_atomic os pid path data fs = (states, ok)"
  shows "(\<forall>f \<in> set states. (f path = fs path \<or> f path = Some data) \<and>
       (\<forall>p. p \<noteq> path \<longrightarrow> p \<noteq> with_extension path (pid_extension pid) \<longrightarrow> f p = fs p)) \<and>
     states \<noteq> [] \<and> last states path = (if ok then Some data else fs path)"
  using assms(2) tmp_neq [OF assms(1), of pid]
  by (auto simp: write_atomic_def Let_def removed_def split: if_splits)

theorem write_atomic_safe_witness:
  "list_all (\<lambda>f. f ''c/ab.bin'' \<in> {Some ''old'', Some ''new''})
     (fst (write_atomic \<lparr>os_mkdir = True, os_create = True, os_write = False, os_written = 1,
       os_permissions = True, os_rename = True, os_remove = False\<rparr> 7 ''c/ab.bin'' ''new'' [''c/ab.bin'' \<mapsto> ''old'']))"
proof -
  have "\<not> suffix ''.tmp'' ''c/ab.bin''" by code_simp
  from write_atomic_safe [OF this, OF prod.collapse [symmetric]] show ?thesis
    unfolding list_all_iff by fastforce
qed

text \<open>
  Rewriting a source file has the same guarantee, whatever fails (including copying the
  permissions): its content is the old or the new text, never a part of either.
\<close>

theorem atomic_replace_safe:
  assumes "tmp \<noteq> target" "fs tmp = None" "atomic_replace os perm tmp target data fs = (states, ok)"
  shows "(\<forall>f \<in> set states. (f target = fs target \<or> f target = Some data) \<and>
       (\<forall>p. p \<noteq> target \<longrightarrow> p \<noteq> tmp \<longrightarrow> f p = fs p)) \<and>
     last states target = (if ok then Some data else fs target) \<and>
     (os_remove os \<longrightarrow> last states tmp = None)"
  using assms
  by (auto simp: atomic_replace_def Let_def removed_def split: if_splits)

theorem atomic_replace_safe_witness:
  "last (fst (atomic_replace \<lparr>os_mkdir = True, os_create = True, os_write = True, os_written = 0,
       os_permissions = False, os_rename = True, os_remove = True\<rparr> True ''.a.ts.x.tmp'' ''a.ts'' ''new'' [''a.ts'' \<mapsto> ''old'']))
     ''a.ts'' = Some ''old''"
proof -
  let ?os = "\<lparr>os_mkdir = True, os_create = True, os_write = True, os_written = 0,
       os_permissions = False, os_rename = True, os_remove = True\<rparr>"
  let ?r = "atomic_replace ?os True ''.a.ts.x.tmp'' ''a.ts'' ''new'' [''a.ts'' \<mapsto> ''old'']"
  have "''.a.ts.x.tmp'' \<noteq> ''a.ts''" "[''a.ts'' \<mapsto> ''old''] ''.a.ts.x.tmp'' = None" "?r = (fst ?r, False)"
    by (simp_all add: atomic_replace_def Let_def)
  from atomic_replace_safe [OF this] show ?thesis by simp
qed

end
