(* ===== verification/Cache.thy ===== *)
theory Cache imports
  Shards
  Wire
  Atomic
begin

text \<open>
  \<^verbatim>\<open>crates/cache/src/lib.rs\<close>: the outcome cache. One run sees a store through state passing: the
  tables are read on first use, a hit flags its slot, puts make the store dirty, and a flush prunes
  and rewrites the file. The locks and atomics order single table accesses, which is what one
  operation here is. The hash (\<open>blake3\<close>) and the codec (\<open>postcard\<close>) are third-party code and are
  arguments, collected in \<open>platform\<close>.
\<close>

section \<open>State\<close>

record stamp =
  st_dev :: u64
  st_ino :: u64
  st_size :: u64
  st_mtime :: int
  st_ctime :: int

record slot =
  sl_encoded :: string
  sl_used :: bool

record tables =
  t_outcomes :: "slot shards"
  t_stamps :: "(stamp \<times> key) shards"
  t_marks :: "key list"

record store =
  cs_path :: string
  cs_config_hash :: string
  cs_settled :: int
  cs_tables :: "tables option"
  cs_dirty :: bool

type_synonym cache = "store option"

record fresh =
  f_bytes :: string
  f_key :: key
  f_mode :: mode
  f_stamp :: "(key \<times> stamp) option"

datatype lookup = Hit file_outcome | Miss fresh

record stored =
  sd_version :: string
  sd_entries :: "(key \<times> string) list"
  sd_stamps :: "(key \<times> stamp \<times> key) list"
  sd_marks :: "key list"

record platform =
  pf_version :: string
  pf_hash :: "string \<Rightarrow> key"
  pf_encode :: "wire_outcome \<Rightarrow> string option"
  pf_decode :: "string \<Rightarrow> wire_outcome option"
  pf_encode_store :: "stored \<Rightarrow> string option"
  pf_decode_store :: "string \<Rightarrow> stored option"

definition BUDGET :: nat where "BUDGET = 200000"

definition SETTLE :: int where "SETTLE = 2000000000"

definition MARKS :: nat where "MARKS = 64"

definition MAGIC :: string where "MAGIC = ''fmtkit'' @ [CHR 0x02, CHR 0x03]"

section \<open>Stamps and times\<close>

definition saturate_i64 :: "int \<Rightarrow> int" where
  "saturate_i64 x = max (- (2 ^ 63)) (min (2 ^ 63 - 1) x)"

record metadata =
  md_is_file :: bool
  md_dev :: u64
  md_ino :: u64
  md_size :: u64
  md_mtime :: int
  md_mtime_nsec :: int
  md_ctime :: int
  md_ctime_nsec :: int

text \<open>\<open>Stamp::of\<close> on Unix, from what \<open>fs::metadata\<close> returned: the time arithmetic saturates.\<close>

definition stamp_nanos :: "int \<Rightarrow> int \<Rightarrow> int" where
  "stamp_nanos secs nsec = saturate_i64 (saturate_i64 (secs * 1000000000) + nsec)"

definition stamp_of :: "metadata option \<Rightarrow> stamp option" where
  "stamp_of meta =
     (case meta of
        None \<Rightarrow> None
      | Some md \<Rightarrow>
          if md_is_file md
          then Some \<lparr>st_dev = md_dev md, st_ino = md_ino md, st_size = md_size md,
            st_mtime = stamp_nanos (md_mtime md) (md_mtime_nsec md),
            st_ctime = stamp_nanos (md_ctime md) (md_ctime_nsec md)\<rparr>
          else None)"

text \<open>A \<open>SystemTime\<close> is nanoseconds relative to the epoch.\<close>

definition nanos_since_epoch :: "int \<Rightarrow> int" where
  "nanos_since_epoch t = (if t < 0 then 0 else min t (2 ^ 63 - 1))"

definition settled_before :: "int \<Rightarrow> int" where
  "settled_before now = nanos_since_epoch (now - SETTLE)"

section \<open>Keys\<close>

fun mode_byte :: "mode \<Rightarrow> char" where
  "mode_byte Format = CHR 0x00"
| "mode_byte Check = CHR 0x01"

text \<open>\<open>(n as u64).to_le_bytes()\<close>\<close>

definition le_bytes64 :: "nat \<Rightarrow> string" where
  "le_bytes64 n = map (\<lambda>i. char_of (n div 256 ^ i)) [0..<8]"

definition key_input :: "platform \<Rightarrow> string \<Rightarrow> mode \<Rightarrow> string \<Rightarrow> string \<Rightarrow> string" where
  "key_input pf config mode rel content =
     le_bytes64 (length (pf_version pf)) @ pf_version pf @ config @ [mode_byte mode] @
     le_bytes64 (length rel) @ rel @ content"

definition cache_key :: "platform \<Rightarrow> mode \<Rightarrow> string \<Rightarrow> string \<Rightarrow> cache \<Rightarrow> key" where
  "cache_key pf mode rel content c =
     (case c of
        None \<Rightarrow> replicate 32 (CHR 0x00)
      | Some st \<Rightarrow> pf_hash pf (key_input pf (cs_config_hash st) mode rel content))"

definition path_key_input :: "string \<Rightarrow> mode \<Rightarrow> string \<Rightarrow> string" where
  "path_key_input config mode rel = config @ [mode_byte mode] @ le_bytes64 (length rel) @ rel"

definition path_key :: "platform \<Rightarrow> mode \<Rightarrow> string \<Rightarrow> store \<Rightarrow> key" where
  "path_key pf mode rel st = pf_hash pf (path_key_input (cs_config_hash st) mode rel)"

section \<open>Opening and loading\<close>

definition empty_tables :: tables where
  "empty_tables = \<lparr>t_outcomes = shard_empty, t_stamps = shard_empty, t_marks = []\<rparr>"

definition tables_load :: "platform \<Rightarrow> string option \<Rightarrow> tables" where
  "tables_load pf content =
     (case content of
        None \<Rightarrow> empty_tables
      | Some bs \<Rightarrow>
          (case strip_prefix MAGIC bs of
             None \<Rightarrow> empty_tables
           | Some body \<Rightarrow>
               (case pf_decode_store pf body of
                  None \<Rightarrow> empty_tables
                | Some sd \<Rightarrow>
                    if sd_version sd \<noteq> pf_version pf then empty_tables
                    else
                      \<lparr>t_outcomes = fold (\<lambda>(k, v). shard_insert k v)
                         (map (\<lambda>(k, e). (k, \<lparr>sl_encoded = e, sl_used = False\<rparr>)) (sd_entries sd)) shard_empty,
                       t_stamps = fold (\<lambda>(k, v). shard_insert k v) (sd_stamps sd) shard_empty,
                       t_marks = sd_marks sd\<rparr>)))"

definition force_tables :: "platform \<Rightarrow> files \<Rightarrow> store \<Rightarrow> tables" where
  "force_tables pf fs st =
     (case cs_tables st of Some t \<Rightarrow> t | None \<Rightarrow> tables_load pf (fs (cs_path st)))"

definition with_tables :: "tables \<Rightarrow> store \<Rightarrow> store" where
  "with_tables t st = st\<lparr>cs_tables := Some t\<rparr>"

definition to_hex :: "string \<Rightarrow> string" where
  "to_hex s = concat (map (\<lambda>c. let n = of_char c :: nat in [hex_digits ! (n div 16), hex_digits ! (n mod 16)]) s)"

text \<open>\<open>canon\<close> is \<open>canonicalize\<close>: \<open>None\<close> when the path cannot be resolved.\<close>

definition store_name :: "platform \<Rightarrow> (string \<Rightarrow> string option) \<Rightarrow> string \<Rightarrow> string" where
  "store_name pf canon root =
     to_hex (pf_hash pf (case canon root of Some p \<Rightarrow> p | None \<Rightarrow> root))"

definition cache_directory :: "string option \<Rightarrow> string option \<Rightarrow> string option" where
  "cache_directory env os_dir =
     (case env of
        Some d \<Rightarrow> if d \<noteq> [] then Some d else map_option (\<lambda>d. path_join (path_join d ''fmtkit'') ''v2'') os_dir
      | None \<Rightarrow> map_option (\<lambda>d. path_join (path_join d ''fmtkit'') ''v2'') os_dir)"

definition open_in :: "platform \<Rightarrow> (string \<Rightarrow> string option) \<Rightarrow> int \<Rightarrow> string \<Rightarrow> string \<Rightarrow> string \<Rightarrow> cache" where
  "open_in pf canon now dir root config_hash =
     Some \<lparr>cs_path = path_join dir (store_name pf canon root @ ''.bin''), cs_config_hash = config_hash,
       cs_settled = settled_before now, cs_tables = None, cs_dirty = False\<rparr>"

definition cache_disabled :: cache where
  "cache_disabled = None"

definition cache_open ::
  "platform \<Rightarrow> (string \<Rightarrow> string option) \<Rightarrow> int \<Rightarrow> string option \<Rightarrow> string \<Rightarrow> string \<Rightarrow> bool \<Rightarrow> cache" where
  "cache_open pf canon now dir root config_hash enabled =
     (case dir of
        Some d \<Rightarrow> if enabled then open_in pf canon now d root config_hash else cache_disabled
      | None \<Rightarrow> cache_disabled)"

definition cache_socket :: "platform \<Rightarrow> (string \<Rightarrow> string option) \<Rightarrow> string option \<Rightarrow> string \<Rightarrow> string option" where
  "cache_socket pf canon dir root =
     map_option (\<lambda>d. path_join d (take 16 (store_name pf canon root) @ ''.sock'')) dir"

definition next_run :: "int \<Rightarrow> cache \<Rightarrow> cache" where
  "next_run now c = map_option (\<lambda>st. st\<lparr>cs_settled := settled_before now\<rparr>) c"

definition cache_load :: "platform \<Rightarrow> files \<Rightarrow> cache \<Rightarrow> cache" where
  "cache_load pf fs c = map_option (\<lambda>st. with_tables (force_tables pf fs st) st) c"

definition is_enabled :: "cache \<Rightarrow> bool" where
  "is_enabled c \<longleftrightarrow> c \<noteq> None"

section \<open>Lookups\<close>

definition cache_get :: "platform \<Rightarrow> files \<Rightarrow> key \<Rightarrow> cache \<Rightarrow> file_outcome option \<times> cache" where
  "cache_get pf fs k c =
     (case c of
        None \<Rightarrow> (None, None)
      | Some st \<Rightarrow>
          (let t = force_tables pf fs st in
           case shard_lookup (t_outcomes t) k of
             None \<Rightarrow> (None, Some (with_tables t st))
           | Some sl \<Rightarrow>
               (case pf_decode pf (sl_encoded sl) of
                  None \<Rightarrow> (None, Some (with_tables t st))
                | Some w \<Rightarrow>
                    (Some (outcome_of_wire w),
                     Some (with_tables
                       (t\<lparr>t_outcomes := shard_insert k (sl\<lparr>sl_used := True\<rparr>) (t_outcomes t)\<rparr>) st)))))"

definition get_stamped :: "platform \<Rightarrow> files \<Rightarrow> key \<Rightarrow> stamp \<Rightarrow> cache \<Rightarrow> file_outcome option \<times> cache" where
  "get_stamped pf fs pk s c =
     (case c of
        None \<Rightarrow> (None, None)
      | Some st \<Rightarrow>
          (let t = force_tables pf fs st; c' = Some (with_tables t st) in
           case shard_lookup (t_stamps t) pk of
             None \<Rightarrow> (None, c')
           | Some (s', k) \<Rightarrow> if s' = s then cache_get pf fs k c' else (None, c')))"

definition remember :: "platform \<Rightarrow> files \<Rightarrow> fresh \<Rightarrow> cache \<Rightarrow> cache" where
  "remember pf fs fr c =
     (case (c, f_stamp fr) of
        (Some st, Some (pk, s)) \<Rightarrow>
          if st_mtime s \<ge> cs_settled st then c
          else
            (let t = force_tables pf fs st in
             if shard_lookup (t_stamps t) pk = Some (s, f_key fr) then Some (with_tables t st)
             else Some ((with_tables
               (t\<lparr>t_stamps := shard_insert pk (s, f_key fr) (t_stamps t)\<rparr>) st)\<lparr>cs_dirty := True\<rparr>))
      | _ \<Rightarrow> c)"

text \<open>What the file system says about the file being read: its metadata, then its bytes.\<close>

record source_view =
  sv_metadata :: "metadata option"
  sv_bytes :: "string + string"

definition lookup_stamp :: "platform \<Rightarrow> source_view \<Rightarrow> mode \<Rightarrow> string \<Rightarrow> cache \<Rightarrow> (key \<times> stamp) option" where
  "lookup_stamp pf sv mode rel c =
     (case c of
        None \<Rightarrow> None
      | Some st \<Rightarrow> map_option (Pair (path_key pf mode rel st)) (stamp_of (sv_metadata sv)))"

definition try_stamp :: "platform \<Rightarrow> files \<Rightarrow> (key \<times> stamp) option \<Rightarrow> cache \<Rightarrow> file_outcome option \<times> cache" where
  "try_stamp pf fs stamp c =
     (case stamp of None \<Rightarrow> (None, c) | Some (pk, s) \<Rightarrow> get_stamped pf fs pk s c)"

definition read_content ::
  "platform \<Rightarrow> files \<Rightarrow> fresh \<Rightarrow> cache \<Rightarrow> (string + lookup) \<times> cache" where
  "read_content pf fs fr c =
     (case cache_get pf fs (f_key fr) c of
        (Some outcome, c') \<Rightarrow> (Inr (Hit outcome), remember pf fs fr c')
      | (None, c') \<Rightarrow> (Inr (Miss fr), c'))"

definition fresh_of ::
  "platform \<Rightarrow> mode \<Rightarrow> string \<Rightarrow> (key \<times> stamp) option \<Rightarrow> string \<Rightarrow> cache \<Rightarrow> fresh" where
  "fresh_of pf mode rel stamp bs c =
     \<lparr>f_bytes = bs, f_key = cache_key pf mode rel bs c, f_mode = mode, f_stamp = stamp\<rparr>"

definition cache_read ::
  "platform \<Rightarrow> files \<Rightarrow> source_view \<Rightarrow> mode \<Rightarrow> string \<Rightarrow> cache \<Rightarrow> (string + lookup) \<times> cache" where
  "cache_read pf fs sv mode rel c =
     (let stamp = lookup_stamp pf sv mode rel c in
      case try_stamp pf fs stamp c of
        (Some outcome, c') \<Rightarrow> (Inr (Hit outcome), c')
      | (None, c') \<Rightarrow>
          (case sv_bytes sv of
             Inl err \<Rightarrow> (Inl err, c')
           | Inr bs \<Rightarrow> read_content pf fs (fresh_of pf mode rel stamp bs c') c'))"

section \<open>Updates\<close>

definition cache_insert :: "platform \<Rightarrow> files \<Rightarrow> key \<Rightarrow> file_outcome \<Rightarrow> cache \<Rightarrow> cache" where
  "cache_insert pf fs k outcome c =
     (case c of
        None \<Rightarrow> None
      | Some st \<Rightarrow>
          (case pf_encode pf (wire_of_outcome outcome) of
             None \<Rightarrow> c
           | Some e \<Rightarrow>
               (let t = force_tables pf fs st in
                case shard_lookup (t_outcomes t) k of
                  Some sl \<Rightarrow>
                    if sl_encoded sl = e
                    then Some (with_tables
                      (t\<lparr>t_outcomes := shard_insert k (sl\<lparr>sl_used := True\<rparr>) (t_outcomes t)\<rparr>) st)
                    else Some ((with_tables
                      (t\<lparr>t_outcomes := shard_insert k \<lparr>sl_encoded = e, sl_used = True\<rparr> (t_outcomes t)\<rparr>) st)
                      \<lparr>cs_dirty := True\<rparr>)
                | None \<Rightarrow> Some ((with_tables
                      (t\<lparr>t_outcomes := shard_insert k \<lparr>sl_encoded = e, sl_used = True\<rparr> (t_outcomes t)\<rparr>) st)
                      \<lparr>cs_dirty := True\<rparr>))))"

definition put_fresh :: "platform \<Rightarrow> files \<Rightarrow> fresh \<Rightarrow> file_outcome \<Rightarrow> cache \<Rightarrow> cache" where
  "put_fresh pf fs fr outcome c =
     (if o_error outcome = None \<and> (\<not> o_changed outcome \<or> f_mode fr = Check)
      then remember pf fs fr (cache_insert pf fs (f_key fr) outcome c)
      else c)"

definition cache_put :: "platform \<Rightarrow> files \<Rightarrow> key \<Rightarrow> file_outcome \<Rightarrow> cache \<Rightarrow> cache" where
  "cache_put pf fs k outcome c =
     (if \<not> o_changed outcome \<and> o_error outcome = None then cache_insert pf fs k outcome c else c)"

section \<open>Marks\<close>

definition use_mark :: "key \<Rightarrow> key list \<Rightarrow> bool \<times> key list" where
  "use_mark k ms = (if k \<in> set ms then (True, remove1 k ms @ [k]) else (False, ms))"

definition add_mark :: "key \<Rightarrow> key list \<Rightarrow> key list" where
  "add_mark k ms = (let ms' = ms @ [k] in drop (length ms' - MARKS) ms')"

definition cache_marked :: "platform \<Rightarrow> files \<Rightarrow> key \<Rightarrow> cache \<Rightarrow> bool \<times> cache" where
  "cache_marked pf fs k c =
     (case c of
        None \<Rightarrow> (False, None)
      | Some st \<Rightarrow>
          (let t = force_tables pf fs st in
           case use_mark k (t_marks t) of
             (hit, ms) \<Rightarrow> (hit, Some (with_tables (t\<lparr>t_marks := ms\<rparr>) st))))"

definition cache_mark :: "platform \<Rightarrow> files \<Rightarrow> key \<Rightarrow> cache \<Rightarrow> cache" where
  "cache_mark pf fs k c =
     (case c of
        None \<Rightarrow> None
      | Some _ \<Rightarrow>
          (case cache_marked pf fs k c of
             (True, c') \<Rightarrow> c'
           | (False, c') \<Rightarrow>
               map_option (\<lambda>st. let t = force_tables pf fs st in
                 (with_tables (t\<lparr>t_marks := add_mark k (t_marks t)\<rparr>) st)\<lparr>cs_dirty := True\<rparr>) c'))"

section \<open>Flushing\<close>

definition prune :: "nat \<Rightarrow> tables \<Rightarrow> tables" where
  "prune budget t =
     (let over = sum_list (map length (t_outcomes t)) > budget;
          kept = (if over then shard_retain (\<lambda>_ sl. sl_used sl) (t_outcomes t) else t_outcomes t);
          reset = shard_map (\<lambda>sl. sl\<lparr>sl_used := False\<rparr>) kept
      in t\<lparr>t_outcomes := reset,
           t_stamps := (if over then shard_retain (\<lambda>_ (_, k). shard_lookup reset k \<noteq> None) (t_stamps t)
                        else t_stamps t)\<rparr>)"

definition stored_of :: "platform \<Rightarrow> tables \<Rightarrow> stored" where
  "stored_of pf t =
     \<lparr>sd_version = pf_version pf,
      sd_entries = sort_key fst (map (\<lambda>(k, sl). (k, sl_encoded sl)) (shard_entries (t_outcomes t))),
      sd_stamps = sort_key fst (shard_entries (t_stamps t)),
      sd_marks = t_marks t\<rparr>"

definition tables_encode :: "platform \<Rightarrow> tables \<Rightarrow> string option" where
  "tables_encode pf t = map_option (\<lambda>body. MAGIC @ body) (pf_encode_store pf (stored_of pf t))"

definition flush_with_budget ::
  "platform \<Rightarrow> os_oracle \<Rightarrow> nat \<Rightarrow> nat \<Rightarrow> files \<Rightarrow> cache \<Rightarrow> bool \<times> files \<times> cache" where
  "flush_with_budget pf os pid budget fs c =
     (case c of
        None \<Rightarrow> (True, fs, None)
      | Some st \<Rightarrow>
          (case cs_tables st of
             None \<Rightarrow> (True, fs, Some (st\<lparr>cs_dirty := False\<rparr>))
           | Some t \<Rightarrow>
               if \<not> cs_dirty st then (True, fs, c)
               else
                 (let t' = prune budget t in
                  case tables_encode pf t' of
                    None \<Rightarrow> (False, fs, Some (with_tables t' st))
                  | Some bs \<Rightarrow>
                      (case write_atomic os pid (cs_path st) bs fs of
                         (states, ok) \<Rightarrow>
                           (ok, last states, Some ((with_tables t' st)\<lparr>cs_dirty := \<not> ok\<rparr>))))))"

definition cache_flush :: "platform \<Rightarrow> os_oracle \<Rightarrow> nat \<Rightarrow> files \<Rightarrow> cache \<Rightarrow> bool \<times> files \<times> cache" where
  "cache_flush pf os pid fs c = flush_with_budget pf os pid BUDGET fs c"

section \<open>The abstract store\<close>

text \<open>
  A cache as its clients see it: a partial map from keys to outcomes, a partial map from path keys to
  stamps and content keys, and the marks. The operations are characterised by what they do to it.
\<close>

definition cache_tables :: "platform \<Rightarrow> files \<Rightarrow> cache \<Rightarrow> tables" where
  "cache_tables pf fs c = (case c of None \<Rightarrow> empty_tables | Some st \<Rightarrow> force_tables pf fs st)"

definition slot_outcome :: "platform \<Rightarrow> slot \<Rightarrow> file_outcome option" where
  "slot_outcome pf sl = map_option outcome_of_wire (pf_decode pf (sl_encoded sl))"

definition tables_view :: "platform \<Rightarrow> tables \<Rightarrow> key \<Rightarrow> file_outcome option" where
  "tables_view pf t k = Option.bind (shard_lookup (t_outcomes t) k) (slot_outcome pf)"

definition cache_view :: "platform \<Rightarrow> files \<Rightarrow> cache \<Rightarrow> key \<Rightarrow> file_outcome option" where
  "cache_view pf fs c = tables_view pf (cache_tables pf fs c)"

definition wf_tables :: "tables \<Rightarrow> bool" where
  "wf_tables t \<longleftrightarrow> wf_shards (t_outcomes t) \<and> wf_shards (t_stamps t)"

definition wf_cache :: "platform \<Rightarrow> files \<Rightarrow> cache \<Rightarrow> bool" where
  "wf_cache pf fs c \<longleftrightarrow> wf_tables (cache_tables pf fs c)"

definition codec_ok :: "platform \<Rightarrow> bool" where
  "codec_ok pf \<longleftrightarrow>
     (\<forall>w e. pf_encode pf w = Some e \<longrightarrow> pf_decode pf e = Some w) \<and>
     (\<forall>s b. pf_encode_store pf s = Some b \<longrightarrow> pf_decode_store pf b = Some s)"

named_theorems cache_simps \<open>tables of a cache after an operation\<close>

lemma force_with_tables [cache_simps]: "force_tables pf fs (with_tables t st) = t"
  "force_tables pf fs ((with_tables t st)\<lparr>cs_dirty := d\<rparr>) = t"
  "force_tables pf fs (st\<lparr>cs_settled := n\<rparr>) = force_tables pf fs st"
  by (simp_all add: force_tables_def with_tables_def split: option.split)

lemma with_tables_simps [cache_simps, simp]: "cs_path (with_tables t st) = cs_path st"
  "cs_config_hash (with_tables t st) = cs_config_hash st" "cs_settled (with_tables t st) = cs_settled st"
  "cs_dirty (with_tables t st) = cs_dirty st" "cs_tables (with_tables t st) = Some t"
  by (simp_all add: with_tables_def)

lemma cache_tables_simps [cache_simps]: "cache_tables pf fs None = empty_tables"
  "cache_tables pf fs (Some st) = force_tables pf fs st"
  by (simp_all add: cache_tables_def)

lemma wf_empty_tables [simp]: "wf_tables empty_tables"
  by (simp add: wf_tables_def empty_tables_def)

lemma wf_tables_load [simp]: "wf_tables (tables_load pf content)"
proof -
  have "wf_tables \<lparr>t_outcomes = fold (\<lambda>(k, v). shard_insert k v) os shard_empty,
      t_stamps = fold (\<lambda>(k, v). shard_insert k v) ss shard_empty, t_marks = ms\<rparr>" for os ss ms
    by (simp add: wf_tables_def sh.restore_invar)
  then show ?thesis by (simp add: tables_load_def split: option.split)
qed

lemma tables_view_empty [simp]: "tables_view pf empty_tables = Map.empty"
  by (simp add: fun_eq_iff tables_view_def empty_tables_def lookup_shard_empty)

lemma tables_view_use:
  assumes "wf_tables t" "shard_lookup (t_outcomes t) k = Some sl"
  shows "tables_view pf (t\<lparr>t_outcomes := shard_insert k (sl\<lparr>sl_used := True\<rparr>) (t_outcomes t)\<rparr>) = tables_view pf t"
  using assms by (auto simp: fun_eq_iff tables_view_def wf_tables_def lookup_shard_insert slot_outcome_def)

lemma wf_tables_update [simp]:
  "wf_tables t \<Longrightarrow> wf_tables (t\<lparr>t_outcomes := shard_insert k sl (t_outcomes t)\<rparr>)"
  "wf_tables t \<Longrightarrow> wf_tables (t\<lparr>t_stamps := shard_insert k s (t_stamps t)\<rparr>)"
  "wf_tables t \<Longrightarrow> wf_tables (t\<lparr>t_marks := ms\<rparr>)"
  by (simp_all add: wf_tables_def)

lemma tables_view_marks [simp]: "tables_view pf (t\<lparr>t_marks := ms\<rparr>) = tables_view pf t"
  "tables_view pf (t\<lparr>t_stamps := ss\<rparr>) = tables_view pf t"
  by (simp_all add: fun_eq_iff tables_view_def)

text \<open>What an operation may change: nothing, or the view in a stated way, keeping well-formedness.\<close>

lemma cache_get_spec:
  assumes "wf_cache pf fs c"
  shows "fst (cache_get pf fs k c) = cache_view pf fs c k"
    and "cache_view pf fs (snd (cache_get pf fs k c)) = cache_view pf fs c"
    and "wf_cache pf fs (snd (cache_get pf fs k c))"
  using assms
  by (auto simp: cache_get_def cache_view_def wf_cache_def cache_simps Let_def tables_view_use
      split: option.splits) (auto simp: tables_view_def slot_outcome_def)

lemma cache_get_keeps:
  "map_option cs_config_hash (snd (cache_get pf fs k c)) = map_option cs_config_hash c"
  "map_option cs_settled (snd (cache_get pf fs k c)) = map_option cs_settled c"
  "t_stamps (cache_tables pf fs (snd (cache_get pf fs k c))) = t_stamps (cache_tables pf fs c)"
  by (auto simp: cache_get_def cache_simps Let_def split: option.splits)

lemma get_stamped_spec:
  assumes "wf_cache pf fs c"
  shows "fst (get_stamped pf fs pk s c) =
      (case shard_lookup (t_stamps (cache_tables pf fs c)) pk of
         Some (s', k) \<Rightarrow> if s' = s then cache_view pf fs c k else None
       | None \<Rightarrow> None)"
    and "cache_view pf fs (snd (get_stamped pf fs pk s c)) = cache_view pf fs c"
    and "wf_cache pf fs (snd (get_stamped pf fs pk s c))"
    and "map_option cs_config_hash (snd (get_stamped pf fs pk s c)) = map_option cs_config_hash c"
proof -
  have w: "wf_cache pf fs (Some (with_tables (force_tables pf fs st) st))"
      "cache_view pf fs (Some (with_tables (force_tables pf fs st) st)) = cache_view pf fs c"
    if "c = Some st" for st
    using assms that by (simp_all add: wf_cache_def cache_view_def cache_simps)
  note g = cache_get_spec [OF w(1)]
  show "fst (get_stamped pf fs pk s c) =
      (case shard_lookup (t_stamps (cache_tables pf fs c)) pk of
         Some (s', k) \<Rightarrow> if s' = s then cache_view pf fs c k else None
       | None \<Rightarrow> None)"
    using g(1) w(2)
    by (auto simp: get_stamped_def cache_simps Let_def lookup_shard_empty empty_tables_def split: option.splits)
  show "cache_view pf fs (snd (get_stamped pf fs pk s c)) = cache_view pf fs c"
    using g(2) w(2) by (auto simp: get_stamped_def Let_def split: option.splits)
  show "wf_cache pf fs (snd (get_stamped pf fs pk s c))"
    using g(3) w(1) assms by (auto simp: get_stamped_def Let_def split: option.splits)
  show "map_option cs_config_hash (snd (get_stamped pf fs pk s c)) = map_option cs_config_hash c"
    using cache_get_keeps(1) [of pf fs _ "Some (with_tables (force_tables pf fs (the c)) (the c))"]
    by (auto simp: get_stamped_def Let_def split: option.splits)
qed

lemma remember_spec:
  assumes "wf_cache pf fs c"
  shows "cache_view pf fs (remember pf fs fr c) = cache_view pf fs c"
    and "wf_cache pf fs (remember pf fs fr c)"
  using assms
  by (auto simp: remember_def cache_view_def wf_cache_def cache_simps Let_def split: option.splits)

lemma cache_insert_spec:
  assumes "wf_cache pf fs c" "codec_ok pf"
  shows "cache_view pf fs (cache_insert pf fs k outcome c) =
      (if c = None \<or> pf_encode pf (wire_of_outcome outcome) = None then cache_view pf fs c
       else (cache_view pf fs c)(k \<mapsto> outcome))"
    and "wf_cache pf fs (cache_insert pf fs k outcome c)"
proof -
  have d: "pf_decode pf e = Some w" if "pf_encode pf w = Some e" for w e
    using assms(2) that by (simp add: codec_ok_def)
  show "cache_view pf fs (cache_insert pf fs k outcome c) =
      (if c = None \<or> pf_encode pf (wire_of_outcome outcome) = None then cache_view pf fs c
       else (cache_view pf fs c)(k \<mapsto> outcome))"
    using assms(1) d
    by (auto simp: fun_eq_iff cache_insert_def cache_view_def wf_cache_def cache_simps Let_def wf_tables_def
        tables_view_def lookup_shard_insert slot_outcome_def split: option.splits)
  show "wf_cache pf fs (cache_insert pf fs k outcome c)"
    using assms(1) by (auto simp: cache_insert_def wf_cache_def cache_simps Let_def split: option.splits)
qed

lemma put_fresh_spec:
  assumes "wf_cache pf fs c" "codec_ok pf"
  shows "cache_view pf fs (put_fresh pf fs fr outcome c) =
      (if c \<noteq> None \<and> pf_encode pf (wire_of_outcome outcome) \<noteq> None \<and> o_error outcome = None \<and>
          (\<not> o_changed outcome \<or> f_mode fr = Check)
       then (cache_view pf fs c)(f_key fr \<mapsto> outcome) else cache_view pf fs c)"
    and "wf_cache pf fs (put_fresh pf fs fr outcome c)"
  using assms by (auto simp: put_fresh_def remember_spec cache_insert_spec)

lemma cache_put_spec:
  assumes "wf_cache pf fs c" "codec_ok pf"
  shows "cache_view pf fs (cache_put pf fs k outcome c) =
      (if c \<noteq> None \<and> pf_encode pf (wire_of_outcome outcome) \<noteq> None \<and> o_error outcome = None \<and>
          \<not> o_changed outcome
       then (cache_view pf fs c)(k \<mapsto> outcome) else cache_view pf fs c)"
    and "wf_cache pf fs (cache_put pf fs k outcome c)"
  using assms by (auto simp: cache_put_def cache_insert_spec)

lemma remember_keeps: "map_option cs_config_hash (remember pf fs fr c) = map_option cs_config_hash c"
  by (auto simp: remember_def Let_def split: option.split)

definition same_store :: "platform \<Rightarrow> files \<Rightarrow> cache \<Rightarrow> cache \<Rightarrow> bool" where
  "same_store pf fs c c' \<longleftrightarrow> cache_view pf fs c' = cache_view pf fs c \<and> wf_cache pf fs c' \<and>
     map_option cs_config_hash c' = map_option cs_config_hash c"

lemma same_store_trans: "same_store pf fs a b \<Longrightarrow> same_store pf fs b c \<Longrightarrow> same_store pf fs a c"
  by (simp add: same_store_def)

lemma same_store_wf: "same_store pf fs a b \<Longrightarrow> wf_cache pf fs b"
  by (simp add: same_store_def)

lemma same_store_key: "same_store pf fs c c' \<Longrightarrow> cache_key pf mode rel bs c' = cache_key pf mode rel bs c"
  by (cases c; cases c') (simp_all add: same_store_def cache_key_def)

lemma same_store_get: "wf_cache pf fs c \<Longrightarrow> same_store pf fs c (snd (cache_get pf fs k c))"
  by (simp add: same_store_def cache_get_spec cache_get_keeps)

lemma same_store_remember: "wf_cache pf fs c \<Longrightarrow> same_store pf fs c (remember pf fs fr c)"
  by (simp add: same_store_def remember_spec remember_keeps)

lemma try_stamp_spec:
  assumes "wf_cache pf fs c" "try_stamp pf fs stamp c = (r, c')"
  shows "same_store pf fs c c'"
    "r = Some outcome \<Longrightarrow> \<exists>pk s k. stamp = Some (pk, s) \<and>
       shard_lookup (t_stamps (cache_tables pf fs c)) pk = Some (s, k) \<and> cache_view pf fs c k = Some outcome"
proof -
  show "same_store pf fs c c'"
    using assms get_stamped_spec(2-4) [OF assms(1)]
    by (auto simp: try_stamp_def same_store_def split: option.splits) (metis snd_conv)+
  assume r: "r = Some outcome"
  then obtain pk s where s: "stamp = Some (pk, s)" using assms(2)
    by (auto simp: try_stamp_def split: option.splits)
  with assms(2) r have "fst (get_stamped pf fs pk s c) = Some outcome" by (simp add: try_stamp_def)
  with s show "\<exists>pk s k. stamp = Some (pk, s) \<and>
       shard_lookup (t_stamps (cache_tables pf fs c)) pk = Some (s, k) \<and> cache_view pf fs c k = Some outcome"
    by (auto simp: get_stamped_spec [OF assms(1)] split: option.splits if_splits)
qed

lemma read_content_spec:
  assumes "wf_cache pf fs c" "read_content pf fs fr c = (r, c')"
  shows "same_store pf fs c c'"
    "r = (case cache_view pf fs c (f_key fr) of Some outcome \<Rightarrow> Inr (Hit outcome) | None \<Rightarrow> Inr (Miss fr))"
proof -
  obtain o1 c1 where g: "cache_get pf fs (f_key fr) c = (o1, c1)" by fastforce
  with cache_get_spec(1) [OF assms(1), of "f_key fr"] have o1: "o1 = cache_view pf fs c (f_key fr)" by simp
  from same_store_get [OF assms(1), of "f_key fr"] g have s: "same_store pf fs c c1" by simp
  with same_store_remember [of pf fs c1 fr] have "same_store pf fs c (remember pf fs fr c1)"
    by (blast intro: same_store_trans same_store_wf)
  with s assms(2) g show "same_store pf fs c c'"
    by (auto simp: read_content_def split: option.splits)
  show "r = (case cache_view pf fs c (f_key fr) of Some outcome \<Rightarrow> Inr (Hit outcome) | None \<Rightarrow> Inr (Miss fr))"
    using assms(2) g by (auto simp: read_content_def o1 [symmetric] split: option.splits)
qed

text \<open>
  What \<open>read\<close> answers: an outcome stored under the content key of a path whose stamp matches, or
  under the content key of the bytes read; a miss carries that key and the mode.
\<close>

lemma cache_read_spec:
  assumes "wf_cache pf fs c" "cache_read pf fs sv mode rel c = (r, c')"
  shows "same_store pf fs c c'"
    "r = Inr (Hit outcome) \<Longrightarrow>
       (\<exists>pk s k. lookup_stamp pf sv mode rel c = Some (pk, s) \<and>
          shard_lookup (t_stamps (cache_tables pf fs c)) pk = Some (s, k) \<and> cache_view pf fs c k = Some outcome) \<or>
       (\<exists>bs. sv_bytes sv = Inr bs \<and> cache_view pf fs c (cache_key pf mode rel bs c) = Some outcome)"
    "r = Inr (Miss fr) \<Longrightarrow> sv_bytes sv = Inr (f_bytes fr) \<and> f_mode fr = mode \<and>
       f_key fr = cache_key pf mode rel (f_bytes fr) c \<and> cache_view pf fs c (f_key fr) = None"
proof -
  let ?s = "lookup_stamp pf sv mode rel c"
  obtain o1 c1 where t: "try_stamp pf fs ?s c = (o1, c1)" by fastforce
  note ts = try_stamp_spec [OF assms(1) t]
  note rc = read_content_spec [OF same_store_wf [OF ts(1)]]
  have view: "cache_view pf fs c1 = cache_view pf fs c" using ts(1) by (simp add: same_store_def)
  have eq: "(r, c') = (case o1 of Some outcome \<Rightarrow> (Inr (Hit outcome), c1)
      | None \<Rightarrow> (case sv_bytes sv of Inl err \<Rightarrow> (Inl err, c1)
          | Inr bs \<Rightarrow> read_content pf fs (fresh_of pf mode rel ?s bs c1) c1))"
    using assms(2) t by (auto simp: cache_read_def Let_def split: option.splits)
  show "same_store pf fs c c'"
  proof (cases "\<exists>bs. o1 = None \<and> sv_bytes sv = Inr bs")
    case True
    then obtain bs where "o1 = None" "sv_bytes sv = Inr bs" by blast
    with eq have "read_content pf fs (fresh_of pf mode rel ?s bs c1) c1 = (r, c')" by simp
    from same_store_trans [OF ts(1) rc(1) [OF this]] show ?thesis .
  next
    case False
    with eq ts(1) show ?thesis by (auto split: option.splits sum.splits)
  qed
  have content: "r = (case cache_view pf fs c (cache_key pf mode rel bs c) of
      Some outcome \<Rightarrow> Inr (Hit outcome) | None \<Rightarrow> Inr (Miss (fresh_of pf mode rel ?s bs c)))"
    if "o1 = None" "sv_bytes sv = Inr bs" for bs
  proof -
    from eq that have "read_content pf fs (fresh_of pf mode rel ?s bs c1) c1 = (r, c')" by simp
    from rc(2) [OF this] show ?thesis
      by (simp add: fresh_of_def view same_store_key [OF ts(1)] split: option.split)
  qed
  show "r = Inr (Hit outcome) \<Longrightarrow>
       (\<exists>pk s k. ?s = Some (pk, s) \<and>
          shard_lookup (t_stamps (cache_tables pf fs c)) pk = Some (s, k) \<and> cache_view pf fs c k = Some outcome) \<or>
       (\<exists>bs. sv_bytes sv = Inr bs \<and> cache_view pf fs c (cache_key pf mode rel bs c) = Some outcome)"
    using eq ts(2) [of outcome] content
    by (cases o1; cases "sv_bytes sv") (auto split: option.splits)
  show "r = Inr (Miss fr) \<Longrightarrow> sv_bytes sv = Inr (f_bytes fr) \<and> f_mode fr = mode \<and>
       f_key fr = cache_key pf mode rel (f_bytes fr) c \<and> cache_view pf fs c (f_key fr) = None"
    using eq content
    by (cases o1; cases "sv_bytes sv") (auto simp: fresh_of_def split: option.splits)
qed

end
