(* ===== verification/CacheKeys.thy ===== *)
theory CacheKeys imports
  Cache
begin

text \<open>
  What a lookup key says about what was looked up: the bytes that are hashed determine the version,
  the configuration, the mode, the path and the content.
\<close>

lemma base_256_mod:
  "(\<And>i. i < k \<Longrightarrow> (n div 256 ^ i) mod 256 = (m div 256 ^ i) mod 256) \<Longrightarrow> n mod 256 ^ k = m mod 256 ^ k"
  for n m :: nat
proof (induction k arbitrary: n m)
  case (Suc k)
  have "(n div 256) mod 256 ^ k = (m div 256) mod 256 ^ k"
  proof (rule Suc.IH)
    fix i assume "i < k"
    then show "n div 256 div 256 ^ i mod 256 = m div 256 div 256 ^ i mod 256"
      using Suc.prems [of "Suc i"] by (simp add: div_mult2_eq)
  qed
  moreover have "n mod 256 = m mod 256" using Suc.prems [of 0] by simp
  ultimately show ?case by (simp add: mod_mult2_eq)
qed simp

lemma le_bytes64_inject:
  assumes "n < 2 ^ 64" "m < 2 ^ 64" "le_bytes64 n = le_bytes64 m"
  shows "n = m"
proof -
  have "n div 256 ^ i mod 256 = m div 256 ^ i mod 256" if "i < 8" for i
  proof -
    from that assms(3) have "(char_of (n div 256 ^ i) :: char) = char_of (m div 256 ^ i)"
      by (auto simp: le_bytes64_def)
    then have "(of_char (char_of (n div 256 ^ i) :: char) :: nat) = of_char (char_of (m div 256 ^ i) :: char)"
      by simp
    then show ?thesis by simp
  qed
  then have "n mod 256 ^ 8 = m mod 256 ^ 8" by (rule base_256_mod)
  with assms(1,2) show ?thesis by simp
qed

lemma length_le_bytes64 [simp]: "length (le_bytes64 n) = 8"
  by (simp add: le_bytes64_def)

lemma mode_byte_inject [simp]: "mode_byte a = mode_byte b \<longleftrightarrow> a = b"
  by (cases a; cases b) simp_all

lemma key_input_inject:
  assumes "length cfg = 32" "length cfg' = 32" "length rel < 2 ^ 64" "length rel' < 2 ^ 64"
    and "length (pf_version pf) < 2 ^ 64" "length (pf_version pf') < 2 ^ 64"
    and eq: "key_input pf cfg m rel c = key_input pf' cfg' m' rel' c'"
  shows "pf_version pf = pf_version pf' \<and> cfg = cfg' \<and> m = m' \<and> rel = rel' \<and> c = c'"
proof -
  from eq have "le_bytes64 (length (pf_version pf)) = le_bytes64 (length (pf_version pf'))"
    by (simp add: key_input_def)
  with assms have v: "length (pf_version pf) = length (pf_version pf')" by (intro le_bytes64_inject)
  with eq assms(1,2) have h: "pf_version pf = pf_version pf' \<and> cfg = cfg' \<and> m = m' \<and>
      le_bytes64 (length rel) = le_bytes64 (length rel') \<and> rel @ c = rel' @ c'"
    by (simp add: key_input_def)
  with assms have "length rel = length rel'" by (intro le_bytes64_inject) auto
  with h show ?thesis by simp
qed

text \<open>A concrete codec: it encodes one outcome and one store, and hashes nothing away.\<close>

definition sample_outcome :: file_outcome where
  "sample_outcome = file_outcome_new ''a.ts'' (Some Ts)"

definition sample_stored :: stored where
  "sample_stored = \<lparr>sd_version = ''2.0'', sd_entries = [(''k'', ''o'')], sd_stamps = [], sd_marks = []\<rparr>"

definition sample_platform :: "stored \<Rightarrow> platform" where
  "sample_platform sd =
     \<lparr>pf_version = ''2.0'', pf_hash = (\<lambda>s. s),
      pf_encode = (\<lambda>w. if w = wire_of_outcome sample_outcome then Some ''o'' else None),
      pf_decode = (\<lambda>e. if e = ''o'' then Some (wire_of_outcome sample_outcome) else None),
      pf_encode_store = (\<lambda>s. if s = sd then Some ''s'' else None),
      pf_decode_store = (\<lambda>e. if e = ''s'' then Some sd else None)\<rparr>"

lemma sample_codec_ok: "codec_ok (sample_platform sd)"
  by (simp add: codec_ok_def sample_platform_def)

text \<open>
  Two lookups hash the same bytes only when they agree in the fmtkit version, the configuration
  hash, the mode, the path and the content: the length prefixes make the key input unambiguous, so a
  stored outcome can answer another file, mode or configuration only through a hash collision.
\<close>

theorem key_input_unambiguous:
  assumes "length cfg = 32" "length cfg' = 32" "length rel < 2 ^ 64" "length rel' < 2 ^ 64"
    and "length (pf_version pf) < 2 ^ 64" "length (pf_version pf') < 2 ^ 64"
  shows "(key_input pf cfg m rel c = key_input pf' cfg' m' rel' c') =
     (pf_version pf = pf_version pf' \<and> cfg = cfg' \<and> m = m' \<and> rel = rel' \<and> c = c')"
proof
  assume "key_input pf cfg m rel c = key_input pf' cfg' m' rel' c'"
  with assms show "pf_version pf = pf_version pf' \<and> cfg = cfg' \<and> m = m' \<and> rel = rel' \<and> c = c'"
    by (rule key_input_inject)
qed (simp add: key_input_def)

theorem key_input_unambiguous_witness:
  "key_input (sample_platform sample_stored) (replicate 32 (CHR 0x00)) Check ''a'' ''bc'' \<noteq>
   key_input (sample_platform sample_stored) (replicate 32 (CHR 0x00)) Check ''ab'' ''c''"
proof -
  have "length (replicate 32 (CHR 0x00)) = 32" "length ''a'' < 2 ^ 64" "length ''ab'' < 2 ^ 64"
    "length (pf_version (sample_platform sample_stored)) < 2 ^ 64" by (simp_all add: sample_platform_def)
  from key_input_unambiguous [OF this(1,1,2,3,4,4)] show ?thesis by simp
qed

end
