(* ===== verification/CacheRun.thy ===== *)
theory CacheRun imports
  CacheKeys
begin

text \<open>
  What holds of a cache over whole runs: the contract its clients rely on as a locale, the marks as a
  least-recently-used list, what a flush and a later opening keep, and the states any sequence of
  operations, flushes and reopenings can reach.
\<close>

section \<open>The contract of the outcome table\<close>

locale outcome_table =
  fixes get :: "key \<Rightarrow> 'c \<Rightarrow> file_outcome option \<times> 'c"
    and put :: "key \<Rightarrow> file_outcome \<Rightarrow> 'c \<Rightarrow> 'c"
    and view :: "'c \<Rightarrow> key \<Rightarrow> file_outcome option"
    and invar :: "'c \<Rightarrow> bool"
    and storable :: "file_outcome \<Rightarrow> bool"
  assumes get_view: "invar c \<Longrightarrow> fst (get k c) = view c k"
    and get_frame: "invar c \<Longrightarrow> view (snd (get k c)) = view c"
    and get_invar: "invar c \<Longrightarrow> invar (snd (get k c))"
    and put_view: "invar c \<Longrightarrow> view (put k out c) = (if storable out then (view c)(k \<mapsto> out) else view c)"
    and put_invar: "invar c \<Longrightarrow> invar (put k out c)"
begin

lemma get_after_put: "invar c \<Longrightarrow> storable out \<Longrightarrow> fst (get k (put k out c)) = Some out"
  by (simp add: get_view put_invar put_view)

lemma get_other: "invar c \<Longrightarrow> j \<noteq> k \<Longrightarrow> fst (get j (put k out c)) = fst (get j c)"
  by (simp add: get_view put_invar put_view)

lemma puts_invar: "invar c \<Longrightarrow> invar (fold (\<lambda>(k, out). put k out) ps c)"
  by (induction ps arbitrary: c) (auto simp: put_invar)

text \<open>A later hit is the last storable outcome put under the key, or what was there before.\<close>

lemma puts_view:
  "invar c \<Longrightarrow> view (fold (\<lambda>(k, out). put k out) ps c) =
     view c ++ map_of (rev (filter (\<lambda>(k, out). storable out) ps))"
  by (induction ps arbitrary: c) (auto simp: put_invar put_view map_add_def fun_eq_iff split: option.splits)

lemma hit_was_put:
  assumes "invar c" "fst (get k (fold (\<lambda>(k, out). put k out) ps c)) = Some out" "view c k = None"
  shows "(k, out) \<in> set ps \<and> storable out"
proof -
  have "map_of (rev (filter (\<lambda>(k, out). storable out) ps)) k = Some out"
    using assms by (auto simp: get_view puts_invar puts_view map_add_def split: option.splits)
  from map_of_SomeD [OF this] show ?thesis by auto
qed

end

definition storable :: "platform \<Rightarrow> file_outcome \<Rightarrow> bool" where
  "storable pf out \<longleftrightarrow>
     pf_encode pf (wire_of_outcome out) \<noteq> None \<and> o_error out = None \<and> \<not> o_changed out"

definition table_invar :: "platform \<Rightarrow> files \<Rightarrow> cache \<Rightarrow> bool" where
  "table_invar pf fs c \<longleftrightarrow> c \<noteq> None \<and> codec_ok pf \<and> wf_cache pf fs c"

lemma cache_ops_enabled:
  "c \<noteq> None \<Longrightarrow> snd (cache_get pf fs k c) \<noteq> None"
  "c \<noteq> None \<Longrightarrow> cache_put pf fs k out c \<noteq> None"
  "c \<noteq> None \<Longrightarrow> remember pf fs fr c \<noteq> None"
  "c \<noteq> None \<Longrightarrow> put_fresh pf fs fr out c \<noteq> None"
  by (auto simp: cache_get_def cache_put_def cache_insert_def remember_def put_fresh_def Let_def
      split: option.splits)

interpretation ot: outcome_table "cache_get pf fs" "cache_put pf fs" "cache_view pf fs" "table_invar pf fs" "storable pf"
  for pf fs
  by unfold_locales
    (auto simp: table_invar_def cache_get_spec cache_put_spec cache_ops_enabled storable_def
      simp del: not_None_eq)

text \<open>
  The outcome table behaves as a map: after any series of puts, looking a key up gives the last
  outcome put under it among those that are kept (encodable, not failed, not changed), and otherwise
  what it gave before; lookups change nothing a later lookup can see.
\<close>

theorem cache_is_a_map:
  assumes "c \<noteq> None" "codec_ok pf" "wf_cache pf fs c"
  shows "fst (cache_get pf fs k (fold (\<lambda>(k, out). cache_put pf fs k out) ps c)) =
     (cache_view pf fs c ++ map_of (rev (filter (\<lambda>(k, out). storable pf out) ps))) k \<and>
     cache_view pf fs (snd (cache_get pf fs k c)) = cache_view pf fs c"
proof -
  have i: "table_invar pf fs c" using assms by (simp add: table_invar_def)
  from ot.get_view [OF ot.puts_invar [OF i]] ot.puts_view [OF i] ot.get_frame [OF i]
  show ?thesis by simp
qed


definition sample_cache :: cache where
  "sample_cache = open_in (sample_platform sample_stored) (\<lambda>_. None) 0 ''c'' ''/r'' ''''"

lemma sample_wf_cache: "wf_cache (sample_platform sample_stored) Map.empty sample_cache"
  by (simp add: wf_cache_def cache_simps sample_cache_def open_in_def force_tables_def)

theorem cache_is_a_map_witness:
  "fst (cache_get (sample_platform sample_stored) Map.empty ''k''
     (cache_put (sample_platform sample_stored) Map.empty ''k'' sample_outcome sample_cache)) = Some sample_outcome"
proof -
  have "sample_cache \<noteq> None" by (simp add: sample_cache_def open_in_def)
  from cache_is_a_map [OF this sample_codec_ok sample_wf_cache, of "''k''" "[(''k'', sample_outcome)]"]
  show ?thesis
    by (simp add: storable_def sample_platform_def sample_outcome_def)
qed

section \<open>Marks\<close>

definition lastn :: "nat \<Rightarrow> 'a list \<Rightarrow> 'a list" where
  "lastn n xs = drop (length xs - n) xs"

text \<open>The specification keeps every key, the most recently used last.\<close>

definition touch :: "key \<Rightarrow> key list \<Rightarrow> key list" where
  "touch k ms = remove1 k ms @ [k]"

definition mark_step :: "key \<Rightarrow> key list \<Rightarrow> key list" where
  "mark_step k ms = (case use_mark k ms of (True, ms') \<Rightarrow> ms' | (False, ms') \<Rightarrow> add_mark k ms')"

lemma remove1_drop: "distinct xs \<Longrightarrow> k \<in> set (drop n xs) \<Longrightarrow> remove1 k (drop n xs) = drop n (remove1 k xs)"
proof (induction xs arbitrary: n)
  case (Cons x xs)
  show ?case
  proof (cases n)
    case (Suc m)
    with Cons have "k \<in> set xs" by (auto dest: in_set_dropD)
    with Cons Suc show ?thesis by auto
  qed simp
qed simp

lemma remove1_drop_out:
  "distinct xs \<Longrightarrow> k \<in> set xs \<Longrightarrow> k \<notin> set (drop n xs) \<Longrightarrow> drop n xs = drop (n - 1) (remove1 k xs) \<and> 0 < n"
proof (induction xs arbitrary: n)
  case (Cons x xs)
  show ?case
  proof (cases n)
    case (Suc m)
    show ?thesis
    proof (cases "k = x")
      case False
      with Cons Suc have "drop m xs = drop (m - 1) (remove1 k xs) \<and> 0 < m" by auto
      with False Suc show ?thesis by (cases m) auto
    qed (use Suc in simp)
  qed (use Cons.prems in auto)
qed simp

lemma mark_step_lastn:
  assumes "distinct u" "ms = lastn MARKS u"
  shows "mark_step k ms = lastn MARKS (touch k u)"
proof -
  let ?d = "length u - MARKS"
  have M: "0 < MARKS" by (simp add: MARKS_def)
  show ?thesis
  proof (cases "k \<in> set ms")
    case True
    then have k: "k \<in> set u" "k \<in> set (drop ?d u)" using assms by (auto simp: lastn_def dest: in_set_dropD)
    then have "0 < length u" by (auto intro: length_pos_if_in_set)
    with k have "length (touch k u) = length u" by (simp add: touch_def length_remove1)
    moreover have "?d \<le> length (remove1 k u)" using k M \<open>0 < length u\<close> by (auto simp: length_remove1)
    ultimately show ?thesis using True assms k remove1_drop [OF assms(1) k(2)]
      by (simp add: mark_step_def use_mark_def lastn_def touch_def)
  next
    case False
    have lm: "length ms = min (length u) MARKS" using assms by (auto simp: lastn_def)
    have *: "mark_step k ms = drop (length ms + 1 - MARKS) (ms @ [k])"
      using False by (simp add: mark_step_def use_mark_def add_mark_def Let_def)
    show ?thesis
    proof (cases "k \<in> set u")
      case True
      with False assms remove1_drop_out [of u k ?d]
      have r: "ms = drop (?d - 1) (remove1 k u)" "0 < ?d" by (auto simp: lastn_def)
      have "length (touch k u) = length u" using True by (simp add: touch_def length_remove1)
        (metis One_nat_def Suc_pred length_pos_if_in_set)
      have "1 + (?d - 1) = ?d" using r(2) by linarith
      then have "drop 1 (drop (?d - 1) (remove1 k u)) = drop ?d (remove1 k u)" by (simp only: drop_drop)
      moreover have "length (touch k u) = length u" by fact
      moreover have "length (remove1 k u) = length u - 1" using True by (simp add: length_remove1)
      moreover have "drop (Suc (length u - Suc MARKS)) (remove1 k u) = drop (length u - MARKS) (remove1 k u)"
        using r(2) by (metis Suc_diff_Suc zero_less_diff)
      ultimately show ?thesis using * lm r M by (simp add: lastn_def touch_def)
    next
      case out: False
      then have "touch k u = u @ [k]" by (simp add: touch_def remove1_idem)
      moreover have "drop (length ms + 1 - MARKS) (ms @ [k]) = drop (Suc (length u) - MARKS) (u @ [k])"
      proof (cases "length u < MARKS")
        case True
        with lm assms(2) show ?thesis by (simp add: lastn_def)
      next
        case False
        with lm have "length ms + 1 - MARKS = 1" by simp
        moreover have "1 + ?d = Suc (length u) - MARKS" using False by linarith
        moreover have "ms @ [k] = drop ?d (u @ [k])" using assms(2) by (simp add: lastn_def)
        ultimately show ?thesis by (simp only: drop_drop)
      qed
      ultimately show ?thesis using * by (simp add: lastn_def)
    qed
  qed
qed

lemma distinct_touch: "distinct u \<Longrightarrow> distinct (touch k u)"
  by (auto simp: touch_def distinct_remove1)

lemma fold_mark_step:
  "distinct u \<Longrightarrow> fold mark_step ks (lastn MARKS u) = lastn MARKS (fold touch ks u)"
  by (induction ks arbitrary: u) (auto simp: mark_step_lastn distinct_touch)

lemma cache_mark_step:
  "c \<noteq> None \<Longrightarrow> cache_mark pf fs k c \<noteq> None \<and>
     t_marks (cache_tables pf fs (cache_mark pf fs k c)) = mark_step k (t_marks (cache_tables pf fs c))"
  by (auto simp: cache_mark_def cache_marked_def cache_simps Let_def mark_step_def use_mark_def split: prod.splits)

lemma fold_cache_mark:
  "c \<noteq> None \<Longrightarrow> fold (cache_mark pf fs) ks c \<noteq> None \<and>
     t_marks (cache_tables pf fs (fold (cache_mark pf fs) ks c)) = fold mark_step ks (t_marks (cache_tables pf fs c))"
  by (induction ks arbitrary: c) (use cache_mark_step in \<open>auto simp del: not_None_eq\<close>)

lemma cache_marked_iff: "fst (cache_marked pf fs k c) \<longleftrightarrow> k \<in> set (t_marks (cache_tables pf fs c))"
  by (auto simp: cache_marked_def cache_simps empty_tables_def Let_def use_mark_def split: option.splits)

text \<open>
  The marks are a least-recently-used list of 64 keys: after marking any series of keys in a store
  without marks, exactly the 64 most recently marked distinct keys are remembered, in that order.
\<close>

theorem marks_are_lru:
  assumes "c \<noteq> None" "t_marks (cache_tables pf fs c) = []"
  shows "t_marks (cache_tables pf fs (fold (cache_mark pf fs) ks c)) =
     (let recency = fold touch ks [] in drop (length recency - 64) recency)"
  using fold_cache_mark [OF assms(1), of pf fs ks] fold_mark_step [of "[]" ks] assms(2)
  by (simp add: lastn_def MARKS_def Let_def)

theorem marks_are_lru_witness:
  "t_marks (cache_tables (sample_platform sample_stored) Map.empty
     (fold (cache_mark (sample_platform sample_stored) Map.empty) [''a'', ''b'', ''a''] sample_cache)) = [''b'', ''a'']"
proof -
  have "sample_cache \<noteq> None" "t_marks (cache_tables (sample_platform sample_stored) Map.empty sample_cache) = []"
    by (simp_all add: sample_cache_def open_in_def cache_simps force_tables_def tables_load_def empty_tables_def)
  from marks_are_lru [OF this, of "[''a'', ''b'', ''a'']"] show ?thesis by (simp add: touch_def)
qed

section \<open>Flushing and reopening\<close>

lemma map_of_mset:
  assumes "distinct (map fst xs)" "mset xs = mset ys"
  shows "map_of xs = map_of ys"
proof -
  from assms(2) have "mset (map fst xs) = mset (map fst ys)" by simp
  from mset_eq_imp_distinct_iff [OF this] assms(1) have "distinct (map fst ys)" by simp
  with assms(1) mset_eq_setD [OF assms(2)] show ?thesis by (simp add: map_of_inject_set)
qed

lemma restore_shards:
  assumes "wf_shards s" "mset kvs = mset (map (\<lambda>(k, v). (k, f v)) (shard_entries s))"
  shows "shard_lookup (fold (\<lambda>(k, v). shard_insert k v) kvs shard_empty) k = map_option f (shard_lookup s k)"
proof -
  have d: "distinct (map fst (map (\<lambda>(k, v). (k, f v)) (shard_entries s)))"
    using entries_shard_distinct [OF assms(1)] by (simp add: comp_def case_prod_unfold)
  have "mset (map fst kvs) = mset (map fst (map (\<lambda>(k, v). (k, f v)) (shard_entries s)))"
    using assms(2) by (simp only: mset_map)
  from mset_eq_imp_distinct_iff [OF this] d have "distinct (map fst kvs)" by simp
  then have "shard_lookup (fold (\<lambda>(k, v). shard_insert k v) kvs shard_empty) = map_of kvs"
    by (rule sh.restore)
  also have "\<dots> = map_of (map (\<lambda>(k, v). (k, f v)) (shard_entries s))"
    using \<open>distinct (map fst kvs)\<close> assms(2) by (rule map_of_mset)
  finally show ?thesis using entries_shard_lookup [OF assms(1)] by (simp add: map_of_map)
qed

lemma load_encoded:
  assumes "wf_tables t" "codec_ok pf" "tables_encode pf t = Some bs"
  shows "tables_view pf (tables_load pf (Some bs)) = tables_view pf t"
    "shard_lookup (t_stamps (tables_load pf (Some bs))) = shard_lookup (t_stamps t)"
    "t_marks (tables_load pf (Some bs)) = t_marks t"
proof -
  let ?sd = "stored_of pf t"
  from assms(2,3) obtain body where bs: "bs = MAGIC @ body" and d: "pf_decode_store pf body = Some ?sd"
    by (auto simp: tables_encode_def codec_ok_def)
  have l: "tables_load pf (Some bs) =
      \<lparr>t_outcomes = fold (\<lambda>(k, v). shard_insert k v)
         (map (\<lambda>(k, e). (k, \<lparr>sl_encoded = e, sl_used = False\<rparr>)) (sd_entries ?sd)) shard_empty,
       t_stamps = fold (\<lambda>(k, v). shard_insert k v) (sd_stamps ?sd) shard_empty,
       t_marks = sd_marks ?sd\<rparr>"
    by (simp add: tables_load_def strip_prefix_def bs d) (simp add: stored_of_def)
  have "shard_lookup (t_outcomes (tables_load pf (Some bs))) k =
      map_option (\<lambda>sl. \<lparr>sl_encoded = sl_encoded sl, sl_used = False\<rparr>) (shard_lookup (t_outcomes t) k)" for k
    unfolding l tables.simps using assms(1)
    by (intro restore_shards) (auto simp: stored_of_def wf_tables_def multiset.map_comp comp_def case_prod_unfold)
  note lookup = this
  show "tables_view pf (tables_load pf (Some bs)) = tables_view pf t"
  proof (rule ext)
    show "tables_view pf (tables_load pf (Some bs)) k = tables_view pf t k" for k
      using lookup [of k] by (cases "shard_lookup (t_outcomes t) k") (simp_all add: tables_view_def slot_outcome_def)
  qed
  have "shard_lookup (t_stamps (tables_load pf (Some bs))) k = map_option id (shard_lookup (t_stamps t) k)" for k
    unfolding l tables.simps using assms(1)
    by (intro restore_shards) (auto simp: stored_of_def wf_tables_def)
  then show "shard_lookup (t_stamps (tables_load pf (Some bs))) = shard_lookup (t_stamps t)"
    by (simp add: fun_eq_iff option.map_id)
  show "t_marks (tables_load pf (Some bs)) = t_marks t"
    by (simp add: l stored_of_def)
qed

definition over_budget :: "nat \<Rightarrow> tables \<Rightarrow> bool" where
  "over_budget budget t \<longleftrightarrow> length (shard_entries (t_outcomes t)) > budget"

definition used_entry :: "tables \<Rightarrow> key \<Rightarrow> bool" where
  "used_entry t k = (case shard_lookup (t_outcomes t) k of Some sl \<Rightarrow> sl_used sl | None \<Rightarrow> False)"

lemma over_budget_sum: "sum_list (map length (t_outcomes t)) > budget \<longleftrightarrow> over_budget budget t"
  by (simp add: over_budget_def shard_entries_def length_concat)

lemma prune_spec:
  assumes "wf_tables t"
  shows "wf_tables (prune budget t)"
    "tables_view pf (prune budget t) k =
       (if over_budget budget t \<and> \<not> used_entry t k then None else tables_view pf t k)"
    "\<not> used_entry (prune budget t) k"
    "t_marks (prune budget t) = t_marks t"
    "over_budget budget t \<Longrightarrow> shard_lookup (t_stamps (prune budget t)) pk = Some (s, k) \<Longrightarrow> used_entry t k"
  using assms
  by (auto simp: prune_def Let_def over_budget_sum wf_tables_def tables_view_def used_entry_def slot_outcome_def
      lookup_shard_map lookup_shard_retain split: option.splits if_splits)

text \<open>
  C27: What a flush that succeeds leaves on disk is what the cache holds: a later process that opens the
  store sees the same outcomes, stamps and marks. Within the budget nothing is lost; beyond it exactly
  the entries used since the last flush survive, with no stamp left pointing at a dropped one.
\<close>

theorem flush_then_open:
  assumes "codec_ok pf" "wf_tables t" "cs_tables st = Some t" "cs_dirty st"
    and "\<not> suffix ''.tmp'' (cs_path st)"
    and "flush_with_budget pf os pid budget fs (Some st) = (True, fs', c')"
    and "cs_path st2 = cs_path st" "cs_tables st2 = None"
  shows "cache_view pf fs' (Some st2) = cache_view pf fs' c' \<and>
     (\<forall>k. cache_view pf fs' (Some st2) k =
        (if over_budget budget t \<and> \<not> used_entry t k then None else cache_view pf fs (Some st) k)) \<and>
     shard_lookup (t_stamps (cache_tables pf fs' (Some st2))) = shard_lookup (t_stamps (cache_tables pf fs' c')) \<and>
     (\<forall>pk s k. over_budget budget t \<longrightarrow>
        shard_lookup (t_stamps (cache_tables pf fs' (Some st2))) pk = Some (s, k) \<longrightarrow> used_entry t k) \<and>
     t_marks (cache_tables pf fs' (Some st2)) = t_marks t"
proof -
  let ?t = "prune budget t"
  note p = prune_spec [OF assms(2)]
  from assms obtain bs states where bs: "tables_encode pf ?t = Some bs"
    and w: "write_atomic os pid (cs_path st) bs fs = (states, True)" "fs' = last states"
    and c': "c' = Some ((with_tables ?t st)\<lparr>cs_dirty := False\<rparr>)"
    by (auto simp: flush_with_budget_def Let_def split: option.splits prod.splits)
  from write_atomic_last [OF assms(5) w(1)] w(2) have "fs' (cs_path st) = Some bs" by simp
  then have l: "cache_tables pf fs' (Some st2) = tables_load pf (Some bs)"
    using assms(7,8) by (simp add: cache_simps force_tables_def)
  note e = load_encoded [OF p(1) assms(1) bs]
  have t: "cache_tables pf fs' c' = ?t" "cache_tables pf fs (Some st) = t"
    using assms(3) by (simp_all add: c' cache_simps, simp add: force_tables_def)
  show ?thesis
    unfolding cache_view_def l t e using p(2,4,5) by simp
qed

definition sample_tables :: tables where
  "sample_tables = \<lparr>t_outcomes = shard_insert ''k'' \<lparr>sl_encoded = ''o'', sl_used = True\<rparr> shard_empty,
     t_stamps = shard_empty, t_marks = []\<rparr>"

definition sample_store :: store where
  "sample_store = \<lparr>cs_path = ''c/2f72.bin'', cs_config_hash = [], cs_settled = 0,
     cs_tables = Some sample_tables, cs_dirty = True\<rparr>"

lemma sample_tables_wf: "wf_tables sample_tables"
  by (simp add: sample_tables_def wf_tables_def)

lemma sample_flushes:
  "fst (flush_with_budget (sample_platform (stored_of (sample_platform sample_stored) (prune 5 sample_tables)))
     \<lparr>os_mkdir = True, os_create = True, os_write = True, os_written = 0, os_permissions = True,
       os_rename = True, os_remove = True\<rparr> 7 5 Map.empty (Some sample_store))"
  by (simp add: flush_with_budget_def sample_store_def Let_def tables_encode_def write_atomic_def sample_platform_def
      stored_of_def)

theorem flush_then_open_witness:
  "let pf = sample_platform (stored_of (sample_platform sample_stored) (prune 5 sample_tables));
       os = \<lparr>os_mkdir = True, os_create = True, os_write = True, os_written = 0, os_permissions = True,
         os_rename = True, os_remove = True\<rparr>;
       fs' = fst (snd (flush_with_budget pf os 7 5 Map.empty (Some sample_store)))
   in cache_view pf fs' (Some (sample_store\<lparr>cs_tables := None\<rparr>)) ''k'' = Some sample_outcome"
proof -
  define pf where "pf = sample_platform (stored_of (sample_platform sample_stored) (prune 5 sample_tables))"
  define os where "os = \<lparr>os_mkdir = True, os_create = True, os_write = True, os_written = 0, os_permissions = True,
         os_rename = True, os_remove = True\<rparr>"
  define r where "r = flush_with_budget pf os 7 5 Map.empty (Some sample_store)"
  have r: "flush_with_budget pf os 7 5 Map.empty (Some sample_store) = (True, fst (snd r), snd (snd r))"
    using sample_flushes by (simp add: r_def pf_def os_def prod_eq_iff)
  have c: "codec_ok pf" by (simp add: pf_def sample_codec_ok)
  have s: "cs_tables sample_store = Some sample_tables" "cs_dirty sample_store"
    "\<not> suffix ''.tmp'' (cs_path sample_store)"
    by (simp_all add: sample_store_def) code_simp
  have "\<not> over_budget 5 sample_tables" by (simp add: over_budget_def sample_tables_def) code_simp
  moreover have "cache_view pf Map.empty (Some sample_store) ''k'' = Some sample_outcome"
    by (simp add: cache_view_def cache_simps force_tables_def sample_store_def sample_tables_def tables_view_def
        lookup_shard_insert slot_outcome_def pf_def sample_platform_def)
  ultimately have "cache_view pf (fst (snd r)) (Some (sample_store\<lparr>cs_tables := None\<rparr>)) ''k'' = Some sample_outcome"
    using conjunct1 [OF conjunct2 [OF flush_then_open
      [OF c sample_tables_wf s r, of "sample_store\<lparr>cs_tables := None\<rparr>"]]] by simp
  then show ?thesis by (simp add: Let_def r_def pf_def os_def)
qed

end
