(* ===== verification/CacheReach.thy ===== *)
theory CacheReach imports
  CacheRun
begin

text \<open>
  The store as a state machine: any series of operations by any number of processes one after the
  other, with flushes that succeed or fail in between, started from a directory without a store file.
\<close>

definition stamps_view :: "platform \<Rightarrow> files \<Rightarrow> cache \<Rightarrow> key \<Rightarrow> (stamp \<times> key) option" where
  "stamps_view pf fs c = shard_lookup (t_stamps (cache_tables pf fs c))"

definition opened :: "string \<Rightarrow> cache \<Rightarrow> bool" where
  "opened path c \<longleftrightarrow> (\<exists>st. c = Some st \<and> cs_path st = path \<and> length (cs_config_hash st) = 32)"

definition just_opened :: "string \<Rightarrow> cache \<Rightarrow> bool" where
  "just_opened path c \<longleftrightarrow> (\<exists>st. c = Some st \<and> cs_path st = path \<and> length (cs_config_hash st) = 32 \<and>
     cs_tables st = None \<and> \<not> cs_dirty st)"

text \<open>A fresh read result, as \<open>read\<close> makes them.\<close>

definition genuine :: "platform \<Rightarrow> fresh \<Rightarrow> bool" where
  "genuine pf fr \<longleftrightarrow>
     (\<exists>cfg rel. length cfg = 32 \<and> length rel < 2 ^ 64 \<and>
        f_key fr = pf_hash pf (key_input pf cfg (f_mode fr) rel (f_bytes fr)) \<and>
        (\<forall>pk s. f_stamp fr = Some (pk, s) \<longrightarrow> pk = pf_hash pf (path_key_input cfg (f_mode fr) rel)))"

inductive reach :: "platform \<Rightarrow> string \<Rightarrow> files \<Rightarrow> cache \<Rightarrow> bool" for pf path where
  start: "fs path = None \<Longrightarrow> just_opened path c \<Longrightarrow> reach pf path fs c"
| reopen: "reach pf path fs c \<Longrightarrow> just_opened path c' \<Longrightarrow> reach pf path fs c'"
| elsewhere: "reach pf path fs c \<Longrightarrow> fs' path = fs path \<Longrightarrow> reach pf path fs' c"
| read: "reach pf path fs c \<Longrightarrow> length rel < 2 ^ 64 \<Longrightarrow> cache_read pf fs sv mode rel c = (r, c') \<Longrightarrow>
     reach pf path fs c'"
| get: "reach pf path fs c \<Longrightarrow> reach pf path fs (snd (cache_get pf fs k c))"
| put: "reach pf path fs c \<Longrightarrow> reach pf path fs (cache_put pf fs k out c)"
| put_fresh: "reach pf path fs c \<Longrightarrow> genuine pf fr \<Longrightarrow> reach pf path fs (put_fresh pf fs fr out c)"
| marked: "reach pf path fs c \<Longrightarrow> reach pf path fs (snd (cache_marked pf fs k c))"
| mark: "reach pf path fs c \<Longrightarrow> reach pf path fs (cache_mark pf fs k c)"
| next_run: "reach pf path fs c \<Longrightarrow> reach pf path fs (next_run now c)"
| load: "reach pf path fs c \<Longrightarrow> reach pf path fs (cache_load pf fs c)"
| flush: "reach pf path fs c \<Longrightarrow> flush_with_budget pf os pid budget fs c = (ok, fs', c') \<Longrightarrow>
     reach pf path fs' c'"

section \<open>The invariant\<close>

definition good_view :: "platform \<Rightarrow> (key \<Rightarrow> file_outcome option) \<Rightarrow> bool" where
  "good_view pf v \<longleftrightarrow>
     (\<forall>k out. v k = Some out \<longrightarrow> o_error out = None \<and>
        (o_changed out \<longrightarrow> (\<exists>cfg rel bs. length cfg = 32 \<and> length rel < 2 ^ 64 \<and>
           k = pf_hash pf (key_input pf cfg Check rel bs))))"

definition good_stamps :: "platform \<Rightarrow> (key \<Rightarrow> (stamp \<times> key) option) \<Rightarrow> bool" where
  "good_stamps pf v \<longleftrightarrow>
     (\<forall>pk s k. v pk = Some (s, k) \<longrightarrow>
        (\<exists>cfg m rel bs. length cfg = 32 \<and> length rel < 2 ^ 64 \<and>
           pk = pf_hash pf (path_key_input cfg m rel) \<and> k = pf_hash pf (key_input pf cfg m rel bs)))"

definition good_tables :: "platform \<Rightarrow> tables \<Rightarrow> bool" where
  "good_tables pf t \<longleftrightarrow> wf_tables t \<and> good_view pf (tables_view pf t) \<and> good_stamps pf (shard_lookup (t_stamps t))"

definition good_cache :: "platform \<Rightarrow> files \<Rightarrow> cache \<Rightarrow> bool" where
  "good_cache pf fs c \<longleftrightarrow> good_tables pf (cache_tables pf fs c)"

lemma good_cache_view:
  "good_cache pf fs c \<longleftrightarrow>
     wf_cache pf fs c \<and> good_view pf (cache_view pf fs c) \<and> good_stamps pf (stamps_view pf fs c)"
  by (simp add: good_cache_def good_tables_def wf_cache_def cache_view_def stamps_view_def)

lemma good_view_update:
  "good_view pf v \<Longrightarrow> o_error out = None \<Longrightarrow>
     o_changed out \<longrightarrow> (\<exists>cfg rel bs. length cfg = 32 \<and> length rel < 2 ^ 64 \<and>
           k = pf_hash pf (key_input pf cfg Check rel bs)) \<Longrightarrow>
     good_view pf (v(k \<mapsto> out))"
  by (auto simp: good_view_def)

lemma good_stamps_update:
  "good_stamps pf v \<Longrightarrow> length cfg = 32 \<Longrightarrow> length rel < 2 ^ 64 \<Longrightarrow>
     pk = pf_hash pf (path_key_input cfg m rel) \<Longrightarrow> k = pf_hash pf (key_input pf cfg m rel bs) \<Longrightarrow>
     good_stamps pf (v(pk \<mapsto> (s, k)))"
  by (auto simp: good_stamps_def)

lemma good_empty_tables [simp]: "good_tables pf empty_tables"
  by (simp add: good_tables_def good_view_def good_stamps_def) (simp add: empty_tables_def lookup_shard_empty)

section \<open>Preservation, one operation at a time\<close>

lemma stamps_get: "stamps_view pf fs (snd (cache_get pf fs k c)) = stamps_view pf fs c"
  by (simp add: stamps_view_def cache_get_keeps)

lemma good_get: "good_cache pf fs c \<Longrightarrow> good_cache pf fs (snd (cache_get pf fs k c))"
  by (simp add: good_cache_view cache_get_spec stamps_get)

lemma opened_get: "opened path c \<Longrightarrow> opened path (snd (cache_get pf fs k c))"
  by (auto simp: opened_def cache_get_def Let_def split: option.splits)

lemma stamps_remember:
  "wf_cache pf fs c \<Longrightarrow> stamps_view pf fs (remember pf fs fr c) = stamps_view pf fs c \<or>
     (\<exists>pk s. f_stamp fr = Some (pk, s) \<and>
        stamps_view pf fs (remember pf fs fr c) = (stamps_view pf fs c)(pk \<mapsto> (s, f_key fr)))"
  by (auto simp: remember_def stamps_view_def wf_cache_def wf_tables_def cache_simps Let_def lookup_shard_insert
      split: option.splits)

lemma good_remember:
  assumes "good_cache pf fs c" "genuine pf fr"
  shows "good_cache pf fs (remember pf fs fr c)"
proof -
  from assms have wf: "wf_cache pf fs c" and gs: "good_stamps pf (stamps_view pf fs c)"
    by (simp_all add: good_cache_view)
  from assms(2) have "good_stamps pf ((stamps_view pf fs c)(pk \<mapsto> (s, f_key fr)))" if "f_stamp fr = Some (pk, s)" for pk s
    using that gs unfolding genuine_def by (auto intro: good_stamps_update)
  with stamps_remember [OF wf, of fr] gs have "good_stamps pf (stamps_view pf fs (remember pf fs fr c))" by auto
  with assms(1) show ?thesis by (simp add: good_cache_view remember_spec)
qed

lemma opened_remember: "opened path c \<Longrightarrow> opened path (remember pf fs fr c)"
  by (auto simp: opened_def remember_def Let_def split: option.splits)

lemma stamps_insert: "stamps_view pf fs (cache_insert pf fs k out c) = stamps_view pf fs c"
  by (auto simp: stamps_view_def cache_insert_def cache_simps Let_def split: option.splits)

lemma opened_insert: "opened path c \<Longrightarrow> opened path (cache_insert pf fs k out c)"
  by (auto simp: opened_def cache_insert_def Let_def split: option.splits)

lemma good_insert:
  assumes "good_cache pf fs c" "codec_ok pf" "o_error out = None"
    and "o_changed out \<longrightarrow> (\<exists>cfg rel bs. length cfg = 32 \<and> length rel < 2 ^ 64 \<and>
           k = pf_hash pf (key_input pf cfg Check rel bs))"
  shows "good_cache pf fs (cache_insert pf fs k out c)"
  using assms by (simp add: good_cache_view cache_insert_spec stamps_insert good_view_update)

lemma good_put: "good_cache pf fs c \<Longrightarrow> codec_ok pf \<Longrightarrow> good_cache pf fs (cache_put pf fs k out c)"
  by (simp add: cache_put_def good_insert)

lemma good_put_fresh:
  assumes "good_cache pf fs c" "codec_ok pf" "genuine pf fr"
  shows "good_cache pf fs (put_fresh pf fs fr out c)"
proof -
  have "good_cache pf fs (cache_insert pf fs (f_key fr) out c)"
    if "o_error out = None" "\<not> o_changed out \<or> f_mode fr = Check"
  proof -
    from assms(3) have "f_mode fr = Check \<longrightarrow> (\<exists>cfg rel bs. length cfg = 32 \<and> length rel < 2 ^ 64 \<and>
       f_key fr = pf_hash pf (key_input pf cfg Check rel bs))" unfolding genuine_def by metis
    with assms(1,2) that show ?thesis by (blast intro: good_insert)
  qed
  with assms show ?thesis by (simp add: put_fresh_def good_remember)
qed

lemma opened_key:
  assumes "opened path c"
  shows "\<exists>cfg. length cfg = 32 \<and> (\<forall>m rel bs. cache_key pf m rel bs c = pf_hash pf (key_input pf cfg m rel bs)) \<and>
    (\<forall>sv m rel pk s. lookup_stamp pf sv m rel c = Some (pk, s) \<longrightarrow> pk = pf_hash pf (path_key_input cfg m rel))"
  using assms by (auto simp: opened_def cache_key_def lookup_stamp_def path_key_def)

lemma genuine_fresh_of:
  "opened path c \<Longrightarrow> length rel < 2 ^ 64 \<Longrightarrow> lookup_stamp pf sv m rel c = stamp \<Longrightarrow>
     genuine pf (fresh_of pf m rel stamp bs c)"
  using opened_key [of path c pf] by (fastforce simp: genuine_def fresh_of_def)

lemma stamps_get_stamped:
  "stamps_view pf fs (snd (get_stamped pf fs pk s c)) = stamps_view pf fs c"
  by (auto simp: get_stamped_def stamps_get Let_def split: option.splits) (simp_all add: stamps_view_def cache_simps)

lemma opened_with_tables: "opened path (Some st) \<Longrightarrow> opened path (Some (with_tables t st))"
  by (auto simp: opened_def)

lemma opened_get_stamped: "opened path c \<Longrightarrow> opened path (snd (get_stamped pf fs pk s c))"
  by (auto simp: get_stamped_def Let_def opened_get opened_with_tables split: option.splits)

lemma try_stamp_keeps:
  assumes "try_stamp pf fs stamp c = (r, c1)" "good_cache pf fs c" "opened path c"
  shows "good_cache pf fs c1 \<and> opened path c1"
proof (cases stamp)
  case None
  with assms show ?thesis by (simp add: try_stamp_def)
next
  case (Some p)
  then obtain pk s where "stamp = Some (pk, s)" by (cases p) auto
  with assms(1) have c1: "c1 = snd (get_stamped pf fs pk s c)" by (simp add: try_stamp_def)
  with assms show ?thesis
    by (simp add: good_cache_view get_stamped_spec stamps_get_stamped opened_get_stamped)
qed

lemma config_lookup_stamp:
  "map_option cs_config_hash c' = map_option cs_config_hash c \<Longrightarrow>
     lookup_stamp pf sv m rel c' = lookup_stamp pf sv m rel c"
  by (cases c; cases c') (simp_all add: lookup_stamp_def path_key_def)

lemma read_keeps:
  assumes "cache_read pf fs sv mode rel c = (r, c')" "good_cache pf fs c" "opened path c" "length rel < 2 ^ 64"
  shows "good_cache pf fs c' \<and> opened path c'"
proof -
  let ?s = "lookup_stamp pf sv mode rel c"
  obtain o1 c1 where t: "try_stamp pf fs ?s c = (o1, c1)" by fastforce
  from try_stamp_keeps [OF t assms(2,3)] have g: "good_cache pf fs c1" "opened path c1" by auto
  from assms(2) have "wf_cache pf fs c" by (simp add: good_cache_view)
  from try_stamp_spec(1) [OF this t] have "same_store pf fs c c1" .
  then have "lookup_stamp pf sv mode rel c1 = ?s" by (intro config_lookup_stamp) (simp add: same_store_def)
  with g assms(4) have fr: "genuine pf (fresh_of pf mode rel ?s bs c1)" for bs by (intro genuine_fresh_of)
  have content: "good_cache pf fs c2 \<and> opened path c2"
    if "read_content pf fs (fresh_of pf mode rel ?s bs c1) c1 = (r, c2)" for bs c2
  proof -
    let ?k = "f_key (fresh_of pf mode rel ?s bs c1)"
    obtain o2 c3 where "cache_get pf fs ?k c1 = (o2, c3)" by fastforce
    with that good_get [OF g(1), of ?k] opened_get [OF g(2), of pf fs ?k] fr show ?thesis
      by (auto simp: read_content_def good_remember opened_remember split: option.splits)
  qed
  from assms(1) t g content show ?thesis
    by (auto simp: cache_read_def Let_def split: option.splits sum.splits)
qed

lemma good_tables_marks [simp]: "good_tables pf (t\<lparr>t_marks := ms\<rparr>) = good_tables pf t"
  by (simp add: good_tables_def wf_tables_def)

lemma good_marked: "good_cache pf fs c \<Longrightarrow> good_cache pf fs (snd (cache_marked pf fs k c))"
  by (auto simp: good_cache_def cache_marked_def cache_simps Let_def split: option.splits prod.splits)

lemma opened_marked: "opened path c \<Longrightarrow> opened path (snd (cache_marked pf fs k c))"
  by (auto simp: opened_def cache_marked_def Let_def split: prod.splits)

lemma good_mark: "good_cache pf fs c \<Longrightarrow> good_cache pf fs (cache_mark pf fs k c)"
  using good_marked [of pf fs c k]
  by (auto simp: good_cache_def cache_mark_def cache_simps Let_def map_option_case split: option.splits prod.splits bool.splits)

lemma opened_mark: "opened path c \<Longrightarrow> opened path (cache_mark pf fs k c)"
  using opened_marked [of path c pf fs k]
  by (auto simp: opened_def cache_mark_def Let_def split: prod.splits bool.splits)

lemma good_next_run: "good_cache pf fs (next_run now c) = good_cache pf fs c"
  by (cases c) (simp_all add: good_cache_def next_run_def cache_simps)

lemma opened_next_run: "opened path c \<Longrightarrow> opened path (next_run now c)"
  by (auto simp: opened_def next_run_def)

lemma good_load: "good_cache pf fs (cache_load pf fs c) = good_cache pf fs c"
  by (cases c) (simp_all add: good_cache_def cache_load_def cache_simps)

lemma opened_load: "opened path c \<Longrightarrow> opened path (cache_load pf fs c)"
  by (auto simp: opened_def cache_load_def)

lemma opened_put: "opened path c \<Longrightarrow> opened path (cache_put pf fs k out c)"
  by (simp add: cache_put_def opened_insert)

lemma opened_put_fresh: "opened path c \<Longrightarrow> opened path (put_fresh pf fs fr out c)"
  by (simp add: put_fresh_def opened_insert opened_remember)

section \<open>Flushes and reopenings\<close>

lemma stamps_prune:
  "wf_tables t \<Longrightarrow> shard_lookup (t_stamps (prune budget t)) pk = Some (s, k) \<Longrightarrow>
     shard_lookup (t_stamps t) pk = Some (s, k)"
  by (auto simp: prune_def Let_def wf_tables_def lookup_shard_retain split: if_splits option.splits)

lemma good_prune:
  assumes "good_tables pf t"
  shows "good_tables pf (prune budget t)"
proof -
  from assms have wf: "wf_tables t" and v: "good_view pf (tables_view pf t)"
    and s: "good_stamps pf (shard_lookup (t_stamps t))" by (simp_all add: good_tables_def)
  have "good_view pf (tables_view pf (prune budget t))"
    using v unfolding good_view_def prune_spec(2) [OF wf] by (metis option.distinct(1))
  moreover have "good_stamps pf (shard_lookup (t_stamps (prune budget t)))"
    using s stamps_prune [OF wf] unfolding good_stamps_def by metis
  ultimately show ?thesis by (simp add: good_tables_def prune_spec(1) [OF wf])
qed

lemma good_encoded:
  "good_tables pf t \<Longrightarrow> codec_ok pf \<Longrightarrow> tables_encode pf t = Some bs \<Longrightarrow> good_tables pf (tables_load pf (Some bs))"
  using load_encoded [of t pf bs] by (simp add: good_tables_def)

definition sound :: "platform \<Rightarrow> string \<Rightarrow> files \<Rightarrow> cache \<Rightarrow> bool" where
  "sound pf path fs c \<longleftrightarrow>
     opened path c \<and> good_cache pf fs c \<and> good_tables pf (tables_load pf (fs path))"

lemma just_opened_sound:
  "just_opened path c \<Longrightarrow> good_tables pf (tables_load pf (fs path)) \<Longrightarrow> sound pf path fs c"
  by (auto simp: sound_def just_opened_def opened_def good_cache_def cache_simps force_tables_def)

lemma elsewhere_sound: "sound pf path fs c \<Longrightarrow> fs' path = fs path \<Longrightarrow> sound pf path fs' c"
  by (auto simp: sound_def opened_def good_cache_def cache_simps force_tables_def split: option.splits)

lemma flush_sound:
  assumes "sound pf path fs c" "codec_ok pf" "\<not> suffix ''.tmp'' path"
    and fl: "flush_with_budget pf os pid budget fs c = (ok, fs', c')"
  shows "sound pf path fs' c'"
proof -
  from assms(1) obtain st where c: "c = Some st" and st: "cs_path st = path" "length (cs_config_hash st) = 32"
    and good: "good_tables pf (force_tables pf fs st)" and disk: "good_tables pf (tables_load pf (fs path))"
    by (auto simp: sound_def opened_def good_cache_def cache_simps)
  show ?thesis
  proof (cases "cs_tables st")
    case None
    with fl c have "fs' = fs" "c' = Some (st\<lparr>cs_dirty := False\<rparr>)" by (simp_all add: flush_with_budget_def)
    with None disk st show ?thesis
      by (simp add: sound_def opened_def good_cache_def cache_simps force_tables_def)
  next
    case (Some t)
    show ?thesis
    proof (cases "cs_dirty st")
      case False
      with fl c Some assms(1) show ?thesis by (simp add: flush_with_budget_def)
    next
      case True
      let ?t = "prune budget t"
      from good Some have t: "good_tables pf t" by (simp add: force_tables_def)
      note p = good_prune [OF this, of budget]
      have kept: "opened path (Some ((with_tables ?t st)\<lparr>cs_dirty := d\<rparr>))" "opened path (Some (with_tables ?t st))"
        "good_cache pf f (Some ((with_tables ?t st)\<lparr>cs_dirty := d\<rparr>))" "good_cache pf f (Some (with_tables ?t st))"
        for d f using p st by (simp_all add: opened_def good_cache_def cache_simps)
      show ?thesis
      proof (cases "tables_encode pf ?t")
        case None
        with fl c Some True disk kept show ?thesis by (auto simp: flush_with_budget_def sound_def)
      next
        case bs: (Some bs)
        obtain states where w: "write_atomic os pid path bs fs = (states, ok)"
          and fs': "fs' = last states" "c' = Some ((with_tables ?t st)\<lparr>cs_dirty := \<not> ok\<rparr>)"
          using fl c Some True bs st(1)
          by (cases "write_atomic os pid path bs fs") (simp add: flush_with_budget_def Let_def)
        from write_atomic_last [OF assms(3) w] fs'(1) have "fs' path = (if ok then Some bs else fs path)" by simp
        with disk good_encoded [OF p assms(2) bs] have "good_tables pf (tables_load pf (fs' path))" by simp
        with kept fs'(2) show ?thesis by (simp add: sound_def)
      qed
    qed
  qed
qed

lemma reach_sound:
  assumes "reach pf path fs c" "codec_ok pf" "\<not> suffix ''.tmp'' path"
  shows "sound pf path fs c"
  using assms(1)
proof (induction rule: reach.induct)
  case (start fs c)
  then show ?case by (intro just_opened_sound) (simp_all add: tables_load_def)
next
  case (reopen fs c c')
  then show ?case by (intro just_opened_sound) (simp_all add: sound_def)
next
  case (elsewhere fs c fs')
  show ?case by (rule elsewhere_sound [where fs' = fs' and path = path, OF elsewhere.IH elsewhere.hyps(2)])
next
  case (read fs c rel sv mode r c')
  from read.IH have g: "good_cache pf fs c" "opened path c" "good_tables pf (tables_load pf (fs path))"
    unfolding sound_def by blast+
  from read_keeps [OF read.hyps(3) g(1,2) read.hyps(2)] g(3) show ?case unfolding sound_def by blast
next
  case (flush fs c os pid budget ok fs' c')
  then show ?case using flush_sound assms(2,3) by blast
next
  case (get fs c k)
  then show ?case unfolding sound_def by (blast intro: good_get opened_get)
next
  case (put fs c k out)
  then show ?case using assms(2) unfolding sound_def by (blast intro: good_put opened_put)
next
  case (put_fresh fs c fr out)
  then show ?case using assms(2) unfolding sound_def by (blast intro: good_put_fresh opened_put_fresh)
next
  case (marked fs c k)
  then show ?case unfolding sound_def by (blast intro: good_marked opened_marked)
next
  case (mark fs c k)
  then show ?case unfolding sound_def by (blast intro: good_mark opened_mark)
next
  case (next_run fs c now)
  then show ?case by (simp add: sound_def good_next_run opened_next_run)
next
  case (load fs c)
  then show ?case by (simp add: sound_def good_load opened_load)
qed

lemma path_key_input_inject:
  assumes "length cfg = 32" "length cfg' = 32"
    and "path_key_input cfg m rel = path_key_input cfg' m' rel'"
  shows "cfg = cfg' \<and> m = m'"
  using assms by (simp add: path_key_input_def)

text \<open>
  C22: The cache never answers a formatting run with a file that still needs work: whatever series of
  reads, puts, marks, flushes (complete, failed or interrupted), reopenings and runs over other modes
  and configurations came before, a hit in format mode is an outcome that neither changed the file nor
  failed, provided the hash has no collisions.
\<close>

theorem format_hit_is_clean:
  assumes "reach pf path fs c" "codec_ok pf" "inj (pf_hash pf)" "length (pf_version pf) < 2 ^ 64"
    and "\<not> suffix ''.tmp'' path" "length rel < 2 ^ 64"
    and "cache_read pf fs sv Format rel c = (Inr (Hit out), c')"
  shows "o_error out = None \<and> \<not> o_changed out"
proof -
  from reach_sound [OF assms(1,2,5)] have o: "opened path c" and wf: "wf_cache pf fs c"
    and gv: "good_view pf (cache_view pf fs c)" and gs: "good_stamps pf (stamps_view pf fs c)"
    by (simp_all add: sound_def good_cache_view)
  from opened_key [OF o] obtain cfg where cfg: "length cfg = 32"
    "\<And>m rel bs. cache_key pf m rel bs c = pf_hash pf (key_input pf cfg m rel bs)"
    "\<And>sv m rel pk s. lookup_stamp pf sv m rel c = Some (pk, s) \<Longrightarrow> pk = pf_hash pf (path_key_input cfg m rel)"
    by metis
  have *: "o_error out = None \<and> \<not> o_changed out"
    if v: "cache_view pf fs c (pf_hash pf (key_input pf cfg' Format rel' bs)) = Some out"
      and l: "length cfg' = 32" "length rel' < 2 ^ 64" for cfg' rel' bs
  proof -
    have "pf_hash pf (key_input pf cfg' Format rel' bs) \<noteq> pf_hash pf (key_input pf cfg2 Check rel2 bs2)"
      if "length cfg2 = 32" "length rel2 < 2 ^ 64" for cfg2 rel2 bs2
      using key_input_inject [OF l(1) that(1) l(2) that(2) assms(4,4), of Format bs Check bs2] assms(3)
      by (auto dest: injD)
    with gv v show ?thesis unfolding good_view_def by metis
  qed
  from cache_read_spec(2) [OF wf assms(7) refl]
  show ?thesis
  proof (elim disjE exE conjE)
    fix pk s k
    assume a: "lookup_stamp pf sv Format rel c = Some (pk, s)"
      "shard_lookup (t_stamps (cache_tables pf fs c)) pk = Some (s, k)" "cache_view pf fs c k = Some out"
    from gs a(2) obtain cfg' m' rel' bs' where k: "length cfg' = 32" "length rel' < 2 ^ 64"
      "pk = pf_hash pf (path_key_input cfg' m' rel')" "k = pf_hash pf (key_input pf cfg' m' rel' bs')"
      unfolding good_stamps_def stamps_view_def by metis
    from cfg(3) [OF a(1)] k(3)
    have "pf_hash pf (path_key_input cfg Format rel) = pf_hash pf (path_key_input cfg' m' rel')" by (rule subst)
    with assms(3) have "path_key_input cfg Format rel = path_key_input cfg' m' rel'" by (rule injD)
    with path_key_input_inject [OF cfg(1) k(1)] have "m' = Format" by blast
    with a(3) k(4) have "cache_view pf fs c (pf_hash pf (key_input pf cfg' Format rel' bs')) = Some out" by simp
    from * [OF this k(1,2)] show ?thesis .
  next
    fix bs assume "cache_view pf fs c (cache_key pf Format rel bs c) = Some out"
    then have "cache_view pf fs c (pf_hash pf (key_input pf cfg Format rel bs)) = Some out"
      by (simp only: cfg(2))
    from * [OF this cfg(1) assms(6)] show ?thesis .
  qed
qed

definition sample_opened :: cache where
  "sample_opened = open_in (sample_platform sample_stored) (\<lambda>_. None) 0 ''c'' ''/r'' (replicate 32 (CHR 0x00))"

definition sample_fresh :: fresh where
  "sample_fresh = \<lparr>f_bytes = ''x'',
     f_key = key_input (sample_platform sample_stored) (replicate 32 (CHR 0x00)) Format ''a.ts'' ''x'',
     f_mode = Format, f_stamp = None\<rparr>"

lemma sample_opened_path:
  "sample_opened = Some \<lparr>cs_path = ''c/2f72.bin'', cs_config_hash = replicate 32 (CHR 0x00),
     cs_settled = settled_before 0, cs_tables = None, cs_dirty = False\<rparr>"
  by (simp add: sample_opened_def open_in_def path_join_def is_relative_def suffix_def store_name_def to_hex_def hex_digits_def
      sample_platform_def)

lemma sample_reach:
  "reach (sample_platform sample_stored) ''c/2f72.bin'' Map.empty
     (put_fresh (sample_platform sample_stored) Map.empty sample_fresh sample_outcome sample_opened)"
proof (rule reach.put_fresh)
  show "reach (sample_platform sample_stored) ''c/2f72.bin'' Map.empty sample_opened"
    by (rule reach.start) (simp_all add: just_opened_def sample_opened_path)
  have "length (replicate 32 (CHR 0x00)) = 32 \<and> length ''a.ts'' < 2 ^ 64" by simp
  then show "genuine (sample_platform sample_stored) sample_fresh"
    unfolding genuine_def sample_fresh_def
    by (intro exI [of _ "replicate 32 (CHR 0x00)"] exI [of _ "''a.ts''"]) (simp, simp add: sample_platform_def)
qed

lemma sample_read:
  "fst (cache_read (sample_platform sample_stored) Map.empty \<lparr>sv_metadata = None, sv_bytes = Inr ''x''\<rparr> Format ''a.ts''
     (put_fresh (sample_platform sample_stored) Map.empty sample_fresh sample_outcome sample_opened)) =
   Inr (Hit sample_outcome)"
  (is "fst (cache_read ?pf _ _ _ _ ?c) = _")
proof -
  have wf: "wf_cache ?pf Map.empty sample_opened"
    by (simp add: wf_cache_def cache_simps sample_opened_path force_tables_def)
  have o: "opened ''c/2f72.bin'' sample_opened" by (simp add: opened_def sample_opened_path)
  have "cache_view ?pf Map.empty ?c (f_key sample_fresh) = Some sample_outcome"
    by (simp add: put_fresh_spec [OF wf sample_codec_ok])
      (simp add: sample_opened_path sample_platform_def sample_outcome_def)
  moreover have "cache_key ?pf Format ''a.ts'' ''x'' ?c = f_key sample_fresh"
    by (auto simp: put_fresh_def remember_def sample_fresh_def cache_insert_def sample_opened_path cache_key_def
        sample_platform_def Let_def split: option.split)
  moreover have "wf_cache ?pf Map.empty ?c" using wf sample_codec_ok by (rule put_fresh_spec)
  ultimately have "fst (cache_get ?pf Map.empty (cache_key ?pf Format ''a.ts'' ''x'' ?c) ?c) = Some sample_outcome"
    by (simp add: cache_get_spec)
  then have "\<exists>c'. cache_get ?pf Map.empty (cache_key ?pf Format ''a.ts'' ''x'' ?c) ?c = (Some sample_outcome, c')"
    by (metis prod.collapse)
  then show ?thesis
    by (auto simp: cache_read_def lookup_stamp_def stamp_of_def try_stamp_def read_content_def fresh_of_def Let_def
        split: option.split)
qed

theorem format_hit_is_clean_witness:
  "fst (cache_read (sample_platform sample_stored) Map.empty \<lparr>sv_metadata = None, sv_bytes = Inr ''x''\<rparr> Format ''a.ts''
     (put_fresh (sample_platform sample_stored) Map.empty sample_fresh sample_outcome sample_opened)) =
     Inr (Hit sample_outcome) \<and>
   o_error sample_outcome = None \<and> \<not> o_changed sample_outcome"
proof -
  let ?r = "cache_read (sample_platform sample_stored) Map.empty \<lparr>sv_metadata = None, sv_bytes = Inr ''x''\<rparr> Format ''a.ts''
     (put_fresh (sample_platform sample_stored) Map.empty sample_fresh sample_outcome sample_opened)"
  have r: "?r = (Inr (Hit sample_outcome), snd ?r)" by (metis prod.collapse sample_read)
  have "inj (pf_hash (sample_platform sample_stored))" "length (pf_version (sample_platform sample_stored)) < 2 ^ 64"
    by (simp_all add: sample_platform_def inj_def)
  moreover have "\<not> suffix ''.tmp'' ''c/2f72.bin''" "length ''a.ts'' < 2 ^ 64" by code_simp simp
  ultimately have "o_error sample_outcome = None \<and> \<not> o_changed sample_outcome"
    using format_hit_is_clean [OF sample_reach sample_codec_ok _ _ _ _ r] by blast
  with sample_read show ?thesis by blast
qed

end
