(* ===== verification/Configs.thy ===== *)
theory Configs imports
  Prelude
begin

text \<open>
  \<^verbatim>\<open>crates/config/src/lib.rs\<close>: the settings of a run, where they are read from, what makes them
  invalid, the worker count, and the digest that keys the cache. TOML parsing, JSON printing and the
  hash are third-party code and are arguments.
\<close>

section \<open>Settings\<close>

definition FILE_NAME :: string where "FILE_NAME = ''fmtkit.toml''"

definition JOBS_ENV :: string where "JOBS_ENV = ''FMTKIT_JOBS''"

record files_config =
  fc_exclude :: "string list"

record go_config =
  gc_spacing :: bool
  gc_gofmt :: bool
  gc_goimports :: bool
  gc_resolve_imports :: bool
  gc_vet :: bool

datatype trailing_comma = TrailingAll | TrailingEs5 | TrailingNone

datatype arrow_parens = ArrowAlways | ArrowAvoid

record ts_format =
  tf_use_tabs :: bool
  tf_tab_width :: "8 word"
  tf_print_width :: "16 word"
  tf_single_quote :: bool
  tf_semi :: bool
  tf_trailing_comma :: trailing_comma
  tf_arrow_parens :: arrow_parens

text \<open>A rule setting is any JSON value (\<open>serde_json::Value\<close>).\<close>

datatype json = JNull | JBool bool | JNumber int | JString string | JArray "json list" | JObject "(string \<times> json) list"

record lint_config =
  lc_bundled :: bool
  lc_rules :: "(string \<times> json) list"
  lc_ignore :: "string list"

record allow_entry =
  ae_key :: string
  ae_reason :: string

record complexity_config =
  cc_cyclomatic :: u32
  cc_cognitive :: u32
  cc_allow :: "allow_entry list"

record config =
  cf_jobs :: nat
  cf_files :: files_config
  cf_go :: go_config
  cf_ts :: ts_format
  cf_lint :: lint_config
  cf_complexity :: complexity_config

definition default_files :: files_config where
  "default_files = \<lparr>fc_exclude = [''node_modules/'', ''vendor/'']\<rparr>"

definition default_go :: go_config where
  "default_go = \<lparr>gc_spacing = True, gc_gofmt = True, gc_goimports = True, gc_resolve_imports = False, gc_vet = True\<rparr>"

definition default_ts_format :: ts_format where
  "default_ts_format = \<lparr>tf_use_tabs = True, tf_tab_width = 4, tf_print_width = 200, tf_single_quote = True,
     tf_semi = True, tf_trailing_comma = TrailingAll, tf_arrow_parens = ArrowAlways\<rparr>"

definition default_lint :: lint_config where
  "default_lint = \<lparr>lc_bundled = True, lc_rules = [], lc_ignore = []\<rparr>"

definition default_complexity :: complexity_config where
  "default_complexity = \<lparr>cc_cyclomatic = 15, cc_cognitive = 20, cc_allow = []\<rparr>"

definition default_config :: config where
  "default_config = \<lparr>cf_jobs = 0, cf_files = default_files, cf_go = default_go, cf_ts = default_ts_format,
     cf_lint = default_lint, cf_complexity = default_complexity\<rparr>"

definition allowed :: "complexity_config \<Rightarrow> string \<Rightarrow> bool" where
  "allowed c key \<longleftrightarrow> (\<exists>e \<in> set (cc_allow c). ae_key e = key)"

definition severity_of :: "json \<Rightarrow> string option" where
  "severity_of setting =
     (let severity = (case setting of
          JString s \<Rightarrow> Some s
        | JArray (JString s # _) \<Rightarrow> Some s
        | _ \<Rightarrow> None)
      in case severity of
           Some s \<Rightarrow> if s \<in> {''off'', ''allow'', ''warn'', ''error'', ''deny''} then Some s else None
         | None \<Rightarrow> None)"

section \<open>Errors and validation\<close>

datatype config_error =
    ConfigRead string string
  | ConfigParse string string
  | ConfigInvalid string string
  | ConfigJobs string

fun allow_error :: "string list \<Rightarrow> allow_entry list \<Rightarrow> string option" where
  "allow_error keys [] = None"
| "allow_error keys (e # es) =
     (if CHR ''#'' \<notin> set (ae_key e)
      then Some (''complexity.allow key '' @ debug_str (ae_key e) @ '' is not <path>#<function>'')
      else if ae_key e \<in> set keys
      then Some (''complexity.allow key '' @ debug_str (ae_key e) @ '' is listed twice'')
      else allow_error (ae_key e # keys) es)"

fun rules_error :: "(string \<times> json) list \<Rightarrow> string option" where
  "rules_error [] = None"
| "rules_error ((rule, setting) # rs) =
     (if severity_of setting = None
      then Some (''lint.rules.'' @ debug_str rule @ '': expected '' @ debug_str ''off'' @ '', '' @
        debug_str ''warn'' @ '', '' @ debug_str ''error'' @ '', or [severity, options...]'')
      else rules_error rs)"

definition config_validate :: "config \<Rightarrow> string \<Rightarrow> config_error + unit" where
  "config_validate c path =
     (if tf_tab_width (cf_ts c) = 0 then Inl (ConfigInvalid path ''ts.format.tab_width must be at least 1'')
      else if tf_print_width (cf_ts c) = 0 then Inl (ConfigInvalid path ''ts.format.print_width must be at least 1'')
      else case allow_error [] (cc_allow (cf_complexity c)) of
             Some msg \<Rightarrow> Inl (ConfigInvalid path msg)
           | None \<Rightarrow>
               (case rules_error (lc_rules (cf_lint c)) of
                  Some msg \<Rightarrow> Inl (ConfigInvalid path msg)
                | None \<Rightarrow> Inr ()))"

section \<open>Loading\<close>

text \<open>\<open>toml::from_str\<close> gives a configuration or an error message.\<close>

type_synonym toml_parser = "string \<Rightarrow> string + config"

definition config_parse :: "toml_parser \<Rightarrow> string \<Rightarrow> string \<Rightarrow> config_error + config" where
  "config_parse toml txt path =
     (case toml txt of
        Inl err \<Rightarrow> Inl (ConfigParse path err)
      | Inr c \<Rightarrow> (case config_validate c path of Inl e \<Rightarrow> Inl e | Inr _ \<Rightarrow> Inr c))"

record loaded =
  ld_config :: config
  ld_path :: "string option"

text \<open>What the file system says: whether a path is a file, and its text or the error of reading it.\<close>

record disk =
  dk_is_file :: "string \<Rightarrow> bool"
  dk_read :: "string \<Rightarrow> string + string"

definition load_file :: "toml_parser \<Rightarrow> disk \<Rightarrow> string \<Rightarrow> config_error + loaded" where
  "load_file toml disk path =
     (case dk_read disk path of
        Inl err \<Rightarrow> Inl (ConfigRead path err)
      | Inr txt \<Rightarrow>
          (case config_parse toml txt path of
             Inl e \<Rightarrow> Inl e
           | Inr c \<Rightarrow> Inr \<lparr>ld_config = c, ld_path = Some path\<rparr>))"

definition load_from :: "toml_parser \<Rightarrow> disk \<Rightarrow> string \<Rightarrow> string option \<Rightarrow> config_error + loaded" where
  "load_from toml disk root explicit =
     (case explicit of
        Some path \<Rightarrow> load_file toml disk (if is_relative path then path_join root path else path)
      | None \<Rightarrow>
          (let path = path_join root FILE_NAME in
           if \<not> dk_is_file disk path then Inr \<lparr>ld_config = default_config, ld_path = None\<rparr>
           else load_file toml disk path))"

definition config_load :: "toml_parser \<Rightarrow> disk \<Rightarrow> string option \<Rightarrow> string \<Rightarrow> config_error + loaded" where
  "config_load toml disk env root =
     load_from toml disk root (case env of Some v \<Rightarrow> if v \<noteq> [] then Some v else None | None \<Rightarrow> None)"

text \<open>\<open>env\<close> is the variable when it is set to valid text; \<open>cpus\<close> is the available parallelism, if known.\<close>

definition resolve_jobs :: "config \<Rightarrow> string option \<Rightarrow> nat option \<Rightarrow> nat option \<Rightarrow> config_error + nat" where
  "resolve_jobs c env cpus flag =
     (let from_env = (case env of
          Some v \<Rightarrow>
            if v \<noteq> [] then (case parse_usize (trim_ws v) of Some n \<Rightarrow> Inr (Some n) | None \<Rightarrow> Inl (ConfigJobs v))
            else Inr None
        | None \<Rightarrow> Inr None)
      in case from_env of
           Inl e \<Rightarrow> Inl e
         | Inr j \<Rightarrow>
             (let jobs = (case flag of Some n \<Rightarrow> n | None \<Rightarrow> (case j of Some n \<Rightarrow> n | None \<Rightarrow> cf_jobs c)) in
              if jobs = 0 then Inr (case cpus of Some n \<Rightarrow> n | None \<Rightarrow> 1) else Inr jobs))"

section \<open>The digest\<close>

type_synonym relevant = "go_config \<times> ts_format \<times> lint_config \<times> u32 \<times> u32"

definition config_relevant :: "config \<Rightarrow> relevant" where
  "config_relevant c =
     (cf_go c, cf_ts c, cf_lint c, cc_cyclomatic (cf_complexity c), cc_cognitive (cf_complexity c))"

definition config_hash :: "(relevant \<Rightarrow> string option) \<Rightarrow> (string \<Rightarrow> string) \<Rightarrow> config \<Rightarrow> string" where
  "config_hash to_vec blake c =
     blake (case to_vec (config_relevant c) of Some bs \<Rightarrow> bs | None \<Rightarrow> [])"

section \<open>Facts\<close>

lemma allow_error_None:
  "allow_error keys es = None \<longleftrightarrow>
     distinct (map ae_key es) \<and> (\<forall>e \<in> set es. CHR ''#'' \<in> set (ae_key e) \<and> ae_key e \<notin> set keys)"
  by (induction keys es rule: allow_error.induct) (auto simp: image_iff)

lemma rules_error_None:
  "rules_error rs = None \<longleftrightarrow> (\<forall>(rule, setting) \<in> set rs. severity_of setting \<noteq> None)"
  by (induction rs rule: rules_error.induct) auto

definition valid_config :: "config \<Rightarrow> bool" where
  "valid_config c \<longleftrightarrow>
     tf_tab_width (cf_ts c) \<noteq> 0 \<and> tf_print_width (cf_ts c) \<noteq> 0 \<and>
     distinct (map ae_key (cc_allow (cf_complexity c))) \<and>
     list_all (\<lambda>e. CHR ''#'' \<in> set (ae_key e)) (cc_allow (cf_complexity c)) \<and>
     list_all (\<lambda>(rule, setting). severity_of setting \<noteq> None) (lc_rules (cf_lint c))"

lemma validate_iff: "config_validate c path = Inr u \<longleftrightarrow> valid_config c"
proof -
  have "config_validate c path = Inr u \<longleftrightarrow> tf_tab_width (cf_ts c) \<noteq> 0 \<and> tf_print_width (cf_ts c) \<noteq> 0 \<and>
      allow_error [] (cc_allow (cf_complexity c)) = None \<and> rules_error (lc_rules (cf_lint c)) = None"
    by (auto simp: config_validate_def split: option.split)
  then show ?thesis
    by (simp add: allow_error_None rules_error_None valid_config_def list_all_iff)
qed

lemma default_valid: "valid_config default_config"
  by (simp add: valid_config_def default_config_def default_ts_format_def default_complexity_def default_lint_def)

section \<open>Properties\<close>

lemma config_parse_Inr:
  "config_parse toml txt path = Inr c \<longleftrightarrow> toml txt = Inr c \<and> valid_config c"
  by (auto simp: config_parse_def validate_iff split: sum.split)
    (metis obj_sumE old.unit.exhaust sum.distinct(1) validate_iff)

lemma config_parse_Inl: "config_parse toml txt path = Inl e \<Longrightarrow> toml txt = Inr c \<Longrightarrow> \<not> valid_config c"
  using config_parse_Inr [of toml "txt" path c] by auto

lemma load_file_Inr:
  "load_file toml disk path = Inr ld \<longleftrightarrow>
     (\<exists>txt. dk_read disk path = Inr txt \<and> toml txt = Inr (ld_config ld)) \<and> valid_config (ld_config ld) \<and>
     ld_path ld = Some path"
  by (cases ld) (auto simp: load_file_def config_parse_Inr dest: config_parse_Inl split: sum.splits)

text \<open>
  A configuration that loads is valid (positive widths, distinct allow keys that name a function,
  well-formed severities), and it is either the parsed text of the file it says it came from or, when
  no file was named and none is at the root, the defaults.
\<close>

theorem loaded_config_is_valid:
  assumes "config_load toml disk env root = Inr ld"
  shows "valid_config (ld_config ld) \<and>
     (case ld_path ld of
        None \<Rightarrow> ld_config ld = default_config \<and> \<not> dk_is_file disk (path_join root FILE_NAME)
      | Some path \<Rightarrow> \<exists>txt. dk_read disk path = Inr txt \<and> toml txt = Inr (ld_config ld))"
  using assms
  by (auto simp: config_load_def load_from_def Let_def load_file_Inr default_valid split: option.splits if_splits)

theorem loaded_config_is_valid_witness:
  "let toml = (\<lambda>txt. if txt = ''jobs = 2'' then Inr (default_config\<lparr>cf_jobs := 2\<rparr>) else Inl ''bad'');
       disk = \<lparr>dk_is_file = (\<lambda>p. p = ''/r/fmtkit.toml''), dk_read = (\<lambda>_. Inr ''jobs = 2'')\<rparr>
   in \<exists>ld. config_load toml disk None ''/r'' = Inr ld \<and> valid_config (ld_config ld) \<and> cf_jobs (ld_config ld) = 2"
proof -
  define toml :: toml_parser where
    "toml = (\<lambda>txt. if txt = ''jobs = 2'' then Inr (default_config\<lparr>cf_jobs := 2\<rparr>) else Inl ''bad'')"
  define disk where "disk = \<lparr>dk_is_file = (\<lambda>p. p = ''/r/fmtkit.toml''), dk_read = (\<lambda>_. Inr ''jobs = 2'' :: string + string)\<rparr>"
  have v: "valid_config (default_config\<lparr>cf_jobs := 2\<rparr>)"
    using default_valid by (simp add: valid_config_def)
  have l: "config_load toml disk None ''/r'' = Inr \<lparr>ld_config = default_config\<lparr>cf_jobs := 2\<rparr>, ld_path = Some ''/r/fmtkit.toml''\<rparr>"
    using v
    by (simp add: config_load_def load_from_def Let_def disk_def path_join_def is_relative_def FILE_NAME_def
        load_file_Inr toml_def suffix_def)
  from loaded_config_is_valid [OF this] l show ?thesis unfolding toml_def disk_def Let_def by force
qed

text \<open>
  The worker count that resolves is never zero, and the first setting given that is not zero
  decides it: the flag, then the environment, then the configuration.
\<close>

theorem resolved_jobs_are_positive:
  assumes "resolve_jobs c env cpus flag = Inr n" "cpus \<noteq> Some 0"
  shows "0 < n \<and> (flag \<noteq> None \<longrightarrow> flag \<noteq> Some 0 \<longrightarrow> flag = Some n) \<and>
     (flag = None \<longrightarrow> env = None \<longrightarrow> cf_jobs c \<noteq> 0 \<longrightarrow> n = cf_jobs c) \<and>
     (\<forall>v m. flag = None \<longrightarrow> env = Some v \<longrightarrow> v \<noteq> [] \<longrightarrow> parse_usize (trim_ws v) = Some m \<longrightarrow> m \<noteq> 0 \<longrightarrow> n = m)"
  using assms by (auto simp: resolve_jobs_def Let_def split: option.splits if_splits sum.splits)

theorem resolved_jobs_are_positive_witness:
  "resolve_jobs default_config None (Some 8) (Some 3) = Inr 3 \<and> (0::nat) < 3"
proof -
  have r: "resolve_jobs default_config None (Some 8) (Some 3) = Inr 3" "Some (8::nat) \<noteq> Some 0"
    by (simp_all add: resolve_jobs_def)
  from resolved_jobs_are_positive [OF this] r show ?thesis by blast
qed

end
