(* ===== verification/Filters.thy ===== *)
theory Filters imports
  Langs
begin

text \<open>
  \<^verbatim>\<open>crates/discover/src/filter.rs\<close>: what decides whether one repository-relative path is in scope, and
  whether a walk descends into a directory. The gitignore matcher is third-party code and an argument.
\<close>

section \<open>Model\<close>

record sourcefile =
  sf_rel :: string
  sf_abs :: string
  sf_lang :: lang

definition ALWAYS_EXCLUDED :: "string list" where
  "ALWAYS_EXCLUDED = [''.git'', ''node_modules'', ''vendor'']"

text \<open>
  A built \<open>Gitignore\<close>: what it says about one path (\<open>matched\<close>) and about a path below its parents
  (\<open>matched_path_or_any_parents\<close>), given whether the path is a directory.
\<close>

datatype ignore_match = NoMatch | Ignored | Whitelisted

record gitignore =
  gi_matched :: "string \<Rightarrow> bool \<Rightarrow> ignore_match"
  gi_matched_parents :: "string \<Rightarrow> bool \<Rightarrow> ignore_match"

record scope_filter =
  fl_root :: string
  fl_exclude :: gitignore
  fl_lanes :: "lane list"
  fl_prefixes :: "string list option"

text \<open>\<open>Filter::new\<close>: the third-party builder fails on the first bad pattern or builds the matcher.\<close>

definition filter_new ::
  "(string \<Rightarrow> string list \<Rightarrow> string + gitignore) \<Rightarrow> string \<Rightarrow> string list \<Rightarrow> lane list \<Rightarrow> string list option \<Rightarrow>
    string + scope_filter" where
  "filter_new build root exclude lanes scope =
     (case build root exclude of
        Inl err \<Rightarrow> Inl err
      | Inr gi \<Rightarrow> Inr \<lparr>fl_root = root, fl_exclude = gi, fl_lanes = lanes, fl_prefixes = scope\<rparr>)"

definition pathspecs :: "scope_filter \<Rightarrow> string list" where
  "pathspecs f =
     (case fl_prefixes f of None \<Rightarrow> [] | Some ps \<Rightarrow> map (\<lambda>p. '':(top,literal)'' @ p) ps)"

definition is_within :: "string \<Rightarrow> string \<Rightarrow> bool" where
  "is_within path parent \<longleftrightarrow>
     parent = [] \<or>
     (case strip_prefix parent path of None \<Rightarrow> False | Some rest \<Rightarrow> rest = [] \<or> prefix ''/'' rest)"

definition covers :: "scope_filter \<Rightarrow> string \<Rightarrow> bool" where
  "covers f rel \<longleftrightarrow>
     (case fl_prefixes f of None \<Rightarrow> True | Some ps \<Rightarrow> \<exists>p \<in> set ps. is_within rel p)"

definition in_excluded_dir :: "string \<Rightarrow> bool" where
  "in_excluded_dir rel \<longleftrightarrow>
     (case rsplit_once (CHR ''/'') rel of
        None \<Rightarrow> False
      | Some (dir, _) \<Rightarrow> \<exists>name \<in> set (split_on (CHR ''/'') dir). name \<in> set ALWAYS_EXCLUDED)"

definition source_file :: "scope_filter \<Rightarrow> string \<Rightarrow> sourcefile option" where
  "source_file f rel =
     (case lang_from_path rel of
        None \<Rightarrow> None
      | Some lang \<Rightarrow>
          if fl_lanes f \<noteq> [] \<and> lane_of lang \<notin> set (fl_lanes f) then None
          else if is_declaration rel \<or> \<not> covers f rel then None
          else if in_excluded_dir rel then None
          else if gi_matched_parents (fl_exclude f) rel False = Ignored then None
          else Some \<lparr>sf_rel = rel, sf_abs = path_join (fl_root f) rel, sf_lang = lang\<rparr>)"

definition base_name :: "string \<Rightarrow> string" where
  "base_name rel = (case rsplit_once (CHR ''/'') rel of Some (_, name) \<Rightarrow> name | None \<Rightarrow> rel)"

definition enters :: "scope_filter \<Rightarrow> string \<Rightarrow> bool" where
  "enters f rel \<longleftrightarrow>
     base_name rel \<notin> set ALWAYS_EXCLUDED \<and>
     (case fl_prefixes f of
        None \<Rightarrow> True
      | Some ps \<Rightarrow> \<exists>p \<in> set ps. is_within rel p \<or> is_within p rel) \<and>
     gi_matched (fl_exclude f) rel True \<noteq> Ignored"

section \<open>Paths as components\<close>

abbreviation comps :: "string \<Rightarrow> string list" where
  "comps \<equiv> split_on (CHR ''/'')"

text \<open>The directories a path lies in, the outermost first.\<close>

definition ancestors :: "string \<Rightarrow> string list" where
  "ancestors rel = map (\<lambda>k. join_with ''/'' (take k (comps rel))) [1..<length (comps rel)]"

lemma split_on_join:
  "ws \<noteq> [] \<Longrightarrow> list_all (\<lambda>w. c \<notin> set w) ws \<Longrightarrow> split_on c (join_with [c] ws) = ws"
proof (induction "[c]" ws rule: join_with.induct)
  case (3 w v vs)
  then show ?case by (simp add: split_on_append_sep split_on_word)
qed (simp_all add: split_on_word)

lemma comps_take: "0 < k \<Longrightarrow> comps (join_with ''/'' (take k (comps rel))) = take k (comps rel)"
  by (rule split_on_join) (auto simp: list_all_iff dest: in_set_takeD split_on_pieces)

lemma is_within_comps: "is_within path parent \<longleftrightarrow> parent = [] \<or> prefix (comps parent) (comps path)"
proof (cases "parent = []")
  case False
  show ?thesis
  proof
    assume "is_within path parent"
    with False obtain rest where p: "path = parent @ rest" "rest = [] \<or> (\<exists>r. rest = CHR ''/'' # r)"
      by (auto simp: is_within_def strip_prefix_Some prefix_def split: option.splits)
    then show "parent = [] \<or> prefix (comps parent) (comps path)" by (auto simp: split_on_append_sep)
  next
    assume "parent = [] \<or> prefix (comps parent) (comps path)"
    with False obtain ws where ws: "comps path = comps parent @ ws" by (auto simp: prefix_def)
    have "path = join_with ''/'' (comps parent @ ws)" using join_split_on [of "CHR ''/''" path] ws by simp
    also have "\<dots> = parent @ (if ws = [] then [] else CHR ''/'' # join_with ''/'' ws)"
      using join_with_append [of "comps parent" "''/''" ws] by (simp add: join_split_on)
    finally show "is_within path parent"
      by (auto simp: is_within_def strip_prefix_def split: option.splits)
  qed
qed (simp add: is_within_def)

lemma rsplit_comps:
  "rsplit_once (CHR ''/'') rel = Some (dir, name) \<Longrightarrow> comps rel = comps dir @ [name]"
  by (simp add: rsplit_once_Some split_on_append_sep split_on_word)

lemma rsplit_None_comps: "rsplit_once (CHR ''/'') rel = None \<Longrightarrow> comps rel = [rel]"
  by (simp add: rsplit_once_None split_on_word)

lemma base_name_comps: "base_name rel = last (comps rel)"
  by (auto simp: base_name_def dest: rsplit_comps rsplit_None_comps split: option.split)

lemma in_excluded_dir_comps: "in_excluded_dir rel \<longleftrightarrow> set (butlast (comps rel)) \<inter> set ALWAYS_EXCLUDED \<noteq> {}"
proof (cases "rsplit_once (CHR ''/'') rel")
  case (Some p)
  then obtain dir name where p: "rsplit_once (CHR ''/'') rel = Some (dir, name)" by (cases p) auto
  from rsplit_comps [OF this] p show ?thesis by (auto simp: in_excluded_dir_def)
qed (simp add: in_excluded_dir_def rsplit_None_comps)

lemma ancestorsE:
  assumes "a \<in> set (ancestors rel)"
  obtains k where "0 < k" "k < length (comps rel)" "comps a = take k (comps rel)"
proof -
  from assms obtain k where "k \<in> {1..<length (comps rel)}" "a = join_with ''/'' (take k (comps rel))"
    unfolding ancestors_def by auto
  then have k: "0 < k" "k < length (comps rel)" "a = join_with ''/'' (take k (comps rel))" by auto
  show thesis by (rule that [OF k(1,2)]) (simp add: k comps_take)
qed

lemma base_name_ancestor:
  assumes "a \<in> set (ancestors rel)"
  shows "base_name a \<in> set (butlast (comps rel))"
  using assms
proof (rule ancestorsE)
  fix k assume k: "0 < k" "k < length (comps rel)" "comps a = take k (comps rel)"
  then have "base_name a = comps rel ! (k - 1)" by (simp add: base_name_comps last_conv_nth)
  moreover have "comps rel ! (k - 1) = butlast (comps rel) ! (k - 1)" "k - 1 < length (butlast (comps rel))"
    using k by (simp_all add: nth_butlast)
  ultimately show ?thesis by (simp only: nth_mem)
qed

lemma within_ancestor:
  assumes "a \<in> set (ancestors rel)" "is_within rel p"
  shows "is_within a p \<or> is_within p a"
  using assms(1)
proof (rule ancestorsE)
  fix k assume k: "comps a = take k (comps rel)"
  then have "prefix (comps a) (comps rel)" by (simp add: take_is_prefix)
  with assms(2) show ?thesis unfolding is_within_comps by (auto dest: prefix_same_cases)
qed

section \<open>Properties\<close>

text \<open>
  What the \<open>ignore\<close> crate documents of \<open>matched_path_or_any_parents\<close>, for patterns none of which
  re-includes: a path is ignored exactly when it or one of its parents is.
\<close>

definition parents_matched :: "gitignore \<Rightarrow> bool" where
  "parents_matched gi \<longleftrightarrow>
     (\<forall>rel d. gi_matched_parents gi rel d = Ignored \<longleftrightarrow>
        gi_matched gi rel d = Ignored \<or> list_ex (\<lambda>a. gi_matched gi a True = Ignored) (ancestors rel))"

lemma source_file_Some:
  "source_file f rel = Some sf \<longleftrightarrow>
     sf = \<lparr>sf_rel = rel, sf_abs = path_join (fl_root f) rel, sf_lang = sf_lang sf\<rparr> \<and>
     lang_from_path rel = Some (sf_lang sf) \<and> (fl_lanes f = [] \<or> lane_of (sf_lang sf) \<in> set (fl_lanes f)) \<and>
     \<not> is_declaration rel \<and> covers f rel \<and> \<not> in_excluded_dir rel \<and>
     gi_matched_parents (fl_exclude f) rel False \<noteq> Ignored"
  by (cases sf) (auto simp: source_file_def split: option.splits if_splits)

text \<open>
  Pruning loses nothing: whenever a path is in scope, a walk that asks \<open>enters\<close> about each directory
  on the way is let through all of them.
\<close>

lemma enters_ancestors:
  assumes "parents_matched (fl_exclude f)" "source_file f rel = Some sf" "a \<in> set (ancestors rel)"
  shows "enters f a"
proof -
  from assms(2) have cov: "covers f rel" and ex: "\<not> in_excluded_dir rel"
    and gi: "gi_matched_parents (fl_exclude f) rel False \<noteq> Ignored" by (simp_all add: source_file_Some)
  have "base_name a \<notin> set ALWAYS_EXCLUDED"
    using base_name_ancestor [OF assms(3)] ex by (auto simp: in_excluded_dir_comps)
  moreover have "gi_matched (fl_exclude f) a True \<noteq> Ignored"
    using assms(1,3) gi unfolding parents_matched_def list_ex_iff by blast
  ultimately show ?thesis
    using cov within_ancestor [OF assms(3)] by (auto simp: enters_def covers_def split: option.splits)
qed

end
