(* ===== verification/Memories.thy ===== *)
theory Memories imports
  Cache
begin

text \<open>
  \<^verbatim>\<open>crates/discover/src/memory.rs\<close>: what discovery remembers between runs. Listings are kept by
  directory with the stamps they hold for; a run records what it lists and what it uses, and \<open>save\<close>
  folds that into the store. The stamps are those of the cache; \<open>postcard\<close> is an argument.
\<close>

section \<open>Model\<close>

record listing =
  ls_stamp :: stamp
  ls_rules :: "stamp option"
  ls_nested :: bool
  ls_files :: "string list"
  ls_dirs :: "string list"

record rules_context =
  ct_version :: string
  ct_ignore_case :: bool
  ct_files :: "(string \<times> stamp option) list"

record staged_paths =
  sg_tree :: string
  sg_index :: string
  sg_paths :: "string list"

record mem_stored =
  ms_context :: rules_context
  ms_listings :: "(string \<times> listing) list"
  ms_staged :: "staged_paths option"

text \<open>The flags of the listings used in this run are kept as the list of their paths.\<close>

record memory =
  mm_path :: string
  mm_settled :: int
  mm_stored :: "mem_stored option"
  mm_used :: "string list"
  mm_fresh :: "(string \<times> listing) list"
  mm_fresh_staged :: "staged_paths option"
  mm_context :: "rules_context option"
  mm_trusted :: bool

record mem_codec =
  mc_encode :: "mem_stored \<Rightarrow> string option"
  mc_decode :: "string \<Rightarrow> mem_stored option"

definition MEM_BUDGET :: nat where "MEM_BUDGET = 100000"

definition MEM_MAGIC :: string where "MEM_MAGIC = ''fmtkit'' @ [CHR 0x03, CHR 0x02]"

definition default_context :: rules_context where
  "default_context = \<lparr>ct_version = [], ct_ignore_case = False, ct_files = []\<rparr>"

definition default_stored :: mem_stored where
  "default_stored = \<lparr>ms_context = default_context, ms_listings = [], ms_staged = None\<rparr>"

definition is_settled :: "stamp \<Rightarrow> int \<Rightarrow> bool" where
  "is_settled s before \<longleftrightarrow> st_mtime s < before \<and> st_ctime s < before"

text \<open>\<open>Stamp::from_metadata\<close>, of directories as well as files.\<close>

definition stamp_from_metadata :: "metadata \<Rightarrow> stamp" where
  "stamp_from_metadata md =
     \<lparr>st_dev = md_dev md, st_ino = md_ino md, st_size = md_size md,
      st_mtime = stamp_nanos (md_mtime md) (md_mtime_nsec md),
      st_ctime = stamp_nanos (md_ctime md) (md_ctime_nsec md)\<rparr>"

definition memory_open_as_of :: "string \<Rightarrow> int \<Rightarrow> memory" where
  "memory_open_as_of path now =
     \<lparr>mm_path = path, mm_settled = settled_before now, mm_stored = None, mm_used = [], mm_fresh = [],
      mm_fresh_staged = None, mm_context = None, mm_trusted = False\<rparr>"

definition memory_next_run :: "int \<Rightarrow> memory \<Rightarrow> memory" where
  "memory_next_run now m = m\<lparr>mm_settled := settled_before now\<rparr>"

definition stored_read :: "mem_codec \<Rightarrow> string option \<Rightarrow> mem_stored option" where
  "stored_read mc content =
     (case content of
        None \<Rightarrow> None
      | Some bs \<Rightarrow> (case strip_prefix MEM_MAGIC bs of None \<Rightarrow> None | Some body \<Rightarrow> mc_decode mc body))"

definition stored_now :: "mem_codec \<Rightarrow> files \<Rightarrow> memory \<Rightarrow> mem_stored" where
  "stored_now mc fs m =
     (case mm_stored m of
        Some s \<Rightarrow> s
      | None \<Rightarrow> (case stored_read mc (fs (mm_path m)) of Some s \<Rightarrow> s | None \<Rightarrow> default_stored))"

definition memory_load :: "mem_codec \<Rightarrow> files \<Rightarrow> memory \<Rightarrow> memory" where
  "memory_load mc fs m = m\<lparr>mm_stored := Some (stored_now mc fs m)\<rparr>"

definition context_new :: "string \<Rightarrow> (string \<Rightarrow> stamp option) \<Rightarrow> bool \<Rightarrow> string list \<Rightarrow> rules_context" where
  "context_new version stamp_at ignore_case paths =
     \<lparr>ct_version = version, ct_ignore_case = ignore_case, ct_files = map (\<lambda>p. (p, stamp_at p)) paths\<rparr>"

definition memory_begin :: "mem_codec \<Rightarrow> files \<Rightarrow> rules_context \<Rightarrow> memory \<Rightarrow> bool \<times> memory" where
  "memory_begin mc fs ctx m =
     (let s = stored_now mc fs m;
          trusted = (ms_context s = ctx \<and>
            list_all (\<lambda>(_, st). case st of None \<Rightarrow> True | Some x \<Rightarrow> is_settled x (mm_settled m)) (ct_files ctx))
      in (trusted, m\<lparr>mm_stored := Some s,
        mm_context := (case mm_context m of Some c \<Rightarrow> Some c | None \<Rightarrow> Some ctx), mm_trusted := trusted\<rparr>))"

text \<open>What a walk looks up: the stored listing with a stamp, or with any.\<close>

definition mem_listing :: "mem_codec \<Rightarrow> files \<Rightarrow> memory \<Rightarrow> string \<Rightarrow> stamp \<Rightarrow> listing option" where
  "mem_listing mc fs m rel s =
     (if \<not> mm_trusted m then None
      else case map_of (ms_listings (stored_now mc fs m)) rel of
             None \<Rightarrow> None
           | Some l \<Rightarrow> if ls_stamp l = s then Some l else None)"

definition mem_use :: "string \<Rightarrow> memory \<Rightarrow> memory" where
  "mem_use rel m = m\<lparr>mm_used := rel # mm_used m\<rparr>"

definition mem_previous :: "mem_codec \<Rightarrow> files \<Rightarrow> memory \<Rightarrow> string \<Rightarrow> listing option" where
  "mem_previous mc fs m rel =
     (if mm_trusted m then map_of (ms_listings (stored_now mc fs m)) rel else None)"

definition mem_remember :: "string \<Rightarrow> listing \<Rightarrow> memory \<Rightarrow> memory" where
  "mem_remember rel l m =
     (if is_settled (ls_stamp l) (mm_settled m) \<and>
         (case ls_rules l of None \<Rightarrow> True | Some r \<Rightarrow> is_settled r (mm_settled m))
      then m\<lparr>mm_fresh := AList.update rel l (mm_fresh m)\<rparr> else m)"

definition mem_staged :: "mem_codec \<Rightarrow> files \<Rightarrow> memory \<Rightarrow> string \<Rightarrow> string \<Rightarrow> string list option" where
  "mem_staged mc fs m tree index =
     (case ms_staged (stored_now mc fs m) of
        None \<Rightarrow> None
      | Some sg \<Rightarrow> if sg_tree sg = tree \<and> sg_index sg = index then Some (sg_paths sg) else None)"

definition mem_remember_staged :: "staged_paths \<Rightarrow> memory \<Rightarrow> memory" where
  "mem_remember_staged sg m =
     m\<lparr>mm_fresh_staged := (case mm_fresh_staged m of Some x \<Rightarrow> Some x | None \<Rightarrow> Some sg)\<rparr>"

definition stored_encode :: "mem_codec \<Rightarrow> mem_stored \<Rightarrow> string option" where
  "stored_encode mc s = map_option (\<lambda>body. MEM_MAGIC @ body) (mc_encode mc s)"

text \<open>The listings a save keeps of the old ones, and what it adds.\<close>

definition kept_listings :: "memory \<Rightarrow> (string \<times> listing) list \<Rightarrow> (string \<times> listing) list" where
  "kept_listings m old =
     (if mm_trusted m
      then if length old + length (mm_fresh m) > MEM_BUDGET
           then filter (\<lambda>(rel, _). rel \<in> set (mm_used m)) old
           else old
      else [])"

definition folded_listings :: "memory \<Rightarrow> (string \<times> listing) list \<Rightarrow> (string \<times> listing) list" where
  "folded_listings m old = fold (\<lambda>(rel, l). AList.update rel l) (mm_fresh m) (kept_listings m old)"

definition memory_save ::
  "mem_codec \<Rightarrow> os_oracle \<Rightarrow> nat \<Rightarrow> files \<Rightarrow> memory \<Rightarrow> bool \<times> files \<times> memory" where
  "memory_save mc os pid fs m =
     (let cleared = m\<lparr>mm_fresh := [], mm_fresh_staged := None, mm_trusted := False\<rparr> in
      case mm_context m of
        None \<Rightarrow> (True, fs, cleared)
      | Some ctx \<Rightarrow>
          if list_ex (\<lambda>(_, st). case st of None \<Rightarrow> False | Some s \<Rightarrow> st_mtime s \<ge> mm_settled m) (ct_files ctx)
          then (True, fs, cleared\<lparr>mm_context := None, mm_stored := Some default_stored, mm_used := []\<rparr>)
          else
            (let changed = (mm_fresh m \<noteq> [] \<or> mm_fresh_staged m \<noteq> None \<or> \<not> mm_trusted m);
                 old = (case mm_stored m of Some s \<Rightarrow> s | None \<Rightarrow> default_stored);
                 new = \<lparr>ms_context = ctx, ms_listings = folded_listings m (ms_listings old),
                   ms_staged = (case mm_fresh_staged m of Some sg \<Rightarrow> Some sg | None \<Rightarrow> ms_staged old)\<rparr>;
                 m' = cleared\<lparr>mm_context := None, mm_stored := Some new, mm_used := []\<rparr>
             in if changed
                then (case stored_encode mc new of
                        None \<Rightarrow> (False, fs, m')
                      | Some bs \<Rightarrow>
                          (case write_atomic os pid (mm_path m) bs fs of (states, ok) \<Rightarrow> (ok, last states, m')))
                else (True, fs, m')))"

section \<open>Facts\<close>

lemma map_of_folded:
  "map_of (fold (\<lambda>(rel, l). AList.update rel l) fresh old) = map_of old ++ map_of (rev fresh)"
  by (induction fresh arbitrary: old) (auto simp: update_conv' map_add_def fun_eq_iff split: option.splits)

lemma remember_keys: "distinct (map fst (mm_fresh m)) \<Longrightarrow> distinct (map fst (mm_fresh (mem_remember rel l m)))"
  by (simp add: mem_remember_def distinct_update)

definition mem_codec_ok :: "mem_codec \<Rightarrow> bool" where
  "mem_codec_ok mc \<longleftrightarrow> (\<forall>s b. mc_encode mc s = Some b \<longrightarrow> mc_decode mc b = Some s)"

lemma stored_round_trip:
  "mem_codec_ok mc \<Longrightarrow> stored_encode mc s = Some bs \<Longrightarrow> stored_read mc (Some bs) = Some s"
  by (auto simp: mem_codec_ok_def stored_encode_def stored_read_def strip_prefix_def)

end
