(* ===== verification/Walks.thy ===== *)
theory Walks imports
  Filters
  Memories
begin

text \<open>
  \<^verbatim>\<open>crates/discover/src/walk/git.rs\<close> and \<open>Walked::see\<close>: the walk under git's ignore rules, which
  replays the stored listings of directories that have not changed. The file system is the tree a
  run finds; a directory's task is one recursive call, and what the tasks append to shared state is
  concatenated (the code sorts it later).
\<close>

section \<open>The tree a run finds\<close>

datatype entry_kind = KDir | KFile | KOther

text \<open>An entry whose type cannot be read has no kind; a name that is not text is marked.\<close>

record dir_entry =
  en_name :: string
  en_text :: bool
  en_kind :: "entry_kind option"

datatype stat_result = StatMissing | StatError string | StatOk "stamp option"

datatype list_result = ListMissing | ListError string | Listed "dir_entry list"

text \<open>What \<open>metadata\<close>, the \<open>.gitignore\<close> stamp and \<open>read_dir\<close> say of a directory, and those below it.\<close>

datatype dir_tree = DirTree
  (dt_stat: stat_result) (dt_rules: "stamp option") (dt_list: list_result) (dt_subs: "(string \<times> dir_tree) list")

record sighting =
  si_stamp :: stamp
  si_rules :: "stamp option"

text \<open>
  The rules and helpers of one walk. \<open>we_layer d\<close> is the matcher of the \<open>.gitignore\<close> of directory \<open>d\<close>,
  \<open>we_exclude\<close> and \<open>we_global\<close> those of the excludes files: third-party matchers on relative paths.
\<close>

record walk_env =
  we_filter :: scope_filter
  we_layer :: "string \<Rightarrow> string \<Rightarrow> bool \<Rightarrow> ignore_match"
  we_exclude :: "string \<Rightarrow> bool \<Rightarrow> ignore_match"
  we_global :: "string \<Rightarrow> bool \<Rightarrow> ignore_match"
  we_memory :: "memory option"
  we_codec :: mem_codec
  we_fs :: files
  we_sight :: "(string \<Rightarrow> sighting option) option"

record visit_out =
  vo_files :: "string list"
  vo_used :: "string list"
  vo_fresh :: "(string \<times> listing) list"
  vo_failures :: "(string \<times> string) list"
  vo_seen :: "(string \<times> sighting) list"

definition no_out :: visit_out where
  "no_out = \<lparr>vo_files = [], vo_used = [], vo_fresh = [], vo_failures = [], vo_seen = []\<rparr>"

definition join_out :: "visit_out \<Rightarrow> visit_out \<Rightarrow> visit_out" where
  "join_out a b =
     \<lparr>vo_files = vo_files a @ vo_files b, vo_used = vo_used a @ vo_used b, vo_fresh = vo_fresh a @ vo_fresh b,
      vo_failures = vo_failures a @ vo_failures b, vo_seen = vo_seen a @ vo_seen b\<rparr>"

definition default_stamp :: stamp where
  "default_stamp = \<lparr>st_dev = 0, st_ino = 0, st_size = 0, st_mtime = 0, st_ctime = 0\<rparr>"

definition child_path :: "string \<Rightarrow> string \<Rightarrow> string" where
  "child_path rel name = (if rel = [] then name else rel @ ''/'' @ name)"

section \<open>Ignoring and listing\<close>

fun ignored :: "walk_env \<Rightarrow> string list \<Rightarrow> string \<Rightarrow> bool \<Rightarrow> bool" where
  "ignored env (d # ds) path is_dir =
     (case we_layer env d path is_dir of
        NoMatch \<Rightarrow> ignored env ds path is_dir
      | decided \<Rightarrow> decided = Ignored)"
| "ignored env [] path is_dir =
     (case we_exclude env path is_dir of
        NoMatch \<Rightarrow> we_global env path is_dir = Ignored
      | decided \<Rightarrow> decided = Ignored)"

definition rules_stamp :: "dir_tree \<Rightarrow> stamp" where
  "rules_stamp t = (case dt_rules t of Some s \<Rightarrow> s | None \<Rightarrow> default_stamp)"

definition kept_names :: "walk_env \<Rightarrow> string list \<Rightarrow> string \<Rightarrow> entry_kind \<Rightarrow> dir_entry list \<Rightarrow> string list" where
  "kept_names env layers rel kind entries =
     map en_name (filter (\<lambda>e. en_text e \<and> en_kind e = Some kind \<and>
       \<not> ignored env layers (child_path rel (en_name e)) (kind = KDir)) entries)"

text \<open>\<open>Walk::list\<close>: the listing and the layers below it, or what failed.\<close>

definition list_dir ::
  "walk_env \<Rightarrow> dir_tree \<Rightarrow> string \<Rightarrow> string list \<Rightarrow> stamp option \<Rightarrow> (string \<times> string) list + listing \<times> string list" where
  "list_dir env t rel layers stamp =
     (case dt_list t of
        ListMissing \<Rightarrow> Inl []
      | ListError err \<Rightarrow> Inl [(rel, err)]
      | Listed entries \<Rightarrow>
          (let nested = list_ex (\<lambda>e. en_name e = ''.git'') entries;
               st = (case stamp of Some s \<Rightarrow> s | None \<Rightarrow> default_stamp)
           in if nested \<and> rel \<noteq> []
              then Inr (\<lparr>ls_stamp = st, ls_rules = None, ls_nested = True, ls_files = [], ls_dirs = []\<rparr>, layers)
              else
                (let ruled = list_ex (\<lambda>e. en_name e = ''.gitignore'') entries;
                     below = (if ruled then rel # layers else layers)
                 in Inr (\<lparr>ls_stamp = st, ls_rules = (if ruled then Some (rules_stamp t) else None), ls_nested = nested,
                      ls_files = kept_names env below rel KFile entries,
                      ls_dirs = kept_names env below rel KDir entries\<rparr>, below))))"

section \<open>Visiting\<close>

definition env_listing :: "walk_env \<Rightarrow> string \<Rightarrow> stamp \<Rightarrow> listing option" where
  "env_listing env rel s =
     (case we_memory env of None \<Rightarrow> None | Some m \<Rightarrow> mem_listing (we_codec env) (we_fs env) m rel s)"

definition env_previous :: "walk_env \<Rightarrow> string \<Rightarrow> listing option" where
  "env_previous env rel =
     (case we_memory env of None \<Rightarrow> None | Some m \<Rightarrow> mem_previous (we_codec env) (we_fs env) m rel)"

definition env_clean :: "walk_env \<Rightarrow> string \<Rightarrow> sighting option" where
  "env_clean env rel = (case we_sight env of None \<Rightarrow> None | Some clean \<Rightarrow> clean rel)"

definition vouched :: "walk_env \<Rightarrow> string \<Rightarrow> listing option" where
  "vouched env rel =
     (case env_clean env rel of
        None \<Rightarrow> None
      | Some si \<Rightarrow>
          (case env_listing env rel (si_stamp si) of
             None \<Rightarrow> None
           | Some l \<Rightarrow> if ls_rules l = si_rules si then Some l else None))"

text \<open>A listing looked up with a stamp is flagged as used.\<close>

definition used_by_watch :: "walk_env \<Rightarrow> string \<Rightarrow> string list" where
  "used_by_watch env rel =
     (case env_clean env rel of
        None \<Rightarrow> []
      | Some si \<Rightarrow> if env_listing env rel (si_stamp si) = None then [] else [rel])"

definition layers_of :: "string \<Rightarrow> string list \<Rightarrow> listing \<Rightarrow> string list" where
  "layers_of rel layers l = (if ls_rules l = None then layers else rel # layers)"

definition saw :: "walk_env \<Rightarrow> string \<Rightarrow> stamp \<Rightarrow> stamp option \<Rightarrow> (string \<times> sighting) list" where
  "saw env rel s rules =
     (if we_sight env = None then [] else [(rel, \<lparr>si_stamp = s, si_rules = rules\<rparr>)])"

definition stored_listing :: "walk_env \<Rightarrow> string \<Rightarrow> bool \<Rightarrow> stamp option \<Rightarrow> listing option" where
  "stored_listing env rel trusted stamp =
     (if trusted then (case stamp of None \<Rightarrow> None | Some s \<Rightarrow> env_listing env rel s) else None)"

definition still_ruled :: "dir_tree \<Rightarrow> listing \<Rightarrow> bool" where
  "still_ruled t l \<longleftrightarrow> (case ls_rules l of None \<Rightarrow> True | Some r \<Rightarrow> dt_rules t = Some r)"

text \<open>
  What \<open>visit\<close> does with a directory before \<open>replay\<close>: the listing it replays, the layers and the trust
  that apply below, and what it recorded.
\<close>

definition visit_listing ::
  "walk_env \<Rightarrow> dir_tree \<Rightarrow> string \<Rightarrow> string list \<Rightarrow> bool \<Rightarrow> (listing \<times> string list \<times> bool) option \<times> visit_out" where
  "visit_listing env t rel layers trusted =
     (let watched = (if trusted then vouched env rel else None);
          out0 = no_out\<lparr>vo_used := (if trusted then used_by_watch env rel else [])\<rparr>
      in case watched of
        Some l \<Rightarrow> (Some (l, layers_of rel layers l, trusted), out0)
      | None \<Rightarrow>
          (case dt_stat t of
             StatMissing \<Rightarrow> (None, out0)
           | StatError err \<Rightarrow> (None, out0\<lparr>vo_failures := [(rel, err)]\<rparr>)
           | StatOk stamp \<Rightarrow>
               (let stored = stored_listing env rel trusted stamp;
                    out1 = out0\<lparr>vo_used := vo_used out0 @ (if stored = None then [] else [rel])\<rparr>;
                    relist = (case list_dir env t rel layers stamp of
                        Inl failures \<Rightarrow> (None, out1\<lparr>vo_failures := failures\<rparr>)
                      | Inr (l, below) \<Rightarrow>
                          (Some (l, below, trusted \<and>
                              (case env_previous env rel of None \<Rightarrow> False | Some p \<Rightarrow> ls_rules p = ls_rules l)),
                           out1\<lparr>vo_seen := (case stamp of Some s \<Rightarrow> saw env rel s (ls_rules l) | None \<Rightarrow> []),
                             vo_fresh := (if we_memory env \<noteq> None \<and> stamp \<noteq> None then [(rel, l)] else [])\<rparr>))
                in case stored of
                     Some l \<Rightarrow>
                       if still_ruled t l
                       then (Some (l, layers_of rel layers l, trusted),
                             out1\<lparr>vo_seen := saw env rel (ls_stamp l) (ls_rules l)\<rparr>)
                       else relist
                   | None \<Rightarrow> relist)))"

lemma size_sub: "map_of (dt_subs t) name = Some sub \<Longrightarrow> size sub < size t"
proof (cases t)
  case (DirTree st r l subs)
  have "map_of subs name = Some sub \<Longrightarrow> size sub < Suc (size_list (size_prod (\<lambda>_. 0) size) subs)"
    by (induction subs) (auto split: if_splits)
  moreover assume "map_of (dt_subs t) name = Some sub"
  ultimately show ?thesis using DirTree by simp
qed

text \<open>A directory of a replayed listing that is gone is passed over, as \<open>NotFound\<close> is.\<close>

function (sequential) visit :: "walk_env \<Rightarrow> dir_tree \<Rightarrow> string \<Rightarrow> string list \<Rightarrow> bool \<Rightarrow> visit_out" where
  "visit env t rel layers trusted =
     (case visit_listing env t rel layers trusted of
        (None, out) \<Rightarrow> out
      | (Some (l, below, trust), out) \<Rightarrow>
          if ls_nested l \<and> rel \<noteq> [] then out
          else fold join_out
            (map (\<lambda>name.
               if enters (we_filter env) (child_path rel name)
               then (case map_of (dt_subs t) name of
                       Some sub \<Rightarrow> visit env sub (child_path rel name) below trust
                     | None \<Rightarrow> no_out)
               else no_out) (ls_dirs l))
            (out\<lparr>vo_files := map (child_path rel) (ls_files l)\<rparr>))"
  by pat_completeness auto
termination
  by (relation "measure (\<lambda>(env, t, rel, layers, trusted). size t)") (auto dest: size_sub)

declare visit.simps [simp del]

section \<open>The walk as a whole\<close>

record walked =
  wk_files :: "sourcefile list"
  wk_modules :: "string list"

definition no_walked :: walked where
  "no_walked = \<lparr>wk_files = [], wk_modules = []\<rparr>"

text \<open>\<open>Walked::see\<close>\<close>

definition see :: "scope_filter \<Rightarrow> string \<Rightarrow> walked \<Rightarrow> walked" where
  "see f rel w =
     (let w1 = (case rsplit_once (CHR ''/'') rel of
          Some (dir, name) \<Rightarrow> if name = ''go.mod'' then w\<lparr>wk_modules := wk_modules w @ [dir]\<rparr> else w
        | None \<Rightarrow> if rel = ''go.mod'' then w\<lparr>wk_modules := wk_modules w @ [[]]\<rparr> else w)
      in case source_file f rel of
           Some file \<Rightarrow> w1\<lparr>wk_files := wk_files w1 @ [file]\<rparr>
         | None \<Rightarrow> w1)"

definition after_walk :: "visit_out \<Rightarrow> memory \<Rightarrow> memory" where
  "after_walk out m = fold (\<lambda>(rel, l). mem_remember rel l) (vo_fresh out) (fold mem_use (vo_used out) m)"

definition begun :: "walk_env \<Rightarrow> rules_context \<Rightarrow> bool \<times> memory option" where
  "begun env ctx =
     (case we_memory env of
        None \<Rightarrow> (False, None)
      | Some m \<Rightarrow> (case memory_begin (we_codec env) (we_fs env) ctx m of (trusted, m') \<Rightarrow> (trusted, Some m')))"

definition walk_out :: "walk_env \<Rightarrow> rules_context \<Rightarrow> dir_tree \<Rightarrow> visit_out" where
  "walk_out env ctx t =
     (case begun env ctx of (trusted, mem) \<Rightarrow> visit (env\<lparr>we_memory := mem\<rparr>) t [] [] trusted)"

definition git_walk ::
  "walk_env \<Rightarrow> rules_context \<Rightarrow> dir_tree \<Rightarrow> (string \<Rightarrow> bool) \<Rightarrow> ((string \<times> string) + walked) \<times> memory option" where
  "git_walk env ctx t keep =
     (let out = walk_out env ctx t in
      ((case vo_failures out of
          failure # _ \<Rightarrow> Inl failure
        | [] \<Rightarrow> Inr (fold (see (we_filter env)) (filter keep (vo_files out)) no_walked)),
       map_option (after_walk out) (snd (begun env ctx))))"

section \<open>Reachable directories\<close>

text \<open>The directories git's rules let a walk of a tree reach, with the layers that apply in them.\<close>

inductive at :: "walk_env \<Rightarrow> dir_tree \<Rightarrow> string \<Rightarrow> dir_tree \<Rightarrow> string list \<Rightarrow> bool" for env root where
  at_root: "at env root [] root []"
| at_below: "at env root rel t layers \<Longrightarrow> list_dir env t rel layers s = Inr (l, below) \<Longrightarrow>
     \<not> (ls_nested l \<and> rel \<noteq> []) \<Longrightarrow> name \<in> set (ls_dirs l) \<Longrightarrow> map_of (dt_subs t) name = Some sub \<Longrightarrow>
     at env root (child_path rel name) sub below"

inductive_cases at_cases: "at env root rel t layers"

text \<open>Names of entries are not empty and hold no slash.\<close>

fun proper_tree :: "dir_tree \<Rightarrow> bool" where
  "proper_tree (DirTree st r l subs) \<longleftrightarrow>
     (\<forall>(name, sub) \<in> set subs. name \<noteq> [] \<and> CHR ''/'' \<notin> set name \<and> proper_tree sub)"

lemma proper_sub:
  "proper_tree t \<Longrightarrow> map_of (dt_subs t) name = Some sub \<Longrightarrow> name \<noteq> [] \<and> CHR ''/'' \<notin> set name \<and> proper_tree sub"
  by (cases t) (fastforce dest: map_of_SomeD)

lemma proper_at: "at env root rel t layers \<Longrightarrow> proper_tree root \<Longrightarrow> proper_tree t"
  by (induction rule: at.induct) (auto dest: proper_sub)

lemma child_path_inject:
  assumes "CHR ''/'' \<notin> set n" "CHR ''/'' \<notin> set n'" "n \<noteq> []" "n' \<noteq> []"
  shows "child_path rel n = child_path rel' n' \<longleftrightarrow> rel = rel' \<and> n = n'"
proof
  assume eq: "child_path rel n = child_path rel' n'"
  have "rsplit_once (CHR ''/'') (child_path r m) = (if r = [] then None else Some (r, m))"
    if "CHR ''/'' \<notin> set m" for r m
    using that by (auto simp: child_path_def rsplit_once_None rsplit_once_Some)
  with assms(1,2) eq have "(if rel = [] then None else Some (rel, n)) = (if rel' = [] then None else Some (rel', n'))"
    by metis
  with eq show "rel = rel' \<and> n = n'" by (auto simp: child_path_def split: if_splits)
qed simp

lemma list_dir_below:
  assumes "list_dir env t rel layers s = Inr (l, below)"
  shows "below = layers_of rel layers l" "ls_rules l \<noteq> None \<Longrightarrow> ls_rules l = Some (rules_stamp t)"
  using assms by (auto simp: list_dir_def layers_of_def Let_def split: list_result.splits if_splits)

lemma list_dir_stamp:
  assumes "list_dir env t rel layers s = Inr (l, below)"
  shows "list_dir env t rel layers s' = Inr (l\<lparr>ls_stamp := case s' of Some x \<Rightarrow> x | None \<Rightarrow> default_stamp\<rparr>, below)"
  using assms by (auto simp: list_dir_def Let_def split: list_result.splits if_splits)

lemma at_unique:
  assumes "at env root rel t layers" "proper_tree root" "at env root rel t' layers'"
  shows "t = t' \<and> layers = layers'"
  using assms(1,3)
proof (induction arbitrary: t' layers' rule: at.induct)
  case at_root
  from at_root.prems show ?case
  proof (cases rule: at.cases)
    case (at_below rel t layers s l name)
    with proper_sub [OF proper_at [OF at_below(2) assms(2)] at_below(6)] show ?thesis
      by (auto simp: child_path_def split: if_splits)
  qed simp
next
  case (at_below rel t layers s l below name sub)
  note p = proper_sub [OF proper_at [OF at_below.hyps(1) assms(2)] at_below.hyps(5)]
  from at_below.prems show ?case
  proof (cases rule: at.cases)
    case at_root
    with p show ?thesis by (auto simp: child_path_def split: if_splits)
  next
    case (at_below rel2 t2 layers2 s2 l2 name2)
    note p2 = proper_sub [OF proper_at [OF at_below(2) assms(2)] at_below(6)]
    from at_below(1) p p2 have eq: "rel2 = rel" "name2 = name" by (auto simp: child_path_inject)
    with at_below.IH [of t2 layers2] at_below(2) have "t = t2" "layers = layers2" by auto
    with eq at_below(3,6) at_below.hyps(2,5) list_dir_stamp [OF at_below(3), of s] show ?thesis by auto
  qed
qed

end
