(* ===== verification/WalkMemory.thy ===== *)
theory WalkMemory imports
  Walks
begin

text \<open>
  When replaying stored listings is as good as listing again: if every stored listing is what git's
  rules gave in one earlier state of the tree, and stamps name what they are taken of, a walk with the
  memory (and a watch that is right about the directories it vouches for) finds what a walk without
  them finds.
\<close>

section \<open>Hypotheses\<close>

text \<open>
  Stamps name content: a directory with the stamp it had holds the entries it held, a \<open>.gitignore\<close> with
  the stamp it had holds the rules it held, and the rules outside the tree are the same.
\<close>

definition faithful :: "walk_env \<Rightarrow> dir_tree \<Rightarrow> walk_env \<Rightarrow> dir_tree \<Rightarrow> bool" where
  "faithful env0 t0 env1 t1 \<longleftrightarrow>
     we_exclude env0 = we_exclude env1 \<and> we_global env0 = we_global env1 \<and>
     (\<forall>rel d0 l0 d1 l1. at env0 t0 rel d0 l0 \<longrightarrow> at env1 t1 rel d1 l1 \<longrightarrow>
        (\<forall>s. dt_stat d0 = StatOk (Some s) \<longrightarrow> dt_stat d1 = StatOk (Some s) \<longrightarrow> dt_list d0 = dt_list d1) \<and>
        (rules_stamp d0 = rules_stamp d1 \<longrightarrow> we_layer env0 rel = we_layer env1 rel))"

text \<open>Every stored listing is what listing its directory in one state of the tree yielded.\<close>

definition explained :: "walk_env \<Rightarrow> dir_tree \<Rightarrow> (string \<Rightarrow> listing option) \<Rightarrow> bool" where
  "explained env t store \<longleftrightarrow>
     (\<forall>rel l. store rel = Some l \<longrightarrow>
        (\<exists>d layers below. at env t rel d layers \<and> dt_stat d = StatOk (Some (ls_stamp l)) \<and>
           list_dir env d rel layers (Some (ls_stamp l)) = Inr (l, below)))"

text \<open>The watch is right: what it holds of a directory is what the directory is.\<close>

definition watch_right :: "walk_env \<Rightarrow> dir_tree \<Rightarrow> bool" where
  "watch_right env t \<longleftrightarrow>
     (\<forall>rel si d layers. env_clean env rel = Some si \<longrightarrow> at env t rel d layers \<longrightarrow>
        dt_stat d = StatOk (Some (si_stamp si)) \<and> (si_rules si = None \<or> dt_rules d = si_rules si))"

definition env_store :: "walk_env \<Rightarrow> string \<Rightarrow> listing option" where
  "env_store env rel =
     (case we_memory env of None \<Rightarrow> None | Some m \<Rightarrow> map_of (ms_listings (stored_now (we_codec env) (we_fs env) m)) rel)"

definition plain_env :: "walk_env \<Rightarrow> walk_env" where
  "plain_env env = env\<lparr>we_memory := None, we_sight := None\<rparr>"

section \<open>What lookups say\<close>

lemma env_listing_store: "env_listing env rel s = Some l \<Longrightarrow> env_store env rel = Some l \<and> ls_stamp l = s"
  by (auto simp: env_listing_def env_store_def mem_listing_def split: option.splits if_splits)

lemma env_previous_store: "env_previous env rel = Some l \<Longrightarrow> env_store env rel = Some l"
  by (auto simp: env_previous_def env_store_def mem_previous_def split: option.splits if_splits)

lemma vouched_store:
  "vouched env rel = Some l \<Longrightarrow>
     \<exists>si. env_clean env rel = Some si \<and> env_store env rel = Some l \<and> ls_stamp l = si_stamp si \<and> ls_rules l = si_rules si"
  by (auto simp: vouched_def split: option.splits if_splits dest: env_listing_store)

lemma plain_env_simps [simp]:
  "we_filter (plain_env env) = we_filter env" "we_layer (plain_env env) = we_layer env"
  "we_exclude (plain_env env) = we_exclude env" "we_global (plain_env env) = we_global env"
  "env_listing (plain_env env) rel s = None" "env_previous (plain_env env) rel = None"
  "env_clean (plain_env env) rel = None"
  by (simp_all add: plain_env_def env_listing_def env_previous_def env_clean_def)

lemma ignored_cong:
  assumes "\<forall>d \<in> set layers. we_layer env d = we_layer env' d" "we_exclude env = we_exclude env'" "we_global env = we_global env'"
  shows "ignored env layers path is_dir = ignored env' layers path is_dir"
  using assms by (induction layers) (auto split: ignore_match.splits)

lemma ignored_plain [simp]: "ignored (plain_env env) layers path is_dir = ignored env layers path is_dir"
  by (rule ignored_cong) simp_all

lemma kept_names_plain [simp]: "kept_names (plain_env env) layers rel kind es = kept_names env layers rel kind es"
  by (simp add: kept_names_def)

lemma list_dir_plain [simp]: "list_dir (plain_env env) t rel layers s = list_dir env t rel layers s"
  unfolding list_dir_def Let_def kept_names_plain by (rule refl)

lemma at_plain: "at (plain_env env) t rel d layers \<longleftrightarrow> at env t rel d layers"
proof
  show "at (plain_env env) t rel d layers \<Longrightarrow> at env t rel d layers"
    by (induction rule: at.induct) (auto intro: at.intros)
  show "at env t rel d layers \<Longrightarrow> at (plain_env env) t rel d layers"
    by (induction rule: at.induct) (auto intro: at.intros)
qed

lemma kept_names_cong:
  assumes "\<forall>d \<in> set layers. we_layer env d = we_layer env' d" "we_exclude env = we_exclude env'" "we_global env = we_global env'"
  shows "kept_names env layers rel kind es = kept_names env' layers rel kind es"
  by (simp add: kept_names_def ignored_cong [OF assms])

section \<open>Agreement\<close>

text \<open>The layers a walk carries are those of the earlier state, and say the same.\<close>

definition agrees :: "walk_env \<Rightarrow> dir_tree \<Rightarrow> walk_env \<Rightarrow> string \<Rightarrow> string list \<Rightarrow> bool" where
  "agrees env0 t0 env1 rel layers \<longleftrightarrow>
     (\<forall>d layers0. at env0 t0 rel d layers0 \<longrightarrow>
        layers0 = layers \<and> (\<forall>x \<in> set layers. we_layer env0 x = we_layer env1 x))"

lemma replay_is_listing:
  assumes f: "faithful env0 t0 env1 t1" and ex: "explained env0 t0 store" and at1: "at env1 t1 rel t layers"
    and ag: "agrees env0 t0 env1 rel layers" and st: "store rel = Some l"
    and stat: "dt_stat t = StatOk (Some (ls_stamp l))" and ruled: "still_ruled t l"
  shows "list_dir env1 t rel layers (Some (ls_stamp l)) = Inr (l, layers_of rel layers l)"
proof -
  from ex st obtain d ly below where d: "at env0 t0 rel d ly" "dt_stat d = StatOk (Some (ls_stamp l))"
    "list_dir env0 d rel ly (Some (ls_stamp l)) = Inr (l, below)" unfolding explained_def by blast
  from ag d(1) have ly: "ly = layers" "\<forall>x \<in> set layers. we_layer env0 x = we_layer env1 x"
    unfolding agrees_def by blast+
  from f d(1,2) at1 stat have lst: "dt_list d = dt_list t" unfolding faithful_def by blast
  from f have out: "we_exclude env0 = we_exclude env1" "we_global env0 = we_global env1"
    unfolding faithful_def by blast+
  have own: "rules_stamp d = rules_stamp t \<and> we_layer env0 rel = we_layer env1 rel" if "ls_rules l \<noteq> None"
  proof -
    from list_dir_below(2) [OF d(3) that] ruled have "dt_rules t = Some (rules_stamp d)"
      by (simp add: still_ruled_def)
    then have "rules_stamp d = rules_stamp t" by (simp add: rules_stamp_def)
    with f d(1) at1 show ?thesis unfolding faithful_def by blast
  qed
  have bel: "below = layers_of rel layers l" using list_dir_below(1) [OF d(3)] ly by simp
  have names: "kept_names env0 below rel k es = kept_names env1 below rel k es" for k es
    using own ly bel out by (intro kept_names_cong) (auto simp: layers_of_def split: if_splits)
  have "rules_stamp d = rules_stamp t" if "ls_rules l \<noteq> None" using own [OF that] by simp
  with d(3) bel names show ?thesis
    unfolding ly
    by (cases l) (auto simp: list_dir_def Let_def lst split: list_result.splits if_splits)
qed

lemma agrees_below:
  assumes f: "faithful env0 t0 env1 t1" and p0: "proper_tree t0" and p1: "proper_tree t1"
    and ex: "explained env0 t0 store" and at1: "at env1 t1 rel t layers" and ag: "agrees env0 t0 env1 rel layers"
    and st: "store rel = Some lp" and l: "list_dir env1 t rel layers s = Inr (l, below)"
    and same: "ls_rules lp = ls_rules l"
    and name: "map_of (dt_subs t) name = Some sub"
  shows "agrees env0 t0 env1 (child_path rel name) below"
proof -
  from ex st obtain d ly b where d: "at env0 t0 rel d ly"
    "list_dir env0 d rel ly (Some (ls_stamp lp)) = Inr (lp, b)" unfolding explained_def by blast
  from ag d(1) have ly: "ly = layers" "\<forall>x \<in> set layers. we_layer env0 x = we_layer env1 x"
    unfolding agrees_def by blast+
  note n = proper_sub [OF proper_at [OF at1 p1] name]
  have own: "we_layer env0 rel = we_layer env1 rel" if "ls_rules l \<noteq> None"
  proof -
    from that same have "ls_rules lp = Some (rules_stamp d)" "ls_rules l = Some (rules_stamp t)"
      using list_dir_below(2) [OF d(2)] list_dir_below(2) [OF l] by simp_all
    with same have "rules_stamp d = rules_stamp t" by simp
    with f d(1) at1 show ?thesis unfolding faithful_def by blast
  qed
  have bel: "below = layers_of rel layers lp" using list_dir_below(1) [OF l] same by (simp add: layers_of_def)
  show ?thesis
    unfolding agrees_def
  proof (intro allI impI)
    fix e ly0 assume "at env0 t0 (child_path rel name) e ly0"
    then have "ly0 = layers_of rel layers lp"
    proof (cases rule: at.cases)
      case at_root
      with n show ?thesis by (auto simp: child_path_def split: if_splits)
    next
      case (at_below rel2 t2 layers2 s2 l2 name2)
      note n2 = proper_sub [OF proper_at [OF at_below(2) p0] at_below(6)]
      from at_below(1) n n2 have eq: "rel2 = rel" by (auto simp: child_path_inject)
      with at_unique [OF at_below(2) p0, of d ly] d(1) have "t2 = d" "layers2 = ly" by auto
      with eq list_dir_stamp [OF at_below(3), of "Some (ls_stamp lp)"] d(2) have "ly0 = b" by auto
      with list_dir_below(1) [OF d(2)] ly(1) show ?thesis by simp
    qed
    with bel ly(2) own same show "ly0 = below \<and> (\<forall>x \<in> set below. we_layer env0 x = we_layer env1 x)"
      by (auto simp: layers_of_def split: if_splits)
  qed
qed

section \<open>One directory\<close>

text \<open>What a directory's visit hands to \<open>replay\<close>, without memory: its listing, or its failures.\<close>

definition plain_listing :: "walk_env \<Rightarrow> dir_tree \<Rightarrow> string \<Rightarrow> string list \<Rightarrow> (string \<times> string) list + listing \<times> string list" where
  "plain_listing env t rel layers =
     (case dt_stat t of
        StatMissing \<Rightarrow> Inl []
      | StatError err \<Rightarrow> Inl [(rel, err)]
      | StatOk s \<Rightarrow> list_dir env t rel layers s)"

definition no_stamp :: "listing \<Rightarrow> listing" where
  "no_stamp l = l\<lparr>ls_stamp := default_stamp\<rparr>"

lemma no_stamp_simps [simp]: "ls_rules (no_stamp l) = ls_rules l" "ls_nested (no_stamp l) = ls_nested l"
  "ls_files (no_stamp l) = ls_files l" "ls_dirs (no_stamp l) = ls_dirs l"
  by (simp_all add: no_stamp_def)

lemma visit_listing_plain:
  "visit_listing (plain_env env) t rel layers False =
     (case plain_listing env t rel layers of
        Inl failures \<Rightarrow> (None, no_out\<lparr>vo_failures := failures\<rparr>)
      | Inr (l, below) \<Rightarrow> (Some (l, below, False), no_out))"
proof -
  have "we_memory (plain_env env) = None" "we_sight (plain_env env) = None" by (simp_all add: plain_env_def)
  then show ?thesis
    by (auto simp: visit_listing_def plain_listing_def stored_listing_def saw_def no_out_def Let_def
        split: stat_result.splits sum.splits prod.splits option.splits)
qed

lemma visit_listing_cases:
  assumes "visit_listing env t rel layers trusted = (p, out)"
  obtains (vouched) l where "trusted" "vouched env rel = Some l" "p = Some (l, layers_of rel layers l, trusted)"
      "vo_failures out = []"
    | (replayed) l s where "trusted" "dt_stat t = StatOk (Some s)" "env_listing env rel s = Some l" "still_ruled t l"
      "p = Some (l, layers_of rel layers l, trusted)" "vo_failures out = []"
    | (failed) "p = None" "plain_listing env t rel layers = Inl (vo_failures out)"
    | (listed) l below where "plain_listing env t rel layers = Inr (l, below)" "vo_failures out = []"
      "p = Some (l, below, trusted \<and>
         (case env_previous env rel of None \<Rightarrow> False | Some q \<Rightarrow> ls_rules q = ls_rules l))"
  using assms
  by (auto simp: visit_listing_def plain_listing_def stored_listing_def no_out_def Let_def
      split: stat_result.splits sum.splits prod.splits option.splits if_splits)

lemma plain_listing_stat: "dt_stat t = StatOk s \<Longrightarrow> plain_listing env t rel layers = list_dir env t rel layers s"
  by (simp add: plain_listing_def)

lemma visit_listing_agrees:
  assumes f: "trusted \<Longrightarrow> faithful env0 t0 env1 t1" and ex: "trusted \<Longrightarrow> explained env0 t0 (env_store env1)"
    and w: "watch_right env1 t1"
    and at1: "at env1 t1 rel t layers" and ag: "trusted \<Longrightarrow> agrees env0 t0 env1 rel layers"
    and v: "visit_listing env1 t rel layers trusted = (p, out)"
  shows "case p of
      None \<Rightarrow> plain_listing env1 t rel layers = Inl (vo_failures out)
    | Some (l, below, trust) \<Rightarrow> plain_listing env1 t rel layers = Inr (l, below) \<and> vo_failures out = [] \<and>
        (trust \<longrightarrow> trusted \<and> (\<exists>lp. env_store env1 rel = Some lp \<and> ls_rules lp = ls_rules l))"
  using v
proof (cases rule: visit_listing_cases)
  case (vouched l)
  from vouched_store [OF vouched(2)] obtain si where si: "env_clean env1 rel = Some si"
    "env_store env1 rel = Some l" "ls_stamp l = si_stamp si" "ls_rules l = si_rules si" by blast
  from w si(1) at1 have d: "dt_stat t = StatOk (Some (ls_stamp l))" "si_rules si = None \<or> dt_rules t = si_rules si"
    unfolding watch_right_def si(3) by blast+
  from d(2) have "still_ruled t l" by (auto simp: still_ruled_def si(4) split: option.split)
  from replay_is_listing [OF f ex at1 ag, OF vouched(1,1,1) si(2) d(1) this] plain_listing_stat [OF d(1)]
  show ?thesis using vouched si(2) by simp
next
  case (replayed l s)
  from env_listing_store [OF replayed(3)] have st: "env_store env1 rel = Some l" "ls_stamp l = s" by blast+
  with replayed(2) have d: "dt_stat t = StatOk (Some (ls_stamp l))" by simp
  from replay_is_listing [OF f ex at1 ag, OF replayed(1,1,1) st(1) d replayed(4)] plain_listing_stat [OF d]
  show ?thesis using replayed st by simp
next
  case failed
  then show ?thesis by simp
next
  case (listed l below)
  then show ?thesis by (auto split: option.splits dest: env_previous_store)
qed

definition sub_visit :: "walk_env \<Rightarrow> dir_tree \<Rightarrow> string \<Rightarrow> string list \<Rightarrow> bool \<Rightarrow> string \<Rightarrow> visit_out" where
  "sub_visit env t rel below trust name =
     (if enters (we_filter env) (child_path rel name)
      then (case map_of (dt_subs t) name of
              Some sub \<Rightarrow> visit env sub (child_path rel name) below trust
            | None \<Rightarrow> no_out)
      else no_out)"

lemma fold_join_out:
  "vo_files (fold join_out outs out) = concat (rev (map vo_files outs)) @ vo_files out"
  "vo_failures (fold join_out outs out) = concat (rev (map vo_failures outs)) @ vo_failures out"
  "vo_fresh (fold join_out outs out) = concat (rev (map vo_fresh outs)) @ vo_fresh out"
  by (induction outs arbitrary: out) (simp_all add: join_out_def)

lemma visit_unfold:
  "visit env t rel layers trusted =
     (case visit_listing env t rel layers trusted of
        (None, out) \<Rightarrow> out
      | (Some (l, below, trust), out) \<Rightarrow>
          if ls_nested l \<and> rel \<noteq> [] then out
          else fold join_out (map (sub_visit env t rel below trust) (ls_dirs l))
            (out\<lparr>vo_files := map (child_path rel) (ls_files l)\<rparr>))"
  unfolding sub_visit_def [abs_def] by (rule visit.simps)

lemma visit_listing_files: "visit_listing env t rel layers trusted = (p, out) \<Longrightarrow> vo_files out = []"
  by (auto simp: visit_listing_def no_out_def Let_def split: stat_result.splits sum.splits option.splits if_splits)

definition same_found :: "visit_out \<Rightarrow> visit_out \<Rightarrow> bool" where
  "same_found a b \<longleftrightarrow> vo_files a = vo_files b \<and> vo_failures a = vo_failures b"

lemma visit_agrees:
  assumes f: "known \<Longrightarrow> faithful env0 t0 env1 t1" and p0: "proper_tree t0" and p1: "proper_tree t1"
    and ex: "known \<Longrightarrow> explained env0 t0 (env_store env1)" and w: "watch_right env1 t1"
  shows "at env1 t1 rel t layers \<Longrightarrow> (trusted \<longrightarrow> known \<and> agrees env0 t0 env1 rel layers) \<Longrightarrow>
     same_found (visit env1 t rel layers trusted) (visit (plain_env env1) t rel layers False)"
proof (induction t arbitrary: rel layers trusted rule: measure_induct_rule [where f = size])
  case (less t)
  obtain p out where v: "visit_listing env1 t rel layers trusted = (p, out)" by fastforce
  from less.prems(2) have k: "trusted \<Longrightarrow> known" and ag: "trusted \<Longrightarrow> agrees env0 t0 env1 rel layers" by blast+
  note agree = visit_listing_agrees [OF f [OF k] ex [OF k] w less.prems(1) ag v]
  note files = visit_listing_files [OF v]
  show ?case
  proof (cases p)
    case None
    with agree v files show ?thesis
      by (simp add: same_found_def visit_unfold [of _ t] visit_listing_plain) (simp add: no_out_def)
  next
    case (Some q)
    then obtain l below trust where p: "p = Some (l, below, trust)" by (cases q) auto
    with agree have l: "plain_listing env1 t rel layers = Inr (l, below)" "vo_failures out = []"
      and tr: "trust \<longrightarrow> trusted \<and> (\<exists>lp. env_store env1 rel = Some lp \<and> ls_rules lp = ls_rules l)" by simp_all
    from l(1) obtain s where ld: "list_dir env1 t rel layers s = Inr (l, below)"
      by (auto simp: plain_listing_def split: stat_result.splits)
    note v0 = visit_listing_plain [of env1 t rel layers, unfolded l(1)]
    show ?thesis
    proof (cases "ls_nested l \<and> rel \<noteq> []")
      case True
      with v v0 p l files show ?thesis by (simp add: same_found_def visit_unfold [of _ t] no_out_def)
    next
      case False
      have sub: "same_found (sub_visit env1 t rel below trust name) (sub_visit (plain_env env1) t rel below False name)"
        if "name \<in> set (ls_dirs l)" for name
      proof (cases "map_of (dt_subs t) name")
        case (Some sub)
        have a: "at env1 t1 (child_path rel name) sub below"
          using less.prems(1) ld False that Some by (rule at_below)
        have "trust \<longrightarrow> known \<and> agrees env0 t0 env1 (child_path rel name) below"
          using tr k agrees_below [OF f p0 p1 ex less.prems(1) ag _ ld _ Some] by blast
        from less.IH [OF size_sub [OF Some] a this] Some show ?thesis
          by (simp add: sub_visit_def same_found_def)
      qed (simp add: sub_visit_def same_found_def)
      have same: "map vo_files (map (sub_visit env1 t rel below trust) (ls_dirs l)) =
            map vo_files (map (sub_visit (plain_env env1) t rel below False) (ls_dirs l))"
          "map vo_failures (map (sub_visit env1 t rel below trust) (ls_dirs l)) =
            map vo_failures (map (sub_visit (plain_env env1) t rel below False) (ls_dirs l))"
        using sub by (simp_all add: same_found_def)
      have "visit env1 t rel layers trusted = fold join_out (map (sub_visit env1 t rel below trust) (ls_dirs l))
            (out\<lparr>vo_files := map (child_path rel) (ls_files l)\<rparr>)"
        by (simp only: visit_unfold [of env1 t] v p prod.case option.case False if_False)
      moreover have "visit (plain_env env1) t rel layers False =
          fold join_out (map (sub_visit (plain_env env1) t rel below False) (ls_dirs l))
            (no_out\<lparr>vo_files := map (child_path rel) (ls_files l)\<rparr>)"
        by (simp only: visit_unfold [of "plain_env env1" t] v0 sum.case prod.case option.case False if_False)
      ultimately show ?thesis using same l(2) by (simp only: same_found_def fold_join_out) (simp add: no_out_def)
    qed
  qed
qed

section \<open>What a first run stores\<close>

lemma fresh_explained:
  assumes "at env0 t0 rel t layers" "(r, l) \<in> set (vo_fresh (visit env0 t rel layers False))"
  shows "\<exists>d ly below. at env0 t0 r d ly \<and> dt_stat d = StatOk (Some (ls_stamp l)) \<and>
     list_dir env0 d r ly (Some (ls_stamp l)) = Inr (l, below)"
  using assms
proof (induction t arbitrary: rel layers rule: measure_induct_rule [where f = size])
  case (less t)
  obtain p out where v: "visit_listing env0 t rel layers False = (p, out)" by fastforce
  have own: "\<exists>s. dt_stat t = StatOk (Some s) \<and> x = rel \<and> (\<exists>below. list_dir env0 t rel layers (Some s) = Inr (y, below))"
    if "(x, y) \<in> set (vo_fresh out)" for x y
    using that v
    by (auto simp: visit_listing_def stored_listing_def no_out_def Let_def
        split: stat_result.splits sum.splits option.splits if_splits)
  have here: ?case if "(r, l) \<in> set (vo_fresh out)"
  proof -
    from own [OF that] obtain s below where s: "dt_stat t = StatOk (Some s)" "r = rel"
      "list_dir env0 t rel layers (Some s) = Inr (l, below)" by blast
    then have "ls_stamp l = s" by (auto simp: list_dir_def Let_def split: list_result.splits if_splits)
    with s less.prems(1) show ?thesis by blast
  qed
  show ?case
  proof (cases "\<exists>l' below trust. p = Some (l', below, trust) \<and> \<not> (ls_nested l' \<and> rel \<noteq> [])")
    case True
    then obtain l' below trust where p: "p = Some (l', below, trust)" "\<not> (ls_nested l' \<and> rel \<noteq> [])" by blast
    from v p(1) obtain s where ld: "list_dir env0 t rel layers s = Inr (l', below)" and tr: "\<not> trust"
      by (auto simp: visit_listing_def stored_listing_def no_out_def Let_def
          split: stat_result.splits sum.splits option.splits if_splits)
    from less.prems(2) have "(r, l) \<in> set (vo_fresh out) \<or>
        (\<exists>name \<in> set (ls_dirs l'). (r, l) \<in> set (vo_fresh (sub_visit env0 t rel below trust name)))"
      unfolding visit_unfold [of env0 t] v p prod.case option.case
      by (simp only: p(2) if_False fold_join_out) auto
    then show ?thesis
    proof (elim disjE bexE)
      fix name assume name: "name \<in> set (ls_dirs l')" "(r, l) \<in> set (vo_fresh (sub_visit env0 t rel below trust name))"
      then obtain sub where sub: "map_of (dt_subs t) name = Some sub"
        "(r, l) \<in> set (vo_fresh (visit env0 sub (child_path rel name) below False))"
        using tr by (auto simp: sub_visit_def no_out_def split: if_splits option.splits)
      show ?thesis
        by (rule less.IH [OF size_sub [OF sub(1)] at_below [OF less.prems(1) ld p(2) name(1) sub(1)] sub(2)])
    qed (rule here)
  next
    case False
    with less.prems(2) v have "(r, l) \<in> set (vo_fresh out)"
      by (auto simp: visit_unfold [of env0 t] split: option.splits if_splits)
    then show ?thesis by (rule here)
  qed
qed

lemma remember_fresh:
  "set (mm_fresh (fold (\<lambda>(rel, l). mem_remember rel l) ls m)) \<subseteq> set (mm_fresh m) \<union> set ls"
proof (induction ls arbitrary: m)
  case (Cons p ls)
  have "set (AList.update k v xs) \<subseteq> insert (k, v) (set xs)" for k v and xs :: "(string \<times> listing) list"
    by (induction xs) auto
  note upd = this
  have "set (mm_fresh (mem_remember rel l m)) \<subseteq> insert (rel, l) (set (mm_fresh m))" for rel l
    using upd [of rel l "mm_fresh m"] by (auto simp: mem_remember_def)
  with Cons.IH [of "(\<lambda>(rel, l). mem_remember rel l) p m"] show ?case by (cases p) fastforce
qed simp

lemma after_walk_keeps:
  "mm_trusted (after_walk out m) = mm_trusted m" "mm_context (after_walk out m) = mm_context m"
  "mm_stored (after_walk out m) = mm_stored m" "mm_settled (after_walk out m) = mm_settled m"
  "mm_path (after_walk out m) = mm_path m"
  "set (mm_fresh (after_walk out m)) \<subseteq> set (mm_fresh m) \<union> set (vo_fresh out)"
proof -
  have r: "mm_trusted (fold (\<lambda>(rel, l). mem_remember rel l) ls m) = mm_trusted m \<and>
      mm_context (fold (\<lambda>(rel, l). mem_remember rel l) ls m) = mm_context m \<and>
      mm_stored (fold (\<lambda>(rel, l). mem_remember rel l) ls m) = mm_stored m \<and>
      mm_settled (fold (\<lambda>(rel, l). mem_remember rel l) ls m) = mm_settled m \<and>
      mm_path (fold (\<lambda>(rel, l). mem_remember rel l) ls m) = mm_path m" for ls m
    by (induction ls arbitrary: m) (simp_all add: mem_remember_def split_def)
  have u: "fold mem_use us m = m\<lparr>mm_used := rev us @ mm_used m\<rparr>" for us m
    by (induction us arbitrary: m) (simp_all add: mem_use_def)
  show "mm_trusted (after_walk out m) = mm_trusted m" "mm_context (after_walk out m) = mm_context m"
    "mm_stored (after_walk out m) = mm_stored m" "mm_settled (after_walk out m) = mm_settled m"
    "mm_path (after_walk out m) = mm_path m"
    by (simp_all add: after_walk_def r u)
  show "set (mm_fresh (after_walk out m)) \<subseteq> set (mm_fresh m) \<union> set (vo_fresh out)"
    using remember_fresh [of "vo_fresh out" "fold mem_use (vo_used out) m"] by (simp add: after_walk_def u)
qed

lemma saved_listings:
  assumes "memory_save mc os pid fs m = (ok, fs', m')" "mm_context m = Some ctx" "\<not> mm_trusted m"
    and "mm_stored m' = Some s"
  shows "set (ms_listings s) \<subseteq> set (mm_fresh m)" "ms_context s = ctx \<or> ms_listings s = [] \<and> ms_context s = default_context"
proof -
  have sub: "set (fold (\<lambda>(rel, l). AList.update rel l) fresh old) \<subseteq> set fresh \<union> set old" for fresh and old :: "(string \<times> listing) list"
  proof (induction fresh arbitrary: old)
    case (Cons p fresh)
    have "set (AList.update k v xs) \<subseteq> insert (k, v) (set xs)" for k v and xs :: "(string \<times> listing) list"
      by (induction xs) auto
    with Cons.IH [of "(\<lambda>(rel, l). AList.update rel l) p old"] show ?case by (cases p) fastforce
  qed simp
  have "set (folded_listings m old) \<subseteq> set (mm_fresh m)" for old
    using sub [of "mm_fresh m" "[]"] assms(3) by (simp add: folded_listings_def kept_listings_def)
  note folded = this
  have "ms_listings s = [] \<and> ms_context s = default_context \<or>
      ms_listings s = folded_listings m (ms_listings (case mm_stored m of Some s \<Rightarrow> s | None \<Rightarrow> default_stored)) \<and>
      ms_context s = ctx"
    using assms(1,2,4)
    by (auto simp: memory_save_def Let_def split: if_splits option.splits prod.splits) (simp_all add: default_stored_def)
  then show "set (ms_listings s) \<subseteq> set (mm_fresh m)" "ms_context s = ctx \<or> ms_listings s = [] \<and> ms_context s = default_context"
    using folded by fastforce+
qed

end
