(* ===== verification/WalkRuns.thy ===== *)
theory WalkRuns imports
  WalkMemory
begin

text \<open>
  Runs one after the other over a tree that changes in between: when the listings stored by the first
  run are safe to replay in the second, and a series of three runs after which they are not.
\<close>

lemma git_walk_cong:
  assumes "we_filter env = we_filter env'" "same_found (walk_out env ctx t) (walk_out env' ctx t)"
  shows "fst (git_walk env ctx t keep) = fst (git_walk env' ctx t keep)"
  using assms by (simp add: git_walk_def same_found_def Let_def split: list.split)

lemma at_memory: "at (env\<lparr>we_memory := m\<rparr>) t rel d layers \<longleftrightarrow> at env t rel d layers"
proof -
  have "plain_env (env\<lparr>we_memory := m\<rparr>) = plain_env env" by (simp add: plain_env_def)
  then show ?thesis by (metis at_plain)
qed

lemma list_dir_memory: "list_dir (env\<lparr>we_memory := m\<rparr>) t rel layers s = list_dir env t rel layers s"
proof -
  have "plain_env (env\<lparr>we_memory := m\<rparr>) = plain_env env" by (simp add: plain_env_def)
  then show ?thesis by (metis list_dir_plain)
qed

lemma begun_stored:
  assumes "we_memory env = Some m" "begun env ctx = (trusted, mem)"
  shows "env_store (env\<lparr>we_memory := mem\<rparr>) rel = map_of (ms_listings (stored_now (we_codec env) (we_fs env) m)) rel"
    "trusted \<Longrightarrow> ms_context (stored_now (we_codec env) (we_fs env) m) = ctx"
  using assms by (auto simp: begun_def memory_begin_def env_store_def Let_def) (simp_all add: stored_now_def)

text \<open>
  C23: Remembering directory listings changes nothing a run finds. After a run that had nothing to
  replay has stored its listings, whatever then happens to the tree and its ignore files, a later run
  under the same rules (with any scope filter, over any directories, with a watch that is right about
  what it vouches for) finds the same files and reports the same failures as one that lists every
  directory again, provided stamps name the content of directories and ignore files.
\<close>

theorem incremental_walk_finds_the_same:
  assumes first: "we_memory env0 = Some m0" "mm_fresh m0 = []" "mm_context m0 = None" "\<not> fst (begun env0 ctx0)"
      "snd (git_walk env0 ctx0 t0 keep0) = Some m1"
    and saved: "memory_save mc os pid fs m1 = (ok, fs', m2)" "mm_stored m2 = Some s"
    and second: "we_memory env1 = Some m3" "stored_now (we_codec env1) (we_fs env1) m3 = s"
    and trees: "proper_tree t0" "proper_tree t1"
    and stamps: "ctx1 = ctx0 \<Longrightarrow> faithful env0 t0 env1 t1" "watch_right env1 t1" "ct_version ctx1 \<noteq> []"
  shows "fst (git_walk env1 ctx1 t1 keep) = fst (git_walk (plain_env env1) ctx1 t1 keep)"
proof -
  obtain mem0 where b0: "begun env0 ctx0 = (False, Some mem0)"
    and mem0: "mm_fresh mem0 = []" "mm_context mem0 = Some ctx0" "\<not> mm_trusted mem0"
    using first by (auto simp: begun_def memory_begin_def Let_def split: prod.splits)
  let ?e0 = "env0\<lparr>we_memory := Some mem0\<rparr>" and ?out = "walk_out env0 ctx0 t0"
  have out: "?out = visit ?e0 t0 [] [] False" by (simp add: walk_out_def b0)
  from first(5) b0 have m1: "m1 = after_walk ?out mem0" by (simp add: git_walk_def Let_def)
  have listings: "set (ms_listings s) \<subseteq> set (vo_fresh ?out)"
    "ms_context s = ctx0 \<or> ms_listings s = [] \<and> ms_context s = default_context"
    using saved_listings [OF saved(1) _ _ saved(2), of ctx0] after_walk_keeps [of ?out mem0] mem0 m1 by auto
  obtain trusted mem where b1: "begun env1 ctx1 = (trusted, mem)" by fastforce
  let ?e1 = "env1\<lparr>we_memory := mem\<rparr>"
  note store = begun_stored [OF second(1) b1, unfolded second(2)]
  have known: "ctx1 = ctx0" if trusted
    using store(2) [OF that] listings(2) stamps(3) by (auto simp: default_context_def)
  have ex: "explained env0 t0 (env_store ?e1)"
    unfolding explained_def
  proof (intro allI impI)
    fix rel l assume "env_store ?e1 rel = Some l"
    then have "(rel, l) \<in> set (vo_fresh (visit ?e0 t0 [] [] False))"
      using store(1) listings(1) out by (auto dest: map_of_SomeD)
    from fresh_explained [OF at_root this]
    show "\<exists>d layers below. at env0 t0 rel d layers \<and> dt_stat d = StatOk (Some (ls_stamp l)) \<and>
       list_dir env0 d rel layers (Some (ls_stamp l)) = Inr (l, below)"
      by (simp add: at_memory list_dir_memory)
  qed
  have f: "ctx1 = ctx0 \<Longrightarrow> faithful env0 t0 ?e1 t1" using stamps(1) by (simp add: faithful_def at_memory)
  have w: "watch_right ?e1 t1" using stamps(2) by (simp add: watch_right_def at_memory env_clean_def)
  have "agrees env0 t0 ?e1 [] []"
  proof -
    have "layers0 = []" if "at env0 t0 [] d layers0" for d layers0
      using at_unique [OF at_root trees(1) that] by simp
    then show ?thesis by (simp add: agrees_def)
  qed
  from visit_agrees [OF f trees ex w at_root, of trusted] this known
  have "same_found (visit ?e1 t1 [] [] trusted) (visit (plain_env ?e1) t1 [] [] False)" by blast
  moreover have "(plain_env env1)\<lparr>we_memory := None\<rparr> = plain_env ?e1"
    by (cases env1) (simp add: plain_env_def)
  then have "walk_out (plain_env env1) ctx1 t1 = visit (plain_env ?e1) t1 [] [] False"
    unfolding walk_out_def begun_def by (simp add: plain_env_def [of env1])
  ultimately have "same_found (walk_out env1 ctx1 t1) (walk_out (plain_env env1) ctx1 t1)"
    by (simp add: walk_out_def b1)
  then show ?thesis by (intro git_walk_cong) simp_all
qed

lemma kept_listings_code [code]:
  "kept_listings m old =
     (if mm_trusted m
      then if int (length old) + int (length (mm_fresh m)) > 100000
           then filter (\<lambda>(rel, _). rel \<in> set (mm_used m)) old
           else old
      else [])"
  by (simp add: kept_listings_def MEM_BUDGET_def)

section \<open>Sample trees\<close>

definition at_time :: "int \<Rightarrow> stamp" where
  "at_time t = \<lparr>st_dev = 1, st_ino = 1, st_size = 1, st_mtime = t, st_ctime = t\<rparr>"

definition plain_entry :: "string \<Rightarrow> entry_kind \<Rightarrow> dir_entry" where
  "plain_entry name kind = \<lparr>en_name = name, en_text = True, en_kind = Some kind\<rparr>"

definition sample_lib :: dir_tree where
  "sample_lib = DirTree (StatOk (Some (at_time 2))) None (Listed [plain_entry ''gen.ts'' KFile]) []"

definition sample_src :: dir_tree where
  "sample_src = DirTree (StatOk (Some (at_time 3))) None (Listed [plain_entry ''a.ts'' KFile]) []"

text \<open>The tree at two times: only the \<open>.gitignore\<close> at its root is another.\<close>

definition sample_tree :: "int \<Rightarrow> dir_tree" where
  "sample_tree rules =
     DirTree (StatOk (Some (at_time 1))) (Some (at_time rules))
       (Listed [plain_entry ''.gitignore'' KFile, plain_entry ''lib'' KDir, plain_entry ''src'' KDir])
       [(''lib'', sample_lib), (''src'', sample_src)]"

definition sample_codec :: mem_codec where
  "sample_codec = \<lparr>mc_encode = (\<lambda>_. Some ''s''), mc_decode = (\<lambda>_. None)\<rparr>"

definition sample_layer :: "string list \<Rightarrow> string \<Rightarrow> string \<Rightarrow> bool \<Rightarrow> ignore_match" where
  "sample_layer ignores d path is_dir = (if d = [] \<and> path \<in> set ignores then Ignored else NoMatch)"

definition sample_env :: "string list \<Rightarrow> string list option \<Rightarrow> memory \<Rightarrow> walk_env" where
  "sample_env ignores scope m =
     \<lparr>we_filter = \<lparr>fl_root = ''/r'', fl_exclude = \<lparr>gi_matched = (\<lambda>_ _. NoMatch), gi_matched_parents = (\<lambda>_ _. NoMatch)\<rparr>,
        fl_lanes = [], fl_prefixes = scope\<rparr>,
      we_layer = sample_layer ignores, we_exclude = (\<lambda>_ _. NoMatch), we_global = (\<lambda>_ _. NoMatch),
      we_memory = Some m, we_codec = sample_codec, we_fs = (\<lambda>_. None), we_sight = None\<rparr>"

definition sample_context :: rules_context where
  "sample_context = \<lparr>ct_version = ''2.0'', ct_ignore_case = False, ct_files = []\<rparr>"

definition sample_os :: os_oracle where
  "sample_os = \<lparr>os_mkdir = True, os_create = True, os_write = True, os_written = 0, os_permissions = True,
     os_rename = True, os_remove = True\<rparr>"

definition sample_memory :: memory where
  "sample_memory = memory_open_as_of ''c.dirs'' 1000000000000"

text \<open>One run: the walk and the save after it.\<close>

definition sample_run ::
  "string list \<Rightarrow> string list option \<Rightarrow> dir_tree \<Rightarrow> memory \<Rightarrow> ((string \<times> string) + walked) \<times> memory" where
  "sample_run ignores scope t m =
     (case git_walk (sample_env ignores scope m) sample_context t (\<lambda>_. True) of
        (found, Some m1) \<Rightarrow> (found, snd (snd (memory_save sample_codec sample_os 7 (\<lambda>_. None) m1)))
      | (found, None) \<Rightarrow> (found, m))"

definition found_rels :: "((string \<times> string) + walked) \<Rightarrow> string list" where
  "found_rels found = (case found of Inl _ \<Rightarrow> [] | Inr w \<Rightarrow> map sf_rel (wk_files w))"

text \<open>
  The assumption that one run stored every listing is needed. Here a first run over everything stores
  \<open>lib\<close> with \<open>gen.ts\<close>; the root \<open>.gitignore\<close> then ignores it, and a run scoped to \<open>src\<close> stores the
  root's listing under the new rules without visiting \<open>lib\<close>; the next full run finds the root as
  stored, trusts it, and replays the listing of \<open>lib\<close> made under the old rules.
\<close>

lemma scoped_run_leaves_a_stale_listing:
  "let m1 = snd (sample_run [] None (sample_tree 4) sample_memory);
       m2 = snd (sample_run [''lib/gen.ts''] (Some [''src'']) (sample_tree 5) m1)
   in found_rels (fst (sample_run [''lib/gen.ts''] None (sample_tree 5) m2)) = [''src/a.ts'', ''lib/gen.ts''] \<and>
      found_rels (fst (sample_run [''lib/gen.ts''] None (sample_tree 5) sample_memory)) = [''src/a.ts'']"
  by code_simp

lemma faithful_unchanged:
  assumes "proper_tree t"
  shows "faithful env t (env\<lparr>we_memory := m\<rparr>) t"
  using at_unique [OF _ assms] by (fastforce simp: faithful_def at_memory)

definition sample_walked :: memory where
  "sample_walked = the (snd (git_walk (sample_env [] None sample_memory) sample_context (sample_tree 4) (\<lambda>_. True)))"

definition sample_saved :: memory where
  "sample_saved = snd (snd (memory_save sample_codec sample_os 7 (\<lambda>_. None) sample_walked))"

theorem incremental_walk_finds_the_same_witness:
  "found_rels (fst (git_walk (sample_env [] None sample_saved) sample_context (sample_tree 4) (\<lambda>_. True))) =
     [''src/a.ts'', ''lib/gen.ts'']"
proof -
  let ?e0 = "sample_env [] None sample_memory" and ?e1 = "sample_env [] None sample_saved" and ?t = "sample_tree 4"
  have first: "we_memory ?e0 = Some sample_memory" "mm_fresh sample_memory = []" "mm_context sample_memory = None"
    "\<not> fst (begun ?e0 sample_context)"
    "snd (git_walk ?e0 sample_context ?t (\<lambda>_. True)) = Some sample_walked"
    by (simp_all add: sample_env_def sample_memory_def memory_open_as_of_def sample_walked_def git_walk_def Let_def
        begun_def memory_begin_def stored_now_def stored_read_def default_stored_def default_context_def
        sample_context_def)
  obtain ok fs' s where saved: "memory_save sample_codec sample_os 7 (\<lambda>_. None) sample_walked = (ok, fs', sample_saved)"
    by (metis prod.collapse sample_saved_def)
  have "mm_stored sample_saved \<noteq> None" by code_simp
  then obtain s where s: "mm_stored sample_saved = Some s" by blast
  have second: "we_memory ?e1 = Some sample_saved" "stored_now (we_codec ?e1) (we_fs ?e1) sample_saved = s"
    by (simp_all add: sample_env_def stored_now_def s)
  have proper: "proper_tree ?t" by code_simp
  have "?e1 = ?e0\<lparr>we_memory := Some sample_saved\<rparr>" by (simp add: sample_env_def)
  with faithful_unchanged [OF proper] have f: "faithful ?e0 ?t ?e1 ?t" by metis
  have w: "watch_right ?e1 ?t" "ct_version sample_context \<noteq> []"
    by (simp_all add: watch_right_def env_clean_def sample_env_def sample_context_def)
  have "found_rels (fst (git_walk (plain_env ?e1) sample_context ?t (\<lambda>_. True))) = [''src/a.ts'', ''lib/gen.ts'']"
    by code_simp
  then show ?thesis
    using incremental_walk_finds_the_same [OF first saved s second proper proper f w, of "\<lambda>_. True"] by simp
qed

end
