(* ===== verification/WalkScope.thy ===== *)
theory WalkScope imports
  WalkRuns
begin

text \<open>
  Pruning: a walk that only descends where the filter lets it finds every file in scope that a walk of
  the whole tree finds.
\<close>

lemma visit_files_unfold:
  "set (vo_files (visit env t rel layers trusted)) =
     (case fst (visit_listing env t rel layers trusted) of
        None \<Rightarrow> {}
      | Some (l, below, trust) \<Rightarrow>
          if ls_nested l \<and> rel \<noteq> [] then {}
          else child_path rel ` set (ls_files l) \<union>
            (\<Union>name \<in> set (ls_dirs l). set (vo_files (sub_visit env t rel below trust name))))"
proof -
  obtain p out where v: "visit_listing env t rel layers trusted = (p, out)" by fastforce
  with visit_listing_files [OF v] show ?thesis
    by (auto simp: visit_unfold [of env t] fold_join_out split: option.split)
qed

lemma visited_below:
  "r \<in> set (vo_files (visit env t rel layers trusted)) \<Longrightarrow> rel = [] \<or> (\<exists>x. r = rel @ ''/'' @ x)"
proof (induction t arbitrary: rel layers trusted rule: measure_induct_rule [where f = size])
  case (less t)
  have sub: "rel = [] \<or> (\<exists>x. r = rel @ ''/'' @ x)"
    if "r \<in> set (vo_files (sub_visit env t rel below trust name))" for below trust name
  proof (cases "map_of (dt_subs t) name")
    case (Some s)
    with that have "r \<in> set (vo_files (visit env s (child_path rel name) below trust))"
      by (auto simp: sub_visit_def no_out_def split: if_splits)
    from less.IH [OF size_sub [OF Some] this] show ?thesis by (auto simp: child_path_def split: if_splits)
  qed (use that in \<open>auto simp: sub_visit_def no_out_def split: if_splits\<close>)
  from less.prems consider (here) name where "r = child_path rel name"
    | (deeper) below trust name where "r \<in> set (vo_files (sub_visit env t rel below trust name))"
    by (auto simp: visit_files_unfold [of env t] split: option.splits if_splits)
  then show ?case
  proof cases
    case here
    then show ?thesis by (auto simp: child_path_def)
  qed (rule sub)
qed

lemma ancestor_of: "c \<in> set (ancestors (c @ ''/'' @ x))"
proof -
  have "comps (c @ ''/'' @ x) = comps c @ comps x" by (simp add: split_on_append_sep)
  moreover have "1 \<le> length (comps c)" "1 \<le> length (comps x)" by (simp_all add: Suc_le_eq)
  ultimately have "length (comps c) \<in> {1..<length (comps (c @ ''/'' @ x))}"
    "c = join_with ''/'' (take (length (comps c)) (comps (c @ ''/'' @ x)))"
    by (simp_all add: join_split_on)
  then show ?thesis unfolding ancestors_def set_map set_upt by (rule rev_image_eqI)
qed

text \<open>The same filter without exclude patterns and scope paths.\<close>

definition open_filter :: "scope_filter \<Rightarrow> scope_filter" where
  "open_filter f =
     f\<lparr>fl_prefixes := None, fl_exclude := \<lparr>gi_matched = (\<lambda>_ _. NoMatch), gi_matched_parents = (\<lambda>_ _. NoMatch)\<rparr>\<rparr>"

lemma enters_open: "enters f rel \<Longrightarrow> enters (open_filter f) rel"
  by (simp add: enters_def open_filter_def)

lemma visit_listing_filter:
  "visit_listing (env\<lparr>we_filter := f\<rparr>) t rel layers trusted = visit_listing (env\<lparr>we_filter := g\<rparr>) t rel layers trusted"
proof -
  have ig: "ignored (env\<lparr>we_filter := f\<rparr>) ls p d = ignored (env\<lparr>we_filter := g\<rparr>) ls p d" for ls p d
    by (rule ignored_cong) simp_all
  have k: "kept_names (env\<lparr>we_filter := f\<rparr>) ls r kind es = kept_names (env\<lparr>we_filter := g\<rparr>) ls r kind es" for ls r kind es
    by (simp add: kept_names_def ig)
  have l: "list_dir (env\<lparr>we_filter := f\<rparr>) t rel layers s = list_dir (env\<lparr>we_filter := g\<rparr>) t rel layers s" for s
    unfolding list_dir_def k ..
  have looked: "env_listing (env\<lparr>we_filter := f\<rparr>) r = env_listing (env\<lparr>we_filter := g\<rparr>) r"
    "env_previous (env\<lparr>we_filter := f\<rparr>) r = env_previous (env\<lparr>we_filter := g\<rparr>) r"
    "env_clean (env\<lparr>we_filter := f\<rparr>) r = env_clean (env\<lparr>we_filter := g\<rparr>) r" for r
    by (cases "we_memory env"; simp add: fun_eq_iff env_clean_def env_listing_def env_previous_def)+
  have same: "vouched (env\<lparr>we_filter := f\<rparr>) r = vouched (env\<lparr>we_filter := g\<rparr>) r"
    "used_by_watch (env\<lparr>we_filter := f\<rparr>) r = used_by_watch (env\<lparr>we_filter := g\<rparr>) r"
    "stored_listing (env\<lparr>we_filter := f\<rparr>) r = stored_listing (env\<lparr>we_filter := g\<rparr>) r"
    "env_previous (env\<lparr>we_filter := f\<rparr>) r = env_previous (env\<lparr>we_filter := g\<rparr>) r"
    "saw (env\<lparr>we_filter := f\<rparr>) r = saw (env\<lparr>we_filter := g\<rparr>) r"
    "we_memory (env\<lparr>we_filter := f\<rparr>) = we_memory (env\<lparr>we_filter := g\<rparr>)" for r
    unfolding vouched_def used_by_watch_def stored_listing_def fun_eq_iff looked by (simp_all add: saw_def)
  show ?thesis unfolding visit_listing_def l same ..
qed

text \<open>
  C29: Where no pattern re-includes what another excludes (\<open>parents_matched\<close>), the scope and the
  \<open>[files] exclude\<close> patterns prune directories, never files in scope: a file the filter accepts is found by the
  pruned walk exactly when it is found by a walk of every directory git does not ignore. With a re-including
  pattern below an excluded directory \<open>source_file\<close> accepts files whose directory \<open>enters\<close> refuses, and the pruned
  walk misses them.
\<close>

theorem pruned_walk_loses_nothing:
  assumes "parents_matched (fl_exclude f)" "source_file f r = Some sf" "proper_tree t"
  shows "r \<in> set (vo_files (visit (env\<lparr>we_filter := f\<rparr>) t [] [] trusted)) \<longleftrightarrow>
     r \<in> set (vo_files (visit (env\<lparr>we_filter := open_filter f\<rparr>) t [] [] trusted))"
proof -
  have "r \<in> set (vo_files (visit (env\<lparr>we_filter := f\<rparr>) t rel layers trusted)) \<longleftrightarrow>
     r \<in> set (vo_files (visit (env\<lparr>we_filter := open_filter f\<rparr>) t rel layers trusted))"
    if "proper_tree t" for rel layers trusted
    using that
  proof (induction t arbitrary: rel layers trusted rule: measure_induct_rule [where f = size])
    case (less t)
    let ?f = "env\<lparr>we_filter := f\<rparr>" and ?o = "env\<lparr>we_filter := open_filter f\<rparr>"
    have sub: "r \<in> set (vo_files (sub_visit ?f t rel below trust name)) \<longleftrightarrow>
        r \<in> set (vo_files (sub_visit ?o t rel below trust name))" for below trust name
    proof (cases "map_of (dt_subs t) name")
      case (Some s)
      let ?c = "child_path rel name"
      note p = proper_sub [OF less.prems Some]
      note IH = less.IH [OF size_sub [OF Some] conjunct2 [OF conjunct2 [OF p]], of ?c below trust]
      show ?thesis
      proof (cases "r \<in> set (vo_files (visit ?o s ?c below trust))")
        case True
        from p have "?c \<noteq> []" by (simp add: child_path_def)
        with visited_below [OF True] obtain x where "r = ?c @ ''/'' @ x" by blast
        then have "?c \<in> set (ancestors r)" using ancestor_of by metis
        note e = enters_ancestors [OF assms(1,2) this]
        from e enters_open [OF e] IH Some show ?thesis by (simp add: sub_visit_def)
      next
        case False
        with IH Some show ?thesis by (simp add: sub_visit_def no_out_def)
      qed
    qed (simp add: sub_visit_def)
    show ?case
      unfolding visit_files_unfold [of ?f t] visit_files_unfold [of ?o t] visit_listing_filter [where env = env and f = f and g = "open_filter f"]
      using sub by (auto split: option.splits)
  qed
  with assms(3) show ?thesis by blast
qed

definition sample_filter :: scope_filter where
  "sample_filter = \<lparr>fl_root = ''/r'', fl_exclude = \<lparr>gi_matched = (\<lambda>_ _. NoMatch), gi_matched_parents = (\<lambda>_ _. NoMatch)\<rparr>,
     fl_lanes = [], fl_prefixes = Some [''src'']\<rparr>"

text \<open>The pattern \<open>lib/\<close>, and the scope \<open>src\<close>.\<close>

definition lib_excluded :: gitignore where
  "lib_excluded =
     (let matched = (\<lambda>rel d. if rel = ''lib'' \<and> d then Ignored else NoMatch)
      in \<lparr>gi_matched = matched,
          gi_matched_parents = (\<lambda>rel d. if matched rel d = Ignored \<or> list_ex (\<lambda>a. matched a True = Ignored) (ancestors rel)
            then Ignored else NoMatch)\<rparr>)"

definition excluding_filter :: scope_filter where
  "excluding_filter = sample_filter\<lparr>fl_exclude := lib_excluded, fl_prefixes := Some [''src'', ''lib'']\<rparr>"

theorem pruned_walk_loses_nothing_witness:
  "''src/a.ts'' \<in> set (vo_files (visit (sample_env [] None sample_memory\<lparr>we_filter := excluding_filter\<rparr>) (sample_tree 4) [] [] False)) \<and>
   \<not> enters excluding_filter ''lib'' \<and> enters (open_filter excluding_filter) ''lib''"
proof -
  have p: "parents_matched (fl_exclude excluding_filter)"
    by (simp add: parents_matched_def excluding_filter_def lib_excluded_def Let_def)
  have f: "source_file excluding_filter ''src/a.ts'' = Some \<lparr>sf_rel = ''src/a.ts'', sf_abs = ''/r/src/a.ts'', sf_lang = Ts\<rparr>"
    and t: "proper_tree (sample_tree 4)" by code_simp+
  have "\<not> enters excluding_filter ''lib''" "enters (open_filter excluding_filter) ''lib''" by code_simp+
  moreover have "''src/a.ts'' \<in> set (vo_files (visit (sample_env [] None sample_memory\<lparr>we_filter := open_filter excluding_filter\<rparr>)
      (sample_tree 4) [] [] False))" by code_simp
  ultimately show ?thesis using pruned_walk_loses_nothing [OF p f t, of "sample_env [] None sample_memory" False] by blast
qed

end
