(* ===== verification/Proto.thy ===== *)
theory Proto imports
  Outcomes
begin

text \<open>
  \<^verbatim>\<open>crates/go/src/proto.rs\<close>: the frames exchanged with the Go helper, and the request and reply of
  \<^verbatim>\<open>crates/go/src/lib.rs\<close>. Byte vectors and text are \<open>string\<close>; a cursor is the bytes left.
\<close>

section \<open>Messages\<close>

definition PROTOCOL_VERSION :: u32 where "PROTOCOL_VERSION = 1"

definition MAX_FRAME :: nat where "MAX_FRAME = 268435456"

definition HEADER_LEN :: nat where "HEADER_LEN = 5"

record steps =
  st_spacing :: bool
  st_gofmt :: bool
  st_goimports :: bool
  st_resolve_imports :: bool
  st_complexity :: bool

record request =
  rq_rel :: string
  rq_abs :: string
  rq_source :: string
  rq_steps :: steps

record reply =
  rp_output :: string
  rp_applied :: "string list"
  rp_violations :: "diagnostic list"
  rp_complexity :: "complexity_score list"
  rp_error :: "string option"

text \<open>Each error of the Go lane: a version error carries what was found, what was expected, and fmtkit's own.\<close>

datatype go_error =
    NotFound string
  | Spawn string
  | VersionMismatch string string string
  | Crashed string
  | Protocol string

datatype kind = KHello | KProcess | KReply | KShutdown

definition kind_byte :: "kind \<Rightarrow> char" where
  "kind_byte k = (case k of KHello \<Rightarrow> CHR 0x01 | KProcess \<Rightarrow> CHR 0x02 | KReply \<Rightarrow> CHR 0x03 | KShutdown \<Rightarrow> CHR 0x04)"

definition kind_from_byte :: "char \<Rightarrow> kind option" where
  "kind_from_byte b =
     (if b = CHR 0x01 then Some KHello
      else if b = CHR 0x02 then Some KProcess
      else if b = CHR 0x03 then Some KReply
      else if b = CHR 0x04 then Some KShutdown
      else None)"

definition kind_name :: "kind \<Rightarrow> string" where
  "kind_name k = (case k of KHello \<Rightarrow> ''Hello'' | KProcess \<Rightarrow> ''Process'' | KReply \<Rightarrow> ''Reply'' | KShutdown \<Rightarrow> ''Shutdown'')"

record hello =
  h_proto :: u32
  h_version :: string

record wire_violation =
  wv_rule :: string
  wv_line :: u32
  wv_column :: u32
  wv_message :: string

record wire_reply =
  wr_error :: string
  wr_output :: string
  wr_applied :: "string list"
  wr_violations :: "wire_violation list"
  wr_complexity :: "complexity_score list"

datatype message = MHello hello | MProcess request | MReply wire_reply | MShutdown

fun message_kind :: "message \<Rightarrow> kind" where
  "message_kind (MHello h) = KHello"
| "message_kind (MProcess r) = KProcess"
| "message_kind (MReply r) = KReply"
| "message_kind MShutdown = KShutdown"

record frame =
  fr_id :: u32
  fr_message :: message

section \<open>Encoding\<close>

text \<open>\<open>u32::to_le_bytes\<close> and \<open>u32::from_le_bytes\<close>\<close>

definition le_bytes32 :: "u32 \<Rightarrow> string" where
  "le_bytes32 w = map (\<lambda>i. char_of (unat w div 256 ^ i)) [0..<4]"

definition from_le_bytes32 :: "string \<Rightarrow> u32" where
  "from_le_bytes32 s = of_nat (\<Sum>i\<leftarrow>[0..<4]. of_char (s ! i) * 256 ^ i)"

definition put_u32 :: "u32 \<Rightarrow> string" where
  "put_u32 value = le_bytes32 value"

definition len_u32 :: "nat \<Rightarrow> u32" where
  "len_u32 n = saturate_u32 n"

definition put_bytes :: "string \<Rightarrow> string" where
  "put_bytes s = put_u32 (len_u32 (length s)) @ s"

definition put_list :: "('a \<Rightarrow> string) \<Rightarrow> 'a list \<Rightarrow> string" where
  "put_list enc xs = put_u32 (len_u32 (length xs)) @ concat (map enc xs)"

definition put_bool :: "bool \<Rightarrow> string" where
  "put_bool b = [if b then CHR 0x01 else CHR 0x00]"

definition put_violation :: "wire_violation \<Rightarrow> string" where
  "put_violation v = put_bytes (wv_rule v) @ put_u32 (wv_line v) @ put_u32 (wv_column v) @ put_bytes (wv_message v)"

definition put_score :: "complexity_score \<Rightarrow> string" where
  "put_score s =
     put_bytes (s_key s) @ put_bytes (s_name s) @ put_u32 (s_line s) @ put_u32 (s_cyclomatic s) @ put_u32 (s_cognitive s)"

definition encode_request :: "request \<Rightarrow> string" where
  "encode_request r =
     put_bytes (rq_rel r) @ put_bytes (rq_abs r) @ put_bytes (rq_source r) @
     concat (map put_bool [st_spacing (rq_steps r), st_gofmt (rq_steps r), st_goimports (rq_steps r),
       st_resolve_imports (rq_steps r), st_complexity (rq_steps r)])"

definition encode_reply :: "wire_reply \<Rightarrow> string" where
  "encode_reply r =
     put_bytes (wr_error r) @ put_bytes (wr_output r) @ put_list put_bytes (wr_applied r) @
     put_list put_violation (wr_violations r) @ put_list put_score (wr_complexity r)"

definition encode_message :: "message \<Rightarrow> string" where
  "encode_message m =
     (case m of
        MHello h \<Rightarrow> put_u32 (h_proto h) @ put_bytes (h_version h)
      | MProcess r \<Rightarrow> encode_request r
      | MReply r \<Rightarrow> encode_reply r
      | MShutdown \<Rightarrow> [])"

text \<open>The frame goes after what \<open>out\<close> holds; its length is written over four placeholder bytes.\<close>

definition encode_frame :: "frame \<Rightarrow> string \<Rightarrow> string" where
  "encode_frame f out =
     (let start = length out;
          out1 = out @ replicate 4 (CHR 0x00) @ [kind_byte (message_kind (fr_message f))] @ le_bytes32 (fr_id f) @
            encode_message (fr_message f);
          len = len_u32 (length out1 - start - 4)
      in take start out1 @ le_bytes32 len @ drop (start + 4) out1)"

definition request_frame_len :: "request \<Rightarrow> nat" where
  "request_frame_len r =
     4 + HEADER_LEN + 3 * 4 + length (rq_rel r) + length (rq_abs r) + length (rq_source r) + 5"

section \<open>Decoding\<close>

type_synonym 'a decoder = "string \<Rightarrow> string + 'a \<times> string"

definition dec_bind :: "'a decoder \<Rightarrow> ('a \<Rightarrow> 'b decoder) \<Rightarrow> 'b decoder" where
  "dec_bind d f s = (case d s of Inl e \<Rightarrow> Inl e | Inr (x, s') \<Rightarrow> f x s')"

definition dec_return :: "'a \<Rightarrow> 'a decoder" where
  "dec_return x s = Inr (x, s)"

definition get_take :: "nat \<Rightarrow> string decoder" where
  "get_take n buf =
     (if n > length buf then Inl (''need '' @ decimal n @ '' bytes, have '' @ decimal (length buf))
      else Inr (take n buf, drop n buf))"

definition get_byte :: "char decoder" where
  "get_byte = dec_bind (get_take 1) (\<lambda>s. dec_return (s ! 0))"

definition get_u32 :: "u32 decoder" where
  "get_u32 buf =
     (if length buf < 4 then Inl (''need 4 bytes, have '' @ decimal (length buf))
      else Inr (from_le_bytes32 (take 4 buf), drop 4 buf))"

definition get_bool :: "bool decoder" where
  "get_bool = dec_bind get_byte (\<lambda>b.
     if b = CHR 0x00 then dec_return False
     else if b = CHR 0x01 then dec_return True
     else (\<lambda>_. Inl (''bool byte '' @ decimal (of_char b))))"

definition get_bytes :: "string decoder" where
  "get_bytes = dec_bind get_u32 (\<lambda>n. get_take (unat n))"

definition get_string :: "string decoder" where
  "get_string = dec_bind get_bytes (\<lambda>s. dec_return (utf8_lossy s))"

text \<open>The product of a \<open>u32\<close> and an element size stays below \<open>usize::MAX\<close>.\<close>

definition get_count :: "nat \<Rightarrow> nat decoder" where
  "get_count min_size = dec_bind get_u32 (\<lambda>n buf.
     if unat n * min_size > length buf
     then Inl (''list of '' @ decimal (unat n) @ '' elements does not fit in '' @ decimal (length buf) @ '' bytes'')
     else Inr (unat n, buf))"

fun get_many :: "'a decoder \<Rightarrow> nat \<Rightarrow> 'a list decoder" where
  "get_many d 0 = dec_return []"
| "get_many d (Suc n) = dec_bind d (\<lambda>x. dec_bind (get_many d n) (\<lambda>xs. dec_return (x # xs)))"

definition get_list :: "nat \<Rightarrow> 'a decoder \<Rightarrow> 'a list decoder" where
  "get_list min_size d = dec_bind (get_count min_size) (get_many d)"

definition get_violation :: "wire_violation decoder" where
  "get_violation = dec_bind get_string (\<lambda>rule. dec_bind get_u32 (\<lambda>line. dec_bind get_u32 (\<lambda>column.
     dec_bind get_string (\<lambda>message.
       dec_return \<lparr>wv_rule = rule, wv_line = line, wv_column = column, wv_message = message\<rparr>))))"

definition get_score :: "complexity_score decoder" where
  "get_score = dec_bind get_string (\<lambda>key. dec_bind get_string (\<lambda>name. dec_bind get_u32 (\<lambda>line.
     dec_bind get_u32 (\<lambda>cyclomatic. dec_bind get_u32 (\<lambda>cognitive.
       dec_return \<lparr>s_key = key, s_name = name, s_line = line, s_cyclomatic = cyclomatic, s_cognitive = cognitive\<rparr>)))))"

definition decode_request :: "request decoder" where
  "decode_request = dec_bind get_string (\<lambda>rel. dec_bind get_bytes (\<lambda>p. dec_bind get_bytes (\<lambda>source.
     dec_bind get_bool (\<lambda>spacing. dec_bind get_bool (\<lambda>gofmt. dec_bind get_bool (\<lambda>goimports.
     dec_bind get_bool (\<lambda>resolve. dec_bind get_bool (\<lambda>complexity.
       dec_return \<lparr>rq_rel = rel, rq_abs = p, rq_source = source,
         rq_steps = \<lparr>st_spacing = spacing, st_gofmt = gofmt, st_goimports = goimports,
           st_resolve_imports = resolve, st_complexity = complexity\<rparr>\<rparr>))))))))"

definition decode_reply :: "wire_reply decoder" where
  "decode_reply = dec_bind get_string (\<lambda>error. dec_bind get_bytes (\<lambda>output.
     dec_bind (get_list 4 get_string) (\<lambda>applied. dec_bind (get_list 16 get_violation) (\<lambda>violations.
     dec_bind (get_list 20 get_score) (\<lambda>complexity.
       dec_return \<lparr>wr_error = error, wr_output = output, wr_applied = applied,
         wr_violations = violations, wr_complexity = complexity\<rparr>)))))"

definition get_hello :: "hello decoder" where
  "get_hello = dec_bind get_u32 (\<lambda>p. dec_bind get_string (\<lambda>version.
     dec_return \<lparr>h_proto = p, h_version = version\<rparr>))"

definition decode_message :: "kind \<Rightarrow> message decoder" where
  "decode_message k =
     (case k of
        KHello \<Rightarrow> dec_bind get_hello (\<lambda>h. dec_return (MHello h))
      | KProcess \<Rightarrow> dec_bind decode_request (\<lambda>r. dec_return (MProcess r))
      | KReply \<Rightarrow> dec_bind decode_reply (\<lambda>r. dec_return (MReply r))
      | KShutdown \<Rightarrow> dec_return MShutdown)"

definition decode_body :: "string \<Rightarrow> string + frame" where
  "decode_body body =
     (case dec_bind get_byte (\<lambda>kb. dec_bind get_u32 (\<lambda>i.
        case kind_from_byte kb of
          None \<Rightarrow> (\<lambda>_. Inl (''unknown frame kind '' @ decimal (of_char kb)))
        | Some k \<Rightarrow> dec_bind (decode_message k) (\<lambda>m. dec_return (k, \<lparr>fr_id = i, fr_message = m\<rparr>)))) body of
        Inl e \<Rightarrow> Inl e
      | Inr ((k, f), rest) \<Rightarrow>
          if rest \<noteq> [] then Inl (decimal (length rest) @ '' trailing bytes after a '' @ kind_name k @ '' payload'')
          else Inr f)"

definition check_length :: "nat \<Rightarrow> string + nat" where
  "check_length len =
     (if len < HEADER_LEN then Inl (''frame length '' @ decimal len @ '' is shorter than its header'')
      else if len > MAX_FRAME then Inl (''frame length '' @ decimal len @ '' exceeds '' @ decimal MAX_FRAME)
      else Inr len)"

definition truncated :: "nat \<Rightarrow> nat \<Rightarrow> string" where
  "truncated got len = ''truncated frame: '' @ decimal got @ '' of '' @ decimal len @ '' bytes''"

text \<open>The first frame of a buffer and the number of bytes it used.\<close>

definition decode :: "string \<Rightarrow> string + frame \<times> nat" where
  "decode buf =
     (if length buf < 4 then Inl (''truncated length: '' @ decimal (length buf) @ '' bytes'')
      else case check_length (unat (from_le_bytes32 (take 4 buf))) of
        Inl e \<Rightarrow> Inl e
      | Inr len \<Rightarrow>
          let rest = drop 4 buf in
          if length rest < len then Inl (truncated (length rest) len)
          else case decode_body (take len rest) of
            Inl e \<Rightarrow> Inl e
          | Inr f \<Rightarrow> Inr (f, 4 + len))"

section \<open>Reading frames\<close>

text \<open>
  A reader hands out what arrives: bytes, in pieces of any size, an interrupted call, a failed one, and
  in the end nothing.
\<close>

datatype read_event = Arrived string | Interrupted | Broken string

type_synonym reader = "read_event list"

datatype read_result = Got string | Retry | ReadFailed string

fun read_call :: "nat \<Rightarrow> reader \<Rightarrow> read_result \<times> reader" where
  "read_call n [] = (Got [], [])"
| "read_call n (Arrived bs # es) = (Got (take n bs), if length bs \<le> n then es else Arrived (drop n bs) # es)"
| "read_call n (Interrupted # es) = (Retry, es)"
| "read_call n (Broken e # es) = (ReadFailed e, es)"

definition reader_size :: "reader \<Rightarrow> nat" where
  "reader_size r = (\<Sum>e\<leftarrow>r. case e of Arrived bs \<Rightarrow> Suc (length bs) | _ \<Rightarrow> 1)"

lemma read_call_decreases:
  "read_call n r = (res, r') \<Longrightarrow> 0 < n \<Longrightarrow> res \<noteq> Got [] \<Longrightarrow> reader_size r' < reader_size r"
  by (cases "(n, r)" rule: read_call.cases) (auto simp: reader_size_def split: if_splits)

datatype read_error = Io string | Malformed string

text \<open>
  The loop over \<open>read\<close> until \<open>n\<close> bytes are there or the input ends, as written for the length prefix and
  as \<open>take(n).read_to_end\<close> does it for the body.
\<close>

function read_up_to :: "nat \<Rightarrow> string \<Rightarrow> reader \<Rightarrow> (read_error + string) \<times> reader" where
  "read_up_to n filled r =
     (if length filled \<ge> n then (Inr filled, r)
      else case read_call (n - length filled) r of
        (Got bs, r') \<Rightarrow> if bs = [] then (Inr filled, r') else read_up_to n (filled @ bs) r'
      | (Retry, r') \<Rightarrow> read_up_to n filled r'
      | (ReadFailed e, r') \<Rightarrow> (Inl (Io e), r'))"
  by pat_completeness auto
termination
proof (relation "measure (\<lambda>(n, filled, r). reader_size r)", goal_cases)
  case (2 n filled r res r' bs)
  then show ?case using read_call_decreases [of "n - length filled" r "Got bs" r'] by simp
next
  case (3 n filled r res r')
  then show ?case using read_call_decreases [of "n - length filled" r Retry r'] by simp
qed simp

declare read_up_to.simps [simp del]

text \<open>\<open>None\<close> is a clean end between frames.\<close>

definition read_frame :: "reader \<Rightarrow> (read_error + frame option) \<times> reader" where
  "read_frame r =
     (case read_up_to 4 [] r of
        (Inl e, r1) \<Rightarrow> (Inl e, r1)
      | (Inr pre, r1) \<Rightarrow>
          if pre = [] then (Inr None, r1)
          else if length pre < 4 then (Inl (Malformed (''truncated length: '' @ decimal (length pre) @ '' bytes'')), r1)
          else case check_length (unat (from_le_bytes32 pre)) of
            Inl e \<Rightarrow> (Inl (Malformed e), r1)
          | Inr len \<Rightarrow>
              (case read_up_to len [] r1 of
                 (Inl e, r2) \<Rightarrow> (Inl e, r2)
               | (Inr body, r2) \<Rightarrow>
                   if length body \<noteq> len then (Inl (Malformed (truncated (length body) len)), r2)
                   else case decode_body body of
                     Inl e \<Rightarrow> (Inl (Malformed e), r2)
                   | Inr f \<Rightarrow> (Inr (Some f), r2)))"

end
