(* ===== verification/ProtoFacts.thy ===== *)
theory ProtoFacts imports
  Proto
begin

text \<open>
  The wire format of \<^verbatim>\<open>crates/go/src/proto.rs\<close> decodes what it encodes, frame by frame, however the
  bytes of a stream arrive.
\<close>

section \<open>Numbers\<close>

lemma length_le_bytes32 [simp]: "length (le_bytes32 w) = 4" "length (put_u32 w) = 4"
  by (simp_all add: le_bytes32_def put_u32_def)

lemma base_256_step: "m mod 256 ^ n + (m div 256 ^ n mod 256) * 256 ^ n = m mod (256 ^ Suc n)" for m :: nat
  by (metis mod_mult2_eq add.commute mult.commute power_Suc2)

lemma from_le_bytes32 [simp]: "from_le_bytes32 (le_bytes32 w) = w"
proof -
  let ?m = "unat w"
  have four: "[0..<4] = [0, 1, 2, 3 :: nat]" by (simp add: upt_rec)
  have "(\<Sum>i\<leftarrow>[0..<4]. of_char (le_bytes32 w ! i) * 256 ^ i) =
      ?m mod 256 + (?m div 256 mod 256) * 256 + (?m div 256 ^ 2 mod 256) * 256 ^ 2 + (?m div 256 ^ 3 mod 256) * 256 ^ 3"
    by (simp only: le_bytes32_def four) (simp del: power_numeral)
  also have "\<dots> = ?m mod 256 ^ 4"
  proof -
    have "?m mod 256 + (?m div 256 mod 256) * 256 = ?m mod 256 ^ 2"
      using base_256_step [of ?m 1] by (simp add: power2_eq_square)
    moreover have "?m mod 256 ^ 2 + (?m div 256 ^ 2 mod 256) * 256 ^ 2 = ?m mod 256 ^ 3"
      using base_256_step [of ?m 2] by (simp del: power_numeral)
    moreover have "?m mod 256 ^ 3 + (?m div 256 ^ 3 mod 256) * 256 ^ 3 = ?m mod 256 ^ 4"
      using base_256_step [of ?m 3] by (simp del: power_numeral)
    ultimately show ?thesis by (simp only: add.assoc)
  qed
  also have "\<dots> = ?m"
  proof -
    have "?m < 2 ^ LENGTH(32)" by (rule unsigned_less)
    then show ?thesis by simp
  qed
  finally show ?thesis by (simp add: from_le_bytes32_def)
qed

section \<open>Parts\<close>

text \<open>An encoder of a part and the decoder that reads it back, from the front of what is left.\<close>

locale wire_codec =
  fixes enc :: "'a \<Rightarrow> string" and dec :: "'a decoder" and ok :: "'a \<Rightarrow> bool" and least :: nat
  assumes round_trip: "ok x \<Longrightarrow> length (enc x) < 2 ^ 32 \<Longrightarrow> dec (enc x @ r) = Inr (x, r)"
    and least_le: "least \<le> length (enc x)"
    and least_pos: "0 < least"
begin

lemma many_round_trip:
  "list_all ok xs \<Longrightarrow> length (concat (map enc xs)) < 2 ^ 32 \<Longrightarrow>
     get_many dec (length xs) (concat (map enc xs) @ r) = Inr (xs, r)"
  by (induction xs) (simp_all add: dec_return_def dec_bind_def round_trip)

lemma least_length: "length xs * least \<le> length (concat (map enc xs))"
  by (induction xs) (auto intro: add_mono least_le)

lemma list_round_trip:
  assumes "list_all ok xs" "length (put_list enc xs) < 2 ^ 32"
  shows "get_list least dec (put_list enc xs @ r) = Inr (xs, r)"
proof -
  let ?body = "concat (map enc xs)"
  from assms(2) have b: "length ?body < 2 ^ 32" by (simp add: put_list_def)
  have l: "length xs * least \<le> length ?body" by (rule least_length)
  moreover have "length xs \<le> length xs * least" using least_pos by simp
  ultimately have "length xs < 2 ^ 32" using b by linarith
  then have "length xs \<le> u32_max" by (simp add: u32_max_def)
  then have n: "unat (len_u32 (length xs)) = length xs" by (simp add: len_u32_def saturate_small)
  have "get_count least (put_list enc xs @ r) = Inr (length xs, ?body @ r)"
    using l by (simp add: get_count_def dec_bind_def get_u32_def put_list_def put_u32_def n)
  then show ?thesis
    by (simp add: get_list_def dec_bind_def many_round_trip [OF assms(1) b])
qed

end

lemma get_u32_put [simp]: "get_u32 (put_u32 w @ r) = Inr (w, r)"
  by (simp add: get_u32_def put_u32_def)

lemma get_bool_put [simp]: "get_bool (put_bool b @ r) = Inr (b, r)"
  by (simp add: get_bool_def get_byte_def get_take_def dec_bind_def dec_return_def put_bool_def)

lemma get_bytes_put: "length (put_bytes s) < 2 ^ 32 \<Longrightarrow> get_bytes (put_bytes s @ r) = Inr (s, r)"
  by (simp add: get_bytes_def put_bytes_def dec_bind_def get_take_def len_u32_def saturate_small u32_max_def)

lemma get_string_put:
  "length (put_bytes s) < 2 ^ 32 \<Longrightarrow> valid_utf8 s \<Longrightarrow> get_string (put_bytes s @ r) = Inr (s, r)"
  by (simp add: get_string_def dec_bind_def get_bytes_put dec_return_def)

lemma length_put_bytes: "length (put_bytes s) = 4 + length s"
  by (simp add: put_bytes_def)

definition utf8_violation :: "wire_violation \<Rightarrow> bool" where
  "utf8_violation v \<longleftrightarrow> valid_utf8 (wv_rule v) \<and> valid_utf8 (wv_message v)"

definition utf8_score :: "complexity_score \<Rightarrow> bool" where
  "utf8_score s \<longleftrightarrow> valid_utf8 (s_key s) \<and> valid_utf8 (s_name s)"

interpretation text_codec: wire_codec put_bytes get_string valid_utf8 4
  by unfold_locales (auto simp: get_string_put length_put_bytes)

interpretation violation_codec: wire_codec put_violation get_violation utf8_violation 16
proof unfold_locales
  fix v :: wire_violation and r
  assume "utf8_violation v" "length (put_violation v) < 2 ^ 32"
  then show "get_violation (put_violation v @ r) = Inr (v, r)"
    by (simp add: get_violation_def put_violation_def utf8_violation_def dec_bind_def dec_return_def get_string_put)
qed (simp_all add: put_violation_def length_put_bytes)

interpretation score_codec: wire_codec put_score get_score utf8_score 20
proof unfold_locales
  fix s :: complexity_score and r
  assume "utf8_score s" "length (put_score s) < 2 ^ 32"
  then show "get_score (put_score s @ r) = Inr (s, r)"
    by (simp add: get_score_def put_score_def utf8_score_def dec_bind_def dec_return_def get_string_put)
qed (simp_all add: put_score_def length_put_bytes)

section \<open>Frames\<close>

fun utf8_message :: "message \<Rightarrow> bool" where
  "utf8_message (MHello h) \<longleftrightarrow> valid_utf8 (h_version h)"
| "utf8_message (MProcess r) \<longleftrightarrow> valid_utf8 (rq_rel r)"
| "utf8_message (MReply r) \<longleftrightarrow> valid_utf8 (wr_error r) \<and> list_all valid_utf8 (wr_applied r) \<and>
     list_all utf8_violation (wr_violations r) \<and> list_all utf8_score (wr_complexity r)"
| "utf8_message MShutdown \<longleftrightarrow> True"

lemma request_round_trip:
  "valid_utf8 (rq_rel q) \<Longrightarrow> length (encode_request q) < 2 ^ 32 \<Longrightarrow> decode_request (encode_request q @ r) = Inr (q, r)"
  by (simp add: decode_request_def encode_request_def dec_bind_def dec_return_def get_string_put get_bytes_put)

lemma reply_round_trip:
  "utf8_message (MReply w) \<Longrightarrow> length (encode_reply w) < 2 ^ 32 \<Longrightarrow> decode_reply (encode_reply w @ r) = Inr (w, r)"
  by (simp add: decode_reply_def encode_reply_def dec_bind_def dec_return_def get_string_put get_bytes_put
      text_codec.list_round_trip violation_codec.list_round_trip score_codec.list_round_trip)

lemma message_round_trip:
  assumes "utf8_message m" "length (encode_message m) < 2 ^ 32"
  shows "decode_message (message_kind m) (encode_message m @ r) = Inr (m, r)"
  using assms
  by (cases m) (simp_all add: decode_message_def encode_message_def dec_bind_def dec_return_def get_hello_def
      get_string_put request_round_trip reply_round_trip)

definition frame_body :: "frame \<Rightarrow> string" where
  "frame_body f = [kind_byte (message_kind (fr_message f))] @ le_bytes32 (fr_id f) @ encode_message (fr_message f)"

lemma encode_frame_append: "encode_frame f out = out @ le_bytes32 (len_u32 (length (frame_body f))) @ frame_body f"
  by (simp add: encode_frame_def frame_body_def Let_def)

lemma kind_from_kind_byte [simp]: "kind_from_byte (kind_byte k) = Some k"
  by (cases k) (simp_all add: kind_from_byte_def kind_byte_def)

lemma body_round_trip:
  assumes "utf8_message (fr_message f)" "length (frame_body f) \<le> MAX_FRAME"
  shows "decode_body (frame_body f) = Inr f"
proof -
  have "length (encode_message (fr_message f)) < 2 ^ 32"
    using assms(2) by (simp add: frame_body_def MAX_FRAME_def)
  from message_round_trip [OF assms(1) this, of "[]"] show ?thesis
    by (simp add: decode_body_def frame_body_def dec_bind_def dec_return_def get_byte_def get_take_def
        put_u32_def [symmetric])
qed

lemma length_frame_body: "HEADER_LEN \<le> length (frame_body f)"
  by (simp add: frame_body_def HEADER_LEN_def)

lemma decode_frame:
  assumes "utf8_message (fr_message f)" "length (frame_body f) \<le> MAX_FRAME"
  shows "decode (encode_frame f [] @ rest) = Inr (f, length (encode_frame f []))"
proof -
  have n: "unat (len_u32 (length (frame_body f))) = length (frame_body f)"
    using assms(2) by (simp add: len_u32_def saturate_small u32_max_def MAX_FRAME_def)
  have c: "check_length (length (frame_body f)) = Inr (length (frame_body f))"
    using assms(2) length_frame_body [of f] by (simp add: check_length_def)
  show ?thesis
    by (simp add: decode_def encode_frame_append n c body_round_trip [OF assms])
qed

section \<open>Streams\<close>

text \<open>The bytes a reader will hand out, and readers that hand out all of them: no call fails.\<close>

definition arriving :: "reader \<Rightarrow> string" where
  "arriving r = concat (map (\<lambda>e. case e of Arrived bs \<Rightarrow> bs | _ \<Rightarrow> []) r)"

definition quiet :: "reader \<Rightarrow> bool" where
  "quiet r \<longleftrightarrow> list_all (\<lambda>e. case e of Arrived bs \<Rightarrow> bs \<noteq> [] | Interrupted \<Rightarrow> True | Broken m \<Rightarrow> False) r"

lemma quiet_call:
  assumes "quiet r" "0 < n" "read_call n r = (res, r')"
  shows "res = Retry \<and> quiet r' \<and> arriving r' = arriving r \<or>
    res = Got [] \<and> r = [] \<and> r' = [] \<or>
    (\<exists>bs. res = Got bs \<and> bs \<noteq> [] \<and> length bs \<le> n \<and> quiet r' \<and> arriving r = bs @ arriving r')"
  using assms by (cases "(n, r)" rule: read_call.cases) (auto simp: quiet_def arriving_def split: if_splits)

lemma read_up_to_quiet:
  "quiet r \<Longrightarrow> \<exists>r'. read_up_to n filled r = (Inr (filled @ take (n - length filled) (arriving r)), r') \<and>
     quiet r' \<and> arriving r' = drop (n - length filled) (arriving r)"
proof (induction n filled r rule: read_up_to.induct)
  case (1 n filled r)
  show ?case
  proof (cases "length filled \<ge> n")
    case True
    with 1(3) show ?thesis by (simp add: read_up_to.simps [of n filled r])
  next
    case False
    obtain res r1 where c: "read_call (n - length filled) r = (res, r1)" by fastforce
    from quiet_call [OF 1(3) _ c] False
    consider "res = Retry" "quiet r1" "arriving r1 = arriving r"
      | "res = Got []" "r = []" "r1 = []"
      | bs where "res = Got bs" "bs \<noteq> []" "length bs \<le> n - length filled" "quiet r1" "arriving r = bs @ arriving r1"
      by auto
    then show ?thesis
    proof cases
      case 1
      with "1.IH"(2) [OF False c [symmetric]] c False show ?thesis
        by (simp add: read_up_to.simps [of n filled r])
    next
      case 2
      with c False show ?thesis by (simp add: read_up_to.simps [of n filled "[]"] quiet_def arriving_def)
    next
      case 3
      with "1.IH"(1) [OF False c [symmetric] _ 3(2)] c False show ?thesis
        by (auto simp: read_up_to.simps [of n filled r])
    qed
  qed
qed

lemma read_frame_quiet:
  assumes "quiet r"
  shows "\<exists>r'. read_frame r =
       (if arriving r = [] then Inr None
        else case decode (arriving r) of Inl e \<Rightarrow> Inl (Malformed e) | Inr (f, n) \<Rightarrow> Inr (Some f), r') \<and> quiet r' \<and>
     (\<forall>f n. decode (arriving r) = Inr (f, n) \<longrightarrow> arriving r' = drop n (arriving r))"
proof -
  let ?buf = "arriving r"
  obtain r1 where one: "read_up_to 4 [] r = (Inr (take 4 ?buf), r1)" "quiet r1" "arriving r1 = drop 4 ?buf"
    using read_up_to_quiet [OF assms, of 4 "[]"] by auto
  show ?thesis
  proof (cases "length ?buf < 4")
    case True
    with one show ?thesis by (auto simp: read_frame_def decode_def)
  next
    case False
    then have ne: "?buf \<noteq> []" by auto
    show ?thesis
    proof (cases "check_length (unat (from_le_bytes32 (take 4 ?buf)))")
      case (Inl e)
      with False ne one show ?thesis by (simp add: read_frame_def decode_def)
    next
      case (Inr len)
      obtain r2 where two: "read_up_to len [] r1 = (Inr (take len (drop 4 ?buf)), r2)" "quiet r2"
          "arriving r2 = drop len (drop 4 ?buf)"
        using read_up_to_quiet [OF one(2), of len "[]"] one(3) by auto
      with False ne one Inr show ?thesis
        by (auto simp: read_frame_def decode_def min_def add.commute split: sum.splits)
    qed
  qed
qed

section \<open>Properties\<close>

text \<open>
  C31: The wire format round trips: decoding a frame that was encoded, whatever follows it, gives the
  frame and the number of bytes it took, when its text is UTF-8 and its length within the limit both
  sides accept; encoding appends to what the buffer holds, and the size predicted for a request
  (which decides whether it may be sent) is the encoded size.
\<close>

theorem frame_round_trip:
  assumes "utf8_message (fr_message f)" "length (encode_frame f []) \<le> 4 + MAX_FRAME"
  shows "decode (encode_frame f [] @ rest) = Inr (f, length (encode_frame f [])) \<and>
    encode_frame f out = out @ encode_frame f [] \<and>
    (case fr_message f of MProcess q \<Rightarrow> length (encode_frame f []) = request_frame_len q | _ \<Rightarrow> True)"
proof -
  have "length (frame_body f) \<le> MAX_FRAME" using assms(2) by (simp add: encode_frame_append)
  moreover have "length (encode_frame f []) = request_frame_len q" if "fr_message f = MProcess q" for q
    using that by (simp add: encode_frame_append frame_body_def encode_message_def encode_request_def
        length_put_bytes put_bool_def request_frame_len_def HEADER_LEN_def)
  ultimately show ?thesis
    using decode_frame [OF assms(1)] by (simp add: encode_frame_append split: message.split)
qed

text \<open>
  C32: Reading a frame from a stream is decoding its bytes: however they arrive (in pieces of any size,
  with interrupted calls in between), the same frame or the same error comes out, nothing at all is the
  clean end, and exactly the bytes of the frame are consumed.
\<close>

theorem reading_is_decoding:
  assumes "quiet r"
  shows "case read_frame r of (res, r') \<Rightarrow>
      res = (if arriving r = [] then Inr None
             else case decode (arriving r) of Inl e \<Rightarrow> Inl (Malformed e) | Inr (f, n) \<Rightarrow> Inr (Some f)) \<and>
      quiet r' \<and> (case decode (arriving r) of Inr (f, n) \<Rightarrow> arriving r' = drop n (arriving r) | _ \<Rightarrow> True)"
  using read_frame_quiet [OF assms] by (auto split: sum.split)

definition sample_hello :: frame where
  "sample_hello = \<lparr>fr_id = 0, fr_message = MHello \<lparr>h_proto = 1, h_version = ''2.0.0''\<rparr>\<rparr>"

lemma sample_hello_bytes:
  "encode_frame sample_hello [] =
     [CHR 0x12, CHR 0x00, CHR 0x00, CHR 0x00, CHR 0x01, CHR 0x00, CHR 0x00, CHR 0x00, CHR 0x00,
      CHR 0x01, CHR 0x00, CHR 0x00, CHR 0x00, CHR 0x05, CHR 0x00, CHR 0x00, CHR 0x00] @ ''2.0.0''"
  by (simp add: sample_hello_def encode_frame_append frame_body_def encode_message_def put_u32_def put_bytes_def
      le_bytes32_def len_u32_def saturate_u32_def u32_max_def upt_rec kind_byte_def char_of_def bit_iff_odd)

lemma sample_hello_utf8: "utf8_message (fr_message sample_hello)"
  by (simp add: sample_hello_def valid_utf8.simps(2) byte_in_def)

theorem frame_round_trip_witness:
  "decode (encode_frame sample_hello [] @ ''next'') = Inr (sample_hello, 22)"
  using frame_round_trip [OF sample_hello_utf8, of "''next''" "[]"] by (simp add: sample_hello_bytes MAX_FRAME_def)

definition sample_pieces :: reader where
  "sample_pieces = [Interrupted, Arrived (take 3 (encode_frame sample_hello [])), Interrupted,
     Arrived (drop 3 (encode_frame sample_hello [] @ ''next''))]"

theorem reading_is_decoding_witness:
  "fst (read_frame sample_pieces) = Inr (Some sample_hello) \<and> arriving (snd (read_frame sample_pieces)) = ''next''"
proof -
  have q: "quiet sample_pieces" by (simp add: sample_pieces_def quiet_def sample_hello_bytes)
  have b: "arriving sample_pieces = encode_frame sample_hello [] @ ''next''"
    by (simp add: sample_pieces_def arriving_def sample_hello_bytes)
  have m: "length (frame_body sample_hello) \<le> MAX_FRAME"
    by (simp add: sample_hello_def frame_body_def encode_message_def put_bytes_def MAX_FRAME_def)
  have "decode (encode_frame sample_hello [] @ ''next'') = Inr (sample_hello, 22)"
    using decode_frame [OF sample_hello_utf8 m, of "''next''"] by (simp add: sample_hello_bytes)
  with reading_is_decoding [OF q] b show ?thesis by (auto simp: sample_hello_bytes)
qed

end
