(* ===== verification/Complexities.thy ===== *)
theory Complexities imports
  Configs
  Filters
  Outcomes
begin

text \<open>
  \<^verbatim>\<open>crates/engine/src/complexity.rs\<close>: judging the scored functions against the limits and the allow
  list, and the allow entries against what the run could have matched. Whether a file still exists
  below the root is an argument.
\<close>

section \<open>Model\<close>

definition RULE_CYCLOMATIC :: string where "RULE_CYCLOMATIC = ''complexity/cyclomatic''"

definition RULE_COGNITIVE :: string where "RULE_COGNITIVE = ''complexity/cognitive''"

definition RULE_ALLOW :: string where "RULE_ALLOW = ''complexity/allow''"

definition breach :: "string \<Rightarrow> string \<Rightarrow> complexity_score \<Rightarrow> u32 \<Rightarrow> u32 \<Rightarrow> complexity_finding option" where
  "breach rule file score v limit =
     (if 0 < limit \<and> limit < v
      then Some \<lparr>c_file = file, c_rule = rule, c_line = s_line score, c_key = s_key score,
        c_message = s_key score @ '' scores '' @ decimal (unat v) @ '' (limit '' @ decimal (unat limit) @ '')''\<rparr>
      else None)"

definition is_scored :: "sourcefile \<Rightarrow> bool" where
  "is_scored f \<longleftrightarrow> is_scorable (sf_lang f) \<and> \<not> is_test_file (sf_abs f) \<and> \<not> is_declaration (sf_abs f)"

definition outcome_breaches :: "complexity_config \<Rightarrow> file_outcome \<Rightarrow> complexity_finding list" where
  "outcome_breaches policy out =
     concat (map (\<lambda>s.
         option_list (breach RULE_CYCLOMATIC (o_file out) s (s_cyclomatic s) (cc_cyclomatic policy)) @
         option_list (breach RULE_COGNITIVE (o_file out) s (s_cognitive s) (cc_cognitive policy)))
       (filter (\<lambda>s. \<not> allowed policy (s_key s)) (o_complexity out)))"

definition entry_file :: "string \<Rightarrow> string" where
  "entry_file key = (case split_once (CHR ''#'') key of Some (file, _) \<Rightarrow> file | None \<Rightarrow> key)"

definition entry_lane :: "string \<Rightarrow> lane option" where
  "entry_lane file =
     (case lang_from_path file of Some l \<Rightarrow> if is_scorable l then Some (lane_of l) else None | None \<Rightarrow> None)"

definition scored_keys :: "file_outcome list \<Rightarrow> string set" where
  "scored_keys outs = set (concat (map (\<lambda>out. map s_key (o_complexity out)) outs))"

definition covered_files :: "sourcefile list \<Rightarrow> file_outcome list \<Rightarrow> string set" where
  "covered_files scope outs =
     set (map sf_rel (filter (\<lambda>f. is_scored f \<and>
       sf_rel f \<notin> set (map o_file (filter (\<lambda>out. o_error out \<noteq> None) outs))) scope))"

definition stale_entry ::
  "(string \<Rightarrow> bool) \<Rightarrow> lane list \<Rightarrow> sourcefile list \<Rightarrow> file_outcome list \<Rightarrow> allow_entry \<Rightarrow> complexity_finding option" where
  "stale_entry file_exists lanes scope outs entry =
     (let file = entry_file (ae_key entry) in
      case entry_lane file of
        None \<Rightarrow> None
      | Some l \<Rightarrow>
          if l \<notin> set lanes \<or> ae_key entry \<in> scored_keys outs then None
          else if file \<notin> covered_files scope outs \<and> file_exists file then None
          else Some \<lparr>c_file = file, c_rule = RULE_ALLOW, c_line = 0, c_key = ae_key entry,
            c_message = ''allow entry '' @ debug_str (ae_key entry) @ '' matches no function''\<rparr>)"

definition stale_entries ::
  "(string \<Rightarrow> bool) \<Rightarrow> complexity_config \<Rightarrow> lane list \<Rightarrow> sourcefile list \<Rightarrow> file_outcome list \<Rightarrow> complexity_finding list" where
  "stale_entries file_exists policy lanes scope outs =
     List.map_filter (stale_entry file_exists lanes scope outs) (cc_allow policy)"

definition finding_key :: "complexity_finding \<Rightarrow> string \<times> nat \<times> string \<times> string" where
  "finding_key f = (c_file f, unat (c_line f), c_rule f, c_key f)"

definition evaluate ::
  "(string \<Rightarrow> bool) \<Rightarrow> complexity_config \<Rightarrow> lane list \<Rightarrow> sourcefile list \<Rightarrow> file_outcome list \<Rightarrow> complexity_finding list" where
  "evaluate file_exists policy lanes scope outs =
     sort_key finding_key
       (concat (map (outcome_breaches policy) outs) @ stale_entries file_exists policy lanes scope outs)"

section \<open>Facts\<close>

lemma breach_Some:
  "breach rule file s v limit = Some f \<Longrightarrow> c_rule f = rule \<and> c_file f = file \<and> c_key f = s_key s \<and> 0 < limit \<and> limit < v"
  by (auto simp: breach_def split: if_splits)

lemma rules_distinct [simp]: "RULE_CYCLOMATIC \<noteq> RULE_ALLOW" "RULE_COGNITIVE \<noteq> RULE_ALLOW"
  "RULE_CYCLOMATIC \<noteq> RULE_COGNITIVE"
  by (simp_all add: RULE_CYCLOMATIC_def RULE_COGNITIVE_def RULE_ALLOW_def)

lemma outcome_breaches_rule: "f \<in> set (outcome_breaches policy out) \<Longrightarrow> c_rule f \<noteq> RULE_ALLOW"
  by (auto simp: outcome_breaches_def breach_def split: if_splits)

lemma stale_entry_Some:
  assumes "stale_entry file_exists lanes scope outs e = Some f"
  shows "c_rule f = RULE_ALLOW" "c_key f = ae_key e" "ae_key e \<notin> scored_keys outs"
  using assms by (auto simp: stale_entry_def Let_def split: option.splits if_splits)

lemma stale_entries_rule: "f \<in> set (stale_entries ex policy lanes scope outs) \<Longrightarrow> c_rule f = RULE_ALLOW"
  by (auto simp: stale_entries_def List.map_filter_def dest: stale_entry_Some)

lemma outcome_breaches_cong:
  assumes "\<And>s. s \<in> set (o_complexity out) \<Longrightarrow> allowed p (s_key s) = allowed q (s_key s)"
    and "cc_cyclomatic p = cc_cyclomatic q" "cc_cognitive p = cc_cognitive q"
  shows "outcome_breaches p out = outcome_breaches q out"
  using assms by (simp add: outcome_breaches_def cong: filter_cong)

text \<open>The policy without the allow entries the run reports as stale.\<close>

definition without_stale ::
  "(string \<Rightarrow> bool) \<Rightarrow> complexity_config \<Rightarrow> lane list \<Rightarrow> sourcefile list \<Rightarrow> file_outcome list \<Rightarrow> complexity_config" where
  "without_stale ex policy lanes scope outs =
     policy\<lparr>cc_allow := filter (\<lambda>e. stale_entry ex lanes scope outs e = None) (cc_allow policy)\<rparr>"

section \<open>Properties\<close>

text \<open>
  Following the advice about allow entries is safe: dropping every entry a run reports as stale
  leaves exactly the other findings of that run, no entry stale and no function newly over a limit.
\<close>

theorem dropping_stale_entries_is_safe:
  "evaluate ex (without_stale ex policy lanes scope outs) lanes scope outs =
     filter (\<lambda>f. c_rule f \<noteq> RULE_ALLOW) (evaluate ex policy lanes scope outs)"
proof -
  let ?q = "without_stale ex policy lanes scope outs"
  have keep: "allowed ?q (s_key s) = allowed policy (s_key s)" if "out \<in> set outs" "s \<in> set (o_complexity out)" for out s
  proof -
    have "s_key s \<in> scored_keys outs" using that by (auto simp: scored_keys_def)
    then have "stale_entry ex lanes scope outs e = None" if "ae_key e = s_key s" for e
      using that stale_entry_Some(3) [of ex lanes scope outs e] by (cases "stale_entry ex lanes scope outs e") auto
    then show ?thesis by (auto simp: allowed_def without_stale_def)
  qed
  have b: "map (outcome_breaches ?q) outs = map (outcome_breaches policy) outs"
    using keep by (intro map_cong refl outcome_breaches_cong) (simp_all add: without_stale_def)
  have "stale_entries ex ?q lanes scope outs = []"
    by (auto simp: stale_entries_def List.map_filter_def without_stale_def filter_empty_conv)
  moreover have "filter (\<lambda>f. c_rule f \<noteq> RULE_ALLOW) (concat (map (outcome_breaches policy) outs)) =
      concat (map (outcome_breaches policy) outs)"
    by (rule filter_True) (auto dest: outcome_breaches_rule)
  moreover have "filter (\<lambda>f. c_rule f \<noteq> RULE_ALLOW) (stale_entries ex policy lanes scope outs) = []"
    by (auto simp: filter_empty_conv dest: stale_entries_rule)
  ultimately show ?thesis
    by (simp add: evaluate_def b filter_sort)
qed

end
