(* ===== verification/Generated.thy ===== *)
theory Generated imports
  Prelude
begin

text \<open>
  \<^verbatim>\<open>crates/discover/src/generated.rs\<close>: whether a source carries a generated-code marker before its
  first line that is neither blank nor a comment.
\<close>

definition GEN_PREFIX :: string where "GEN_PREFIX = ''// Code generated ''"

definition GEN_SUFFIX :: string where "GEN_SUFFIX = '' DO NOT EDIT.''"

definition BOM :: string where "BOM = bytes [0xEF, 0xBB, 0xBF]"

definition is_marker :: "string \<Rightarrow> bool" where
  "is_marker line \<longleftrightarrow>
     length GEN_PREFIX + length GEN_SUFFIX \<le> length line \<and> prefix GEN_PREFIX line \<and> suffix GEN_SUFFIX line"

text \<open>
  What a line outside a block comment does to the scan: it goes on outside or inside a block, or the
  line is code.
\<close>

datatype line_effect = Outside | Inside | Code

definition line_effect :: "nat \<Rightarrow> string \<Rightarrow> line_effect" where
  "line_effect number line =
     (let trimmed = trim_ws line in
      if trimmed = [] \<or> prefix ''//'' trimmed \<or> number = 0 \<and> prefix ''#!'' trimmed then Outside
      else case strip_prefix ''/*'' trimmed of
        None \<Rightarrow> Code
      | Some rest \<Rightarrow>
          (case find_sub ''*/'' rest of
             Some e \<Rightarrow> if trim_ws (drop (e + 2) rest) = [] then Outside else Code
           | None \<Rightarrow> Inside))"

fun scan_generated :: "nat \<Rightarrow> bool \<Rightarrow> string list \<Rightarrow> bool" where
  "scan_generated number in_block [] \<longleftrightarrow> False"
| "scan_generated number in_block (line # lines) \<longleftrightarrow>
     (if in_block then scan_generated (Suc number) (\<not> contains_sub ''*/'' line) lines
      else if is_marker line then True
      else case line_effect number line of
        Outside \<Rightarrow> scan_generated (Suc number) False lines
      | Inside \<Rightarrow> scan_generated (Suc number) True lines
      | Code \<Rightarrow> False)"

definition is_generated :: "string \<Rightarrow> bool" where
  "is_generated src =
     scan_generated 0 False (str_lines (case strip_prefix BOM src of Some t \<Rightarrow> t | None \<Rightarrow> src))"

section \<open>Facts\<close>

lemma scan_generated_marker:
  "scan_generated n b lines \<Longrightarrow> \<exists>line \<in> set lines. is_marker line"
  by (induction n b lines rule: scan_generated.induct) (auto split: if_splits line_effect.splits)

text \<open>The scan as a state machine over the lines: \<open>None\<close> once code was seen.\<close>

fun header_state :: "nat \<Rightarrow> bool \<Rightarrow> string list \<Rightarrow> bool option" where
  "header_state n b [] = Some b"
| "header_state n b (line # lines) =
     (if b then header_state (Suc n) (\<not> contains_sub ''*/'' line) lines
      else case line_effect n line of
        Outside \<Rightarrow> header_state (Suc n) False lines
      | Inside \<Rightarrow> header_state (Suc n) True lines
      | Code \<Rightarrow> None)"

lemma scan_generated_iff:
  "scan_generated n b lines \<longleftrightarrow>
     (\<exists>i < length lines. is_marker (lines ! i) \<and> header_state n b (take i lines) = Some False)"
proof (induction n b lines rule: scan_generated.induct)
  case (2 n b line lines)
  have "(\<exists>i < length (line # lines). is_marker ((line # lines) ! i) \<and>
        header_state n b (take i (line # lines)) = Some False) \<longleftrightarrow>
      is_marker line \<and> \<not> b \<or>
      (\<exists>i < length lines. is_marker (lines ! i) \<and> header_state n b (line # take i lines) = Some False)"
    unfolding list.size(4) One_nat_def add_0_right add_Suc_right Ex_less_Suc2 by auto
  with 2 show ?case by (auto split: line_effect.split)
qed simp

text \<open>
  A source is left alone exactly when one of its lines is a generated-code marker and every line
  before it is blank, a comment or within one (a shebang may be the first, a byte order mark may lead):
  the scan stops at the first line of code, so a marker after code never counts.
\<close>

theorem generated_iff_header_marker:
  "is_generated src \<longleftrightarrow>
     (let lines = str_lines (case strip_prefix BOM src of Some t \<Rightarrow> t | None \<Rightarrow> src)
      in \<exists>i < length lines. is_marker (lines ! i) \<and> header_state 0 False (take i lines) = Some False)"
  by (simp add: is_generated_def scan_generated_iff Let_def)

end
