(* ===== verification/ScriptLane.thy ===== *)
theory ScriptLane imports
  CacheReach
  Complexities
  Generated
begin

text \<open>
  \<^verbatim>\<open>crates/engine/src/script_lane.rs\<close> and \<^verbatim>\<open>progress.rs\<close>: what happens to one script or host document,
  from the cache lookup to the rewritten file. The linter and the formatters (\<open>fmtkit_lint\<close>,
  \<open>fmtkit_ts\<close>, \<open>fmtkit_hosts\<close>, which rest on the oxc parser) are arguments that may fail or panic.
\<close>

section \<open>Panics\<close>

text \<open>A computation returns, or panics with a payload that is a string or something else.\<close>

datatype 'a attempt = Returned 'a | Panicked "string option"

fun and_then :: "'a attempt \<Rightarrow> ('a \<Rightarrow> 'b attempt) \<Rightarrow> 'b attempt" where
  "and_then (Returned x) f = f x"
| "and_then (Panicked p) f = Panicked p"

definition internal_error :: "string option \<Rightarrow> string" where
  "internal_error payload =
     ''internal error, please report it: '' @ (case payload of Some m \<Rightarrow> m | None \<Rightarrow> ''unknown panic'')"

section \<open>The formatters\<close>

record linted =
  lt_diagnostics :: "diagnostic list"
  lt_fixed :: "string option"

record linter =
  ln_ignores :: "string \<Rightarrow> bool"
  ln_lint :: "string \<Rightarrow> lang \<Rightarrow> string \<Rightarrow> bool \<Rightarrow> linted attempt"

record formatted =
  fd_output :: string
  fd_applied :: "string list"
  fd_complexity :: "complexity_score list"

record formatters =
  fs_host :: "string \<Rightarrow> lang \<Rightarrow> string \<Rightarrow> ts_format \<Rightarrow> (string + formatted) attempt"
  fs_source :: "string \<Rightarrow> lang \<Rightarrow> string \<Rightarrow> ts_format \<Rightarrow> bool \<Rightarrow> (string + formatted) attempt"
  fs_score :: "string \<Rightarrow> lang \<Rightarrow> string \<Rightarrow> (string + complexity_score list) attempt"

record processed =
  pr_output :: string
  pr_applied :: "string list"
  pr_outcome :: file_outcome

section \<open>transform\<close>

definition first_lint :: "linter option \<Rightarrow> string \<Rightarrow> lang \<Rightarrow> string \<Rightarrow> linted option attempt" where
  "first_lint linter rel lang source =
     (case linter of
        None \<Rightarrow> Returned None
      | Some l \<Rightarrow> and_then (ln_lint l rel lang source True) (\<lambda>x. Returned (Some x)))"

text \<open>The formatted text, the steps applied, and the scores to report.\<close>

definition run_format ::
  "formatters \<Rightarrow> config \<Rightarrow> mode \<Rightarrow> string \<Rightarrow> lang \<Rightarrow> string \<Rightarrow> string \<Rightarrow> bool \<Rightarrow> (string + formatted) attempt" where
  "run_format fm c mode rel lang source input score =
     (if is_host lang
      then and_then (fs_host fm rel lang input (cf_ts c)) (\<lambda>r.
        Returned (case r of Inl e \<Rightarrow> Inl e | Inr f \<Rightarrow> Inr (f\<lparr>fd_complexity := []\<rparr>)))
      else and_then (fs_source fm rel lang input (cf_ts c) score) (\<lambda>r.
        case r of
          Inl e \<Rightarrow> Returned (Inl e)
        | Inr f \<Rightarrow>
            if score \<and> mode = Check \<and> fd_output f \<noteq> source
            then and_then (fs_score fm rel lang source) (\<lambda>s.
              Returned (case s of Inl e \<Rightarrow> Inl e | Inr cs \<Rightarrow> Inr (f\<lparr>fd_complexity := cs\<rparr>)))
            else Returned (Inr f)))"

definition final_lint ::
  "linter option \<Rightarrow> linted option \<Rightarrow> string option \<Rightarrow> mode \<Rightarrow> string \<Rightarrow> lang \<Rightarrow> string \<Rightarrow> string \<Rightarrow> string \<Rightarrow>
    diagnostic list attempt" where
  "final_lint linter linted fixed mode rel lang source input output =
     (case (linter, linted) of
        (Some l, Some x) \<Rightarrow>
          if mode = Check \<and> fixed \<noteq> None
          then and_then (ln_lint l rel lang source False) (\<lambda>y. Returned (lt_diagnostics y))
          else if mode = Check \<or> lt_diagnostics x = [] \<or> output = input then Returned (lt_diagnostics x)
          else and_then (ln_lint l rel lang output False) (\<lambda>y. Returned (lt_diagnostics y))
      | _ \<Rightarrow> Returned [])"

definition transform ::
  "formatters \<Rightarrow> config \<Rightarrow> linter option \<Rightarrow> mode \<Rightarrow> string \<Rightarrow> lang \<Rightarrow> string \<Rightarrow> bool \<Rightarrow> (string + processed) attempt" where
  "transform fm c linter0 mode rel lang source score =
     (let linter = (case linter0 of
          Some l \<Rightarrow> if is_lintable lang \<and> \<not> ln_ignores l rel then Some l else None
        | None \<Rightarrow> None)
      in and_then (first_lint linter rel lang source) (\<lambda>linted.
        let fixed = (case linted of None \<Rightarrow> None | Some x \<Rightarrow> lt_fixed x);
            input = (case fixed of None \<Rightarrow> source | Some t \<Rightarrow> t)
        in and_then (run_format fm c mode rel lang source input score) (\<lambda>r.
          case r of
            Inl e \<Rightarrow> Returned (Inl e)
          | Inr f \<Rightarrow>
              and_then (final_lint linter linted fixed mode rel lang source input (fd_output f)) (\<lambda>ds.
                Returned (Inr
                  \<lparr>pr_output = fd_output f,
                   pr_applied = (if fixed \<noteq> None then [''lint''] else []) @ fd_applied f,
                   pr_outcome = (file_outcome_new rel (Some lang))\<lparr>o_lint := ds, o_complexity := fd_complexity f\<rparr>\<rparr>)))))"

text \<open>\<open>format_text\<close> for \<open>--stdin-filepath\<close>\<close>

definition lane_format_text ::
  "formatters \<Rightarrow> config \<Rightarrow> linter option \<Rightarrow> string \<Rightarrow> lang \<Rightarrow> string \<Rightarrow> string + string" where
  "lane_format_text fm c linter rel lang source =
     (case transform fm c linter Format rel lang source False of
        Returned (Inr p) \<Rightarrow> Inr (pr_output p)
      | Returned (Inl e) \<Rightarrow> Inl e
      | Panicked p \<Rightarrow> Inl (internal_error p))"

section \<open>process\<close>

text \<open>
  What the operations of a run share. Metadata, error messages, the temporary names and which calls
  fail are what the file system says; a file that cannot be read is not in the map of files.
\<close>

record run =
  rn_config :: config
  rn_mode :: mode
  rn_linter :: "linter option"
  rn_formatters :: formatters
  rn_platform :: platform
  rn_metadata :: "string \<Rightarrow> metadata option"
  rn_read_error :: "string \<Rightarrow> string"
  rn_write_error :: "string \<Rightarrow> string"
  rn_os :: "string \<Rightarrow> os_oracle"
  rn_tmp :: "string \<Rightarrow> string"
  rn_permissions :: "string \<Rightarrow> bool"

text \<open>The state the lanes change: the cache, the files, and the count of processed files.\<close>

record lane_state =
  la_cache :: cache
  la_files :: files
  la_done :: nat

definition tick :: "lane_state \<Rightarrow> lane_state" where
  "tick st = st\<lparr>la_done := la_done st + 1\<rparr>"

definition read_source :: "run \<Rightarrow> files \<Rightarrow> string \<Rightarrow> source_view" where
  "read_source run fs path =
     \<lparr>sv_metadata = rn_metadata run path,
      sv_bytes = (case fs path of Some bs \<Rightarrow> Inr bs | None \<Rightarrow> Inl (rn_read_error run path))\<rparr>"

definition clean_outcome :: "file_outcome \<Rightarrow> file_outcome" where
  "clean_outcome out = out\<lparr>o_applied := [], o_changed := False\<rparr>"

text \<open>What happens once the new text is known.\<close>

definition settle_output :: "run \<Rightarrow> sourcefile \<Rightarrow> fresh \<Rightarrow> string \<Rightarrow> processed \<Rightarrow> lane_state \<Rightarrow> file_outcome \<times> lane_state" where
  "settle_output run f fr source p st =
     (let out = (pr_outcome p)\<lparr>o_changed := (pr_output p \<noteq> source), o_applied := pr_applied p\<rparr>;
          pf = rn_platform run
      in if \<not> o_changed out \<or> rn_mode run = Check
         then (out, st\<lparr>la_cache := put_fresh pf (la_files st) fr out (la_cache st)\<rparr>)
         else case atomic_replace (rn_os run (sf_abs f)) (rn_permissions run (sf_abs f)) (rn_tmp run (sf_abs f))
             (sf_abs f) (pr_output p) (la_files st) of
           (states, ok) \<Rightarrow>
             let st1 = st\<lparr>la_files := last states\<rparr> in
             if \<not> ok then (out\<lparr>o_error := Some (''write: '' @ rn_write_error run (sf_abs f))\<rparr>, st1)
             else (out, st1\<lparr>la_cache := cache_put pf (la_files st1)
               (cache_key pf (rn_mode run) (sf_rel f) (pr_output p) (la_cache st1)) (clean_outcome out) (la_cache st1)\<rparr>))"

definition process_inner :: "run \<Rightarrow> sourcefile \<Rightarrow> lane_state \<Rightarrow> file_outcome option attempt \<times> lane_state" where
  "process_inner run f st =
     (case cache_read (rn_platform run) (la_files st) (read_source run (la_files st) (sf_abs f)) (rn_mode run)
         (sf_rel f) (la_cache st) of
        (r, c) \<Rightarrow>
          let st1 = st\<lparr>la_cache := c\<rparr>;
              failed = (\<lambda>msg. (Returned (Some (file_outcome_failed (sf_rel f) (Some (sf_lang f)) msg)), st1))
          in case r of
               Inr (Hit out) \<Rightarrow> (Returned (Some out), st1)
             | Inl e \<Rightarrow> failed (''read: '' @ e)
             | Inr (Miss fr) \<Rightarrow>
                 let source = f_bytes fr in
                 if \<not> valid_utf8 source then failed ''not valid UTF-8''
                 else if is_generated source then (Returned None, st1)
                 else case transform (rn_formatters run) (rn_config run) (rn_linter run) (rn_mode run) (sf_rel f)
                     (sf_lang f) source (is_scored f) of
                   Panicked p \<Rightarrow> (Panicked p, st1)
                 | Returned (Inl msg) \<Rightarrow> failed msg
                 | Returned (Inr p) \<Rightarrow>
                     (case settle_output run f fr source p st1 of (out, st2) \<Rightarrow> (Returned (Some out), st2)))"

definition process :: "run \<Rightarrow> sourcefile \<Rightarrow> lane_state \<Rightarrow> file_outcome option \<times> lane_state" where
  "process run f st =
     (case process_inner run f st of
        (Returned out, st') \<Rightarrow> (out, tick st')
      | (Panicked p, st') \<Rightarrow> (Some (file_outcome_failed (sf_rel f) (Some (sf_lang f)) (internal_error p)), tick st'))"

text \<open>The lane over a list of files; each is independent of the others, here in the order given.\<close>

fun process_all :: "run \<Rightarrow> sourcefile list \<Rightarrow> lane_state \<Rightarrow> file_outcome list \<times> lane_state" where
  "process_all run [] st = ([], st)"
| "process_all run (f # fs) st =
     (case process run f st of
        (out, st1) \<Rightarrow> (case process_all run fs st1 of (outs, st2) \<Rightarrow> (option_list out @ outs, st2)))"

section \<open>What the lane keeps\<close>

definition loaded_cache :: "cache \<Rightarrow> bool" where
  "loaded_cache c \<longleftrightarrow> (case c of None \<Rightarrow> True | Some st \<Rightarrow> cs_tables st \<noteq> None)"

lemma loaded_tables: "loaded_cache c \<Longrightarrow> cache_tables pf fs c = cache_tables pf fs' c"
  by (auto simp: loaded_cache_def cache_tables_def force_tables_def split: option.splits)

lemma loaded_view: "loaded_cache c \<Longrightarrow> cache_view pf fs c = cache_view pf fs' c"
  unfolding cache_view_def by (subst loaded_tables [of c pf fs fs']) simp_all

lemma loaded_wf: "loaded_cache c \<Longrightarrow> wf_cache pf fs c = wf_cache pf fs' c"
  unfolding wf_cache_def by (subst loaded_tables [of c pf fs fs']) simp_all

lemma loaded_get: "loaded_cache (snd (cache_get pf fs k c))"
  by (auto simp: loaded_cache_def cache_get_def Let_def split: option.splits)

lemma loaded_miss: "cache_read pf fs sv mode rel c = (Inr (Miss fr), c') \<Longrightarrow> loaded_cache c'"
  using loaded_get by (auto simp: cache_read_def read_content_def Let_def split: option.splits sum.splits prod.splits)
    (metis snd_conv)

lemma replace_last:
  assumes "tmp \<noteq> target" "atomic_replace os perm tmp target data fs = (states, ok)"
  shows "last states target = (if ok then Some data else fs target)"
    "p \<noteq> target \<Longrightarrow> p \<noteq> tmp \<Longrightarrow> last states p = fs p"
  using assms by (auto simp: atomic_replace_def Let_def removed_def split: if_splits)

text \<open>What processing a file may do to the files: nothing, or a replacement of that file.\<close>

definition replaced_by :: "run \<Rightarrow> sourcefile \<Rightarrow> files \<Rightarrow> string \<Rightarrow> bool \<Rightarrow> files \<Rightarrow> bool" where
  "replaced_by run f fs data ok fs' \<longleftrightarrow>
     (\<exists>states. atomic_replace (rn_os run (sf_abs f)) (rn_permissions run (sf_abs f)) (rn_tmp run (sf_abs f)) (sf_abs f)
        data fs = (states, ok) \<and> fs' = last states)"

lemma settle_files:
  assumes "settle_output run f fr source p st = (out, st')"
  shows "la_files st' = la_files st \<or>
     rn_mode run = Format \<and> pr_output p \<noteq> source \<and> (\<exists>ok. replaced_by run f (la_files st) (pr_output p) ok (la_files st'))"
proof -
  have "rn_mode run = Format" if "rn_mode run \<noteq> Check" using that by (cases "rn_mode run") auto
  with assms show ?thesis
    by (auto simp: settle_output_def replaced_by_def Let_def split: prod.splits if_splits)
qed

lemma and_then_Returned: "and_then x g = Returned y \<longleftrightarrow> (\<exists>z. x = Returned z \<and> g z = Returned y)"
  by (cases x) simp_all

lemma transform_outcome:
  assumes "transform fm c linter mode rel lang source score = Returned (Inr p)"
  shows "o_error (pr_outcome p) = None" "o_file (pr_outcome p) = rel" "o_violations (pr_outcome p) = []"
  using assms unfolding transform_def and_then_Returned Let_def
  by - (elim exE conjE; auto simp: and_then_Returned split: sum.splits)+

lemma process_cases:
  assumes "process run f st = (out, st')"
  obtains (kept) "la_files st' = la_files st"
    | (wrote) fr c p o1 st2 where "rn_mode run = Format" "pr_output p \<noteq> f_bytes fr"
      "cache_read (rn_platform run) (la_files st) (read_source run (la_files st) (sf_abs f)) (rn_mode run)
         (sf_rel f) (la_cache st) = (Inr (Miss fr), c)"
      "\<not> is_generated (f_bytes fr)" "o_error (pr_outcome p) = None"
      "settle_output run f fr (f_bytes fr) p (st\<lparr>la_cache := c\<rparr>) = (o1, st2)" "out = Some o1" "st' = tick st2"
proof -
  obtain r c where rd: "cache_read (rn_platform run) (la_files st) (read_source run (la_files st) (sf_abs f))
      (rn_mode run) (sf_rel f) (la_cache st) = (r, c)" by fastforce
  show thesis
  proof (cases "la_files st' = la_files st")
    case False
    with assms rd obtain fr p o1 st2 where m: "r = Inr (Miss fr)" "\<not> is_generated (f_bytes fr)"
        "transform (rn_formatters run) (rn_config run) (rn_linter run) (rn_mode run) (sf_rel f)
           (sf_lang f) (f_bytes fr) (is_scored f) = Returned (Inr p)"
        "settle_output run f fr (f_bytes fr) p (st\<lparr>la_cache := c\<rparr>) = (o1, st2)" "out = Some o1" "st' = tick st2"
      by (auto simp: process_def process_inner_def tick_def Let_def
          split: prod.splits sum.splits lookup.splits attempt.splits if_splits)
    from settle_files [OF m(4)] False m(6) have "rn_mode run = Format" "pr_output p \<noteq> f_bytes fr"
      by (auto simp: tick_def)
    with m rd transform_outcome(1) [OF m(3)] show ?thesis by (intro wrote) auto
  qed (rule kept)
qed

section \<open>Properties\<close>

lemma check_keeps_files:
  "rn_mode run = Check \<Longrightarrow> la_files (snd (process run f st)) = la_files st"
proof -
  assume m: "rn_mode run = Check"
  obtain out st' where p: "process run f st = (out, st')" by fastforce
  from p show ?thesis by (cases rule: process_cases) (use m p in auto)
qed

text \<open>The steps a lane may take on the files: the file's old content, or its whole new text.\<close>

lemma process_replaces:
  assumes "process run f st = (out, st')" "rn_tmp run (sf_abs f) \<noteq> sf_abs f"
  shows "p \<noteq> sf_abs f \<Longrightarrow> p \<noteq> rn_tmp run (sf_abs f) \<Longrightarrow> la_files st' p = la_files st p"
    and "la_files st' (sf_abs f) = la_files st (sf_abs f) \<or>
      rn_mode run = Format \<and> (\<exists>o1. out = Some o1 \<and> o_changed o1) \<and> la_files st' (sf_abs f) \<noteq> None"
proof -
  have "(p \<noteq> sf_abs f \<longrightarrow> p \<noteq> rn_tmp run (sf_abs f) \<longrightarrow> la_files st' p = la_files st p) \<and>
     (la_files st' (sf_abs f) = la_files st (sf_abs f) \<or>
      rn_mode run = Format \<and> (\<exists>o1. out = Some o1 \<and> o_changed o1) \<and> la_files st' (sf_abs f) \<noteq> None)"
    using assms(1)
  proof (cases rule: process_cases)
    case (wrote fr c q o1 st2)
    obtain states ok where a: "atomic_replace (rn_os run (sf_abs f)) (rn_permissions run (sf_abs f))
        (rn_tmp run (sf_abs f)) (sf_abs f) (pr_output q) (la_files st) = (states, ok)" by fastforce
    with wrote have "la_files st' = last states" "o_changed o1"
      by (auto simp: settle_output_def Let_def tick_def split: if_splits)
    with replace_last [OF assms(2) a] wrote show ?thesis by auto
  qed simp
  then show "p \<noteq> sf_abs f \<Longrightarrow> p \<noteq> rn_tmp run (sf_abs f) \<Longrightarrow> la_files st' p = la_files st p"
    and "la_files st' (sf_abs f) = la_files st (sf_abs f) \<or>
      rn_mode run = Format \<and> (\<exists>o1. out = Some o1 \<and> o_changed o1) \<and> la_files st' (sf_abs f) \<noteq> None"
    by blast+
qed

lemma check_keeps_all_files: "rn_mode run = Check \<Longrightarrow> la_files (snd (process_all run fs st)) = la_files st"
  by (induction fs arbitrary: st) (simp, simp split: prod.split, metis check_keeps_files snd_conv)

lemma config_keeps_key:
  "map_option cs_config_hash c = map_option cs_config_hash c' \<Longrightarrow> cache_key pf m rel bs c = cache_key pf m rel bs c'"
  by (cases c; cases c') (simp_all add: cache_key_def)

lemma put_keeps_config: "map_option cs_config_hash (cache_put pf fs k out c) = map_option cs_config_hash c"
  by (auto simp: cache_put_def cache_insert_def Let_def split: option.splits)

lemma miss_keeps_enabled:
  assumes "wf_cache pf fs c" "cache_read pf fs sv m rel c = (r, c')" "c \<noteq> None"
  shows "c' \<noteq> None"
  using cache_read_spec(1) [OF assms(1,2)] assms(3) by (cases c'; cases c) (simp_all add: same_store_def)

lemma rewritten_hit:
  assumes run: "rn_mode run = Format" "rn_tmp run (sf_abs f) \<noteq> sf_abs f" "codec_ok (rn_platform run)"
    and c: "la_cache st \<noteq> None" "wf_cache (rn_platform run) (la_files st) (la_cache st)"
    and p: "process run f st = (Some out, st')" "la_files st' (sf_abs f) \<noteq> la_files st (sf_abs f)"
    and enc: "pf_encode (rn_platform run) (wire_of_outcome (clean_outcome out)) \<noteq> None"
    and nostamp: "fst (try_stamp (rn_platform run) (la_files st') (lookup_stamp (rn_platform run)
        (read_source run (la_files st') (sf_abs f)) Format (sf_rel f) (la_cache st')) (la_cache st')) = None"
  shows "fst (process run f st') = Some (clean_outcome out) \<and> la_files (snd (process run f st')) = la_files st'"
  using p(1)
proof (cases rule: process_cases)
  case kept
  with p(2) show ?thesis by simp
next
  case (wrote fr c1 q o1 st2)
  let ?pf = "rn_platform run" and ?new = "pr_output q"
  obtain states ok where a: "atomic_replace (rn_os run (sf_abs f)) (rn_permissions run (sf_abs f))
      (rn_tmp run (sf_abs f)) (sf_abs f) ?new (la_files st) = (states, ok)" by fastforce
  have "ok"
  proof (rule ccontr)
    assume "\<not> ok"
    with a wrote have "la_files st' = last states"
      by (auto simp: settle_output_def Let_def tick_def split: if_splits)
    with replace_last(1) [OF run(2) a] \<open>\<not> ok\<close> p(2) show False by simp
  qed
  from wrote(7) have "out = o1" by simp
  with a wrote run(1) \<open>ok\<close> have out: "out = (pr_outcome q)\<lparr>o_changed := True, o_applied := pr_applied q\<rparr>"
    and fs': "la_files st' = last states"
    and c': "la_cache st' = cache_put ?pf (last states) (cache_key ?pf Format (sf_rel f) ?new c1) (clean_outcome out) c1"
    by (auto simp: settle_output_def Let_def tick_def split: if_splits)
  from cache_read_spec(1) [OF c(2) wrote(3)] have s1: "same_store ?pf (la_files st) (la_cache st) c1" .
  have l1: "loaded_cache c1" using wrote(3) by (rule loaded_miss)
  have w1: "wf_cache ?pf (last states) c1" using same_store_wf [OF s1] loaded_wf [OF l1] by blast
  have en: "c1 \<noteq> None" using miss_keeps_enabled [OF c(2) wrote(3) c(1)] .
  let ?k = "cache_key ?pf Format (sf_rel f) ?new c1" and ?c = "la_cache st'" and ?fs = "last states"
  have put: "cache_view ?pf ?fs ?c ?k = Some (clean_outcome out)" "wf_cache ?pf ?fs ?c"
    using cache_put_spec [OF w1 run(3)] en enc wrote(5)
    by (simp_all add: c' out clean_outcome_def)
  obtain c2 where t: "try_stamp ?pf ?fs (lookup_stamp ?pf (read_source run ?fs (sf_abs f)) Format (sf_rel f) ?c) ?c = (None, c2)"
    using nostamp fs' by (metis prod.collapse)
  from try_stamp_spec(1) [OF put(2) t] have s2: "same_store ?pf ?fs ?c c2" .
  have key: "cache_key ?pf Format (sf_rel f) ?new c2 = ?k"
    using s2 put_keeps_config by (intro config_keeps_key) (simp add: same_store_def c')
  have bytes: "sv_bytes (read_source run ?fs (sf_abs f)) = Inr ?new"
    using replace_last(1) [OF run(2) a] \<open>ok\<close> by (simp add: read_source_def)
  let ?fr = "fresh_of ?pf Format (sf_rel f)
      (lookup_stamp ?pf (read_source run ?fs (sf_abs f)) Format (sf_rel f) ?c) ?new c2"
  obtain r c3 where rc: "read_content ?pf ?fs ?fr c2 = (r, c3)" by fastforce
  have "r = Inr (Hit (clean_outcome out))"
    using read_content_spec(2) [OF same_store_wf [OF s2] rc] put(1) s2 key
    by (simp add: same_store_def fresh_of_def)
  then have "cache_read ?pf ?fs (read_source run ?fs (sf_abs f)) Format (sf_rel f) ?c = (Inr (Hit (clean_outcome out)), c3)"
    using rc bytes by (simp add: cache_read_def t Let_def)
  then show ?thesis
    using run(1) by (simp add: process_def process_inner_def fs' tick_def Let_def)
qed

text \<open>
  C30: A file the format mode rewrote is settled: whatever the formatter would make of its own output,
  the next run over the file answers from the cache, with the outcome of the rewrite (its remaining lint
  findings and scores) marked unchanged, and writes nothing, unless a stamp answers first.
\<close>

theorem rewritten_file_is_skipped:
  assumes "rn_mode run = Format" "rn_tmp run (sf_abs f) \<noteq> sf_abs f" "codec_ok (rn_platform run)"
    and "la_cache st \<noteq> None" "wf_cache (rn_platform run) (la_files st) (la_cache st)"
    and "process run f st = (Some out, st')" "la_files st' (sf_abs f) \<noteq> la_files st (sf_abs f)"
    and "pf_encode (rn_platform run) (wire_of_outcome (clean_outcome out)) \<noteq> None"
    and "fst (try_stamp (rn_platform run) (la_files st') (lookup_stamp (rn_platform run)
        (read_source run (la_files st') (sf_abs f)) Format (sf_rel f) (la_cache st')) (la_cache st')) = None"
  shows "fst (process run f st') = Some (clean_outcome out) \<and> la_files (snd (process run f st')) = la_files st'"
  using assms by (rule rewritten_hit)

definition sample_script :: sourcefile where
  "sample_script = \<lparr>sf_rel = ''a.ts'', sf_abs = ''/r/a.ts'', sf_lang = Ts\<rparr>"

definition sample_formatters :: formatters where
  "sample_formatters =
     \<lparr>fs_host = (\<lambda>_ _ _ _. Panicked None),
      fs_source = (\<lambda>_ _ _ _ _. Returned (Inr \<lparr>fd_output = ''y'', fd_applied = [''format''], fd_complexity = []\<rparr>)),
      fs_score = (\<lambda>_ _ _. Returned (Inr []))\<rparr>"

definition sample_os_ok :: os_oracle where
  "sample_os_ok = \<lparr>os_mkdir = True, os_create = True, os_write = True, os_written = 0, os_permissions = True,
     os_rename = True, os_remove = True\<rparr>"

definition sample_lane_run :: "mode \<Rightarrow> run" where
  "sample_lane_run m =
     \<lparr>rn_config = default_config, rn_mode = m, rn_linter = None, rn_formatters = sample_formatters,
      rn_platform = sample_platform sample_stored, rn_metadata = (\<lambda>_. None), rn_read_error = (\<lambda>_. ''gone''),
      rn_write_error = (\<lambda>_. ''full''), rn_os = (\<lambda>_. sample_os_ok), rn_tmp = (\<lambda>p. p @ ''.tmp''),
      rn_permissions = (\<lambda>_. True)\<rparr>"

definition sample_lane_state :: lane_state where
  "sample_lane_state = \<lparr>la_cache = sample_opened, la_files = [''/r/a.ts'' \<mapsto> ''x''], la_done = 0\<rparr>"

lemma sample_run_simps:
  "rn_config (sample_lane_run m) = default_config" "rn_mode (sample_lane_run m) = m" "rn_linter (sample_lane_run m) = None"
  "rn_formatters (sample_lane_run m) = sample_formatters" "rn_platform (sample_lane_run m) = sample_platform sample_stored"
  "rn_metadata (sample_lane_run m) p = None" "rn_os (sample_lane_run m) p = sample_os_ok" "rn_tmp (sample_lane_run m) p = p @ ''.tmp''"
  "rn_permissions (sample_lane_run m) p" "la_cache sample_lane_state = sample_opened"
  "la_files sample_lane_state = [''/r/a.ts'' \<mapsto> ''x'']"
  "sf_rel sample_script = ''a.ts''" "sf_abs sample_script = ''/r/a.ts''" "sf_lang sample_script = Ts"
  by (simp_all add: sample_lane_run_def sample_lane_state_def sample_script_def)

lemma sample_first_read: "\<exists>c. cache_read (sample_platform sample_stored) [''/r/a.ts'' \<mapsto> ''x'']
     (read_source (sample_lane_run Format) [''/r/a.ts'' \<mapsto> ''x''] ''/r/a.ts'') Format ''a.ts'' sample_opened =
   (Inr (Miss sample_fresh), c)"
  by (simp add: cache_read_def sample_lane_run_def sample_lane_state_def sample_opened_path read_source_def
      lookup_stamp_def stamp_of_def try_stamp_def read_content_def cache_get_def force_tables_def empty_tables_def
      lookup_shard_empty Let_def cache_simps fresh_of_def cache_key_def sample_fresh_def sample_platform_def tables_load_def)

lemma sample_transform:
  "transform sample_formatters default_config None Format rel Ts ''x'' s =
     Returned (Inr \<lparr>pr_output = ''y'', pr_applied = [''format''], pr_outcome = file_outcome_new rel (Some Ts)\<rparr>)"
  by (simp add: transform_def first_lint_def run_format_def final_lint_def sample_formatters_def
    is_host_def file_outcome_new_def)

lemma sample_text: "is_generated ''x'' = False" "valid_utf8 ''x''"
proof -
  have "line_effect 0 ''x'' = Code" "str_lines ''x'' = [''x'']" by code_simp+
  moreover have "strip_prefix BOM ''x'' = None"
    by (auto simp: BOM_def strip_prefix_def bytes_def dest!: prefix_length_le)
  ultimately show "is_generated ''x'' = False" "valid_utf8 ''x''"
    by (simp_all add: is_generated_def is_marker_def GEN_PREFIX_def byte_in_def valid_utf8.simps(2))
qed

lemma sample_first_run:
  "\<exists>st. process (sample_lane_run Format) sample_script sample_lane_state =
     (Some (sample_outcome\<lparr>o_changed := True, o_applied := [''format'']\<rparr>), st) \<and> la_files st ''/r/a.ts'' = Some ''y''"
proof -
  obtain c where c: "cache_read (sample_platform sample_stored) [''/r/a.ts'' \<mapsto> ''x'']
     (read_source (sample_lane_run Format) [''/r/a.ts'' \<mapsto> ''x''] ''/r/a.ts'') Format ''a.ts'' sample_opened =
   (Inr (Miss sample_fresh), c)" using sample_first_read by blast
  have e: "is_generated ''x'' = False" "valid_utf8 ''x''" "f_bytes sample_fresh = ''x''"
    by (simp_all add: sample_text sample_fresh_def)
  have o: "file_outcome_new ''a.ts'' (Some Ts) = sample_outcome" by (simp add: sample_outcome_def file_outcome_new_def)
  show ?thesis
    by (simp add: process_def process_inner_def settle_output_def Let_def sample_run_simps c sample_transform e o
        del: valid_utf8.simps)
      (simp add: sample_outcome_def file_outcome_new_def atomic_replace_def sample_os_ok_def tick_def sample_run_simps)
qed
theorem rewritten_file_is_skipped_witness:
  "let run = sample_lane_run Format; st' = snd (process run sample_script sample_lane_state)
   in la_files st' ''/r/a.ts'' = Some ''y'' \<and> fst (process run sample_script st') = Some sample_outcome"
proof -
  let ?run = "sample_lane_run Format" and ?r = "process (sample_lane_run Format) sample_script sample_lane_state"
  have r: "?r = (Some (sample_outcome\<lparr>o_changed := True, o_applied := [''format'']\<rparr>), snd ?r)"
    and y: "la_files (snd ?r) ''/r/a.ts'' = Some ''y''" using sample_first_run by auto
  have clean: "clean_outcome (sample_outcome\<lparr>o_changed := True, o_applied := [''format'']\<rparr>) = sample_outcome"
    by (simp add: clean_outcome_def sample_outcome_def file_outcome_new_def)
  have "fst (process ?run sample_script (snd ?r)) = Some (clean_outcome (sample_outcome\<lparr>o_changed := True, o_applied := [''format'']\<rparr>))"
  proof (rule rewritten_file_is_skipped [OF _ _ _ _ _ r, THEN conjunct1])
    show "rn_mode ?run = Format" "rn_tmp ?run (sf_abs sample_script) \<noteq> sf_abs sample_script"
      "codec_ok (rn_platform ?run)" "la_cache sample_lane_state \<noteq> None"
      by (simp_all add: sample_lane_run_def sample_script_def sample_codec_ok sample_lane_state_def sample_opened_path)
    show "wf_cache (rn_platform ?run) (la_files sample_lane_state) (la_cache sample_lane_state)"
      by (simp add: wf_cache_def cache_simps sample_lane_state_def sample_opened_path force_tables_def)
    show "la_files (snd ?r) (sf_abs sample_script) \<noteq> la_files sample_lane_state (sf_abs sample_script)"
      using y by (simp add: sample_script_def sample_lane_state_def)
    show "pf_encode (rn_platform ?run) (wire_of_outcome (clean_outcome (sample_outcome\<lparr>o_changed := True,
        o_applied := [''format'']\<rparr>))) \<noteq> None"
      by (simp add: clean sample_lane_run_def sample_platform_def)
    show "fst (try_stamp (rn_platform ?run) (la_files (snd ?r)) (lookup_stamp (rn_platform ?run)
        (read_source ?run (la_files (snd ?r)) (sf_abs sample_script)) Format (sf_rel sample_script) (la_cache (snd ?r)))
        (la_cache (snd ?r))) = None"
      by (auto simp: lookup_stamp_def read_source_def sample_lane_run_def stamp_of_def try_stamp_def split: option.split)
  qed
  with y clean show ?thesis by (simp add: Let_def)
qed

end
