(* ===== verification/GoLane.thy ===== *)
theory GoLane imports
  ScriptLane
  Proto
begin

text \<open>
  \<^verbatim>\<open>crates/engine/src/go_lane.rs\<close>: every Go file is looked up in the cache, the misses are sent to the
  helper process, and the replies are collected in order. The helper is an argument: what starting it,
  each request and stopping it answer.
\<close>

section \<open>The lane\<close>

record go_helper =
  gh_spawn :: "go_error option"
  gh_submit :: "request \<Rightarrow> go_error option"
  gh_wait :: "request \<Rightarrow> go_error + reply"
  gh_shutdown :: "go_error option"

datatype go_pending =
    GoDone "file_outcome option"
  | GoRead sourcefile fresh
  | GoWaiting sourcefile fresh request

definition go_steps :: "config \<Rightarrow> string \<Rightarrow> steps" where
  "go_steps c p =
     \<lparr>st_spacing = gc_spacing (cf_go c), st_gofmt = gc_gofmt (cf_go c), st_goimports = gc_goimports (cf_go c),
      st_resolve_imports = gc_resolve_imports (cf_go c), st_complexity = (\<not> is_test_file p)\<rparr>"

definition no_steps :: steps where
  "no_steps = \<lparr>st_spacing = False, st_gofmt = False, st_goimports = False, st_resolve_imports = False, st_complexity = False\<rparr>"

definition go_request :: "run \<Rightarrow> sourcefile \<Rightarrow> fresh \<Rightarrow> request" where
  "go_request run f fr =
     \<lparr>rq_rel = sf_rel f, rq_abs = sf_abs f, rq_source = f_bytes fr, rq_steps = go_steps (rn_config run) (sf_abs f)\<rparr>"

definition rescore_request :: "sourcefile \<Rightarrow> fresh \<Rightarrow> request" where
  "rescore_request f fr =
     \<lparr>rq_rel = sf_rel f, rq_abs = sf_abs f, rq_source = f_bytes fr, rq_steps = no_steps\<lparr>st_complexity := True\<rparr>\<rparr>"

definition go_read :: "run \<Rightarrow> sourcefile \<Rightarrow> lane_state \<Rightarrow> go_pending \<times> lane_state" where
  "go_read run f st =
     (case cache_read (rn_platform run) (la_files st) (read_source run (la_files st) (sf_abs f)) (rn_mode run)
         (sf_rel f) (la_cache st) of
        (r, c) \<Rightarrow>
          ((case r of
              Inr (Hit out) \<Rightarrow> GoDone (Some out)
            | Inl e \<Rightarrow> GoDone (Some (file_outcome_failed (sf_rel f) (Some Go) (''read: '' @ e)))
            | Inr (Miss fr) \<Rightarrow>
                if valid_utf8 (f_bytes fr) \<and> is_generated (f_bytes fr) then GoDone None else GoRead f fr),
           st\<lparr>la_cache := c\<rparr>))"

fun go_read_all :: "run \<Rightarrow> sourcefile list \<Rightarrow> lane_state \<Rightarrow> go_pending list \<times> lane_state" where
  "go_read_all run [] st = ([], st)"
| "go_read_all run (f # fs) st =
     (case go_read run f st of (item, st1) \<Rightarrow> (case go_read_all run fs st1 of (items, st2) \<Rightarrow> (item # items, st2)))"

fun is_read :: "go_pending \<Rightarrow> bool" where
  "is_read (GoRead f fr) \<longleftrightarrow> True"
| "is_read _ \<longleftrightarrow> False"

fun go_submit :: "run \<Rightarrow> go_helper \<Rightarrow> go_pending \<Rightarrow> go_error + go_pending" where
  "go_submit run gh (GoRead f fr) =
     (let q = go_request run f fr in
      case gh_submit gh q of Some e \<Rightarrow> Inl e | None \<Rightarrow> Inr (GoWaiting f fr q))"
| "go_submit run gh item = Inr item"

text \<open>Collecting into a result stops at an error; with several, here at the first.\<close>

fun go_submit_all :: "run \<Rightarrow> go_helper \<Rightarrow> go_pending list \<Rightarrow> go_error + go_pending list" where
  "go_submit_all run gh [] = Inr []"
| "go_submit_all run gh (item # items) =
     (case go_submit run gh item of
        Inl e \<Rightarrow> Inl e
      | Inr i \<Rightarrow> (case go_submit_all run gh items of Inl e \<Rightarrow> Inl e | Inr is \<Rightarrow> Inr (i # is)))"

definition go_clean :: "file_outcome \<Rightarrow> file_outcome" where
  "go_clean out = out\<lparr>o_applied := [], o_changed := False, o_violations := []\<rparr>"

definition go_outcome_of :: "sourcefile \<Rightarrow> fresh \<Rightarrow> reply \<Rightarrow> file_outcome" where
  "go_outcome_of f fr rep =
     (file_outcome_new (sf_rel f) (Some Go))\<lparr>o_changed := (rp_output rep \<noteq> f_bytes fr), o_applied := rp_applied rep,
        o_violations := rp_violations rep, o_complexity := rp_complexity rep\<rparr>"

definition go_finish :: "run \<Rightarrow> sourcefile \<Rightarrow> fresh \<Rightarrow> reply \<Rightarrow> lane_state \<Rightarrow> file_outcome \<times> lane_state" where
  "go_finish run f fr rep st =
     (case rp_error rep of
        Some e \<Rightarrow> ((file_outcome_new (sf_rel f) (Some Go))\<lparr>o_error := Some e\<rparr>, st)
      | None \<Rightarrow>
          let out = go_outcome_of f fr rep; pf = rn_platform run in
          if \<not> o_changed out
          then (out, st\<lparr>la_cache := put_fresh pf (la_files st) fr out (la_cache st)\<rparr>)
          else if rn_mode run = Format
          then (case atomic_replace (rn_os run (sf_abs f)) (rn_permissions run (sf_abs f)) (rn_tmp run (sf_abs f))
                  (sf_abs f) (rp_output rep) (la_files st) of
                (states, ok) \<Rightarrow>
                  let st1 = st\<lparr>la_files := last states\<rparr> in
                  if \<not> ok then (out\<lparr>o_error := Some (''write: '' @ rn_write_error run (sf_abs f))\<rparr>, st1)
                  else (out, st1\<lparr>la_cache := cache_put pf (la_files st1)
                    (cache_key pf (rn_mode run) (sf_rel f) (rp_output rep) (la_cache st1)) (go_clean out) (la_cache st1)\<rparr>))
          else (out, st))"

type_synonym rescores = "(nat \<times> fresh \<times> request) list"

text \<open>What follows a reply: a changed file of a check run is scored again on the text on disk.\<close>

definition go_recheck :: "run \<Rightarrow> go_helper \<Rightarrow> bool \<Rightarrow> sourcefile \<Rightarrow> fresh \<Rightarrow> file_outcome \<Rightarrow> nat \<Rightarrow> lane_state \<Rightarrow>
    (go_error + rescores) \<times> lane_state" where
  "go_recheck run gh started f fr out at st =
     (if rn_mode run = Check \<and> o_changed out \<and> o_error out = None
      then if started \<and> o_complexity out \<noteq> []
        then (case gh_submit gh (rescore_request f fr) of
                Some e \<Rightarrow> (Inl e, st)
              | None \<Rightarrow> (Inr [(at, fr\<lparr>f_bytes := []\<rparr>, rescore_request f fr)], st))
        else (Inr [], st\<lparr>la_cache := put_fresh (rn_platform run) (la_files st) fr out (la_cache st)\<rparr>)
      else (Inr [], st))"

fun go_collect_items :: "run \<Rightarrow> go_helper \<Rightarrow> bool \<Rightarrow> go_pending list \<Rightarrow> file_outcome list \<Rightarrow> rescores \<Rightarrow> lane_state \<Rightarrow>
    (go_error + file_outcome list \<times> rescores) \<times> lane_state" where
  "go_collect_items run gh started [] outs rescores st = (Inr (outs, rescores), st)"
| "go_collect_items run gh started (GoDone out # items) outs rescores st =
     go_collect_items run gh started items (outs @ option_list out) rescores (tick st)"
| "go_collect_items run gh started (GoRead f fr # items) outs rescores st =
     go_collect_items run gh started items outs rescores (tick st)"
| "go_collect_items run gh started (GoWaiting f fr q # items) outs rescores st =
     (case gh_wait gh q of
        Inl e \<Rightarrow> (Inl e, st)
      | Inr rep \<Rightarrow>
          (case go_finish run f fr rep st of (out, st1) \<Rightarrow>
            (case go_recheck run gh started f fr out (length outs) st1 of
               (Inl e, st2) \<Rightarrow> (Inl e, st2)
             | (Inr again, st2) \<Rightarrow>
                 go_collect_items run gh started items (outs @ [out]) (rescores @ again) (tick st2))))"

fun go_rescore :: "run \<Rightarrow> go_helper \<Rightarrow> rescores \<Rightarrow> file_outcome list \<Rightarrow> lane_state \<Rightarrow>
    (go_error + file_outcome list) \<times> lane_state" where
  "go_rescore run gh [] outs st = (Inr outs, st)"
| "go_rescore run gh ((at, fr, q) # again) outs st =
     (case gh_wait gh q of
        Inl e \<Rightarrow> (Inl e, st)
      | Inr rep \<Rightarrow>
          if rp_error rep = None
          then let outs1 = outs[at := (outs ! at)\<lparr>o_complexity := rp_complexity rep\<rparr>] in
            go_rescore run gh again outs1
              (st\<lparr>la_cache := put_fresh (rn_platform run) (la_files st) fr (outs1 ! at) (la_cache st)\<rparr>)
          else go_rescore run gh again outs st)"

definition go_collect :: "run \<Rightarrow> go_helper \<Rightarrow> bool \<Rightarrow> go_pending list \<Rightarrow> lane_state \<Rightarrow>
    (go_error + file_outcome list) \<times> lane_state" where
  "go_collect run gh started items st =
     (case go_collect_items run gh started items [] [] st of
        (Inl e, st1) \<Rightarrow> (Inl e, st1)
      | (Inr (outs, rescores), st1) \<Rightarrow> go_rescore run gh rescores outs st1)"

definition go_process :: "run \<Rightarrow> go_helper \<Rightarrow> sourcefile list \<Rightarrow> lane_state \<Rightarrow>
    (go_error + file_outcome list) \<times> lane_state" where
  "go_process run gh fs st =
     (case go_read_all run fs st of
        (read, st1) \<Rightarrow>
          if \<not> list_ex is_read read then go_collect run gh False read st1
          else case gh_spawn gh of
            Some e \<Rightarrow> (Inl e, st1)
          | None \<Rightarrow>
              (case go_submit_all run gh read of
                 Inl e \<Rightarrow> (Inl e, st1)
               | Inr pending \<Rightarrow>
                   (case go_collect run gh True pending st1 of
                      (Inl e, st2) \<Rightarrow> (Inl e, st2)
                    | (Inr outs, st2) \<Rightarrow>
                        (case gh_shutdown gh of Some e \<Rightarrow> (Inl e, st2) | None \<Rightarrow> (Inr outs, st2)))))"

text \<open>\<open>format_one\<close>\<close>

definition go_format_one :: "go_helper \<Rightarrow> config \<Rightarrow> string \<Rightarrow> string \<Rightarrow> string \<Rightarrow> go_error + reply" where
  "go_format_one gh c rel p source =
     (let q = \<lparr>rq_rel = rel, rq_abs = p, rq_source = source, rq_steps = (go_steps c p)\<lparr>st_complexity := False\<rparr>\<rparr> in
      case gh_submit gh q of Some e \<Rightarrow> Inl e | None \<Rightarrow> gh_wait gh q)"

section \<open>What each file gets\<close>

text \<open>
  The outcome of a file from its own bytes and the answers to its own requests: what the pipelined
  lane has to agree with.
\<close>

definition replace_ok :: "run \<Rightarrow> sourcefile \<Rightarrow> bool" where
  "replace_ok run f =
     (let os = rn_os run (sf_abs f) in
      os_create os \<and> os_write os \<and> (rn_permissions run (sf_abs f) \<longrightarrow> os_permissions os) \<and> os_rename os)"

definition go_verdict :: "run \<Rightarrow> sourcefile \<Rightarrow> fresh \<Rightarrow> reply \<Rightarrow> file_outcome" where
  "go_verdict run f fr rep =
     (case rp_error rep of
        Some e \<Rightarrow> (file_outcome_new (sf_rel f) (Some Go))\<lparr>o_error := Some e\<rparr>
      | None \<Rightarrow>
          let out = go_outcome_of f fr rep in
          if o_changed out \<and> rn_mode run = Format \<and> \<not> replace_ok run f
          then out\<lparr>o_error := Some (''write: '' @ rn_write_error run (sf_abs f))\<rparr> else out)"

definition needs_rescore :: "run \<Rightarrow> file_outcome \<Rightarrow> bool" where
  "needs_rescore run out \<longleftrightarrow> rn_mode run = Check \<and> o_changed out \<and> o_error out = None \<and> o_complexity out \<noteq> []"

definition go_final :: "run \<Rightarrow> go_helper \<Rightarrow> sourcefile \<Rightarrow> fresh \<Rightarrow> file_outcome \<Rightarrow> file_outcome" where
  "go_final run gh f fr out =
     (if needs_rescore run out
      then case gh_wait gh (rescore_request f fr) of
          Inr rep \<Rightarrow> if rp_error rep = None then out\<lparr>o_complexity := rp_complexity rep\<rparr> else out
        | Inl _ \<Rightarrow> out
      else out)"

fun go_result :: "run \<Rightarrow> go_helper \<Rightarrow> go_pending \<Rightarrow> file_outcome list" where
  "go_result run gh (GoDone out) = option_list out"
| "go_result run gh (GoRead f fr) =
     (case gh_wait gh (go_request run f fr) of Inr rep \<Rightarrow> [go_final run gh f fr (go_verdict run f fr rep)] | Inl _ \<Rightarrow> [])"
| "go_result run gh (GoWaiting f fr q) =
     (case gh_wait gh q of Inr rep \<Rightarrow> [go_final run gh f fr (go_verdict run f fr rep)] | Inl _ \<Rightarrow> [])"

section \<open>The two phases\<close>

lemma replace_ok_iff:
  "atomic_replace (rn_os run (sf_abs f)) (rn_permissions run (sf_abs f)) tmp target data fs = (states, ok) \<Longrightarrow>
     ok = replace_ok run f"
  by (auto simp: atomic_replace_def replace_ok_def Let_def split: if_splits)

lemma go_finish_verdict: "fst (go_finish run f fr rep st) = go_verdict run f fr rep"
proof -
  obtain states ok where a: "atomic_replace (rn_os run (sf_abs f)) (rn_permissions run (sf_abs f)) (rn_tmp run (sf_abs f))
      (sf_abs f) (rp_output rep) (la_files st) = (states, ok)" by fastforce
  from replace_ok_iff [OF a] show ?thesis by (simp add: go_finish_def go_verdict_def Let_def a split: option.split)
qed

text \<open>What the first loop leaves for the second.\<close>

fun go_first :: "run \<Rightarrow> go_helper \<Rightarrow> go_pending \<Rightarrow> file_outcome list" where
  "go_first run gh (GoWaiting f fr q) =
     (case gh_wait gh q of Inr rep \<Rightarrow> [go_verdict run f fr rep] | Inl _ \<Rightarrow> [])"
| "go_first run gh (GoDone out) = option_list out"
| "go_first run gh (GoRead f fr) = []"

fun go_second :: "run \<Rightarrow> go_helper \<Rightarrow> nat \<Rightarrow> go_pending list \<Rightarrow> rescores" where
  "go_second run gh n [] = []"
| "go_second run gh n (GoWaiting f fr q # items) =
     (case gh_wait gh q of
        Inl _ \<Rightarrow> []
      | Inr rep \<Rightarrow>
          (if needs_rescore run (go_verdict run f fr rep) then [(n, fr\<lparr>f_bytes := []\<rparr>, rescore_request f fr)] else []) @
          go_second run gh (Suc n) items)"
| "go_second run gh n (GoDone out # items) = go_second run gh (n + length (option_list out)) items"
| "go_second run gh n (GoRead f fr # items) = go_second run gh n items"

lemma go_recheck_True:
  "go_recheck run gh True f fr out at st = (Inr again, st') \<Longrightarrow>
     again = (if needs_rescore run out then [(at, fr\<lparr>f_bytes := []\<rparr>, rescore_request f fr)] else [])"
  by (auto simp: go_recheck_def needs_rescore_def split: if_splits option.splits)

lemma go_collect_first:
  assumes "go_collect_items run gh True items outs rescores st = (Inr (outs', rescores'), st')"
  shows "outs' = outs @ concat (map (go_first run gh) items) \<and>
    rescores' = rescores @ go_second run gh (length outs) items \<and>
    list_all (\<lambda>i. case i of GoWaiting f fr q \<Rightarrow> \<exists>rep. gh_wait gh q = Inr rep | _ \<Rightarrow> True) items"
  using assms
proof (induction run gh True items outs rescores st rule: go_collect_items.induct)
  case (4 run gh f fr q items outs rescores st)
  from "4.prems" obtain rep out st1 again st2 where s: "gh_wait gh q = Inr rep"
      "go_finish run f fr rep st = (out, st1)" "go_recheck run gh True f fr out (length outs) st1 = (Inr again, st2)"
      "go_collect_items run gh True items (outs @ [out]) (rescores @ again) (tick st2) = (Inr (outs', rescores'), st')"
    by (auto split: sum.splits prod.splits)
  from s(2) have "out = go_verdict run f fr rep" using go_finish_verdict by (metis fst_conv)
  with "4.hyps" [OF s(1) s(2) [symmetric] s(3) [symmetric] refl s(4)] s(1) go_recheck_True [OF s(3)]
  show ?case by auto
qed auto

lemma go_rescore_final:
  assumes "go_rescore run gh (go_second run gh (length pre) items) (pre @ concat (map (go_first run gh) items)) st =
      (Inr outs, st')"
    and "list_all (\<lambda>i. case i of GoWaiting f fr q \<Rightarrow> \<exists>rep. gh_wait gh q = Inr rep | _ \<Rightarrow> True) items"
    and "\<not> list_ex is_read items"
  shows "outs = pre @ concat (map (go_result run gh) items)"
  using assms
proof (induction items arbitrary: pre st)
  case (Cons item items)
  show ?case
  proof (cases item)
    case (GoDone out)
    with Cons.prems Cons.IH [of "pre @ option_list out"] show ?thesis by simp
  next
    case (GoWaiting f fr q)
    with Cons.prems(2) obtain rep where w: "gh_wait gh q = Inr rep" by auto
    let ?v = "go_verdict run f fr rep"
    show ?thesis
    proof (cases "needs_rescore run ?v")
      case False
      with Cons.prems GoWaiting w Cons.IH [of "pre @ [?v]"] show ?thesis by (simp add: go_final_def)
    next
      case True
      with Cons.prems(1) GoWaiting w obtain rep' where w': "gh_wait gh (rescore_request f fr) = Inr rep'"
        by (cases "gh_wait gh (rescore_request f fr)") auto
      with True GoWaiting w Cons.prems Cons.IH [of "pre @ [?v]"]
        Cons.IH [of "pre @ [?v\<lparr>o_complexity := rp_complexity rep'\<rparr>]"]
      show ?thesis by (auto simp: go_final_def Let_def list_update_append nth_append split: if_splits)
    qed
  qed (use Cons.prems in simp)
qed simp

lemma go_submit_results:
  "go_submit_all run gh items = Inr pending \<Longrightarrow>
     map (go_result run gh) pending = map (go_result run gh) items \<and> \<not> list_ex is_read pending"
proof (induction items arbitrary: pending)
  case (Cons item items)
  then obtain i is' where "go_submit run gh item = Inr i" "go_submit_all run gh items = Inr is'" "pending = i # is'"
    by (auto split: sum.splits)
  with Cons.IH [of is'] show ?case by (cases item) (auto simp: Let_def split: option.splits)
qed simp

lemma go_collect_result:
  assumes "go_collect run gh True items st = (Inr outs, st')" "\<not> list_ex is_read items"
  shows "outs = concat (map (go_result run gh) items)"
proof -
  from assms(1) obtain o1 rs st1 where c: "go_collect_items run gh True items [] [] st = (Inr (o1, rs), st1)"
      "go_rescore run gh rs o1 st1 = (Inr outs, st')"
    by (auto simp: go_collect_def split: prod.splits sum.splits)
  from go_collect_first [OF c(1)] c(2) go_rescore_final [of run gh "[]" items st1 outs st'] assms(2)
  show ?thesis by simp
qed

lemma go_collect_started:
  "list_all (\<lambda>i. case i of GoWaiting f fr q \<Rightarrow> False | _ \<Rightarrow> True) items \<Longrightarrow>
     go_collect_items run gh started items outs rs st = go_collect_items run gh True items outs rs st"
  by (induction run gh started items outs rs st rule: go_collect_items.induct) auto

lemma go_read_not_waiting:
  "list_all (\<lambda>i. case i of GoWaiting f fr q \<Rightarrow> False | _ \<Rightarrow> True) (fst (go_read_all run fs st))"
proof (induction fs arbitrary: st)
  case (Cons f fs)
  have "case fst (go_read run f st) of GoWaiting f fr q \<Rightarrow> False | _ \<Rightarrow> True"
    by (simp add: go_read_def split: prod.split sum.split lookup.split)
  with Cons show ?case by (simp add: case_prod_unfold)
qed simp

lemma go_process_result:
  assumes "go_process run gh fs st = (Inr outs, st')"
  shows "outs = concat (map (go_result run gh) (fst (go_read_all run fs st)))"
proof -
  obtain items st1 where r: "go_read_all run fs st = (items, st1)" by fastforce
  show ?thesis
  proof (cases "list_ex is_read items")
    case False
    have "list_all (\<lambda>i. case i of GoWaiting f fr q \<Rightarrow> False | _ \<Rightarrow> True) items"
      using go_read_not_waiting [of run fs st] r by simp
    from go_collect_started [OF this, of run gh False] assms r False have "go_collect run gh True items st1 = (Inr outs, st')"
      by (simp add: go_process_def go_collect_def)
    from go_collect_result [OF this False] r show ?thesis by simp
  next
    case True
    with assms r obtain pending st2 where p: "go_submit_all run gh items = Inr pending"
        "go_collect run gh True pending st1 = (Inr outs, st2)"
      by (auto simp: go_process_def split: option.splits sum.splits prod.splits)
    from go_submit_results [OF p(1)] go_collect_result [OF p(2)] r show ?thesis by (metis fst_conv)
  qed
qed

section \<open>Check mode\<close>

lemma go_read_files: "la_files (snd (go_read_all run fs st)) = la_files st"
  by (induction fs arbitrary: st) (simp_all add: go_read_def case_prod_unfold)

lemma go_finish_files: "rn_mode run = Check \<Longrightarrow> la_files (snd (go_finish run f fr rep st)) = la_files st"
  by (simp add: go_finish_def Let_def split: option.split)

lemma go_recheck_files: "la_files (snd (go_recheck run gh started f fr out n st)) = la_files st"
  by (simp add: go_recheck_def split: option.split)

lemma go_collect_items_files:
  "rn_mode run = Check \<Longrightarrow> la_files (snd (go_collect_items run gh started items outs rs st)) = la_files st"
proof (induction run gh started items outs rs st rule: go_collect_items.induct)
  case (4 run gh started f fr q items outs rescores st)
  show ?case
  proof (cases "gh_wait gh q")
    case (Inr rep)
    obtain out st1 where f: "go_finish run f fr rep st = (out, st1)" by fastforce
    obtain r st2 where g: "go_recheck run gh started f fr out (length outs) st1 = (r, st2)" by fastforce
    have "la_files st2 = la_files st"
      using go_finish_files [OF "4.prems", of f fr rep st] go_recheck_files [of run gh started f fr out "length outs" st1]
      by (simp add: f g)
    with 4 Inr f g show ?thesis by (cases r) (simp_all add: tick_def)
  qed simp
qed (simp_all add: tick_def)

lemma go_rescore_files: "la_files (snd (go_rescore run gh rs outs st)) = la_files st"
  by (induction run gh rs outs st rule: go_rescore.induct) (simp_all add: Let_def split: sum.split)

lemma go_collect_files: "rn_mode run = Check \<Longrightarrow> la_files (snd (go_collect run gh started items st)) = la_files st"
  using go_collect_items_files [of run gh started items "[]" "[]" st] go_rescore_files
  by (auto simp: go_collect_def split: prod.split sum.split)

lemma go_collect_files': "go_collect run gh started items st = (r, st') \<Longrightarrow> rn_mode run = Check \<Longrightarrow> la_files st' = la_files st"
  using go_collect_files [of run gh started items st] by simp

lemma go_check_keeps_files: "rn_mode run = Check \<Longrightarrow> la_files (snd (go_process run gh fs st)) = la_files st"
  using go_read_files [of run fs st] go_collect_files
  by (auto simp: go_process_def dest!: go_collect_files' split: prod.split sum.split option.split)

section \<open>Properties\<close>

text \<open>
  C25: The pipelined Go lane gives every file the outcome it would get alone: whatever the cache
  answered and however many files are generated, the outcomes come in the order of the files, each from
  the file's own bytes and the replies to its own requests; in particular a second scoring lands on the
  file it was asked for.
\<close>

theorem go_lane_is_per_file:
  assumes "go_process run gh fs st = (Inr outs, st')"
  shows "outs = concat (map (go_result run gh) (fst (go_read_all run fs st)))"
  using assms by (rule go_process_result)

text \<open>
  C33: Check mode writes nothing: neither lane changes any file, whatever the linter, the formatters and
  the helper do, whether files fail, panic or the helper dies midway.
\<close>

theorem check_mode_writes_nothing:
  assumes "rn_mode run = Check"
  shows "la_files (snd (process_all run fs st)) = la_files st \<and>
    la_files (snd (go_process run gh gs st)) = la_files st"
  using assms by (simp add: check_keeps_all_files go_check_keeps_files)

definition sample_go_file :: sourcefile where
  "sample_go_file = \<lparr>sf_rel = ''a.go'', sf_abs = ''/r/a.go'', sf_lang = Go\<rparr>"

definition sample_score :: "u32 \<Rightarrow> complexity_score" where
  "sample_score n = \<lparr>s_key = ''a.go#f'', s_name = ''f'', s_line = n, s_cyclomatic = 1, s_cognitive = 0\<rparr>"

text \<open>A helper that formats everything to \<open>y\<close> and finds the function on another line there.\<close>

definition sample_go_helper :: go_helper where
  "sample_go_helper =
     \<lparr>gh_spawn = None, gh_submit = (\<lambda>_. None),
      gh_wait = (\<lambda>q. Inr \<lparr>rp_output = ''y'', rp_applied = [], rp_violations = [],
        rp_complexity = [sample_score (if st_gofmt (rq_steps q) then 7 else 3)], rp_error = None\<rparr>),
      gh_shutdown = None\<rparr>"

lemma sample_helper_simps:
  "gh_spawn sample_go_helper = None" "gh_submit sample_go_helper q = None" "gh_shutdown sample_go_helper = None"
  "gh_wait sample_go_helper q = Inr \<lparr>rp_output = ''y'', rp_applied = [], rp_violations = [],
     rp_complexity = [sample_score (if st_gofmt (rq_steps q) then 7 else 3)], rp_error = None\<rparr>"
  by (simp_all add: sample_go_helper_def)

definition sample_go_state :: lane_state where
  "sample_go_state = \<lparr>la_cache = None, la_files = [''/r/a.go'' \<mapsto> ''x''], la_done = 0\<rparr>"

lemma sample_go_read:
  "go_read_all (sample_lane_run Check) [sample_go_file] sample_go_state =
     ([GoRead sample_go_file (fresh_of (sample_platform sample_stored) Check ''a.go'' None ''x'' None)], sample_go_state)"
  by (simp add: go_read_def sample_run_simps sample_go_file_def sample_go_state_def cache_read_def read_source_def
      try_stamp_def get_stamped_def read_content_def cache_get_def Let_def lookup_stamp_def sample_text fresh_of_def)

lemma sample_go_result:
  "go_result (sample_lane_run Check) sample_go_helper
     (GoRead sample_go_file (fresh_of (sample_platform sample_stored) Check ''a.go'' None ''x'' None)) =
   [(file_outcome_new ''a.go'' (Some Go))\<lparr>o_changed := True, o_complexity := [sample_score 3]\<rparr>]"
  by (simp add: sample_go_helper_def go_final_def needs_rescore_def go_verdict_def go_outcome_of_def sample_run_simps
      rescore_request_def go_request_def go_steps_def no_steps_def sample_go_file_def fresh_of_def file_outcome_new_def
      default_config_def default_go_def)

theorem go_lane_is_per_file_witness:
  "fst (go_process (sample_lane_run Check) sample_go_helper [sample_go_file] sample_go_state) =
     Inr [(file_outcome_new ''a.go'' (Some Go))\<lparr>o_changed := True, o_complexity := [sample_score 3]\<rparr>]"
proof -
  have "\<exists>outs st'. go_process (sample_lane_run Check) sample_go_helper [sample_go_file] sample_go_state = (Inr outs, st')"
    by (simp add: go_process_def sample_go_read go_collect_def go_finish_def go_recheck_def Let_def sample_helper_simps
        sample_run_simps go_outcome_of_def fresh_of_def del: go_read_all.simps)
  then obtain outs st' where p: "go_process (sample_lane_run Check) sample_go_helper [sample_go_file] sample_go_state = (Inr outs, st')"
    by blast
  from go_lane_is_per_file [OF p] p show ?thesis by (simp add: sample_go_read sample_go_result del: go_read_all.simps go_result.simps)
qed

theorem check_mode_writes_nothing_witness:
  "la_files (snd (process_all (sample_lane_run Check) [sample_script] sample_lane_state)) ''/r/a.ts'' = Some ''x''"
  using check_mode_writes_nothing [of "sample_lane_run Check" "[sample_script]" sample_lane_state sample_go_helper "[]"]
  by (simp add: sample_run_simps)

end
