(* ===== verification/Watching.thy ===== *)
theory Watching imports
  Walks
begin

text \<open>
  \<^verbatim>\<open>crates/discover/src/watch.rs\<close> with the Linux watcher of \<^verbatim>\<open>watch/inotify.rs\<close>: what a process that
  runs many times keeps about the paths that have not changed. The kernel is an argument: what adding
  a watch answers, and the events a drain reads. A hash map is a map, a hash set a list without
  repetition.
\<close>

section \<open>Paths\<close>

datatype watch_kind = WFile | WDir

text \<open>The directories above a path, from the root down.\<close>

definition watch_ancestors :: "string \<Rightarrow> string list" where
  "watch_ancestors rel = [] # map (\<lambda>i. take i rel) (filter (\<lambda>i. rel ! i = CHR ''/'') [0..<length rel])"

definition is_under :: "string \<Rightarrow> string \<Rightarrow> bool" where
  "is_under rel dir \<longleftrightarrow>
     dir = [] \<or> (case strip_prefix dir rel of None \<Rightarrow> False | Some rest \<Rightarrow> rest = [] \<or> prefix ''/'' rest)"

definition ruled :: "string \<Rightarrow> string option" where
  "ruled rel = (if rel = ''.gitignore'' then Some [] else strip_suffix ''/.gitignore'' rel)"

definition rules_of :: "string \<Rightarrow> string" where
  "rules_of rel = (if rel = [] then ''.gitignore'' else rel @ ''/.gitignore'')"

definition watch_directory :: "string \<Rightarrow> watch_kind \<Rightarrow> string" where
  "watch_directory rel kind =
     (case kind of
        WDir \<Rightarrow> rel
      | WFile \<Rightarrow> (case rsplit_once (CHR ''/'') rel of Some (dir, _) \<Rightarrow> dir | None \<Rightarrow> []))"

section \<open>The watcher\<close>

definition REPORTS :: nat where "REPORTS = 2048"

record touched =
  to_paths :: "string list"
  to_subtrees :: "string list"

definition no_touched :: touched where
  "no_touched = \<lparr>to_paths = [], to_subtrees = []\<rparr>"

definition touched_len :: "touched \<Rightarrow> nat" where
  "touched_len t = length (to_paths t) + length (to_subtrees t)"

text \<open>Watched directories with their watch descriptor and the run that added it.\<close>

record watcher =
  wt_dirs :: "string \<rightharpoonup> nat \<times> nat"
  wt_wds :: "nat \<rightharpoonup> string"
  wt_run :: nat

definition watcher_new :: watcher where
  "watcher_new = \<lparr>wt_dirs = Map.empty, wt_wds = Map.empty, wt_run = 0\<rparr>"

datatype add_watch = WatchAdded nat | WatchNoSpace | WatchNoMemory | WatchRefused

definition NOSPC_MESSAGE :: string where
  "NOSPC_MESSAGE = ''the inotify watch limit (fs.inotify.max_user_watches) is reached''"

definition NOMEM_MESSAGE :: string where
  "NOMEM_MESSAGE = ''Cannot allocate memory (os error 12)''"

fun watcher_add :: "(string \<Rightarrow> add_watch) \<Rightarrow> (string \<times> watch_kind) list \<Rightarrow> watcher \<Rightarrow> string option \<times> watcher" where
  "watcher_add krn [] w = (None, w)"
| "watcher_add krn ((rel, kind) # paths) w =
     (if kind \<noteq> WDir \<or> wt_dirs w rel \<noteq> None then watcher_add krn paths w
      else case krn rel of
        WatchAdded wd \<Rightarrow>
          if wt_wds w wd \<noteq> None then watcher_add krn paths w
          else watcher_add krn paths
            (w\<lparr>wt_wds := (wt_wds w)(wd \<mapsto> rel), wt_dirs := (wt_dirs w)(rel \<mapsto> (wd, wt_run w))\<rparr>)
      | WatchNoSpace \<Rightarrow> (Some NOSPC_MESSAGE, w)
      | WatchNoMemory \<Rightarrow> (Some NOMEM_MESSAGE, w)
      | WatchRefused \<Rightarrow> watcher_add krn paths w)"

definition watches :: "watcher \<Rightarrow> string \<Rightarrow> watch_kind \<Rightarrow> bool" where
  "watches w rel kind \<longleftrightarrow> wt_dirs w (watch_directory rel kind) \<noteq> None"

definition watched_before :: "watcher \<Rightarrow> string \<Rightarrow> watch_kind \<Rightarrow> bool" where
  "watched_before w rel kind \<longleftrightarrow>
     (case wt_dirs w (watch_directory rel kind) of None \<Rightarrow> False | Some (_, since) \<Rightarrow> since < wt_run w)"

definition retain_files :: "(string \<Rightarrow> bool) \<Rightarrow> watcher \<Rightarrow> watcher" where
  "retain_files keep w = w"

text \<open>What one event says.\<close>

datatype event_flag =
    EvModify | EvAttrib | EvCloseWrite | EvCreate | EvDelete | EvMovedFrom | EvMovedTo | EvDeleteSelf | EvMoveSelf
  | EvIgnored | EvIsDir | EvOverflow | EvUnmount

datatype event_name = NoName | Named string | NotUtf8

record watch_event =
  ev_wd :: nat
  ev_name :: event_name
  ev_flags :: "event_flag list"

definition intersects :: "event_flag list \<Rightarrow> event_flag list \<Rightarrow> bool" where
  "intersects flags wanted \<longleftrightarrow> list_ex (\<lambda>f. f \<in> set wanted) flags"

definition ENTRIES :: "event_flag list" where
  "ENTRIES = [EvCreate, EvDelete, EvMovedFrom, EvMovedTo]"

definition GONE_SELF :: "event_flag list" where
  "GONE_SELF = [EvDeleteSelf, EvMoveSelf, EvIgnored]"

definition touch_path :: "string \<Rightarrow> touched \<Rightarrow> touched" where
  "touch_path p t = t\<lparr>to_paths := List.insert p (to_paths t)\<rparr>"

definition touch_subtree :: "string \<Rightarrow> touched \<Rightarrow> touched" where
  "touch_subtree p t = t\<lparr>to_subtrees := to_subtrees t @ [p]\<rparr>"

text \<open>What an event of the directory \<open>dir\<close> adds to the reports, and the directories that are gone.\<close>

definition sort_event :: "string \<Rightarrow> watch_event \<Rightarrow> touched \<times> string list \<Rightarrow> touched \<times> string list" where
  "sort_event dir ev acc =
     (case acc of (t, gone) \<Rightarrow>
       case ev_name ev of
         Named name \<Rightarrow>
           let child = child_path dir name;
               entries = intersects (ev_flags ev) ENTRIES;
               t1 = (if entries then touch_path dir t else t)
           in if entries \<and> EvIsDir \<in> set (ev_flags ev)
              then (touch_path child (touch_subtree child t1), gone @ [child])
              else (touch_path child t1, gone)
       | NotUtf8 \<Rightarrow> (t, gone)
       | NoName \<Rightarrow>
           if intersects (ev_flags ev) GONE_SELF then (touch_subtree dir t, gone @ [dir])
           else (touch_path dir t, gone))"

fun sort_events :: "watcher \<Rightarrow> nat \<Rightarrow> watch_event list \<Rightarrow> touched \<times> string list \<Rightarrow> (touched \<times> string list) option" where
  "sort_events w reports [] acc = Some acc"
| "sort_events w reports (ev # evs) acc =
     (if reports + 1 > REPORTS \<or> intersects (ev_flags ev) [EvOverflow, EvUnmount] then None
      else case wt_wds w (ev_wd ev) of
        None \<Rightarrow> sort_events w (reports + 1) evs acc
      | Some dir \<Rightarrow> sort_events w (reports + 1) evs (sort_event dir ev acc))"

definition forget_under :: "string \<Rightarrow> watcher \<Rightarrow> watcher" where
  "forget_under rel w =
     (let dropped = (\<lambda>p. is_under p rel) in
      w\<lparr>wt_dirs := (\<lambda>p. if dropped p then None else wt_dirs w p),
        wt_wds := (\<lambda>wd. case wt_wds w wd of
          Some p \<Rightarrow> if dropped p \<and> (case wt_dirs w p of Some (wd', _) \<Rightarrow> wd' = wd | None \<Rightarrow> False) then None else Some p
        | None \<Rightarrow> None)\<rparr>)"

text \<open>The events read until there are none left, or until reading fails.\<close>

record drained =
  dr_events :: "watch_event list"
  dr_fails :: bool

definition watcher_drain :: "drained \<Rightarrow> watcher \<Rightarrow> touched option \<times> watcher" where
  "watcher_drain d w0 =
     (let w = w0\<lparr>wt_run := wt_run w0 + 1\<rparr> in
      case sort_events w 0 (dr_events d) (no_touched, []) of
        None \<Rightarrow> (None, w)
      | Some (t, gone) \<Rightarrow> if dr_fails d then (None, w) else (Some t, fold forget_under gone w))"

section \<open>The watch\<close>

record baseline =
  bl_index :: string
  bl_recheck :: "nat list"

record watch =
  wa_watcher :: watcher
  wa_clean :: "string \<rightharpoonup> sighting"
  wa_baseline :: "baseline option"
  wa_touched :: touched
  wa_failure :: "string option"

definition watch_new :: watch where
  "watch_new =
     \<lparr>wa_watcher = watcher_new, wa_clean = Map.empty, wa_baseline = None, wa_touched = no_touched, wa_failure = None\<rparr>"

definition watch_forget :: "watch \<Rightarrow> watch" where
  "watch_forget wa = wa\<lparr>wa_clean := Map.empty, wa_baseline := None, wa_touched := no_touched\<rparr>"

text \<open>What a path reported removes from the clean directories.\<close>

definition unclean :: "string \<Rightarrow> (string \<rightharpoonup> sighting) \<Rightarrow> (string \<rightharpoonup> sighting)" where
  "unclean path clean =
     (let c1 = clean(path := None) in case ruled path of Some dir \<Rightarrow> c1(dir := None) | None \<Rightarrow> c1)"

definition begin_clean :: "touched \<Rightarrow> (string \<rightharpoonup> sighting) \<Rightarrow> (string \<rightharpoonup> sighting)" where
  "begin_clean t clean =
     (let c1 = fold unclean (to_paths t) clean in
      if to_subtrees t \<noteq> [] then (\<lambda>rel. if list_ex (is_under rel) (to_subtrees t) then None else c1 rel) else c1)"

text \<open>
  \<open>Watch::begin\<close>. Starting the watcher over may fail (\<open>fresh\<close> says why), and drains it once; nothing is
  watched then, so nothing is reported.
\<close>

definition watch_begin :: "drained \<Rightarrow> string option \<Rightarrow> watch \<Rightarrow> string option \<times> watch" where
  "watch_begin d fresh wa =
     (case watcher_drain d (wa_watcher wa) of
        (None, w) \<Rightarrow>
          (case fresh of
             Some err \<Rightarrow> (Some err, wa\<lparr>wa_watcher := w\<rparr>)
           | None \<Rightarrow> (None, watch_forget
               (wa\<lparr>wa_watcher := snd (watcher_drain \<lparr>dr_events = [], dr_fails = False\<rparr> watcher_new)\<rparr>)))
      | (Some t, w) \<Rightarrow>
          let wa1 = wa\<lparr>wa_watcher := w\<rparr> in
          if touched_len (wa_touched wa) + touched_len t > REPORTS then (None, watch_forget wa1)
          else (None, wa1\<lparr>wa_clean := begin_clean t (wa_clean wa),
              wa_touched := \<lparr>to_paths = List.union (to_paths t) (to_paths (wa_touched wa)),
                to_subtrees = to_subtrees (wa_touched wa) @ to_subtrees t\<rparr>\<rparr>))"

text \<open>\<open>Watch::settle\<close>; \<open>stamp\<close> is what \<open>Stamp::of\<close> says of a path when it is looked at again.\<close>

definition seen_before :: "watcher \<Rightarrow> string \<Rightarrow> sighting \<Rightarrow> bool" where
  "seen_before w rel si \<longleftrightarrow>
     watched_before w rel WDir \<and> (si_rules si = None \<or> watched_before w (rules_of rel) WFile)"

definition seen_again :: "watcher \<Rightarrow> (string \<Rightarrow> stamp option) \<Rightarrow> string \<Rightarrow> sighting \<Rightarrow> bool" where
  "seen_again w stamp rel si \<longleftrightarrow>
     watches w rel WDir \<and> stamp rel = Some (si_stamp si) \<and>
     (case si_rules si of
        None \<Rightarrow> True
      | Some rules \<Rightarrow> watches w (rules_of rel) WFile \<and> stamp (rules_of rel) = Some rules)"

definition watch_settle ::
  "(string \<Rightarrow> add_watch) \<Rightarrow> (string \<Rightarrow> stamp option) \<Rightarrow> (string \<times> sighting) list \<Rightarrow> watch \<Rightarrow> watch" where
  "watch_settle krn stamp seen wa =
     (let known = filter (\<lambda>(rel, si). seen_before (wa_watcher wa) rel si) seen;
          fresh = filter (\<lambda>(rel, si). \<not> seen_before (wa_watcher wa) rel si) seen;
          wa1 = wa\<lparr>wa_clean := fold (\<lambda>(rel, si) c. c(rel \<mapsto> si)) known (wa_clean wa)\<rparr>
      in if fresh = [] then wa1
         else case watcher_add krn
             (concat (map (\<lambda>(rel, si). (rel, WDir) # (if si_rules si = None then [] else [(rules_of rel, WFile)])) fresh))
             (wa_watcher wa1) of
           (Some err, w) \<Rightarrow> wa1\<lparr>wa_watcher := w, wa_failure := Some err\<rparr>
         | (None, w) \<Rightarrow>
             wa1\<lparr>wa_watcher := w,
               wa_clean := fold (\<lambda>(rel, si) c. c(rel \<mapsto> si)) (filter (\<lambda>(rel, si). seen_again w stamp rel si) fresh)
                 (wa_clean wa1)\<rparr>)"

text \<open>\<open>Tracking::watch_files\<close>, \<open>covers\<close>, \<open>keep_files\<close>\<close>

definition watch_files :: "(string \<Rightarrow> add_watch) \<Rightarrow> string list \<Rightarrow> watch \<Rightarrow> bool \<times> watch" where
  "watch_files krn rels wa =
     (case watcher_add krn
        (map (\<lambda>dir. (dir, WDir)) (remdups (concat (map watch_ancestors rels))) @ map (\<lambda>rel. (rel, WFile)) rels)
        (wa_watcher wa) of
        (Some err, w) \<Rightarrow> (False, wa\<lparr>wa_watcher := w, wa_failure := Some err\<rparr>)
      | (None, w) \<Rightarrow> (True, wa\<lparr>wa_watcher := w\<rparr>))"

definition watch_covers :: "watcher \<Rightarrow> string \<Rightarrow> bool" where
  "watch_covers w rel \<longleftrightarrow> watches w rel WFile \<and> list_all (\<lambda>dir. watches w dir WDir) (watch_ancestors rel)"

definition keep_files :: "string list \<Rightarrow> watch \<Rightarrow> watch" where
  "keep_files tracked wa =
     wa\<lparr>wa_watcher := retain_files (\<lambda>rel. rel \<in> set tracked \<or> ruled rel \<noteq> None) (wa_watcher wa)\<rparr>"

end
