(* ===== verification/GitIndex.thy ===== *)
theory GitIndex imports
  Watching
  Langs
begin

text \<open>
  \<^verbatim>\<open>crates/discover/src/git.rs\<close>: the files git considers changed, found by comparing the index with the
  work tree as little as possible. What gix answers (its lookups in an index, its status and tree
  comparison, opening a repository) is an argument.
\<close>

section \<open>The index\<close>

record index_stat =
  is_mtime_secs :: u32
  is_mtime_nsecs :: u32
  is_ctime_secs :: u32
  is_ctime_nsecs :: u32
  is_size :: u32
  is_ino :: u32
  is_uid :: u32
  is_gid :: u32

record index_entry =
  ie_path :: string
  ie_mode :: u32
  ie_stage :: nat
  ie_skip_worktree :: bool
  ie_assume_valid :: bool
  ie_intent_to_add :: bool
  ie_stat :: index_stat

text \<open>
  The lookups are gix's: the position of an entry by its path, and the positions of the entries whose
  paths start with a prefix.
\<close>

record git_index =
  gi_entries :: "index_entry list"
  gi_checksum :: "string option"
  gi_secs :: int
  gi_nanos :: u32
  gi_by_path :: "string \<Rightarrow> nat option"
  gi_prefixed :: "string \<Rightarrow> nat list"

text \<open>git's modes of a file and of an executable file; a mode is a file's when it has all bits of the first.\<close>

definition MODE_FILE :: u32 where "MODE_FILE = 0x81A4"

definition MODE_FILE_EXECUTABLE :: u32 where "MODE_FILE_EXECUTABLE = 0x81ED"

definition is_file_mode :: "u32 \<Rightarrow> bool" where
  "is_file_mode mode \<longleftrightarrow> and mode MODE_FILE = MODE_FILE"

text \<open>What \<open>symlink_metadata\<close> says of a path.\<close>

record file_meta = metadata +
  fm_mode :: u32
  fm_uid :: u32
  fm_gid :: u32

definition low :: "int \<Rightarrow> u32" where
  "low value = word_of_int value"

definition exempt :: "index_entry \<Rightarrow> bool" where
  "exempt e \<longleftrightarrow> \<not> is_file_mode (ie_mode e) \<or> ie_skip_worktree e \<or> ie_assume_valid e"

definition entry_vouched :: "git_index \<Rightarrow> file_meta option \<Rightarrow> index_entry \<Rightarrow> bool" where
  "entry_vouched ix meta e \<longleftrightarrow>
     (if exempt e then True
      else if ie_stage e \<noteq> 0 \<or> ie_intent_to_add e then False
      else case meta of
        None \<Rightarrow> False
      | Some md \<Rightarrow>
          let st = ie_stat e; executable = (and (fm_mode md) 0x40 \<noteq> 0) in
          md_is_file md \<and>
          uint (is_mtime_secs st) < gi_secs ix \<and>
          (low (md_mtime md), low (md_mtime_nsec md)) = (is_mtime_secs st, is_mtime_nsecs st) \<and>
          (low (md_ctime md), low (md_ctime_nsec md)) = (is_ctime_secs st, is_ctime_nsecs st) \<and>
          (low (uint (md_size md)), low (uint (md_ino md)), fm_uid md, fm_gid md) =
            (is_size st, is_ino st, is_uid st, is_gid st) \<and>
          executable = (ie_mode e = MODE_FILE_EXECUTABLE))"

definition index_key :: "git_index \<Rightarrow> string option" where
  "index_key ix =
     (case gi_checksum ix of
        None \<Rightarrow> None
      | Some digest \<Rightarrow>
          if list_all (\<lambda>b. b = CHR 0x00) digest then None
          else Some (digest @ le_bytes64 (nat (gi_secs ix mod 2 ^ 64)) @
            map (\<lambda>i. char_of (unat (gi_nanos ix) div 256 ^ i)) [0..<4]))"

section \<open>The comparison with the work tree\<close>

definition SUSPECTS :: nat where "SUSPECTS = 256"

definition STATTERS :: nat where "STATTERS = 4"

text \<open>\<open>slice::chunks\<close>\<close>

function chunks :: "nat \<Rightarrow> 'a list \<Rightarrow> 'a list list" where
  "chunks n xs = (if n = 0 \<or> xs = [] then [] else take n xs # chunks n (drop n xs))"
  by pat_completeness auto
termination by (relation "measure (\<lambda>(n, xs). length xs)") auto

declare chunks.simps [simp del]

type_synonym look = "string \<Rightarrow> file_meta option"

definition vouch :: "look \<Rightarrow> git_index \<Rightarrow> index_entry list \<Rightarrow> bool list" where
  "vouch look ix entries =
     (let one = (\<lambda>e. entry_vouched ix (look (ie_path e)) e) in
      if length entries \<le> SUSPECTS then map one entries
      else concat (map (map one) (chunks ((length entries + STATTERS - 1) div STATTERS) entries)))"

definition files_in :: "git_index \<Rightarrow> string \<Rightarrow> nat list" where
  "files_in ix pre = filter (\<lambda>pos. CHR ''/'' \<notin> set (drop (length pre) (ie_path (gi_entries ix ! pos)))) (gi_prefixed ix pre)"

definition below :: "string \<Rightarrow> string" where
  "below path = (if path = [] then [] else path @ ''/'')"

definition reported :: "git_index \<Rightarrow> touched \<Rightarrow> nat list" where
  "reported ix t =
     concat (map (\<lambda>path. (case gi_by_path ix path of Some pos \<Rightarrow> [pos] | None \<Rightarrow> []) @ files_in ix (below path)) (to_paths t)) @
     concat (map (\<lambda>subtree. gi_prefixed ix (below subtree)) (to_subtrees t))"

definition full_suspects :: "look \<Rightarrow> git_index \<Rightarrow> string list" where
  "full_suspects look ix =
     map (\<lambda>(e, v). ie_path e) (filter (\<lambda>(e, v). \<not> v) (zip (gi_entries ix) (vouch look ix (gi_entries ix))))"

text \<open>The positions a watched comparison looks at.\<close>

definition picked :: "git_index \<Rightarrow> string \<Rightarrow> touched \<Rightarrow> baseline option \<Rightarrow> nat list" where
  "picked ix key t base =
     (case base of
        Some b \<Rightarrow>
          if bl_index b = key then remdups (sort (bl_recheck b @ reported ix t))
          else filter (\<lambda>pos. \<not> exempt (gi_entries ix ! pos)) [0..<length (gi_entries ix)]
      | None \<Rightarrow> filter (\<lambda>pos. \<not> exempt (gi_entries ix ! pos)) [0..<length (gi_entries ix)])"

definition same_index :: "string \<Rightarrow> baseline option \<Rightarrow> bool" where
  "same_index key base \<longleftrightarrow> (case base of Some b \<Rightarrow> bl_index b = key | None \<Rightarrow> False)"

text \<open>\<open>None\<close>: everything is compared instead.\<close>

definition watched_suspects ::
  "(string \<Rightarrow> add_watch) \<Rightarrow> look \<Rightarrow> git_index \<Rightarrow> watch \<Rightarrow> string list option \<times> watch" where
  "watched_suspects krn look ix wa0 =
     (let t = wa_touched wa0; wa = wa0\<lparr>wa_touched := no_touched\<rparr> in
      case index_key ix of
        None \<Rightarrow> (None, wa\<lparr>wa_baseline := None\<rparr>)
      | Some key \<Rightarrow>
          let entry = (\<lambda>pos. gi_entries ix ! pos);
              chosen = picked ix key t (wa_baseline wa);
              rels = filter valid_utf8 (map (\<lambda>i. ie_path (entry i)) chosen)
          in case watch_files krn rels wa of
            (False, wa1) \<Rightarrow> (None, wa1)
          | (True, wa1) \<Rightarrow>
              let wa2 = (if same_index key (wa_baseline wa) then wa1 else keep_files rels wa1);
                  looked = zip chosen (vouch look ix (map entry chosen));
                  covered = (\<lambda>i. valid_utf8 (ie_path (entry i)) \<and> watch_covers (wa_watcher wa2) (ie_path (entry i)))
              in (Some (map (\<lambda>(i, v). ie_path (entry i)) (filter (\<lambda>(i, v). \<not> v) looked)),
                  wa2\<lparr>wa_baseline := Some \<lparr>bl_index = key,
                    bl_recheck = map fst (filter (\<lambda>(i, v). \<not> v \<or> \<not> covered i) looked)\<rparr>\<rparr>))"

definition suspects :: "(string \<Rightarrow> add_watch) \<Rightarrow> look \<Rightarrow> git_index \<Rightarrow> watch option \<Rightarrow> string list \<times> watch option" where
  "suspects krn look ix tracking =
     (case tracking of
        None \<Rightarrow> (full_suspects look ix, None)
      | Some wa \<Rightarrow>
          (case watched_suspects krn look ix wa of
             (Some found, wa') \<Rightarrow> (found, Some wa')
           | (None, wa') \<Rightarrow> (full_suspects look ix, Some wa')))"

section \<open>The status\<close>

datatype entry_status = NeedsUpdate | SubmoduleModified | Removed | TypeChanged u32 | OtherChange

record status_item =
  si_modification :: bool
  si_entry :: index_entry
  si_path :: string
  si_status :: entry_status

text \<open>The status of the paths some pathspecs select, as gix reports it.\<close>

type_synonym git_status = "string list \<Rightarrow> string + status_item list"

definition push :: "scope_filter \<Rightarrow> string \<Rightarrow> sourcefile list" where
  "push filt path =
     (if valid_utf8 path then (case source_file filt path of Some f \<Rightarrow> [f] | None \<Rightarrow> []) else [])"

fun status_files :: "scope_filter \<Rightarrow> status_item list \<Rightarrow> sourcefile list \<times> string list" where
  "status_files filt [] = ([], [])"
| "status_files filt (item # items) =
     (case status_files filt items of
        (files, gone_paths) \<Rightarrow>
          if \<not> si_modification item then (files, gone_paths)
          else case si_status item of
            NeedsUpdate \<Rightarrow> (files, gone_paths)
          | SubmoduleModified \<Rightarrow> (files, gone_paths)
          | Removed \<Rightarrow> (files, si_path item # gone_paths)
          | TypeChanged mode \<Rightarrow>
              if \<not> is_file_mode mode then (files, si_path item # gone_paths)
              else if is_file_mode (ie_mode (si_entry item)) then (push filt (si_path item) @ files, gone_paths)
              else (files, gone_paths)
          | OtherChange \<Rightarrow>
              if is_file_mode (ie_mode (si_entry item)) then (push filt (si_path item) @ files, gone_paths)
              else (files, gone_paths))"

definition status :: "git_status \<Rightarrow> scope_filter \<Rightarrow> string list \<Rightarrow> string + sourcefile list \<times> string list" where
  "status gs filt specs =
     (case gs specs of Inl e \<Rightarrow> Inl e | Inr items \<Rightarrow> Inr (status_files filt items))"

definition literal_spec :: "string \<Rightarrow> string" where
  "literal_spec path = '':(top,literal)'' @ path"

definition worktree ::
  "(string \<Rightarrow> add_watch) \<Rightarrow> look \<Rightarrow> git_status \<Rightarrow> git_index \<Rightarrow> string list \<Rightarrow> scope_filter \<Rightarrow> watch option \<Rightarrow>
    (string + sourcefile list \<times> string list) \<times> watch option" where
  "worktree krn look gs ix patterns filt tracking =
     (if patterns \<noteq> [] then (status gs filt patterns, tracking)
      else case suspects krn look ix tracking of
        (found, tracking') \<Rightarrow>
          if length found > SUSPECTS then (status gs filt patterns, tracking')
          else if found = [] then (Inr ([], []), tracking')
          else (status gs filt (map literal_spec found), tracking'))"

end
