(* ===== verification/Repositories.thy ===== *)
theory Repositories imports
  GitIndex
begin

text \<open>
  \<open>Repository\<close> of \<^verbatim>\<open>crates/discover/src/git.rs\<close>: a git repository kept open, and the watch on its
  work tree kept, from one run to the next. The opened repository is an opaque value; opening it and the
  files it was read from are arguments.
\<close>

record 'r kept =
  kp_root :: string
  kp_repo :: 'r
  kp_sources :: "(string \<times> stamp option) list"

record 'r repository =
  rp_settled :: "int option"
  rp_kept :: "'r kept option"
  rp_watching :: bool
  rp_watch :: "(string \<times> watch) option"
  rp_failure :: "string option"

definition default_repository :: "'r repository" where
  "default_repository =
     \<lparr>rp_settled = None, rp_kept = None, rp_watching = False, rp_watch = None, rp_failure = None\<rparr>"

definition repository_next_run :: "int \<Rightarrow> 'r repository \<Rightarrow> 'r repository" where
  "repository_next_run now r = r\<lparr>rp_settled := Some (settled_before now)\<rparr>"

definition repository_watch :: "'r repository \<Rightarrow> 'r repository" where
  "repository_watch r = r\<lparr>rp_watching := True\<rparr>"

definition stop_watching :: "string \<Rightarrow> 'r repository \<Rightarrow> 'r repository" where
  "stop_watching failure r = r\<lparr>rp_watching := False, rp_watch := None, rp_failure := Some failure\<rparr>"

definition stop_failed_watch :: "'r repository \<Rightarrow> 'r repository" where
  "stop_failed_watch r =
     (case rp_watch r of
        None \<Rightarrow> r
      | Some (root, wa) \<Rightarrow> (case wa_failure wa of None \<Rightarrow> r | Some failure \<Rightarrow> stop_watching failure r))"

definition watch_failure :: "'r repository \<Rightarrow> string option \<times> 'r repository" where
  "watch_failure r0 = (let r = stop_failed_watch r0 in (rp_failure r, r\<lparr>rp_failure := None\<rparr>))"

text \<open>
  \<open>Repository::watched\<close>: \<open>created\<close> says whether a watcher can be made, \<open>d\<close> what the kernel holds for the
  one there is (for a new one, nothing).
\<close>

definition watched_at :: "string option \<Rightarrow> drained \<Rightarrow> string \<Rightarrow> 'r repository \<Rightarrow> watch option \<times> 'r repository" where
  "watched_at created d root r0 =
     (let r1 = stop_failed_watch r0 in
      if \<not> rp_watching r1 then (None, r1)
      else
        let kept = (case rp_watch r1 of Some (watched, wa) \<Rightarrow> if watched = root then Some wa else None | None \<Rightarrow> None)
        in case kept of
          None \<Rightarrow>
            (case created of
               Some err \<Rightarrow> (None, stop_watching err (r1\<lparr>rp_watch := None\<rparr>))
             | None \<Rightarrow>
                 (case watch_begin \<lparr>dr_events = [], dr_fails = False\<rparr> None watch_new of
                    (Some err, wa) \<Rightarrow> (None, stop_watching err r1)
                  | (None, wa) \<Rightarrow> (Some wa, r1\<lparr>rp_watch := Some (root, wa)\<rparr>)))
        | Some wa0 \<Rightarrow>
            (case watch_begin d created wa0 of
               (Some err, wa) \<Rightarrow> (None, stop_watching err r1)
             | (None, wa) \<Rightarrow> (Some wa, r1\<lparr>rp_watch := Some (root, wa)\<rparr>)))"

text \<open>What the run did to the watch is kept with the repository.\<close>

definition keep_watch :: "watch option \<Rightarrow> 'r repository \<Rightarrow> 'r repository" where
  "keep_watch wa r =
     (case (wa, rp_watch r) of (Some w, Some (root, _)) \<Rightarrow> r\<lparr>rp_watch := Some (root, w)\<rparr> | _ \<Rightarrow> r)"

definition all_settled :: "int \<Rightarrow> stamp option list \<Rightarrow> bool" where
  "all_settled settled stamps \<longleftrightarrow> list_all (\<lambda>s. case s of None \<Rightarrow> True | Some s \<Rightarrow> is_settled s settled) stamps"

text \<open>\<open>Repository::open\<close>; \<open>stamp\<close> is \<open>Stamp::of\<close> at the time of the run.\<close>

definition repository_open ::
  "(string \<Rightarrow> stamp option) \<Rightarrow> (string + 'r) \<Rightarrow> ('r \<Rightarrow> string list) \<Rightarrow> string \<Rightarrow> 'r repository \<Rightarrow>
    (string + 'r) \<times> 'r repository" where
  "repository_open stamp opened sources root r =
     (let reopen =
        (case opened of
           Inl e \<Rightarrow> (Inl e, r\<lparr>rp_kept := None\<rparr>)
         | Inr repo \<Rightarrow>
             (case rp_settled r of
                None \<Rightarrow> (Inr repo, r\<lparr>rp_kept := None\<rparr>)
              | Some settled \<Rightarrow>
                  let stamped = map (\<lambda>p. (p, stamp p)) (sources repo) in
                  if all_settled settled (map snd stamped)
                  then (Inr repo, r\<lparr>rp_kept := Some \<lparr>kp_root = root, kp_repo = repo, kp_sources = stamped\<rparr>\<rparr>)
                  else (Inr repo, r\<lparr>rp_kept := None\<rparr>)))
      in case rp_kept r of
           Some k \<Rightarrow>
             if kp_root k = root \<and> list_all (\<lambda>(p, s). stamp p = s) (kp_sources k) then (Inr (kp_repo k), r) else reopen
         | None \<Rightarrow> reopen)"

text \<open>\<open>sources\<close>: what gix says of where a configuration is, put in order without repetition.\<close>

record repo_paths =
  rh_storage :: "string option list"
  rh_index :: string
  rh_common :: string
  rh_git :: string
  rh_dot_git_file :: bool
  rh_sections :: "string option list"

definition repo_sources :: "string \<Rightarrow> repo_paths \<Rightarrow> string list" where
  "repo_sources root p =
     remdups (sort
       (concat (map option_list (rh_storage p)) @
        [rh_index p, path_join (rh_common p) ''packed-refs'', path_join (rh_common p) ''config'',
         path_join (rh_git p) ''config.worktree'', path_join (rh_git p) ''HEAD''] @
        (if rh_dot_git_file p then [path_join root ''.git''] else []) @
        concat (map option_list (rh_sections p))))"

section \<open>Runs of one session\<close>

text \<open>
  The repository after the first \<open>n\<close> runs, at the times and roots and over the contents and stamps given
  for each run; \<open>open_of root c\<close> is what opening reads from the contents \<open>c\<close>.
\<close>

fun after_opens ::
  "(nat \<Rightarrow> int) \<Rightarrow> (nat \<Rightarrow> string) \<Rightarrow> (nat \<Rightarrow> string \<Rightarrow> 'c) \<Rightarrow> (nat \<Rightarrow> string \<Rightarrow> stamp option) \<Rightarrow>
    (string \<Rightarrow> (string \<Rightarrow> 'c) \<Rightarrow> 'r) \<Rightarrow> ('r \<Rightarrow> string list) \<Rightarrow> nat \<Rightarrow> 'r repository" where
  "after_opens now root contents stamp open_of sources 0 = default_repository"
| "after_opens now root contents stamp open_of sources (Suc n) =
     snd (repository_open (stamp n) (Inr (open_of (root n) (contents n))) sources (root n)
       (repository_next_run (now n) (after_opens now root contents stamp open_of sources n)))"

lemma open_kept:
  assumes "repository_open stamp (Inr repo) sources root r = (res, r')" "rp_kept r' = Some k"
  shows "rp_kept r = Some k \<or>
    kp_root k = root \<and> kp_repo k = repo \<and> kp_sources k = map (\<lambda>p. (p, stamp p)) (sources repo) \<and>
    (\<exists>settled. rp_settled r = Some settled \<and>
      all_settled settled (map snd (kp_sources k)))"
  using assms by (auto simp: repository_open_def Let_def split: option.splits if_splits)

lemma kept_from_a_run:
  "rp_kept (after_opens now root contents stamp open_of sources n) = Some k \<Longrightarrow>
     \<exists>i < n. kp_root k = root i \<and> kp_repo k = open_of (root i) (contents i) \<and>
       kp_sources k = map (\<lambda>p. (p, stamp i p)) (sources (kp_repo k)) \<and>
       all_settled (settled_before (now i)) (map snd (kp_sources k))"
proof (induction n)
  case (Suc n)
  let ?r = "after_opens now root contents stamp open_of sources n"
  obtain res r' where o: "repository_open (stamp n) (Inr (open_of (root n) (contents n))) sources (root n)
      (repository_next_run (now n) ?r) = (res, r')" by fastforce
  with Suc.prems have "rp_kept r' = Some k" by simp
  from open_kept [OF o this] show ?case
  proof
    assume "rp_kept (repository_next_run (now n) ?r) = Some k"
    with Suc.IH show ?thesis by (auto simp: repository_next_run_def less_Suc_eq)
  qed (auto simp: repository_next_run_def)
qed (simp add: default_repository_def)

text \<open>
  C34: A kept repository is never stale: in every run of a session the repository answered is the one that
  opening it anew would give, whichever runs kept it, reopened it or named another root before, provided
  that opening reads the files it names as its sources, and that a file whose stamp had settled when the
  repository was kept, and is the same, has the same content.
\<close>

theorem kept_repository_is_current:
  assumes "\<And>root c c'. list_all (\<lambda>p. c p = c' p) (sources (open_of root c)) \<Longrightarrow> open_of root c = open_of root c'"
    and "\<And>i n p. i < n \<Longrightarrow> stamp i p = stamp n p \<Longrightarrow>
      all_settled (settled_before (now i)) [stamp i p] \<Longrightarrow> contents i p = contents n p"
  shows "fst (repository_open (stamp n) (Inr (open_of (root n) (contents n))) sources (root n)
      (repository_next_run (now n) (after_opens now root contents stamp open_of sources n))) =
    Inr (open_of (root n) (contents n))"
proof -
  let ?r = "after_opens now root contents stamp open_of sources n"
  have "kp_repo k = open_of (root n) (contents n)"
    if k: "rp_kept ?r = Some k" "kp_root k = root n" "list_all (\<lambda>(p, s). stamp n p = s) (kp_sources k)" for k
  proof -
    from kept_from_a_run [OF k(1)] obtain i where i: "i < n" "kp_root k = root i" "kp_repo k = open_of (root i) (contents i)"
        "kp_sources k = map (\<lambda>p. (p, stamp i p)) (sources (kp_repo k))"
        "all_settled (settled_before (now i)) (map snd (kp_sources k))"
      by blast
    have "list_all (\<lambda>p. contents i p = contents n p) (sources (open_of (root i) (contents i)))"
      using i(1,3,4,5) k(3) assms(2) [OF i(1)] by (auto simp: list_all_iff all_settled_def)
    from assms(1) [OF this] i k(2) show ?thesis by simp
  qed
  then show ?thesis
    by (auto simp: repository_open_def repository_next_run_def Let_def split: option.split)
qed

text \<open>A configuration file that is rewritten once, with a stamp that tells.\<close>

theorem kept_repository_is_current_witness:
  "fst (repository_open (\<lambda>p. Some (default_stamp\<lparr>st_ino := 2\<rparr>)) (Inr ''b'') (\<lambda>_. [''config'']) ''/r''
     (repository_next_run 10 (after_opens (\<lambda>_. 10) (\<lambda>_. ''/r'') (\<lambda>i p. if i = 0 then ''a'' else ''b'')
        (\<lambda>i p. Some (default_stamp\<lparr>st_ino := (if i = 0 then 1 else 2)\<rparr>)) (\<lambda>_ c. c ''config'') (\<lambda>_. [''config'']) 1))) =
   Inr ''b''"
proof -
  have "fst (repository_open ((\<lambda>i p. Some (default_stamp\<lparr>st_ino := (if i = 0 then 1 else 2)\<rparr>)) (1 :: nat))
     (Inr ((\<lambda>_ c. c ''config'') ''/r'' ((\<lambda>i p. if i = 0 then ''a'' else ''b'') (1 :: nat)))) (\<lambda>_. [''config'']) ((\<lambda>_. ''/r'') (1 :: nat))
     (repository_next_run ((\<lambda>_. 10) (1 :: nat)) (after_opens (\<lambda>_. 10) (\<lambda>_. ''/r'') (\<lambda>i p. if i = 0 then ''a'' else ''b'')
        (\<lambda>i p. Some (default_stamp\<lparr>st_ino := (if i = 0 then 1 else 2)\<rparr>)) (\<lambda>_ c. c ''config'') (\<lambda>_. [''config'']) 1))) =
    Inr ((\<lambda>_ c. c ''config'') ''/r'' ((\<lambda>i p. if i = 0 then ''a'' else ''b'') (1 :: nat)))"
    by (rule kept_repository_is_current) (auto simp: default_stamp_def split: if_splits)
  then show ?thesis by simp
qed

end
