(* ===== verification/WatchFacts.thy ===== *)
theory WatchFacts imports
  GitIndex
begin

text \<open>
  The watched comparison of the index with the work tree finds what a full comparison finds, as long as
  the kernel reports the changes under the watches it was given.
\<close>

section \<open>The index\<close>

lemma chunks_concat: "0 < n \<Longrightarrow> concat (chunks n xs) = xs"
  by (induction n xs rule: chunks.induct) (subst chunks.simps, auto)

lemma vouch_map: "vouch look ix es = map (\<lambda>e. entry_vouched ix (look (ie_path e)) e) es"
proof (cases "length es \<le> SUSPECTS")
  case False
  let ?n = "(length es + STATTERS - 1) div STATTERS" and ?one = "\<lambda>e. entry_vouched ix (look (ie_path e)) e"
  have "0 < ?n" using False by (simp add: SUSPECTS_def STATTERS_def)
  then have "concat (map (map ?one) (chunks ?n es)) = map ?one es"
    by (simp add: map_concat [symmetric] chunks_concat)
  with False show ?thesis by (simp add: vouch_def Let_def)
qed (simp add: vouch_def)

text \<open>What gix documents of its lookups, of an index with one entry per path outside conflicts.\<close>

definition index_ok :: "git_index \<Rightarrow> bool" where
  "index_ok ix \<longleftrightarrow>
     (\<forall>i < length (gi_entries ix). ie_stage (gi_entries ix ! i) = 0 \<longrightarrow>
       gi_by_path ix (ie_path (gi_entries ix ! i)) = Some i) \<and>
     (\<forall>i < length (gi_entries ix). \<not> prefix ''/'' (ie_path (gi_entries ix ! i))) \<and>
     (\<forall>p i. gi_by_path ix p = Some i \<longrightarrow> i < length (gi_entries ix)) \<and>
     (\<forall>pre. set (gi_prefixed ix pre) = {i. i < length (gi_entries ix) \<and> prefix pre (ie_path (gi_entries ix ! i))})"

text \<open>A report concerns a path: of it, of an entry of its directory, or of a directory above it that is gone.\<close>

definition strictly_under :: "string \<Rightarrow> string \<Rightarrow> bool" where
  "strictly_under p dir \<longleftrightarrow> prefix (below dir) p"

definition hit :: "touched \<Rightarrow> string \<Rightarrow> bool" where
  "hit t p \<longleftrightarrow> p \<in> set (to_paths t) \<or> watch_directory p WFile \<in> set (to_paths t) \<or>
     (\<exists>s \<in> set (to_subtrees t). strictly_under p s)"

lemma parent_path:
  assumes "\<not> prefix ''/'' p"
  shows "\<exists>name. p = below (watch_directory p WFile) @ name \<and> CHR ''/'' \<notin> set name"
proof (cases "rsplit_once (CHR ''/'') p")
  case None
  then have "watch_directory p WFile = []" by (simp add: watch_directory_def)
  moreover have "CHR ''/'' \<notin> set p" using None by (simp add: rsplit_once_None)
  ultimately show ?thesis by (simp add: below_def)
next
  case (Some r)
  obtain d name where r: "r = (d, name)" by fastforce
  with Some rsplit_once_Some [of "CHR ''/''" p d name] have "p = d @ CHR ''/'' # name" "CHR ''/'' \<notin> set name"
    by simp_all
  moreover from this(1) assms have "d \<noteq> []" by auto
  ultimately show ?thesis using Some r by (simp add: watch_directory_def below_def)
qed

lemma reported_hit:
  assumes "index_ok ix" "i < length (gi_entries ix)" "ie_stage (gi_entries ix ! i) = 0"
    and "hit t (ie_path (gi_entries ix ! i))"
  shows "i \<in> set (reported ix t)"
proof -
  let ?p = "ie_path (gi_entries ix ! i)"
  from assms(4) consider "?p \<in> set (to_paths t)" | "watch_directory ?p WFile \<in> set (to_paths t)"
    | s where "s \<in> set (to_subtrees t)" "strictly_under ?p s"
    by (auto simp: hit_def)
  then show ?thesis
  proof cases
    case 1
    moreover have "gi_by_path ix ?p = Some i" using assms(1-3) by (simp add: index_ok_def)
    ultimately show ?thesis by (force simp: reported_def)
  next
    case 2
    have "\<not> prefix ''/'' ?p" using assms(1,2) by (simp add: index_ok_def)
    from parent_path [OF this] obtain name
      where n: "?p = below (watch_directory ?p WFile) @ name" "CHR ''/'' \<notin> set name"
      by (elim exE conjE)
    have split: "prefix pre q \<and> drop (length pre) q = rest" if "q = pre @ rest" for pre q rest :: string
      using that by simp
    have "prefix (below (watch_directory ?p WFile)) ?p" "drop (length (below (watch_directory ?p WFile))) ?p = name"
      using split [OF n(1)] by blast+
    then have "i \<in> set (files_in ix (below (watch_directory ?p WFile)))"
      using assms(1,2) n(2) by (simp add: files_in_def index_ok_def)
    with 2 show ?thesis by (auto simp: reported_def)
  next
    case 3
    then have "i \<in> set (gi_prefixed ix (below s))"
      using assms(1,2) by (simp add: index_ok_def strictly_under_def)
    with 3 show ?thesis by (auto simp: reported_def)
  qed
qed

lemma reported_bound: "index_ok ix \<Longrightarrow> i \<in> set (reported ix t) \<Longrightarrow> i < length (gi_entries ix)"
  by (auto simp: reported_def index_ok_def files_in_def split: option.splits)

section \<open>Watches and events\<close>

text \<open>The event \<open>e\<close> of a watched directory reports a change of the file at \<open>p\<close>.\<close>

definition file_event :: "watcher \<Rightarrow> watch_event \<Rightarrow> string \<Rightarrow> bool" where
  "file_event w e p \<longleftrightarrow>
     (case wt_wds w (ev_wd e) of
        None \<Rightarrow> False
      | Some d \<Rightarrow>
          (case ev_name e of
             Named n \<Rightarrow> child_path d n = p \<or>
               intersects (ev_flags e) ENTRIES \<and> EvIsDir \<in> set (ev_flags e) \<and> strictly_under p (child_path d n)
           | NoName \<Rightarrow> intersects (ev_flags e) GONE_SELF \<and> strictly_under p d
           | NotUtf8 \<Rightarrow> False))"

lemma hit_mono:
  "hit t p \<Longrightarrow> set (to_paths t) \<subseteq> set (to_paths t') \<Longrightarrow> set (to_subtrees t) \<subseteq> set (to_subtrees t') \<Longrightarrow> hit t' p"
  by (auto simp: hit_def)

lemma sort_event_grows:
  "sort_event dir e (t, gone) = (t', gone') \<Longrightarrow>
     set (to_paths t) \<subseteq> set (to_paths t') \<and> set (to_subtrees t) \<subseteq> set (to_subtrees t') \<and>
     set gone' - set gone \<subseteq> set (to_subtrees t')"
  by (auto simp: sort_event_def touch_path_def touch_subtree_def Let_def split: event_name.splits if_splits)

lemma sort_event_hit:
  "sort_event d e (t, gone) = (t', gone') \<Longrightarrow> file_event w e p \<Longrightarrow> wt_wds w (ev_wd e) = Some d \<Longrightarrow> hit t' p"
  by (auto simp: sort_event_def file_event_def touch_path_def touch_subtree_def hit_def Let_def
      split: event_name.splits if_splits)

lemma sort_events_grows:
  "sort_events w n evs (t, gone) = Some (t', gone') \<Longrightarrow>
     set (to_paths t) \<subseteq> set (to_paths t') \<and> set (to_subtrees t) \<subseteq> set (to_subtrees t') \<and>
     set gone' - set gone \<subseteq> set (to_subtrees t')"
proof (induction evs arbitrary: n t gone)
  case (Cons e evs)
  show ?case
  proof (cases "wt_wds w (ev_wd e)")
    case (Some d)
    obtain t1 g1 where s: "sort_event d e (t, gone) = (t1, g1)" by fastforce
    with Cons.prems Some have "sort_events w (n + 1) evs (t1, g1) = Some (t', gone')" by (auto split: if_splits)
    from Cons.IH [OF this] sort_event_grows [OF s] show ?thesis by blast
  qed (use Cons in \<open>auto split: if_splits\<close>)
qed simp

text \<open>
  A kind of event that one pass over the events always turns into a report of the kind \<open>met\<close>.
\<close>

locale event_report =
  fixes concerns :: "watcher \<Rightarrow> watch_event \<Rightarrow> string \<Rightarrow> bool" and met :: "touched \<Rightarrow> string \<Rightarrow> bool"
  assumes met_mono: "met t p \<Longrightarrow> set (to_paths t) \<subseteq> set (to_paths t') \<Longrightarrow> set (to_subtrees t) \<subseteq> set (to_subtrees t') \<Longrightarrow> met t' p"
    and sorted_met: "sort_event d e (t, gone) = (t', gone') \<Longrightarrow> concerns w e p \<Longrightarrow> wt_wds w (ev_wd e) = Some d \<Longrightarrow> met t' p"
    and watched_only: "concerns w e p \<Longrightarrow> wt_wds w (ev_wd e) \<noteq> None"
begin

lemma sort_events_met:
  "sort_events w n evs (t, gone) = Some (t', gone') \<Longrightarrow> e \<in> set evs \<Longrightarrow> concerns w e p \<Longrightarrow> met t' p"
proof (induction evs arbitrary: n t gone)
  case (Cons e' evs)
  show ?case
  proof (cases "wt_wds w (ev_wd e')")
    case None
    with Cons.prems(3) have "e \<noteq> e'" using watched_only by blast
    with None Cons show ?thesis by (auto split: if_splits)
  next
    case (Some d)
    obtain t1 g1 where s: "sort_event d e' (t, gone) = (t1, g1)" by fastforce
    with Cons.prems Some have r: "sort_events w (n + 1) evs (t1, g1) = Some (t', gone')" by (auto split: if_splits)
    show ?thesis
    proof (cases "e = e'")
      case True
      with sorted_met [OF s] Some Cons.prems(3) have "met t1 p" by simp
      with sort_events_grows [OF r] show ?thesis by (auto intro: met_mono)
    next
      case False
      with Cons.IH [OF r] Cons.prems show ?thesis by simp
    qed
  qed
qed simp

end

interpretation file_reports: event_report file_event hit
proof unfold_locales
  show "wt_wds w (ev_wd e) \<noteq> None" if "file_event w e p" for w e p
    using that by (simp add: file_event_def split: option.splits)
qed (rule hit_mono, assumption+, rule sort_event_hit)

text \<open>The event concerns what a walk saw of the directory \<open>rel\<close>: itself, its entries, its rules, or a directory above.\<close>

definition dir_event :: "watcher \<Rightarrow> watch_event \<Rightarrow> string \<Rightarrow> bool" where
  "dir_event w e rel \<longleftrightarrow>
     (case wt_wds w (ev_wd e) of
        None \<Rightarrow> False
      | Some d \<Rightarrow>
          (case ev_name e of
             Named n \<Rightarrow> child_path d n = rel \<or> child_path d n = rules_of rel \<or>
               intersects (ev_flags e) ENTRIES \<and>
                 (d = rel \<or> EvIsDir \<in> set (ev_flags e) \<and> is_under rel (child_path d n))
           | NoName \<Rightarrow> if intersects (ev_flags e) GONE_SELF then is_under rel d else d = rel
           | NotUtf8 \<Rightarrow> False))"

definition dir_hit :: "touched \<Rightarrow> string \<Rightarrow> bool" where
  "dir_hit t rel \<longleftrightarrow> rel \<in> set (to_paths t) \<or> rules_of rel \<in> set (to_paths t) \<or>
     list_ex (is_under rel) (to_subtrees t)"

interpretation dir_reports: event_report dir_event dir_hit
proof unfold_locales
  fix d e t gone t' gone' w p
  assume "sort_event d e (t, gone) = (t', gone')" "dir_event w e p" "wt_wds w (ev_wd e) = Some d"
  then show "dir_hit t' p"
    by (auto simp: sort_event_def dir_event_def touch_path_def touch_subtree_def dir_hit_def Let_def
        split: event_name.splits if_splits)
qed (auto simp: dir_event_def dir_hit_def list_ex_iff split: option.splits)

lemma watch_ancestor:
  assumes "a \<in> set (watch_ancestors p)"
  shows "prefix (below a) p"
proof (cases "a = []")
  case False
  with assms obtain i where i: "i < length p" "p ! i = CHR ''/''" "a = take i p" by (auto simp: watch_ancestors_def)
  then have "p = a @ CHR ''/'' # drop (Suc i) p" by (metis id_take_nth_drop)
  with False show ?thesis by (auto simp: below_def prefix_def)
qed (simp add: below_def)

lemma under_below: "is_under a g \<Longrightarrow> prefix (below g) (below a)"
  by (auto simp: is_under_def below_def strip_prefix_def prefix_def split: if_splits)

lemma under_ancestor: "a \<in> set (watch_ancestors p) \<Longrightarrow> is_under a g \<Longrightarrow> strictly_under p g"
  using watch_ancestor [of a p] under_below [of a g] unfolding strictly_under_def
  by (rule prefix_order.trans [rotated])

lemma parent_ancestor: "watch_directory p WFile \<in> set (watch_ancestors p)"
proof (cases "rsplit_once (CHR ''/'') p")
  case (Some r)
  obtain d name where r: "r = (d, name)" by fastforce
  with Some rsplit_once_Some [of "CHR ''/''" p d name] have "p = d @ CHR ''/'' # name" by simp
  then have "length d < length p" "p ! length d = CHR ''/''" "d = take (length d) p" by auto
  with Some r show ?thesis by (auto simp: watch_directory_def watch_ancestors_def intro!: image_eqI [of _ _ "length d"])
qed (simp add: watch_directory_def watch_ancestors_def)

lemma covers_iff: "watch_covers w p \<longleftrightarrow> (\<forall>a \<in> set (watch_ancestors p). wt_dirs w a \<noteq> None)"
  using parent_ancestor [of p]
  by (auto simp: watch_covers_def watches_def watch_directory_def list_all_iff split: option.splits)

lemma forget_under_dirs: "wt_dirs (forget_under g w) p = (if is_under p g then None else wt_dirs w p)"
  by (simp add: forget_under_def Let_def)

lemma fold_forget_dirs:
  "wt_dirs (fold forget_under gs w) p = (if \<exists>g \<in> set gs. is_under p g then None else wt_dirs w p)"
  by (induction gs arbitrary: w) (auto simp: forget_under_dirs)

lemma drain_covers:
  assumes "watcher_drain d w = (Some t, w')"
  shows "watch_covers w p \<Longrightarrow> \<not> watch_covers w' p \<Longrightarrow> hit t p"
    and "e \<in> set (dr_events d) \<Longrightarrow> file_event w e p \<Longrightarrow> hit t p"
proof -
  let ?w = "w\<lparr>wt_run := wt_run w + 1\<rparr>"
  from assms obtain gone where s: "sort_events ?w 0 (dr_events d) (no_touched, []) = Some (t, gone)"
      and w': "w' = fold forget_under gone ?w"
    by (auto simp: watcher_drain_def Let_def split: option.splits if_splits)
  show "hit t p" if "watch_covers w p" "\<not> watch_covers w' p"
  proof -
    from that obtain a where a: "a \<in> set (watch_ancestors p)" "wt_dirs w a \<noteq> None" "wt_dirs w' a = None"
      unfolding covers_iff by blast
    then obtain g where "g \<in> set gone" "is_under a g"
      using fold_forget_dirs [of gone ?w a] by (auto simp: w' split: if_splits)
    with a(1) sort_events_grows [OF s] under_ancestor show ?thesis by (fastforce simp: hit_def)
  qed
  show "hit t p" if "e \<in> set (dr_events d)" "file_event w e p"
    using file_reports.sort_events_met [OF s that(1)] that(2) by (simp add: file_event_def)
qed

text \<open>Adding watches keeps those that are there.\<close>

definition grows :: "watcher \<Rightarrow> watcher \<Rightarrow> bool" where
  "grows w w' \<longleftrightarrow> wt_dirs w \<subseteq>\<^sub>m wt_dirs w' \<and> wt_wds w \<subseteq>\<^sub>m wt_wds w'"

lemma grows_covers: "grows w w' \<Longrightarrow> watch_covers w p \<Longrightarrow> watch_covers w' p"
  by (auto simp: grows_def covers_iff map_le_def) (metis domI)

lemma grows_event: "grows w w' \<Longrightarrow> file_event w e p \<Longrightarrow> file_event w' e p"
  by (auto simp: grows_def file_event_def map_le_def split: option.splits) (metis domI option.inject)+

lemma grows_trans: "grows w1 w2 \<Longrightarrow> grows w2 w3 \<Longrightarrow> grows w1 w3"
  by (auto simp: grows_def intro: map_le_trans)

lemma grows_add:
  "wt_dirs w rel = None \<Longrightarrow> wt_wds w wd = None \<Longrightarrow>
     grows w (w\<lparr>wt_wds := (wt_wds w)(wd \<mapsto> rel), wt_dirs := (wt_dirs w)(rel \<mapsto> (wd, wt_run w))\<rparr>)"
  by (auto simp: grows_def map_le_def)

lemma watcher_add_grows: "watcher_add krn paths w = (r, w') \<Longrightarrow> grows w w'"
proof (induction krn paths w rule: watcher_add.induct)
  case (2 krn rel kind paths w)
  show ?case
  proof (cases "kind \<noteq> WDir \<or> wt_dirs w rel \<noteq> None")
    case False
    show ?thesis
    proof (cases "krn rel")
      case (WatchAdded wd)
      show ?thesis
      proof (cases "wt_wds w wd")
        case None
        with 2 False WatchAdded have "grows (w\<lparr>wt_wds := (wt_wds w)(wd \<mapsto> rel), wt_dirs := (wt_dirs w)(rel \<mapsto> (wd, wt_run w))\<rparr>) w'"
          by auto
        with None False grows_add show ?thesis by (blast intro: grows_trans)
      qed (use 2 False WatchAdded in auto)
    qed (use 2 False in \<open>auto simp: grows_def\<close>)
  qed (use 2 in auto)
qed (simp add: grows_def)

section \<open>Runs under a watch\<close>

text \<open>
  What may happen between and during runs, seen from the file metadata \<open>W\<close> and the events the kernel
  holds: files change, and the kernel queues an event for each change under a watch (and any others); a
  run begins and drains them; a walk settles; the index is compared. A comparison looks at each file at
  some moment after its watches were added: what it saw has either not changed since or an event is
  queued. \<open>idx\<close> gives the index a key names.
\<close>

inductive watched :: "(string \<Rightarrow> git_index) \<Rightarrow> look \<Rightarrow> watch_event list \<Rightarrow> watch \<Rightarrow> bool" for idx where
  start: "watched idx W [] watch_new"
| change: "watched idx W q wa \<Longrightarrow>
    (\<And>p. watch_covers (wa_watcher wa) p \<Longrightarrow> W p \<noteq> W' p \<Longrightarrow> \<exists>e \<in> set es. file_event (wa_watcher wa) e p) \<Longrightarrow>
    watched idx W' (q @ es) wa"
| begin_run: "watched idx W q wa \<Longrightarrow>
    watch_begin \<lparr>dr_events = q, dr_fails = fails\<rparr> fresh wa = (None, wa') \<Longrightarrow> watched idx W [] wa'"
| settle: "watched idx W q wa \<Longrightarrow> watched idx W q (watch_settle krn stamp seen wa)"
| compare: "watched idx W q wa \<Longrightarrow> index_ok ix \<Longrightarrow> (\<And>k. index_key ix = Some k \<Longrightarrow> idx k = ix) \<Longrightarrow>
    watched_suspects krn look ix wa = (found, wa') \<Longrightarrow> wa_failure wa' = None \<Longrightarrow>
    (\<And>p. watch_covers (wa_watcher wa') p \<Longrightarrow> look p = W p \<or> (\<exists>e \<in> set q. file_event (wa_watcher wa') e p)) \<Longrightarrow>
    watched idx W q wa'"

text \<open>
  What a comparison leaves out holds: the entry was found clean with metadata that is still the file's,
  or a report or a queued event concerns it.
\<close>

definition still_known :: "look \<Rightarrow> watch_event list \<Rightarrow> watcher \<Rightarrow> touched \<Rightarrow> git_index \<Rightarrow> index_entry \<Rightarrow> bool" where
  "still_known W q w t ix e \<longleftrightarrow>
     exempt e \<or>
     (\<exists>m. entry_vouched ix m e \<and>
       (hit t (ie_path e) \<or>
        watch_covers w (ie_path e) \<and> (m = W (ie_path e) \<or> (\<exists>ev \<in> set q. file_event w ev (ie_path e)))))"

definition baseline_ok :: "(string \<Rightarrow> git_index) \<Rightarrow> look \<Rightarrow> watch_event list \<Rightarrow> watch \<Rightarrow> bool" where
  "baseline_ok idx W q wa \<longleftrightarrow>
     (case wa_baseline wa of
        None \<Rightarrow> True
      | Some b \<Rightarrow>
          let ix = idx (bl_index b) in
          list_all (\<lambda>i. i < length (gi_entries ix)) (bl_recheck b) \<and>
          (\<forall>i < length (gi_entries ix). i \<notin> set (bl_recheck b) \<longrightarrow>
            still_known W q (wa_watcher wa) (wa_touched wa) ix (gi_entries ix ! i)))"

lemma still_known_mono:
  assumes "still_known W q w t ix e"
    and "hit t (ie_path e) \<Longrightarrow> hit t' (ie_path e)"
    and "watch_covers w (ie_path e) \<Longrightarrow> watch_covers w' (ie_path e) \<or> hit t' (ie_path e)"
    and "\<And>ev. ev \<in> set q \<Longrightarrow> file_event w ev (ie_path e) \<Longrightarrow>
      hit t' (ie_path e) \<or> (\<exists>ev \<in> set q'. file_event w' ev (ie_path e))"
    and "watch_covers w (ie_path e) \<Longrightarrow>
      W (ie_path e) = W' (ie_path e) \<or> (\<exists>ev \<in> set q'. file_event w' ev (ie_path e))"
  shows "still_known W' q' w' t' ix e"
  using assms unfolding still_known_def by metis

lemma baseline_okI:
  assumes "baseline_ok idx W q wa" "wa_baseline wa' = wa_baseline wa"
    and "\<And>ix e. still_known W q (wa_watcher wa) (wa_touched wa) ix e \<Longrightarrow>
      still_known W' q' (wa_watcher wa') (wa_touched wa') ix e"
  shows "baseline_ok idx W' q' wa'"
  using assms by (auto simp: baseline_ok_def Let_def split: option.splits)

lemma baseline_ok_change:
  assumes "baseline_ok idx W q wa"
    and "\<And>p. watch_covers (wa_watcher wa) p \<Longrightarrow> W p \<noteq> W' p \<Longrightarrow> \<exists>e \<in> set es. file_event (wa_watcher wa) e p"
  shows "baseline_ok idx W' (q @ es) wa"
  using assms(1)
proof (rule baseline_okI)
  fix ix e
  assume "still_known W q (wa_watcher wa) (wa_touched wa) ix e"
  then show "still_known W' (q @ es) (wa_watcher wa) (wa_touched wa) ix e"
    by (rule still_known_mono) (use assms(2) in auto)
qed simp

lemma baseline_ok_grow:
  assumes "baseline_ok idx W q wa" "grows (wa_watcher wa) (wa_watcher wa')"
    and "wa_baseline wa' = wa_baseline wa" "wa_touched wa' = wa_touched wa"
  shows "baseline_ok idx W q wa'"
  using assms(1,3)
proof (rule baseline_okI)
  fix ix e
  assume "still_known W q (wa_watcher wa) (wa_touched wa) ix e"
  then show "still_known W q (wa_watcher wa') (wa_touched wa') ix e"
    by (rule still_known_mono) (use assms(2,4) grows_covers grows_event in \<open>fastforce+\<close>)
qed

lemma watch_settle_grows:
  "grows (wa_watcher wa) (wa_watcher (watch_settle krn stamp seen wa)) \<and>
   wa_baseline (watch_settle krn stamp seen wa) = wa_baseline wa \<and>
   wa_touched (watch_settle krn stamp seen wa) = wa_touched wa"
  by (auto simp: watch_settle_def Let_def grows_def dest: watcher_add_grows [unfolded grows_def] split: prod.split option.split)

lemma baseline_ok_begin:
  assumes "baseline_ok idx W q wa" "watch_begin \<lparr>dr_events = q, dr_fails = fails\<rparr> fresh wa = (None, wa')"
  shows "baseline_ok idx W [] wa'"
proof (cases "wa_baseline wa' = None")
  case False
  with assms(2) obtain t w where d: "watcher_drain \<lparr>dr_events = q, dr_fails = fails\<rparr> (wa_watcher wa) = (Some t, w)"
    and wa': "wa_watcher wa' = w" "wa_baseline wa' = wa_baseline wa"
      "wa_touched wa' = \<lparr>to_paths = List.union (to_paths t) (to_paths (wa_touched wa)),
         to_subtrees = to_subtrees (wa_touched wa) @ to_subtrees t\<rparr>"
    by (auto simp: watch_begin_def watch_forget_def Let_def split: prod.splits option.splits if_splits)
  have both: "hit t p \<Longrightarrow> hit (wa_touched wa') p" "hit (wa_touched wa) p \<Longrightarrow> hit (wa_touched wa') p" for p
    by (auto simp: hit_def wa'(3))
  show ?thesis
    using assms(1) wa'(2)
  proof (rule baseline_okI)
    fix ix e
    assume "still_known W q (wa_watcher wa) (wa_touched wa) ix e"
    then show "still_known W [] (wa_watcher wa') (wa_touched wa') ix e"
      by (rule still_known_mono) (use both drain_covers [OF d] in \<open>auto simp: wa'(1)\<close>)
  qed
qed (simp add: baseline_ok_def)

section \<open>The comparison\<close>

lemma picked_set:
  "set (picked ix key t base) =
     (case base of
        Some b \<Rightarrow> if bl_index b = key then set (bl_recheck b) \<union> set (reported ix t)
          else {i. i < length (gi_entries ix) \<and> \<not> exempt (gi_entries ix ! i)}
      | None \<Rightarrow> {i. i < length (gi_entries ix) \<and> \<not> exempt (gi_entries ix ! i)})"
  by (auto simp: picked_def split: option.split)

lemma picked_sorted: "sorted (picked ix key t base) \<and> distinct (picked ix key t base)"
proof -
  have "sorted (remdups (sort xs))" for xs :: "nat list"
    using sorted_sort [of xs] by (metis set_sort sorted_list_of_set_sort_remdups sorted_remdups)
  then show ?thesis by (auto simp: picked_def sorted_wrt_filter sorted_remdups split: option.split)
qed

lemma watch_files_grows:
  "watch_files krn rels wa = (ok, wa') \<Longrightarrow> grows (wa_watcher wa) (wa_watcher wa') \<and> wa_baseline wa' = wa_baseline wa \<and>
     wa_touched wa' = wa_touched wa \<and> (\<not> ok \<longrightarrow> wa_failure wa' \<noteq> None)"
  by (auto simp: watch_files_def dest: watcher_add_grows split: prod.splits option.splits)

lemma keep_files_simps [simp]: "wa_watcher (keep_files rels wa) = wa_watcher wa"
  "wa_baseline (keep_files rels wa) = wa_baseline wa" "wa_touched (keep_files rels wa) = wa_touched wa"
  by (simp_all add: keep_files_def retain_files_def)

text \<open>A comparison by cases: the suspects among the chosen positions, and the positions to look at again.\<close>

lemma watched_suspects_cases:
  assumes "watched_suspects krn look ix wa = (found, wa')" "wa_failure wa' = None"
  obtains (unkeyed) "index_key ix = None" "found = None" "wa_baseline wa' = None"
    | (compared) key where "index_key ix = Some key"
      "found = Some (map (\<lambda>i. ie_path (gi_entries ix ! i))
         (filter (\<lambda>i. \<not> entry_vouched ix (look (ie_path (gi_entries ix ! i))) (gi_entries ix ! i))
           (picked ix key (wa_touched wa) (wa_baseline wa))))"
      "grows (wa_watcher wa) (wa_watcher wa')" "wa_touched wa' = no_touched"
      "wa_baseline wa' = Some \<lparr>bl_index = key, bl_recheck =
         filter (\<lambda>i. \<not> entry_vouched ix (look (ie_path (gi_entries ix ! i))) (gi_entries ix ! i) \<or>
           \<not> (valid_utf8 (ie_path (gi_entries ix ! i)) \<and> watch_covers (wa_watcher wa') (ie_path (gi_entries ix ! i))))
         (picked ix key (wa_touched wa) (wa_baseline wa))\<rparr>"
proof (cases "index_key ix")
  case None
  with assms(1) show ?thesis by (intro unkeyed) (auto simp: watched_suspects_def Let_def)
next
  case (Some key)
  let ?chosen = "picked ix key (wa_touched wa) (wa_baseline wa)"
  let ?v = "\<lambda>i. entry_vouched ix (look (ie_path (gi_entries ix ! i))) (gi_entries ix ! i)"
  obtain ok wa1 where f: "watch_files krn (filter valid_utf8 (map (\<lambda>i. ie_path (gi_entries ix ! i)) ?chosen))
      (wa\<lparr>wa_touched := no_touched\<rparr>) = (ok, wa1)" by fastforce
  have z: "zip ?chosen (vouch look ix (map ((!) (gi_entries ix)) ?chosen)) = map (\<lambda>i. (i, ?v i)) ?chosen"
    by (simp add: vouch_map zip_map2 zip_same_conv_map comp_def)
  have ok: "ok"
  proof (rule ccontr)
    assume "\<not> ok"
    with assms Some f watch_files_grows [OF f] show False by (auto simp: watched_suspects_def Let_def)
  qed
  let ?wa2 = "if same_index key (wa_baseline wa) then wa1
    else keep_files (filter valid_utf8 (map (\<lambda>i. ie_path (gi_entries ix ! i)) ?chosen)) wa1"
  have w2: "wa_watcher ?wa2 = wa_watcher wa1" "wa_touched ?wa2 = wa_touched wa1" by simp_all
  let ?wa3 = "?wa2\<lparr>wa_baseline := Some \<lparr>bl_index = key,
      bl_recheck = map fst (filter (\<lambda>(i, v). \<not> v \<or> \<not> (valid_utf8 (ie_path (gi_entries ix ! i)) \<and>
        watch_covers (wa_watcher ?wa2) (ie_path (gi_entries ix ! i)))) (map (\<lambda>i. (i, ?v i)) ?chosen))\<rparr>\<rparr>"
  have "watched_suspects krn look ix wa =
      (Some (map (\<lambda>(i, v). ie_path (gi_entries ix ! i)) (filter (\<lambda>(i, v). \<not> v) (map (\<lambda>i. (i, ?v i)) ?chosen))), ?wa3)"
    using Some f ok by (simp add: watched_suspects_def Let_def z del: disj_not1 de_Morgan_conj)
  from trans [OF assms(1) [symmetric] this] have w': "wa' = ?wa3" and
    "found = Some (map (\<lambda>(i, v). ie_path (gi_entries ix ! i)) (filter (\<lambda>(i, v). \<not> v) (map (\<lambda>i. (i, ?v i)) ?chosen)))"
    by (rule prod.inject [THEN iffD1, THEN conjunct2], rule prod.inject [THEN iffD1, THEN conjunct1])
  moreover have "wa_watcher wa' = wa_watcher wa1" "wa_touched wa' = wa_touched wa1"
    using w2 by (simp_all add: w')
  ultimately show ?thesis
    using Some watch_files_grows [OF f]
    by (intro compared [of key]) (simp_all add: filter_map comp_def w2)
qed

lemma vouched_exempt: "exempt e \<Longrightarrow> entry_vouched ix m e"
  by (simp add: entry_vouched_def)

lemma vouched_stage: "entry_vouched ix m e \<Longrightarrow> \<not> exempt e \<Longrightarrow> ie_stage e = 0"
  by (auto simp: entry_vouched_def split: if_splits)

text \<open>An entry a comparison does not choose is clean as the files are, or its event is queued.\<close>

lemma unpicked_known:
  assumes "baseline_ok idx W q wa" "index_ok ix" "idx key = ix" "i < length (gi_entries ix)"
    and "i \<notin> set (picked ix key (wa_touched wa) (wa_baseline wa))"
  shows "still_known W q (wa_watcher wa) no_touched ix (gi_entries ix ! i)"
proof (cases "exempt (gi_entries ix ! i)")
  case False
  let ?e = "gi_entries ix ! i"
  from assms(4,5) False obtain b where b: "wa_baseline wa = Some b" "bl_index b = key"
      "i \<notin> set (bl_recheck b)" "i \<notin> set (reported ix (wa_touched wa))"
    by (auto simp: picked_set split: option.splits if_splits)
  with assms(1,3,4) have "still_known W q (wa_watcher wa) (wa_touched wa) ix ?e"
    by (auto simp: baseline_ok_def Let_def)
  with False obtain m where m: "entry_vouched ix m ?e"
      "hit (wa_touched wa) (ie_path ?e) \<or> watch_covers (wa_watcher wa) (ie_path ?e) \<and>
        (m = W (ie_path ?e) \<or> (\<exists>ev \<in> set q. file_event (wa_watcher wa) ev (ie_path ?e)))"
    by (auto simp: still_known_def)
  moreover have "\<not> hit (wa_touched wa) (ie_path ?e)"
    using reported_hit [OF assms(2,4) vouched_stage [OF m(1) False]] b(4) by blast
  ultimately show ?thesis by (auto simp: still_known_def)
qed (simp add: still_known_def)

lemma baseline_ok_compare:
  assumes "baseline_ok idx W q wa" "index_ok ix" "\<And>k. index_key ix = Some k \<Longrightarrow> idx k = ix"
    and "watched_suspects krn look ix wa = (found, wa')" "wa_failure wa' = None"
    and look: "\<And>p. watch_covers (wa_watcher wa') p \<Longrightarrow> look p = W p \<or> (\<exists>e \<in> set q. file_event (wa_watcher wa') e p)"
  shows "baseline_ok idx W q wa'"
  using assms(4,5)
proof (cases rule: watched_suspects_cases)
  case (compared key)
  from assms(3) [OF compared(1)] have ix: "idx key = ix" .
  let ?chosen = "picked ix key (wa_touched wa) (wa_baseline wa)"
  have "i < length (gi_entries ix)" if "i \<in> set ?chosen" for i
    using that assms(1) ix reported_bound [OF assms(2)]
    by (auto simp: picked_set baseline_ok_def list_all_iff Let_def split: option.splits if_splits)
  moreover have "still_known W q (wa_watcher wa') no_touched ix (gi_entries ix ! i)"
    if i: "i < length (gi_entries ix)" and "i \<notin> set ?chosen" for i
    using unpicked_known [OF assms(1,2) ix that]
    by (rule still_known_mono) (use grows_covers grows_event compared(3) in \<open>fastforce+\<close>)
  moreover have "still_known W q (wa_watcher wa') no_touched ix (gi_entries ix ! i)"
    if "entry_vouched ix (look (ie_path (gi_entries ix ! i))) (gi_entries ix ! i)"
      "watch_covers (wa_watcher wa') (ie_path (gi_entries ix ! i))" for i
    using look [OF that(2)] that by (auto simp: still_known_def)
  ultimately show ?thesis
    by (auto simp: baseline_ok_def compared(4,5) ix list_all_iff)
qed (simp add: baseline_ok_def)

lemma watched_baseline: "watched idx W q wa \<Longrightarrow> baseline_ok idx W q wa"
proof (induction rule: watched.induct)
  case (start W)
  then show ?case by (simp add: baseline_ok_def watch_new_def)
next
  case (change W q wa W' es)
  then show ?case using baseline_ok_change by blast
next
  case (begin_run W q wa fails fresh wa')
  then show ?case using baseline_ok_begin by blast
next
  case (settle W q wa krn stamp seen)
  then show ?case using baseline_ok_grow watch_settle_grows by metis
next
  case (compare W q wa ix krn look found wa')
  then show ?case using baseline_ok_compare by blast
qed

section \<open>Properties\<close>

lemma full_suspects_filter:
  "full_suspects look ix = map (\<lambda>i. ie_path (gi_entries ix ! i))
     (filter (\<lambda>i. \<not> entry_vouched ix (look (ie_path (gi_entries ix ! i))) (gi_entries ix ! i)) [0..<length (gi_entries ix)])"
proof -
  let ?es = "gi_entries ix" and ?v = "\<lambda>e. entry_vouched ix (look (ie_path e)) e"
  have "full_suspects look ix = map ie_path (filter (\<lambda>e. \<not> ?v e) ?es)"
    by (simp add: full_suspects_def vouch_map zip_map2 zip_same_conv_map filter_map comp_def)
  also have "\<dots> = map ie_path (filter (\<lambda>e. \<not> ?v e) (map ((!) ?es) [0..<length ?es]))" by (simp add: map_nth)
  finally show ?thesis by (simp add: filter_map comp_def)
qed

lemma watched_finds_all:
  assumes "watched idx W [] wa" "index_ok ix" "\<And>k. index_key ix = Some k \<Longrightarrow> idx k = ix"
    and "watched_suspects krn W ix wa = (Some found, wa')" "wa_failure wa' = None"
  shows "found = full_suspects W ix"
  using assms(4,5)
proof (cases rule: watched_suspects_cases)
  case (compared key)
  from assms(3) [OF compared(1)] have ix: "idx key = ix" .
  let ?chosen = "picked ix key (wa_touched wa) (wa_baseline wa)"
  let ?bad = "\<lambda>i. \<not> entry_vouched ix (W (ie_path (gi_entries ix ! i))) (gi_entries ix ! i)"
  have ok: "baseline_ok idx W [] wa" using assms(1) by (rule watched_baseline)
  have "i < length (gi_entries ix)" if "i \<in> set ?chosen" for i
    using that ok ix reported_bound [OF assms(2)]
    by (auto simp: picked_set baseline_ok_def list_all_iff Let_def split: option.splits if_splits)
  moreover have "\<not> ?bad i" if "i < length (gi_entries ix)" "i \<notin> set ?chosen" for i
    using unpicked_known [OF ok assms(2) ix that]
    by (auto simp: still_known_def no_touched_def hit_def vouched_exempt)
  ultimately have "set (filter ?bad ?chosen) = set (filter ?bad [0..<length (gi_entries ix)])" by auto
  then have "filter ?bad ?chosen = filter ?bad [0..<length (gi_entries ix)]"
    by (intro sorted_distinct_set_unique) (use picked_sorted [of ix key] in \<open>auto simp: sorted_wrt_filter\<close>)
  with compared(2) show ?thesis by (simp add: full_suspects_filter)
qed simp

lemma ruled_rules_of: "ruled (rules_of rel) = Some rel"
  by (simp add: ruled_def rules_of_def strip_suffix_def suffix_def)

lemma fold_unclean:
  "fold unclean ps clean rel = (if rel \<in> set ps \<or> (\<exists>p \<in> set ps. ruled p = Some rel) then None else clean rel)"
  by (induction ps arbitrary: clean) (auto simp: unclean_def Let_def split: option.split)

lemma begin_clean_Some:
  "begin_clean t clean rel = Some si \<Longrightarrow> clean rel = Some si \<and> \<not> dir_hit t rel"
  using ruled_rules_of [of rel]
  by (auto simp: begin_clean_def dir_hit_def fold_unclean Let_def list_ex_iff split: if_splits)

text \<open>
  A directory a new run replays without a look was clean before, and no event the run drained
  concerns it: none of the directory, of an entry added to it or removed from it, of its ignore rules, or
  of a directory above it that is gone; when reports were lost, or too many to sort, none is replayed.
\<close>

theorem clean_directories_are_unreported:
  assumes "watch_begin \<lparr>dr_events = q, dr_fails = fails\<rparr> fresh wa = (None, wa')" "wa_clean wa' rel = Some si"
  shows "wa_clean wa rel = Some si \<and> \<not> list_ex (\<lambda>e. dir_event (wa_watcher wa) e rel) q \<and> \<not> fails \<and> length q \<le> REPORTS"
proof -
  let ?w = "(wa_watcher wa)\<lparr>wt_run := wt_run (wa_watcher wa) + 1\<rparr>"
  from assms obtain t gone where s: "sort_events ?w 0 q (no_touched, []) = Some (t, gone)" "\<not> fails"
      and c: "begin_clean t (wa_clean wa) rel = Some si"
    by (auto simp: watch_begin_def watch_forget_def watcher_drain_def Let_def
        split: prod.splits option.splits if_splits)
  have "length evs \<le> REPORTS - n" if "sort_events w n evs acc = Some r" for w n evs acc r
    using that by (induction w n evs acc rule: sort_events.induct) (auto split: if_splits option.splits)
  from this [OF s(1)] have "length q \<le> REPORTS" by simp
  moreover have "\<not> dir_event (wa_watcher wa) e rel" if "e \<in> set q" for e
  proof -
    have "dir_event ?w e rel = dir_event (wa_watcher wa) e rel" by (simp add: dir_event_def)
    with dir_reports.sort_events_met [OF s(1) that, of rel] begin_clean_Some [OF c] show ?thesis by blast
  qed
  ultimately show ?thesis using begin_clean_Some [OF c] s(2) by (auto simp: list_ex_iff)
qed

text \<open>
  C5: A watched comparison misses nothing: whatever changed before, between and during earlier runs, runs
  that compared other indexes or none, walks that added watches and reports that overflowed, a run that
  begins with the reports up to now and finds no further change compares only what the watch cannot vouch
  for, and yet finds exactly the suspects a comparison of every entry finds, in the same order. The kernel
  has to queue an event for every change under its watches, and gix to look paths up in its index.
\<close>

theorem watched_comparison_misses_nothing:
  assumes "watched idx W [] wa" "index_ok ix" "\<And>k. index_key ix = Some k \<Longrightarrow> idx k = ix"
    and "watched_suspects krn W ix wa = (Some found, wa')" "wa_failure wa' = None"
  shows "found = full_suspects W ix"
  using assms by (rule watched_finds_all)

definition sample_entry :: index_entry where
  "sample_entry = \<lparr>ie_path = ''a.ts'', ie_mode = MODE_FILE, ie_stage = 0, ie_skip_worktree = False,
     ie_assume_valid = False, ie_intent_to_add = False,
     ie_stat = \<lparr>is_mtime_secs = 1, is_mtime_nsecs = 0, is_ctime_secs = 1, is_ctime_nsecs = 0, is_size = 3, is_ino = 7,
       is_uid = 0, is_gid = 0\<rparr>\<rparr>"

definition sample_index :: git_index where
  "sample_index = \<lparr>gi_entries = [sample_entry], gi_checksum = Some [CHR 0x01], gi_secs = 5, gi_nanos = 0,
     gi_by_path = (\<lambda>p. if p = ''a.ts'' then Some 0 else None),
     gi_prefixed = (\<lambda>pre. if prefix pre ''a.ts'' then [0] else [])\<rparr>"

definition sample_meta :: file_meta where
  "sample_meta = \<lparr>md_is_file = True, md_dev = 0, md_ino = 7, md_size = 3, md_mtime = 1, md_mtime_nsec = 0, md_ctime = 1,
     md_ctime_nsec = 0, fm_mode = MODE_FILE, fm_uid = 0, fm_gid = 0\<rparr>"

definition sample_key :: string where
  "sample_key = [CHR 0x01] @ le_bytes64 5 @ map (\<lambda>i. char_of (unat (0 :: u32) div 256 ^ i)) [0..<4]"

definition sample_watch :: watch where
  "sample_watch = \<lparr>wa_watcher = \<lparr>wt_dirs = [[] \<mapsto> (1, 0)], wt_wds = [1 \<mapsto> []], wt_run = 0\<rparr>, wa_clean = Map.empty,
     wa_baseline = Some \<lparr>bl_index = sample_key, bl_recheck = []\<rparr>, wa_touched = no_touched, wa_failure = None\<rparr>"

definition sample_watch_later :: watch where
  "sample_watch_later = \<lparr>wa_watcher = \<lparr>wt_dirs = [[] \<mapsto> (1, 0)], wt_wds = [1 \<mapsto> []], wt_run = 1\<rparr>, wa_clean = Map.empty,
     wa_baseline = Some \<lparr>bl_index = sample_key, bl_recheck = []\<rparr>,
     wa_touched = \<lparr>to_paths = [[], ''a.ts''], to_subtrees = []\<rparr>, wa_failure = None\<rparr>"

lemma sample_index_simps: "index_key sample_index = Some sample_key" "gi_entries sample_index = [sample_entry]"
  "ie_path sample_entry = ''a.ts''" "\<not> exempt sample_entry" "watch_ancestors ''a.ts'' = [[]]"
  by (simp_all add: sample_index_def index_key_def sample_key_def sample_entry_def exempt_def is_file_mode_def MODE_FILE_def
      watch_ancestors_def upt_rec)

lemma sample_index_ok: "index_ok sample_index"
  by (auto simp: index_ok_def sample_index_def sample_entry_def)

lemma sample_vouched: "entry_vouched sample_index (Some sample_meta) sample_entry"
  "\<not> entry_vouched sample_index None sample_entry"
  by (simp_all add: entry_vouched_def sample_entry_def sample_meta_def sample_index_def exempt_def is_file_mode_def
      MODE_FILE_def MODE_FILE_EXECUTABLE_def low_def)

lemma sample_utf8: "valid_utf8 ''a.ts''"
  by (simp add: valid_utf8.simps(2) byte_in_def)

lemma sample_compared:
  "watched_suspects (\<lambda>_. WatchAdded 1) [''a.ts'' \<mapsto> sample_meta] sample_index watch_new = (Some [], sample_watch)"
  by (simp add: watched_suspects_def sample_index_simps picked_def watch_new_def no_touched_def sample_utf8 watch_files_def
      watcher_new_def vouch_map sample_vouched same_index_def keep_files_def retain_files_def watch_covers_def watches_def
      watch_directory_def sample_watch_def Let_def)

lemma sample_begun:
  "watch_begin \<lparr>dr_events = [\<lparr>ev_wd = 1, ev_name = Named ''a.ts'', ev_flags = [EvDelete]\<rparr>], dr_fails = False\<rparr> None sample_watch =
     (None, sample_watch_later)"
  by (simp add: watch_begin_def watcher_drain_def sample_watch_def REPORTS_def intersects_def sort_event_def ENTRIES_def
      child_path_def touch_path_def no_touched_def begin_clean_def unclean_def touched_len_def sample_watch_later_def
      ruled_def strip_suffix_def Let_def fun_eq_iff List.union_def split: option.split)

lemma sample_reported: "reported sample_index \<lparr>to_paths = [[], ''a.ts''], to_subtrees = []\<rparr> = [0, 0]"
  by (simp add: reported_def files_in_def below_def sample_index_def sample_entry_def)

lemma sample_compared_later:
  "watched_suspects (\<lambda>_. WatchAdded 1) Map.empty sample_index sample_watch_later =
     (Some [''a.ts''], sample_watch_later\<lparr>wa_touched := no_touched, wa_baseline := Some \<lparr>bl_index = sample_key, bl_recheck = [0]\<rparr>\<rparr>)"
  by (simp add: watched_suspects_def sample_index_simps picked_def sample_watch_later_def no_touched_def sample_utf8
      watch_files_def vouch_map sample_vouched same_index_def sample_reported Let_def)

theorem watched_comparison_misses_nothing_witness:
  "full_suspects Map.empty sample_index = [''a.ts''] \<and>
   fst (watched_suspects (\<lambda>_. WatchAdded 1) Map.empty sample_index sample_watch_later) = Some (full_suspects Map.empty sample_index)"
proof -
  have k: "\<And>k. index_key sample_index = Some k \<Longrightarrow> (\<lambda>_. sample_index) k = sample_index" by simp
  have "watched (\<lambda>_. sample_index) [''a.ts'' \<mapsto> sample_meta] [] sample_watch"
    by (rule watched.compare [OF watched.start sample_index_ok k sample_compared]) (simp_all add: sample_watch_def)
  then have "watched (\<lambda>_. sample_index) Map.empty ([] @ [\<lparr>ev_wd = 1, ev_name = Named ''a.ts'', ev_flags = [EvDelete]\<rparr>]) sample_watch"
    by (rule watched.change)
      (auto simp: file_event_def sample_watch_def child_path_def watch_covers_def watches_def split: if_splits)
  then have "watched (\<lambda>_. sample_index) Map.empty [] sample_watch_later"
    using sample_begun by (auto intro: watched.begin_run)
  from watched_comparison_misses_nothing [OF this sample_index_ok k sample_compared_later] sample_compared_later
  show ?thesis by (simp add: sample_watch_later_def)
qed

definition sample_clean_watch :: watch where
  "sample_clean_watch = sample_watch\<lparr>wa_clean :=
     [[] \<mapsto> \<lparr>si_stamp = default_stamp, si_rules = None\<rparr>, ''b'' \<mapsto> \<lparr>si_stamp = default_stamp, si_rules = None\<rparr>]\<rparr>"

theorem clean_directories_are_unreported_witness:
  "wa_clean (snd (watch_begin \<lparr>dr_events = [\<lparr>ev_wd = 1, ev_name = Named ''a.ts'', ev_flags = [EvDelete]\<rparr>], dr_fails = False\<rparr>
     None sample_clean_watch)) ''b'' = Some \<lparr>si_stamp = default_stamp, si_rules = None\<rparr> \<and>
   \<not> dir_event (wa_watcher sample_clean_watch) \<lparr>ev_wd = 1, ev_name = Named ''a.ts'', ev_flags = [EvDelete]\<rparr> ''b''"
proof -
  let ?r = "watch_begin \<lparr>dr_events = [\<lparr>ev_wd = 1, ev_name = Named ''a.ts'', ev_flags = [EvDelete]\<rparr>], dr_fails = False\<rparr>
     None sample_clean_watch"
  have "fst ?r = None \<and> wa_clean (snd ?r) ''b'' = Some \<lparr>si_stamp = default_stamp, si_rules = None\<rparr>"
    by (simp add: sample_clean_watch_def sample_watch_def watch_begin_def watcher_drain_def REPORTS_def intersects_def
        sort_event_def ENTRIES_def child_path_def touch_path_def no_touched_def begin_clean_def unclean_def touched_len_def
        ruled_def strip_suffix_def Let_def split: option.split)
  then have r: "?r = (None, snd ?r)" and c: "wa_clean (snd ?r) ''b'' = Some \<lparr>si_stamp = default_stamp, si_rules = None\<rparr>"
    by (metis prod.collapse, simp)
  from clean_directories_are_unreported [OF r c] c show ?thesis by simp
qed

end
