(* ===== verification/Discover.thy ===== *)
theory Discover imports
  Repositories
  WalkMemory
  WatchFacts
begin

text \<open>
  \<^verbatim>\<open>crates/discover/src/lib.rs\<close> with \<open>changed\<close>, \<open>all\<close>, \<open>staged\<close> and \<open>Tracked\<close> of \<^verbatim>\<open>git.rs\<close>: the files a
  run covers.
\<close>

section \<open>Tracked files\<close>

definition ascii_lower_char :: "char \<Rightarrow> char" where
  "ascii_lower_char c = (if 65 \<le> (of_char c :: nat) \<and> (of_char c :: nat) \<le> 90 then char_of ((of_char c :: nat) + 32) else c)"

definition ascii_lower :: "string \<Rightarrow> string" where
  "ascii_lower s = map ascii_lower_char s"

text \<open>Later entries replace earlier ones under the same key; the paths passed are kept beside.\<close>

record tracked =
  tk_files :: "(string \<times> string) list"
  tk_ignore_case :: bool

definition tracked_key :: "bool \<Rightarrow> string \<Rightarrow> string" where
  "tracked_key ignore_case rel = (if ignore_case then ascii_lower rel else rel)"

definition tracked_new :: "git_index \<Rightarrow> bool \<Rightarrow> tracked" where
  "tracked_new ix ignore_case =
     \<lparr>tk_files = fold (\<lambda>rel m. AList.update (tracked_key ignore_case rel) rel m)
        (filter valid_utf8 (map ie_path (filter (\<lambda>e. is_file_mode (ie_mode e)) (gi_entries ix)))) [],
      tk_ignore_case = ignore_case\<rparr>"

definition tracked_contains :: "tracked \<Rightarrow> string \<Rightarrow> bool" where
  "tracked_contains tk rel \<longleftrightarrow> map_of (tk_files tk) (tracked_key (tk_ignore_case tk) rel) \<noteq> None"

text \<open>The tracked files none of the visited paths names.\<close>

definition tracked_unvisited :: "tracked \<Rightarrow> string list \<Rightarrow> string list" where
  "tracked_unvisited tk visited =
     map snd (filter (\<lambda>(k, _). k \<notin> set (map (tracked_key (tk_ignore_case tk)) visited)) (tk_files tk))"

section \<open>What a run finds of a repository\<close>

datatype discover_error =
    GitError string
  | WalkError string string
  | PatternError string
  | OutsideRoot string string

text \<open>A difference between the tree of \<open>HEAD\<close> and the index: of an added, modified or rewritten path, or another.\<close>

datatype index_change = Addition string u32 | Modification string u32 | Rewrite string u32 | OtherIndexChange

record git_view =
  gv_index :: "string + git_index"
  gv_ignore_case :: bool
  gv_tree :: "string + string"
  gv_changes :: "string + index_change list"
  gv_status :: git_status
  gv_look :: look
  gv_stamp :: "string \<Rightarrow> stamp option"
  gv_kernel :: "string \<Rightarrow> add_watch"
  gv_regular :: "string \<Rightarrow> bool"
  gv_env :: walk_env
  gv_context :: rules_context
  gv_root :: dir_tree

section \<open>staged\<close>

definition staged_path :: "index_change \<Rightarrow> string list" where
  "staged_path c =
     (case c of
        Addition p m \<Rightarrow> if is_file_mode m \<and> valid_utf8 p then [p] else []
      | Modification p m \<Rightarrow> if is_file_mode m \<and> valid_utf8 p then [p] else []
      | Rewrite p m \<Rightarrow> if is_file_mode m \<and> valid_utf8 p then [p] else []
      | OtherIndexChange \<Rightarrow> [])"

definition staged ::
  "mem_codec \<Rightarrow> files \<Rightarrow> git_view \<Rightarrow> git_index \<Rightarrow> scope_filter \<Rightarrow> memory option \<Rightarrow>
    (discover_error + sourcefile list) \<times> memory option" where
  "staged mc fs gv ix filt mem =
     (case gv_tree gv of
        Inl e \<Rightarrow> (Inl (GitError e), mem)
      | Inr tree \<Rightarrow>
          let key = (case (mem, gi_checksum ix) of (Some m, Some sum_) \<Rightarrow> Some (m, sum_) | _ \<Rightarrow> None);
              known = (case key of Some (m, sum_) \<Rightarrow> mem_staged mc fs m tree sum_ | None \<Rightarrow> None)
          in case known of
               Some paths \<Rightarrow> (Inr (concat (map (push filt) paths)), mem)
             | None \<Rightarrow>
                 (case gv_changes gv of
                    Inl e \<Rightarrow> (Inl (GitError e), mem)
                  | Inr changes \<Rightarrow>
                      let paths = concat (map staged_path changes) in
                      (Inr (concat (map (push filt) paths)),
                       (case key of
                          Some (m, sum_) \<Rightarrow> Some (mem_remember_staged \<lparr>sg_tree = tree, sg_index = sum_, sg_paths = paths\<rparr> m)
                        | None \<Rightarrow> mem))))"

section \<open>changed and all\<close>

definition run_env :: "git_view \<Rightarrow> scope_filter \<Rightarrow> memory option \<Rightarrow> watch option \<Rightarrow> walk_env" where
  "run_env gv filt mem wa =
     (gv_env gv)\<lparr>we_filter := filt, we_memory := mem,
       we_sight := (if mem = None then None else map_option wa_clean wa)\<rparr>"

definition settle_walk :: "git_view \<Rightarrow> scope_filter \<Rightarrow> memory option \<Rightarrow> watch option \<Rightarrow> watch option \<Rightarrow> watch option" where
  "settle_walk gv filt mem before wa =
     (case wa of
        None \<Rightarrow> None
      | Some w \<Rightarrow>
          if mem = None then Some w
          else Some (watch_settle (gv_kernel gv) (gv_stamp gv)
            (vo_seen (walk_out (run_env gv filt mem before) (gv_context gv) (gv_root gv))) w))"

text \<open>The comparison and the walk run at once: the walk reads the directories that were clean before either.\<close>

definition git_changed ::
  "mem_codec \<Rightarrow> files \<Rightarrow> git_view \<Rightarrow> scope_filter \<Rightarrow> memory option \<Rightarrow> watch option \<Rightarrow>
    (discover_error + sourcefile list) \<times> memory option \<times> watch option" where
  "git_changed mc fs gv filt mem wa =
     (case gv_index gv of
        Inl e \<Rightarrow> (Inl (GitError e), mem, wa)
      | Inr ix \<Rightarrow>
          let tk = tracked_new ix (gv_ignore_case gv) in
          case staged mc fs gv ix filt mem of
            (staged_files, mem1) \<Rightarrow>
          case git_walk (run_env gv filt mem1 wa) (gv_context gv) (gv_root gv) (\<lambda>rel. \<not> tracked_contains tk rel) of
            (untracked, mem2) \<Rightarrow>
          case worktree (gv_kernel gv) (gv_look gv) (gv_status gv) ix (pathspecs filt) filt wa of
            (work, wa1) \<Rightarrow>
          ((case work of
              Inl e \<Rightarrow> Inl (GitError e)
            | Inr (files, gone) \<Rightarrow>
                (case staged_files of
                   Inl e \<Rightarrow> Inl e
                 | Inr more_files \<Rightarrow>
                     (case untracked of
                        Inl (p, m) \<Rightarrow> Inl (WalkError p m)
                      | Inr walked \<Rightarrow>
                          Inr (filter (\<lambda>f. sf_rel f \<notin> set gone) (files @ more_files @ wk_files walked))))),
           mem2, settle_walk gv filt mem1 wa wa1))"

definition regular_files :: "git_view \<Rightarrow> scope_filter \<Rightarrow> string list \<Rightarrow> sourcefile list" where
  "regular_files gv filt rels =
     filter (\<lambda>f. gv_regular gv (sf_abs f)) (concat (map (\<lambda>rel. option_list (source_file filt rel)) rels))"

definition git_all ::
  "git_view \<Rightarrow> scope_filter \<Rightarrow> memory option \<Rightarrow> watch option \<Rightarrow>
    (discover_error + walked) \<times> memory option \<times> watch option" where
  "git_all gv filt mem wa =
     (case gv_index gv of
        Inl e \<Rightarrow> (Inl (GitError e), mem, wa)
      | Inr ix \<Rightarrow>
          let tk = tracked_new ix (gv_ignore_case gv);
              named = (case fl_prefixes filt of
                  Some ps \<Rightarrow> if list_all (tracked_contains tk) ps then Some ps else None
                | None \<Rightarrow> None)
          in case named of
               Some ps \<Rightarrow> (Inr \<lparr>wk_files = regular_files gv filt ps, wk_modules = []\<rparr>, mem, wa)
             | None \<Rightarrow>
                 let env = run_env gv filt mem wa;
                     visited = vo_files (walk_out env (gv_context gv) (gv_root gv))
                 in case git_walk env (gv_context gv) (gv_root gv) (\<lambda>_. True) of
                      (Inl (p, m), mem1) \<Rightarrow> (Inl (WalkError p m), mem1, wa)
                    | (Inr walked, mem1) \<Rightarrow>
                        (Inr (walked\<lparr>wk_files := wk_files walked @ regular_files gv filt (tracked_unvisited tk visited)\<rparr>),
                         mem1, settle_walk gv filt mem wa wa))"

section \<open>The scope\<close>

record scope =
  sc_all :: bool
  sc_lanes :: "lane list"
  sc_paths :: "string list"
  sc_cwd :: "string option"

record discovery =
  dv_files :: "sourcefile list"
  dv_missing :: "string list"
  dv_modules :: "string list"
  dv_git :: bool

text \<open>What \<open>canonicalize\<close> says of a path.\<close>

datatype canonical = CanonOk string | CanonMissing | CanonError string

definition path_components :: "string \<Rightarrow> string list" where
  "path_components p = (if prefix ''/'' p then [''/''] else []) @ filter (\<lambda>c. c \<noteq> []) (split_on (CHR ''/'') p)"

text \<open>\<open>to_slash\<close>, and \<open>Path::strip_prefix\<close> by components.\<close>

definition to_slash :: "string list \<Rightarrow> string" where
  "to_slash components = join_with ''/'' components"

definition strip_root :: "string \<Rightarrow> string \<Rightarrow> string list option" where
  "strip_root root p =
     (if prefix (path_components root) (path_components p)
      then Some (drop (length (path_components root)) (path_components p)) else None)"

fun resolve_each ::
  "(string \<Rightarrow> canonical) \<Rightarrow> string \<Rightarrow> string \<Rightarrow> string \<Rightarrow> string list \<Rightarrow> discover_error + (string list \<times> string list)" where
  "resolve_each canon cwd root resolved_root [] = Inr ([], [])"
| "resolve_each canon cwd root resolved_root (p # ps) =
     (case canon (path_join cwd p) of
        CanonMissing \<Rightarrow>
          (case resolve_each canon cwd root resolved_root ps of
             Inl e \<Rightarrow> Inl e | Inr (rels, missing) \<Rightarrow> Inr (rels, p # missing))
      | CanonError e \<Rightarrow> Inl (WalkError p e)
      | CanonOk resolved \<Rightarrow>
          (case strip_root resolved_root resolved of
             None \<Rightarrow> Inl (OutsideRoot p root)
           | Some rel \<Rightarrow>
               (case resolve_each canon cwd root resolved_root ps of
                  Inl e \<Rightarrow> Inl e | Inr (rels, missing) \<Rightarrow> Inr (to_slash rel # rels, missing))))"

definition resolve_paths ::
  "(string \<Rightarrow> canonical) \<Rightarrow> string + string \<Rightarrow> string \<Rightarrow> string option \<Rightarrow> string list \<Rightarrow>
    discover_error + (string list option \<times> string list)" where
  "resolve_paths canon current root cwd paths =
     (if paths = [] then Inr (None, [])
      else case (case cwd of Some d \<Rightarrow> Inr d | None \<Rightarrow> current) of
        Inl e \<Rightarrow> Inl (WalkError ''.'' e)
      | Inr d \<Rightarrow>
          (case resolve_each canon d root (case canon root of CanonOk r \<Rightarrow> r | _ \<Rightarrow> path_join d root) paths of
             Inl e \<Rightarrow> Inl e
           | Inr (rels, missing) \<Rightarrow>
               if [] \<in> set rels then Inr (None, missing) else Inr (Some (remdups (sort rels)), missing)))"

text \<open>Sorted by path, without repetition of a path.\<close>

fun dedup_rel :: "sourcefile list \<Rightarrow> sourcefile list" where
  "dedup_rel (a # b # fs) = (if sf_rel a = sf_rel b then dedup_rel (a # fs) else a # dedup_rel (b # fs))"
| "dedup_rel fs = fs"

definition tidy_files :: "sourcefile list \<Rightarrow> sourcefile list" where
  "tidy_files fs = dedup_rel (sort_key sf_rel fs)"

text \<open>
  \<open>discover_with\<close>: \<open>plain\<close> is the walk of a directory that is no work tree, by the \<open>ignore\<close> crate.
\<close>

definition find_files ::
  "(scope_filter \<Rightarrow> string + string list) \<Rightarrow> mem_codec \<Rightarrow> files \<Rightarrow> (string + git_view) \<Rightarrow> bool \<Rightarrow> bool \<Rightarrow>
    string \<Rightarrow> scope_filter \<Rightarrow> memory option \<Rightarrow> watch option \<Rightarrow>
    (discover_error + walked) \<times> memory option \<times> watch option" where
  "find_files plain mc fs opened git every root filt mem wa =
     (if \<not> git
      then (case plain filt of
              Inl e \<Rightarrow> (Inl (WalkError root e), mem, wa)
            | Inr rels \<Rightarrow> (Inr (fold (see filt) rels no_walked), mem, wa))
      else case opened of
        Inl e \<Rightarrow> (Inl (GitError e), mem, wa)
      | Inr gv \<Rightarrow>
          if every then git_all gv filt mem wa
          else (case git_changed mc fs gv filt mem wa of
                  (Inl e, m1, w1) \<Rightarrow> (Inl e, m1, w1)
                | (Inr found, m1, w1) \<Rightarrow> (Inr \<lparr>wk_files = found, wk_modules = []\<rparr>, m1, w1)))"

definition discover_with ::
  "(string \<Rightarrow> string list \<Rightarrow> string + gitignore) \<Rightarrow> (string \<Rightarrow> canonical) \<Rightarrow> string + string \<Rightarrow>
    (scope_filter \<Rightarrow> string + string list) \<Rightarrow> mem_codec \<Rightarrow> files \<Rightarrow> (string + git_view) \<Rightarrow> bool \<Rightarrow>
    string \<Rightarrow> scope \<Rightarrow> string list \<Rightarrow> memory option \<Rightarrow> watch option \<Rightarrow>
    (discover_error + discovery) \<times> memory option \<times> watch option" where
  "discover_with build canon current plain mc fs opened git root sc exclude mem wa =
     (case resolve_paths canon current root (sc_cwd sc) (sc_paths sc) of
        Inl e \<Rightarrow> (Inl e, mem, wa)
      | Inr (pres, missing) \<Rightarrow>
          if pres = Some []
          then (Inr \<lparr>dv_files = [], dv_missing = missing, dv_modules = [], dv_git = git\<rparr>, mem, wa)
          else case filter_new build root exclude (sc_lanes sc) pres of
            Inl e \<Rightarrow> (Inl (PatternError e), mem, wa)
          | Inr filt \<Rightarrow>
              (case find_files plain mc fs opened git (sc_all sc \<or> sc_paths sc \<noteq> []) root filt mem wa of
                 (Inl e, mem1, wa1) \<Rightarrow> (Inl e, mem1, wa1)
               | (Inr walked, mem1, wa1) \<Rightarrow>
                   (Inr \<lparr>dv_files = tidy_files (wk_files walked), dv_missing = missing,
                      dv_modules = (if \<not> sc_all sc \<or> sc_paths sc \<noteq> [] then [] else remdups (sort (wk_modules walked))),
                      dv_git = git\<rparr>, mem1, wa1)))"

text \<open>\<open>find_root\<close>: what gix discovers above a directory, if anything, and its work tree, if it has one.\<close>

definition find_root :: "(string \<Rightarrow> string option option) \<Rightarrow> string \<Rightarrow> string" where
  "find_root upwards cwd =
     (case upwards cwd of
        None \<Rightarrow> cwd
      | Some None \<Rightarrow> cwd
      | Some (Some work_tree) \<Rightarrow>
          if \<not> is_relative work_tree \<or> is_relative cwd then work_tree else path_join cwd work_tree)"

end
