(* ===== verification/DiscoverFacts.thy ===== *)
theory DiscoverFacts imports
  Discover
  WalkScope
begin

text \<open>What discovery returns, and that looking at less finds the same.\<close>

section \<open>The comparison with the work tree\<close>

lemma watched_suspects_failure:
  "watched_suspects krn look ix wa = (Some found, wa') \<Longrightarrow> wa_failure wa' = wa_failure wa"
  by (auto simp: watched_suspects_def watch_files_def keep_files_def Let_def split: option.splits prod.splits if_splits)

lemma suspects_full:
  assumes "suspects krn look ix tracking = (found, tracking')"
    and "case tracking of None \<Rightarrow> True | Some wa \<Rightarrow> watched idx look [] wa \<and> wa_failure wa = None"
    and "index_ok ix" "\<And>k. index_key ix = Some k \<Longrightarrow> idx k = ix"
  shows "found = full_suspects look ix"
proof (cases tracking)
  case (Some wa)
  show ?thesis
  proof (cases "watched_suspects krn look ix wa")
    case (Pair r wa')
    show ?thesis
    proof (cases r)
      case (Some f)
      with Pair have w: "watched_suspects krn look ix wa = (Some f, wa')" by simp
      from assms(1) \<open>tracking = Some wa\<close> w have "found = f" by (simp add: suspects_def)
      moreover have "watched idx look [] wa" "wa_failure wa' = None"
        using assms(2) \<open>tracking = Some wa\<close> watched_suspects_failure [OF w] by simp_all
      ultimately show ?thesis using watched_finds_all [of idx look wa ix krn f wa'] assms(3,4) w by blast
    qed (use Pair assms(1) \<open>tracking = Some wa\<close> in \<open>simp add: suspects_def\<close>)
  qed
qed (use assms(1) in \<open>simp add: suspects_def\<close>)

text \<open>
  Comparing by stat first changes nothing: whether the entries were all looked at or only those a
  sound watch could not vouch for, and whether gix was then asked for the suspects alone, for none, or,
  with many, for everything, the changed and removed files are those of gix's full status, given that gix
  reports no entry whose stat vouches for it, and limits its status to the paths it is asked for.
\<close>

theorem stat_first_changes_nothing:
  assumes "case tracking of None \<Rightarrow> True | Some wa \<Rightarrow> watched idx look [] wa \<and> wa_failure wa = None"
    and "index_ok ix" "\<And>k. index_key ix = Some k \<Longrightarrow> idx k = ix"
    and "gs [] = Inr items" "list_all (\<lambda>it. si_path it \<in> set (full_suspects look ix)) items"
    and "\<And>ps. ps \<noteq> [] \<Longrightarrow> gs (map literal_spec ps) = Inr (filter (\<lambda>it. si_path it \<in> set ps) items)"
  shows "fst (worktree krn look gs ix [] filt tracking) = Inr (status_files filt items)"
proof -
  obtain found tracking' where s: "suspects krn look ix tracking = (found, tracking')" by fastforce
  from suspects_full [OF s assms(1-3)] have found: "found = full_suspects look ix" .
  have "filter (\<lambda>it. si_path it \<in> set found) items = items"
    using assms(5) found by (simp add: list_all_iff filter_id_conv)
  with assms(4,6) found assms(5) show ?thesis
    by (cases "found = []") (auto simp: worktree_def s status_def)
qed

definition sample_item :: status_item where
  "sample_item = \<lparr>si_modification = True, si_entry = sample_entry, si_path = ''a.ts'', si_status = Removed\<rparr>"

theorem stat_first_changes_nothing_witness:
  "fst (worktree (\<lambda>_. WatchAdded 1) Map.empty (\<lambda>ps. Inr (if ps = [] \<or> ''a.ts'' \<in> set (map (drop 14) ps) then [sample_item] else []))
     sample_index [] sample_filter (Some watch_new)) = Inr ([], [''a.ts''])"
proof -
  have full: "full_suspects Map.empty sample_index = [''a.ts'']"
    by (simp add: full_suspects_filter sample_index_simps sample_vouched)
  have spec: "drop 14 (literal_spec p) = p" for p by (simp add: literal_spec_def)
  have gs: "(\<lambda>ps. Inr (if ps = [] \<or> ''a.ts'' \<in> set (map (drop 14) ps) then [sample_item] else [])) (map literal_spec ps) =
      Inr (filter (\<lambda>it. si_path it \<in> set ps) [sample_item])" if "ps \<noteq> []" for ps
    using that by (auto simp: spec comp_def sample_item_def image_iff)
  have "fst (worktree (\<lambda>_. WatchAdded 1) Map.empty
      (\<lambda>ps. Inr (if ps = [] \<or> ''a.ts'' \<in> set (map (drop 14) ps) then [sample_item] else [])) sample_index [] sample_filter
      (Some watch_new)) = Inr (status_files sample_filter [sample_item])"
    by (rule stat_first_changes_nothing [where idx = "\<lambda>_. sample_index"])
      (use gs in \<open>auto simp: watched.start sample_index_ok full sample_item_def watch_new_def [symmetric] simp del: map_map\<close>,
        simp add: watch_new_def)
  then show ?thesis by (simp add: sample_item_def)
qed

section \<open>What is in scope\<close>

definition in_scope :: "scope_filter \<Rightarrow> sourcefile \<Rightarrow> bool" where
  "in_scope filt f \<longleftrightarrow> source_file filt (sf_rel f) = Some f"

lemma source_file_in_scope: "source_file filt rel = Some f \<Longrightarrow> in_scope filt f \<and> sf_rel f = rel"
proof -
  assume f: "source_file filt rel = Some f"
  then have "sf_rel f = rel" by (auto simp: source_file_def split: option.splits if_splits)
  with f show ?thesis by (simp add: in_scope_def)
qed

lemma see_files: "wk_files (see filt rel w) = wk_files w @ option_list (source_file filt rel)"
  by (auto simp: see_def option_list_def Let_def split: option.split)

lemma fold_see_files:
  "wk_files (fold (see filt) rels w) = wk_files w @ concat (map (\<lambda>rel. option_list (source_file filt rel)) rels)"
  by (induction rels arbitrary: w) (simp_all add: see_files)

lemma list_files_in_scope: "list_all (in_scope filt) (concat (map (\<lambda>rel. option_list (source_file filt rel)) rels))"
  by (auto simp: list_all_iff dest: source_file_in_scope)

lemma push_in_scope: "list_all (in_scope filt) (push filt p)"
  by (auto simp: push_def dest: source_file_in_scope split: option.split)

lemma concat_push_in_scope: "list_all (in_scope filt) (concat (map (push filt) ps))"
  using push_in_scope by (auto simp: list_all_iff)

lemma status_files_in_scope: "list_all (in_scope filt) (fst (status_files filt items))"
  by (induction items) (auto simp: push_in_scope split: prod.split entry_status.split)

lemma worktree_in_scope:
  "fst (worktree krn look gs ix patterns filt tracking) = Inr (files, gone) \<Longrightarrow> list_all (in_scope filt) files"
  using status_files_in_scope [of filt]
  by (auto simp: worktree_def status_def split: prod.splits sum.splits if_splits) (metis fst_conv)+

lemma staged_in_scope: "fst (staged mc fs gv ix filt mem) = Inr files \<Longrightarrow> list_all (in_scope filt) files"
  using concat_push_in_scope [of filt]
  by (auto simp: staged_def Let_def split: sum.splits option.splits)

lemma git_walk_in_scope:
  "fst (git_walk env ctx t keep) = Inr walked \<Longrightarrow> list_all (in_scope (we_filter env)) (wk_files walked)"
  using list_files_in_scope [of "we_filter env"]
  by (auto simp: git_walk_def fold_see_files no_walked_def Let_def split: list.splits)

lemma run_env_filter [simp]: "we_filter (run_env gv filt mem wa) = filt"
  by (simp add: run_env_def)

lemma git_changed_in_scope:
  "fst (git_changed mc fs gv filt mem wa) = Inr files \<Longrightarrow> list_all (in_scope filt) files"
proof -
  assume g: "fst (git_changed mc fs gv filt mem wa) = Inr files"
  then obtain ix where ix: "gv_index gv = Inr ix" by (auto simp: git_changed_def split: sum.splits)
  let ?tk = "tracked_new ix (gv_ignore_case gv)"
  obtain sg mem1 where s: "staged mc fs gv ix filt mem = (sg, mem1)" by fastforce
  obtain un mem2 where u: "git_walk (run_env gv filt mem1 wa) (gv_context gv) (gv_root gv) (\<lambda>rel. \<not> tracked_contains ?tk rel) = (un, mem2)"
    by fastforce
  obtain wk wa1 where w: "worktree (gv_kernel gv) (gv_look gv) (gv_status gv) ix (pathspecs filt) filt wa = (wk, wa1)" by fastforce
  from g obtain a gone b c where "wk = Inr (a, gone)" "sg = Inr b" "un = Inr c"
      "files = filter (\<lambda>f. sf_rel f \<notin> set gone) (a @ b @ wk_files c)"
    by (auto simp: git_changed_def ix s u w Let_def split: sum.splits)
  with worktree_in_scope [of "gv_kernel gv" "gv_look gv" "gv_status gv" ix "pathspecs filt" filt wa a gone]
    staged_in_scope [of mc fs gv ix filt mem b] git_walk_in_scope [of "run_env gv filt mem1 wa" "gv_context gv" "gv_root gv" _ c]
    s u w
  show ?thesis by (auto simp: list_all_iff) (metis fst_conv)+
qed

lemma regular_in_scope: "list_all (in_scope filt) (regular_files gv filt rels)"
  using list_files_in_scope [of filt rels] by (auto simp: regular_files_def list_all_iff)

lemma git_all_in_scope:
  "fst (git_all gv filt mem wa) = Inr walked \<Longrightarrow> list_all (in_scope filt) (wk_files walked)"
  using regular_in_scope [of filt gv] git_walk_in_scope [of "run_env gv filt mem wa" "gv_context gv" "gv_root gv" "\<lambda>_. True"]
  by (auto simp: git_all_def Let_def list_all_iff split: sum.splits option.splits if_splits prod.splits)

lemma set_dedup_rel: "set (dedup_rel fs) \<subseteq> set fs"
  by (induction fs rule: dedup_rel.induct) auto

lemma dedup_rel_hd: "fs \<noteq> [] \<Longrightarrow> dedup_rel fs \<noteq> [] \<and> hd (dedup_rel fs) = hd fs"
  by (induction fs rule: dedup_rel.induct) auto

lemma dedup_rel_sorted: "sorted (map sf_rel fs) \<Longrightarrow> sorted_wrt (<) (map sf_rel (dedup_rel fs))"
proof (induction fs rule: dedup_rel.induct)
  case (1 a b fs)
  show ?case
  proof (cases "sf_rel a = sf_rel b")
    case False
    have "sf_rel b \<le> sf_rel c" if "c \<in> set (dedup_rel (b # fs))" for c
      using that set_dedup_rel [of "b # fs"] 1(3) by auto
    moreover have ab: "sf_rel a < sf_rel b" using False 1(3) by (simp add: order.not_eq_order_implies_strict)
    ultimately show ?thesis using 1 False by (auto intro: less_le_trans [OF ab])
  qed (use 1 in auto)
qed auto

lemma dedup_rel_keys: "sf_rel ` set (dedup_rel fs) = sf_rel ` set fs"
  by (induction fs rule: dedup_rel.induct) (auto simp: image_iff)

lemma tidy_files_sorted: "sorted_wrt (<) (map sf_rel (tidy_files fs))"
  by (simp add: tidy_files_def dedup_rel_sorted)

lemma find_files_in_scope:
  "fst (find_files plain mc fs opened git every root filt mem wa) = Inr walked \<Longrightarrow> list_all (in_scope filt) (wk_files walked)"
  using list_files_in_scope [of filt] git_all_in_scope [of _ filt mem wa] git_changed_in_scope [of mc fs _ filt mem wa]
  by (auto simp: find_files_def fold_see_files no_walked_def split: sum.splits if_splits prod.splits) (metis fst_conv)+

text \<open>
  A discovery is well formed: its files are sorted by path without repetition, and each is in the
  scope of one filter, that of the settings and the named paths: of a selected lane, no declaration, under
  a named path, not in an excluded directory and not excluded, with the language and absolute path that
  belong to its path; whichever way it was found (by status, in the index, by a walk, or outside git).
\<close>

theorem discovery_is_well_formed:
  assumes "fst (discover_with build canon current plain mc fs opened git root sc exclude mem wa) = Inr d"
  shows "sorted_wrt (<) (map sf_rel (dv_files d)) \<and>
    (dv_files d = [] \<or> (\<exists>scope filt. filter_new build root exclude (sc_lanes sc) scope = Inr filt \<and>
      resolve_paths canon current root (sc_cwd sc) (sc_paths sc) = Inr (scope, dv_missing d) \<and>
      list_all (in_scope filt) (dv_files d)))"
proof -
  from assms obtain pres missing where r: "resolve_paths canon current root (sc_cwd sc) (sc_paths sc) = Inr (pres, missing)"
    by (auto simp: discover_with_def split: sum.splits)
  show ?thesis
  proof (cases "pres = Some []")
    case False
    with assms r obtain filt where f: "filter_new build root exclude (sc_lanes sc) pres = Inr filt"
      by (auto simp: discover_with_def split: sum.splits)
    obtain res m1 w1 where ff: "find_files plain mc fs opened git (sc_all sc \<or> sc_paths sc \<noteq> []) root filt mem wa = (res, m1, w1)"
      using prod_cases3 by blast
    with assms r f False obtain walked where w: "res = Inr walked" "dv_files d = tidy_files (wk_files walked)" "dv_missing d = missing"
      by (auto simp: discover_with_def split: sum.splits if_splits)
    with ff find_files_in_scope have "list_all (in_scope filt) (wk_files walked)" by (metis fst_conv)
    note w = w(2,3) this
    have "set (tidy_files (wk_files walked)) \<subseteq> set (wk_files walked)"
      using set_dedup_rel by (fastforce simp: tidy_files_def)
    with w r f show ?thesis by (auto simp: tidy_files_sorted list_all_iff)
  qed (use assms r in \<open>auto simp: discover_with_def\<close>)
qed

theorem discovery_is_well_formed_witness:
  "map sf_rel (dv_files (projr (fst (discover_with (\<lambda>_ _. Inr \<lparr>gi_matched = (\<lambda>_ _. NoMatch), gi_matched_parents = (\<lambda>_ _. NoMatch)\<rparr>)
      (\<lambda>_. CanonMissing) (Inl []) (\<lambda>_. Inr [''b.ts'', ''a.ts'', ''b.ts'', ''c.md5'']) sample_codec (\<lambda>_. None) (Inl []) False ''/r''
      \<lparr>sc_all = False, sc_lanes = [], sc_paths = [], sc_cwd = None\<rparr> [] None None)))) = [''a.ts'', ''b.ts''] \<and>
   sorted_wrt (<) [''a.ts'', ''b.ts'']"
proof -
  let ?d = "fst (discover_with (\<lambda>_ _. Inr \<lparr>gi_matched = (\<lambda>_ _. NoMatch), gi_matched_parents = (\<lambda>_ _. NoMatch)\<rparr>)
      (\<lambda>_. CanonMissing) (Inl []) (\<lambda>_. Inr [''b.ts'', ''a.ts'', ''b.ts'', ''c.md5'']) sample_codec (\<lambda>_. None) (Inl []) False ''/r''
      \<lparr>sc_all = False, sc_lanes = [], sc_paths = [], sc_cwd = None\<rparr> [] None None)"
  have ts: "source_file \<lparr>fl_root = ''/r'', fl_exclude = \<lparr>gi_matched = (\<lambda>_ _. NoMatch), gi_matched_parents = (\<lambda>_ _. NoMatch)\<rparr>,
      fl_lanes = [], fl_prefixes = None\<rparr> rel = Some \<lparr>sf_rel = rel, sf_abs = ''/r/'' @ rel, sf_lang = Ts\<rparr>"
    if "rel \<in> {''a.ts'', ''b.ts''}" for rel
    using that by (elim insertE emptyE; hypsubst; code_simp)
  have other: "source_file \<lparr>fl_root = ''/r'', fl_exclude = \<lparr>gi_matched = (\<lambda>_ _. NoMatch), gi_matched_parents = (\<lambda>_ _. NoMatch)\<rparr>,
      fl_lanes = [], fl_prefixes = None\<rparr> ''c.md5'' = None" by code_simp
  have d: "?d = Inr \<lparr>dv_files = [\<lparr>sf_rel = ''a.ts'', sf_abs = ''/r/a.ts'', sf_lang = Ts\<rparr>,
      \<lparr>sf_rel = ''b.ts'', sf_abs = ''/r/b.ts'', sf_lang = Ts\<rparr>], dv_missing = [], dv_modules = [], dv_git = False\<rparr>"
    by (simp add: discover_with_def find_files_def resolve_paths_def filter_new_def fold_see_files no_walked_def ts other
        option_list_def tidy_files_def see_files)
  from discovery_is_well_formed [OF d] show ?thesis by (simp add: d)
qed

section \<open>Tracked files\<close>














end
