(* ===== verification/Paths.thy ===== *)
theory Paths imports
  Prelude
begin

text \<open>
  \<open>std::path\<close> as \<^verbatim>\<open>crates/go\<close> uses it. A path is the list of its components, which is what Rust compares
  paths by; \<open>path_text\<close> is the text of one without a redundant separator.
\<close>

datatype component = RootDir | CurDir | ParentDir | Normal string

text \<open>\<open>derive(Ord)\<close> of \<open>Component\<close>: by variant, and ordinary names by their bytes.\<close>

fun component_key :: "component \<Rightarrow> nat \<times> string" where
  "component_key RootDir = (1, [])"
| "component_key CurDir = (2, [])"
| "component_key ParentDir = (3, [])"
| "component_key (Normal n) = (4, n)"

lemma component_key_inject: "component_key a = component_key b \<longleftrightarrow> a = b"
  by (cases a; cases b) simp_all

instantiation component :: linorder
begin
definition less_eq_component :: "component \<Rightarrow> component \<Rightarrow> bool" where
  "less_eq_component a b \<longleftrightarrow> component_key a \<le> component_key b"
definition less_component :: "component \<Rightarrow> component \<Rightarrow> bool" where
  "less_component a b \<longleftrightarrow> component_key a < component_key b"
instance
  by standard (auto simp: less_eq_component_def less_component_def component_key_inject [symmetric] dest: antisym)
end

type_synonym path = "component list"

definition component_of :: "string \<Rightarrow> component" where
  "component_of w = (if w = ''..'' then ParentDir else Normal w)"

text \<open>\<open>Path::components\<close>: a \<open>.\<close> counts only at the start of a relative path.\<close>

definition components :: "string \<Rightarrow> path" where
  "components p =
     (let ws = split_on (CHR ''/'') p in
      (if prefix ''/'' p then [RootDir] else if hd ws = ''.'' then [CurDir] else []) @
      map component_of (filter (\<lambda>w. w \<noteq> [] \<and> w \<noteq> ''.'') ws))"

fun component_text :: "component \<Rightarrow> string" where
  "component_text RootDir = ''/''"
| "component_text CurDir = ''.''"
| "component_text ParentDir = ''..''"
| "component_text (Normal n) = n"

fun path_text :: "path \<Rightarrow> string" where
  "path_text (RootDir # cs) = CHR ''/'' # join_with ''/'' (map component_text cs)"
| "path_text cs = join_with ''/'' (map component_text cs)"

text \<open>\<open>Path::join\<close>: an absolute path replaces what it is joined to.\<close>

definition push_path :: "path \<Rightarrow> path \<Rightarrow> path" where
  "push_path base p =
     (case p of
        RootDir # _ \<Rightarrow> p
      | CurDir # q \<Rightarrow> if base = [] then p else base @ q
      | _ \<Rightarrow> base @ p)"

text \<open>\<open>Path::parent\<close>, and \<open>Path::ancestors\<close>: the path, its parent, and so on.\<close>

definition path_parent :: "path \<Rightarrow> path option" where
  "path_parent p = (if p = [] \<or> last p = RootDir then None else Some (butlast p))"

function path_ancestors :: "path \<Rightarrow> path list" where
  "path_ancestors p = p # (case path_parent p of None \<Rightarrow> [] | Some q \<Rightarrow> path_ancestors q)"
  by auto
termination
  by (relation "measure length") (auto simp: path_parent_def split: if_splits)

declare path_ancestors.simps [simp del]

text \<open>\<open>PathBuf::pop\<close> removes the last component of whatever kind, a \<open>..\<close> too.\<close>

definition pop_path :: "path \<Rightarrow> path option" where
  "pop_path = path_parent"

fun normal_step :: "path \<Rightarrow> component \<Rightarrow> path" where
  "normal_step out CurDir = out"
| "normal_step out ParentDir = (case pop_path out of Some q \<Rightarrow> q | None \<Rightarrow> out @ [ParentDir])"
| "normal_step out c = push_path out [c]"

definition normalize :: "path \<Rightarrow> path" where
  "normalize p = foldl normal_step [] p"

definition strip_base :: "path \<Rightarrow> path \<Rightarrow> path option" where
  "strip_base base p = (if prefix base p then Some (drop (length base) p) else None)"

text \<open>\<open>str::replace("//", "/")\<close>\<close>

fun single_slashes :: "string \<Rightarrow> string" where
  "single_slashes (a # b # s) =
     (if a = CHR ''/'' \<and> b = CHR ''/'' then CHR ''/'' # single_slashes s else a # single_slashes (b # s))"
| "single_slashes s = s"

definition slash :: "path \<Rightarrow> string" where
  "slash p = single_slashes (join_with ''/'' (map component_text p))"

section \<open>Facts\<close>

text \<open>A path as \<open>components\<close> makes it.\<close>

fun wf_name :: "component \<Rightarrow> bool" where
  "wf_name (Normal n) \<longleftrightarrow> n \<noteq> [] \<and> n \<noteq> ''.'' \<and> n \<noteq> ''..'' \<and> CHR ''/'' \<notin> set n"
| "wf_name c \<longleftrightarrow> c = ParentDir"

definition wf_path :: "path \<Rightarrow> bool" where
  "wf_path p \<longleftrightarrow> (case p of [] \<Rightarrow> True | c # cs \<Rightarrow> (c = RootDir \<or> c = CurDir \<or> wf_name c) \<and> list_all wf_name cs)"

lemma wf_component_of: "w \<noteq> [] \<Longrightarrow> w \<noteq> ''.'' \<Longrightarrow> CHR ''/'' \<notin> set w \<Longrightarrow> wf_name (component_of w)"
  by (simp add: component_of_def)

lemma wf_components: "wf_path (components p)"
proof -
  have "list_all wf_name (map component_of (filter (\<lambda>w. w \<noteq> [] \<and> w \<noteq> ''.'') (split_on (CHR ''/'') p)))"
    by (auto simp: list_all_iff intro!: wf_component_of dest: split_on_pieces)
  then show ?thesis by (auto simp: wf_path_def components_def Let_def split: list.splits)
qed

lemma text_no_slash: "wf_name c \<Longrightarrow> component_text c \<noteq> [] \<and> component_text c \<noteq> ''.'' \<and> CHR ''/'' \<notin> set (component_text c)"
  by (cases c) auto

lemma component_of_text: "wf_name c \<Longrightarrow> component_of (component_text c) = c"
  by (cases c) (auto simp: component_of_def)

lemma split_join:
  "ws \<noteq> [] \<Longrightarrow> \<forall>w \<in> set ws. c \<notin> set w \<Longrightarrow> split_on c (join_with [c] ws) = ws"
proof (induction ws)
  case (Cons w ws)
  then show ?case by (cases ws) (simp_all add: split_on_word split_on_append)
qed simp

lemma split_names:
  "list_all wf_name cs \<Longrightarrow> cs \<noteq> [] \<Longrightarrow> split_on (CHR ''/'') (join_with ''/'' (map component_text cs)) = map component_text cs"
  by (rule split_join) (auto simp: list_all_iff dest: text_no_slash)

lemma filter_names:
  "list_all wf_name cs \<Longrightarrow> map component_of (filter (\<lambda>w. w \<noteq> [] \<and> w \<noteq> ''.'') (map component_text cs)) = cs"
  by (induction cs) (auto simp: component_of_text dest: text_no_slash)

lemma join_names_head: "wf_name c \<Longrightarrow> \<not> prefix ''/'' (join_with ''/'' (component_text c # ws))"
  using text_no_slash [of c] by (cases ws; cases "component_text c") auto

lemma components_names: "list_all wf_name cs \<Longrightarrow> components (join_with ''/'' (map component_text cs)) = cs"
proof (cases cs)
  case (Cons c cs')
  assume l: "list_all wf_name cs"
  with Cons have "\<not> prefix ''/'' (join_with ''/'' (map component_text cs))" "component_text c \<noteq> ''.''"
    using join_names_head [of c "map component_text cs'"] text_no_slash [of c] by simp_all
  with l Cons split_names [OF l] filter_names [OF l] show ?thesis by (simp add: components_def)
qed (simp add: components_def)

lemma components_text: "wf_path p \<Longrightarrow> components (path_text p) = p"
proof (cases p)
  case (Cons c cs)
  assume p: "wf_path p"
  with Cons have l: "list_all wf_name cs" by (simp add: wf_path_def)
  have s: "cs \<noteq> [] \<Longrightarrow> split_on (CHR ''/'') (join_with ''/'' (map component_text cs)) = map component_text cs"
    by (rule split_names [OF l])
  show ?thesis
  proof (cases c)
    case RootDir
    with Cons s filter_names [OF l] show ?thesis by (cases cs) (simp_all add: components_def)
  next
    case CurDir
    have "split_on (CHR ''/'') (''.'' @ CHR ''/'' # u) = ''.'' # split_on (CHR ''/'') u" for u
      by (rule split_on_append) simp
    with CurDir Cons s filter_names [OF l] show ?thesis by (cases cs) (simp_all add: components_def)
  qed (use Cons p components_names [of p] in \<open>simp_all add: wf_path_def\<close>)
qed (simp add: components_def)

lemma path_text_inject: "wf_path p \<Longrightarrow> wf_path q \<Longrightarrow> path_text p = path_text q \<Longrightarrow> p = q"
  using components_text by metis

lemma ancestors_prefix: "a \<in> set (path_ancestors p) \<Longrightarrow> prefix a p"
proof (induction p rule: path_ancestors.induct)
  case (1 p)
  show ?case
  proof (cases "a = p")
    case False
    with "1.prems" obtain q where q: "path_parent p = Some q" "a \<in> set (path_ancestors q)"
      by (cases "path_parent p") (simp_all add: path_ancestors.simps [of p])
    from "1.IH" [OF this] have "prefix a q" .
    moreover have "prefix q p" using q(1) by (auto simp: path_parent_def prefix_def split: if_splits) (metis append_butlast_last_id)
    ultimately show ?thesis by (rule prefix_order.trans)
  qed simp
qed

lemma normalize_names:
  "\<forall>c \<in> set p. \<exists>n. c = Normal n \<Longrightarrow> foldl normal_step out p = out @ p"
  by (induction p arbitrary: out) (auto simp: push_path_def)

end
