(* ===== verification/Vet.thy ===== *)
theory Vet imports
  Paths
  Outcomes
  Cache
begin

text \<open>
  \<^verbatim>\<open>crates/go/src/vet.rs\<close>: which \<open>go vet\<close> runs an invocation makes and what their output says. What the
  file system answers is a \<open>vet_world\<close>; directories are lists of components.
\<close>

datatype vet_targets = Modules "string list" | Files "string list"

record module_run =
  mr_dir :: path
  mr_packages :: "string list"
  mr_outside_workspace :: bool

text \<open>A directory entry: its name, and whether it is a directory, a file, or its type cannot be told.\<close>

datatype entry_type = TDir | TFile | TOther | TUnknown

datatype dir_entry = EntryError | Entry string entry_type

record vet_metadata = metadata +
  vm_mode :: u32

record vet_world =
  vw_is_file :: "path \<Rightarrow> bool"
  vw_read :: "path \<Rightarrow> string option"
  vw_list :: "path \<Rightarrow> dir_entry list option"
  vw_metadata :: "path \<Rightarrow> vet_metadata option"

definition VET_RULE :: string where "VET_RULE = ''go/vet''"

definition vet_diagnostic :: "string \<Rightarrow> u32 \<Rightarrow> u32 \<Rightarrow> string \<Rightarrow> diagnostic" where
  "vet_diagnostic file line column message =
     \<lparr>d_rule = VET_RULE, d_file = file, d_line = line, d_column = column, d_message = message, d_severity = SevError\<rparr>"

definition vet_skipped :: "string \<Rightarrow> vet_outcome" where
  "vet_skipped reason = vet_default\<lparr>v_skipped := Some reason\<rparr>"

section \<open>go.work\<close>

text \<open>\<open>char::is_whitespace\<close> splits, \<open>trim_matches\<close> of quotes\<close>

definition is_quote :: "char \<Rightarrow> bool" where
  "is_quote c \<longleftrightarrow> c = CHR 0x22 \<or> c = CHR 0x60"

definition unquote :: "string \<Rightarrow> string" where
  "unquote t = rev (dropWhile is_quote (rev (dropWhile is_quote (trim_ws t))))"

text \<open>\<open>split_whitespace\<close>: the pieces between runs of white space; \<open>n\<close> bounds the rounds.\<close>

fun white_width :: "string list \<Rightarrow> string \<Rightarrow> nat" where
  "white_width [] s = 0"
| "white_width (w # ws) s = (if prefix w s then length w else white_width ws s)"

function words_from :: "string \<Rightarrow> string \<Rightarrow> string list" where
  "words_from word [] = (if word = [] then [] else [word])"
| "words_from word (c # s) =
     (let n = white_width WHITE_SPACE (c # s) in
      if n = 0 then words_from (word @ [c]) s
      else (if word = [] then [] else [word]) @ words_from [] (drop (n - 1) s))"
  by pat_completeness auto
termination
  by (relation "measure (\<lambda>(w, s). length s)") auto

definition split_whitespace :: "string \<Rightarrow> string list" where
  "split_whitespace s = words_from [] s"

definition blank_or_paren :: "string \<Rightarrow> bool" where
  "blank_or_paren rest \<longleftrightarrow> (case rest of [] \<Rightarrow> False | c # _ \<Rightarrow> c = CHR '' '' \<or> c = CHR 0x09 \<or> c = CHR ''('')"

text \<open>A line without its comment.\<close>

definition uncommented :: "string \<Rightarrow> string" where
  "uncommented line = trim_ws (case find_sub ''//'' line of Some i \<Rightarrow> take i line | None \<Rightarrow> line)"

fun use_directive :: "string \<Rightarrow> string list \<times> bool" where
  "use_directive line =
     (case strip_prefix ''use'' line of
        None \<Rightarrow> ([], False)
      | Some rest0 \<Rightarrow>
          if \<not> blank_or_paren rest0 then ([], False)
          else let rest = trim_ws rest0 in
            case strip_prefix ''('' rest of
              Some inner0 \<Rightarrow>
                (let inner = trim_ws inner0 in
                 case strip_suffix '')'' inner of
                   Some single \<Rightarrow> (map unquote (split_whitespace single), False)
                 | None \<Rightarrow> (if inner = [] then [] else [unquote inner], True))
            | None \<Rightarrow> (if rest = [] then [] else [unquote rest], False))"

fun uses_of_lines :: "bool \<Rightarrow> string list \<Rightarrow> string list" where
  "uses_of_lines in_block [] = []"
| "uses_of_lines in_block (l # ls) =
     (let line = uncommented l in
      if in_block
      then if prefix '')'' line then uses_of_lines False ls
        else (if line = [] then [] else [unquote line]) @ uses_of_lines True ls
      else case use_directive line of (us, b) \<Rightarrow> us @ uses_of_lines b ls)"

definition workspace_uses :: "string \<Rightarrow> string list" where
  "workspace_uses t = uses_of_lines False (str_lines t)"

definition outside_workspace :: "vet_world \<Rightarrow> path \<Rightarrow> bool" where
  "outside_workspace w module =
     (case find (\<lambda>d. vw_is_file w (push_path d [Normal ''go.work''])) (path_ancestors module) of
        None \<Rightarrow> False
      | Some base \<Rightarrow>
          (case vw_read w (push_path base [Normal ''go.work'']) of
             None \<Rightarrow> False
           | Some t \<Rightarrow>
               \<not> list_ex (\<lambda>d. normalize (push_path base (components d)) = normalize module) (workspace_uses t)))"

section \<open>The modules to vet\<close>

definition make_module_run :: "vet_world \<Rightarrow> path \<Rightarrow> string list \<Rightarrow> module_run" where
  "make_module_run w dir packages =
     \<lparr>mr_dir = dir, mr_packages = packages, mr_outside_workspace = outside_workspace w dir\<rparr>"

definition skipped_dir :: "string \<Rightarrow> bool" where
  "skipped_dir name \<longleftrightarrow>
     prefix ''.'' name \<or> prefix ''_'' name \<or> name = ''vendor'' \<or> name = ''testdata'' \<or> name = ''node_modules''"

definition in_skipped_dir :: "path \<Rightarrow> bool" where
  "in_skipped_dir p \<longleftrightarrow> list_ex (\<lambda>c. case c of Normal n \<Rightarrow> skipped_dir (utf8_lossy n) | _ \<Rightarrow> False) p"

definition plan_modules :: "vet_world \<Rightarrow> path \<Rightarrow> string list \<Rightarrow> module_run list" where
  "plan_modules w root dirs =
     map (\<lambda>dir. make_module_run w dir [''./...''])
       (remdups (sort (map (push_path root) (filter (\<lambda>p. \<not> in_skipped_dir p) (map components dirs)))))"

text \<open>\<open>extension() == "go"\<close> of a file name: what follows the last dot, unless it begins the name.\<close>

definition go_extension :: "string \<Rightarrow> bool" where
  "go_extension name \<longleftrightarrow> (case rsplit_once (CHR ''.'') name of Some (stem, ext) \<Rightarrow> stem \<noteq> [] \<and> ext = ''go'' | None \<Rightarrow> False)"

definition last_name :: "path \<Rightarrow> string option" where
  "last_name p = (if p = [] then None else case last p of Normal n \<Rightarrow> Some n | _ \<Rightarrow> None)"

definition is_go_path :: "path \<Rightarrow> bool" where
  "is_go_path p \<longleftrightarrow> (case last_name p of Some n \<Rightarrow> go_extension n | None \<Rightarrow> False)"

definition has_go_files :: "vet_world \<Rightarrow> path \<Rightarrow> bool" where
  "has_go_files w dir =
     (case vw_list w dir of
        None \<Rightarrow> False
      | Some es \<Rightarrow> list_ex (\<lambda>e. case e of Entry n t \<Rightarrow> go_extension n \<and> t = TFile | EntryError \<Rightarrow> False) es)"

definition package_pattern :: "path \<Rightarrow> string" where
  "package_pattern rel = (if rel = [] then ''.'' else ''./'' @ slash rel)"

text \<open>The module and the package a directory belongs to, if \<open>go\<close> would look at it.\<close>

definition package_of :: "vet_world \<Rightarrow> path \<Rightarrow> path \<Rightarrow> (path \<times> string) option" where
  "package_of w root rel_dir =
     (if in_skipped_dir rel_dir then None
      else let dir = push_path root rel_dir in
        if \<not> has_go_files w dir then None
        else case find (\<lambda>a. vw_is_file w (push_path a [Normal ''go.mod''])) (takeWhile (prefix root) (path_ancestors dir)) of
            None \<Rightarrow> None
          | Some module \<Rightarrow> Some (module, package_pattern (case strip_base module dir of Some rel \<Rightarrow> rel | None \<Rightarrow> [])))"

definition package_dirs :: "string list \<Rightarrow> path list" where
  "package_dirs files =
     remdups (sort (List.map_filter path_parent (filter is_go_path (map components files))))"

text \<open>A \<open>BTreeMap\<close> of \<open>BTreeSet\<close>s, in order.\<close>

definition grouped :: "('a::linorder \<times> 'b::linorder) list \<Rightarrow> ('a \<times> 'b list) list" where
  "grouped ps = map (\<lambda>k. (k, remdups (sort (map snd (filter (\<lambda>p. fst p = k) ps))))) (remdups (sort (map fst ps)))"

definition plan_files :: "vet_world \<Rightarrow> path \<Rightarrow> string list \<Rightarrow> module_run list" where
  "plan_files w root files =
     map (\<lambda>(dir, packages). make_module_run w dir packages)
       (grouped (List.map_filter (package_of w root) (package_dirs files)))"

text \<open>The package as the report shows it.\<close>

definition display_target :: "path \<Rightarrow> path \<Rightarrow> string \<Rightarrow> string" where
  "display_target root module package0 =
     (let module_rel = slash (case strip_base root module of Some r \<Rightarrow> r | None \<Rightarrow> module);
          package = (case strip_prefix ''./'' package0 of Some p \<Rightarrow> p | None \<Rightarrow> package0)
      in if module_rel = [] then (if package = ''.'' then ''.'' else ''./'' @ package)
         else if package = ''.'' then ''./'' @ module_rel
         else ''./'' @ module_rel @ ''/'' @ package)"

section \<open>Reading the output\<close>

text \<open>\<open>leading_number\<close>: \<open>None\<close> without a digit or past \<open>u32\<close>.\<close>

definition leading_number :: "string \<Rightarrow> (u32 \<times> string) option" where
  "leading_number t =
     (let ds = takeWhile is_digit t in
      if ds = [] \<or> u32_max < digits_value ds then None
      else Some (of_nat (digits_value ds), dropWhile is_digit t))"

definition split_position :: "string \<Rightarrow> (string \<times> u32 \<times> u32 \<times> string) option" where
  "split_position t =
     (case find_sub ''.go:'' t of
        None \<Rightarrow> None
      | Some i \<Rightarrow>
          (case leading_number (drop (i + 4) t) of
             None \<Rightarrow> None
           | Some (line, rest) \<Rightarrow>
               (case (case Option.bind (strip_prefix '':'' rest) leading_number of
                   Some (column, rest') \<Rightarrow> (column, rest') | None \<Rightarrow> (0, rest)) of
                  (column, rest') \<Rightarrow>
                    map_option (\<lambda>m. (take (i + 3) t, line, column, trim_ws m)) (strip_prefix '':'' rest'))))"

definition rel_slash :: "path \<Rightarrow> path \<Rightarrow> string" where
  "rel_slash root p =
     slash (case strip_base (normalize root) p of
        Some r \<Rightarrow> r
      | None \<Rightarrow> (case strip_base root p of Some r \<Rightarrow> r | None \<Rightarrow> p))"

definition continue_last :: "string \<Rightarrow> diagnostic list \<Rightarrow> diagnostic list" where
  "continue_last t ds = butlast ds @ [(last ds)\<lparr>d_message := d_message (last ds) @ newline # t\<rparr>]"

definition vet_line ::
  "path \<Rightarrow> path \<Rightarrow> string \<Rightarrow> diagnostic list \<times> string list \<Rightarrow> diagnostic list \<times> string list" where
  "vet_line root module line acc =
     (case acc of (found, unparsed) \<Rightarrow>
        if trim_ws line = [] \<or> prefix ''#'' line then (found, unparsed)
        else if prefix '' '' line \<or> prefix [CHR 0x09] line
        then if found = [] then (found, unparsed @ [trim_ws line]) else (continue_last (trim_ws line) found, unparsed)
        else
          (case split_position (case strip_prefix ''vet: '' line of Some b \<Rightarrow> b | None \<Rightarrow> line) of
             Some (p, line_no, column, message) \<Rightarrow>
               (found @ [vet_diagnostic (rel_slash root (normalize (push_path module (components p)))) line_no column message],
                unparsed)
           | None \<Rightarrow> (found, unparsed @ [line])))"

definition vet_parse :: "path \<Rightarrow> path \<Rightarrow> string \<Rightarrow> diagnostic list \<times> string list" where
  "vet_parse root module t = fold (vet_line root module) (str_lines t) ([], [])"

text \<open>What running \<open>go vet\<close> gives: it cannot be run, or its status with both outputs.\<close>

record vet_output =
  vo_success :: bool
  vo_status :: string
  vo_stdout :: string
  vo_stderr :: string

definition vet_diagnostics :: "path \<Rightarrow> path \<Rightarrow> string + vet_output \<Rightarrow> diagnostic list" where
  "vet_diagnostics root module r =
     (let module_file = rel_slash root (push_path module [Normal ''go.mod'']) in
      case r of
        Inl e \<Rightarrow> [vet_diagnostic module_file 0 0 (''could not run go vet: '' @ e)]
      | Inr out \<Rightarrow>
          if vo_success out then []
          else case vet_parse root module (utf8_lossy (vo_stderr out) @ utf8_lossy (vo_stdout out)) of
              (found, unparsed) \<Rightarrow>
                if unparsed \<noteq> []
                then found @ [vet_diagnostic module_file 0 0 (''go vet failed:'' @ newline # join_with [newline] unparsed)]
                else if found = [] then [vet_diagnostic module_file 0 0 (''go vet failed: '' @ vo_status out)]
                else found)"

end
