(* ===== verification/VetInputs.thy ===== *)
theory VetInputs imports
  Vet
  CacheKeys
begin

text \<open>
  \<^verbatim>\<open>crates/go/src/vet/inputs.rs\<close>: the digest of what one \<open>go vet\<close> run depends on. The environment,
  \<open>canonicalize\<close>, the user's configuration directory and the hash are arguments; a time that cannot be
  read does not occur on Unix.
\<close>

section \<open>What is digested\<close>

record file_stamp =
  fs_size :: u64
  fs_mtime :: int
  fs_dev :: u64
  fs_ino :: u64
  fs_mode :: u32
  fs_ctime :: int

definition modified :: "vet_metadata \<Rightarrow> int" where
  "modified md = nanos_since_epoch (md_mtime md * 1000000000 + md_mtime_nsec md)"

definition file_stamp_of :: "vet_metadata \<Rightarrow> file_stamp" where
  "file_stamp_of md =
     \<lparr>fs_size = md_size md, fs_mtime = modified md, fs_dev = md_dev md, fs_ino = md_ino md, fs_mode = vm_mode md,
      fs_ctime = stamp_nanos (md_ctime md) (md_ctime_nsec md)\<rparr>"

record vet_inputs =
  vi_version :: string
  vi_go :: string
  vi_go_stamp :: "file_stamp option"
  vi_env_stamp :: "file_stamp option"
  vi_environment :: "(string \<times> string) list"
  vi_dir :: string
  vi_outside :: bool
  vi_packages :: "string list"
  vi_files :: "(string \<times> file_stamp) list"

text \<open>\<open>i64::to_le_bytes\<close>\<close>

definition le_bytes_i64 :: "int \<Rightarrow> string" where
  "le_bytes_i64 x = le_bytes64 (nat (x mod 2 ^ 64))"

definition field_bytes :: "string \<Rightarrow> string" where
  "field_bytes s = le_bytes64 (length s) @ s"

definition stamp_bytes :: "file_stamp option \<Rightarrow> string" where
  "stamp_bytes s =
     (case s of
        None \<Rightarrow> [CHR 0x00]
      | Some s \<Rightarrow>
          CHR 0x01 # le_bytes64 (unat (fs_size s)) @ le_bytes_i64 (fs_mtime s) @ le_bytes64 (unat (fs_dev s)) @
          le_bytes64 (unat (fs_ino s)) @ le_bytes64 (unat (fs_mode s)) @ le_bytes_i64 (fs_ctime s))"

definition vet_bytes :: "vet_inputs \<Rightarrow> string" where
  "vet_bytes i =
     field_bytes ''go vet'' @ field_bytes (vi_version i) @ field_bytes (vi_go i) @
     stamp_bytes (vi_go_stamp i) @ stamp_bytes (vi_env_stamp i) @
     concat (map (\<lambda>(n, v). field_bytes n @ field_bytes v) (vi_environment i)) @
     field_bytes (vi_dir i) @ [if vi_outside i then CHR 0x01 else CHR 0x00] @
     concat (map field_bytes (vi_packages i)) @
     concat (map (\<lambda>(rel, s). field_bytes rel @ stamp_bytes (Some s)) (vi_files i))"

section \<open>The environment\<close>

definition TOOLCHAIN_VARS :: "string list" where
  "TOOLCHAIN_VARS = [''AR'', ''CC'', ''CXX'', ''FC'', ''HOME'', ''PKG_CONFIG'']"

definition environment :: "(string \<times> string) list \<Rightarrow> (string \<times> string) list" where
  "environment vars =
     sort (filter (\<lambda>(n, _). let name = utf8_lossy n in
       prefix ''GO'' name \<or> prefix ''CGO_'' name \<or> name \<in> set TOOLCHAIN_VARS) vars)"

definition env_file :: "(string \<times> string) list \<Rightarrow> path option \<Rightarrow> path option" where
  "env_file vars config_dir =
     (let default_file = map_option (\<lambda>d. push_path (push_path d [Normal ''go'']) [Normal ''env'']) config_dir in
      case map_of vars ''GOENV'' of
        None \<Rightarrow> default_file
      | Some p \<Rightarrow> if p = ''off'' then None else if p \<noteq> [] then Some (components p) else default_file)"

section \<open>Modules that read other directories\<close>

definition in_workspace :: "vet_world \<Rightarrow> (string \<times> string) list \<Rightarrow> module_run \<Rightarrow> bool" where
  "in_workspace w vars m =
     (let by_file = (\<not> mr_outside_workspace m \<and>
        list_ex (\<lambda>d. vw_is_file w (push_path d [Normal ''go.work''])) (path_ancestors (mr_dir m)))
      in case map_of vars ''GOWORK'' of
        None \<Rightarrow> by_file
      | Some v \<Rightarrow> if v = ''off'' then False else if v \<noteq> [] then True else by_file)"

definition is_local :: "string \<Rightarrow> bool" where
  "is_local target \<longleftrightarrow>
     target = ''.'' \<or> target = ''..'' \<or> prefix ''./'' target \<or> prefix ''../'' target \<or> prefix ''/'' target \<or>
     prefix [CHR 0x5C] target"

text \<open>The part of a line that may hold a replacement, and whether the next line is inside a block.\<close>

definition replace_spec :: "bool \<Rightarrow> string \<Rightarrow> string option \<times> bool" where
  "replace_spec in_block line =
     (if in_block then (Some line, \<not> prefix '')'' line)
      else case strip_prefix ''replace'' line of
        None \<Rightarrow> (None, False)
      | Some rest0 \<Rightarrow>
          if \<not> blank_or_paren rest0 then (None, False)
          else let rest = trim_ws rest0 in
            case strip_prefix ''('' rest of
              Some inner \<Rightarrow>
                (Some (rev (dropWhile (\<lambda>c. c = CHR '')'') (rev inner))), \<not> suffix '')'' (trim_end inner))
            | None \<Rightarrow> (Some rest, False))"

definition arrow_target :: "string \<Rightarrow> string option" where
  "arrow_target spec =
     (case find_sub ''=>'' spec of
        None \<Rightarrow> None
      | Some i \<Rightarrow> (case split_whitespace (drop (i + 2) spec) of [] \<Rightarrow> None | t # _ \<Rightarrow> Some t))"

fun replaces_in :: "bool \<Rightarrow> string list \<Rightarrow> bool" where
  "replaces_in in_block [] = False"
| "replaces_in in_block (l # ls) =
     (case replace_spec in_block (uncommented l) of
        (spec, b) \<Rightarrow>
          (case Option.bind spec arrow_target of Some t \<Rightarrow> is_local (unquote t) | None \<Rightarrow> False) \<or> replaces_in b ls)"

definition replaces_locally :: "string \<Rightarrow> bool" where
  "replaces_locally go_mod = replaces_in False (str_lines go_mod)"

section \<open>The files of a module\<close>

text \<open>
  What \<open>read_dir\<close> finds below a directory, to any depth: a directory that cannot be listed, or the
  entries of one, each an error, a file or a link, or a directory.
\<close>

datatype vet_tree = Unlisted | Listed "vet_entry list"
  and vet_entry = BadEntry | FileEntry string | DirEntry string vet_tree

text \<open>One directory: the files it adds and the directories it leaves pending; \<open>None\<close> when it fails.\<close>

fun stamp_entries ::
  "(path \<Rightarrow> bool) \<Rightarrow> path \<Rightarrow> path \<Rightarrow> vet_entry list \<Rightarrow> (path list \<times> (path \<times> vet_tree) list) option" where
  "stamp_entries is_file dir rel [] = Some ([], [])"
| "stamp_entries is_file dir rel (BadEntry # es) = None"
| "stamp_entries is_file dir rel (FileEntry n # es) =
     map_option (\<lambda>(fs, ds). ((rel @ [Normal n]) # fs, ds)) (stamp_entries is_file dir rel es)"
| "stamp_entries is_file dir rel (DirEntry n t # es) =
     (let child = rel @ [Normal n] in
      map_option (\<lambda>(fs, ds).
          if \<not> skipped_dir (utf8_lossy n) \<and> \<not> is_file (dir @ child @ [Normal ''go.mod''])
          then (fs, (child, t) # ds) else (fs, ds))
        (stamp_entries is_file dir rel es))"

definition pending_size :: "(path \<times> vet_tree) list \<Rightarrow> nat" where
  "pending_size ps = sum_list (map (\<lambda>p. Suc (size (snd p))) ps)"

lemma pending_size_simps [simp]:
  "pending_size [] = 0" "pending_size (p # ps) = Suc (size (snd p)) + pending_size ps"
  "pending_size (ps @ qs) = pending_size ps + pending_size qs" "pending_size (rev ps) = pending_size ps"
  by (simp_all add: pending_size_def flip: rev_map)

lemma stamp_entries_size:
  "stamp_entries is_file dir rel es = Some (fs, ds) \<Longrightarrow> pending_size ds \<le> size_list size es"
proof (induction is_file dir rel es arbitrary: fs ds rule: stamp_entries.induct)
  case (3 is_file dir rel n es)
  then obtain fs' where "stamp_entries is_file dir rel es = Some (fs', ds)" by auto
  from "3.IH" [OF this] show ?case by simp
next
  case (4 is_file dir rel n t es)
  then obtain fs' ds' where s: "stamp_entries is_file dir rel es = Some (fs', ds')" "ds = ds' \<or> ds = (rel @ [Normal n], t) # ds'"
    by (auto simp: Let_def split: if_splits)
  from "4.IH" [OF refl s(1)] s(2) show ?case by auto
qed auto

text \<open>The loop over the pending directories, the last pushed first.\<close>

function module_files :: "(path \<Rightarrow> bool) \<Rightarrow> path \<Rightarrow> (path \<times> vet_tree) list \<Rightarrow> path list \<Rightarrow> path list option" where
  "module_files is_file dir [] rels = Some rels"
| "module_files is_file dir ((rel, Unlisted) # ps) rels = None"
| "module_files is_file dir ((rel, Listed es) # ps) rels =
     (case stamp_entries is_file dir rel es of
        None \<Rightarrow> None
      | Some (fs, ds) \<Rightarrow> module_files is_file dir (rev ds @ ps) (rels @ fs))"
  by pat_completeness auto
termination
proof (relation "measure (\<lambda>(_, _, ps, _). pending_size ps)", goal_cases)
  case (2 is_file dir rel es ps rels x fs ds)
  with stamp_entries_size [of is_file dir rel es fs ds] show ?case by simp
qed simp

text \<open>Each file with its metadata, by path; one whose metadata cannot be read, as a dangling link, is left out.\<close>

definition stat_files :: "vet_world \<Rightarrow> path \<Rightarrow> path list \<Rightarrow> (path \<times> vet_metadata) list" where
  "stat_files w dir rels =
     List.map_filter (\<lambda>rel. map_option (Pair rel) (vw_metadata w (dir @ rel))) rels"

definition PARALLEL :: nat where "PARALLEL = 512"

definition VET_STATTERS :: nat where "VET_STATTERS = 4"

text \<open>\<open>slice::chunks\<close>\<close>

function stat_chunks :: "nat \<Rightarrow> 'a list \<Rightarrow> 'a list list" where
  "stat_chunks n xs = (if n = 0 \<or> xs = [] then [] else take n xs # stat_chunks n (drop n xs))"
  by auto
termination
  by (relation "measure (\<lambda>(n, xs). length xs)") (auto simp: diff_less length_greater_0_conv)

declare stat_chunks.simps [simp del]

definition module_stamps :: "vet_world \<Rightarrow> vet_tree \<Rightarrow> path \<Rightarrow> (path \<times> vet_metadata) list option" where
  "module_stamps w t dir =
     (case module_files (vw_is_file w) dir [([], t)] [] of
        None \<Rightarrow> None
      | Some rels \<Rightarrow>
          Some (sort_key fst
            (if PARALLEL < length rels
             then concat (map (stat_files w dir) (stat_chunks ((length rels + VET_STATTERS - 1) div VET_STATTERS) rels))
             else stat_files w dir rels)))"

section \<open>fingerprint\<close>

record vet_env =
  vn_go :: path
  vn_canonical :: "path \<Rightarrow> path option"
  vn_vars :: "(string \<times> string) list"
  vn_config_dir :: "path option"
  vn_now :: int
  vn_version :: string
  vn_hash :: "string \<Rightarrow> key"
  vn_tree :: "path \<Rightarrow> vet_tree"

record fingerprint =
  fp_key :: key
  fp_settled :: bool

definition inputs_of :: "vet_world \<Rightarrow> vet_env \<Rightarrow> module_run \<Rightarrow> (path \<times> vet_metadata) list \<Rightarrow> vet_inputs" where
  "inputs_of w e m files =
     \<lparr>vi_version = vn_version e,
      vi_go = path_text (case vn_canonical e (vn_go e) of Some p \<Rightarrow> p | None \<Rightarrow> vn_go e),
      vi_go_stamp = map_option file_stamp_of (vw_metadata w (vn_go e)),
      vi_env_stamp = Option.bind (env_file (vn_vars e) (vn_config_dir e)) (\<lambda>p. map_option file_stamp_of (vw_metadata w p)),
      vi_environment = environment (vn_vars e),
      vi_dir = path_text (mr_dir m), vi_outside = mr_outside_workspace m, vi_packages = mr_packages m,
      vi_files = map (\<lambda>(rel, md). (path_text rel, file_stamp_of md)) files\<rparr>"

definition newest :: "(path \<times> vet_metadata) list \<Rightarrow> int" where
  "newest files = (if files = [] then 0 else Max (set (map (\<lambda>(_, md). modified md) files)))"

definition known_files :: "vet_world \<Rightarrow> vet_env \<Rightarrow> module_run \<Rightarrow> (path \<times> vet_metadata) list option" where
  "known_files w e m =
     (case vw_read w (push_path (mr_dir m) [Normal ''go.mod'']) of
        None \<Rightarrow> None
      | Some go_mod \<Rightarrow>
          if in_workspace w (vn_vars e) m \<or> replaces_locally go_mod then None
          else module_stamps w (vn_tree e (mr_dir m)) (mr_dir m))"

definition vet_fingerprint :: "vet_world \<Rightarrow> vet_env \<Rightarrow> module_run \<Rightarrow> fingerprint option" where
  "vet_fingerprint w e m =
     map_option (\<lambda>files.
         \<lparr>fp_key = vn_hash e (vet_bytes (inputs_of w e m files)),
          fp_settled = (newest files < settled_before (vn_now e))\<rparr>)
       (known_files w e m)"

end
