(* ===== verification/VetDigest.thy ===== *)
theory VetDigest imports
  VetInputs
begin

text \<open>
  What the digest of a \<open>go vet\<close> run says about its inputs: the bytes that are hashed determine them all.
\<close>

section \<open>Fields\<close>

lemma field_inject:
  assumes "length s < 2 ^ 64" "length t < 2 ^ 64" "field_bytes s @ x = field_bytes t @ y"
  shows "s = t \<and> x = y"
proof -
  from assms(3) have h: "le_bytes64 (length s) = le_bytes64 (length t) \<and> s @ x = t @ y"
    by (simp add: field_bytes_def)
  with assms(1,2) have "length s = length t" by (intro le_bytes64_inject) auto
  with h show ?thesis by simp
qed

lemma unat_u64: "unat a < 2 ^ 64"
  for a :: u64
  using unsigned_less [of a] by simp

lemma unat_u32: "unat a < 2 ^ 64"
  for a :: u32
  using unsigned_less [of a, THEN order.strict_trans2, of "2 ^ 64"] by simp

lemma le_bytes_u64_inject: "le_bytes64 (unat a) = le_bytes64 (unat b) \<Longrightarrow> a = b"
  for a b :: u64
  using le_bytes64_inject [of "unat a" "unat b"] unat_u64 [of a] unat_u64 [of b] by (simp add: word_unat_eq_iff)

lemma le_bytes_u32_inject: "le_bytes64 (unat a) = le_bytes64 (unat b) \<Longrightarrow> a = b"
  for a b :: u32
  using le_bytes64_inject [of "unat a" "unat b"] unat_u32 [of a] unat_u32 [of b] by (simp add: word_unat_eq_iff)

definition fits_i64 :: "int \<Rightarrow> bool" where
  "fits_i64 x \<longleftrightarrow> - (2 ^ 63) \<le> x \<and> x < 2 ^ 63"

lemma le_bytes_i64_inject:
  assumes "fits_i64 a" "fits_i64 b" "le_bytes_i64 a = le_bytes_i64 b"
  shows "a = b"
proof -
  have b: "nat (x mod 2 ^ 64) < 2 ^ 64" for x :: int
    using pos_mod_bound [of "2 ^ 64 :: int" x] pos_mod_sign [of "2 ^ 64 :: int" x] by (simp add: nat_less_iff)
  from assms(3) have "nat (a mod 2 ^ 64) = nat (b mod 2 ^ 64)"
    unfolding le_bytes_i64_def by (rule le_bytes64_inject [OF b b])
  then have m: "a mod 2 ^ 64 = b mod 2 ^ 64" by (simp add: nat_eq_iff)
  have s: "x mod 2 ^ 64 = (if x < 0 then x + 2 ^ 64 else x)" if "fits_i64 x" for x :: int
  proof (cases "x < 0")
    case True
    have "x mod 2 ^ 64 = (x + 2 ^ 64) mod 2 ^ 64" by simp
    also have "\<dots> = x + 2 ^ 64" using that True by (intro mod_pos_pos_trivial) (simp_all add: fits_i64_def)
    finally show ?thesis using True by simp
  next
    case False
    with that show ?thesis by (simp add: fits_i64_def mod_pos_pos_trivial)
  qed
  from m assms(1,2) show ?thesis by (simp only: s) (auto simp: fits_i64_def split: if_splits)
qed

lemma length_le_bytes_i64 [simp]: "length (le_bytes_i64 x) = 8"
  by (simp add: le_bytes_i64_def)

definition wf_stamp :: "file_stamp \<Rightarrow> bool" where
  "wf_stamp s \<longleftrightarrow> fits_i64 (fs_mtime s) \<and> fits_i64 (fs_ctime s)"

lemma wf_file_stamp_of: "wf_stamp (file_stamp_of md)"
  by (auto simp: wf_stamp_def fits_i64_def file_stamp_of_def modified_def nanos_since_epoch_def stamp_nanos_def
      saturate_i64_def)

lemma stamp_bytes_inject:
  assumes "pred_option wf_stamp s" "pred_option wf_stamp t" "stamp_bytes s @ x = stamp_bytes t @ y"
  shows "s = t \<and> x = y"
proof (cases s; cases t)
  fix a b assume st: "s = Some a" "t = Some b"
  with assms(3) have "le_bytes64 (unat (fs_size a)) = le_bytes64 (unat (fs_size b))"
    "le_bytes_i64 (fs_mtime a) = le_bytes_i64 (fs_mtime b)" "le_bytes64 (unat (fs_dev a)) = le_bytes64 (unat (fs_dev b))"
    "le_bytes64 (unat (fs_ino a)) = le_bytes64 (unat (fs_ino b))"
    "le_bytes64 (unat (fs_mode a)) = le_bytes64 (unat (fs_mode b))"
    "le_bytes_i64 (fs_ctime a) = le_bytes_i64 (fs_ctime b)" "x = y"
    by (simp_all add: stamp_bytes_def)
  with assms(1,2) st show ?thesis
    by (simp add: wf_stamp_def le_bytes_i64_inject le_bytes_u64_inject le_bytes_u32_inject)
qed (use assms(3) in \<open>simp_all add: stamp_bytes_def\<close>)

section \<open>Lists of fields\<close>

text \<open>A variable's name does not begin with the slash an absolute directory begins with.\<close>

definition wf_var :: "string \<times> string \<Rightarrow> bool" where
  "wf_var p \<longleftrightarrow> (case p of (n, v) \<Rightarrow> length n < 2 ^ 64 \<and> length v < 2 ^ 64 \<and> \<not> prefix ''/'' n)"

definition is_absolute_text :: "string \<Rightarrow> bool" where
  "is_absolute_text d \<longleftrightarrow> length d < 2 ^ 64 \<and> prefix ''/'' d"

lemma environment_inject:
  assumes "list_all wf_var xs" "list_all wf_var ys" "is_absolute_text d" "is_absolute_text e"
    and "concat (map (\<lambda>(n, v). field_bytes n @ field_bytes v) xs) @ field_bytes d @ u =
      concat (map (\<lambda>(n, v). field_bytes n @ field_bytes v) ys) @ field_bytes e @ w"
  shows "xs = ys \<and> d = e \<and> u = w"
  using assms(1,2,5)
proof (induction xs arbitrary: ys)
  case Nil
  show ?case
  proof (cases ys)
    case Nil
    with \<open>concat (map _ []) @ _ = _\<close> assms(3,4) field_inject [of d e u w] show ?thesis by (simp add: is_absolute_text_def)
  next
    case (Cons y ys')
    obtain n v where "y = (n, v)" by fastforce
    with Cons Nil assms(3) field_inject [of d n u] show ?thesis by (auto simp: wf_var_def is_absolute_text_def)
  qed
next
  case (Cons x xs)
  obtain n v where x: "x = (n, v)" by fastforce
  show ?case
  proof (cases ys)
    case Nil
    with Cons.prems x assms(4) field_inject [of n e] show ?thesis by (auto simp: wf_var_def is_absolute_text_def)
  next
    case ys: (Cons y ys')
    obtain n' v' where y: "y = (n', v')" by fastforce
    let ?r = "\<lambda>zs. concat (map (\<lambda>(n, v). field_bytes n @ field_bytes v) zs)"
    have n: "n = n' \<and> field_bytes v @ ?r xs @ field_bytes d @ u = field_bytes v' @ ?r ys' @ field_bytes e @ w"
      using Cons.prems x y ys by (intro field_inject) (simp_all add: wf_var_def)
    then have "v = v' \<and> ?r xs @ field_bytes d @ u = ?r ys' @ field_bytes e @ w"
      using Cons.prems x y ys by (intro field_inject) (simp_all add: wf_var_def)
    with Cons.IH [of ys'] Cons.prems x y ys n show ?thesis by simp
  qed
qed

text \<open>A package is \<open>.\<close> or begins with \<open>./\<close>; the path of a file does neither.\<close>

definition is_package :: "string \<Rightarrow> bool" where
  "is_package p \<longleftrightarrow> length p < 2 ^ 64 \<and> (p = ''.'' \<or> prefix ''./'' p)"

definition wf_file :: "string \<times> file_stamp \<Rightarrow> bool" where
  "wf_file f \<longleftrightarrow> (case f of (rel, s) \<Rightarrow> length rel < 2 ^ 64 \<and> rel \<noteq> ''.'' \<and> \<not> prefix ''./'' rel \<and> wf_stamp s)"

definition files_bytes :: "(string \<times> file_stamp) list \<Rightarrow> string" where
  "files_bytes fs = concat (map (\<lambda>(rel, s). field_bytes rel @ stamp_bytes (Some s)) fs)"

lemma field_not_Nil [simp]: "field_bytes s \<noteq> []"
  using length_le_bytes64 [of "length s"] by (auto simp: field_bytes_def simp del: length_le_bytes64)

lemma files_inject: "list_all wf_file fs \<Longrightarrow> list_all wf_file gs \<Longrightarrow> files_bytes fs = files_bytes gs \<Longrightarrow> fs = gs"
proof (induction fs arbitrary: gs)
  case Nil
  then show ?case by (cases gs) (auto simp: files_bytes_def)
next
  case (Cons f fs)
  then obtain g gs' where gs: "gs = g # gs'" by (cases gs) (auto simp: files_bytes_def case_prod_beta)
  obtain r s r' s' where p: "f = (r, s)" "g = (r', s')" by fastforce
  have r: "r = r' \<and> stamp_bytes (Some s) @ files_bytes fs = stamp_bytes (Some s') @ files_bytes gs'"
    using Cons.prems gs p by (intro field_inject) (simp_all add: wf_file_def files_bytes_def)
  with Cons.prems gs p have "Some s = Some s' \<and> files_bytes fs = files_bytes gs'"
    by (intro stamp_bytes_inject) (simp_all add: wf_file_def)
  with Cons.IH [of gs'] Cons.prems(1,2) gs p r show ?case by simp
qed

lemma package_not_file:
  assumes "is_package p" "list_all wf_file fs"
  shows "field_bytes p @ x \<noteq> files_bytes fs"
proof (cases fs)
  case (Cons f fs')
  obtain r s where f: "f = (r, s)" by fastforce
  show ?thesis
  proof
    assume "field_bytes p @ x = files_bytes fs"
    with Cons f have "field_bytes p @ x = field_bytes r @ stamp_bytes (Some s) @ files_bytes fs'"
      by (simp add: files_bytes_def)
    with assms Cons f have "p = r" by (auto dest!: field_inject [rotated 2] simp: wf_file_def is_package_def)
    with assms Cons f show False by (auto simp: wf_file_def is_package_def)
  qed
qed (simp add: files_bytes_def)

lemma packages_inject:
  assumes "list_all is_package ps" "list_all is_package qs" "list_all wf_file fs" "list_all wf_file gs"
    and "concat (map field_bytes ps) @ files_bytes fs = concat (map field_bytes qs) @ files_bytes gs"
  shows "ps = qs \<and> fs = gs"
  using assms(1,2,5)
proof (induction ps arbitrary: qs)
  case Nil
  show ?case
  proof (cases qs)
    case Nil
    with \<open>concat (map _ []) @ _ = _\<close> assms(3,4) files_inject show ?thesis by simp
  next
    case (Cons q qs')
    with Nil have "files_bytes fs = field_bytes q @ concat (map field_bytes qs') @ files_bytes gs" by simp
    with package_not_file [of q fs "concat (map field_bytes qs') @ files_bytes gs"] Cons Nil assms(3) show ?thesis by simp
  qed
next
  case (Cons p ps)
  show ?case
  proof (cases qs)
    case Nil
    with package_not_file [of p gs] Cons.prems assms(4) show ?thesis by simp
  next
    case qs: (Cons q qs')
    have "p = q \<and> concat (map field_bytes ps) @ files_bytes fs = concat (map field_bytes qs') @ files_bytes gs"
      using Cons.prems qs by (intro field_inject) (simp_all add: is_package_def)
    with Cons.IH [of qs'] Cons.prems qs show ?thesis by simp
  qed
qed

section \<open>The digest\<close>

definition wf_inputs :: "vet_inputs \<Rightarrow> bool" where
  "wf_inputs i \<longleftrightarrow>
     length (vi_version i) < 2 ^ 64 \<and> length (vi_go i) < 2 ^ 64 \<and>
     pred_option wf_stamp (vi_go_stamp i) \<and> pred_option wf_stamp (vi_env_stamp i) \<and>
     list_all wf_var (vi_environment i) \<and> is_absolute_text (vi_dir i) \<and>
     list_all is_package (vi_packages i) \<and> list_all wf_file (vi_files i)"

lemma flag_inject: "[if a then CHR 0x01 else CHR 0x00] @ x = [if b then CHR 0x01 else CHR 0x00] @ y \<Longrightarrow> a = b \<and> x = y"
  by (auto split: if_splits)

lemma vet_bytes_inject:
  assumes "wf_inputs i" "wf_inputs j" "vet_bytes i = vet_bytes j"
  shows "i = j"
proof -
  let ?e = "\<lambda>i. concat (map (\<lambda>(n, v). field_bytes n @ field_bytes v) (vi_environment i)) @ field_bytes (vi_dir i) @
    [if vi_outside i then CHR 0x01 else CHR 0x00] @ concat (map field_bytes (vi_packages i)) @ files_bytes (vi_files i)"
  note w = assms(1,2) [unfolded wf_inputs_def]
  have "field_bytes (vi_version i) @ field_bytes (vi_go i) @ stamp_bytes (vi_go_stamp i) @ stamp_bytes (vi_env_stamp i) @ ?e i =
      field_bytes (vi_version j) @ field_bytes (vi_go j) @ stamp_bytes (vi_go_stamp j) @ stamp_bytes (vi_env_stamp j) @ ?e j"
    using assms(3) by (simp add: vet_bytes_def files_bytes_def)
  with w have v: "vi_version i = vi_version j \<and>
      field_bytes (vi_go i) @ stamp_bytes (vi_go_stamp i) @ stamp_bytes (vi_env_stamp i) @ ?e i =
      field_bytes (vi_go j) @ stamp_bytes (vi_go_stamp j) @ stamp_bytes (vi_env_stamp j) @ ?e j"
    by (intro field_inject) auto
  with w have g: "vi_go i = vi_go j \<and> stamp_bytes (vi_go_stamp i) @ stamp_bytes (vi_env_stamp i) @ ?e i =
      stamp_bytes (vi_go_stamp j) @ stamp_bytes (vi_env_stamp j) @ ?e j"
    by (intro field_inject) auto
  with w have s: "vi_go_stamp i = vi_go_stamp j \<and> stamp_bytes (vi_env_stamp i) @ ?e i = stamp_bytes (vi_env_stamp j) @ ?e j"
    by (intro stamp_bytes_inject) auto
  with w have t: "vi_env_stamp i = vi_env_stamp j \<and> ?e i = ?e j"
    by (intro stamp_bytes_inject) auto
  from w t have d: "vi_environment i = vi_environment j \<and> vi_dir i = vi_dir j \<and>
      [if vi_outside i then CHR 0x01 else CHR 0x00] @ concat (map field_bytes (vi_packages i)) @ files_bytes (vi_files i) =
      [if vi_outside j then CHR 0x01 else CHR 0x00] @ concat (map field_bytes (vi_packages j)) @ files_bytes (vi_files j)"
    by (intro environment_inject) auto
  from flag_inject [OF conjunct2 [OF conjunct2 [OF d]]]
  have o': "vi_outside i = vi_outside j \<and> concat (map field_bytes (vi_packages i)) @ files_bytes (vi_files i) =
      concat (map field_bytes (vi_packages j)) @ files_bytes (vi_files j)" .
  from w o' have "vi_packages i = vi_packages j \<and> vi_files i = vi_files j"
    by (intro packages_inject) auto
  with v g s t d o' show ?thesis by simp
qed

end
