(* ===== verification/VetRuns.thy ===== *)
theory VetRuns imports
  VetDigest
  CacheRun
begin

text \<open>
  The runs of \<^verbatim>\<open>crates/go/src/vet.rs\<close>: every module is vetted unless a memo holds a pass for exactly its
  inputs, and the findings are put together. What \<open>go\<close> answers to a command is an argument. The
  threads share nothing but the memo, whose accesses are single operations; the modules come in order here.
\<close>

section \<open>Model\<close>

record vet_command =
  vc_dir :: path
  vc_args :: "string list"
  vc_gowork_off :: bool

definition invoke :: "(vet_command \<Rightarrow> string + vet_output) \<Rightarrow> module_run \<Rightarrow> bool \<Rightarrow> string + vet_output" where
  "invoke go m gowork_set =
     go \<lparr>vc_dir = mr_dir m, vc_args = ''vet'' # mr_packages m, vc_gowork_off = (mr_outside_workspace m \<and> \<not> gowork_set)\<rparr>"

text \<open>The trait \<open>VetMemo\<close>, and the one the engine passes: the marks of the cache.\<close>

record 'm vet_memo =
  me_passed :: "key \<Rightarrow> 'm \<Rightarrow> bool \<times> 'm"
  me_pass :: "key \<Rightarrow> 'm \<Rightarrow> 'm"

definition marks_memo :: "platform \<Rightarrow> files \<Rightarrow> cache vet_memo" where
  "marks_memo pf fs = \<lparr>me_passed = cache_marked pf fs, me_pass = cache_mark pf fs\<rparr>"

definition passes :: "string + vet_output \<Rightarrow> bool" where
  "passes r = (case r of Inl _ \<Rightarrow> False | Inr out \<Rightarrow> vo_success out)"

definition vet_module ::
  "vet_world \<Rightarrow> vet_env \<Rightarrow> (vet_command \<Rightarrow> string + vet_output) \<Rightarrow> path \<Rightarrow> bool \<Rightarrow> 'm vet_memo option \<Rightarrow>
    module_run \<Rightarrow> 'm \<Rightarrow> diagnostic list \<times> 'm" where
  "vet_module w e go root gowork_set memo m st =
     (case Option.bind memo (\<lambda>mo. map_option (Pair mo) (vet_fingerprint w e m)) of
        None \<Rightarrow> (vet_diagnostics root (mr_dir m) (invoke go m gowork_set), st)
      | Some (mo, fp) \<Rightarrow>
          (case me_passed mo (fp_key fp) st of
             (True, st1) \<Rightarrow> ([], st1)
           | (False, st1) \<Rightarrow>
               let output = invoke go m gowork_set in
               (vet_diagnostics root (mr_dir m) output,
                if fp_settled fp \<and> passes output then me_pass mo (fp_key fp) st1 else st1)))"

fun vet_modules ::
  "vet_world \<Rightarrow> vet_env \<Rightarrow> (vet_command \<Rightarrow> string + vet_output) \<Rightarrow> path \<Rightarrow> bool \<Rightarrow> 'm vet_memo option \<Rightarrow>
    module_run list \<Rightarrow> 'm \<Rightarrow> diagnostic list list \<times> 'm" where
  "vet_modules w e go root gowork_set memo [] st = ([], st)"
| "vet_modules w e go root gowork_set memo (m # ms) st =
     (case vet_module w e go root gowork_set memo m st of
        (ds, st1) \<Rightarrow> (case vet_modules w e go root gowork_set memo ms st1 of (dss, st2) \<Rightarrow> (ds # dss, st2)))"

definition vet_sort_key :: "diagnostic \<Rightarrow> string \<times> nat \<times> nat \<times> string" where
  "vet_sort_key d = (d_file d, unat (d_line d), unat (d_column d), d_message d)"

definition planned :: "vet_world \<Rightarrow> path \<Rightarrow> vet_targets \<Rightarrow> module_run list" where
  "planned w root targets =
     (case targets of Modules dirs \<Rightarrow> plan_modules w root dirs | Files files \<Rightarrow> plan_files w root files)"

definition gowork_is_set :: "vet_env \<Rightarrow> bool" where
  "gowork_is_set e = (case map_of (vn_vars e) ''GOWORK'' of Some v \<Rightarrow> v \<noteq> [] | None \<Rightarrow> False)"

definition vet_report :: "path \<Rightarrow> module_run list \<Rightarrow> diagnostic list list \<Rightarrow> vet_outcome" where
  "vet_report root ms found =
     \<lparr>v_skipped = None,
      v_targets = concat (map (\<lambda>m. map (display_target root (mr_dir m)) (mr_packages m)) ms),
      v_errors = remdups_adj (sort_key vet_sort_key (concat found))\<rparr>"

text \<open>\<open>run\<close>: \<open>which\<close> is where \<open>go\<close> was found.\<close>

definition vet_run ::
  "vet_world \<Rightarrow> vet_env \<Rightarrow> (vet_command \<Rightarrow> string + vet_output) \<Rightarrow> path option \<Rightarrow> path \<Rightarrow> vet_targets \<Rightarrow>
    'm vet_memo option \<Rightarrow> 'm \<Rightarrow> vet_outcome \<times> 'm" where
  "vet_run w e0 go which root targets memo st =
     (case which of
        None \<Rightarrow> (vet_skipped ''go is not on PATH'', st)
      | Some executable \<Rightarrow>
          let e = e0\<lparr>vn_go := executable\<rparr>; ms = planned w root targets in
          if ms = []
          then (vet_skipped (case targets of Modules _ \<Rightarrow> ''no Go module under the root''
                 | Files _ \<Rightarrow> ''no Go package in scope belongs to a module''), st)
          else (case vet_modules w e go root (gowork_is_set e) memo ms st of
                  (found, st') \<Rightarrow> (vet_report root ms found, st')))"

section \<open>No failure is silent\<close>

lemma vet_diagnostics_failure: "vet_diagnostics root dir r = [] \<longleftrightarrow> passes r"
  by (auto simp: vet_diagnostics_def passes_def Let_def split: sum.split prod.split)

lemma vet_modules_none:
  "vet_modules w e go root g None ms st = (map (\<lambda>m. vet_diagnostics root (mr_dir m) (invoke go m g)) ms, st)"
  by (induction ms) (simp_all add: vet_module_def)

section \<open>The memo\<close>

text \<open>
  What a memo promises: \<open>keys\<close> are those it would answer yes to; asking changes none, and passing one adds
  no other.
\<close>

locale pass_memo =
  fixes memo :: "'m vet_memo"
    and keys :: "'m \<Rightarrow> key set"
  assumes passed_iff: "fst (me_passed memo k st) \<longleftrightarrow> k \<in> keys st"
    and passed_keys: "keys (snd (me_passed memo k st)) = keys st"
    and pass_keys: "keys (me_pass memo k st) \<subseteq> insert k (keys st)"
begin

text \<open>The keys a module may leave in the memo.\<close>

lemma module_keys:
  assumes "vet_module w e go root g (Some memo) m st = (ds, st')" "k \<in> keys st'"
  shows "k \<in> keys st \<or> (\<exists>fp. vet_fingerprint w e m = Some fp \<and> fp_key fp = k \<and> fp_settled fp \<and> passes (invoke go m g))"
proof (cases "vet_fingerprint w e m")
  case (Some fp)
  obtain b st1 where p: "me_passed memo (fp_key fp) st = (b, st1)" by fastforce
  with passed_keys [of "fp_key fp" st] have "keys st1 = keys st" by simp
  with assms Some p pass_keys [of "fp_key fp" st1] show ?thesis
    by (cases b) (auto simp: vet_module_def Let_def split: if_splits)
qed (use assms in \<open>simp add: vet_module_def\<close>)

lemma module_same:
  assumes "\<And>fp. vet_fingerprint w e m = Some fp \<Longrightarrow> fp_key fp \<in> keys st \<Longrightarrow> passes (invoke go m g)"
  shows "fst (vet_module w e go root g (Some memo) m st) = vet_diagnostics root (mr_dir m) (invoke go m g)"
proof (cases "vet_fingerprint w e m")
  case (Some fp)
  obtain b st1 where p: "me_passed memo (fp_key fp) st = (b, st1)" by fastforce
  with passed_iff [of "fp_key fp" st] assms [OF Some] vet_diagnostics_failure [of root "mr_dir m" "invoke go m g"]
  show ?thesis by (cases b) (simp_all add: vet_module_def Let_def Some)
qed (simp add: vet_module_def)

definition genuine :: "(key \<Rightarrow> bool) \<Rightarrow> 'm \<Rightarrow> bool" where
  "genuine ok st \<longleftrightarrow> (\<forall>k \<in> keys st. ok k)"

lemma modules_same:
  assumes "genuine ok st"
    and "\<And>m fp. m \<in> set ms \<Longrightarrow> vet_fingerprint w e m = Some fp \<Longrightarrow> ok (fp_key fp) \<Longrightarrow> passes (invoke go m g)"
    and "\<And>m fp. m \<in> set ms \<Longrightarrow> vet_fingerprint w e m = Some fp \<Longrightarrow> fp_settled fp \<Longrightarrow> passes (invoke go m g) \<Longrightarrow> ok (fp_key fp)"
  shows "fst (vet_modules w e go root g (Some memo) ms st) = map (\<lambda>m. vet_diagnostics root (mr_dir m) (invoke go m g)) ms \<and>
    genuine ok (snd (vet_modules w e go root g (Some memo) ms st))"
  using assms
proof (induction ms arbitrary: st)
  case (Cons m ms)
  obtain ds st1 where v: "vet_module w e go root g (Some memo) m st = (ds, st1)" by fastforce
  have "ds = vet_diagnostics root (mr_dir m) (invoke go m g)"
    using module_same [of w e m st go g root] Cons.prems(1) Cons.prems(2) [of m] v by (auto simp: genuine_def)
  moreover have "genuine ok st1"
    using module_keys [OF v] Cons.prems(1) Cons.prems(3) [of m] by (auto simp: genuine_def)
  moreover from \<open>genuine ok st1\<close> have "fst (vet_modules w e go root g (Some memo) ms st1) =
      map (\<lambda>m. vet_diagnostics root (mr_dir m) (invoke go m g)) ms \<and>
      genuine ok (snd (vet_modules w e go root g (Some memo) ms st1))"
    by (rule Cons.IH) (use Cons.prems(2,3) in auto)
  ultimately show ?case using v by (simp add: case_prod_unfold)
qed simp

end

lemma use_mark_set: "set (snd (use_mark k ms)) = set ms"
proof -
  have "insert k (set (remove1 k ms)) = set ms" if "k \<in> set ms"
    using that by (induction ms) auto
  then show ?thesis by (auto simp: use_mark_def)
qed

interpretation marks: pass_memo "marks_memo pf fs" "\<lambda>c. set (t_marks (cache_tables pf fs c))"
  for pf :: platform and fs :: files
proof
  show "fst (me_passed (marks_memo pf fs) k c) = (k \<in> set (t_marks (cache_tables pf fs c)))" for k c
    by (simp add: marks_memo_def cache_marked_iff)
  show "set (t_marks (cache_tables pf fs (snd (me_passed (marks_memo pf fs) k c)))) = set (t_marks (cache_tables pf fs c))" for k c
    using use_mark_set by (simp add: marks_memo_def cache_marked_def cache_simps Let_def case_prod_unfold split: option.split)
  show "set (t_marks (cache_tables pf fs (me_pass (marks_memo pf fs) k c))) \<subseteq> insert k (set (t_marks (cache_tables pf fs c)))" for k c
  proof (cases c)
    case (Some st)
    then have "t_marks (cache_tables pf fs (me_pass (marks_memo pf fs) k c)) = mark_step k (t_marks (cache_tables pf fs c))"
      using cache_mark_step [of c pf fs k] by (simp add: marks_memo_def)
    moreover have "set (mark_step k ms) \<subseteq> insert k (set ms)" for ms
    proof -
      have "set (add_mark k ms) \<subseteq> insert k (set ms)"
        unfolding add_mark_def Let_def by (rule subset_trans [OF set_drop_subset]) auto
      with use_mark_set [of k ms] show ?thesis by (auto simp: mark_step_def use_mark_def split: if_splits)
    qed
    ultimately show ?thesis by simp
  qed (auto simp: marks_memo_def cache_mark_def)
qed

section \<open>The inputs of the planned modules\<close>

fun names_ok :: "vet_tree \<Rightarrow> bool" and entry_ok :: "vet_entry \<Rightarrow> bool" where
  "names_ok Unlisted \<longleftrightarrow> True"
| "names_ok (Listed es) \<longleftrightarrow> list_all entry_ok es"
| "entry_ok BadEntry \<longleftrightarrow> True"
| "entry_ok (FileEntry n) \<longleftrightarrow> wf_name (Normal n)"
| "entry_ok (DirEntry n t) \<longleftrightarrow> wf_name (Normal n) \<and> names_ok t"

text \<open>A relative path made of ordinary names.\<close>

definition plain_path :: "path \<Rightarrow> bool" where
  "plain_path p \<longleftrightarrow> list_all wf_name p \<and> list_all (\<lambda>c. c \<noteq> ParentDir) p"

lemma plain_path_append [simp]: "plain_path (p @ [Normal n]) \<longleftrightarrow> plain_path p \<and> wf_name (Normal n)"
  by (auto simp: plain_path_def)

lemma stamp_entries_plain:
  assumes "stamp_entries is_file dir rel es = Some (fs, ds)" "plain_path rel" "list_all entry_ok es"
  shows "(\<forall>p \<in> set fs. plain_path p \<and> p \<noteq> []) \<and> (\<forall>(p, t) \<in> set ds. plain_path p \<and> names_ok t)"
  using assms
proof (induction is_file dir rel es arbitrary: fs ds rule: stamp_entries.induct)
  case (4 is_file dir rel n t es)
  then obtain fs' ds' where s: "stamp_entries is_file dir rel es = Some (fs', ds')" "fs = fs'"
      "ds = ds' \<or> ds = (rel @ [Normal n], t) # ds'"
    by (auto simp: Let_def split: if_splits)
  from "4.IH" [OF refl s(1)] "4.prems" s show ?case by auto
qed auto

lemma module_files_plain:
  assumes "module_files is_file dir ps rels = Some files" "\<forall>(p, t) \<in> set ps. plain_path p \<and> names_ok t"
    and "\<forall>p \<in> set rels. plain_path p \<and> p \<noteq> []"
  shows "\<forall>p \<in> set files. plain_path p \<and> p \<noteq> []"
  using assms
proof (induction is_file dir ps rels rule: module_files.induct)
  case (3 is_file dir rel es ps rels)
  then obtain fs ds where s: "stamp_entries is_file dir rel es = Some (fs, ds)"
      "module_files is_file dir (rev ds @ ps) (rels @ fs) = Some files"
    by (auto split: option.splits)
  from stamp_entries_plain [OF s(1)] "3.prems" have
    "(\<forall>p \<in> set fs. plain_path p \<and> p \<noteq> []) \<and> (\<forall>(p, t) \<in> set ds. plain_path p \<and> names_ok t)" by auto
  then show ?case by (intro "3.IH" [OF s(1) refl s(2)]) (use "3.prems" in auto)
qed auto

lemma plain_text: "plain_path p \<Longrightarrow> p \<noteq> [] \<Longrightarrow> path_text p \<noteq> ''.'' \<and> \<not> prefix ''./'' (path_text p)"
proof -
  assume p: "plain_path p" "p \<noteq> []"
  then obtain n cs where c: "p = Normal n # cs" "n \<noteq> []" "n \<noteq> ''.''" "CHR ''/'' \<notin> set n"
    by (cases p; cases "hd p") (auto simp: plain_path_def)
  then obtain a m where n: "n = a # m" by (cases n) auto
  show ?thesis
  proof (cases m)
    case Nil
    with c n show ?thesis by (cases cs) auto
  next
    case (Cons b m')
    with c n show ?thesis by (cases cs) auto
  qed
qed

lemma absolute_text: "p = RootDir # cs \<Longrightarrow> prefix ''/'' (path_text p)"
  by simp

lemma push_absolute: "\<exists>cs. push_path (RootDir # r) p = RootDir # cs"
  by (auto simp: push_path_def split: list.split component.split)

lemma set_remdups_sort [simp]: "set (remdups (sort xs)) = set xs"
  by simp

lemma grouped_keys: "(k, vs) \<in> set (grouped ps) \<Longrightarrow> k \<in> fst ` set ps \<and> set vs = {v. (k, v) \<in> set ps}"
  by (auto simp: grouped_def image_iff)

lemma package_of_Some:
  assumes "package_of w root rel = Some (module, package)"
  shows "prefix root module" "package = ''.'' \<or> prefix ''./'' package" "vw_is_file w (push_path module [Normal ''go.mod''])"
    "prefix module (push_path root rel)" "has_go_files w (push_path root rel)"
proof -
  from assms have f: "find (\<lambda>a. vw_is_file w (push_path a [Normal ''go.mod''])) (takeWhile (prefix root) (path_ancestors (push_path root rel))) =
      Some module" and rest: "package = package_pattern (case strip_base module (push_path root rel) of Some rel \<Rightarrow> rel | None \<Rightarrow> [])"
      "has_go_files w (push_path root rel)"
    by (auto simp: package_of_def Let_def split: if_splits option.splits)
  from f have m: "module \<in> set (takeWhile (prefix root) (path_ancestors (push_path root rel)))"
      "vw_is_file w (push_path module [Normal ''go.mod''])"
    by (auto simp: find_Some_iff set_conv_nth)
  from m(1) show "prefix root module" by (rule set_takeWhileD [THEN conjunct2])
  from set_takeWhileD [OF m(1)] ancestors_prefix show "prefix module (push_path root rel)" by blast
  from rest show "package = ''.'' \<or> prefix ''./'' package" "has_go_files w (push_path root rel)"
    by (auto simp: package_pattern_def)
  from m(2) show "vw_is_file w (push_path module [Normal ''go.mod''])" .
qed

lemma planned_shape:
  assumes "m \<in> set (planned w (RootDir # r) targets)"
  shows "(\<exists>cs. mr_dir m = RootDir # cs) \<and> (\<forall>p \<in> set (mr_packages m). p = ''.'' \<or> prefix ''./'' p)"
proof (cases targets)
  case (Modules dirs)
  with assms push_absolute [of r] show ?thesis by (auto simp: planned_def plan_modules_def make_module_run_def)
next
  case (Files files)
  let ?ps = "List.map_filter (package_of w (RootDir # r)) (package_dirs files)"
  from assms Files obtain d ps where d: "(d, ps) \<in> set (grouped ?ps)" "mr_dir m = d" "mr_packages m = ps"
    by (auto simp: planned_def plan_files_def make_module_run_def)
  have f: "\<exists>rel. package_of w (RootDir # r) rel = Some x" if "x \<in> set ?ps" for x
    using that by (auto simp: List.map_filter_def)
  from grouped_keys [OF d(1)] have k: "d \<in> fst ` set ?ps" "\<And>p. p \<in> set ps \<Longrightarrow> (d, p) \<in> set ?ps" by auto
  from k(1) f obtain rel q where "package_of w (RootDir # r) rel = Some (d, q)" by fastforce
  from package_of_Some(1) [OF this] have "\<exists>cs. d = RootDir # cs" by (auto simp: prefix_def)
  moreover have "p = ''.'' \<or> prefix ''./'' p" if "p \<in> set ps" for p
    using f [OF k(2) [OF that]] package_of_Some(2) by blast
  ultimately show ?thesis using d(2,3) by simp
qed

text \<open>What a module's digest was made of, and the bounds a \<open>u64\<close> length prefix asks for.\<close>

definition known_inputs :: "vet_world \<Rightarrow> vet_env \<Rightarrow> module_run \<Rightarrow> vet_inputs option" where
  "known_inputs w e m = map_option (inputs_of w e m) (known_files w e m)"

definition short_inputs :: "vet_inputs \<Rightarrow> bool" where
  "short_inputs i \<longleftrightarrow>
     length (vi_version i) < 2 ^ 64 \<and> length (vi_go i) < 2 ^ 64 \<and> length (vi_dir i) < 2 ^ 64 \<and>
     list_all (\<lambda>(n, v). length n < 2 ^ 64 \<and> length v < 2 ^ 64) (vi_environment i) \<and>
     list_all (\<lambda>p. length p < 2 ^ 64) (vi_packages i) \<and> list_all (\<lambda>(r, _). length r < 2 ^ 64) (vi_files i)"

lemma lossy_ascii: "prefix [CHR 0x2F] n \<Longrightarrow> \<exists>s. utf8_lossy n = CHR 0x2F # s"
  by (cases n) (auto simp: utf8_lossy.simps byte_in_def)

lemma environment_vars: "(n, v) \<in> set (environment vars) \<Longrightarrow> \<not> prefix ''/'' n"
  using lossy_ascii [of n] by (auto simp: environment_def TOOLCHAIN_VARS_def)

lemma concat_map_filter: "List.map_filter f (concat xss) = concat (map (List.map_filter f) xss)"
  by (induction xss) (simp_all add: List.map_filter_def)

lemma stamps_plain:
  assumes "module_stamps w t dir = Some files" "names_ok t" "(rel, md) \<in> set files"
  shows "plain_path rel \<and> rel \<noteq> []"
proof -
  from assms(1) obtain rels where r: "module_files (vw_is_file w) dir [([], t)] [] = Some rels"
      and f: "set files \<subseteq> set (stat_files w dir rels) \<union>
        set (concat (map (stat_files w dir) (stat_chunks ((length rels + VET_STATTERS - 1) div VET_STATTERS) rels)))"
    by (auto simp: module_stamps_def split: option.splits if_splits)
  have c: "set (concat (stat_chunks n xs)) \<subseteq> set xs" for n and xs :: "path list"
    by (induction n xs rule: stat_chunks.induct) (subst stat_chunks.simps, auto dest: in_set_takeD in_set_dropD)
  have "rel \<in> set rels"
  proof -
    from f assms(3) consider "(rel, md) \<in> set (stat_files w dir rels)"
      | ch where "ch \<in> set (stat_chunks ((length rels + VET_STATTERS - 1) div VET_STATTERS) rels)"
          "(rel, md) \<in> set (stat_files w dir ch)" by auto
    then show ?thesis
    proof cases
      case 2
      then have "rel \<in> set ch" by (auto simp: stat_files_def List.map_filter_def)
      with 2(1) c [of "(length rels + VET_STATTERS - 1) div VET_STATTERS" rels] show ?thesis by auto
    qed (auto simp: stat_files_def List.map_filter_def)
  qed
  with module_files_plain [OF r] assms(2) show ?thesis by (simp add: plain_path_def)
qed

lemma known_inputs_wf:
  assumes "known_inputs w e m = Some i" "m \<in> set (planned w (RootDir # r) targets)" "names_ok (vn_tree e (mr_dir m))"
    and "short_inputs i"
  shows "wf_inputs i"
proof -
  from assms(1) obtain files where f: "known_files w e m = Some files" "i = inputs_of w e m files"
    by (auto simp: known_inputs_def)
  from f(1) have s: "module_stamps w (vn_tree e (mr_dir m)) (mr_dir m) = Some files"
    by (auto simp: known_files_def split: option.splits if_splits)
  note p = planned_shape [OF assms(2)]
  have "list_all wf_var (vi_environment i)"
    using assms(4) f(2) environment_vars by (auto simp: list_all_iff wf_var_def short_inputs_def inputs_of_def)
  moreover have "is_absolute_text (vi_dir i)"
    using assms(4) f(2) p by (auto simp: is_absolute_text_def short_inputs_def inputs_of_def)
  moreover have "list_all is_package (vi_packages i)"
    using assms(4) f(2) p by (auto simp: list_all_iff is_package_def short_inputs_def inputs_of_def)
  moreover have "list_all wf_file (vi_files i)"
    using assms(4) f(2) stamps_plain [OF s assms(3)] plain_text wf_file_stamp_of
    by (fastforce simp: list_all_iff wf_file_def short_inputs_def inputs_of_def)
  ultimately show ?thesis
    using assms(4) f(2) by (auto simp: wf_inputs_def short_inputs_def inputs_of_def wf_file_stamp_of option.pred_set)
qed

section \<open>A series of runs\<close>

text \<open>The memo after the first \<open>n\<close> runs, each with its own file system, environment, answers and targets.\<close>

fun memo_after ::
  "(nat \<Rightarrow> vet_world) \<Rightarrow> (nat \<Rightarrow> vet_env) \<Rightarrow> (nat \<Rightarrow> vet_command \<Rightarrow> string + vet_output) \<Rightarrow> path option \<Rightarrow> path \<Rightarrow>
    (nat \<Rightarrow> vet_targets) \<Rightarrow> 'm vet_memo \<Rightarrow> 'm \<Rightarrow> nat \<Rightarrow> 'm" where
  "memo_after w e go which root targets memo st 0 = st"
| "memo_after w e go which root targets memo st (Suc n) =
     snd (vet_run (w n) (e n) (go n) which root (targets n) (Some memo)
       (memo_after w e go which root targets memo st n))"

text \<open>A module passed in run \<open>i\<close> over settled inputs, whose digest is \<open>k\<close>.\<close>

definition pass_recorded ::
  "(nat \<Rightarrow> vet_world) \<Rightarrow> (nat \<Rightarrow> vet_env) \<Rightarrow> (nat \<Rightarrow> vet_command \<Rightarrow> string + vet_output) \<Rightarrow> path \<Rightarrow>
    (nat \<Rightarrow> vet_targets) \<Rightarrow> nat \<Rightarrow> key \<Rightarrow> bool" where
  "pass_recorded w e go root targets i k \<longleftrightarrow>
     (\<exists>m \<in> set (planned (w i) root (targets i)). \<exists>fp. vet_fingerprint (w i) (e i) m = Some fp \<and> fp_key fp = k \<and>
        fp_settled fp \<and> passes (invoke (go i) m (gowork_is_set (e i))))"

text \<open>A digest that passed in one run passes in every later one.\<close>

definition keys_decide ::
  "(nat \<Rightarrow> vet_world) \<Rightarrow> (nat \<Rightarrow> vet_env) \<Rightarrow> (nat \<Rightarrow> vet_command \<Rightarrow> string + vet_output) \<Rightarrow> path \<Rightarrow>
    (nat \<Rightarrow> vet_targets) \<Rightarrow> bool" where
  "keys_decide w e go root targets \<longleftrightarrow>
     (\<forall>i n m m' fp fp'. i \<le> n \<longrightarrow> m \<in> set (planned (w i) root (targets i)) \<longrightarrow>
        m' \<in> set (planned (w n) root (targets n)) \<longrightarrow> vet_fingerprint (w i) (e i) m = Some fp \<longrightarrow>
        vet_fingerprint (w n) (e n) m' = Some fp' \<longrightarrow> fp_key fp = fp_key fp' \<longrightarrow> fp_settled fp \<longrightarrow>
        passes (invoke (go i) m (gowork_is_set (e i))) \<longrightarrow> passes (invoke (go n) m' (gowork_is_set (e n))))"

context pass_memo
begin

lemma run_same:
  assumes "genuine (\<lambda>k. \<exists>i < n. pass_recorded w e go root targets i k) st" "\<And>i. vn_go (e i) = g"
    and "keys_decide w e go root targets"
  shows "fst (vet_run (w n) (e n) (go n) (Some g) root (targets n) (Some memo) st) =
      fst (vet_run (w n) (e n) (go n) (Some g) root (targets n) (None :: 'm vet_memo option) st) \<and>
    genuine (\<lambda>k. \<exists>i < Suc n. pass_recorded w e go root targets i k)
      (snd (vet_run (w n) (e n) (go n) (Some g) root (targets n) (Some memo) st))"
proof -
  have e: "e n\<lparr>vn_go := g\<rparr> = e n" using assms(2) [of n] by auto
  let ?ms = "planned (w n) root (targets n)"
  let ?v = "vet_modules (w n) (e n) (go n) root (gowork_is_set (e n)) (Some memo) ?ms st"
  have "fst ?v = map (\<lambda>m. vet_diagnostics root (mr_dir m) (invoke (go n) m (gowork_is_set (e n)))) ?ms \<and>
      genuine (\<lambda>k. \<exists>i < Suc n. pass_recorded w e go root targets i k) (snd ?v)"
  proof (rule modules_same)
    show "genuine (\<lambda>k. \<exists>i < Suc n. pass_recorded w e go root targets i k) st"
      using assms(1) by (auto simp: genuine_def less_Suc_eq)
    show "passes (invoke (go n) m (gowork_is_set (e n)))"
      if m: "m \<in> set ?ms" "vet_fingerprint (w n) (e n) m = Some fp"
        and r: "\<exists>i < Suc n. pass_recorded w e go root targets i (fp_key fp)" for m fp
    proof -
      from r obtain i m0 fp0 where r: "i < Suc n" "m0 \<in> set (planned (w i) root (targets i))" "vet_fingerprint (w i) (e i) m0 = Some fp0"
          "fp_key fp0 = fp_key fp" "fp_settled fp0" "passes (invoke (go i) m0 (gowork_is_set (e i)))"
        by (auto simp: pass_recorded_def)
      with assms(3) m show ?thesis unfolding keys_decide_def by (metis less_Suc_eq_le)
    qed
    show "\<exists>i < Suc n. pass_recorded w e go root targets i (fp_key fp)"
      if "m \<in> set ?ms" "vet_fingerprint (w n) (e n) m = Some fp" "fp_settled fp" "passes (invoke (go n) m (gowork_is_set (e n)))" for m fp
      using that by (auto simp: pass_recorded_def intro!: exI [of _ n])
  qed
  moreover have "genuine (\<lambda>k. \<exists>i < Suc n. pass_recorded w e go root targets i k) st"
    using assms(1) by (auto simp: genuine_def less_Suc_eq)
  ultimately show ?thesis
    by (simp add: vet_run_def Let_def e vet_modules_none case_prod_unfold)
qed

lemma memo_genuine:
  assumes "keys st = {}" "\<And>i. vn_go (e i) = g"
    and "keys_decide w e go root targets"
  shows "genuine (\<lambda>k. \<exists>i < n. pass_recorded w e go root targets i k) (memo_after w e go (Some g) root targets memo st n)"
proof (induction n)
  case 0
  show ?case using assms(1) by (simp add: genuine_def)
next
  case (Suc n)
  from conjunct2 [OF run_same [OF Suc assms(2,3)]] show ?case by simp
qed

end

lemma same_key_same_inputs:
  assumes "inj H" "vn_hash e = H" "vn_hash e' = H" "vet_fingerprint w e m = Some fp" "vet_fingerprint w' e' m' = Some fp'"
    and "fp_key fp = fp_key fp'"
    and "\<And>i. known_inputs w e m = Some i \<Longrightarrow> wf_inputs i" "\<And>i. known_inputs w' e' m' = Some i \<Longrightarrow> wf_inputs i"
  shows "known_inputs w e m = known_inputs w' e' m'"
proof -
  from assms(4,5) obtain f f' where f: "known_files w e m = Some f" "known_files w' e' m' = Some f'"
      "fp_key fp = vn_hash e (vet_bytes (inputs_of w e m f))" "fp_key fp' = vn_hash e' (vet_bytes (inputs_of w' e' m' f'))"
    by (auto simp: vet_fingerprint_def)
  with assms(1-3,6) have "vet_bytes (inputs_of w e m f) = vet_bytes (inputs_of w' e' m' f')"
    by (simp add: inj_eq)
  moreover have "wf_inputs (inputs_of w e m f)" "wf_inputs (inputs_of w' e' m' f')"
    using assms(7,8) f(1,2) by (simp_all add: known_inputs_def)
  ultimately show ?thesis using f(1,2) vet_bytes_inject by (simp add: known_inputs_def)
qed

end
