(* ===== verification/VetFacts.thy ===== *)
theory VetFacts imports
  VetRuns
begin

text \<open>
  What a user can rely on from \<open>go vet\<close> under fmtkit: nothing is skipped wrongly, nothing fails silently,
  and every package of the scope is vetted from its own module.
\<close>

section \<open>A memo changes nothing\<close>

text \<open>Every planned module has a digest that says what it read, where it has one at all.\<close>

definition digestible :: "(nat \<Rightarrow> vet_world) \<Rightarrow> (nat \<Rightarrow> vet_env) \<Rightarrow> path \<Rightarrow> (nat \<Rightarrow> vet_targets) \<Rightarrow> bool" where
  "digestible w e root targets \<longleftrightarrow>
     (\<forall>i. \<forall>m \<in> set (planned (w i) root (targets i)). names_ok (vn_tree (e i) (mr_dir m)) \<and>
        (\<forall>x. known_inputs (w i) (e i) m = Some x \<longrightarrow> short_inputs x))"

text \<open>\<open>go vet\<close> passes again over the same settled inputs.\<close>

definition inputs_decide ::
  "(nat \<Rightarrow> vet_world) \<Rightarrow> (nat \<Rightarrow> vet_env) \<Rightarrow> (nat \<Rightarrow> vet_command \<Rightarrow> string + vet_output) \<Rightarrow> path \<Rightarrow>
    (nat \<Rightarrow> vet_targets) \<Rightarrow> bool" where
  "inputs_decide w e go root targets \<longleftrightarrow>
     (\<forall>i n m m' fp. i \<le> n \<longrightarrow> m \<in> set (planned (w i) root (targets i)) \<longrightarrow>
        m' \<in> set (planned (w n) root (targets n)) \<longrightarrow> known_inputs (w i) (e i) m = known_inputs (w n) (e n) m' \<longrightarrow>
        vet_fingerprint (w i) (e i) m = Some fp \<longrightarrow> fp_settled fp \<longrightarrow>
        passes (invoke (go i) m (gowork_is_set (e i))) \<longrightarrow> passes (invoke (go n) m' (gowork_is_set (e n))))"

lemma inputs_decide_keys:
  assumes "inj H" "\<And>i. vn_hash (e i) = H" "digestible w e (RootDir # r) targets" "inputs_decide w e go (RootDir # r) targets"
  shows "keys_decide w e go (RootDir # r) targets"
  unfolding keys_decide_def
proof (intro allI impI)
  fix i n m m' fp fp'
  assume h: "i \<le> n" "m \<in> set (planned (w i) (RootDir # r) (targets i))" "m' \<in> set (planned (w n) (RootDir # r) (targets n))"
    "vet_fingerprint (w i) (e i) m = Some fp" "vet_fingerprint (w n) (e n) m' = Some fp'" "fp_key fp = fp_key fp'"
    "fp_settled fp" "passes (invoke (go i) m (gowork_is_set (e i)))"
  have wf: "wf_inputs x" if "known_inputs (w j) (e j) q = Some x" "q \<in> set (planned (w j) (RootDir # r) (targets j))" for j q x
    using known_inputs_wf [OF that] assms(3) that by (simp add: digestible_def)
  have "known_inputs (w i) (e i) m = known_inputs (w n) (e n) m'"
    by (rule same_key_same_inputs [OF assms(1,2,2) h(4,5,6)]) (use wf h(2,3) in blast)+
  with assms(4) h show "passes (invoke (go n) m' (gowork_is_set (e n)))" unfolding inputs_decide_def by blast
qed

lemma vet_run_errors:
  "v_errors (fst (vet_run w e go (Some g) root targets (None :: 'm vet_memo option) st)) = [] \<longleftrightarrow>
     (\<forall>m \<in> set (planned w root targets). passes (invoke go m (gowork_is_set e)))"
proof -
  have g: "gowork_is_set (e\<lparr>vn_go := g\<rparr>) = gowork_is_set e" by (simp add: gowork_is_set_def)
  have "sort_key vet_sort_key xs = [] \<longleftrightarrow> xs = []" for xs
    by (metis length_0_conv length_sort)
  then show ?thesis
    by (auto simp: vet_run_def Let_def g vet_modules_none vet_report_def vet_skipped_def vet_default_def
        vet_diagnostics_failure split: vet_targets.split)
qed

text \<open>
  C24: Remembering the \<open>go vet\<close> runs that passed changes no report: in any run of a series that starts
  with a cache without marks, whatever changes between the runs, the outcome is that of vetting every
  module again, and it has no finding exactly when every planned run passes. Assumed: the hash does not
  collide, what is digested has fewer than \<open>2^64\<close> bytes per field, file names are names, and \<open>go vet\<close>
  depends on what the digest covers once the files have settled.
\<close>

theorem memoised_vet_is_vet:
  assumes "t_marks (cache_tables pf fs c) = []"
    and "inj H" "\<And>i. vn_hash (e i) = H" "\<And>i. vn_go (e i) = g"
    and "digestible w e (RootDir # r) targets" "inputs_decide w e go (RootDir # r) targets"
  shows "fst (vet_run (w n) (e n) (go n) (Some g) (RootDir # r) (targets n) (Some (marks_memo pf fs))
      (memo_after w e go (Some g) (RootDir # r) targets (marks_memo pf fs) c n)) =
    fst (vet_run (w n) (e n) (go n) (Some g) (RootDir # r) (targets n) None c) \<and>
    (v_errors (fst (vet_run (w n) (e n) (go n) (Some g) (RootDir # r) (targets n) (Some (marks_memo pf fs))
      (memo_after w e go (Some g) (RootDir # r) targets (marks_memo pf fs) c n))) = [] \<longleftrightarrow>
     (\<forall>m \<in> set (planned (w n) (RootDir # r) (targets n)). passes (invoke (go n) m (gowork_is_set (e n)))))"
proof -
  let ?st = "memo_after w e go (Some g) (RootDir # r) targets (marks_memo pf fs) c n"
  note h = inputs_decide_keys [OF assms(2,3,5,6)]
  have "marks.genuine pf fs (\<lambda>k. \<exists>i < n. pass_recorded w e go (RootDir # r) targets i k) ?st"
    by (rule marks.memo_genuine) (use assms(1,4) h in auto)
  from conjunct1 [OF marks.run_same [OF this assms(4) h]]
  have "fst (vet_run (w n) (e n) (go n) (Some g) (RootDir # r) (targets n) (Some (marks_memo pf fs)) ?st) =
      fst (vet_run (w n) (e n) (go n) (Some g) (RootDir # r) (targets n) None ?st)" .
  moreover have "fst (vet_run (w n) (e n) (go n) (Some g) (RootDir # r) (targets n) None ?st) =
      fst (vet_run (w n) (e n) (go n) (Some g) (RootDir # r) (targets n) (None :: cache vet_memo option) c)"
    by (simp add: vet_run_def Let_def vet_modules_none)
  ultimately show ?thesis by (simp add: vet_run_errors)
qed

text \<open>A module that passes, is edited, and then fails: the pass of the first run does not hide the failure.\<close>

definition vet_sample_dir :: path where "vet_sample_dir = [RootDir, Normal ''r'']"

definition vet_sample_world :: "nat \<Rightarrow> vet_world" where
  "vet_sample_world i =
     \<lparr>vw_is_file = (\<lambda>p. p = [RootDir, Normal ''r'', Normal ''go.mod'']),
      vw_read = (\<lambda>p. if p = [RootDir, Normal ''r'', Normal ''go.mod''] then Some ''module m'' else None),
      vw_list = (\<lambda>_. None),
      vw_metadata = (\<lambda>p. Some \<lparr>md_is_file = True, md_dev = 1, md_ino = 1, md_size = 1, md_mtime = (if i = 0 then 1 else 2),
        md_mtime_nsec = 0, md_ctime = 0, md_ctime_nsec = 0, vm_mode = 0\<rparr>)\<rparr>"

definition vet_sample_env :: vet_env where
  "vet_sample_env =
     \<lparr>vn_go = [RootDir, Normal ''go''], vn_canonical = Some, vn_vars = [], vn_config_dir = None, vn_now = 100000000000,
      vn_version = ''2'', vn_hash = (\<lambda>s. s), vn_tree = (\<lambda>_. Listed [FileEntry ''a.go''])\<rparr>"

definition vet_sample_go :: "nat \<Rightarrow> vet_command \<Rightarrow> string + vet_output" where
  "vet_sample_go i _ = Inr \<lparr>vo_success = (i = 0), vo_status = ''exit status: 1'', vo_stdout = [], vo_stderr = []\<rparr>"

definition vet_sample_run :: module_run where
  "vet_sample_run = \<lparr>mr_dir = vet_sample_dir, mr_packages = [''./...''], mr_outside_workspace = False\<rparr>"

lemma vet_sample_ancestors: "path_ancestors vet_sample_dir = [[RootDir, Normal ''r''], [RootDir]]"
  by (simp add: vet_sample_dir_def path_ancestors.simps path_parent_def)

lemma vet_sample_planned:
  "planned (vet_sample_world i) [RootDir, Normal ''r''] (Modules ['''']) = [vet_sample_run]"
  by (simp add: planned_def plan_modules_def components_def in_skipped_dir_def push_path_def make_module_run_def vet_sample_run_def
      outside_workspace_def vet_sample_ancestors [unfolded vet_sample_dir_def] vet_sample_world_def vet_sample_dir_def)

lemma vet_sample_replaces: "\<not> replaces_locally ''module m''"
  by code_simp

lemma vet_sample_files:
  "known_files (vet_sample_world i) vet_sample_env vet_sample_run =
   Some [([Normal ''a.go''], the (vw_metadata (vet_sample_world i) [RootDir, Normal ''r'', Normal ''a.go'']))]"
proof -
  have w: "\<not> in_workspace (vet_sample_world i) (vn_vars vet_sample_env) vet_sample_run"
    by (simp add: in_workspace_def vet_sample_run_def vet_sample_ancestors vet_sample_env_def vet_sample_world_def push_path_def)
  then show ?thesis
    using vet_sample_replaces
    by (simp add: known_files_def vet_sample_world_def vet_sample_run_def vet_sample_dir_def push_path_def vet_sample_env_def
        module_stamps_def PARALLEL_def stat_files_def List.map_filter_def)
qed

lemma vet_sample_inputs:
  "known_inputs (vet_sample_world 0) vet_sample_env vet_sample_run \<noteq>
   known_inputs (vet_sample_world (Suc i)) vet_sample_env vet_sample_run"
  unfolding known_inputs_def vet_sample_files
  by (simp add: inputs_of_def file_stamp_of_def vet_sample_world_def modified_def nanos_since_epoch_def)

lemma vet_sample_digestible: "digestible vet_sample_world (\<lambda>_. vet_sample_env) [RootDir, Normal ''r''] (\<lambda>_. Modules [''''])"
  unfolding digestible_def vet_sample_planned known_inputs_def
  by (simp add: vet_sample_files) (simp add: short_inputs_def inputs_of_def vet_sample_env_def vet_sample_run_def vet_sample_dir_def
      environment_def)

lemma vet_sample_decide:
  "inputs_decide vet_sample_world (\<lambda>_. vet_sample_env) vet_sample_go [RootDir, Normal ''r''] (\<lambda>_. Modules [''''])"
  unfolding inputs_decide_def vet_sample_planned
proof (intro allI impI)
  fix i n m m' fp
  assume m: "m \<in> set [vet_sample_run]" "m' \<in> set [vet_sample_run]"
    and k: "known_inputs (vet_sample_world i) vet_sample_env m = known_inputs (vet_sample_world n) vet_sample_env m'"
    and p: "passes (invoke (vet_sample_go i) m (gowork_is_set vet_sample_env))"
  from p have "i = 0" by (simp add: passes_def invoke_def vet_sample_go_def)
  with k m vet_sample_inputs [of "n - 1"] have "n = 0" by (cases n) auto
  then show "passes (invoke (vet_sample_go n) m' (gowork_is_set vet_sample_env))"
    by (simp add: passes_def invoke_def vet_sample_go_def)
qed

theorem memoised_vet_is_vet_witness:
  "v_errors (fst (vet_run (vet_sample_world 1) vet_sample_env (vet_sample_go 1) (Some [RootDir, Normal ''go''])
     [RootDir, Normal ''r''] (Modules ['''']) (Some (marks_memo (sample_platform sample_stored) Map.empty))
     (memo_after vet_sample_world (\<lambda>_. vet_sample_env) vet_sample_go (Some [RootDir, Normal ''go'']) [RootDir, Normal ''r'']
       (\<lambda>_. Modules ['''']) (marks_memo (sample_platform sample_stored) Map.empty) sample_cache 1))) \<noteq> []"
proof -
  have c: "t_marks (cache_tables (sample_platform sample_stored) Map.empty sample_cache) = []"
    by (simp add: sample_cache_def open_in_def cache_simps force_tables_def tables_load_def empty_tables_def)
  have h: "inj (\<lambda>s :: string. s)" "vn_hash vet_sample_env = (\<lambda>s. s)" "vn_go vet_sample_env = [RootDir, Normal ''go'']"
    by (simp_all add: vet_sample_env_def)
  have "\<not> passes (invoke (vet_sample_go 1) m b)" for m b
    by (simp add: passes_def invoke_def vet_sample_go_def)
  with conjunct2 [OF memoised_vet_is_vet [OF c h vet_sample_digestible vet_sample_decide, of 1]] vet_sample_planned [of 1]
  show ?thesis by simp
qed

section \<open>Which packages are vetted\<close>

lemma ancestors_sorted: "sorted_wrt (\<lambda>a b. length b < length a) (path_ancestors p)"
proof (induction p rule: path_ancestors.induct)
  case (1 p)
  have "length a < length p" if "path_parent p = Some q" "a \<in> set (path_ancestors q)" for a q
    using that ancestors_prefix [OF that(2), THEN prefix_length_le]
    by (cases p rule: rev_cases) (auto simp: path_parent_def split: if_splits)
  with 1 show ?case by (subst path_ancestors.simps) (auto split: option.split)
qed

lemma ancestors_complete:
  "prefix a p \<Longrightarrow> a \<noteq> [] \<Longrightarrow> list_all (\<lambda>c. c \<noteq> RootDir) (tl p) \<Longrightarrow> a \<in> set (path_ancestors p)"
proof (induction p rule: path_ancestors.induct)
  case (1 p)
  show ?case
  proof (cases "a = p")
    case False
    with 1 have s: "strict_prefix a p" by simp
    then obtain c cs where p: "p = a @ c # cs" by (auto elim: strict_prefixE')
    with "1.prems"(2,3) have "last p \<noteq> RootDir" "list_all (\<lambda>c. c \<noteq> RootDir) (tl (butlast p))" "prefix a (butlast p)"
      by (cases a; auto simp: list_all_iff prefix_def butlast_append dest: in_set_butlastD)+
    with p "1.IH" [of "butlast p"] "1.prems" show ?thesis
      by (subst path_ancestors.simps) (simp add: path_parent_def)
  qed (subst path_ancestors.simps, simp)
qed

text \<open>No module lies between a package and the module it is vetted in.\<close>

lemma package_of_nearest:
  assumes "package_of w root rel = Some (d, p)" "prefix d a" "a \<noteq> d" "prefix a (push_path root rel)"
    and "list_all (\<lambda>c. c \<noteq> RootDir) (tl (push_path root rel))"
  shows "\<not> vw_is_file w (push_path a [Normal ''go.mod''])"
proof -
  let ?P = "\<lambda>a. vw_is_file w (push_path a [Normal ''go.mod''])"
  let ?as = "path_ancestors (push_path root rel)"
  from assms(1) have "find ?P (takeWhile (prefix root) ?as) = Some d"
    by (auto simp: package_of_def Let_def split: if_splits option.splits)
  then obtain i where i: "i < length (takeWhile (prefix root) ?as)" "takeWhile (prefix root) ?as ! i = d"
      "\<And>j. j < i \<Longrightarrow> \<not> ?P (takeWhile (prefix root) ?as ! j)"
    by (auto simp: find_Some_iff)
  have l: "length (takeWhile (prefix root) ?as) \<le> length ?as" by (rule length_takeWhile_le)
  from assms(2,3) have "a \<noteq> []" "length d < length a"
    using prefix_length_less [of d a] by (auto simp: strict_prefix_def)
  with ancestors_complete [OF assms(4) _ assms(5)] obtain j where j: "j < length ?as" "?as ! j = a"
    by (auto simp: in_set_conv_nth)
  have "j < i"
  proof (rule ccontr)
    assume "\<not> j < i"
    with i(1,2) l j \<open>length d < length a\<close> ancestors_sorted [of "push_path root rel"]
    have "length (?as ! j) \<le> length (?as ! i)"
      by (cases "j = i") (auto simp: sorted_wrt_iff_nth_less intro: less_imp_le)
    with i j \<open>length d < length a\<close> show False by (simp add: takeWhile_nth)
  qed
  with i(3) [OF this] i(1) j(2) show ?thesis by (simp add: takeWhile_nth)
qed

lemma package_dirs_set:
  "rel \<in> set (package_dirs files) \<longleftrightarrow> (\<exists>f \<in> set files. is_go_path (components f) \<and> path_parent (components f) = Some rel)"
  by (auto simp: package_dirs_def List.map_filter_def image_iff)

lemma grouped_iff: "(\<exists>(k', vs) \<in> set (grouped ps). k' = k \<and> v \<in> set vs) \<longleftrightarrow> (k, v) \<in> set ps"
proof
  assume "\<exists>(k', vs) \<in> set (grouped ps). k' = k \<and> v \<in> set vs"
  then obtain vs where "(k, vs) \<in> set (grouped ps)" "v \<in> set vs" by auto
  with grouped_keys [of k vs ps] show "(k, v) \<in> set ps" by simp
next
  assume kv: "(k, v) \<in> set ps"
  let ?vs = "remdups (sort (map snd (filter (\<lambda>p. fst p = k) ps)))"
  from kv have "(k, ?vs) \<in> set (grouped ps)" by (auto simp: grouped_def image_iff intro!: bexI [of _ "(k, v)"])
  moreover from kv have "v \<in> set ?vs" by (simp add: image_iff)
  ultimately show "\<exists>(k', vs) \<in> set (grouped ps). k' = k \<and> v \<in> set vs" by (intro bexI) auto
qed

lemma grouped_distinct: "distinct (map fst (grouped ps)) \<and> list_all (\<lambda>(k, vs). distinct vs) (grouped ps)"
  by (simp add: grouped_def comp_def list_all_iff)

lemma ancestors_within:
  assumes "d \<in> set (path_ancestors p)" "prefix root d"
  shows "d \<in> set (takeWhile (prefix root) (path_ancestors p))"
proof -
  from assms(1) obtain as bs where s: "path_ancestors p = as @ d # bs" by (auto simp: in_set_conv_decomp)
  have "prefix root a" if "a \<in> set as" for a
  proof -
    have "length d \<le> length a" using ancestors_sorted [of p] s that by (auto simp: sorted_wrt_append)
    moreover have "prefix a p" "prefix d p" by (rule ancestors_prefix; simp add: s that)+
    ultimately have "prefix d a" using prefix_length_prefix by blast
    with assms(2) show ?thesis by (rule prefix_order.trans)
  qed
  with s assms(2) show ?thesis by simp
qed

lemma package_of_iff:
  assumes "list_all (\<lambda>c. c \<noteq> RootDir) (tl (push_path root rel))" "root \<noteq> []"
  shows "package_of w root rel = Some (d, p) \<longleftrightarrow>
    \<not> in_skipped_dir rel \<and> has_go_files w (push_path root rel) \<and> prefix root d \<and> prefix d (push_path root rel) \<and>
    vw_is_file w (push_path d [Normal ''go.mod'']) \<and> p = package_pattern (drop (length d) (push_path root rel)) \<and>
    (\<forall>a. prefix d a \<longrightarrow> a \<noteq> d \<longrightarrow> prefix a (push_path root rel) \<longrightarrow> \<not> vw_is_file w (push_path a [Normal ''go.mod'']))"
    (is "?l \<longleftrightarrow> ?r")
proof
  assume l: ?l
  then have "p = package_pattern (drop (length d) (push_path root rel))" "\<not> in_skipped_dir rel"
    using package_of_Some(4) [OF l] by (auto simp: package_of_def Let_def strip_base_def split: if_splits option.splits)
  with package_of_Some [OF l] package_of_nearest [OF l _ _ _ assms(1)] show ?r by blast
next
  assume r: ?r
  let ?P = "\<lambda>a. vw_is_file w (push_path a [Normal ''go.mod''])"
  from r assms(2) have "d \<noteq> []" by auto
  with r ancestors_complete [OF _ _ assms(1)] ancestors_within
  have "d \<in> set (takeWhile (prefix root) (path_ancestors (push_path root rel)))" by blast
  with r obtain d' where f: "find ?P (takeWhile (prefix root) (path_ancestors (push_path root rel))) = Some d'"
    by (cases "find ?P (takeWhile (prefix root) (path_ancestors (push_path root rel)))") (auto simp: find_None_iff)
  with r obtain p' where p': "package_of w root rel = Some (d', p')" by (simp add: package_of_def)
  have "d' = d"
  proof (rule ccontr)
    assume n: "d' \<noteq> d"
    from prefix_same_cases [OF package_of_Some(4) [OF p']] r consider "prefix d d'" | "prefix d' d" by blast
    then show False
    proof cases
      case 1
      with n r package_of_Some(3,4) [OF p'] show False by blast
    next
      case 2
      from package_of_nearest [OF p' 2 n [symmetric] _ assms(1)] r show False by blast
    qed
  qed
  with f r show ?l by (simp add: package_of_def strip_base_def)
qed

lemma relative_dir:
  assumes "list_all wf_name r" "\<not> prefix ''/'' f" "path_parent (components f) = Some rel"
  shows "list_all (\<lambda>c. c \<noteq> RootDir) (tl (push_path (RootDir # r) rel))"
proof -
  have c: "components f = cs \<Longrightarrow> c \<in> set cs \<Longrightarrow> c \<noteq> RootDir" for cs c
    using assms(2) by (auto simp: components_def component_of_def Let_def split: if_splits)
  from assms(3) have "rel = butlast (components f)" by (auto simp: path_parent_def split: if_splits)
  then have "\<forall>c \<in> set rel. c \<noteq> RootDir" using c [OF refl] by (auto dest: in_set_butlastD)
  moreover have "\<forall>c \<in> set r. c \<noteq> RootDir" using assms(1) by (auto simp: list_all_iff)
  ultimately show ?thesis by (auto simp: push_path_def list_all_iff split: list.split component.split)
qed

text \<open>
  Every package of the scope is vetted exactly once, from the nearest module above it: a run of a
  module names a package exactly when some Go file of the scope is in it, the directory has a Go file and
  is not one \<open>go\<close> skips, and that module's is the nearest \<open>go.mod\<close> below the root; no module has two
  runs and no run names a package twice.
\<close>

theorem packages_are_vetted_once:
  assumes "list_all wf_name r" "\<And>f. f \<in> set files \<Longrightarrow> \<not> prefix ''/'' f"
  shows "distinct (map mr_dir (plan_files w (RootDir # r) files)) \<and>
    list_all (\<lambda>m. distinct (mr_packages m)) (plan_files w (RootDir # r) files) \<and>
    (list_ex (\<lambda>m. mr_dir m = d \<and> p \<in> set (mr_packages m)) (plan_files w (RootDir # r) files) \<longleftrightarrow>
      (\<exists>f rel. f \<in> set files \<and> is_go_path (components f) \<and> path_parent (components f) = Some rel \<and>
         \<not> in_skipped_dir rel \<and> has_go_files w (push_path (RootDir # r) rel) \<and>
         prefix (RootDir # r) d \<and> prefix d (push_path (RootDir # r) rel) \<and>
         vw_is_file w (push_path d [Normal ''go.mod'']) \<and> p = package_pattern (drop (length d) (push_path (RootDir # r) rel)) \<and>
         (\<forall>a. prefix d a \<longrightarrow> a \<noteq> d \<longrightarrow> prefix a (push_path (RootDir # r) rel) \<longrightarrow>
            \<not> vw_is_file w (push_path a [Normal ''go.mod'']))))"
proof -
  let ?ps = "List.map_filter (package_of w (RootDir # r)) (package_dirs files)"
  have m: "make_module_run w d ps = \<lparr>mr_dir = d, mr_packages = ps, mr_outside_workspace = outside_workspace w d\<rparr>" for d ps
    by (simp add: make_module_run_def)
  have "distinct (map mr_dir (plan_files w (RootDir # r) files))"
    "list_all (\<lambda>m. distinct (mr_packages m)) (plan_files w (RootDir # r) files)"
    using grouped_distinct [of ?ps] by (auto simp: plan_files_def m comp_def case_prod_unfold list_all_iff)
  moreover have "list_ex (\<lambda>m. mr_dir m = d \<and> p \<in> set (mr_packages m)) (plan_files w (RootDir # r) files) \<longleftrightarrow>
      (\<exists>f rel. f \<in> set files \<and> is_go_path (components f) \<and> path_parent (components f) = Some rel \<and>
        package_of w (RootDir # r) rel = Some (d, p))"
  proof -
    have "list_ex (\<lambda>m. mr_dir m = d \<and> p \<in> set (mr_packages m)) (plan_files w (RootDir # r) files) \<longleftrightarrow>
        (\<exists>(k, vs) \<in> set (grouped ?ps). k = d \<and> p \<in> set vs)"
      by (simp add: plan_files_def m list_ex_iff case_prod_unfold)
    also have "\<dots> \<longleftrightarrow> (d, p) \<in> set ?ps" by (rule grouped_iff)
    also have "\<dots> \<longleftrightarrow> (\<exists>rel \<in> set (package_dirs files). package_of w (RootDir # r) rel = Some (d, p))"
      by (auto simp: List.map_filter_def image_iff)
    finally show ?thesis using package_dirs_set by blast
  qed
  ultimately show ?thesis
    using package_of_iff [OF relative_dir [OF assms(1) assms(2)]] by (simp cong: conj_cong)
qed

text \<open>A file of a nested module.\<close>

definition nested_world :: vet_world where
  "nested_world =
     \<lparr>vw_is_file = (\<lambda>p. p = [RootDir, Normal ''go.mod''] \<or> p = [RootDir, Normal ''m'', Normal ''go.mod'']),
      vw_read = (\<lambda>_. None), vw_list = (\<lambda>_. Some [Entry ''a.go'' TFile]), vw_metadata = (\<lambda>_. None)\<rparr>"

theorem packages_are_vetted_once_witness:
  "list_ex (\<lambda>m. mr_dir m = [RootDir, Normal ''m''] \<and> ''./p'' \<in> set (mr_packages m))
     (plan_files nested_world [RootDir] [''m/p/a.go''])"
proof -
  have c: "components ''m/p/a.go'' = [Normal ''m'', Normal ''p'', Normal ''a.go'']"
    by (simp add: components_def component_of_def)
  have "\<forall>a. prefix [RootDir, Normal ''m''] a \<longrightarrow> a \<noteq> [RootDir, Normal ''m''] \<longrightarrow>
      prefix a [RootDir, Normal ''m'', Normal ''p''] \<longrightarrow> \<not> vw_is_file nested_world (push_path a [Normal ''go.mod''])"
    by (auto simp: prefix_Cons nested_world_def push_path_def)
  moreover have "vw_is_file nested_world [RootDir, Normal ''m'', Normal ''go.mod'']"
    "vw_list nested_world = (\<lambda>_. Some [Entry ''a.go'' TFile])"
    by (simp_all add: nested_world_def)
  moreover have "list_all wf_name []" "\<And>f. f \<in> set [''m/p/a.go''] \<Longrightarrow> \<not> prefix ''/'' f" by simp_all
  ultimately show ?thesis
    using packages_are_vetted_once [of "[]" "[''m/p/a.go'']" nested_world "[RootDir, Normal ''m'']" "''./p''"]
    by (simp add: c is_go_path_def last_name_def go_extension_def path_parent_def in_skipped_dir_def skipped_dir_def
        push_path_def has_go_files_def package_pattern_def slash_def utf8_lossy.simps byte_in_def)
qed

end
