(* ===== verification/Locate.thy ===== *)
theory Locate imports
  Paths
  Proto
begin

text \<open>
  \<^verbatim>\<open>crates/go/src/locate.rs\<close>: where the helper and \<open>go\<close> are found. Whether a path is executable, the
  environment and the running executable are arguments.
\<close>

definition HELPER_NAME :: string where "HELPER_NAME = ''fmtkit-go-helper''"

definition in_dir :: "path \<Rightarrow> path" where
  "in_dir d = push_path d [Normal HELPER_NAME]"

definition install_candidates :: "path option \<Rightarrow> path option \<Rightarrow> path list" where
  "install_candidates exe canonical_exe =
     (let raw_dir = Option.bind exe path_parent; canonical_dir = Option.bind canonical_exe path_parent in
      remdups_adj
        (map in_dir (option_list raw_dir @ option_list canonical_dir) @
         map (\<lambda>d. in_dir (d @ [ParentDir, Normal ''share'', Normal ''fmtkit''])) (option_list canonical_dir)))"

text \<open>\<open>env::split_paths\<close> of the variable, without its empty directories.\<close>

definition search_path :: "string \<Rightarrow> string option \<Rightarrow> (path \<Rightarrow> bool) \<Rightarrow> path option" where
  "search_path name path_var executable =
     (case path_var of
        None \<Rightarrow> None
      | Some v \<Rightarrow>
          find executable (map (\<lambda>d. push_path (components d) [Normal name])
            (filter (\<lambda>d. d \<noteq> []) (split_on (CHR '':'') v))))"

definition resolve_helper ::
  "path option \<Rightarrow> string option \<Rightarrow> path option \<Rightarrow> path option \<Rightarrow> string option \<Rightarrow> (path \<Rightarrow> bool) \<Rightarrow> go_error + path" where
  "resolve_helper explicit env exe canonical_exe path_var executable =
     (let named = (case explicit of Some p \<Rightarrow> Some p | None \<Rightarrow>
        (case env of Some v \<Rightarrow> if v \<noteq> [] then Some (components v) else None | None \<Rightarrow> None))
      in case named of
        Some p \<Rightarrow> if executable p then Inr p else Inl (NotFound (path_text p))
      | None \<Rightarrow>
          let candidates = install_candidates exe canonical_exe in
          (case find executable candidates of
             Some found \<Rightarrow> Inr found
           | None \<Rightarrow>
               (case search_path HELPER_NAME path_var executable of
                  Some found \<Rightarrow> Inr found
                | None \<Rightarrow> Inl (NotFound (case candidates of c # _ \<Rightarrow> path_text c | [] \<Rightarrow> HELPER_NAME)))))"

definition which :: "string \<Rightarrow> string option \<Rightarrow> (path \<Rightarrow> bool) \<Rightarrow> path option" where
  "which name path_var executable = search_path name path_var executable"

section \<open>Facts\<close>

lemma resolved_is_executable:
  "resolve_helper explicit env exe canonical_exe path_var executable = Inr p \<Longrightarrow> executable p"
  by (auto simp: resolve_helper_def search_path_def Let_def find_Some_iff split: option.splits if_splits)

text \<open>A helper that was named is the one used, or the error names it: no other place is searched.\<close>

lemma named_helper_only:
  assumes "explicit = Some p \<or> explicit = None \<and> env = Some v \<and> v \<noteq> [] \<and> p = components v"
  shows "resolve_helper explicit env exe canonical_exe path_var executable =
    (if executable p then Inr p else Inl (NotFound (path_text p)))"
  using assms by (auto simp: resolve_helper_def Let_def)

end
