(* ===== verification/Client.thy ===== *)
theory Client imports
  "HOL-Library.AList"
  Locate
begin

text \<open>
  \<^verbatim>\<open>crates/go/src/client.rs\<close>: the helper as its callers and its three threads see it. A ticket is a
  number; \<open>cl_answers\<close> holds what was sent through the tickets' channels. The state behind the lock
  changes in one step at a time; what a thread does after it released the lock is a later step. The
  process, the pipes and the release's version are arguments.
\<close>

section \<open>State\<close>

datatype failure = FCrashed string | FProtocol string | FClosed

definition failure_error :: "failure \<Rightarrow> go_error" where
  "failure_error f =
     (case f of
        FCrashed m \<Rightarrow> Crashed m
      | FProtocol m \<Rightarrow> Protocol m
      | FClosed \<Rightarrow> Crashed ''the helper was shut down'')"

type_synonym answer = "go_error + reply"

record pending =
  pd_rel :: string
  pd_ticket :: nat

text \<open>The reader waits for the hello, serves replies, stopped for a reason it has still to report, or is done.\<close>

datatype reader_phase = AwaitHello | Serving | Stopped failure | ReaderDone

record client =
  cl_next_id :: u32
  cl_pending :: "(u32 \<times> pending) list"
  cl_failure :: "failure option"
  cl_closing :: bool
  cl_outbox :: "string list option"
  cl_writing :: bool
  cl_killed :: bool
  cl_stderr :: string
  cl_hello :: "(go_error + hello) option"
  cl_reader :: reader_phase
  cl_unsent :: "(u32 \<times> request) list"
  cl_failing :: "(nat \<times> go_error) list"
  cl_answers :: "(nat \<times> answer) list"
  cl_tickets :: "request list"

definition client_hello :: "string \<Rightarrow> string" where
  "client_hello version = encode_frame \<lparr>fr_id = 0, fr_message = MHello \<lparr>h_proto = PROTOCOL_VERSION, h_version = version\<rparr>\<rparr> []"

definition client_start :: "string \<Rightarrow> client" where
  "client_start version =
     \<lparr>cl_next_id = 1, cl_pending = [], cl_failure = None, cl_closing = False, cl_outbox = Some [client_hello version],
      cl_writing = True, cl_killed = False, cl_stderr = [], cl_hello = None, cl_reader = AwaitHello, cl_unsent = [],
      cl_failing = [], cl_answers = [], cl_tickets = []\<rparr>"

section \<open>Requests\<close>

text \<open>\<open>State::allocate_id\<close>: the loop may not end, when every id is pending.\<close>

partial_function (option) allocate_from :: "u32 list \<Rightarrow> u32 \<Rightarrow> (u32 \<times> u32) option" where
  "allocate_from ids n = (if n \<noteq> 0 \<and> n \<notin> set ids then Some (n, n + 1) else allocate_from ids (n + 1))"

definition allocate_id :: "client \<Rightarrow> (u32 \<times> client) option" where
  "allocate_id cl =
     map_option (\<lambda>(i, next_id). (i, cl\<lparr>cl_next_id := next_id\<rparr>)) (allocate_from (map fst (cl_pending cl)) (cl_next_id cl))"

definition send_answer :: "nat \<Rightarrow> answer \<Rightarrow> client \<Rightarrow> client" where
  "send_answer t a cl = cl\<lparr>cl_answers := cl_answers cl @ [(t, a)]\<rparr>"

definition new_ticket :: "request \<Rightarrow> client \<Rightarrow> client" where
  "new_ticket q cl = cl\<lparr>cl_tickets := cl_tickets cl @ [q]\<rparr>"

definition oversized_reply :: "request \<Rightarrow> reply" where
  "oversized_reply q =
     \<lparr>rp_output = rq_source q, rp_applied = [], rp_violations = [], rp_complexity = [],
      rp_error = Some (decimal (length (rq_source q)) @ '' bytes is too large for the go helper'')\<rparr>"

text \<open>
  \<open>Helper::submit\<close> up to the lock it takes: the ticket or the error; \<open>None\<close> when no id is ever found.
  The frame is still to be sent.
\<close>

definition submit :: "request \<Rightarrow> client \<Rightarrow> ((go_error + nat) \<times> client) option" where
  "submit q cl =
     (let t = length (cl_tickets cl) in
      if request_frame_len q > MAX_FRAME
      then Some (Inr t, send_answer t (Inr (oversized_reply q)) (new_ticket q cl))
      else case cl_failure cl of
        Some f \<Rightarrow> Some (Inl (failure_error f), cl)
      | None \<Rightarrow>
          map_option (\<lambda>(i, cl1).
              (Inr t, (new_ticket q cl1)\<lparr>cl_pending := (i, \<lparr>pd_rel = rq_rel q, pd_ticket = t\<rparr>) # cl_pending cl1,
                 cl_unsent := cl_unsent cl1 @ [(i, q)]\<rparr>))
            (allocate_id cl))"

text \<open>A frame put into the queue is lost when the writer is gone.\<close>

definition enqueue :: "string \<Rightarrow> client \<Rightarrow> client" where
  "enqueue bs cl = (if cl_writing cl then cl\<lparr>cl_outbox := map_option (\<lambda>fs. fs @ [bs]) (cl_outbox cl)\<rparr> else cl)"

definition send_frame :: "u32 \<times> request \<Rightarrow> client \<Rightarrow> client" where
  "send_frame p cl =
     enqueue (encode_frame \<lparr>fr_id = fst p, fr_message = MProcess (snd p)\<rparr> []) (cl\<lparr>cl_unsent := remove1 p (cl_unsent cl)\<rparr>)"

section \<open>Failure and delivery\<close>

text \<open>\<open>Shared::fail\<close>: the first failure stays, and all that is pending is to be told.\<close>

definition client_fail :: "failure \<Rightarrow> client \<Rightarrow> client" where
  "client_fail f cl =
     (let first = (case cl_failure cl of Some g \<Rightarrow> g | None \<Rightarrow> f) in
      cl\<lparr>cl_failure := Some first, cl_pending := [],
         cl_failing := cl_failing cl @ map (\<lambda>(_, p). (pd_ticket p, failure_error first)) (cl_pending cl)\<rparr>)"

definition into_reply :: "string \<Rightarrow> wire_reply \<Rightarrow> reply" where
  "into_reply rel w =
     \<lparr>rp_output = wr_output w, rp_applied = wr_applied w,
      rp_violations = map (\<lambda>v. \<lparr>d_rule = wv_rule v, d_file = rel, d_line = wv_line v, d_column = wv_column v,
        d_message = wv_message v, d_severity = SevError\<rparr>) (wr_violations w),
      rp_complexity = wr_complexity w,
      rp_error = (if wr_error w \<noteq> [] then Some (wr_error w) else None)\<rparr>"

definition deliver :: "u32 \<Rightarrow> wire_reply \<Rightarrow> client \<Rightarrow> failure option \<times> client" where
  "deliver i w cl =
     (case map_of (cl_pending cl) i of
        None \<Rightarrow> (Some (FProtocol (''reply for unknown request id '' @ decimal (unat i))), cl)
      | Some p \<Rightarrow>
          (None, send_answer (pd_ticket p) (Inr (into_reply (pd_rel p) w)) (cl\<lparr>cl_pending := AList.delete i (cl_pending cl)\<rparr>)))"

section \<open>The reader\<close>

definition with_stderr :: "string \<Rightarrow> client \<Rightarrow> string" where
  "with_stderr head cl =
     (let t = trim_ws (utf8_lossy (cl_stderr cl)) in if t = [] then head else head @ ''; stderr: '' @ t)"

text \<open>\<open>status\<close> is how the process ended, where that could be learned.\<close>

definition exit_message :: "string option \<Rightarrow> client \<Rightarrow> string" where
  "exit_message status cl =
     with_stderr (case status of Some s \<Rightarrow> ''exited with '' @ s | None \<Rightarrow> ''exited'') cl"

definition ended :: "string option \<Rightarrow> read_error option \<Rightarrow> client \<Rightarrow> failure" where
  "ended status result cl =
     (case result of
        Some (Malformed e) \<Rightarrow> FProtocol e
      | Some (Io e) \<Rightarrow>
          if cl_closing cl then FClosed else FCrashed (''reading replies: '' @ e @ ''; '' @ exit_message status cl)
      | None \<Rightarrow> if cl_closing cl then FClosed else FCrashed (exit_message status cl))"

definition frame_error :: "string \<Rightarrow> frame \<Rightarrow> string \<Rightarrow> failure" where
  "frame_error before fr after = FProtocol (before @ kind_name (message_kind (fr_message fr)) @ after)"

definition try_hello :: "go_error + hello \<Rightarrow> client \<Rightarrow> client" where
  "try_hello h cl = (if cl_hello cl = None then cl\<lparr>cl_hello := Some h\<rparr> else cl)"

text \<open>What one \<open>read_frame\<close> makes of the reader.\<close>

definition reader_step :: "string option \<Rightarrow> read_error + frame option \<Rightarrow> client \<Rightarrow> client" where
  "reader_step status r cl =
     (let over = (\<lambda>e. cl\<lparr>cl_reader := Stopped (ended status e cl)\<rparr>) in
      case cl_reader cl of
        AwaitHello \<Rightarrow>
          (case r of
             Inr (Some fr) \<Rightarrow>
               (case fr_message fr of
                  MHello h \<Rightarrow> try_hello (Inr h) (cl\<lparr>cl_reader := Serving\<rparr>)
                | _ \<Rightarrow> cl\<lparr>cl_reader := Stopped (frame_error ''expected hello, got a '' fr '' frame'')\<rparr>)
           | Inr None \<Rightarrow> over None
           | Inl e \<Rightarrow> over (Some e))
      | Serving \<Rightarrow>
          (case r of
             Inr (Some fr) \<Rightarrow>
               (case fr_message fr of
                  MReply w \<Rightarrow>
                    (case deliver (fr_id fr) w cl of
                       (None, cl1) \<Rightarrow> cl1
                     | (Some f, cl1) \<Rightarrow> cl1\<lparr>cl_reader := Stopped f\<rparr>)
                | _ \<Rightarrow> cl\<lparr>cl_reader := Stopped (frame_error ''unexpected '' fr '' frame from the helper'')\<rparr>)
           | Inr None \<Rightarrow> over None
           | Inl e \<Rightarrow> over (Some e))
      | _ \<Rightarrow> cl)"

text \<open>The end of \<open>read_loop\<close>.\<close>

definition reader_stop :: "failure \<Rightarrow> client \<Rightarrow> client" where
  "reader_stop f cl =
     (client_fail f (try_hello (Inl (failure_error f))
       (cl\<lparr>cl_killed := (cl_killed cl \<or> (case f of FProtocol _ \<Rightarrow> True | _ \<Rightarrow> False))\<rparr>)))\<lparr>cl_reader := ReaderDone\<rparr>"

section \<open>The other threads\<close>

definition STDERR_TAIL :: nat where "STDERR_TAIL = 4096"

definition stderr_step :: "string \<Rightarrow> client \<Rightarrow> client" where
  "stderr_step chunk cl =
     (let tail = cl_stderr cl @ chunk in cl\<lparr>cl_stderr := (if STDERR_TAIL < length tail then drop (length tail - STDERR_TAIL) tail else tail)\<rparr>)"

text \<open>The writer takes a frame and writes it, or fails and leaves.\<close>

definition writer_step :: "bool \<Rightarrow> client \<Rightarrow> client" where
  "writer_step written cl =
     (case cl_outbox cl of
        Some (_ # fs) \<Rightarrow>
          if written then cl\<lparr>cl_outbox := Some fs\<rparr>
          else cl\<lparr>cl_outbox := Some fs, cl_writing := False, cl_killed := (cl_killed cl \<or> \<not> cl_closing cl)\<rparr>
      | _ \<Rightarrow> cl)"

text \<open>A failed request is told outside the lock.\<close>

definition tell :: "nat \<times> go_error \<Rightarrow> client \<Rightarrow> client" where
  "tell p cl = send_answer (fst p) (Inl (snd p)) (cl\<lparr>cl_failing := remove1 p (cl_failing cl)\<rparr>)"

section \<open>Starting and stopping\<close>

definition DEV_VERSION :: string where "DEV_VERSION = ''dev''"

definition compatible :: "string \<Rightarrow> hello \<Rightarrow> bool \<Rightarrow> bool" where
  "compatible version h dev_build \<longleftrightarrow>
     h_proto h = PROTOCOL_VERSION \<and> (h_version h = version \<or> h_version h = DEV_VERSION \<or> dev_build)"

text \<open>What \<open>Helper::start\<close> makes of the answer to its hello, or of none in time.\<close>

definition handshake :: "string \<Rightarrow> bool \<Rightarrow> string \<Rightarrow> (go_error + hello) option \<Rightarrow> go_error + string" where
  "handshake version dev_build executable answer =
     (case answer of
        Some (Inr h) \<Rightarrow>
          if compatible version h dev_build then Inr (h_version h)
          else Inl (VersionMismatch
            (decimal (unat (h_proto h)) @ '' (fmtkit-go-helper '' @ h_version h @ '')'')
            (decimal (unat PROTOCOL_VERSION) @ '' (fmtkit-go-helper '' @ version @ '')'') version)
      | Some (Inl e) \<Rightarrow> Inl e
      | None \<Rightarrow> Inl (Spawn (executable @ '' did not answer the handshake within 30s'')))"

definition begin_shutdown :: "client \<Rightarrow> client" where
  "begin_shutdown cl =
     (enqueue (encode_frame \<lparr>fr_id = 0, fr_message = MShutdown\<rparr> []) (cl\<lparr>cl_closing := True\<rparr>))"

text \<open>The result of \<open>shutdown\<close> once the threads are done: \<open>status\<close> says whether the exit was clean, and how it reads.\<close>

definition shutdown_result :: "string + (bool \<times> string) \<Rightarrow> client \<Rightarrow> go_error option" where
  "shutdown_result status cl =
     (case cl_failure cl of
        Some (FCrashed m) \<Rightarrow> Some (Crashed m)
      | Some (FProtocol m) \<Rightarrow> Some (Protocol m)
      | _ \<Rightarrow>
          (case status of
             Inr (ok, s) \<Rightarrow> if ok then None else Some (Crashed (with_stderr (''exited with '' @ s @ '' during shutdown'') cl))
           | Inl e \<Rightarrow> Some (Crashed (''waiting for the helper: '' @ e))))"

text \<open>\<open>Drop\<close> of a helper that was not shut down.\<close>

definition drop_helper :: "client \<Rightarrow> client" where
  "drop_helper cl =
     (client_fail (FCrashed ''the helper was stopped before it answered'') (cl\<lparr>cl_closing := True\<rparr>))\<lparr>cl_killed := True\<rparr>"

text \<open>\<open>Ticket::wait\<close>: \<open>dropped\<close> says that the sending end is gone.\<close>

definition ticket_wait :: "client \<Rightarrow> nat \<Rightarrow> bool \<Rightarrow> answer option" where
  "ticket_wait cl t dropped =
     (case map_of (cl_answers cl) t of
        Some a \<Rightarrow> Some a
      | None \<Rightarrow> if dropped then Some (Inl (Crashed ''the helper client went away'')) else None)"

end
