(* ===== verification/ClientFacts.thy ===== *)
theory ClientFacts imports
  Client
begin

text \<open>
  The helper's client in every order of its callers' and threads' steps: ids are found, every request is
  answered exactly once, with the reply that came under the id its frame was sent with.
\<close>

section \<open>Ids\<close>

lemma allocate_found: "n \<noteq> 0 \<Longrightarrow> n \<notin> set ids \<Longrightarrow> allocate_from ids n = Some (n, n + 1)"
  by (subst allocate_from.simps) simp

lemma allocate_next: "n = 0 \<or> n \<in> set ids \<Longrightarrow> allocate_from ids n = allocate_from ids (n + 1)"
  by (subst allocate_from.simps) auto

lemma allocate_sound: "allocate_from ids n = Some r \<Longrightarrow> fst r \<noteq> 0 \<and> fst r \<notin> set ids \<and> snd r = fst r + 1"
  by (erule allocate_from.raw_induct [where P = "\<lambda>ids n r. fst r \<noteq> 0 \<and> fst r \<notin> set ids \<and> snd r = fst r + 1", rotated])
    (auto split: if_splits)

lemma allocate_steps: "(\<And>j. j < k \<Longrightarrow> n + of_nat j = 0 \<or> n + of_nat j \<in> set ids) \<Longrightarrow>
    allocate_from ids n = allocate_from ids (n + of_nat k)"
proof (induction k)
  case (Suc k)
  have "n + of_nat (Suc k) = n + of_nat k + 1" by simp
  moreover have "allocate_from ids n = allocate_from ids (n + of_nat k)" by (rule Suc.IH) (use Suc.prems in simp)
  ultimately show ?case using allocate_next [OF Suc.prems [of k]] by (simp only: lessI)
qed simp

lemma allocate_finds: "i \<noteq> 0 \<Longrightarrow> i \<notin> set ids \<Longrightarrow> \<exists>j. allocate_from ids n = Some (j, j + 1)"
proof -
  assume i: "i \<noteq> 0" "i \<notin> set ids"
  let ?free = "\<lambda>k. n + of_nat k \<noteq> 0 \<and> n + of_nat k \<notin> set ids"
  have "?free (unat (i - n))" using i by simp
  then have l: "?free (LEAST k. ?free k)" by (rule LeastI)
  have "allocate_from ids n = allocate_from ids (n + of_nat (LEAST k. ?free k))"
    by (rule allocate_steps) (use not_less_Least in blast)
  with allocate_found [of "n + of_nat (LEAST k. ?free k)" ids] l show ?thesis by auto
qed

lemma free_id: "length ids < 2 ^ 32 - 1 \<Longrightarrow> \<exists>i :: u32. i \<noteq> 0 \<and> i \<notin> set ids"
proof (rule ccontr)
  assume l: "length ids < 2 ^ 32 - 1" and "\<nexists>i :: u32. i \<noteq> 0 \<and> i \<notin> set ids"
  then have "UNIV \<subseteq> insert 0 (set ids)" by auto
  then have "card (UNIV :: u32 set) \<le> card (insert 0 (set ids))" by (intro card_mono) auto
  also have "\<dots> \<le> Suc (length ids)" using card_insert_le_m1 card_length by (metis card_insert_if le_SucI Suc_le_mono finite_set)
  finally show False using l by (simp add: card_word)
qed

text \<open>
  Looking for a request's id ends: while fewer than \<open>2^32 - 1\<close> requests wait, however far the counter
  has wrapped, an id is found, and it is neither 0 nor that of a waiting request; only when every other id
  is taken does the loop run forever.
\<close>

theorem allocation_terminates:
  "(allocate_from ids n = None \<longleftrightarrow> (\<forall>i. i \<noteq> 0 \<longrightarrow> i \<in> set ids)) \<and>
   (length ids < 2 ^ 32 - 1 \<longrightarrow> (\<exists>i. allocate_from ids n = Some (i, i + 1) \<and> i \<noteq> 0 \<and> i \<notin> set ids))"
proof
  show "allocate_from ids n = None \<longleftrightarrow> (\<forall>i. i \<noteq> 0 \<longrightarrow> i \<in> set ids)"
  proof
    assume "allocate_from ids n = None"
    then show "\<forall>i. i \<noteq> 0 \<longrightarrow> i \<in> set ids" using allocate_finds [of _ ids n] by (metis option.distinct(1))
  next
    assume "\<forall>i. i \<noteq> 0 \<longrightarrow> i \<in> set ids"
    then show "allocate_from ids n = None"
      using allocate_sound by (metis not_None_eq)
  qed
  show "length ids < 2 ^ 32 - 1 \<longrightarrow> (\<exists>i. allocate_from ids n = Some (i, i + 1) \<and> i \<noteq> 0 \<and> i \<notin> set ids)"
  proof
    assume "length ids < 2 ^ 32 - 1"
    from free_id [OF this] obtain k where "k \<noteq> 0" "k \<notin> set ids" by blast
    from allocate_finds [OF this, of n] obtain i where i: "allocate_from ids n = Some (i, i + 1)" ..
    with allocate_sound [OF i] show "\<exists>i. allocate_from ids n = Some (i, i + 1) \<and> i \<noteq> 0 \<and> i \<notin> set ids" by auto
  qed
qed

text \<open>The counter about to wrap, with 1 still waiting.\<close>

theorem allocation_terminates_witness: "\<exists>i. allocate_from [1, 4294967295] 4294967295 = Some (i, i + 1) \<and> i \<noteq> 0"
proof -
  have "length [1, 4294967295 :: u32] < 2 ^ 32 - 1" by simp
  with conjunct2 [OF allocation_terminates [of "[1, 4294967295]" 4294967295]] show ?thesis by blast
qed

section \<open>Steps\<close>

text \<open>
  What passes between the client and the helper: a request handed over for sending, with its ticket and the id of
  its frame, and a reply frame the serving reader takes. A step is labelled with what it adds to that history.
\<close>

datatype passed = Asked nat u32 request | Replied u32 wire_reply

fun passed_id :: "passed \<Rightarrow> u32" where
  "passed_id (Asked _ i _) = i"
| "passed_id (Replied i _) = i"

definition newly_asked :: "client \<Rightarrow> client \<Rightarrow> passed list" where
  "newly_asked cl cl' =
     map (\<lambda>(i, q). Asked (length (cl_tickets cl)) i q) (drop (length (cl_unsent cl)) (cl_unsent cl'))"

definition newly_replied :: "client \<Rightarrow> read_error + frame option \<Rightarrow> passed list" where
  "newly_replied cl r =
     (case (cl_reader cl, r) of
        (Serving, Inr (Some fr)) \<Rightarrow> (case fr_message fr of MReply w \<Rightarrow> [Replied (fr_id fr) w] | _ \<Rightarrow> [])
      | _ \<Rightarrow> [])"

inductive client_step :: "passed list \<Rightarrow> client \<Rightarrow> client \<Rightarrow> bool" where
  submits: "\<not> cl_closing cl \<Longrightarrow> submit q cl = Some (r, cl') \<Longrightarrow> client_step (newly_asked cl cl') cl cl'"
| sends: "p \<in> set (cl_unsent cl) \<Longrightarrow> client_step [] cl (send_frame p cl)"
| reads: "client_step (newly_replied cl r) cl (reader_step status r cl)"
| stops: "cl_reader cl = Stopped f \<Longrightarrow> client_step [] cl (reader_stop f cl)"
| tells: "p \<in> set (cl_failing cl) \<Longrightarrow> client_step [] cl (tell p cl)"
| writes: "client_step [] cl (writer_step written cl)"
| complains: "client_step [] cl (stderr_step chunk cl)"
| shuts_down: "\<not> cl_closing cl \<Longrightarrow> cl_unsent cl = [] \<Longrightarrow> client_step [] cl (begin_shutdown cl)"
| drops: "\<not> cl_closing cl \<Longrightarrow> cl_unsent cl = [] \<Longrightarrow> client_step [] cl (drop_helper cl)"

inductive client_reachable :: "string \<Rightarrow> passed list \<Rightarrow> client \<Rightarrow> bool" for version where
  starts: "client_reachable version [] (client_start version)"
| steps: "client_reachable version log cl \<Longrightarrow> client_step ps cl cl' \<Longrightarrow> client_reachable version (log @ ps) cl'"

definition client_moves :: "client \<Rightarrow> client \<Rightarrow> bool" where
  "client_moves = (\<lambda>cl cl'. \<exists>ps. client_step ps cl cl')\<^sup>*\<^sup>*"

text \<open>Every ticket is waiting, about to be told, or answered, and only once.\<close>

definition ticket_places :: "client \<Rightarrow> nat multiset" where
  "ticket_places cl =
     mset (map (\<lambda>(_, p). pd_ticket p) (cl_pending cl)) + mset (map fst (cl_failing cl)) + mset (map fst (cl_answers cl))"

text \<open>
  The frame a ticket's request was sent in waits for its reply: nothing else passed under its id since. A reply
  answers a ticket when it is the first frame under that id after the request's.
\<close>

definition waits_under :: "passed list \<Rightarrow> nat \<Rightarrow> u32 \<Rightarrow> request \<Rightarrow> bool" where
  "waits_under log t i q \<longleftrightarrow> (\<exists>pre mid. log = pre @ Asked t i q # mid \<and> (\<forall>x \<in> set mid. passed_id x \<noteq> i))"

definition answers_ticket :: "passed list \<Rightarrow> nat \<Rightarrow> request \<Rightarrow> wire_reply \<Rightarrow> bool" where
  "answers_ticket log t q w \<longleftrightarrow> (\<exists>pre i post. log = pre @ Replied i w # post \<and> waits_under pre t i q)"

definition own_answer :: "passed list \<Rightarrow> client \<Rightarrow> nat \<Rightarrow> answer \<Rightarrow> bool" where
  "own_answer log cl t a \<longleftrightarrow>
     (case a of
        Inl e \<Rightarrow> \<exists>f. cl_failure cl = Some f \<and> e = failure_error f
      | Inr rep \<Rightarrow>
          rep = oversized_reply (cl_tickets cl ! t) \<and> request_frame_len (cl_tickets cl ! t) > MAX_FRAME \<or>
          (\<exists>w. rep = into_reply (rq_rel (cl_tickets cl ! t)) w \<and> answers_ticket log t (cl_tickets cl ! t) w))"

definition client_inv :: "passed list \<Rightarrow> client \<Rightarrow> bool" where
  "client_inv log cl \<longleftrightarrow>
     ticket_places cl = mset [0..<length (cl_tickets cl)] \<and>
     distinct (map fst (cl_pending cl)) \<and> 0 \<notin> fst ` set (cl_pending cl) \<and>
     (cl_failure cl \<noteq> None \<longrightarrow> cl_pending cl = []) \<and>
     (cl_reader cl = ReaderDone \<longrightarrow> cl_failure cl \<noteq> None) \<and>
     (\<forall>(i, p) \<in> set (cl_pending cl). pd_rel p = rq_rel (cl_tickets cl ! pd_ticket p) \<and>
       waits_under log (pd_ticket p) i (cl_tickets cl ! pd_ticket p)) \<and>
     (\<forall>(t, e) \<in> set (cl_failing cl). own_answer log cl t (Inl e)) \<and>
     (\<forall>(t, a) \<in> set (cl_answers cl). own_answer log cl t a)"

lemma waits_under_more: "waits_under log t i q \<Longrightarrow> \<forall>x \<in> set ps. passed_id x \<noteq> i \<Longrightarrow> waits_under (log @ ps) t i q"
  unfolding waits_under_def by (metis (no_types, lifting) Un_iff append.assoc append_Cons set_append)

lemma answers_ticket_more: "answers_ticket log t q w \<Longrightarrow> answers_ticket (log @ ps) t q w"
  unfolding answers_ticket_def by (metis append.assoc append_Cons)

lemma own_answer_more:
  assumes "own_answer log cl t a" "cl_tickets cl' ! t = cl_tickets cl ! t" "cl_failure cl' = cl_failure cl"
  shows "own_answer (log @ ps) cl' t a"
  using assms answers_ticket_more by (auto simp: own_answer_def Let_def split: sum.splits)

lemma own_answer_frame:
  assumes "cl_tickets cl' = cl_tickets cl" "cl_failure cl' = cl_failure cl"
  shows "own_answer log cl' = own_answer log cl"
  unfolding fun_eq_iff own_answer_def assms by simp

lemma ticket_bound:
  assumes "client_inv log cl"
  shows "(i, p) \<in> set (cl_pending cl) \<Longrightarrow> pd_ticket p < length (cl_tickets cl)"
    and "(t, e) \<in> set (cl_failing cl) \<Longrightarrow> t < length (cl_tickets cl)"
    and "(t, a) \<in> set (cl_answers cl) \<Longrightarrow> t < length (cl_tickets cl)"
proof -
  have e: "set_mset (ticket_places cl) = {0..<length (cl_tickets cl)}"
    using assms by (simp add: client_inv_def)
  then have e: "t < length (cl_tickets cl)" if "t \<in># ticket_places cl" for t using that by auto
  show "(i, p) \<in> set (cl_pending cl) \<Longrightarrow> pd_ticket p < length (cl_tickets cl)"
    by (rule e) (force simp: ticket_places_def)
  show "(t, e) \<in> set (cl_failing cl) \<Longrightarrow> t < length (cl_tickets cl)"
    by (rule e) (force simp: ticket_places_def)
  show "(t, a) \<in> set (cl_answers cl) \<Longrightarrow> t < length (cl_tickets cl)"
    by (rule e) (force simp: ticket_places_def)
qed

text \<open>Steps that touch neither the tickets nor what is behind the lock.\<close>

lemma inv_frame:
  assumes "client_inv log cl" "cl_pending cl' = cl_pending cl" "cl_failing cl' = cl_failing cl" "cl_answers cl' = cl_answers cl"
    and "cl_tickets cl' = cl_tickets cl" "cl_failure cl' = cl_failure cl"
    and "cl_reader cl' = ReaderDone \<Longrightarrow> cl_reader cl = ReaderDone"
  shows "client_inv log cl'"
  using assms(1,7) unfolding client_inv_def ticket_places_def assms(2-6) own_answer_frame [OF assms(5,6)] by blast

lemma mset_upt_Suc: "mset [0..<Suc n] = add_mset n (mset [0..<n])"
  by simp

lemma asked_inv:
  assumes "client_inv log cl" "cl_failure cl = None" "allocate_from (map fst (cl_pending cl)) (cl_next_id cl) = Some (i, n)"
    and cl': "cl' = (new_ticket q (cl\<lparr>cl_next_id := n\<rparr>))\<lparr>
      cl_pending := (i, \<lparr>pd_rel = rq_rel q, pd_ticket = length (cl_tickets cl)\<rparr>) # cl_pending cl,
      cl_unsent := cl_unsent cl @ [(i, q)]\<rparr>"
  shows "client_inv (log @ newly_asked cl cl') cl'"
proof -
  let ?t = "length (cl_tickets cl)"
  have ps: "newly_asked cl cl' = [Asked ?t i q]" by (simp add: newly_asked_def cl')
  have new: "i \<notin> fst ` set (cl_pending cl)" "i \<noteq> 0" using allocate_sound [OF assms(3)] by simp_all
  note b = ticket_bound [OF assms(1)]
  have old: "(cl_tickets cl @ [q]) ! t = cl_tickets cl ! t" if "t < ?t" for t using that by (simp add: nth_append)
  have pend: "pd_rel p = rq_rel (cl_tickets cl' ! pd_ticket p) \<and>
      waits_under (log @ newly_asked cl cl') (pd_ticket p) j (cl_tickets cl' ! pd_ticket p)"
    if "(j, p) \<in> set (cl_pending cl)" for j p
  proof -
    have "j \<noteq> i" using new(1) that by force
    with that assms(1) show ?thesis
      unfolding ps by (auto simp: client_inv_def cl' new_ticket_def old [OF b(1) [OF that]] intro!: waits_under_more)
  qed
  have "waits_under (log @ newly_asked cl cl') ?t i q" unfolding ps waits_under_def by (intro exI [of _ log] exI [of _ "[]"]) simp
  moreover have "own_answer (log @ newly_asked cl cl') cl' t (Inl e)" if "(t, e) \<in> set (cl_failing cl)" for t e
    using that assms(1) b(2) [OF that]
    by (intro own_answer_more [of log cl]) (auto simp: client_inv_def cl' new_ticket_def nth_append)
  moreover have "own_answer (log @ newly_asked cl cl') cl' t a" if "(t, a) \<in> set (cl_answers cl)" for t a
    using that assms(1) b(3) [OF that]
    by (intro own_answer_more [of log cl]) (auto simp: client_inv_def cl' new_ticket_def nth_append)
  ultimately show ?thesis
    using assms(1,2) new pend by (auto simp: client_inv_def cl' new_ticket_def ticket_places_def)
qed

lemma submit_inv:
  assumes "client_inv log cl" "submit q cl = Some (r, cl')"
  shows "client_inv (log @ newly_asked cl cl') cl'"
proof -
  note b = ticket_bound [OF assms(1)]
  let ?t = "length (cl_tickets cl)"
  consider "request_frame_len q > MAX_FRAME" "cl' = send_answer ?t (Inr (oversized_reply q)) (new_ticket q cl)"
    | "cl' = cl"
    | i n where "cl_failure cl = None" "allocate_from (map fst (cl_pending cl)) (cl_next_id cl) = Some (i, n)"
        "cl' = (new_ticket q (cl\<lparr>cl_next_id := n\<rparr>))\<lparr>cl_pending := (i, \<lparr>pd_rel = rq_rel q, pd_ticket = ?t\<rparr>) # cl_pending cl,
           cl_unsent := cl_unsent cl @ [(i, q)]\<rparr>"
    using assms(2) by (auto simp: submit_def allocate_id_def Let_def split: if_splits option.splits)
  then show ?thesis
  proof cases
    case 1
    have old: "cl_tickets cl' ! t = cl_tickets cl ! t" if "t < ?t" for t
      using that by (simp add: 1 send_answer_def new_ticket_def nth_append)
    have same: "own_answer log cl' t a" if "own_answer log cl t a" "t < ?t" for t a
      using own_answer_more [OF that(1) old [OF that(2)], of "[]"] by (simp add: 1 send_answer_def new_ticket_def)
    have "own_answer log cl' ?t (Inr (oversized_reply q))"
      using 1 by (simp add: own_answer_def send_answer_def new_ticket_def)
    moreover have "newly_asked cl cl' = []" by (simp add: 1 newly_asked_def send_answer_def new_ticket_def)
    moreover have "(i, p) \<in> set (cl_pending cl) \<Longrightarrow> cl_tickets cl' ! pd_ticket p = cl_tickets cl ! pd_ticket p" for i p
      using old b(1) by blast
    ultimately show ?thesis
      using assms(1) same b(2,3) by (fastforce simp: client_inv_def 1(2) send_answer_def new_ticket_def ticket_places_def)
  next
    case 2
    with assms(1) show ?thesis by (simp add: newly_asked_def)
  next
    case 3
    then show ?thesis by (rule asked_inv [OF assms(1)])
  qed
qed

lemma client_fail_fields:
  "cl_pending (client_fail f cl) = []" "cl_answers (client_fail f cl) = cl_answers cl"
  "cl_tickets (client_fail f cl) = cl_tickets cl" "cl_reader (client_fail f cl) = cl_reader cl"
  "cl_failure (client_fail f cl) \<noteq> None" "ticket_places (client_fail f cl) = ticket_places cl"
  by (simp_all add: client_fail_def ticket_places_def Let_def comp_def case_prod_unfold)

lemma fail_inv:
  assumes "client_inv log cl"
  shows "client_inv log (client_fail f cl)" "cl_failure (client_fail f cl) \<noteq> None"
proof -
  let ?c = "client_fail f cl"
  have own: "own_answer log ?c t a" if "own_answer log cl t a" for t a
    using that by (auto simp: own_answer_def client_fail_def Let_def split: sum.splits)
  have "own_answer log ?c t (Inl e)" if "(t, e) \<in> set (cl_failing ?c)" for t e
  proof (cases "(t, e) \<in> set (cl_failing cl)")
    case True
    with assms show ?thesis by (auto simp: client_inv_def intro: own)
  qed (use that in \<open>auto simp: own_answer_def client_fail_def Let_def\<close>)
  then show "client_inv log ?c"
    using assms own unfolding client_inv_def client_fail_fields by (auto simp: client_fail_fields)
  show "cl_failure ?c \<noteq> None" by (rule client_fail_fields)
qed

lemma tell_inv:
  assumes "client_inv log cl" "p \<in> set (cl_failing cl)"
  shows "client_inv log (tell p cl)"
proof -
  have m: "mset (map fst (cl_failing cl)) = add_mset (fst p) (mset (map fst (remove1 p (cl_failing cl))))"
    using assms(2) by (simp add: insert_DiffM flip: image_mset_add_mset)
  have own: "own_answer log (tell p cl) = own_answer log cl"
    by (rule own_answer_frame) (simp_all add: tell_def send_answer_def)
  have "ticket_places (tell p cl) = ticket_places cl"
    using m by (simp add: tell_def send_answer_def ticket_places_def)
  moreover have "own_answer log cl (fst p) (Inl (snd p))" using assms by (auto simp: client_inv_def)
  moreover have "set (remove1 p (cl_failing cl)) \<subseteq> set (cl_failing cl)" by (rule set_remove1_subset)
  ultimately show ?thesis
    using assms(1) unfolding client_inv_def own by (auto simp: tell_def send_answer_def)
qed

lemma mset_delete:
  "distinct (map fst ps) \<Longrightarrow> map_of ps i = Some p \<Longrightarrow> mset ps = add_mset (i, p) (mset (AList.delete i ps))"
proof (induction ps)
  case (Cons q ps)
  then show ?case by (cases "fst q = i") auto
qed simp

lemma set_delete: "set (AList.delete i ps) = {x \<in> set ps. fst x \<noteq> i}"
  by (auto simp: AList.delete_eq)

text \<open>A reply frame answers the request that waits under its id, with what the frame holds.\<close>

lemma deliver_inv:
  assumes "client_inv log cl" "deliver i w cl = (r, cl')"
  shows "client_inv (log @ [Replied i w]) cl' \<and> cl_reader cl' = cl_reader cl"
proof -
  let ?log = "log @ [Replied i w]"
  have own: "own_answer ?log cl t a" if "own_answer log cl t a" for t a using that by (rule own_answer_more) simp_all
  have pend: "waits_under ?log (pd_ticket p) j q" if "waits_under log (pd_ticket p) j q" "j \<noteq> i" for p j q
    using that by (intro waits_under_more) auto
  show ?thesis
  proof (cases "map_of (cl_pending cl) i")
    case (Some p)
    let ?q = "cl_tickets cl ! pd_ticket p"
    have i: "(i, p) \<in> set (cl_pending cl)" using Some by (rule map_of_SomeD)
    have m: "mset (cl_pending cl) = add_mset (i, p) (mset (AList.delete i (cl_pending cl)))"
      using assms(1) Some by (intro mset_delete) (simp_all add: client_inv_def)
    from assms(2) Some have cl': "cl' = send_answer (pd_ticket p) (Inr (into_reply (pd_rel p) w))
        (cl\<lparr>cl_pending := AList.delete i (cl_pending cl)\<rparr>)"
      by (simp add: deliver_def)
    have same: "own_answer l cl' = own_answer l cl" for l
      by (rule own_answer_frame) (simp_all add: cl' send_answer_def)
    have "pd_rel p = rq_rel ?q" "waits_under log (pd_ticket p) i ?q" using assms(1) i by (auto simp: client_inv_def)
    moreover from this have "answers_ticket ?log (pd_ticket p) ?q w" by (auto simp: answers_ticket_def)
    ultimately have "own_answer ?log cl (pd_ticket p) (Inr (into_reply (pd_rel p) w))"
      by (auto simp: own_answer_def)
    moreover have "ticket_places cl' = ticket_places cl"
      by (simp add: cl' ticket_places_def send_answer_def m)
    moreover have "cl_failure cl \<noteq> None \<longrightarrow> AList.delete i (cl_pending cl) = []"
      using assms(1) by (auto simp: client_inv_def)
    ultimately show ?thesis
      using assms(1) unfolding client_inv_def same
      by (auto simp: cl' send_answer_def set_delete distinct_delete intro: own pend)
  next
    case None
    then have "cl' = cl" using assms(2) by (simp add: deliver_def)
    moreover have "j \<noteq> i" if "(j, p) \<in> set (cl_pending cl)" for j p
      using None that by (force simp: map_of_eq_None_iff)
    ultimately show ?thesis using assms(1) own pend by (fastforce simp: client_inv_def)
  qed
qed

lemma enqueue_frame [simp]:
  "cl_pending (enqueue bs cl) = cl_pending cl" "cl_failing (enqueue bs cl) = cl_failing cl"
  "cl_answers (enqueue bs cl) = cl_answers cl" "cl_tickets (enqueue bs cl) = cl_tickets cl"
  "cl_failure (enqueue bs cl) = cl_failure cl" "cl_reader (enqueue bs cl) = cl_reader cl"
  by (simp_all add: enqueue_def)

lemma try_hello_frame [simp]:
  "cl_pending (try_hello h cl) = cl_pending cl" "cl_failing (try_hello h cl) = cl_failing cl"
  "cl_answers (try_hello h cl) = cl_answers cl" "cl_tickets (try_hello h cl) = cl_tickets cl"
  "cl_failure (try_hello h cl) = cl_failure cl" "cl_reader (try_hello h cl) = cl_reader cl"
  by (simp_all add: try_hello_def)

lemma newly_replied_end: "newly_replied cl (Inr None) = []"
  by (simp add: newly_replied_def split: reader_phase.split)

lemma reader_phase_inv: "client_inv log cl \<Longrightarrow> ph \<noteq> ReaderDone \<Longrightarrow> client_inv log (cl\<lparr>cl_reader := ph\<rparr>)"
  by (erule inv_frame) simp_all

lemma reader_step_inv:
  assumes "client_inv log cl"
  shows "client_inv (log @ newly_replied cl r) (reader_step status r cl)"
proof (cases "cl_reader cl")
  case AwaitHello
  have "client_inv log (try_hello h (cl\<lparr>cl_reader := Serving\<rparr>))" for h
    by (rule inv_frame [OF assms]) simp_all
  with AwaitHello assms show ?thesis
    by (auto simp: reader_step_def newly_replied_def Let_def intro: reader_phase_inv split: sum.split option.split message.split)
next
  case Serving
  have "client_inv (log @ [Replied i w]) (case deliver i w cl of (None, cl1) \<Rightarrow> cl1 | (Some f, cl1) \<Rightarrow> cl1\<lparr>cl_reader := Stopped f\<rparr>)" for i w
  proof -
    obtain r c1 where d: "deliver i w cl = (r, c1)" by fastforce
    from deliver_inv [OF assms d] reader_phase_inv [of _ c1] d show ?thesis by (cases r) simp_all
  qed
  with Serving assms show ?thesis
    by (auto simp: reader_step_def newly_replied_def Let_def intro: reader_phase_inv split: sum.split option.split message.split)
qed (use assms in \<open>simp_all add: reader_step_def newly_replied_def\<close>)

lemma reader_done_inv:
  assumes "client_inv log cl" "cl_failure cl \<noteq> None"
  shows "client_inv log (cl\<lparr>cl_reader := ReaderDone\<rparr>)"
proof -
  have "own_answer log (cl\<lparr>cl_reader := ReaderDone\<rparr>) = own_answer log cl" by (rule own_answer_frame) simp_all
  with assms show ?thesis unfolding client_inv_def ticket_places_def by auto
qed

lemma stop_inv:
  assumes "client_inv log cl"
  shows "client_inv log (reader_stop f cl)"
proof -
  let ?c = "try_hello (Inl (failure_error f)) (cl\<lparr>cl_killed := (cl_killed cl \<or> (case f of FProtocol _ \<Rightarrow> True | _ \<Rightarrow> False))\<rparr>)"
  have "client_inv log ?c" by (rule inv_frame [OF assms]) simp_all
  from reader_done_inv [OF fail_inv [OF this, of f]] show ?thesis by (simp add: reader_stop_def)
qed

lemma step_inv: "client_step ps cl cl' \<Longrightarrow> client_inv log cl \<Longrightarrow> client_inv (log @ ps) cl'"
proof (induction rule: client_step.induct)
  case (sends p cl)
  have "client_inv log (send_frame p cl)" by (rule inv_frame [OF sends(2)]) (simp_all add: send_frame_def)
  then show ?case by simp
next
  case (writes cl written)
  have "client_inv log (writer_step written cl)"
    by (rule inv_frame [OF writes]) (auto simp: writer_step_def split: option.splits list.splits if_splits)
  then show ?case by simp
next
  case (complains cl chunk)
  have "client_inv log (stderr_step chunk cl)" by (rule inv_frame [OF complains]) (simp_all add: stderr_step_def Let_def)
  then show ?case by simp
next
  case (shuts_down cl)
  have "client_inv log (begin_shutdown cl)" by (rule inv_frame [OF shuts_down(3)]) (simp_all add: begin_shutdown_def)
  then show ?case by simp
next
  case (drops cl)
  have "client_inv log (cl\<lparr>cl_closing := True\<rparr>)" by (rule inv_frame [OF drops(3)]) simp_all
  then have "client_inv log (client_fail (FCrashed ''the helper was stopped before it answered'') (cl\<lparr>cl_closing := True\<rparr>))"
    by (rule fail_inv)
  then have "client_inv log (drop_helper cl)" unfolding drop_helper_def by (rule inv_frame) simp_all
  then show ?case by simp
qed (simp_all add: submit_inv reader_step_inv stop_inv tell_inv)

lemma reachable_inv: "client_reachable version log cl \<Longrightarrow> client_inv log cl"
proof (induction rule: client_reachable.induct)
  case starts
  show ?case by (simp add: client_start_def client_inv_def ticket_places_def)
qed (rule step_inv)

section \<open>Every wait can end\<close>

lemma client_moves_refl [simp]: "client_moves cl cl"
  by (simp add: client_moves_def)

lemma client_moves_step: "client_step ps cl cl' \<Longrightarrow> client_moves cl' cl'' \<Longrightarrow> client_moves cl cl''"
  unfolding client_moves_def by (blast intro: converse_rtranclp_into_rtranclp)

lemma client_moves_trans: "client_moves cl cl' \<Longrightarrow> client_moves cl' cl'' \<Longrightarrow> client_moves cl cl''"
  unfolding client_moves_def by (rule rtranclp_trans)

lemma tell_all: "client_inv log cl \<Longrightarrow> \<exists>cl'. client_moves cl cl' \<and> client_inv log cl' \<and> cl_failing cl' = [] \<and>
    cl_reader cl' = cl_reader cl \<and> cl_tickets cl' = cl_tickets cl"
proof (induction "length (cl_failing cl)" arbitrary: cl)
  case (Suc n)
  then obtain p where p: "p \<in> set (cl_failing cl)" by (cases "cl_failing cl") auto
  let ?t = "tell p cl"
  have "n = length (cl_failing ?t)" using Suc.hyps(2) p by (simp add: tell_def send_answer_def length_remove1)
  from Suc.hyps(1) [OF this tell_inv [OF Suc.prems p]] obtain cl' where
    "client_moves ?t cl'" "client_inv log cl'" "cl_failing cl' = []" "cl_reader cl' = cl_reader ?t" "cl_tickets cl' = cl_tickets ?t"
    by blast
  with client_moves_step [OF client_step.tells [OF p]] show ?case by (auto simp: tell_def send_answer_def)
next
  case 0
  then show ?case by (intro exI [of _ cl]) simp
qed

lemma done_steps:
  assumes "client_inv log cl"
  shows "\<exists>cl'. client_moves cl cl' \<and> client_inv log cl' \<and> cl_reader cl' = ReaderDone \<and> cl_tickets cl' = cl_tickets cl"
proof -
  have stop: ?thesis if "client_moves cl c" "client_inv log c" "cl_reader c = Stopped f" "cl_tickets c = cl_tickets cl" for c f
  proof -
    have "client_moves c (reader_stop f c)" by (rule client_moves_step [OF client_step.stops [OF that(3)]]) simp
    with that stop_inv [OF that(2), of f] show ?thesis
      by (intro exI [of _ "reader_stop f c"]) (auto simp: reader_stop_def client_fail_def Let_def intro: client_moves_trans)
  qed
  let ?c = "reader_step None (Inr None) cl"
  have moves: "client_moves cl ?c" by (rule client_moves_step [OF client_step.reads [where status = None and r = "Inr None"]]) simp
  have inv: "client_inv log ?c"
    using reader_step_inv [OF assms, of "Inr None" None] by (simp add: newly_replied_end)
  have over: ?thesis if "cl_reader ?c = Stopped f" for f
    by (rule stop [OF moves inv that]) (simp add: reader_step_def Let_def split: reader_phase.split)
  show ?thesis
  proof (cases "cl_reader cl")
    case (Stopped f)
    with stop [of cl f] assms show ?thesis by simp
  next
    case ReaderDone
    with assms show ?thesis by (intro exI [of _ cl]) simp
  qed (use over in \<open>auto simp: reader_step_def Let_def\<close>)
qed

lemma answered_when_done:
  assumes "client_inv log cl" "cl_reader cl = ReaderDone" "cl_failing cl = []" "t < length (cl_tickets cl)"
  shows "\<exists>a. map_of (cl_answers cl) t = Some a"
proof -
  have "ticket_places cl = mset (map fst (cl_answers cl))"
    using assms(1-3) by (auto simp: client_inv_def ticket_places_def)
  then have "set_mset (mset (map fst (cl_answers cl))) = {0..<length (cl_tickets cl)}"
    using assms(1) by (simp add: client_inv_def)
  with assms(4) have "t \<in> fst ` set (cl_answers cl)" by auto
  then show ?thesis by (metis map_of_eq_None_iff not_None_eq)
qed

text \<open>
  C19: Every request the helper accepted is answered exactly once, with its own answer: in every state that callers,
  reader, writer and shutdown can reach in any order, each ticket is either waiting under one id, about to be told
  of the failure, or answered, and only one of them. A reply it got is the one for a request too large to send, or
  holds, for its own file, what the first frame under the id of its request's frame brought after that was handed
  over; an error it got is the client's failure. And from every such state the threads can go on, without the helper
  answering anything more, until every ticket has its answer, so no caller waits forever.
\<close>

theorem every_request_is_answered_once:
  assumes "client_reachable version log cl" "t < length (cl_tickets cl)"
  shows "count (ticket_places cl) t = 1 \<and>
    (case map_of (cl_answers cl) t of None \<Rightarrow> True | Some a \<Rightarrow> own_answer log cl t a) \<and>
    (\<exists>cl' a. client_moves cl cl' \<and> cl_reader cl' = ReaderDone \<and> ticket_wait cl' t False = Some a)"
proof -
  note inv = reachable_inv [OF assms(1)]
  have "count (ticket_places cl) t = 1"
    using inv assms(2) by (simp add: client_inv_def)
  moreover have "case map_of (cl_answers cl) t of None \<Rightarrow> True | Some a \<Rightarrow> own_answer log cl t a"
    using inv by (auto simp: client_inv_def dest!: map_of_SomeD split: option.split)
  moreover have "\<exists>cl' a. client_moves cl cl' \<and> cl_reader cl' = ReaderDone \<and> ticket_wait cl' t False = Some a"
  proof -
    from done_steps [OF inv] obtain c where c: "client_moves cl c" "client_inv log c" "cl_reader c = ReaderDone"
        "cl_tickets c = cl_tickets cl" by blast
    from tell_all [OF c(2)] obtain c' where c': "client_moves c c'" "client_inv log c'" "cl_failing c' = []"
        "cl_reader c' = cl_reader c" "cl_tickets c' = cl_tickets c" by blast
    from answered_when_done [OF c'(2) _ c'(3), of t] c c' assms(2) obtain a where "map_of (cl_answers c') t = Some a" by auto
    with c c' show ?thesis by (auto simp: ticket_wait_def intro: client_moves_trans)
  qed
  ultimately show ?thesis by blast
qed

text \<open>A request waits; the helper goes away.\<close>

definition client_sample_request :: request where
  "client_sample_request =
     \<lparr>rq_rel = ''a.go'', rq_abs = ''/r/a.go'', rq_source = ''package a'',
      rq_steps = \<lparr>st_spacing = True, st_gofmt = True, st_goimports = True, st_resolve_imports = False, st_complexity = True\<rparr>\<rparr>"

definition client_sample :: client where
  "client_sample = snd (the (submit client_sample_request (client_start ''2'')))"

lemma client_sample_submit:
  "submit client_sample_request (client_start ''2'') =
     Some (Inr 0, (new_ticket client_sample_request (client_start ''2''\<lparr>cl_next_id := 2\<rparr>))\<lparr>
       cl_pending := [(1, \<lparr>pd_rel = ''a.go'', pd_ticket = 0\<rparr>)], cl_unsent := [(1, client_sample_request)]\<rparr>)"
proof -
  have "\<not> request_frame_len client_sample_request > MAX_FRAME"
    by (simp add: request_frame_len_def MAX_FRAME_def client_sample_request_def HEADER_LEN_def)
  then show ?thesis
    by (simp add: submit_def allocate_id_def client_start_def allocate_found client_sample_request_def Let_def)
qed

text \<open>The helper says hello and answers.\<close>

definition sample_reply :: wire_reply where
  "sample_reply = \<lparr>wr_error = [], wr_output = ''package a'', wr_applied = [], wr_violations = [], wr_complexity = []\<rparr>"

definition client_greeted :: client where
  "client_greeted =
     reader_step None (Inr (Some \<lparr>fr_id = 0, fr_message = MHello \<lparr>h_proto = PROTOCOL_VERSION, h_version = ''2''\<rparr>\<rparr>)) client_sample"

definition client_answered :: client where
  "client_answered = reader_step None (Inr (Some \<lparr>fr_id = 1, fr_message = MReply sample_reply\<rparr>)) client_greeted"

lemma client_sample_run:
  "client_reachable ''2'' [Asked 0 1 client_sample_request] client_sample"
  "client_reachable ''2'' [Asked 0 1 client_sample_request, Replied 1 sample_reply] client_answered"
  "cl_answers client_answered = [(0, Inr (into_reply ''a.go'' sample_reply))]"
  "length (cl_tickets client_sample) = 1" "length (cl_tickets client_answered) = 1"
proof -
  have sample: "client_sample = (new_ticket client_sample_request (client_start ''2''\<lparr>cl_next_id := 2\<rparr>))\<lparr>
      cl_pending := [(1, \<lparr>pd_rel = ''a.go'', pd_ticket = 0\<rparr>)], cl_unsent := [(1, client_sample_request)]\<rparr>"
    unfolding client_sample_def client_sample_submit by simp
  have "client_step (newly_asked (client_start ''2'') client_sample) (client_start ''2'') client_sample"
    by (rule client_step.submits [of _ client_sample_request "Inr 0"])
      (simp_all only: sample client_sample_submit, simp add: client_start_def)
  moreover have "newly_asked (client_start ''2'') client_sample = [Asked 0 1 client_sample_request]"
    by (simp add: newly_asked_def sample client_start_def)
  ultimately show run: "client_reachable ''2'' [Asked 0 1 client_sample_request] client_sample"
    using client_reachable.steps [OF client_reachable.starts] by fastforce
  have "cl_reader client_sample = AwaitHello" by (simp add: sample client_start_def new_ticket_def)
  then have greeted: "client_greeted = try_hello (Inr \<lparr>h_proto = PROTOCOL_VERSION, h_version = ''2''\<rparr>) (client_sample\<lparr>cl_reader := Serving\<rparr>)"
    and quiet: "newly_replied client_sample r = []" for r
    by (simp_all add: client_greeted_def reader_step_def newly_replied_def)
  have at: "cl_pending client_greeted = [(1, \<lparr>pd_rel = ''a.go'', pd_ticket = 0\<rparr>)]" "cl_reader client_greeted = Serving"
    "cl_answers client_greeted = []" "cl_tickets client_greeted = [client_sample_request]"
    by (simp_all add: greeted sample new_ticket_def client_start_def)
  have "client_reachable ''2'' [Asked 0 1 client_sample_request] client_greeted"
    using client_reachable.steps [OF run client_step.reads] unfolding client_greeted_def quiet by simp
  from client_reachable.steps [OF this client_step.reads [where status = None and
        r = "Inr (Some \<lparr>fr_id = 1, fr_message = MReply sample_reply\<rparr>)"]]
  show "client_reachable ''2'' [Asked 0 1 client_sample_request, Replied 1 sample_reply] client_answered"
    by (simp add: client_answered_def newly_replied_def at)
  show "cl_answers client_answered = [(0, Inr (into_reply ''a.go'' sample_reply))]" "length (cl_tickets client_answered) = 1"
    by (simp_all add: client_answered_def reader_step_def at deliver_def send_answer_def)
  show "length (cl_tickets client_sample) = 1" by (simp add: sample new_ticket_def client_start_def)
qed

theorem every_request_is_answered_once_witness:
  "own_answer [Asked 0 1 client_sample_request, Replied 1 sample_reply] client_answered 0
     (Inr (into_reply ''a.go'' sample_reply)) \<and>
   (\<exists>cl' a. client_moves client_sample cl' \<and> cl_reader cl' = ReaderDone \<and> ticket_wait cl' 0 False = Some a)"
  using every_request_is_answered_once [OF client_sample_run(2), of 0] every_request_is_answered_once [OF client_sample_run(1), of 0]
    client_sample_run(3-5)
  by simp

end
