(* ===== verification/Runs.thy ===== *)
theory Runs imports
  GoLane
  DiscoverFacts
  VetFacts
begin

text \<open>
  \<^verbatim>\<open>crates/engine/src/lib.rs\<close> and \<^verbatim>\<open>progress.rs\<close>: one run over the files in scope, and the session that
  keeps what runs share. What a run finds (the clock, the file system's answers, the repository, what
  \<open>go\<close> and its helper answer) is a \<open>run_world\<close>; the lanes and \<open>go vet\<close> share only the cache, whose
  operations are single steps, and come in one order here.
\<close>

section \<open>Errors and options\<close>

datatype engine_error =
    EngineDiscover discover_error
  | EngineLint string
  | EngineGo go_error
  | EnginePool string
  | EngineUnsupported string
  | EngineFile string string

fun is_internal :: "engine_error \<Rightarrow> bool" where
  "is_internal (EngineGo e) = True"
| "is_internal (EnginePool m) = True"
| "is_internal _ = False"

record options =
  op_root :: string
  op_mode :: mode
  op_scope :: scope
  op_jobs :: nat
  op_cache :: bool
  op_go_helper :: "string option"

section \<open>Progress\<close>

text \<open>The observer's calls in order, if there is one; \<open>None\<close> stands for \<open>usize::MAX\<close>.\<close>

record progress =
  pg_total :: nat
  pg_done :: nat
  pg_observer :: "(nat option \<times> nat) list option"

definition progress_notify :: "nat option \<Rightarrow> progress \<Rightarrow> progress" where
  "progress_notify n p = p\<lparr>pg_observer := map_option (\<lambda>calls. calls @ [(n, pg_total p)]) (pg_observer p)\<rparr>"

definition progress_start :: "nat \<Rightarrow> progress \<Rightarrow> progress" where
  "progress_start n p = progress_notify (Some 0) (p\<lparr>pg_total := n\<rparr>)"

definition progress_tick :: "progress \<Rightarrow> progress" where
  "progress_tick p = (let n = pg_done p + 1 in progress_notify (Some n) (p\<lparr>pg_done := n\<rparr>))"

definition progress_finish :: "progress \<Rightarrow> progress" where
  "progress_finish p = progress_notify None p"

section \<open>The session\<close>

record stores =
  so_root :: string
  so_config_hash :: string
  so_enabled :: bool
  so_cache :: cache
  so_memory :: "memory option"

record 'r session =
  se_stores :: "stores option"
  se_linter :: "linter option"
  se_pool :: "nat option"
  se_repository :: "'r repository"

definition default_session :: "'r session" where
  "default_session = \<lparr>se_stores = None, se_linter = None, se_pool = None, se_repository = default_repository\<rparr>"

record 'r run_world =
  rw_platform :: platform
  rw_codec :: mem_codec
  rw_canon :: "string \<Rightarrow> string option"
  rw_cache_dir :: "string option"
  rw_now :: int
  rw_pid :: nat
  rw_write :: "string \<Rightarrow> os_oracle"
  rw_hash :: "config \<Rightarrow> string"
  rw_linter :: "lint_config \<Rightarrow> string + linter"
  rw_pool :: "string option"
  rw_discover :: "files \<Rightarrow> options \<Rightarrow> files_config \<Rightarrow> memory option \<Rightarrow> 'r repository \<Rightarrow>
    (discover_error + discovery) \<times> memory option \<times> 'r repository"
  rw_lane :: run
  rw_helper :: "string option \<Rightarrow> go_helper"
  rw_vet_world :: vet_world
  rw_vet_env :: vet_env
  rw_go :: "path option"
  rw_go_vet :: "vet_command \<Rightarrow> string + vet_output"
  rw_exists :: "string \<Rightarrow> bool"

definition stores_open :: "'r run_world \<Rightarrow> string \<Rightarrow> string \<Rightarrow> bool \<Rightarrow> stores" where
  "stores_open rw root hash enabled =
     (let cache = cache_open (rw_platform rw) (rw_canon rw) (rw_now rw) (rw_cache_dir rw) root hash enabled in
      \<lparr>so_root = root, so_config_hash = hash, so_enabled = enabled, so_cache = cache,
       so_memory = map_option (\<lambda>st. memory_open_as_of (with_extension (cs_path st) ''dirs'') (rw_now rw)) cache\<rparr>)"

text \<open>Failed writes are ignored.\<close>

definition stores_persist :: "'r run_world \<Rightarrow> files \<Rightarrow> stores \<Rightarrow> files \<times> stores" where
  "stores_persist rw fs so =
     (case cache_flush (rw_platform rw) (rw_write rw ''cache'') (rw_pid rw) fs (so_cache so) of
        (_, fs1, c) \<Rightarrow>
          (case so_memory so of
             None \<Rightarrow> (fs1, so\<lparr>so_cache := c\<rparr>)
           | Some m \<Rightarrow>
               (case memory_save (rw_codec rw) (rw_write rw ''dirs'') (rw_pid rw) fs1 m of
                  (_, fs2, m') \<Rightarrow> (fs2, so\<lparr>so_cache := c, so_memory := Some m'\<rparr>))))"

definition session_persist :: "'r run_world \<Rightarrow> files \<Rightarrow> 'r session \<Rightarrow> files \<times> 'r session" where
  "session_persist rw fs se =
     (case se_stores se of
        None \<Rightarrow> (fs, se)
      | Some so \<Rightarrow> (case stores_persist rw fs so of (fs', so') \<Rightarrow> (fs', se\<lparr>se_stores := Some so'\<rparr>)))"

definition session_watch :: "'r session \<Rightarrow> 'r session" where
  "session_watch se = se\<lparr>se_repository := repository_watch (se_repository se)\<rparr>"

definition session_watch_failure :: "'r session \<Rightarrow> string option \<times> 'r session" where
  "session_watch_failure se =
     (case watch_failure (se_repository se) of (f, r) \<Rightarrow> (f, se\<lparr>se_repository := r\<rparr>))"

section \<open>The verdict\<close>

definition selected_lanes :: "scope \<Rightarrow> lane list" where
  "selected_lanes sc = (if sc_lanes sc = [] then [TsLane, GoLane] else sc_lanes sc)"

definition unresolved :: "mode \<Rightarrow> file_outcome \<Rightarrow> bool" where
  "unresolved mode out \<longleftrightarrow>
     o_error out \<noteq> None \<or> list_ex (\<lambda>d. d_severity d = SevError) (o_lint out) \<or> (mode = Check \<and> o_violations out \<noteq> [])"

definition verdict :: "mode \<Rightarrow> file_outcome list \<Rightarrow> bool \<Rightarrow> vet_outcome \<Rightarrow> run_result" where
  "verdict mode outs complexity_clean vet =
     (if list_ex (unresolved mode) outs \<or> \<not> complexity_clean \<or> v_errors vet \<noteq> [] then Fail
      else if list_ex o_changed outs then (case mode of Check \<Rightarrow> Fail | Format \<Rightarrow> Fixed)
      else Pass)"

text \<open>\<open>vet_for\<close>: whether \<open>go vet\<close> runs, and over what.\<close>

definition vet_for ::
  "'r run_world \<Rightarrow> config \<Rightarrow> options \<Rightarrow> discovery \<Rightarrow> sourcefile list \<Rightarrow> files \<Rightarrow> cache \<Rightarrow> vet_outcome \<times> cache" where
  "vet_for rw c opts dv go_files fs cache =
     (let every_module = (sc_all (op_scope opts) \<and> sc_paths (op_scope opts) = []);
          memo = (if is_enabled cache then Some (marks_memo (rw_platform rw) fs) else None)
      in if \<not> gc_vet (cf_go c) then (vet_skipped ''disabled by [go] vet'', cache)
         else if GoLane \<notin> set (selected_lanes (op_scope opts)) then (vet_skipped ''the Go lane is not selected'', cache)
         else if go_files = [] \<and> \<not> (every_module \<and> dv_git dv) then (vet_skipped ''no Go files in scope'', cache)
         else vet_run (rw_vet_world rw) (rw_vet_env rw) (rw_go_vet rw) (rw_go rw) (components (op_root opts))
           (if every_module then Modules (dv_modules dv) else Files (map sf_rel go_files)) memo cache)"

section \<open>One run\<close>

text \<open>The stores of a run: those kept, or new ones after the old were written.\<close>

definition take_stores :: "'r run_world \<Rightarrow> config \<Rightarrow> options \<Rightarrow> files \<Rightarrow> 'r session \<Rightarrow> stores \<times> linter option \<times> files" where
  "take_stores rw c opts fs se =
     (let hash = rw_hash rw c;
          fresh = (\<lambda>fs. (stores_open rw (op_root opts) hash (op_cache opts), None, fs))
      in case se_stores se of
        None \<Rightarrow> fresh fs
      | Some so \<Rightarrow>
          if so_root so = op_root opts \<and> so_config_hash so = hash \<and> so_enabled so = op_cache opts
          then (so, se_linter se, fs)
          else fresh (fst (stores_persist rw fs so)))"

definition ready_stores :: "'r run_world \<Rightarrow> files \<Rightarrow> stores \<Rightarrow> stores" where
  "ready_stores rw fs so =
     so\<lparr>so_cache := cache_load (rw_platform rw) fs (next_run (rw_now rw) (so_cache so)),
        so_memory := map_option (\<lambda>m. memory_load (rw_codec rw) fs (memory_next_run (rw_now rw) m)) (so_memory so)\<rparr>"

text \<open>
  The linter a run has: one it kept, one built beside discovery when the script lane is selected, or one
  built once a file needs it; a failure to build matters only then.
\<close>

definition linter_for :: "'r run_world \<Rightarrow> config \<Rightarrow> bool \<Rightarrow> bool \<Rightarrow> linter option \<Rightarrow> string + linter option" where
  "linter_for rw c lints needed kept =
     (case kept of
        Some l \<Rightarrow> Inr (Some l)
      | None \<Rightarrow>
          if lints \<or> needed
          then (case rw_linter rw (cf_lint c) of
                  Inr l \<Rightarrow> Inr (Some l)
                | Inl e \<Rightarrow> if needed then Inl e else Inr None)
          else Inr None)"

definition lane_run :: "'r run_world \<Rightarrow> config \<Rightarrow> options \<Rightarrow> linter option \<Rightarrow> run" where
  "lane_run rw c opts linter = (rw_lane rw)\<lparr>rn_config := c, rn_mode := op_mode opts, rn_linter := linter\<rparr>"

definition needs_linter :: "sourcefile list \<Rightarrow> bool" where
  "needs_linter fs \<longleftrightarrow> list_ex (\<lambda>f. is_lintable (sf_lang f)) fs"

text \<open>The report of a run whose lanes are done.\<close>

definition report_of ::
  "'r run_world \<Rightarrow> config \<Rightarrow> options \<Rightarrow> discovery \<Rightarrow> file_outcome list \<Rightarrow> vet_outcome \<Rightarrow> report" where
  "report_of rw c opts dv outs vet =
     (let files = sort_key o_file outs;
          complexity = evaluate (rw_exists rw) (cf_complexity c) (selected_lanes (op_scope opts)) (dv_files dv) files
      in \<lparr>r_schema = REPORT_SCHEMA, r_mode = op_mode opts,
          r_result = (if dv_missing dv = [] then verdict (op_mode opts) files (complexity = []) vet else Fail),
          r_files = files, r_complexity = complexity, r_vet = vet, r_missing = dv_missing dv\<rparr>)"

definition run_lanes ::
  "'r run_world \<Rightarrow> config \<Rightarrow> options \<Rightarrow> discovery \<Rightarrow> linter option \<Rightarrow> files \<Rightarrow> cache \<Rightarrow>
    (engine_error + report) \<times> lane_state" where
  "run_lanes rw c opts dv linter fs cache =
     (let go_files = filter (\<lambda>f. sf_lang f = Go) (dv_files dv);
          script_files = filter (\<lambda>f. sf_lang f \<noteq> Go) (dv_files dv);
          st = lane_run rw c opts (if needs_linter script_files then linter else None)
      in case process_all st script_files \<lparr>la_cache = cache, la_files = fs, la_done = 0\<rparr> of
        (scripts, ls1) \<Rightarrow>
      case (if go_files = [] then (Inr [], ls1) else go_process st (rw_helper rw (op_go_helper opts)) go_files ls1) of
        (go, ls2) \<Rightarrow>
      case vet_for rw c opts dv go_files (la_files ls2) (la_cache ls2) of
        (vet, cache3) \<Rightarrow>
          ((case go of Inl e \<Rightarrow> Inl (EngineGo e) | Inr outs \<Rightarrow> Inr (report_of rw c opts dv (scripts @ outs) vet)),
           ls2\<lparr>la_cache := cache3\<rparr>))"

definition session_run ::
  "'r run_world \<Rightarrow> config \<Rightarrow> options \<Rightarrow> progress \<Rightarrow> files \<Rightarrow> 'r session \<Rightarrow>
    (engine_error + report) \<times> progress \<times> files \<times> 'r session" where
  "session_run rw c opts pg fs se =
     (case take_stores rw c opts fs se of
        (so0, kept, fs1) \<Rightarrow>
      let so = ready_stores rw fs1 so0; repo = repository_next_run (rw_now rw) (se_repository se) in
      case rw_discover rw fs1 opts (cf_files c) (so_memory so) repo of
        (Inl e, mem, repo1) \<Rightarrow>
          (Inl (EngineDiscover e), pg, fs1,
           se\<lparr>se_stores := Some (so\<lparr>so_memory := mem\<rparr>), se_linter := kept, se_repository := repo1\<rparr>)
      | (Inr dv, mem, repo1) \<Rightarrow>
          let so1 = so\<lparr>so_memory := mem\<rparr>;
              pg1 = progress_start (length (dv_files dv)) pg;
              needed = needs_linter (filter (\<lambda>f. sf_lang f \<noteq> Go) (dv_files dv));
              jobs = max (op_jobs opts) 1;
              se1 = se\<lparr>se_stores := Some so1, se_linter := kept, se_repository := repo1\<rparr>
          in case linter_for rw c (TsLane \<in> set (selected_lanes (op_scope opts))) needed kept of
               Inl e \<Rightarrow> (Inl (EngineLint e), pg1, fs1, se1)
             | Inr linter \<Rightarrow>
                 let se2 = se1\<lparr>se_linter := linter\<rparr> in
                 if se_pool se \<noteq> Some jobs \<and> rw_pool rw \<noteq> None
                 then (Inl (EnginePool (the (rw_pool rw))), pg1, fs1, se2\<lparr>se_pool := None\<rparr>)
                 else case run_lanes rw c opts dv linter fs1 (so_cache so1) of
                   (res, ls) \<Rightarrow>
                     let pg2 = (progress_tick ^^ la_done ls) pg1 in
                     (res, (case res of Inl _ \<Rightarrow> pg2 | Inr _ \<Rightarrow> progress_finish pg2), la_files ls,
                      se2\<lparr>se_pool := Some jobs, se_stores := Some (so1\<lparr>so_cache := la_cache ls\<rparr>)\<rparr>))"

text \<open>\<open>run\<close>: a session of its own, written at the end.\<close>

definition engine_run ::
  "'r run_world \<Rightarrow> config \<Rightarrow> options \<Rightarrow> progress \<Rightarrow> files \<Rightarrow> (engine_error + report) \<times> files" where
  "engine_run rw c opts pg fs =
     (case session_run rw c opts pg fs default_session of
        (res, _, fs1, se) \<Rightarrow> (res, fst (session_persist rw fs1 se)))"

section \<open>Text\<close>

text \<open>\<open>format_text\<close> for \<open>--stdin-filepath\<close>: back slashes become slashes.\<close>

definition forward_slashes :: "string \<Rightarrow> string" where
  "forward_slashes = map (\<lambda>ch. if ch = CHR 0x5C then CHR ''/'' else ch)"

definition engine_format_text ::
  "'r run_world \<Rightarrow> config \<Rightarrow> string \<Rightarrow> string \<Rightarrow> string \<Rightarrow> string option \<Rightarrow> engine_error + string" where
  "engine_format_text rw c root p source helper =
     (let display = forward_slashes (utf8_lossy p) in
      case lang_from_path p of
        None \<Rightarrow> Inl (EngineUnsupported display)
      | Some l \<Rightarrow>
          let rel = forward_slashes (utf8_lossy (case strip_root root p of Some cs \<Rightarrow> to_slash cs | None \<Rightarrow> p));
              abs_path = (if is_relative p then path_join root p else p)
          in if l = Go
             then let gh = rw_helper rw helper in
               (case gh_spawn gh of
                  Some e \<Rightarrow> Inl (EngineGo e)
                | None \<Rightarrow>
                    (case go_format_one gh c rel abs_path source of
                       Inl e \<Rightarrow> Inl (EngineGo e)
                     | Inr rep \<Rightarrow>
                         (case gh_shutdown gh of
                            Some e \<Rightarrow> Inl (EngineGo e)
                          | None \<Rightarrow>
                              (case rp_error rep of
                                 Some m \<Rightarrow> Inl (EngineFile display m)
                               | None \<Rightarrow>
                                   if valid_utf8 (rp_output rep) then Inr (rp_output rep)
                                   else Inl (EngineFile display ''output is not UTF-8'')))))
             else
               (case (if is_lintable l then map_sum id Some (rw_linter rw (cf_lint c)) else Inr None) of
                  Inl e \<Rightarrow> Inl (EngineLint e)
                | Inr linter \<Rightarrow>
                    (case lane_format_text (rn_formatters (rw_lane rw)) c linter rel l source of
                       Inl m \<Rightarrow> Inl (EngineFile display m)
                     | Inr t \<Rightarrow> Inr t)))"

end
