(* ===== verification/RunFacts.thy ===== *)
theory RunFacts imports
  Runs
begin

text \<open>
  What a run reports, and what a session keeps from one run to the next: every cache and linter a run
  uses belongs to its own configuration.
\<close>

section \<open>The cache of a configuration\<close>

definition cache_config :: "cache \<Rightarrow> string option" where
  "cache_config c = map_option cs_config_hash c"

named_theorems config_kept \<open>operations that keep the configuration of the cache\<close>

lemma cache_get_config [config_kept]: "cache_config (snd (cache_get pf fs k c)) = cache_config c"
  by (auto simp: cache_config_def cache_get_def with_tables_def Let_def split: option.splits)

lemma get_stamped_config [config_kept]: "cache_config (snd (get_stamped pf fs pk s c)) = cache_config c"
proof (cases c)
  case (Some st)
  then have "cache_config (snd (cache_get pf fs k (Some (with_tables t st)))) = cache_config c" for k t
    by (simp only: cache_get_config) (simp add: cache_config_def with_tables_def)
  with Some show ?thesis
    by (auto simp: get_stamped_def Let_def cache_config_def with_tables_def split: option.split)
qed (simp add: get_stamped_def)

lemma remember_config [config_kept]: "cache_config (remember pf fs fr c) = cache_config c"
  by (auto simp: cache_config_def remember_def with_tables_def Let_def split: option.splits prod.splits)

lemma cache_insert_config [config_kept]: "cache_config (cache_insert pf fs k out c) = cache_config c"
  by (auto simp: cache_config_def cache_insert_def with_tables_def Let_def split: option.splits)

lemma cache_put_config [config_kept]: "cache_config (cache_put pf fs k out c) = cache_config c"
  by (simp add: cache_put_def config_kept)

lemma put_fresh_config [config_kept]: "cache_config (put_fresh pf fs fr out c) = cache_config c"
  by (simp add: put_fresh_def config_kept)

lemma cache_read_config [config_kept]: "cache_config (snd (cache_read pf fs sv m rel c)) = cache_config c"
proof -
  obtain r1 c1 where t: "try_stamp pf fs (lookup_stamp pf sv m rel c) c = (r1, c1)" by fastforce
  have c1: "cache_config c1 = cache_config c"
    using get_stamped_config [of pf fs] t by (auto simp: try_stamp_def split: option.splits prod.splits) (metis snd_conv)
  have "cache_config (snd (read_content pf fs fr c1)) = cache_config c1" for fr
    using cache_get_config [of pf fs "f_key fr" c1] remember_config
    by (auto simp: read_content_def split: option.split prod.split)
  with t c1 show ?thesis by (auto simp: cache_read_def Let_def split: option.split sum.split)
qed

lemma cache_marked_config [config_kept]: "cache_config (snd (cache_marked pf fs k c)) = cache_config c"
  by (auto simp: cache_config_def cache_marked_def with_tables_def Let_def split: option.splits prod.splits)

lemma cache_mark_config [config_kept]: "cache_config (cache_mark pf fs k c) = cache_config c"
  using cache_marked_config [of pf fs k c]
  by (auto simp: cache_mark_def cache_config_def with_tables_def Let_def split: option.splits prod.splits bool.splits)

lemma cache_load_config [config_kept]: "cache_config (cache_load pf fs c) = cache_config c"
  by (cases c) (simp_all add: cache_load_def cache_config_def with_tables_def)

lemma next_run_config [config_kept]: "cache_config (next_run now c) = cache_config c"
  by (cases c) (simp_all add: next_run_def cache_config_def)

section \<open>The lanes\<close>

abbreviation lane_config :: "lane_state \<Rightarrow> string option" where
  "lane_config st \<equiv> cache_config (la_cache st)"

lemma settle_config [config_kept]: "lane_config (snd (settle_output run f fr source p st)) = lane_config st"
  by (auto simp: settle_output_def Let_def config_kept split: prod.split)

lemma process_config [config_kept]: "lane_config (snd (process run f st)) = lane_config st"
proof -
  obtain r c where c: "cache_read (rn_platform run) (la_files st) (read_source run (la_files st) (sf_abs f)) (rn_mode run)
      (sf_rel f) (la_cache st) = (r, c)" by fastforce
  have "cache_config c = lane_config st" using cache_read_config by (metis c snd_conv)
  moreover have "lane_config (snd (settle_output run f fr source p (st\<lparr>la_cache := c\<rparr>))) = cache_config c" for fr source p
    by (simp add: config_kept)
  ultimately have "lane_config (snd (process_inner run f st)) = lane_config st"
    by (auto simp: process_inner_def c Let_def case_prod_unfold split: sum.split lookup.split attempt.split)
  then show ?thesis by (auto simp: process_def tick_def split: prod.split attempt.split)
qed

lemma process_all_config [config_kept]: "lane_config (snd (process_all run fs st)) = lane_config st"
  by (induction fs arbitrary: st) (simp_all add: case_prod_unfold config_kept)

lemma go_read_all_config [config_kept]: "lane_config (snd (go_read_all run fs st)) = lane_config st"
proof (induction fs arbitrary: st)
  case (Cons f fs)
  have "lane_config (snd (go_read run f st)) = lane_config st"
    using cache_read_config by (simp add: go_read_def case_prod_unfold)
  with Cons show ?case by (simp add: case_prod_unfold)
qed simp

lemma go_finish_config [config_kept]: "lane_config (snd (go_finish run f fr rep st)) = lane_config st"
  by (auto simp: go_finish_def Let_def config_kept split: option.split prod.split)

lemma go_recheck_config [config_kept]: "lane_config (snd (go_recheck run gh started f fr out n st)) = lane_config st"
  by (simp add: go_recheck_def config_kept split: option.split)

lemma go_collect_items_config [config_kept]:
  "lane_config (snd (go_collect_items run gh started items outs rs st)) = lane_config st"
proof (induction run gh started items outs rs st rule: go_collect_items.induct)
  case (4 run gh started f fr q items outs rescores st)
  show ?case
  proof (cases "gh_wait gh q")
    case (Inr rep)
    obtain out st1 where f: "go_finish run f fr rep st = (out, st1)" by fastforce
    obtain r st2 where g: "go_recheck run gh started f fr out (length outs) st1 = (r, st2)" by fastforce
    have "lane_config st2 = lane_config st"
      using go_finish_config [of run f fr rep st] go_recheck_config [of run gh started f fr out "length outs" st1]
      by (simp add: f g)
    with 4 Inr f g show ?thesis by (cases r) (simp_all add: tick_def)
  qed simp
qed (simp_all add: tick_def)

lemma go_rescore_config [config_kept]: "lane_config (snd (go_rescore run gh rs outs st)) = lane_config st"
  by (induction run gh rs outs st rule: go_rescore.induct) (simp_all add: Let_def config_kept split: sum.split)

lemma go_collect_config [config_kept]: "lane_config (snd (go_collect run gh started items st)) = lane_config st"
proof -
  obtain r st1 where c: "go_collect_items run gh started items [] [] st = (r, st1)" by fastforce
  have "lane_config st1 = lane_config st" using go_collect_items_config [of run gh started items "[]" "[]" st] by (simp add: c)
  then show ?thesis by (cases r) (auto simp: go_collect_def c config_kept)
qed

lemma go_process_config [config_kept]: "lane_config (snd (go_process run gh fs st)) = lane_config st"
proof -
  obtain items st1 where r: "go_read_all run fs st = (items, st1)" by fastforce
  have s1: "lane_config st1 = lane_config st" using go_read_all_config [of run fs st] by (simp add: r)
  have "lane_config (snd (case go_collect run gh True ws st1 of (Inl e, st2) \<Rightarrow> (Inl e, st2)
      | (Inr outs, st2) \<Rightarrow> (case gh_shutdown gh of Some e \<Rightarrow> (Inl e, st2) | None \<Rightarrow> (Inr outs, st2)))) = lane_config st1" for ws
    using go_collect_config [of run gh True ws st1] by (auto split: prod.split sum.split option.split)
  then show ?thesis using s1 by (auto simp: go_process_def r config_kept split: option.split sum.split)
qed

lemma vet_modules_config:
  "cache_config (snd (vet_modules w e go root g (Some (marks_memo pf fs)) ms c)) = cache_config c"
proof (induction ms arbitrary: c)
  case (Cons m ms)
  have "cache_config (snd (vet_module w e go root g (Some (marks_memo pf fs)) m c)) = cache_config c"
    by (auto simp: vet_module_def marks_memo_def Let_def config_kept case_prod_unfold split: option.split bool.split)
  with Cons show ?case by (simp add: case_prod_unfold)
qed simp

lemma vet_for_config [config_kept]: "cache_config (snd (vet_for rw c opts dv gos fs cache)) = cache_config cache"
  by (auto simp: vet_for_def vet_run_def Let_def vet_modules_config vet_modules_none case_prod_unfold
      split: option.split vet_targets.split)

section \<open>Sessions\<close>

text \<open>The stores are those of the configuration they name, and so is the linter.\<close>

definition stores_ok :: "(config \<Rightarrow> string) \<Rightarrow> (lint_config \<Rightarrow> string + linter) \<Rightarrow> 'r session \<Rightarrow> bool" where
  "stores_ok H N se \<longleftrightarrow>
     (case se_stores se of
        None \<Rightarrow> se_linter se = None
      | Some so \<Rightarrow>
          cache_config (so_cache so) \<in> {None, Some (so_config_hash so)} \<and>
          (\<forall>l. se_linter se = Some l \<longrightarrow> (\<exists>c. H c = so_config_hash so \<and> N (cf_lint c) = Inr l)))"

lemma cache_open_config: "cache_config (cache_open pf canon now dir root hash enabled) \<in> {None, Some hash}"
  by (auto simp: cache_open_def open_in_def cache_disabled_def cache_config_def split: option.split)

lemma take_stores_ok:
  assumes "take_stores rw c opts fs se = (so, kept, fs1)" "stores_ok (rw_hash rw) N se"
  shows "so_root so = op_root opts \<and> so_config_hash so = rw_hash rw c \<and> so_enabled so = op_cache opts \<and>
    cache_config (so_cache so) \<in> {None, Some (rw_hash rw c)} \<and>
    (\<forall>l. kept = Some l \<longrightarrow> (\<exists>c'. rw_hash rw c' = rw_hash rw c \<and> N (cf_lint c') = Inr l))"
  using assms cache_open_config [of "rw_platform rw" "rw_canon rw" "rw_now rw" "rw_cache_dir rw" "op_root opts" "rw_hash rw c" "op_cache opts"]
  by (auto simp: take_stores_def Let_def stores_ok_def stores_open_def split: option.splits if_splits)

lemma ready_stores_config:
  "cache_config (so_cache (ready_stores rw fs so)) = cache_config (so_cache so)"
  "so_root (ready_stores rw fs so) = so_root so" "so_config_hash (ready_stores rw fs so) = so_config_hash so"
  "so_enabled (ready_stores rw fs so) = so_enabled so"
  by (simp_all add: ready_stores_def config_kept)

lemma run_lanes_config: "lane_config (snd (run_lanes rw c opts dv linter fs cache)) = cache_config cache"
proof -
  let ?gos = "filter (\<lambda>f. sf_lang f = Go) (dv_files dv)"
  let ?scripts = "filter (\<lambda>f. sf_lang f \<noteq> Go) (dv_files dv)"
  let ?run = "lane_run rw c opts (if needs_linter ?scripts then linter else None)"
  obtain scripts ls1 where p: "process_all ?run ?scripts \<lparr>la_cache = cache, la_files = fs, la_done = 0\<rparr> = (scripts, ls1)" by fastforce
  then have 1: "lane_config ls1 = cache_config cache"
    using process_all_config [of ?run ?scripts "\<lparr>la_cache = cache, la_files = fs, la_done = 0\<rparr>"] by simp
  obtain go ls2 where g: "(if ?gos = [] then (Inr [], ls1) else go_process ?run (rw_helper rw (op_go_helper opts)) ?gos ls1) = (go, ls2)"
    by fastforce
  then have 2: "lane_config ls2 = lane_config ls1"
    using go_process_config [of ?run "rw_helper rw (op_go_helper opts)" ?gos ls1] by (simp split: if_splits)
  obtain vet cache3 where v: "vet_for rw c opts dv ?gos (la_files ls2) (la_cache ls2) = (vet, cache3)" by fastforce
  then have "cache_config cache3 = lane_config ls2"
    using vet_for_config [of rw c opts dv ?gos "la_files ls2" "la_cache ls2"] by simp
  with 1 2 p g v show ?thesis by (simp add: run_lanes_def Let_def)
qed

lemma linter_for_ok:
  "linter_for rw c lints needed kept = Inr (Some l) \<Longrightarrow> kept = Some l \<or> rw_linter rw (cf_lint c) = Inr l"
  by (auto simp: linter_for_def split: option.splits if_splits sum.splits)

lemma session_run_ok:
  assumes "stores_ok (rw_hash rw) (rw_linter rw) se" "session_run rw c opts pg fs se = (res, pg', fs', se')"
  shows "stores_ok (rw_hash rw) (rw_linter rw) se' \<and>
    (\<exists>so. se_stores se' = Some so \<and> so_root so = op_root opts \<and> so_config_hash so = rw_hash rw c \<and>
       cache_config (so_cache so) \<in> {None, Some (rw_hash rw c)})"
proof -
  obtain so0 kept fs1 where t: "take_stores rw c opts fs se = (so0, kept, fs1)" using prod_cases3 by blast
  note ok = take_stores_ok [OF t assms(1)]
  let ?so = "ready_stores rw fs1 so0"
  let ?repo = "repository_next_run (rw_now rw) (se_repository se)"
  note so = ready_stores_config [of rw fs1 so0]
  obtain d mem repo1 where d: "rw_discover rw fs1 opts (cf_files c) (so_memory ?so) ?repo = (d, mem, repo1)" using prod_cases3 by blast
  let ?so1 = "?so\<lparr>so_memory := mem\<rparr>"
  show ?thesis
  proof (cases d)
    case (Inl e)
    with assms(2) t d ok so show ?thesis by (auto simp: session_run_def Let_def stores_ok_def)
  next
    case (Inr dv)
    let ?needed = "needs_linter (filter (\<lambda>f. sf_lang f \<noteq> Go) (dv_files dv))"
    let ?l = "linter_for rw c (TsLane \<in> set (selected_lanes (op_scope opts))) ?needed kept"
    show ?thesis
    proof (cases ?l)
      case (Inl e)
      with assms(2) t d Inr ok so show ?thesis by (auto simp: session_run_def Let_def stores_ok_def)
    next
      case (Inr linter)
      note l = this
      obtain r ls where r: "run_lanes rw c opts dv linter fs1 (so_cache ?so1) = (r, ls)" by fastforce
      have cfg: "lane_config ls \<in> {None, Some (rw_hash rw c)}"
        using run_lanes_config [of rw c opts dv linter fs1 "so_cache ?so1"] r ok so(1) by simp
      have lin: "\<exists>c'. rw_hash rw c' = rw_hash rw c \<and> rw_linter rw (cf_lint c') = Inr x" if "linter = Some x" for x
        using linter_for_ok [OF l [unfolded that]] ok by auto
      show ?thesis
        using assms(2) t d \<open>d = Inr dv\<close> l r cfg lin ok so
        by (auto simp: session_run_def Let_def stores_ok_def split: if_splits)
    qed
  qed
qed

fun after_runs ::
  "('r run_world \<times> config \<times> options \<times> progress) list \<Rightarrow> files \<Rightarrow> 'r session \<Rightarrow> files \<times> 'r session" where
  "after_runs [] fs se = (fs, se)"
| "after_runs ((rw, c, opts, pg) # runs) fs se =
     (case session_run rw c opts pg fs se of (_, _, fs', se') \<Rightarrow> after_runs runs fs' se')"

lemma after_runs_ok:
  "list_all (\<lambda>(rw, _). rw_hash rw = H \<and> rw_linter rw = N) runs \<Longrightarrow> stores_ok H N se \<Longrightarrow>
     stores_ok H N (snd (after_runs runs fs se))"
proof (induction runs fs se rule: after_runs.induct)
  case (2 rw c opts pg runs fs se)
  obtain res pg' fs' se' where r: "session_run rw c opts pg fs se = (res, pg', fs', se')" using prod_cases4 by blast
  from "2.prems" session_run_ok [OF _ r] have "stores_ok H N se'" by auto
  with "2.IH" [OF r [symmetric] refl refl] "2.prems" r show ?case by simp
qed simp

text \<open>
  A session keeps configurations and roots apart: whatever runs it made before, with other
  configurations, roots or cache settings, and whether they failed, the cache of a run is the one of its
  own root and configuration hash, or there is none, and a linter kept from an earlier run was built from
  a configuration with the same hash.
\<close>

theorem session_keeps_configurations_apart:
  assumes "list_all (\<lambda>(rw, _). rw_hash rw = H \<and> rw_linter rw = N) runs" "rw_hash rw = H" "rw_linter rw = N"
    and "after_runs runs fs0 default_session = (fs, se)" "session_run rw c opts pg fs se = (res, pg', fs', se')"
  shows "\<exists>so. se_stores se' = Some so \<and> so_root so = op_root opts \<and> so_config_hash so = H c \<and>
    (case so_cache so of None \<Rightarrow> True | Some st \<Rightarrow> cs_config_hash st = H c) \<and>
    (case se_linter se' of None \<Rightarrow> True | Some l \<Rightarrow> (\<exists>c'. H c' = H c \<and> N (cf_lint c') = Inr l))"
proof -
  have "stores_ok H N default_session" by (simp add: stores_ok_def default_session_def)
  with after_runs_ok [OF assms(1), of default_session fs0] assms(4) have "stores_ok H N se" by simp
  with session_run_ok [OF _ assms(5)] assms(2,3) show ?thesis
    by (auto simp: stores_ok_def cache_config_def split: option.split)
qed

section \<open>The report\<close>

lemma session_run_report:
  assumes "session_run rw c opts pg fs se = (Inr rep, pg', fs', se')"
  shows "\<exists>dv outs vet. rep = report_of rw c opts dv outs vet"
proof -
  have l: "run_lanes rw c opts dv linter fs cache = (Inr rep, ls) \<Longrightarrow> ?thesis" for dv linter fs cache ls
    by (auto simp: run_lanes_def Let_def split: prod.splits sum.splits)
  show ?thesis
    using assms
    by (auto simp: session_run_def Let_def split: prod.splits sum.splits if_splits option.splits dest: l)
qed

lemma verdict_cases:
  "verdict mode outs clean vet = Fail \<longleftrightarrow>
     list_ex (\<lambda>out. unresolved mode out \<or> mode = Check \<and> o_changed out) outs \<or> \<not> clean \<or> v_errors vet \<noteq> []"
  "verdict mode outs clean vet = Fixed \<longleftrightarrow>
     verdict mode outs clean vet \<noteq> Fail \<and> mode = Format \<and> list_ex o_changed outs"
  by (auto simp: verdict_def list_ex_iff split: mode.split)

text \<open>
  The result of a run is what its report shows, whatever the session kept: it fails exactly when a
  named path is missing, a function is over a limit or an allow entry stale, \<open>go vet\<close> found something, or
  a file could not be processed, has a lint error, or in check mode is not formatted or has a violation;
  it is fixed exactly when it does not fail and format mode changed a file; warnings never fail it. The
  files come in the order of their paths.
\<close>

theorem result_is_what_the_report_shows:
  assumes "session_run rw c opts pg fs se = (Inr rep, pg', fs', se')"
  shows "(r_result rep = Fail \<longleftrightarrow>
      r_missing rep \<noteq> [] \<or> r_complexity rep \<noteq> [] \<or> v_errors (r_vet rep) \<noteq> [] \<or>
      list_ex (\<lambda>out. o_error out \<noteq> None \<or> list_ex (\<lambda>d. d_severity d = SevError) (o_lint out) \<or>
        op_mode opts = Check \<and> (o_violations out \<noteq> [] \<or> o_changed out)) (r_files rep)) \<and>
    (r_result rep = Fixed \<longleftrightarrow> r_result rep \<noteq> Fail \<and> op_mode opts = Format \<and> list_ex o_changed (r_files rep)) \<and>
    sorted (map o_file (r_files rep)) \<and> r_mode rep = op_mode opts"
proof -
  from session_run_report [OF assms] obtain dv outs vet where r: "rep = report_of rw c opts dv outs vet" by blast
  show ?thesis
    by (auto simp: r report_of_def Let_def verdict_cases unresolved_def list_ex_iff)
qed

text \<open>Runs whose only named path is missing; the helper and \<open>go\<close> are never asked.\<close>

definition sample_world :: "unit run_world" where
  "sample_world =
     \<lparr>rw_platform = sample_platform sample_stored, rw_codec = \<lparr>mc_encode = (\<lambda>_. None), mc_decode = (\<lambda>_. None)\<rparr>,
      rw_canon = (\<lambda>_. None), rw_cache_dir = Some ''c'', rw_now = 0, rw_pid = 1,
      rw_write = (\<lambda>_. \<lparr>os_mkdir = False, os_create = False, os_write = False, os_written = 0, os_permissions = False,
        os_rename = False, os_remove = False\<rparr>),
      rw_hash = (\<lambda>c. if gc_vet (cf_go c) then ''v'' else ''n''), rw_linter = (\<lambda>_. Inl ''none''), rw_pool = None,
      rw_discover = (\<lambda>_ _ _ mem r. (Inr \<lparr>dv_files = [], dv_missing = [''gone''], dv_modules = [], dv_git = True\<rparr>, mem, r)),
      rw_lane = sample_lane_run Check, rw_helper = (\<lambda>_. sample_go_helper), rw_vet_world = nested_world,
      rw_vet_env = vet_sample_env, rw_go = None, rw_go_vet = vet_sample_go 0, rw_exists = (\<lambda>_. False)\<rparr>"

definition sample_options :: options where
  "sample_options =
     \<lparr>op_root = ''/r'', op_mode = Check, op_scope = \<lparr>sc_all = False, sc_lanes = [], sc_paths = [''gone''], sc_cwd = None\<rparr>,
      op_jobs = 0, op_cache = True, op_go_helper = None\<rparr>"

definition sample_progress :: progress where
  "sample_progress = \<lparr>pg_total = 0, pg_done = 0, pg_observer = None\<rparr>"

lemma sample_world_simps:
  "rw_hash sample_world = (\<lambda>c. if gc_vet (cf_go c) then ''v'' else ''n'')" "rw_linter sample_world = (\<lambda>_. Inl ''none'')"
  "rw_pool sample_world = None"
  "rw_discover sample_world = (\<lambda>_ _ _ mem r. (Inr \<lparr>dv_files = [], dv_missing = [''gone''], dv_modules = [], dv_git = True\<rparr>, mem, r))"
  by (simp_all add: sample_world_def)

lemma sample_lanes:
  "\<exists>rep ls. run_lanes sample_world c opts \<lparr>dv_files = [], dv_missing = [''gone''], dv_modules = [], dv_git = True\<rparr> linter fs cache =
     (Inr rep, ls) \<and> r_missing rep = [''gone'']"
  by (simp add: run_lanes_def Let_def report_of_def split: prod.split)

lemma sample_session_run:
  "\<exists>rep pg' fs' se'. session_run sample_world c sample_options pg fs se = (Inr rep, pg', fs', se') \<and> r_missing rep = [''gone'']"
proof -
  obtain so0 kept fs1 where t: "take_stores sample_world c sample_options fs se = (so0, kept, fs1)" using prod_cases3 by blast
  have "\<exists>l. linter_for sample_world c b False kept = Inr l" for b
    by (simp add: linter_for_def sample_world_simps split: option.split)
  then obtain l where l: "linter_for sample_world c (TsLane \<in> set (selected_lanes (op_scope sample_options))) False kept = Inr l"
    by blast
  obtain rep ls where "run_lanes sample_world c sample_options \<lparr>dv_files = [], dv_missing = [''gone''], dv_modules = [], dv_git = True\<rparr> l fs1
      (so_cache (ready_stores sample_world fs1 so0)) = (Inr rep, ls)" "r_missing rep = [''gone'']"
    using sample_lanes by metis
  with t l show ?thesis by (simp add: session_run_def Let_def sample_world_simps needs_linter_def)
qed

theorem result_is_what_the_report_shows_witness:
  "\<exists>rep pg' fs' se'. session_run sample_world default_config sample_options sample_progress Map.empty default_session =
     (Inr rep, pg', fs', se') \<and> r_result rep = Fail"
proof -
  obtain rep pg' fs' se' where r: "session_run sample_world default_config sample_options sample_progress Map.empty default_session =
      (Inr rep, pg', fs', se')" "r_missing rep = [''gone'']"
    using sample_session_run by blast
  with result_is_what_the_report_shows [OF r(1)] show ?thesis by auto
qed

text \<open>A second run without \<open>go vet\<close> does not get the cache of the first.\<close>

theorem session_keeps_configurations_apart_witness:
  "map_option so_config_hash (se_stores (snd (after_runs
     [(sample_world, default_config, sample_options, sample_progress),
      (sample_world, default_config\<lparr>cf_go := default_go\<lparr>gc_vet := False\<rparr>\<rparr>, sample_options, sample_progress)]
     Map.empty default_session))) = Some ''n''"
proof -
  let ?c = "default_config\<lparr>cf_go := default_go\<lparr>gc_vet := False\<rparr>\<rparr>"
  let ?runs = "[(sample_world, default_config, sample_options, sample_progress)]"
  obtain fs se where a: "after_runs ?runs Map.empty default_session = (fs, se)" by fastforce
  obtain res pg' fs' se' where r: "session_run sample_world ?c sample_options sample_progress fs se = (res, pg', fs', se')"
    using prod_cases4 by blast
  have w: "list_all (\<lambda>(rw, _). rw_hash rw = rw_hash sample_world \<and> rw_linter rw = rw_linter sample_world) ?runs" by simp
  from session_keeps_configurations_apart [OF w refl refl a r] obtain so where
    "se_stores se' = Some so" "so_config_hash so = rw_hash sample_world ?c" by blast
  with a r show ?thesis
    by (auto simp: sample_world_simps split: prod.splits)
qed

end
