(* ===== verification/JsText.thy ===== *)
theory JsText imports
  Prelude
begin

text \<open>
  Text as the perfectionist rules read it: the characters of a \<open>str\<close>, JavaScript's white space
  (\<^verbatim>\<open>crates/lint/src/rules/perfectionist/source.rs\<close>: \<open>is_js_space\<close>, \<open>js_trim\<close>), UTF-16 code units,
  and \<open>std::cmp::Ordering\<close>.
\<close>

section \<open>Characters\<close>

text \<open>
  \<open>str::chars\<close>: each character is its UTF-8 encoding, a leading byte and the bytes that continue it.
\<close>

function str_chars :: "string \<Rightarrow> string list" where
  "str_chars [] = []"
| "str_chars (b # s) = (b # takeWhile continuation_byte s) # str_chars (dropWhile continuation_byte s)"
  by pat_completeness auto
termination
  by (relation "measure length") (auto simp: le_imp_less_Suc length_dropWhile_le)

lemma concat_str_chars [simp]: "concat (str_chars s) = s"
  by (induction s rule: str_chars.induct) simp_all

lemma str_chars_not_Nil: "c \<in> set (str_chars s) \<Longrightarrow> c \<noteq> []"
  by (induction s rule: str_chars.induct) auto

definition code_point :: "string \<Rightarrow> nat" where
  "code_point c =
     (case map (\<lambda>b. of_char b :: nat) c of
        [a] \<Rightarrow> a
      | [a, b] \<Rightarrow> (a mod 32) * 64 + b mod 64
      | [a, b, d] \<Rightarrow> (a mod 16) * 4096 + (b mod 64) * 64 + d mod 64
      | [a, b, d, e] \<Rightarrow> (a mod 8) * 262144 + (b mod 64) * 4096 + (d mod 64) * 64 + e mod 64
      | _ \<Rightarrow> 0)"

text \<open>\<open>str::encode_utf16\<close>: one unit, or a surrogate pair past the basic plane.\<close>

definition utf16_units :: "string \<Rightarrow> nat list" where
  "utf16_units c =
     (let n = code_point c in
      if n < 0x10000 then [n] else [0xD800 + (n - 0x10000) div 1024, 0xDC00 + (n - 0x10000) mod 1024])"

definition encode_utf16 :: "string \<Rightarrow> nat list" where
  "encode_utf16 s = concat (map utf16_units (str_chars s))"

section \<open>White space\<close>

definition BYTE_ORDER_MARK :: string where
  "BYTE_ORDER_MARK = [CHR 0xEF, CHR 0xBB, CHR 0xBF]"

definition NEXT_LINE :: string where
  "NEXT_LINE = [CHR 0xC2, CHR 0x85]"

definition is_js_space :: "string \<Rightarrow> bool" where
  "is_js_space c \<longleftrightarrow> c = BYTE_ORDER_MARK \<or> (c \<in> set WHITE_SPACE \<and> c \<noteq> NEXT_LINE)"

definition js_trim_start :: "string \<Rightarrow> string" where
  "js_trim_start s = concat (dropWhile is_js_space (str_chars s))"

definition js_trim_end :: "string \<Rightarrow> string" where
  "js_trim_end s = concat (rev (dropWhile is_js_space (rev (str_chars s))))"

definition js_trim :: "string \<Rightarrow> string" where
  "js_trim s = js_trim_end (js_trim_start s)"

definition remove_js_space :: "string \<Rightarrow> string" where
  "remove_js_space s = concat (filter (\<lambda>c. \<not> is_js_space c) (str_chars s))"

text \<open>\<open>split\<close> at the characters a predicate picks, and the form without empty pieces.\<close>

fun split_chars :: "(string \<Rightarrow> bool) \<Rightarrow> string list \<Rightarrow> string list" where
  "split_chars p [] = [[]]"
| "split_chars p (c # cs) =
     (if p c then [] # split_chars p cs
      else case split_chars p cs of [] \<Rightarrow> [c] | w # ws \<Rightarrow> (c @ w) # ws)"

definition split_words :: "(string \<Rightarrow> bool) \<Rightarrow> string \<Rightarrow> string list" where
  "split_words p s = filter (\<lambda>w. w \<noteq> []) (split_chars p (str_chars s))"

definition squeeze_js_space :: "string \<Rightarrow> string" where
  "squeeze_js_space s = join_with '' '' (split_words is_js_space s)"

text \<open>\<open>str::split_whitespace\<close>.\<close>

definition split_whitespace :: "string \<Rightarrow> string list" where
  "split_whitespace s = split_words (\<lambda>c. c \<in> set WHITE_SPACE) s"

lemma js_trim_start_suffix: "suffix (js_trim_start s) s"
proof -
  have "suffix (concat (dropWhile is_js_space cs)) (concat cs)" for cs
    by (induction cs) (auto intro: suffix_appendI)
  from this [of "str_chars s"] show ?thesis by (simp add: js_trim_start_def)
qed

lemma js_trim_end_prefix: "prefix (js_trim_end s) s"
proof -
  let ?cs = "str_chars s"
  have "prefix (rev (dropWhile is_js_space (rev ?cs))) ?cs"
    using suffix_dropWhile [of is_js_space "rev ?cs"] by (simp add: suffix_to_prefix)
  then obtain r where "?cs = rev (dropWhile is_js_space (rev ?cs)) @ r" by (auto elim: prefixE)
  then have "concat ?cs = js_trim_end s @ concat r" unfolding js_trim_end_def by (metis concat_append)
  then have "s = js_trim_end s @ concat r" by simp
  then show ?thesis by (rule prefixI)
qed

lemma js_trim_start_length: "length (js_trim_start s) \<le> length s"
  using suffix_length_le [OF js_trim_start_suffix] .

lemma js_trim_end_length: "length (js_trim_end s) \<le> length s"
  using prefix_length_le [OF js_trim_end_prefix] .

lemma js_trim_sublist: "sublist (js_trim s) s"
  using js_trim_end_prefix [of "js_trim_start s"] js_trim_start_suffix [of s]
  unfolding js_trim_def
  by (rule sublist_order.order_trans [OF prefix_imp_sublist suffix_imp_sublist])

section \<open>Ordering\<close>

datatype ordering = Smaller | Same | Larger

definition ord_cmp :: "'a::linorder \<Rightarrow> 'a \<Rightarrow> ordering" where
  "ord_cmp a b = (if a < b then Smaller else if a = b then Same else Larger)"

fun reverse_ordering :: "ordering \<Rightarrow> ordering" where
  "reverse_ordering Smaller = Larger"
| "reverse_ordering Same = Same"
| "reverse_ordering Larger = Smaller"

fun then_with :: "ordering \<Rightarrow> ordering \<Rightarrow> ordering" where
  "then_with Same r = r"
| "then_with l r = l"

lemma ord_cmp_iff [simp]:
  "ord_cmp a b = Smaller \<longleftrightarrow> a < b" "ord_cmp a b = Same \<longleftrightarrow> a = b" "ord_cmp a b = Larger \<longleftrightarrow> b < a"
  by (auto simp: ord_cmp_def)

lemma reverse_ordering_iff [simp]:
  "reverse_ordering r = Smaller \<longleftrightarrow> r = Larger" "reverse_ordering r = Same \<longleftrightarrow> r = Same"
  "reverse_ordering r = Larger \<longleftrightarrow> r = Smaller"
  by (cases r; simp)+

lemma then_with_iff:
  "then_with l r = Smaller \<longleftrightarrow> l = Smaller \<or> l = Same \<and> r = Smaller"
  "then_with l r = Same \<longleftrightarrow> l = Same \<and> r = Same"
  "then_with l r = Larger \<longleftrightarrow> l = Larger \<or> l = Same \<and> r = Larger"
  by (cases l; simp)+

text \<open>\<open>Iterator::cmp\<close> and \<open><\<close> on JavaScript strings: by code units, a proper prefix first.\<close>

definition compare_units :: "string \<Rightarrow> string \<Rightarrow> ordering" where
  "compare_units a b = ord_cmp (encode_utf16 a) (encode_utf16 b)"

end
