(* ===== verification/PerfRegex.thy ===== *)
theory PerfRegex imports
  JsText
  Configs
begin

text \<open>
  \<^verbatim>\<open>crates/lint/src/rules/perfectionist/regex.rs\<close>: the regular expressions of the options and how they
  are tested. The engine is an argument: from a pattern and its flags it gives an error message or the
  position of the first match in a sequence of UTF-16 and in one of UCS-2 units.
\<close>

section \<open>Results\<close>

definition then_ok :: "'e + 'a \<Rightarrow> ('a \<Rightarrow> 'e + 'b) \<Rightarrow> 'e + 'b" where
  "then_ok r f = (case r of Inl e \<Rightarrow> Inl e | Inr x \<Rightarrow> f x)"

fun map_ok :: "('a \<Rightarrow> 'e + 'b) \<Rightarrow> 'a list \<Rightarrow> 'e + 'b list" where
  "map_ok f [] = Inr []"
| "map_ok f (x # xs) = then_ok (f x) (\<lambda>y. then_ok (map_ok f xs) (\<lambda>ys. Inr (y # ys)))"

fun fold_ok :: "('a \<Rightarrow> 's \<Rightarrow> 'e + 's) \<Rightarrow> 'a list \<Rightarrow> 's \<Rightarrow> 'e + 's" where
  "fold_ok f [] s = Inr s"
| "fold_ok f (x # xs) s = then_ok (f x s) (fold_ok f xs)"

definition ok_or :: "'a option \<Rightarrow> 'e \<Rightarrow> 'e + 'a" where
  "ok_or x e = (case x of None \<Rightarrow> Inl e | Some v \<Rightarrow> Inr v)"

lemma then_ok_simps [simp]:
  "then_ok (Inl e) f = Inl e" "then_ok (Inr x) f = f x"
  by (simp_all add: then_ok_def)

lemma then_ok_Inr_iff: "then_ok r f = Inr y \<longleftrightarrow> (\<exists>x. r = Inr x \<and> f x = Inr y)"
  by (cases r) simp_all

lemma map_ok_length: "map_ok f xs = Inr ys \<Longrightarrow> length ys = length xs"
  by (induction xs arbitrary: ys) (auto simp: then_ok_Inr_iff)

lemma fold_ok_invariant:
  assumes "fold_ok f xs s = Inr t" "P s" "\<And>x u v. P u \<Longrightarrow> f x u = Inr v \<Longrightarrow> P v"
  shows "P t"
  using assms(1,2) by (induction xs arbitrary: s) (auto simp: then_ok_Inr_iff dest: assms(3))

definition quote_mark :: char where
  "quote_mark = CHR 0x22"

definition quoted :: "string \<Rightarrow> string" where
  "quoted s = quote_mark # s @ [quote_mark]"

section \<open>Expressions\<close>

type_synonym matcher_at = "nat list \<Rightarrow> nat option"

type_synonym regex_engine = "string \<Rightarrow> string \<Rightarrow> string + (matcher_at \<times> matcher_at)"

record js_regex =
  jr_utf16 :: matcher_at
  jr_ucs2 :: matcher_at
  jr_sticky :: bool
  jr_unicode :: bool

fun seen_flags :: "string \<Rightarrow> string \<Rightarrow> string option" where
  "seen_flags seen [] = Some seen"
| "seen_flags seen (c # cs) =
     (if c \<notin> set ''dgimsuvy'' \<or> c \<in> set seen then None else seen_flags (seen @ [c]) cs)"

definition js_regex_new :: "regex_engine \<Rightarrow> string \<Rightarrow> string \<Rightarrow> string + js_regex" where
  "js_regex_new E pattern flags =
     (let invalid = ''invalid regular expression flags '' @ quoted flags in
      case seen_flags [] flags of
        None \<Rightarrow> Inl invalid
      | Some seen \<Rightarrow>
          if CHR ''u'' \<in> set seen \<and> CHR ''v'' \<in> set seen then Inl invalid
          else case E pattern (filter (\<lambda>c. c \<in> set ''imsuv'') seen) of
            Inl e \<Rightarrow> Inl (''invalid regular expression /'' @ pattern @ ''/'' @ flags @ '': '' @ e)
          | Inr (utf16, ucs2) \<Rightarrow>
              Inr \<lparr>jr_utf16 = utf16, jr_ucs2 = ucs2, jr_sticky = CHR ''y'' \<in> set seen,
                jr_unicode = CHR ''u'' \<in> set seen \<or> CHR ''v'' \<in> set seen\<rparr>)"

definition regex_test :: "js_regex \<Rightarrow> string \<Rightarrow> bool" where
  "regex_test r t =
     (let units = encode_utf16 t in
      case (if jr_unicode r then jr_utf16 r units else jr_ucs2 r units) of
        None \<Rightarrow> False
      | Some start \<Rightarrow> \<not> jr_sticky r \<or> start = 0)"

datatype scope = Shallow | Deep

record scoped_pattern =
  pt_regex :: js_regex
  pt_scope :: scope

type_synonym regex_option = "scoped_pattern list"

type_synonym partial_pattern = "string option \<times> string \<times> scope"

definition pattern_key :: "bool \<Rightarrow> string \<Rightarrow> string \<times> json \<Rightarrow> partial_pattern \<Rightarrow> string + partial_pattern" where
  "pattern_key scoped key entry st =
     (let (name, value) = entry; (pattern, flags, scope) = st in
      case value of
        JString v \<Rightarrow>
          if name = ''pattern'' then Inr (Some v, flags, scope)
          else if name = ''flags'' then Inr (pattern, v, scope)
          else if name = ''scope'' \<and> scoped
          then if v = ''shallow'' then Inr (pattern, flags, Shallow)
               else if v = ''deep'' then Inr (pattern, flags, Deep)
               else Inl (quoted (key @ ''.scope'') @ '' must be '' @ quoted ''shallow'' @ '' or '' @ quoted ''deep'' @
                 '', not '' @ quoted v)
          else if name = ''source''
          then Inl (''Invalid configuration: please enter your RegExp expressions as strings.'' @ [newline] @
            ''For example, write '' @ quoted ''.*foo'' @ '' instead of /.*foo/'')
          else Inl (quoted key @ '': unexpected or invalid '' @ quoted name)
      | _ \<Rightarrow>
          if name = ''source''
          then Inl (''Invalid configuration: please enter your RegExp expressions as strings.'' @ [newline] @
            ''For example, write '' @ quoted ''.*foo'' @ '' instead of /.*foo/'')
          else Inl (quoted key @ '': unexpected or invalid '' @ quoted name))"

definition object_pattern :: "regex_engine \<Rightarrow> (string \<times> json) list \<Rightarrow> bool \<Rightarrow> string \<Rightarrow> string + scoped_pattern" where
  "object_pattern E obj scoped key =
     then_ok (fold_ok (pattern_key scoped key) obj (None, [], Shallow)) (\<lambda>(pattern, flags, scope).
       then_ok (ok_or pattern (quoted key @ '' objects need a '' @ quoted ''pattern'')) (\<lambda>p.
         then_ok (js_regex_new E p flags) (\<lambda>r. Inr \<lparr>pt_regex = r, pt_scope = scope\<rparr>)))"

definition single_pattern :: "regex_engine \<Rightarrow> json \<Rightarrow> bool \<Rightarrow> string \<Rightarrow> string + scoped_pattern" where
  "single_pattern E value scoped key =
     (case value of
        JString p \<Rightarrow> then_ok (js_regex_new E p []) (\<lambda>r. Inr \<lparr>pt_regex = r, pt_scope = Shallow\<rparr>)
      | JObject obj \<Rightarrow> object_pattern E obj scoped key
      | _ \<Rightarrow> Inl (quoted key @ '' must be a regular expression string, a { pattern, flags } object, or an array of them''))"

definition regex_parse :: "regex_engine \<Rightarrow> json \<Rightarrow> bool \<Rightarrow> string \<Rightarrow> string + regex_option" where
  "regex_parse E value scoped key =
     (case value of
        JArray items \<Rightarrow> map_ok (\<lambda>item. single_pattern E item scoped key) items
      | _ \<Rightarrow> then_ok (single_pattern E value scoped key) (\<lambda>p. Inr [p]))"

definition regex_matches :: "regex_option \<Rightarrow> string \<Rightarrow> bool" where
  "regex_matches ps t \<longleftrightarrow> list_ex (\<lambda>p. regex_test (pt_regex p) t) ps"

definition matches_parent :: "regex_option \<Rightarrow> ('a \<Rightarrow> string list) \<Rightarrow> 'a \<Rightarrow> scope \<Rightarrow> bool" where
  "matches_parent ps vals parent scope \<longleftrightarrow>
     list_ex (\<lambda>p. list_ex (regex_test (pt_regex p)) (vals parent)) (filter (\<lambda>p. pt_scope p = scope) ps)"

definition matches_scoped :: "regex_option \<Rightarrow> 'a list \<Rightarrow> ('a \<Rightarrow> bool) \<Rightarrow> ('a \<Rightarrow> string list) \<Rightarrow> bool" where
  "matches_scoped ps parents allow vals \<longleftrightarrow>
     (case parents of [] \<Rightarrow> False | first # _ \<Rightarrow> allow first \<and> matches_parent ps vals first Shallow) \<or>
     list_ex (\<lambda>parent. matches_parent ps vals parent Deep) (filter allow parents)"

end
