(* ===== verification/PerfSource.thy ===== *)
theory PerfSource imports
  JsText
  Lines
  "HOL-Library.Monad_Syntax"
begin

text \<open>
  \<^verbatim>\<open>crates/lint/src/rules/perfectionist/source.rs\<close>: lines, comments, the tokens around a position and
  the \<open>eslint-disable\<close> directives. The comments are those the parser found. A loop over comments that
  would not end (a comment of no length) has the value \<open>None\<close>.
\<close>

section \<open>The index of a file\<close>

record source_span =
  sp_start :: u32
  sp_end :: u32

datatype comment_kind = SingleLineBlock | MultiLineBlock | LineComment | HtmlOpen | HtmlClose

record parsed_comment =
  pc_span :: source_span
  pc_kind :: comment_kind

record comment =
  cm_span :: source_span
  cm_value :: source_span
  cm_block :: bool

record source_index =
  ix_starts :: "u32 list"
  ix_ends :: "u32 list"
  ix_comments :: "comment list"
  ix_by_start :: "u32 \<rightharpoonup> nat"
  ix_by_end :: "u32 \<rightharpoonup> nat"

definition LINE_SEPARATORS :: "string list" where
  "LINE_SEPARATORS =
     [[carriage_return], [newline], [CHR 0xE2, CHR 0x80, CHR 0xA8], [CHR 0xE2, CHR 0x80, CHR 0xA9]]"

text \<open>Where lines end and the next ones start; a carriage return and a newline end one line together.\<close>

fun scan_lines :: "nat \<Rightarrow> string list \<Rightarrow> (u32 \<times> u32) list" where
  "scan_lines i [] = []"
| "scan_lines i [c] =
     (if c \<in> set LINE_SEPARATORS then [(saturate_u32 i, saturate_u32 i + saturate_u32 (length c))] else [])"
| "scan_lines i (c # d # cs) =
     (if c = [carriage_return] \<and> d = [newline]
      then (saturate_u32 i, saturate_u32 i + 2) # scan_lines (i + length c + length d) cs
      else if c \<in> set LINE_SEPARATORS
      then (saturate_u32 i, saturate_u32 i + saturate_u32 (length c)) # scan_lines (i + length c) (d # cs)
      else scan_lines (i + length c) (d # cs))"

fun comment_marks :: "comment_kind \<Rightarrow> bool \<times> u32 \<times> u32" where
  "comment_marks SingleLineBlock = (True, 2, 2)"
| "comment_marks MultiLineBlock = (True, 2, 2)"
| "comment_marks LineComment = (False, 2, 0)"
| "comment_marks HtmlOpen = (False, 4, 0)"
| "comment_marks HtmlClose = (False, 3, 0)"

definition saturating_sub :: "u32 \<Rightarrow> u32 \<Rightarrow> u32" where
  "saturating_sub a b = (if b \<le> a then a - b else 0)"

definition comment_of :: "parsed_comment \<Rightarrow> comment" where
  "comment_of pc =
     (let s = pc_span pc;
          (block, open_len, close_len) = comment_marks (pc_kind pc)
      in \<lparr>cm_span = s,
          cm_value = \<lparr>sp_start = min (sp_start s + open_len) (sp_end s),
            sp_end = max (saturating_sub (sp_end s) close_len) (sp_start s)\<rparr>,
          cm_block = block\<rparr>)"

text \<open>\<open>collect\<close> into a hash map: the last entry of a key stays.\<close>

definition index_by :: "(comment \<Rightarrow> u32) \<Rightarrow> comment list \<Rightarrow> u32 \<rightharpoonup> nat" where
  "index_by f cs = map_of (rev (map (\<lambda>(i, c). (f c, i)) (List.enumerate 0 cs)))"

definition source_index_new :: "string \<Rightarrow> parsed_comment list \<Rightarrow> source_index" where
  "source_index_new source pcs =
     (let ls = scan_lines 0 (str_chars source);
          cs = map comment_of pcs
      in \<lparr>ix_starts = 0 # map snd ls,
          ix_ends = map fst ls @ [saturate_u32 (length source)],
          ix_comments = cs,
          ix_by_start = index_by (\<lambda>c. sp_start (cm_span c)) cs,
          ix_by_end = index_by (\<lambda>c. sp_end (cm_span c)) cs\<rparr>)"

definition index_line :: "source_index \<Rightarrow> u32 \<Rightarrow> u32" where
  "index_line ix pos = saturate_u32 (partition_point (\<lambda>s. s \<le> pos) (ix_starts ix))"

section \<open>A file and its index\<close>

record src =
  src_text :: string
  src_index :: source_index

definition src_slice :: "src \<Rightarrow> u32 \<Rightarrow> u32 \<Rightarrow> string" where
  "src_slice S a b = (case str_slice (src_text S) (unat a) (unat b) of Some t \<Rightarrow> t | None \<Rightarrow> [])"

definition text_of :: "src \<Rightarrow> source_span \<Rightarrow> string" where
  "text_of S s = src_slice S (sp_start s) (sp_end s)"

definition src_line :: "src \<Rightarrow> u32 \<Rightarrow> u32" where
  "src_line S pos = index_line (src_index S) pos"

definition comment_value :: "src \<Rightarrow> comment \<Rightarrow> string" where
  "comment_value S c = text_of S (cm_value c)"

definition blank_line :: "src \<Rightarrow> nat \<Rightarrow> bool" where
  "blank_line S i =
     (i < length (ix_starts (src_index S)) \<and> i < length (ix_ends (src_index S)) \<and>
      list_all is_js_space (str_chars (src_slice S (ix_starts (src_index S) ! i) (ix_ends (src_index S) ! i))))"

text \<open>The loop runs over the 1-based lines from the one after \<open>left_end\<close> up to that of \<open>right_start\<close>.\<close>

definition blank_lines_between :: "src \<Rightarrow> u32 \<Rightarrow> u32 \<Rightarrow> u32" where
  "blank_lines_between S left_end right_start =
     of_nat (length (filter (\<lambda>line. blank_line S (line - 1))
       [unat (src_line S left_end + 1)..<unat (src_line S right_start)]))"

text \<open>Out of range or inside a character, \<open>get(..pos)\<close> gives the empty text.\<close>

definition skip_space_back :: "src \<Rightarrow> u32 \<Rightarrow> u32" where
  "skip_space_back S pos =
     saturate_u32 (length (js_trim_end (case str_slice (src_text S) 0 (unat pos) of Some t \<Rightarrow> t | None \<Rightarrow> [])))"

definition str_tail :: "string \<Rightarrow> nat \<Rightarrow> string option" where
  "str_tail s i = str_slice s i (length s)"

definition skip_space :: "src \<Rightarrow> u32 \<Rightarrow> u32" where
  "skip_space S pos =
     (let t = (case str_tail (src_text S) (unat pos) of Some t \<Rightarrow> t | None \<Rightarrow> []) in
      pos + saturate_u32 (length t - length (js_trim_start t)))"

definition comment_ending :: "src \<Rightarrow> u32 \<Rightarrow> comment option" where
  "comment_ending S pos = map_option (\<lambda>i. ix_comments (src_index S) ! i) (ix_by_end (src_index S) pos)"

definition comment_at :: "src \<Rightarrow> u32 \<Rightarrow> comment option" where
  "comment_at S pos = map_option (\<lambda>i. ix_comments (src_index S) ! i) (ix_by_start (src_index S) pos)"

partial_function (option) token_before :: "src \<Rightarrow> u32 \<Rightarrow> u32 option option" where
  "token_before S pos =
     (let p = skip_space_back S pos in
      case comment_ending S p of
        Some c \<Rightarrow> token_before S (sp_start (cm_span c))
      | None \<Rightarrow> Some (if 0 < p then Some p else None))"

partial_function (option) token_after :: "src \<Rightarrow> u32 \<Rightarrow> u32 option option" where
  "token_after S pos =
     (let p = skip_space S pos in
      case comment_at S p of
        Some c \<Rightarrow> token_after S (sp_end (cm_span c))
      | None \<Rightarrow> Some (if unat p < length (src_text S) then Some p else None))"

definition char_at :: "src \<Rightarrow> u32 \<Rightarrow> string option" where
  "char_at S pos =
     Option.bind (str_tail (src_text S) (unat pos)) (\<lambda>t. case str_chars t of [] \<Rightarrow> None | c # _ \<Rightarrow> Some c)"

partial_function (option) comments_back :: "src \<Rightarrow> u32 \<Rightarrow> comment list \<Rightarrow> comment list option" where
  "comments_back S pos found =
     (case comment_ending S (skip_space_back S pos) of
        None \<Rightarrow> Some found
      | Some c \<Rightarrow> comments_back S (sp_start (cm_span c)) (c # found))"

definition comments_before :: "src \<Rightarrow> u32 \<Rightarrow> comment list option" where
  "comments_before S pos = comments_back S pos []"

fun filter_option :: "('a \<Rightarrow> bool option) \<Rightarrow> 'a list \<Rightarrow> 'a list option" where
  "filter_option p [] = Some []"
| "filter_option p (x # xs) = do { b \<leftarrow> p x; ys \<leftarrow> filter_option p xs; Some (if b then x # ys else ys) }"

definition own_line :: "src \<Rightarrow> comment \<Rightarrow> bool option" where
  "own_line S c =
     map_option (\<lambda>before. case before of
         None \<Rightarrow> True
       | Some e \<Rightarrow> src_line S e \<noteq> src_line S (sp_start (cm_span c)))
       (token_before S (sp_start (cm_span c)))"

definition relevant_comments_before :: "src \<Rightarrow> u32 \<Rightarrow> comment list option" where
  "relevant_comments_before S pos = Option.bind (comments_before S pos) (filter_option (own_line S))"

section \<open>Directives\<close>

datatype directive = Disable | Enable | DisableLine | DisableNextLine

definition DIRECTIVES :: "(string \<times> directive) list" where
  "DIRECTIVES =
     [(''eslint-disable'', Disable), (''eslint-enable'', Enable), (''eslint-disable-line'', DisableLine),
      (''eslint-disable-next-line'', DisableNextLine)]"

text \<open>The first match of \<^verbatim>\<open>/\s-{2,}\s/u\<close>.\<close>

fun justification_from :: "nat \<Rightarrow> string list \<Rightarrow> nat option" where
  "justification_from i [] = None"
| "justification_from i (c # cs) =
     (let dashes = length (takeWhile (\<lambda>d. d = ''-'') cs) in
      if is_js_space c \<and> 2 \<le> dashes \<and> dashes < length cs \<and> is_js_space (cs ! dashes) then Some i
      else justification_from (i + length c) cs)"

definition justification :: "string \<Rightarrow> nat option" where
  "justification v = justification_from 0 (str_chars v)"

fun directive_in :: "(string \<times> directive) list \<Rightarrow> string \<Rightarrow> (directive \<times> string list option) option" where
  "directive_in [] part = None"
| "directive_in ((name, d) # ds) part =
     (if part = name then Some (d, None)
      else case Option.bind (strip_prefix name part) (strip_prefix '' '') of
        None \<Rightarrow> directive_in ds part
      | Some rest \<Rightarrow>
          if rest = [] then directive_in ds part
          else Some (d, Some (filter (\<lambda>r. r \<noteq> []) (map js_trim (split_on (CHR '','') rest)))))"

definition directive_of :: "string \<Rightarrow> (directive \<times> string list option) option" where
  "directive_of v =
     directive_in DIRECTIVES (js_trim (take (case justification v of Some i \<Rightarrow> i | None \<Rightarrow> length v) v))"

type_synonym disabling = "u32 set \<times> u32 option"

definition apply_directive :: "src \<Rightarrow> comment \<Rightarrow> directive \<Rightarrow> disabling \<Rightarrow> disabling" where
  "apply_directive S c d st =
     (let (ls, since) = st in
      case d of
        DisableNextLine \<Rightarrow> (insert (src_line S (sp_end (cm_span c)) + 1) ls, since)
      | DisableLine \<Rightarrow> (insert (src_line S (sp_start (cm_span c))) ls, since)
      | Disable \<Rightarrow> (ls, Some (case since of Some l \<Rightarrow> l | None \<Rightarrow> src_line S (sp_start (cm_span c))))
      | Enable \<Rightarrow>
          (case since of
             Some l \<Rightarrow> if l \<noteq> 0 then (ls \<union> {l + 1..src_line S (sp_start (cm_span c))}, None) else (ls, None)
           | None \<Rightarrow> (ls, None)))"

definition step_disabled :: "src \<Rightarrow> string \<Rightarrow> comment \<Rightarrow> disabling \<Rightarrow> disabling" where
  "step_disabled S rule c st =
     (case directive_of (comment_value S c) of
        None \<Rightarrow> st
      | Some (d, rules) \<Rightarrow>
          (case rules of
             Some rs \<Rightarrow> if rule \<in> set rs then apply_directive S c d st else st
           | None \<Rightarrow> apply_directive S c d st))"

definition disabled_lines :: "src \<Rightarrow> string \<Rightarrow> u32 set" where
  "disabled_lines S rule = fst (fold (step_disabled S rule) (ix_comments (src_index S)) ({}, None))"

end
