(* ===== verification/Selectors.thy ===== *)
theory Selectors imports
  JsText
begin

text \<open>
  \<^verbatim>\<open>crates/lint/src/rules/perfectionist/estree.rs\<close>: the AST selectors of \<open>useConfigurationIf\<close>, how they
  are read and what they match. A node of the tree is the list of the ESTree type names of itself and
  its ancestors, \<open>None\<close> where ESTree has no such node (\<open>type_name\<close>, whose tree is the parser's).
\<close>

section \<open>Selectors\<close>

datatype combinator = Subject | Child | Descendant

datatype compound = AnyNode | TypeNode string

type_synonym selector_chain = "(combinator \<times> compound) list"

record selector =
  sel_source :: string
  sel_alternatives :: "selector_chain list"

definition is_ascii_letter :: "char \<Rightarrow> bool" where
  "is_ascii_letter c \<longleftrightarrow> byte_in 65 90 c \<or> byte_in 97 122 c"

definition is_type_name :: "string \<Rightarrow> bool" where
  "is_type_name t \<longleftrightarrow>
     list_all (\<lambda>c. is_ascii_letter c \<or> is_digit c \<or> c = CHR ''_'') t \<and> t \<noteq> [] \<and> is_ascii_letter (hd t)"

definition compound_of :: "string \<Rightarrow> compound option" where
  "compound_of t = (if t = ''*'' then Some AnyNode else if is_type_name t then Some (TypeNode t) else None)"

text \<open>The loop over the tokens of one alternative; \<open>None\<close> is the unsupported selector.\<close>

fun selector_tokens :: "selector_chain \<Rightarrow> combinator \<Rightarrow> string list \<Rightarrow> selector_chain option" where
  "selector_tokens chain pending [] = (if chain = [] \<or> pending = Child then None else Some chain)"
| "selector_tokens chain pending (t # ts) =
     (if t = ''>'' then if chain = [] \<or> pending = Child then None else selector_tokens chain Child ts
      else case compound_of t of
        None \<Rightarrow> None
      | Some c \<Rightarrow>
          let comb = (if chain = [] then Subject else if pending = Child then Child else Descendant)
          in selector_tokens (chain @ [(comb, c)]) Descendant ts)"

definition spaced :: "string \<Rightarrow> string" where
  "spaced s = concat (map (\<lambda>c. if c = CHR ''>'' then '' > '' else [c]) s)"

definition selector_alternative :: "string \<Rightarrow> selector_chain option" where
  "selector_alternative s = selector_tokens [] Subject (split_whitespace (spaced s))"

definition unsupported_selector :: "string \<Rightarrow> string" where
  "unsupported_selector s =
     ''unsupported `matchesAstSelector` '' @ [CHR 0x22] @ s @ [CHR 0x22] @
     '': fmtkit supports node types, `*`, `>`, descendants and `,`''"

definition selector_parse :: "string \<Rightarrow> string + selector" where
  "selector_parse source =
     (case those (map selector_alternative (split_on (CHR '','') source)) of
        None \<Rightarrow> Inl (unsupported_selector source)
      | Some alts \<Rightarrow> Inr \<lparr>sel_source = source, sel_alternatives = alts\<rparr>)"

section \<open>Matching\<close>

type_synonym ast_path = "string option list"

fun estree_ancestors :: "ast_path \<Rightarrow> ast_path list" where
  "estree_ancestors [] = []"
| "estree_ancestors (n # ns) =
     (case ns of
        [] \<Rightarrow> []
      | m # _ \<Rightarrow> if m = None then estree_ancestors ns else ns # estree_ancestors ns)"

definition estree_parent :: "ast_path \<Rightarrow> ast_path option" where
  "estree_parent ns = (case estree_ancestors ns of [] \<Rightarrow> None | p # _ \<Rightarrow> Some p)"

fun matches_compound :: "ast_path \<Rightarrow> compound \<Rightarrow> bool" where
  "matches_compound ns AnyNode \<longleftrightarrow> ns \<noteq> [] \<and> hd ns \<noteq> None"
| "matches_compound ns (TypeNode t) \<longleftrightarrow> ns \<noteq> [] \<and> hd ns = Some t"

text \<open>The chain is taken from its last element, as \<open>split_last\<close> does.\<close>

fun matches_reversed :: "selector_chain \<Rightarrow> ast_path \<Rightarrow> bool" where
  "matches_reversed [] ns \<longleftrightarrow> True"
| "matches_reversed ((comb, c) # rest) ns \<longleftrightarrow>
     matches_compound ns c \<and>
     (case comb of
        Subject \<Rightarrow> True
      | Child \<Rightarrow> (case estree_parent ns of None \<Rightarrow> False | Some p \<Rightarrow> matches_reversed rest p)
      | Descendant \<Rightarrow> list_ex (matches_reversed rest) (estree_ancestors ns))"

definition matches_chain :: "selector_chain \<Rightarrow> ast_path \<Rightarrow> bool" where
  "matches_chain chain ns = matches_reversed (rev chain) ns"

definition selector_matches :: "selector \<Rightarrow> ast_path \<Rightarrow> bool" where
  "selector_matches sel ns \<longleftrightarrow> list_ex (\<lambda>chain. matches_chain chain ns) (sel_alternatives sel)"

end
