(* ===== verification/PerfOptions.thy ===== *)
theory PerfOptions imports
  PerfRegex
  PerfSource
  Selectors
begin

text \<open>
  \<^verbatim>\<open>crates/lint/src/rules/perfectionist/options.rs\<close>: the options of a sorting rule and what the rules
  ask of them: the group of an element, the comparators of a group, and the blank lines wanted between
  two groups. Group names index the list \<open>groups\<close>; a name in none of them has the index after the last.
\<close>

section \<open>Options\<close>

datatype sort_kind = Alphabetical | Natural | LineLength | CustomOrder | Unsorted | SubgroupOrder

datatype sort_order = Asc | Desc

datatype sort_key_of = ByName | ByValue

datatype special = RemoveSpecial | TrimSpecial | KeepSpecial

datatype sort_by_value = AlwaysByValue | IfNumericEnum | NeverByValue

datatype object_type = Destructured | NonDestructured

record sort_spec =
  so_kind :: sort_kind
  so_order :: sort_order
  so_by :: sort_key_of

record sort_patch =
  sp_kind :: "sort_kind option"
  sp_order :: "sort_order option"
  sp_by :: "sort_key_of option"

definition no_patch :: sort_patch where
  "no_patch = \<lparr>sp_kind = None, sp_order = None, sp_by = None\<rparr>"

definition or_else :: "'a option \<Rightarrow> 'a option \<Rightarrow> 'a option" where
  "or_else x y = (case x of None \<Rightarrow> y | Some _ \<Rightarrow> x)"

definition unwrap_or :: "'a option \<Rightarrow> 'a \<Rightarrow> 'a" where
  "unwrap_or x d = (case x of None \<Rightarrow> d | Some v \<Rightarrow> v)"

definition patch_apply :: "sort_patch \<Rightarrow> sort_spec \<Rightarrow> sort_spec" where
  "patch_apply p s =
     \<lparr>so_kind = unwrap_or (sp_kind p) (so_kind s), so_order = unwrap_or (sp_order p) (so_order s),
      so_by = unwrap_or (sp_by p) (so_by s)\<rparr>"

definition patch_merge :: "sort_patch \<Rightarrow> sort_patch \<Rightarrow> sort_patch" where
  "patch_merge p other =
     \<lparr>sp_kind = or_else (sp_kind other) (sp_kind p), sp_order = or_else (sp_order other) (sp_order p),
      sp_by = or_else (sp_by other) (sp_by p)\<rparr>"

record group_spec =
  gs_sort :: sort_spec
  gs_fallback :: sort_patch

definition fallback_sort :: "group_spec \<Rightarrow> sort_spec" where
  "fallback_sort s = patch_apply (gs_fallback s) (gs_sort s)"

datatype newlines = IgnoreNewlines | CountNewlines u32

datatype inside = IgnoreInside | CountInside u32 | BetweenInside

datatype group_names = OneName string | ManyNames "string list"

fun all_names :: "group_names \<Rightarrow> string list" where
  "all_names (OneName n) = [n]"
| "all_names (ManyNames ns) = ns"

fun names_contain :: "group_names \<Rightarrow> string \<Rightarrow> bool" where
  "names_contain (OneName n) g \<longleftrightarrow> n = g"
| "names_contain (ManyNames ns) g \<longleftrightarrow> g \<in> set ns"

datatype group =
    NamesGroup group_names
  | NewlinesGroup newlines
  | OverrideGroup group_names sort_patch sort_patch "newlines option"

fun names_of :: "group \<Rightarrow> group_names option" where
  "names_of (NamesGroup ns) = Some ns"
| "names_of (OverrideGroup ns _ _ _) = Some ns"
| "names_of (NewlinesGroup _) = None"

definition group_name :: "group \<Rightarrow> string option" where
  "group_name g = (case names_of g of Some (OneName n) \<Rightarrow> Some n | _ \<Rightarrow> None)"

record matcher =
  mt_name :: "regex_option option"
  mt_value :: "regex_option option"
  mt_selector :: "string option"
  mt_modifiers :: "string list option"

definition no_matcher :: matcher where
  "no_matcher = \<lparr>mt_name = None, mt_value = None, mt_selector = None, mt_modifiers = None\<rparr>"

definition matcher_matches :: "matcher \<Rightarrow> string \<Rightarrow> string option \<Rightarrow> string list \<Rightarrow> string list \<Rightarrow> bool" where
  "matcher_matches m name value selectors modifiers =
     (if case mt_selector m of Some s \<Rightarrow> s \<notin> set selectors | None \<Rightarrow> False then False
      else if case mt_modifiers m of Some ms \<Rightarrow> list_ex (\<lambda>x. x \<notin> set modifiers) ms | None \<Rightarrow> False then False
      else if case mt_name m of Some p \<Rightarrow> \<not> regex_matches p name | None \<Rightarrow> False then False
      else case mt_value m of Some p \<Rightarrow> regex_matches p (unwrap_or value []) | None \<Rightarrow> True)"

record custom_group =
  cg_name :: string
  cg_matchers :: "matcher list"
  cg_sort :: sort_patch
  cg_fallback :: sort_patch
  cg_newlines_inside :: "newlines option"

datatype comment_match = MatchBool bool | MatchRegex regex_option

fun comment_match_matches :: "comment_match \<Rightarrow> string \<Rightarrow> bool" where
  "comment_match_matches (MatchBool b) t = b"
| "comment_match_matches (MatchRegex r) t = regex_matches r t"

datatype partition_comment =
    PartitionOff
  | PartitionAny comment_match
  | PartitionSplit "comment_match option" "comment_match option"

definition partition_is_on :: "partition_comment \<Rightarrow> bool" where
  "partition_is_on p \<longleftrightarrow> p \<noteq> PartitionOff"

definition partition_matches :: "partition_comment \<Rightarrow> comment \<Rightarrow> string \<Rightarrow> bool" where
  "partition_matches p c value =
     (if \<not> partition_is_on p \<or> directive_of value \<noteq> None then False
      else
        let trimmed = js_trim value in
        case p of
          PartitionOff \<Rightarrow> False
        | PartitionAny m \<Rightarrow> comment_match_matches m trimmed
        | PartitionSplit block line \<Rightarrow>
            (case (if cm_block c then block else line) of
               None \<Rightarrow> False
             | Some m \<Rightarrow> comment_match_matches m trimmed))"

record use_when =
  wh_all_names :: "regex_option option"
  wh_selector :: "selector option"
  wh_tag :: "regex_option option"
  wh_numeric_keys_only :: "bool option"
  wh_declaration_comment :: "regex_option option"
  wh_declaration :: "regex_option option"
  wh_calling_function :: "regex_option option"
  wh_object_type :: "object_type option"

definition all_names_match :: "use_when \<Rightarrow> string list \<Rightarrow> bool" where
  "all_names_match w ns = (case wh_all_names w of None \<Rightarrow> True | Some p \<Rightarrow> list_all (regex_matches p) ns)"

record text_settings =
  tx_special :: special
  tx_ignore_case :: bool
  tx_alphabet :: "(nat \<times> nat) list"
  tx_collate :: "string \<Rightarrow> string \<Rightarrow> ordering"

record options =
  op_sort :: sort_spec
  op_fallback :: sort_patch
  op_text :: text_settings
  op_partition_comment :: partition_comment
  op_partition_newline :: bool
  op_newlines_between :: newlines
  op_newlines_inside :: inside
  op_groups :: "group list"
  op_custom_groups :: "custom_group list"
  op_group_names :: "string set"
  op_when :: use_when
  op_sort_by_value :: sort_by_value
  op_experimental :: bool
  op_ignore_callback :: "regex_option option"
  op_partition_by_computed_key :: bool
  op_styled_components :: bool

section \<open>Groups\<close>

definition compute_group :: "options \<Rightarrow> string list \<Rightarrow> (matcher \<Rightarrow> bool) \<Rightarrow> string" where
  "compute_group opts predefined accepts =
     (case find (\<lambda>c. cg_name c \<in> op_group_names opts \<and> list_ex accepts (cg_matchers c)) (op_custom_groups opts) of
        Some c \<Rightarrow> cg_name c
      | None \<Rightarrow>
          (case find (\<lambda>g. g \<in> op_group_names opts) predefined of Some g \<Rightarrow> g | None \<Rightarrow> ''unknown''))"

text \<open>\<open>Iterator::position\<close>.\<close>

fun position :: "('a \<Rightarrow> bool) \<Rightarrow> 'a list \<Rightarrow> nat option" where
  "position p [] = None"
| "position p (x # xs) = (if p x then Some 0 else map_option Suc (position p xs))"

definition group_holds :: "string \<Rightarrow> group \<Rightarrow> bool" where
  "group_holds name g = (case names_of g of Some ns \<Rightarrow> names_contain ns name | None \<Rightarrow> False)"

definition group_index :: "options \<Rightarrow> string \<Rightarrow> nat" where
  "group_index opts name = unwrap_or (position (group_holds name) (op_groups opts)) (length (op_groups opts))"

definition group_at :: "options \<Rightarrow> nat \<Rightarrow> group option" where
  "group_at opts i = (if i < length (op_groups opts) then Some (op_groups opts ! i) else None)"

definition custom_named :: "options \<Rightarrow> group option \<Rightarrow> custom_group option" where
  "custom_named opts g =
     Option.bind (Option.bind g group_name) (\<lambda>name. find (\<lambda>c. cg_name c = name) (op_custom_groups opts))"

definition spec_of :: "options \<Rightarrow> nat \<Rightarrow> group_spec" where
  "spec_of opts i =
     (let g = group_at opts i;
          (sort1, fallback1) = (case g of
              Some (OverrideGroup _ patch extra _) \<Rightarrow> (patch_apply patch (op_sort opts), patch_merge (op_fallback opts) extra)
            | _ \<Rightarrow> (op_sort opts, op_fallback opts))
      in case custom_named opts g of
           Some c \<Rightarrow> \<lparr>gs_sort = patch_apply (cg_sort c) sort1, gs_fallback = patch_merge fallback1 (cg_fallback c)\<rparr>
         | None \<Rightarrow> \<lparr>gs_sort = sort1, gs_fallback = fallback1\<rparr>)"

definition holds_subgroup :: "string \<Rightarrow> group \<Rightarrow> bool" where
  "holds_subgroup name g = (case names_of g of Some (ManyNames ns) \<Rightarrow> name \<in> set ns | _ \<Rightarrow> False)"

definition subgroup :: "options \<Rightarrow> string \<Rightarrow> nat option" where
  "subgroup opts name = position (holds_subgroup name) (op_groups opts)"

text \<open>Only asked at an index \<open>subgroup\<close> gave.\<close>

definition subgroup_position :: "options \<Rightarrow> nat \<Rightarrow> string \<Rightarrow> nat" where
  "subgroup_position opts i name =
     (case names_of (op_groups opts ! i) of
        Some (ManyNames ns) \<Rightarrow> unwrap_or (position (\<lambda>n. n = name) ns) 0
      | _ \<Rightarrow> 0)"

section \<open>Blank lines\<close>

definition global_inside :: "options \<Rightarrow> newlines" where
  "global_inside opts =
     (case op_newlines_inside opts of
        BetweenInside \<Rightarrow> if op_newlines_between opts = IgnoreNewlines then IgnoreNewlines else CountNewlines 0
      | IgnoreInside \<Rightarrow> IgnoreNewlines
      | CountInside n \<Rightarrow> CountNewlines n)"

definition newlines_inside :: "options \<Rightarrow> nat \<Rightarrow> newlines" where
  "newlines_inside opts i =
     (case group_at opts i of
        None \<Rightarrow> global_inside opts
      | Some g \<Rightarrow>
          let custom = Option.bind (custom_named opts (Some g)) cg_newlines_inside;
              overridden = (case g of OverrideGroup _ _ _ n \<Rightarrow> n | _ \<Rightarrow> None)
          in unwrap_or (or_else custom overridden) (global_inside opts))"

definition is_newlines_group :: "group \<Rightarrow> bool" where
  "is_newlines_group g = (case g of NewlinesGroup _ \<Rightarrow> True | _ \<Rightarrow> False)"

text \<open>The values the groups from the left one to the right one give, in order.\<close>

fun newline_values :: "newlines \<Rightarrow> group option \<Rightarrow> group list \<Rightarrow> newlines list" where
  "newline_values between prev [] = []"
| "newline_values between prev (g # gs) =
     (case g of
        NewlinesGroup n \<Rightarrow> [n]
      | _ \<Rightarrow> (case prev of
               None \<Rightarrow> []
             | Some p \<Rightarrow> if is_newlines_group p then [] else [between])) @ newline_values between (Some g) gs"

fun newline_counts :: "newlines list \<Rightarrow> u32 list" where
  "newline_counts [] = []"
| "newline_counts (CountNewlines n # vs) = n # newline_counts vs"
| "newline_counts (IgnoreNewlines # vs) = newline_counts vs"

text \<open>\<open>get(left..=right)\<close> is \<open>None\<close> when \<open>right\<close> is the index after the last group.\<close>

definition newlines_between :: "options \<Rightarrow> nat \<Rightarrow> nat \<Rightarrow> newlines" where
  "newlines_between opts left right =
     (if left = right then newlines_inside opts left
      else if right = left + 2 then
        (case group_at opts (left + 1) of Some (NewlinesGroup n) \<Rightarrow> n | _ \<Rightarrow> op_newlines_between opts)
      else if right < left + 2 then op_newlines_between opts
      else
        let relevant = (if right < length (op_groups opts) then take (right + 1 - left) (drop left (op_groups opts)) else []);
            vals = newline_values (op_newlines_between opts) None relevant;
            most = foldr max (newline_counts vals) 0
        in if 1 \<le> most then CountNewlines most
           else if IgnoreNewlines \<in> set vals then IgnoreNewlines
           else CountNewlines 0)"

section \<open>Predefined groups\<close>

function backtrack :: "'a list \<Rightarrow> nat \<Rightarrow> nat \<Rightarrow> 'a list \<Rightarrow> 'a list list" where
  "backtrack items n start chosen =
     (if length chosen = n then [chosen]
      else concat (map (\<lambda>i. backtrack items n (Suc i) (chosen @ [items ! i])) [start..<length items]))"
  by pat_completeness auto
termination
  by (relation "measure (\<lambda>(items, n, start, chosen). length items - start)") auto

definition combinations :: "'a list \<Rightarrow> nat \<Rightarrow> 'a list list" where
  "combinations items n = backtrack items n 0 []"

definition swap :: "nat \<Rightarrow> nat \<Rightarrow> 'a list \<Rightarrow> 'a list" where
  "swap i j xs = xs[i := xs ! j, j := xs ! i]"

lemma length_swap [simp]: "length (swap i j xs) = length xs"
  by (simp add: swap_def)

text \<open>Each branch undoes its swap, so every branch starts from the same items.\<close>

function permute :: "'a list \<Rightarrow> nat \<Rightarrow> 'a list list" where
  "permute items first =
     (if first = length items then [items]
      else concat (map (\<lambda>i. permute (swap first i items) (Suc first)) [first..<length items]))"
  by pat_completeness auto
termination
  by (relation "measure (\<lambda>(items, first). length items - first)") auto

declare backtrack.simps [simp del] permute.simps [simp del]

definition predefined_groups :: "string list \<Rightarrow> string list \<Rightarrow> string list" where
  "predefined_groups selectors modifiers =
     (let permutations = concat (map (\<lambda>n. concat (map (\<lambda>c. permute c 0) (combinations modifiers n)))
            (rev [1..<Suc (length modifiers)]))
      in concat (map (\<lambda>s. map (\<lambda>p. join_with ''-'' p @ ''-'' @ s) permutations @ [s]) selectors))"

end
