(* ===== verification/JsNumbers.thy ===== *)
theory JsNumbers imports
  JsText
begin

text \<open>
  \<^verbatim>\<open>crates/lint/src/rules/perfectionist/jsnum.rs\<close> and \<^verbatim>\<open>natural.rs\<close>: reading and writing numbers the
  way JavaScript does, and the natural order built on them. The arithmetic of \<open>f64\<close>, its decimal
  conversions, \<open>str::to_lowercase\<close>, the collator and the regular expression engine are arguments.
\<close>

section \<open>f64\<close>

datatype float_class = FloatNan | FloatZero | FloatInfinite | FloatFinite

record 'f float_ops =
  f_class :: "'f \<Rightarrow> float_class"
  f_negative :: "'f \<Rightarrow> bool"
  f_infinity :: 'f
  f_of_nat :: "nat \<Rightarrow> 'f"
  f_mul :: "'f \<Rightarrow> 'f \<Rightarrow> 'f"
  f_add :: "'f \<Rightarrow> 'f \<Rightarrow> 'f"
  f_neg :: "'f \<Rightarrow> 'f"
  f_parse :: "string \<Rightarrow> 'f option"
  f_lower_exp :: "'f \<Rightarrow> string"
  f_trunc :: "'f \<Rightarrow> int"
  f_partial_cmp :: "'f \<Rightarrow> 'f \<Rightarrow> ordering option"

section \<open>Reading numbers\<close>

definition digit_value :: "char \<Rightarrow> nat \<Rightarrow> nat option" where
  "digit_value c radix =
     (let n = of_char c :: nat;
          d = (if 48 \<le> n \<and> n \<le> 57 then n - 48
               else if 97 \<le> n \<and> n \<le> 122 then n - 87
               else if 65 \<le> n \<and> n \<le> 90 then n - 55 else radix)
      in if d < radix then Some d else None)"

definition checked_u128 :: "nat \<Rightarrow> nat option" where
  "checked_u128 n = (if n < 2 ^ 128 then Some n else None)"

text \<open>The loop over the digits: the rounded value and, while it fits, the exact one.\<close>

fun integer_from :: "'f float_ops \<Rightarrow> nat \<Rightarrow> 'f \<Rightarrow> nat option \<Rightarrow> string \<Rightarrow> 'f option" where
  "integer_from F radix v exact [] = Some (case exact of Some n \<Rightarrow> f_of_nat F n | None \<Rightarrow> v)"
| "integer_from F radix v exact (c # cs) =
     (case digit_value c radix of
        None \<Rightarrow> None
      | Some d \<Rightarrow>
          integer_from F radix (f_add F (f_mul F v (f_of_nat F radix)) (f_of_nat F d))
            (Option.bind (Option.bind exact (\<lambda>n. checked_u128 (n * radix))) (\<lambda>n. checked_u128 (n + d))) cs)"

definition js_integer :: "'f float_ops \<Rightarrow> string \<Rightarrow> nat \<Rightarrow> 'f option" where
  "js_integer F ds radix = (if ds = [] then None else integer_from F radix (f_of_nat F 0) (Some 0) ds)"

definition count_digits :: "string \<Rightarrow> nat \<Rightarrow> nat" where
  "count_digits bs i = length (takeWhile is_digit (drop i bs))"

definition byte_at :: "string \<Rightarrow> nat \<Rightarrow> char option" where
  "byte_at bs i = (if i < length bs then Some (bs ! i) else None)"

definition exponent_ends :: "string \<Rightarrow> nat \<Rightarrow> bool" where
  "exponent_ends bs i =
     (if byte_at bs i = Some (CHR ''e'') \<or> byte_at bs i = Some (CHR ''E'') then
        let i1 = i + 1;
            i2 = (if byte_at bs i1 = Some (CHR ''+'') \<or> byte_at bs i1 = Some (CHR ''-'') then i1 + 1 else i1);
            n = count_digits bs i2
        in n \<noteq> 0 \<and> i2 + n = length bs
      else i = length bs)"

definition js_decimal :: "string \<Rightarrow> bool" where
  "js_decimal bs =
     (let int = count_digits bs 0;
          point = byte_at bs int = Some (CHR ''.'');
          frac = (if point then count_digits bs (int + 1) else 0);
          i = (if point then int + 1 + frac else int)
      in if int = 0 \<and> frac = 0 then False else exponent_ends bs i)"

definition str_get_to :: "string \<Rightarrow> nat \<Rightarrow> string option" where
  "str_get_to s n = str_slice s 0 n"

definition radix_of :: "string \<Rightarrow> nat option" where
  "radix_of t =
     (case map_option to_ascii_lowercase (str_get_to t 2) of
        None \<Rightarrow> None
      | Some p \<Rightarrow>
          if p = ''0x'' then Some 16 else if p = ''0o'' then Some 8 else if p = ''0b'' then Some 2 else None)"

definition js_parse :: "'f float_ops \<Rightarrow> string \<Rightarrow> 'f option" where
  "js_parse F s =
     (let t = js_trim s in
      if t = [] then Some (f_of_nat F 0)
      else case radix_of t of
        Some radix \<Rightarrow> js_integer F (drop 2 t) radix
      | None \<Rightarrow>
          let negative = hd t = CHR ''-'';
              unsigned = (if hd t = CHR ''+'' \<or> negative then tl t else t);
              sign = (if negative then f_neg F (f_of_nat F 1) else f_of_nat F 1)
          in if unsigned = ''Infinity'' then Some (f_mul F sign (f_infinity F))
             else if js_decimal unsigned then map_option (f_mul F sign) (f_parse F unsigned)
             else None)"

section \<open>Writing numbers\<close>

text \<open>\<open>str::parse::<i64>\<close>.\<close>

definition parse_i64 :: "string \<Rightarrow> int option" where
  "parse_i64 s =
     (let negative = prefix ''-'' s;
          ds = (if negative \<or> prefix ''+'' s then tl s else s);
          v = (if negative then - int (digits_value ds) else int (digits_value ds))
      in if ds \<noteq> [] \<and> list_all is_digit ds \<and> - (2 ^ 63) \<le> v \<and> v < 2 ^ 63 then Some v else None)"

text \<open>
  The layout of the digits \<open>d\<^sub>1d\<^sub>2\<dots>d\<^sub>k\<close> of the value \<open>0.d\<^sub>1d\<^sub>2\<dots>d\<^sub>k * 10\<^sup>n\<close>, as \<open>Number#toString\<close> prescribes.
\<close>

definition number_body :: "string \<Rightarrow> int \<Rightarrow> string" where
  "number_body digits n =
     (let k = int (length digits) in
      if k \<le> n \<and> n \<le> 21 then digits @ replicate (nat (n - k)) (CHR ''0'')
      else if 0 < n \<and> n \<le> 21 then take (nat n) digits @ ''.'' @ drop (nat n) digits
      else if -6 < n \<and> n \<le> 0 then ''0.'' @ replicate (nat (- n)) (CHR ''0'') @ digits
      else
        let sign = (if n - 1 < 0 then ''-'' else ''+'');
            rest = drop 1 digits
        in take 1 digits @ (if rest = [] then [] else ''.'' @ rest) @ ''e'' @ sign @ decimal (nat (abs (n - 1))))"

definition js_format :: "'f float_ops \<Rightarrow> 'f \<Rightarrow> string" where
  "js_format F v =
     (case f_class F v of
        FloatNan \<Rightarrow> ''NaN''
      | FloatZero \<Rightarrow> ''0''
      | FloatInfinite \<Rightarrow> if f_negative F v then ''-Infinity'' else ''Infinity''
      | FloatFinite \<Rightarrow>
          let scientific = f_lower_exp F v;
              (mantissa, exponent) = (case split_once (CHR ''e'') scientific of Some p \<Rightarrow> p | None \<Rightarrow> (scientific, ''0''));
              digits = filter is_digit mantissa;
              n = (case parse_i64 exponent of Some e \<Rightarrow> e | None \<Rightarrow> 0) + 1
          in (if f_negative F v then ''-'' else []) @ number_body digits n)"

definition js_uint32 :: "'f float_ops \<Rightarrow> 'f \<Rightarrow> u32" where
  "js_uint32 F v =
     (if f_class F v = FloatNan \<or> f_class F v = FloatInfinite then 0
      else word_of_int (f_trunc F v mod 4294967296))"

definition js_int32 :: "'f float_ops \<Rightarrow> 'f \<Rightarrow> int" where
  "js_int32 F v = sint (js_uint32 F v)"

text \<open>
  \<^verbatim>\<open>crates/lint/src/rules/perfectionist/natural.rs\<close>: the natural order of two strings. A string that is
  a number compares as one; others are cut into runs of digits and the text between them and compare
  chunk by chunk.
\<close>

record 'f natural_ops =
  nt_float :: "'f float_ops"
  nt_lower :: "string \<Rightarrow> string"
  nt_numbers :: "string \<Rightarrow> (nat \<times> nat) list"
  nt_collate :: "string \<Rightarrow> string \<Rightarrow> ordering"

record 'f chunk =
  ck_number :: "'f option"
  ck_text :: string

record 'f natural_record =
  nr_number :: "'f option"
  nr_chunks :: "'f chunk list"

definition parse_number :: "'f float_ops \<Rightarrow> string \<Rightarrow> 'f option" where
  "parse_number F v = (if v = [] then None else js_parse F (filter (\<lambda>c. c \<noteq> CHR ''_'') v))"

text \<open>The marks around the numbers found, as \<open>replace(NUMBERS, "\0$1\0")\<close> writes them.\<close>

fun mark_numbers :: "string \<Rightarrow> nat \<Rightarrow> (nat \<times> nat) list \<Rightarrow> string" where
  "mark_numbers v at_end [] = drop at_end v"
| "mark_numbers v at_end ((a, b) # fs) =
     span v at_end a @ [CHR 0x00] @ span v a b @ [CHR 0x00] @ mark_numbers v b fs"

definition strip_marks :: "string \<Rightarrow> string" where
  "strip_marks m =
     (let m1 = (case strip_suffix [CHR 0x00] m of Some t \<Rightarrow> t | None \<Rightarrow> m) in
      case strip_prefix [CHR 0x00] m1 of Some t \<Rightarrow> t | None \<Rightarrow> m1)"

text \<open>The patterns \<open>INT_OR_FLOAT\<close> and \<open>LEADING_ZERO\<close>.\<close>

definition int_or_float :: "string \<Rightarrow> bool" where
  "int_or_float p = js_decimal (if prefix ''+'' p \<or> prefix ''-'' p then tl p else p)"

definition leading_zero :: "string \<Rightarrow> bool" where
  "leading_zero p =
     (let rest = dropWhile (\<lambda>c. c = CHR ''0'') p in prefix ''0'' p \<and> rest \<noteq> [] \<and> list_all is_digit rest)"

definition chunk_of :: "'f float_ops \<Rightarrow> string list \<Rightarrow> nat \<Rightarrow> string \<Rightarrow> 'f chunk" where
  "chunk_of F parts index part =
     (let numeric = int_or_float part \<and> (\<not> leading_zero part \<or> index = 0 \<or> parts ! (index - 1) \<noteq> ''.'');
          value = (case parse_number F part of
              Some n \<Rightarrow> if f_class F n = FloatZero then f_of_nat F 0 else n
            | None \<Rightarrow> f_of_nat F 0)
      in \<lparr>ck_number = (if numeric then Some value else None), ck_text = squeeze_js_space part\<rparr>)"

definition chunks_of :: "'f natural_ops \<Rightarrow> string \<Rightarrow> 'f chunk list" where
  "chunks_of N v =
     (let parts = split_on (CHR 0x00) (strip_marks (mark_numbers v 0 (nt_numbers N v)))
      in map (\<lambda>(i, p). chunk_of (nt_float N) parts i p) (List.enumerate 0 parts))"

definition natural_record :: "'f natural_ops \<Rightarrow> string \<Rightarrow> 'f natural_record" where
  "natural_record N v =
     (let F = nt_float N;
          t = js_trim (nt_lower N v);
          number = parse_number F t;
          source = (case number of
              Some n \<Rightarrow> if f_class F n \<noteq> FloatZero then js_format F n else t
            | None \<Rightarrow> t)
      in \<lparr>nr_number = number, nr_chunks = chunks_of N source\<rparr>)"

definition compare_numbers :: "'f float_ops \<Rightarrow> 'f \<Rightarrow> 'f \<Rightarrow> ordering" where
  "compare_numbers F a b = (case f_partial_cmp F a b of Some r \<Rightarrow> r | None \<Rightarrow> Same)"

definition beyond_ascii :: "string \<Rightarrow> bool" where
  "beyond_ascii s \<longleftrightarrow> list_ex (\<lambda>c. 128 < code_point c) (str_chars s)"

definition compare_chunk :: "'f natural_ops \<Rightarrow> 'f chunk \<Rightarrow> 'f chunk \<Rightarrow> ordering" where
  "compare_chunk N x y =
     (if (ck_text x = []) \<noteq> (ck_text y = []) then if ck_text x = [] then Smaller else Larger
      else case (ck_number x, ck_number y) of
        (Some m, Some n) \<Rightarrow> then_with (compare_numbers (nt_float N) m n) (compare_units (ck_text x) (ck_text y))
      | (Some _, None) \<Rightarrow> Smaller
      | (None, Some _) \<Rightarrow> Larger
      | (None, None) \<Rightarrow>
          if beyond_ascii (ck_text x) \<or> beyond_ascii (ck_text y) then nt_collate N (ck_text x) (ck_text y)
          else compare_units (ck_text x) (ck_text y))"

fun compare_chunks :: "'f natural_ops \<Rightarrow> 'f chunk list \<Rightarrow> 'f chunk list \<Rightarrow> ordering" where
  "compare_chunks N (x # xs) (y # ys) =
     (if ck_text x = ck_text y then compare_chunks N xs ys else compare_chunk N x y)"
| "compare_chunks N [] [] = Same"
| "compare_chunks N [] (y # ys) = Smaller"
| "compare_chunks N (x # xs) [] = Larger"

definition natural_compare :: "'f natural_ops \<Rightarrow> string \<Rightarrow> string \<Rightarrow> ordering" where
  "natural_compare N a b =
     (if a = b then Same
      else
        let ra = natural_record N a;
            rb = natural_record N b
        in case (nr_number ra, nr_number rb) of
             (Some x, Some y) \<Rightarrow> compare_numbers (nt_float N) x y
           | _ \<Rightarrow> compare_chunks N (nr_chunks ra) (nr_chunks rb))"

end
