(* ===== verification/PerfSort.thy ===== *)
theory PerfSort imports
  PerfOptions
  JsNumbers
begin

text \<open>
  \<^verbatim>\<open>crates/lint/src/rules/perfectionist/sort.rs\<close>: the comparators of the sorting rules, the merge sort
  that orders a partition, group by group, and the ordering by dependencies. Nodes are indexes into the
  items of a rule. \<open>str::to_lowercase\<close>, the engine behind two patterns and the collator are arguments.
\<close>

section \<open>Items\<close>

record 'f item =
  it_span :: source_span
  it_name :: string
  it_value :: string
  it_numeric :: "'f option"
  it_size :: u32
  it_group :: string
  it_partition :: nat
  it_disabled :: bool
  it_semicolon :: bool
  it_dependency_names :: "string list"
  it_dependencies :: "string list"

datatype mode = NameMode | NameOrValueMode | EnumMode sort_by_value bool

text \<open>\<open>REMOVE\<close> and \<open>TRIM\<close>, the patterns of characters other than letters: all their matches, or the first.\<close>

record 'f sort_env =
  se_natural :: "'f natural_ops"
  se_nan :: 'f
  se_remove :: "string \<Rightarrow> string"
  se_trim :: "string \<Rightarrow> string"

definition format_text :: "'f sort_env \<Rightarrow> text_settings \<Rightarrow> string \<Rightarrow> string" where
  "format_text E tx value =
     (let lowered = (if tx_ignore_case tx then nt_lower (se_natural E) value else value);
          replaced = (case tx_special tx of
              RemoveSpecial \<Rightarrow> se_remove E lowered
            | TrimSpecial \<Rightarrow> se_trim E lowered
            | KeepSpecial \<Rightarrow> lowered)
      in remove_js_space replaced)"

section \<open>Comparators\<close>

definition ordered :: "ordering \<Rightarrow> sort_order \<Rightarrow> ordering" where
  "ordered r d = (case d of Asc \<Rightarrow> r | Desc \<Rightarrow> reverse_ordering r)"

text \<open>\<open>compareByCustomSort\<close>: by alphabet index of each UTF-16 unit, then by length.\<close>

fun compare_letters :: "(nat \<Rightarrow> nat option) \<Rightarrow> nat list \<Rightarrow> nat list \<Rightarrow> ordering option" where
  "compare_letters index (x # xs) (y # ys) =
     (if index x \<noteq> index y
      then Some (if (case (index x, index y) of
                       (Some i, Some j) \<Rightarrow> j < i
                     | (None, _) \<Rightarrow> True
                     | (Some _, None) \<Rightarrow> False) then Larger else Smaller)
      else compare_letters index xs ys)"
| "compare_letters index _ _ = None"

definition custom_compare :: "text_settings \<Rightarrow> string \<Rightarrow> string \<Rightarrow> ordering" where
  "custom_compare tx a b =
     (let ua = encode_utf16 a; ub = encode_utf16 b in
      case compare_letters (map_of (tx_alphabet tx)) ua ub of
        Some r \<Rightarrow> r
      | None \<Rightarrow> ord_cmp (length ua) (length ub))"

definition natural_of :: "'f sort_env \<Rightarrow> text_settings \<Rightarrow> 'f natural_ops" where
  "natural_of E tx = (se_natural E)\<lparr>nt_collate := tx_collate tx\<rparr>"

definition key_of :: "sort_key_of \<Rightarrow> 'f item \<Rightarrow> string" where
  "key_of b i = (case b of ByName \<Rightarrow> it_name i | ByValue \<Rightarrow> it_value i)"

definition by_key :: "'f sort_env \<Rightarrow> options \<Rightarrow> sort_spec \<Rightarrow> sort_key_of \<Rightarrow> 'f item \<Rightarrow> 'f item \<Rightarrow> ordering" where
  "by_key E opts s b x y =
     (let tx = op_text opts;
          fx = format_text E tx (key_of b x);
          fy = format_text E tx (key_of b y)
      in case so_kind s of
        Unsorted \<Rightarrow> Same
      | SubgroupOrder \<Rightarrow>
          (case (subgroup opts (it_group x), subgroup opts (it_group y)) of
             (Some i, Some j) \<Rightarrow>
               if i \<noteq> j then Same
               else ordered (ord_cmp (subgroup_position opts i (it_group x)) (subgroup_position opts j (it_group y))) (so_order s)
           | _ \<Rightarrow> Same)
      | LineLength \<Rightarrow> ordered (ord_cmp (it_size x) (it_size y)) (so_order s)
      | Alphabetical \<Rightarrow> ordered (tx_collate tx fx fy) (so_order s)
      | Natural \<Rightarrow> ordered (natural_compare (natural_of E tx) fx fy) (so_order s)
      | CustomOrder \<Rightarrow> ordered (custom_compare tx fx fy) (so_order s))"

definition by_number :: "'f sort_env \<Rightarrow> options \<Rightarrow> sort_spec \<Rightarrow> 'f item \<Rightarrow> 'f item \<Rightarrow> ordering" where
  "by_number E opts s x y =
     (case so_kind s of
        SubgroupOrder \<Rightarrow> by_key E opts s ByName x y
      | Unsorted \<Rightarrow> Same
      | _ \<Rightarrow>
          let tx = op_text opts;
              F = nt_float (se_natural E);
              number = (\<lambda>i. format_text E tx (js_format F (unwrap_or (it_numeric i) (se_nan E))))
          in ordered (natural_compare (natural_of E tx) (number x) (number y)) (so_order s))"

definition compare_items :: "'f sort_env \<Rightarrow> options \<Rightarrow> mode \<Rightarrow> sort_spec \<Rightarrow> 'f item \<Rightarrow> 'f item \<Rightarrow> ordering" where
  "compare_items E opts md s x y =
     (case md of
        NameMode \<Rightarrow> by_key E opts s ByName x y
      | NameOrValueMode \<Rightarrow> by_key E opts s (so_by s) x y
      | EnumMode by_value numeric \<Rightarrow>
          if numeric \<and> (by_value = IfNumericEnum \<or> by_value = AlwaysByValue) then by_number E opts s x y
          else if by_value = AlwaysByValue then by_key E opts s ByValue x y
          else by_key E opts s ByName x y)"

section \<open>Merge sort\<close>

text \<open>Two sorted halves: an element of the second goes first only when it compares smaller.\<close>

fun merge_halves :: "('a \<Rightarrow> 'a \<Rightarrow> ordering) \<Rightarrow> 'a list \<Rightarrow> 'a list \<Rightarrow> 'a list" where
  "merge_halves cmp (x # xs) (y # ys) =
     (if cmp y x = Smaller then y # merge_halves cmp (x # xs) ys else x # merge_halves cmp xs (y # ys))"
| "merge_halves cmp [] ys = ys"
| "merge_halves cmp xs [] = xs"

function merge_sort :: "('a \<Rightarrow> 'a \<Rightarrow> ordering) \<Rightarrow> 'a list \<Rightarrow> 'a list" where
  "merge_sort cmp xs =
     (if length xs < 2 then xs
      else
        let middle = length xs div 2
        in merge_halves cmp (merge_sort cmp (take middle xs)) (merge_sort cmp (drop middle xs)))"
  by pat_completeness auto
termination
  by (relation "measure (\<lambda>(cmp, xs). length xs)") auto

declare merge_sort.simps [simp del]

section \<open>Nodes and groups\<close>

text \<open>\<open>Vec::insert\<close> at an index clipped to the length.\<close>

definition insert_at :: "nat \<Rightarrow> 'a \<Rightarrow> 'a list \<Rightarrow> 'a list" where
  "insert_at i x xs = take (min i (length xs)) xs @ x # drop (min i (length xs)) xs"

definition put_back :: "(nat \<times> 'a) list \<Rightarrow> 'a list \<Rightarrow> 'a list" where
  "put_back ps kept = fold (\<lambda>(i, x). insert_at i x) ps kept"

definition compare_nodes :: "'f sort_env \<Rightarrow> options \<Rightarrow> mode \<Rightarrow> 'f item list \<Rightarrow> group_spec \<Rightarrow> nat \<Rightarrow> nat \<Rightarrow> ordering" where
  "compare_nodes E opts md items spec a b =
     then_with (compare_items E opts md (gs_sort spec) (items ! a) (items ! b))
       (compare_items E opts md (fallback_sort spec) (items ! a) (items ! b))"

definition sort_nodes :: "'f sort_env \<Rightarrow> options \<Rightarrow> mode \<Rightarrow> 'f item list \<Rightarrow> nat list \<Rightarrow> group_spec \<Rightarrow>
    (nat \<Rightarrow> bool) \<Rightarrow> nat list" where
  "sort_nodes E opts md items nodes spec ignored =
     (let kept = filter (\<lambda>n. \<not> ignored n) nodes;
          sorted = (if so_kind (gs_sort spec) = Unsorted then kept
                    else merge_sort (compare_nodes E opts md items spec) kept)
      in put_back (filter (\<lambda>(i, n). ignored n) (List.enumerate 0 nodes)) sorted)"

text \<open>The buckets of a \<open>BTreeMap\<close>: in the order of their keys, each in the order of insertion.\<close>

definition buckets_of :: "(nat \<Rightarrow> nat) \<Rightarrow> nat list \<Rightarrow> (nat \<times> nat list) list" where
  "buckets_of key nodes =
     map (\<lambda>k. (k, filter (\<lambda>n. key n = k) nodes)) (sorted_list_of_set (key ` set nodes))"

definition sort_by_groups :: "'f sort_env \<Rightarrow> options \<Rightarrow> mode \<Rightarrow> 'f item list \<Rightarrow> nat list \<Rightarrow> bool \<Rightarrow>
    (group_spec \<Rightarrow> 'f item \<Rightarrow> bool) \<Rightarrow> nat list" where
  "sort_by_groups E opts md items nodes ignore_disabled ignored_in_group =
     (let fixed = (\<lambda>n. ignore_disabled \<and> it_disabled (items ! n));
          placed = filter (\<lambda>n. \<not> fixed n) nodes;
          sorted = concat (map (\<lambda>(k, bucket).
              let spec = spec_of opts k
              in sort_nodes E opts md items bucket spec (\<lambda>n. n \<in> set bucket \<and> ignored_in_group spec (items ! n)))
            (buckets_of (\<lambda>n. group_index opts (it_group (items ! n))) placed))
      in put_back (filter (\<lambda>(i, n). fixed n) (List.enumerate 0 nodes)) sorted)"

section \<open>Dependencies\<close>

definition depends :: "'f item list \<Rightarrow> nat \<Rightarrow> nat \<Rightarrow> bool" where
  "depends items a b \<longleftrightarrow>
     a \<noteq> b \<and> list_ex (\<lambda>name. name \<in> set (it_dependencies (items ! b))) (it_dependency_names (items ! a))"

text \<open>The node an element's dependency stands for: the first other one with that name.\<close>

definition provider :: "'f item list \<Rightarrow> nat list \<Rightarrow> nat \<Rightarrow> string \<Rightarrow> nat option" where
  "provider items nodes element dependency =
     find (\<lambda>n. n \<noteq> element \<and> dependency \<in> set (it_dependency_names (items ! n))) nodes"

definition providers :: "'f item list \<Rightarrow> nat list \<Rightarrow> nat \<Rightarrow> nat list" where
  "providers items nodes element = List.map_filter (provider items nodes element) (it_dependencies (items ! element))"

record search =
  sr_cycles :: "nat set"
  sr_visited :: "nat set"

lemma card_unvisited_less:
  "x \<notin> V \<Longrightarrow> x \<in> A \<Longrightarrow> finite A \<Longrightarrow> card (A - insert x V) < card (A - V)"
  by (rule psubset_card_mono) auto

text \<open>
  The search for cycles. The set \<open>visiting\<close> of the code always holds the elements of the path, so the
  path stands for both. \<open>circular_visit\<close> visits one element of \<open>nodes\<close>, \<open>circular_each\<close> its dependencies
  one after the other.
\<close>

function circular_visit :: "'f item list \<Rightarrow> nat list \<Rightarrow> nat \<Rightarrow> nat list \<Rightarrow> search \<Rightarrow> search"
  and circular_each :: "'f item list \<Rightarrow> nat list \<Rightarrow> nat list \<Rightarrow> nat list \<Rightarrow> search \<Rightarrow> search" where
  "circular_visit items nodes element path st =
     (if element \<in> sr_visited st then st
      else if element \<in> set path
      then st\<lparr>sr_cycles := sr_cycles st \<union> set (dropWhile (\<lambda>n. n \<noteq> element) path)\<rparr>
      else if element \<notin> set nodes then st
      else
        let st' = circular_each items nodes (providers items nodes element) (path @ [element]) st
        in st'\<lparr>sr_visited := insert element (sr_visited st')\<rparr>)"
| "circular_each items nodes [] path st = st"
| "circular_each items nodes (e # es) path st =
     circular_each items nodes es path (circular_visit items nodes e path st)"
  by pat_completeness auto
termination
  by (relation "measures [\<lambda>x. case x of
        Inl (items, nodes, element, path, st) \<Rightarrow> card (set nodes - set path)
      | Inr (items, nodes, es, path, st) \<Rightarrow> card (set nodes - set path),
      \<lambda>x. case x of
        Inl (items, nodes, element, path, st) \<Rightarrow> 0
      | Inr (items, nodes, es, path, st) \<Rightarrow> Suc (length es)]")
    (simp_all add: card_unvisited_less del: card_Diff_insert)

declare circular_visit.simps [simp del]

definition circular :: "'f item list \<Rightarrow> nat list \<Rightarrow> nat set" where
  "circular items nodes =
     sr_cycles (circular_each items nodes nodes [] \<lparr>sr_cycles = {}, sr_visited = {}\<rparr>)"

text \<open>What a node waits for: the others it depends on outside cycles, in the order of the nodes.\<close>

definition awaited :: "'f item list \<Rightarrow> nat list \<Rightarrow> bool \<Rightarrow> nat \<Rightarrow> nat list" where
  "awaited items nodes ignore_disabled node =
     filter (\<lambda>other. other \<notin> circular items nodes \<and> depends items other node \<and>
       (\<not> ignore_disabled \<or> \<not> it_disabled (items ! other))) nodes"

text \<open>The state: the nodes visited, and the order found. The nodes being visited are an argument.\<close>

type_synonym placing = "nat set \<times> nat list"

function place_node :: "(nat \<Rightarrow> nat list) \<Rightarrow> nat list \<Rightarrow> nat set \<Rightarrow> nat \<Rightarrow> placing \<Rightarrow> placing"
  and place_each :: "(nat \<Rightarrow> nat list) \<Rightarrow> nat list \<Rightarrow> nat set \<Rightarrow> nat list \<Rightarrow> placing \<Rightarrow> placing" where
  "place_node needs nodes visiting node st =
     (if node \<in> fst st \<or> node \<in> visiting then st
      else if node \<notin> set nodes then st
      else
        let (visited, out) = place_each needs nodes (insert node visiting) (needs node) st
        in (insert node visited, out @ [node]))"
| "place_each needs nodes visiting [] st = st"
| "place_each needs nodes visiting (n # ns) st =
     place_each needs nodes visiting ns (place_node needs nodes visiting n st)"
  by pat_completeness auto
termination
  by (relation "measures [\<lambda>x. case x of
        Inl (needs, nodes, visiting, node, st) \<Rightarrow> card (set nodes - visiting)
      | Inr (needs, nodes, visiting, ns, st) \<Rightarrow> card (set nodes - visiting),
      \<lambda>x. case x of
        Inl (needs, nodes, visiting, node, st) \<Rightarrow> 0
      | Inr (needs, nodes, visiting, ns, st) \<Rightarrow> Suc (length ns)]")
    (simp_all add: card_unvisited_less del: card_Diff_insert)

declare place_node.simps [simp del]

definition sort_by_dependencies :: "'f item list \<Rightarrow> nat list \<Rightarrow> bool \<Rightarrow> nat list" where
  "sort_by_dependencies items nodes ignore_disabled =
     snd (place_each (awaited items nodes ignore_disabled) nodes {} nodes ({}, []))"

end
