(* ===== verification/PerfReport.thy ===== *)
theory PerfReport imports
  PerfSort
  Edits
begin

text \<open>
  \<^verbatim>\<open>crates/lint/src/rules/perfectionist/report.rs\<close>: what is reported about a partition and the fix each
  report carries. The edits that reorder the nodes, move their comments and set the blank lines become
  one edit. \<open>None\<close> is a loop of \<open>PerfSource\<close> that would not end. The partitioning of
  \<^verbatim>\<open>perfectionist/mod.rs\<close> stands here too.
\<close>

section \<open>Messages\<close>

record messages =
  ms_order :: string
  ms_group_order :: string
  ms_extra_spacing :: string
  ms_missed_spacing :: string
  ms_dependency_order :: "string option"

record problem =
  pb_span :: source_span
  pb_message :: string
  pb_fix :: "edit list"

record 'f report =
  rp_src :: src
  rp_options :: options
  rp_items :: "'f item list"
  rp_messages :: messages
  rp_partition_comment :: partition_comment

text \<open>Two or more white space characters in a row (\<^verbatim>\<open>\s{2,}\<close>) become a space.\<close>

function squeeze_runs :: "string list \<Rightarrow> string" where
  "squeeze_runs [] = []"
| "squeeze_runs (c # cs) =
     (if is_js_space c \<and> takeWhile is_js_space cs \<noteq> [] then '' '' @ squeeze_runs (dropWhile is_js_space cs)
      else c @ squeeze_runs cs)"
  by pat_completeness auto
termination
  by (relation "measure length") (auto simp: le_imp_less_Suc length_dropWhile_le)

definition single_line :: "string \<Rightarrow> string" where
  "single_line t = js_trim (squeeze_runs (str_chars t))"

definition message_for :: "'f report \<Rightarrow> string \<Rightarrow> nat option \<Rightarrow> nat \<Rightarrow> nat option \<Rightarrow> string" where
  "message_for R mid left right unordered =
     (let items = rp_items R; ms = rp_messages R;
          left_name = single_line (case left of Some l \<Rightarrow> it_name (items ! l) | None \<Rightarrow> []);
          right_name = single_line (it_name (items ! right))
      in if Some mid = ms_dependency_order ms then
           ''Expected dependency '' @ quoted right_name @ '' to come before '' @
           quoted (case unordered of Some n \<Rightarrow> it_name (items ! n) | None \<Rightarrow> []) @ ''.''
         else if mid = ms_group_order ms then
           ''Expected '' @ quoted right_name @ '' ('' @ it_group (items ! right) @ '') to come before '' @ quoted left_name @
           '' ('' @ (case left of Some l \<Rightarrow> it_group (items ! l) | None \<Rightarrow> ''undefined'') @ '').''
         else if mid = ms_extra_spacing ms then
           ''Extra spacing between '' @ quoted left_name @ '' and '' @ quoted right_name @ ''.''
         else if mid = ms_missed_spacing ms then
           ''Missed spacing between '' @ quoted left_name @ '' and '' @ quoted right_name @ ''.''
         else ''Expected '' @ quoted right_name @ '' to come before '' @ quoted left_name @ ''.'')"

definition newline_error :: "'f report \<Rightarrow> nat \<Rightarrow> nat \<Rightarrow> nat \<Rightarrow> nat \<Rightarrow> string option" where
  "newline_error R left right left_group right_group =
     (let items = rp_items R in
      if right_group < left_group \<or> it_partition (items ! left) \<noteq> it_partition (items ! right) then None
      else case newlines_between (rp_options R) left_group right_group of
        IgnoreNewlines \<Rightarrow> None
      | CountNewlines wanted \<Rightarrow>
          (case ord_cmp (blank_lines_between (rp_src R) (sp_end (it_span (items ! left))) (sp_start (it_span (items ! right)))) wanted of
             Smaller \<Rightarrow> Some (ms_missed_spacing (rp_messages R))
           | Larger \<Rightarrow> Some (ms_extra_spacing (rp_messages R))
           | Same \<Rightarrow> None))"

section \<open>Ranges\<close>

text \<open>The comments directly above a node, the closest first, until one that stays where it is.\<close>

fun range_start :: "src \<Rightarrow> partition_comment \<Rightarrow> u32 \<Rightarrow> u32 \<Rightarrow> comment list \<Rightarrow> u32" where
  "range_start S pc anchor start [] = start"
| "range_start S pc anchor start (c # cs) =
     (let value = comment_value S c; kind = map_option fst (directive_of value) in
      if partition_matches pc c value \<or> kind = Some Disable \<or> kind = Some Enable then start
      else if src_line S (sp_end (cm_span c)) + 1 \<noteq> anchor then start
      else range_start S pc (src_line S (sp_start (cm_span c))) (min start (sp_start (cm_span c))) cs)"

definition node_range :: "src \<Rightarrow> source_span \<Rightarrow> partition_comment \<Rightarrow> (u32 \<times> u32) option" where
  "node_range S sp pc = do {
     comments \<leftarrow> relevant_comments_before S (sp_start sp);
     Some (range_start S pc (src_line S (sp_start sp)) (sp_start sp) (rev comments), sp_end sp) }"

definition last_char_in :: "string \<Rightarrow> string \<Rightarrow> bool" where
  "last_char_in t cs \<longleftrightarrow> t \<noteq> [] \<and> last t \<in> set cs"

text \<open>The rule's \<open>size\<close> of a node: its length without a trailing comma or semicolon.\<close>

definition size_of :: "src \<Rightarrow> source_span \<Rightarrow> u32" where
  "size_of S sp = (sp_end sp - sp_start sp) - (if last_char_in (text_of S sp) '',;'' then 1 else 0)"

definition should_partition :: "src \<Rightarrow> partition_comment \<Rightarrow> bool \<Rightarrow> source_span option \<Rightarrow> source_span \<Rightarrow> bool option" where
  "should_partition S pc newline_on previous sp = do {
     by_comment \<leftarrow>
       (if partition_is_on pc
        then map_option (list_ex (\<lambda>c. partition_matches pc c (comment_value S c))) (relevant_comments_before S (sp_start sp))
        else Some False);
     Some (by_comment \<or> (newline_on \<and>
       (case previous of None \<Rightarrow> False | Some p \<Rightarrow> 0 < blank_lines_between S (sp_end p) (sp_start sp)))) }"

definition is_node_disabled :: "src \<Rightarrow> u32 set \<Rightarrow> source_span \<Rightarrow> bool" where
  "is_node_disabled S disabled sp \<longleftrightarrow> src_line S (sp_start sp) \<in> disabled"

section \<open>Order fixes\<close>

definition char_is_in :: "string option \<Rightarrow> string list \<Rightarrow> bool" where
  "char_is_in c cs = (case c of None \<Rightarrow> False | Some x \<Rightarrow> x \<in> set cs)"

definition order_fix :: "'f report \<Rightarrow> nat \<Rightarrow> nat \<Rightarrow> edit option" where
  "order_fix R n m = do {
     let S = rp_src R;
     let node = rp_items R ! n;
     let sorted_node = rp_items R ! m;
     (a, b) \<leftarrow> node_range S (it_span sorted_node) (rp_partition_comment R);
     next_at \<leftarrow> token_after S (sp_end (it_span node));
     let safe_end = last_char_in (text_of S (it_span sorted_node)) '';,'';
     let same_line = (case next_at of None \<Rightarrow> False | Some p \<Rightarrow> src_line S p = src_line S (sp_end (it_span node)));
     let next_safe = char_is_in (Option.bind next_at (char_at S)) ['';'', '','' ];
     let code = src_slice S a b @ (if it_semicolon sorted_node \<and> \<not> safe_end \<and> \<not> next_safe \<and> same_line then '';'' else []);
     (start, stop) \<leftarrow> node_range S (it_span node) (rp_partition_comment R);
     Some (new_edit start stop code) }"

fun collect_fixes :: "(nat \<Rightarrow> nat \<Rightarrow> 'e list option) \<Rightarrow> nat list \<Rightarrow> nat list \<Rightarrow> 'e list option" where
  "collect_fixes f (n # ns) (m # ms) =
     (if n = m then collect_fixes f ns ms
      else do { es \<leftarrow> f n m; rest \<leftarrow> collect_fixes f ns ms; Some (es @ rest) })"
| "collect_fixes f _ _ = Some []"

definition order_fixes :: "'f report \<Rightarrow> nat list \<Rightarrow> nat list \<Rightarrow> edit list option" where
  "order_fixes R = collect_fixes (\<lambda>n m. map_option (\<lambda>e. [e]) (order_fix R n m))"

section \<open>Comment fixes\<close>

text \<open>The comment after a span's punctuation: from a position on, past white space and \<open>,\<close> \<open>;\<close> \<open>:\<close>.\<close>

partial_function (option) comment_after_from :: "src \<Rightarrow> source_span \<Rightarrow> u32 \<Rightarrow> source_span option option" where
  "comment_after_from S sp pos =
     (case str_tail (src_text S) (unat pos) of
        None \<Rightarrow> Some None
      | Some rest \<Rightarrow>
          let p = pos + saturate_u32 (length rest - length (js_trim_start rest)) in
          case comment_at S p of
            Some c \<Rightarrow> Some (if src_line S (sp_end (cm_span c)) = src_line S (sp_end sp) then Some (cm_span c) else None)
          | None \<Rightarrow>
              if char_is_in (char_at S p) ['','', '';'', '':''] then comment_after_from S sp (p + 1)
              else Some None)"

definition comment_after :: "src \<Rightarrow> source_span \<Rightarrow> source_span option option" where
  "comment_after S sp = comment_after_from S sp (sp_end sp)"

definition insertion_point :: "src \<Rightarrow> source_span \<Rightarrow> u32 option" where
  "insertion_point S sp = do {
     next_at \<leftarrow> token_after S (sp_end sp);
     Some (case next_at of
         Some p \<Rightarrow> if char_is_in (char_at S p) ['','', '':''] \<and> src_line S (p + 1) = src_line S (sp_end sp) then p + 1 else sp_end sp
       | None \<Rightarrow> sp_end sp) }"

definition move_comment :: "src \<Rightarrow> source_span \<Rightarrow> source_span \<Rightarrow> u32 \<Rightarrow> edit list option" where
  "move_comment S node comment removal_start = do {
     let removed_text = src_slice S removal_start (sp_end comment);
     insert_after \<leftarrow> insertion_point S node;
     next_at \<leftarrow> token_after S insert_after;
     let is_line = (case comment_at S (sp_start comment) of Some c \<Rightarrow> \<not> cm_block c | None \<Rightarrow> False);
     let same_line = (case next_at of None \<Rightarrow> False | Some p \<Rightarrow> src_line S p = src_line S insert_after);
     Some [new_edit removal_start (sp_end comment) [],
       insert_edit insert_after (removed_text @ (if is_line \<and> same_line then [newline] else []))] }"

definition comment_fix :: "'f report \<Rightarrow> nat \<Rightarrow> nat \<Rightarrow> edit list option" where
  "comment_fix R n m = do {
     let S = rp_src R;
     let node = it_span (rp_items R ! n);
     let sorted_node = it_span (rp_items R ! m);
     found \<leftarrow> comment_after S sorted_node;
     case found of
       None \<Rightarrow> Some []
     | Some comment \<Rightarrow>
         if src_line S (sp_start node) = src_line S (sp_end sorted_node) then Some []
         else do {
           before \<leftarrow> token_before S (sp_start comment);
           case before of None \<Rightarrow> Some [] | Some p \<Rightarrow> move_comment S node comment p } }"

definition comment_after_fixes :: "'f report \<Rightarrow> nat list \<Rightarrow> nat list \<Rightarrow> edit list option" where
  "comment_after_fixes R = collect_fixes (comment_fix R)"

section \<open>Blank line fixes\<close>

text \<open>\<^verbatim>\<open>\n\s*\n\<close>: from a newline to the last one in the white space after it.\<close>

function join_blank_lines :: "string list \<Rightarrow> string list" where
  "join_blank_lines [] = []"
| "join_blank_lines (c # cs) =
     (let run = takeWhile is_js_space cs in
      if c = [newline] \<and> [newline] \<in> set run
      then [newline] # join_blank_lines (drop (length run - length (takeWhile (\<lambda>d. d \<noteq> [newline]) (rev run))) cs)
      else c # join_blank_lines cs)"
  by pat_completeness auto
termination
  by (relation "measure length") auto

fun join_newlines :: "string list \<Rightarrow> string list" where
  "join_newlines (c # d # cs) =
     (if c = [newline] \<and> d = [newline] then join_newlines (d # cs) else c # join_newlines (d # cs))"
| "join_newlines cs = cs"

definition add_newline :: "string \<Rightarrow> string" where
  "add_newline t =
     (case find_sub [newline] t of
        Some i \<Rightarrow> take i t @ [newline] @ drop i t
      | None \<Rightarrow> t @ [newline])"

definition newline_replacement :: "string \<Rightarrow> u32 \<Rightarrow> bool \<Rightarrow> string" where
  "newline_replacement between wanted same_line =
     (let t = concat (join_newlines (str_chars (concat (join_blank_lines (str_chars between))))) in
      if wanted = 0 then t
      else
        let added = (add_newline ^^ unat wanted) t
        in if same_line then add_newline added else added)"

definition newline_fix :: "'f report \<Rightarrow> (nat \<times> nat) \<Rightarrow> (nat \<times> nat) \<Rightarrow> edit list option" where
  "newline_fix R places sorted_pair =
     (let S = rp_src R; items = rp_items R;
          current = items ! fst sorted_pair; following = items ! snd sorted_pair;
          left_group = group_index (rp_options R) (it_group current);
          right_group = group_index (rp_options R) (it_group following)
      in if it_partition current \<noteq> it_partition following \<or> right_group < left_group then Some []
         else case newlines_between (rp_options R) left_group right_group of
           IgnoreNewlines \<Rightarrow> Some []
         | CountNewlines wanted \<Rightarrow> do {
             let node = it_span (items ! fst places);
             let next_node = it_span (items ! snd places);
             (_, a) \<leftarrow> node_range S node PartitionOff;
             (b, _) \<leftarrow> node_range S next_node PartitionOff;
             if blank_lines_between S (sp_end node) (sp_start next_node) = wanted then Some []
             else do {
               let same_line = (src_line S (sp_end node) = src_line S (sp_start next_node));
               Some [new_edit a (max b a) (newline_replacement (src_slice S a (max b a)) wanted same_line)] } })"

fun newline_fixes :: "'f report \<Rightarrow> nat list \<Rightarrow> nat list \<Rightarrow> edit list option" where
  "newline_fixes R (n # n' # ns) (m # m' # ms) = do {
     es \<leftarrow> newline_fix R (n, n') (m, m');
     rest \<leftarrow> newline_fixes R (n' # ns) (m' # ms);
     Some (es @ rest) }"
| "newline_fixes R _ _ = Some []"

section \<open>One fix\<close>

fun merge_from :: "src \<Rightarrow> u32 \<Rightarrow> string \<Rightarrow> edit list \<Rightarrow> (u32 \<times> string) option" where
  "merge_from S prev t [] = Some (prev, t)"
| "merge_from S prev t (f # fs) =
     (if e_start f < prev then None
      else merge_from S (e_end f) (t @ src_slice S prev (e_start f) @ e_text f) fs)"

definition merge_fixes :: "src \<Rightarrow> edit list \<Rightarrow> edit list" where
  "merge_fixes S fixes =
     (if length fixes < 2 then fixes
      else
        let ordered = sort_key edit_range fixes;
            start = e_start (hd ordered)
        in case merge_from S start [] ordered of
             None \<Rightarrow> []
           | Some (_, t) \<Rightarrow> [new_edit start (e_end (last ordered)) t])"

definition fix_for :: "'f report \<Rightarrow> nat list \<Rightarrow> nat list \<Rightarrow> edit list option" where
  "fix_for R nodes moved = do {
     order \<leftarrow> order_fixes R nodes moved;
     comments \<leftarrow> comment_after_fixes R nodes moved;
     rest \<leftarrow> (if comments = [] then newline_fixes R nodes moved else Some comments);
     Some (merge_fixes (rp_src R) (order @ rest)) }"

section \<open>Reports\<close>

definition index_in :: "nat list \<Rightarrow> nat \<Rightarrow> nat option" where
  "index_in ns n = map_of (rev (map (\<lambda>(i, m). (m, i)) (List.enumerate 0 ns))) n"

text \<open>The earlier node that depends on this one, outside cycles, when dependencies count.\<close>

definition dependent_before :: "'f report \<Rightarrow> nat list \<Rightarrow> nat list \<Rightarrow> nat \<Rightarrow> nat option" where
  "dependent_before R nodes before right =
     (if ms_dependency_order (rp_messages R) = None then None
      else find (\<lambda>other. other \<notin> circular (rp_items R) nodes \<and> depends (rp_items R) right other) before)"

definition problem_ids :: "'f report \<Rightarrow> nat list \<Rightarrow> nat list \<Rightarrow> nat list \<Rightarrow> nat option \<Rightarrow> nat \<Rightarrow> nat option \<Rightarrow> string list" where
  "problem_ids R nodes moved excluding left right unordered =
     (case left of
        None \<Rightarrow> []
      | Some l \<Rightarrow>
          let items = rp_items R; opts = rp_options R; ms = rp_messages R;
              left_group = group_index opts (it_group (items ! l));
              right_group = group_index opts (it_group (items ! right));
              left_index = unwrap_or (index_in moved l) 0;
              right_index = unwrap_or (index_in moved right) 0;
              right_excluding = (case index_in excluding right of Some i \<Rightarrow> int i | None \<Rightarrow> -1);
              out_of_place = it_disabled (items ! l) \<and> right_excluding \<le> int left_index
          in (if unordered \<noteq> None \<or> right_index < left_index \<or> out_of_place
              then [case (unordered, ms_dependency_order ms) of
                  (Some _, Some mid) \<Rightarrow> mid
                | _ \<Rightarrow> if left_group = right_group then ms_order ms else ms_group_order ms]
              else []) @
             (case newline_error R l right left_group right_group of Some mid \<Rightarrow> [mid] | None \<Rightarrow> []))"

definition found_problems :: "'f report \<Rightarrow> nat list \<Rightarrow> nat list \<Rightarrow> nat list \<Rightarrow> (source_span \<times> string) list" where
  "found_problems R nodes moved excluding =
     concat (map (\<lambda>i.
       let right = nodes ! i;
           left = (if i = 0 then None else Some (nodes ! (i - 1)));
           unordered = dependent_before R nodes (take i nodes) right
       in map (\<lambda>mid. (it_span (rp_items R ! right), message_for R mid left right unordered))
            (problem_ids R nodes moved excluding left right unordered)) [0..<length nodes])"

text \<open>The fix is made when the first problem is found, and every problem carries it.\<close>

definition report_run :: "'f report \<Rightarrow> nat list \<Rightarrow> nat list \<Rightarrow> nat list \<Rightarrow> problem list option" where
  "report_run R nodes moved excluding =
     (let found = found_problems R nodes moved excluding in
      if found = [] then Some []
      else map_option (\<lambda>fix_edits. map (\<lambda>(sp, msg). \<lparr>pb_span = sp, pb_message = msg, pb_fix = fix_edits\<rparr>) found)
        (fix_for R nodes excluding))"

end
