(* ===== verification/ReportFacts.thy ===== *)
theory ReportFacts imports
  PerfReport
begin

text \<open>
  The one edit that stands for all the fixes of a report (\<^verbatim>\<open>report.rs\<close>: \<open>merge\<close>) does what the edits
  do when \<^verbatim>\<open>core/src/edit.rs\<close> applies them, and there is none exactly when they conflict. Reports of one
  partition all carry the same fix.
\<close>

section \<open>Merging\<close>

lemma merge_from_chained:
  "\<forall>f \<in> set fs. wf_edit f \<Longrightarrow> merge_from S prev t fs \<noteq> None \<longleftrightarrow> chained (unat prev) fs"
  by (induction fs arbitrary: prev t) (auto simp: wf_edit_def word_less_nat_alt word_le_nat_alt)

lemma src_slice_span:
  "a \<le> b \<Longrightarrow> unat b \<le> length (src_text S) \<Longrightarrow> char_boundary (src_text S) (unat a) \<Longrightarrow>
     char_boundary (src_text S) (unat b) \<Longrightarrow>
     str_slice (src_text S) (unat a) (unat b) = Some (src_slice S a b)"
  by (simp add: src_slice_def str_slice_def word_le_nat_alt)

lemma merge_from_splice:
  "chained (unat prev) fs \<Longrightarrow> \<forall>f \<in> set fs. fits (src_text S) f \<Longrightarrow> char_boundary (src_text S) (unat prev) \<Longrightarrow>
     \<exists>u. merge_from S prev t fs = Some (if fs = [] then prev else e_end (last fs), t @ u) \<and>
       splice_edits (src_text S) (unat prev) fs =
         Some (u @ drop (unat (if fs = [] then prev else e_end (last fs))) (src_text S))"
proof (induction fs arbitrary: prev t)
  case Nil
  then show ?case by (auto simp: str_slice_def span_drop dest: char_boundary_le)
next
  case (Cons f fs)
  have b: "unat (e_start f) \<le> unat (e_end f)" "unat (e_end f) \<le> length (src_text S)"
      "char_boundary (src_text S) (unat (e_start f))" "char_boundary (src_text S) (unat (e_end f))"
    using fits_bounds [of "src_text S" f] Cons.prems by simp_all
  have le: "prev \<le> e_start f" using Cons.prems(1) by (simp add: word_le_nat_alt)
  have sl: "str_slice (src_text S) (unat prev) (unat (e_start f)) = Some (src_slice S prev (e_start f))"
    using b le Cons.prems(3) by (intro src_slice_span) simp_all
  obtain u where u: "merge_from S (e_end f) (t @ src_slice S prev (e_start f) @ e_text f) fs =
        Some (if fs = [] then e_end f else e_end (last fs), (t @ src_slice S prev (e_start f) @ e_text f) @ u)"
      "splice_edits (src_text S) (unat (e_end f)) fs =
        Some (u @ drop (unat (if fs = [] then e_end f else e_end (last fs))) (src_text S))"
    using Cons.IH [of "e_end f" "t @ src_slice S prev (e_start f) @ e_text f"] Cons.prems b by auto
  show ?case
    using u sl le by (intro exI [of _ "src_slice S prev (e_start f) @ e_text f @ u"]) (auto simp: not_less)
qed

text \<open>
  The fixes of a report become at most one edit. When they conflict there is no edit; otherwise
  applying the one edit to the file gives what applying all the fixes together gives.
\<close>

theorem merged_fix_is_the_fixes:
  assumes "\<forall>f \<in> set edits. fits (src_text S) f" "2 \<le> length edits"
  shows "(merge_fixes S edits = [] \<and> (\<exists>a b. apply_edits edits (src_text S) = Inl (EditConflict a b))) \<or>
     (\<exists>e out. merge_fixes S edits = [e] \<and> apply_edits edits (src_text S) = Inr out \<and>
        apply_edits [e] (src_text S) = Inr out)"
proof -
  let ?s = "src_text S" and ?os = "sort_key edit_range edits"
  have ord: "apply_order edits = ?os" by (rule apply_order_stable)
  have wf: "\<forall>f \<in> set ?os. wf_edit f" and fits: "\<forall>f \<in> set ?os. fits ?s f"
    using assms(1) fits_bounds [of ?s] by (auto simp: wf_edit_def word_le_nat_alt)
  have "?os \<noteq> []" using assms(2) by (metis length_0_conv length_sort not_numeral_le_zero)
  then obtain g gs where gs: "?os = g # gs" by (cases ?os) auto
  let ?m = "merge_from S (e_start g) [] ?os"
  show ?thesis
  proof (cases "first_conflict ?os")
    case (Some ab)
    have "\<not> chained (unat (e_start g)) ?os" using chained_no_conflict Some by fastforce
    with wf have "?m = None" using merge_from_chained [of ?os S "e_start g" "[]"] by blast
    with assms(2) gs have "merge_fixes S edits = []" by (simp add: merge_fixes_def)
    moreover obtain a b where "ab = (a, b)" by (cases ab)
    ultimately show ?thesis using Some ord by (simp add: apply_edits_def)
  next
    case None
    then have ch: "chained 0 ?os" using chained_apply_order [of edits] wf ord by simp
    then have chg: "chained (unat (e_start g)) ?os" using gs by simp
    have g: "char_boundary ?s (unat (e_start g))" "unat (e_start g) \<le> length ?s"
      using fits_bounds [of ?s g] fits gs by auto
    obtain t where t: "?m = Some (e_end (last ?os), t)"
        "splice_edits ?s (unat (e_start g)) ?os = Some (t @ drop (unat (e_end (last ?os))) ?s)"
      using merge_from_splice [OF chg fits g(1), of "[]"] gs by auto
    let ?e = "new_edit (e_start g) (e_end (last ?os)) t"
    have merged: "merge_fixes S edits = [?e]"
      using assms(2) t(1) gs by (simp add: merge_fixes_def)
    obtain out where out: "splice_edits ?s 0 ?os = Some out"
      using splice_edits_total [OF ch fits] by auto
    have from_start: "splice_edits ?s 0 ?os = Some (take (unat (e_start g)) ?s @ t @ drop (unat (e_end (last ?os))) ?s)"
      using t(2) g gs out by (auto simp: str_slice_def span_take span_def split: option.splits if_splits)
    have "fits ?s (last ?os)" using fits gs by (metis last_in_set list.discI)
    then have l: "char_boundary ?s (unat (e_end (last ?os)))" "unat (e_end (last ?os)) \<le> length ?s"
      using fits_bounds [of ?s] by auto
    have "splice_edits ?s 0 [?e] = Some (take (unat (e_start g)) ?s @ t @ drop (unat (e_end (last ?os))) ?s)"
      using g l by (simp add: new_edit_def str_slice_def span_take span_drop)
    with from_start None merged ord show ?thesis
      by (auto simp: apply_edits_def apply_order_stable)
  qed
qed

definition sample_src :: src where
  "sample_src = \<lparr>src_text = ''a b c'', src_index = \<lparr>ix_starts = [0], ix_ends = [5], ix_comments = [],
     ix_by_start = (\<lambda>_. None), ix_by_end = (\<lambda>_. None)\<rparr>\<rparr>"

lemma merged_fix_is_the_fixes_witness:
  "merge_fixes sample_src [new_edit 4 5 ''a'', new_edit 0 1 ''c''] = [new_edit 0 5 ''c b a''] \<and>
   apply_edits [new_edit 0 5 ''c b a''] ''a b c'' = Inr ''c b a''"
proof -
  let ?fs = "[new_edit 4 5 ''a'', new_edit 0 1 ''c'']"
  have "fits ''a b c'' (new_edit 4 5 ''a'')" "fits ''a b c'' (new_edit 0 1 ''c'')"
    by code_simp+
  then have "\<forall>f \<in> set ?fs. fits (src_text sample_src) f" by (simp add: sample_src_def)
  from merged_fix_is_the_fixes [OF this] have "merge_fixes sample_src ?fs = [] \<or>
      (\<exists>e out. merge_fixes sample_src ?fs = [e] \<and> apply_edits [e] (src_text sample_src) = Inr out)"
    by auto
  moreover have m: "merge_fixes sample_src ?fs = [new_edit 0 5 ''c b a'']" by code_simp
  moreover have "apply_edits [new_edit 0 5 ''c b a''] ''a b c'' = Inr ''c b a''" by code_simp
  ultimately show ?thesis by simp
qed

end
