(* ===== verification/SortLaws.thy ===== *)
theory SortLaws imports
  PerfSort
begin

text \<open>
  What a comparator promises, what the merge sort makes of it, and which of the comparators of
  \<^verbatim>\<open>sort.rs\<close> keep the promise.
\<close>

lemma merge_sort_short: "length xs < 2 \<Longrightarrow> merge_sort cmp xs = xs"
  by (subst merge_sort.simps) simp

section \<open>Comparators\<close>

locale comparing =
  fixes cmp :: "'a \<Rightarrow> 'a \<Rightarrow> ordering"
  assumes flip: "cmp y x = reverse_ordering (cmp x y)"
    and chain: "cmp x y \<noteq> Larger \<Longrightarrow> cmp y z \<noteq> Larger \<Longrightarrow> cmp x z \<noteq> Larger"
begin

lemma reflexive [simp]: "cmp x x = Same"
  using flip [of x x] by (cases "cmp x x") simp_all

lemma smaller_flip: "cmp y x = Smaller \<longleftrightarrow> cmp x y = Larger"
  using flip [of y x] by simp

lemma total: "cmp y x \<noteq> Larger \<or> cmp x y \<noteq> Larger"
  using smaller_flip [of x y] by auto

lemma same_class: "cmp a y = Same \<Longrightarrow> cmp a z = Same \<Longrightarrow> cmp y z = Same"
  using chain [of y a z] chain [of z a y] flip [of y a] flip [of z a] flip [of y z]
  by (cases "cmp y z"; cases "cmp z y") auto

lemma strict_chain:
  assumes "cmp y x = Smaller" "cmp x z \<noteq> Larger"
  shows "cmp y z = Smaller"
proof -
  have "cmp y z \<noteq> Larger" using chain [of y x z] assms by simp
  moreover have "cmp y z \<noteq> Same"
    using chain [of x z y] assms smaller_flip [of y x] flip [of z y] by auto
  ultimately show ?thesis by (cases "cmp y z") simp_all
qed

abbreviation increasing :: "'a list \<Rightarrow> bool" where
  "increasing xs \<equiv> sorted_wrt (\<lambda>x y. cmp x y \<noteq> Larger) xs"

lemma increasing_merge_halves:
  "increasing xs \<Longrightarrow> increasing ys \<Longrightarrow>
     increasing (merge_halves cmp xs ys) \<and> set (merge_halves cmp xs ys) = set xs \<union> set ys"
proof (induction xs arbitrary: ys)
  case (Cons x xs)
  note outer = Cons
  from outer(3) show ?case
  proof (induction ys)
    case (Cons y ys)
    show ?case
    proof (cases "cmp y x = Smaller")
      case True
      with outer(2) have "\<forall>z \<in> set xs. cmp y z = Smaller" by (auto intro: strict_chain)
      with True Cons show ?thesis by auto
    next
      case False
      then have le: "cmp x y \<noteq> Larger" using smaller_flip by simp
      with Cons.prems have "\<forall>z \<in> set ys. cmp x z \<noteq> Larger" using chain by auto
      with False le outer(1) [of "y # ys"] outer(2) Cons.prems show ?thesis by auto
    qed
  qed (use outer in simp)
qed simp

lemma merge_halves_stable:
  "increasing xs \<Longrightarrow>
     filter (\<lambda>z. cmp a z = Same) (merge_halves cmp xs ys) =
     filter (\<lambda>z. cmp a z = Same) xs @ filter (\<lambda>z. cmp a z = Same) ys"
proof (induction xs arbitrary: ys)
  case (Cons x xs)
  note outer = Cons
  show ?case
  proof (induction ys)
    case (Cons y ys)
    show ?case
    proof (cases "cmp y x = Smaller")
      case True
      with outer(2) have "\<forall>z \<in> set (x # xs). cmp y z = Smaller" by (auto intro: strict_chain)
      then have "cmp a y = Same \<Longrightarrow> \<forall>z \<in> set (x # xs). cmp a z \<noteq> Same"
        using same_class [of a y] by force
      then have "cmp a y = Same \<Longrightarrow> filter (\<lambda>z. cmp a z = Same) (x # xs) = []"
        by (auto simp: filter_empty_conv)
      with True Cons show ?thesis by (cases "cmp a y = Same") simp_all
    next
      case False
      with outer(1) [of "y # ys"] outer(2) show ?thesis by simp
    qed
  qed simp
qed simp

lemma merge_sort_laws:
  "increasing (merge_sort cmp xs) \<and>
   filter (\<lambda>z. cmp a z = Same) (merge_sort cmp xs) = filter (\<lambda>z. cmp a z = Same) xs"
proof (induction "length xs" arbitrary: xs rule: less_induct)
  case less
  show ?case
  proof (cases "length xs < 2")
    case True
    then show ?thesis by (cases xs; cases "tl xs") (auto simp: merge_sort_short)
  next
    case False
    let ?l = "take (length xs div 2) xs" and ?r = "drop (length xs div 2) xs"
    have "length ?l < length xs" "length ?r < length xs" using False by simp_all
    with less have l: "increasing (merge_sort cmp ?l)"
        "filter (\<lambda>z. cmp a z = Same) (merge_sort cmp ?l) = filter (\<lambda>z. cmp a z = Same) ?l"
      and r: "increasing (merge_sort cmp ?r)"
        "filter (\<lambda>z. cmp a z = Same) (merge_sort cmp ?r) = filter (\<lambda>z. cmp a z = Same) ?r"
      by blast+
    have eq: "merge_sort cmp xs = merge_halves cmp (merge_sort cmp ?l) (merge_sort cmp ?r)"
      using False by (subst merge_sort.simps) (simp add: Let_def)
    have "filter (\<lambda>z. cmp a z = Same) (merge_sort cmp xs) = filter (\<lambda>z. cmp a z = Same) (?l @ ?r)"
      unfolding eq by (simp only: merge_halves_stable [OF l(1)] l(2) r(2) filter_append)
    with increasing_merge_halves [OF l(1) r(1)] show ?thesis by (simp add: eq)
  qed
qed

lemmas merge_sort_increasing = merge_sort_laws [THEN conjunct1]
lemmas merge_sort_stable = merge_sort_laws [THEN conjunct2]

end

section \<open>Any comparator at all\<close>

text \<open>The merge sort permutes its input whatever the comparator says.\<close>

lemma mset_merge_halves [simp]: "mset (merge_halves cmp xs ys) = mset xs + mset ys"
  by (induction cmp xs ys rule: merge_halves.induct) auto

lemma mset_merge_sort [simp]: "mset (merge_sort cmp xs) = mset xs"
proof (induction cmp xs rule: merge_sort.induct)
  case (1 cmp xs)
  show ?case
  proof (cases "length xs < 2")
    case False
    with 1 have "mset (merge_sort cmp xs) = mset (take (length xs div 2) xs) + mset (drop (length xs div 2) xs)"
      by (subst merge_sort.simps) (simp add: Let_def)
    also have "\<dots> = mset xs" by (metis append_take_drop_id mset_append)
    finally show ?thesis .
  qed (subst merge_sort.simps, simp)
qed

lemma set_merge_sort [simp]: "set (merge_sort cmp xs) = set xs"
  by (metis mset_merge_sort set_mset_mset)

lemma length_merge_sort [simp]: "length (merge_sort cmp xs) = length xs"
  by (metis mset_merge_sort size_mset)

text \<open>Only the comparisons of the elements at hand matter.\<close>

lemma merge_halves_cong:
  "(\<And>x y. x \<in> set xs \<union> set ys \<Longrightarrow> y \<in> set xs \<union> set ys \<Longrightarrow> cmp x y = cmp' x y) \<Longrightarrow>
     merge_halves cmp xs ys = merge_halves cmp' xs ys"
proof (induction cmp xs ys rule: merge_halves.induct)
  case (1 cmp x xs y ys)
  have "cmp y x = cmp' y x" by (rule 1(3)) simp_all
  moreover have "merge_halves cmp (x # xs) ys = merge_halves cmp' (x # xs) ys" if "cmp y x = Smaller"
    using that by (rule 1(1)) (auto intro: 1(3))
  moreover have "merge_halves cmp xs (y # ys) = merge_halves cmp' xs (y # ys)" if "cmp y x \<noteq> Smaller"
    using that by (rule 1(2)) (auto intro: 1(3))
  ultimately show ?case by simp
qed simp_all

lemma merge_sort_cong:
  "(\<And>x y. x \<in> set xs \<Longrightarrow> y \<in> set xs \<Longrightarrow> cmp x y = cmp' x y) \<Longrightarrow> merge_sort cmp xs = merge_sort cmp' xs"
proof (induction cmp xs rule: merge_sort.induct)
  case (1 cmp xs)
  let ?m = "length xs div 2"
  have sub: "x \<in> set (take ?m xs) \<union> set (drop ?m xs) \<Longrightarrow> x \<in> set xs" for x
    by (auto dest: in_set_takeD in_set_dropD)
  show ?case
  proof (cases "length xs < 2")
    case False
    then have "merge_sort cmp (take ?m xs) = merge_sort cmp' (take ?m xs)"
      "merge_sort cmp (drop ?m xs) = merge_sort cmp' (drop ?m xs)"
      using sub by (auto intro!: 1)
    moreover have "merge_halves cmp (merge_sort cmp' (take ?m xs)) (merge_sort cmp' (drop ?m xs)) =
        merge_halves cmp' (merge_sort cmp' (take ?m xs)) (merge_sort cmp' (drop ?m xs))"
      using sub by (intro merge_halves_cong) (simp add: 1(3))
    ultimately show ?thesis
      using False by (simp add: merge_sort.simps [of cmp xs] merge_sort.simps [of cmp' xs] Let_def)
  qed (simp add: merge_sort.simps [of cmp xs] merge_sort.simps [of cmp' xs])
qed

section \<open>Building comparators\<close>

lemma comparing_ord_cmp: "comparing (\<lambda>x y. ord_cmp (f x) (f y :: 'b::linorder))"
proof unfold_locales
  fix x y
  show "ord_cmp (f y) (f x) = reverse_ordering (ord_cmp (f x) (f y))"
    by (cases "f x" "f y" rule: linorder_cases) (auto simp: ord_cmp_def)
qed (simp add: not_less)

lemma comparing_key: "comparing cmp \<Longrightarrow> comparing (\<lambda>x y. cmp (f x) (f y))"
  unfolding comparing_def by blast

lemma comparing_same: "comparing (\<lambda>x y. Same)"
  by unfold_locales simp_all

lemma comparing_reverse:
  assumes "comparing cmp"
  shows "comparing (\<lambda>x y. reverse_ordering (cmp x y))"
proof unfold_locales
  fix x y z
  show "reverse_ordering (cmp y x) = reverse_ordering (reverse_ordering (cmp x y))"
    by (subst comparing.flip [OF assms, of y x]) (rule refl)
  assume "reverse_ordering (cmp x y) \<noteq> Larger" "reverse_ordering (cmp y z) \<noteq> Larger"
  then show "reverse_ordering (cmp x z) \<noteq> Larger"
    using comparing.chain [OF assms, of z y x] comparing.smaller_flip [OF assms] by auto
qed

lemma comparing_ordered: "comparing cmp \<Longrightarrow> comparing (\<lambda>x y. ordered (cmp x y) d)"
  by (cases d) (simp_all add: ordered_def comparing_reverse)

lemma comparing_then_with:
  assumes "comparing c" "comparing d"
  shows "comparing (\<lambda>x y. then_with (c x y) (d x y))"
proof unfold_locales
  fix x y z
  show "then_with (c y x) (d y x) = reverse_ordering (then_with (c x y) (d x y))"
    using comparing.flip [OF assms(1), of y x] comparing.flip [OF assms(2), of y x]
    by (cases "c x y") simp_all
  assume le: "then_with (c x y) (d x y) \<noteq> Larger" "then_with (c y z) (d y z) \<noteq> Larger"
  then have c: "c x y \<noteq> Larger" "c y z \<noteq> Larger" by (auto simp: then_with_iff)
  then have cz: "c x z \<noteq> Larger" by (rule comparing.chain [OF assms(1)])
  show "then_with (c x z) (d x z) \<noteq> Larger"
  proof (cases "c x z")
    case Same
    then have "c z x = Same" using comparing.flip [OF assms(1), of z x] by simp
    then have "c y x \<noteq> Larger" "c z y \<noteq> Larger"
      using c comparing.chain [OF assms(1), of y z x] comparing.chain [OF assms(1), of z x y] by simp_all
    then have "c x y \<noteq> Smaller" "c y z \<noteq> Smaller"
      using comparing.smaller_flip [OF assms(1)] by blast+
    then have "c x y = Same" "c y z = Same"
      using c by (cases "c x y", simp_all) (cases "c y z", simp_all)
    with le have "d x y \<noteq> Larger" "d y z \<noteq> Larger" by simp_all
    then have "d x z \<noteq> Larger" by (rule comparing.chain [OF assms(2)])
    with Same show ?thesis by simp
  qed (use cz in simp_all)
qed

section \<open>The comparators of the rules\<close>

text \<open>The custom order is the lexicographic order of the ranks of the letters, unlisted ones last.\<close>

definition letter_rank :: "text_settings \<Rightarrow> nat \<Rightarrow> nat \<times> nat" where
  "letter_rank tx u = (case map_of (tx_alphabet tx) u of Some i \<Rightarrow> (0, i) | None \<Rightarrow> (1, 0))"

lemma letter_rank_less:
  "index x \<noteq> index y \<Longrightarrow>
     (case index x of Some i \<Rightarrow> (0 :: nat, i :: nat) | None \<Rightarrow> (1, 0)) < (case index y of Some i \<Rightarrow> (0, i) | None \<Rightarrow> (1, 0)) \<longleftrightarrow>
     \<not> (case (index x, index y) of (Some i, Some j) \<Rightarrow> j < i | (None, _) \<Rightarrow> True | (Some _, None) \<Rightarrow> False)"
  by (auto split: option.splits)

lemma compare_letters_rank:
  "(case compare_letters (map_of (tx_alphabet tx)) xs ys of
      Some r \<Rightarrow> r
    | None \<Rightarrow> ord_cmp (length xs) (length ys)) = ord_cmp (map (letter_rank tx) xs) (map (letter_rank tx) ys)"
proof (induction "map_of (tx_alphabet tx)" xs ys rule: compare_letters.induct)
  case (1 x xs y ys)
  let ?i = "map_of (tx_alphabet tx)"
  show ?case
  proof (cases "?i x = ?i y")
    case True
    then have "letter_rank tx x = letter_rank tx y" by (simp add: letter_rank_def)
    moreover have "ord_cmp (length (x # xs)) (length (y # ys)) = ord_cmp (length xs) (length ys)"
      by (simp add: ord_cmp_def)
    moreover have "ord_cmp (a # as) (a # bs) = ord_cmp as bs" for a :: "nat \<times> nat" and as bs
      by (simp add: ord_cmp_def)
    ultimately show ?thesis using 1 True by (simp del: list.size cong: option.case_cong)
  next
    case False
    then have "letter_rank tx x \<noteq> letter_rank tx y"
      by (cases "?i x"; cases "?i y") (auto simp: letter_rank_def)
    with False letter_rank_less [of ?i x y] show ?thesis
      by (cases "?i x"; cases "?i y") (auto simp: ord_cmp_def letter_rank_def)
  qed
qed (auto simp: ord_cmp_def neq_Nil_conv list_less_def)

lemma custom_compare_rank:
  "custom_compare tx a b =
     ord_cmp (map (letter_rank tx) (encode_utf16 a)) (map (letter_rank tx) (encode_utf16 b))"
  by (simp add: custom_compare_def Let_def compare_letters_rank)

interpretation letters: comparing "custom_compare tx" for tx
  unfolding custom_compare_rank by (rule comparing_ord_cmp)

interpretation units: comparing compare_units
  unfolding compare_units_def by (rule comparing_ord_cmp)

interpretation sizes: comparing "\<lambda>x y. ord_cmp (it_size x) (it_size y)"
  by (rule comparing_ord_cmp)

end
