(* ===== verification/SortFacts.thy ===== *)
theory SortFacts imports
  SortLaws
begin

text \<open>
  What \<open>sort_nodes\<close> and \<open>sort_by_groups\<close> (\<^verbatim>\<open>sort.rs\<close>) do to a partition: they permute it, elements that
  must stay in place keep their index, and the rest is sorted stably, group by group.
\<close>

section \<open>Putting elements back\<close>

lemma mset_insert_at [simp]: "mset (insert_at i x xs) = add_mset x (mset xs)"
proof -
  have "mset (insert_at i x xs) = add_mset x (mset (take (min i (length xs)) xs @ drop (min i (length xs)) xs))"
    by (simp only: insert_at_def mset_append mset.simps union_mset_add_mset_right)
  then show ?thesis by (simp only: append_take_drop_id)
qed

lemma put_back_Nil [simp]: "put_back [] kept = kept"
  by (simp add: put_back_def)

lemma mset_put_back [simp]: "mset (put_back ps kept) = mset (map snd ps) + mset kept"
  by (induction ps arbitrary: kept) (auto simp: put_back_def)

text \<open>
  What is put back in the order of its indexes ends up there: the elements of a list that are kept,
  in any order, and the others at their old places make a list of the same shape.
\<close>

definition fixed_places :: "('a \<Rightarrow> bool) \<Rightarrow> nat \<Rightarrow> 'a list \<Rightarrow> (nat \<times> 'a) list" where
  "fixed_places p n xs = filter (\<lambda>(i, x). p x) (List.enumerate n xs)"

fun refill :: "('a \<Rightarrow> bool) \<Rightarrow> 'a list \<Rightarrow> 'a list \<Rightarrow> 'a list" where
  "refill p [] kept = kept"
| "refill p (x # xs) kept =
     (if p x then x # refill p xs kept
      else case kept of [] \<Rightarrow> refill p xs [] | k # ks \<Rightarrow> k # refill p xs ks)"

lemma fixed_places_simps [simp]:
  "fixed_places p n [] = []"
  "fixed_places p n (x # xs) = (if p x then (n, x) # fixed_places p (Suc n) xs else fixed_places p (Suc n) xs)"
  by (simp_all add: fixed_places_def)

lemma put_back_refill:
  "length kept = length (filter (\<lambda>x. \<not> p x) xs) \<Longrightarrow>
     put_back (fixed_places p (length pre) xs) (pre @ kept) = pre @ refill p xs kept"
proof (induction xs arbitrary: pre kept)
  case (Cons x xs)
  show ?case
  proof (cases "p x")
    case True
    then have "put_back (fixed_places p (length pre) (x # xs)) (pre @ kept) =
        put_back (fixed_places p (length (pre @ [x])) xs) ((pre @ [x]) @ kept)"
      by (simp add: put_back_def insert_at_def)
    also have "\<dots> = (pre @ [x]) @ refill p xs kept" by (rule Cons.IH) (use True Cons.prems in simp)
    finally show ?thesis using True by simp
  next
    case False
    with Cons.prems obtain k ks where kept: "kept = k # ks" by (cases kept) auto
    have "put_back (fixed_places p (length (pre @ [k])) xs) ((pre @ [k]) @ ks) = (pre @ [k]) @ refill p xs ks"
      by (rule Cons.IH) (use False Cons.prems kept in simp)
    with False kept show ?thesis by simp
  qed
qed (simp add: put_back_def)

lemma put_back_fixed:
  assumes "length kept = length (filter (\<lambda>x. \<not> p x) xs)"
  shows "put_back (filter (\<lambda>(i, x). p x) (List.enumerate 0 xs)) kept = refill p xs kept"
  using put_back_refill [of kept p xs "[]"] assms by (simp add: fixed_places_def)

lemma refill_facts:
  "length kept = length (filter (\<lambda>x. \<not> p x) xs) \<Longrightarrow> \<forall>k \<in> set kept. \<not> p k \<Longrightarrow>
     length (refill p xs kept) = length xs \<and>
     (\<forall>i < length xs. p (xs ! i) \<longrightarrow> refill p xs kept ! i = xs ! i) \<and>
     filter (\<lambda>x. \<not> p x) (refill p xs kept) = kept"
proof (induction p xs kept rule: refill.induct)
  case (2 p x xs kept)
  show ?case
  proof (cases "p x")
    case True
    with 2 show ?thesis by (auto simp: nth_Cons split: nat.split)
  next
    case False
    with 2(4) obtain k ks where kept: "kept = k # ks" by (cases kept) auto
    with False 2(3) [of k ks] 2(4,5) show ?thesis by (auto simp: nth_Cons split: nat.split)
  qed
qed (simp add: filter_True)

lemma refill_id: "refill p xs (filter (\<lambda>x. \<not> p x) xs) = xs"
  by (induction xs) simp_all

section \<open>A bucket\<close>

lemma mset_sort_nodes [simp]: "mset (sort_nodes E opts md items nodes spec ignored) = mset nodes"
proof -
  have "mset (map snd (filter (\<lambda>(i, n). ignored n) (List.enumerate 0 nodes))) = mset (filter ignored nodes)"
  proof -
    have "map snd (filter (\<lambda>(i, n). ignored n) (List.enumerate m nodes)) = filter ignored nodes" for m
      by (induction nodes arbitrary: m) auto
    then show ?thesis by simp
  qed
  then show ?thesis by (simp add: sort_nodes_def Let_def)
qed

lemma set_sort_nodes [simp]: "set (sort_nodes E opts md items nodes spec ignored) = set nodes"
  by (metis mset_sort_nodes set_mset_mset)

lemma length_sort_nodes [simp]: "length (sort_nodes E opts md items nodes spec ignored) = length nodes"
  by (metis mset_sort_nodes size_mset)

lemma sort_nodes_refill:
  "sort_nodes E opts md items nodes spec ignored = refill ignored nodes
     (if so_kind (gs_sort spec) = Unsorted then filter (\<lambda>n. \<not> ignored n) nodes
      else merge_sort (compare_nodes E opts md items spec) (filter (\<lambda>n. \<not> ignored n) nodes))"
  unfolding sort_nodes_def Let_def by (rule put_back_fixed) simp

lemma sort_nodes_facts:
  fixes nodes :: "nat list" and ignored
  defines "kept \<equiv> filter (\<lambda>n. \<not> ignored n) nodes"
  shows "i < length nodes \<Longrightarrow> ignored (nodes ! i) \<Longrightarrow> sort_nodes E opts md items nodes spec ignored ! i = nodes ! i"
    and "filter (\<lambda>n. \<not> ignored n) (sort_nodes E opts md items nodes spec ignored) =
      (if so_kind (gs_sort spec) = Unsorted then kept else merge_sort (compare_nodes E opts md items spec) kept)"
proof -
  define sorted where "sorted = (if so_kind (gs_sort spec) = Unsorted then kept
      else merge_sort (compare_nodes E opts md items spec) kept)"
  have len: "length sorted = length (filter (\<lambda>n. \<not> ignored n) nodes)" by (simp add: sorted_def kept_def)
  have free: "\<forall>k \<in> set sorted. \<not> ignored k" by (simp add: sorted_def kept_def)
  have refill: "sort_nodes E opts md items nodes spec ignored = refill ignored nodes sorted"
    unfolding sort_nodes_refill sorted_def kept_def ..
  show "i < length nodes \<Longrightarrow> ignored (nodes ! i) \<Longrightarrow> sort_nodes E opts md items nodes spec ignored ! i = nodes ! i"
    using refill_facts [OF len free] by (simp add: refill)
  show "filter (\<lambda>n. \<not> ignored n) (sort_nodes E opts md items nodes spec ignored) =
      (if so_kind (gs_sort spec) = Unsorted then kept else merge_sort (compare_nodes E opts md items spec) kept)"
    using refill_facts [OF len free] by (simp only: refill sorted_def)
qed

section \<open>Buckets\<close>

definition node_group :: "options \<Rightarrow> 'f item list \<Rightarrow> nat \<Rightarrow> nat" where
  "node_group opts items n = group_index opts (it_group (items ! n))"

lemma node_group_eta: "node_group opts items = (\<lambda>n. group_index opts (it_group (items ! n)))"
  by (simp add: fun_eq_iff node_group_def)

lemma mset_filter_image:
  "finite K \<Longrightarrow> key ` set xs \<subseteq> K \<Longrightarrow>
     (\<Sum>k \<in> K. mset (filter (\<lambda>x. key x = k) xs)) = mset xs"
proof (induction xs)
  case (Cons x xs)
  have "(\<Sum>k \<in> K. mset (filter (\<lambda>y. key y = k) (x # xs))) =
      (\<Sum>k \<in> K. (if key x = k then {#x#} else {#}) + mset (filter (\<lambda>y. key y = k) xs))"
    by (rule sum.cong) simp_all
  also have "\<dots> = {#x#} + mset xs"
    using Cons by (simp add: sum.distrib sum.delta)
  finally show ?case by simp
qed simp

lemma mset_buckets: "mset (concat (map snd (buckets_of key xs))) = mset xs"
proof -
  have "mset (concat (map snd (buckets_of key xs))) =
      (\<Sum>k \<leftarrow> sorted_list_of_set (key ` set xs). mset (filter (\<lambda>x. key x = k) xs))"
    by (simp add: buckets_of_def mset_concat o_def comp_def)
  also have "\<dots> = (\<Sum>k \<in> key ` set xs. mset (filter (\<lambda>x. key x = k) xs))"
    by (simp add: sum_list_distinct_conv_sum_set)
  also have "\<dots> = mset xs" by (rule mset_filter_image) simp_all
  finally show ?thesis .
qed

lemma sorted_map_const: "\<forall>n \<in> set xs. key n = k \<Longrightarrow> sorted (map key xs)"
  by (induction xs) auto

lemma sorted_buckets:
  "sorted ks \<Longrightarrow> \<forall>k \<in> set ks. \<forall>n \<in> set (g k). key n = k \<Longrightarrow> sorted (map key (concat (map g ks)))"
proof (induction ks)
  case (Cons k ks)
  from Cons.prems have "sorted (map key (g k))" by (intro sorted_map_const) auto
  with Cons show ?case by (auto simp: sorted_append)
qed simp

definition sorted_bucket :: "'f sort_env \<Rightarrow> options \<Rightarrow> mode \<Rightarrow> 'f item list \<Rightarrow> (group_spec \<Rightarrow> 'f item \<Rightarrow> bool) \<Rightarrow>
    nat list \<Rightarrow> nat \<Rightarrow> nat list" where
  "sorted_bucket E opts md items ignored_in_group placed k =
     (let bucket = filter (\<lambda>n. node_group opts items n = k) placed;
          spec = spec_of opts k
      in sort_nodes E opts md items bucket spec (\<lambda>n. n \<in> set bucket \<and> ignored_in_group spec (items ! n)))"

definition sorted_groups :: "'f sort_env \<Rightarrow> options \<Rightarrow> mode \<Rightarrow> 'f item list \<Rightarrow> (group_spec \<Rightarrow> 'f item \<Rightarrow> bool) \<Rightarrow>
    nat list \<Rightarrow> nat list" where
  "sorted_groups E opts md items ignored_in_group placed =
     concat (map (sorted_bucket E opts md items ignored_in_group placed)
       (sorted_list_of_set (node_group opts items ` set placed)))"

definition stays :: "bool \<Rightarrow> 'f item list \<Rightarrow> nat \<Rightarrow> bool" where
  "stays ignore_disabled items n \<longleftrightarrow> ignore_disabled \<and> it_disabled (items ! n)"

lemma sorted_bucket_eta:
  "sorted_bucket E opts md items ignored_in_group placed = (\<lambda>k.
     sort_nodes E opts md items (filter (\<lambda>n. node_group opts items n = k) placed) (spec_of opts k)
       (\<lambda>n. n \<in> set (filter (\<lambda>n. node_group opts items n = k) placed) \<and>
         ignored_in_group (spec_of opts k) (items ! n)))"
  by (simp add: fun_eq_iff sorted_bucket_def Let_def)

lemma mset_sorted_bucket [simp]:
  "mset (sorted_bucket E opts md items ig placed k) = mset (filter (\<lambda>n. node_group opts items n = k) placed)"
  by (simp add: sorted_bucket_def Let_def)

lemma set_sorted_bucket [simp]:
  "set (sorted_bucket E opts md items ig placed k) = {n \<in> set placed. node_group opts items n = k}"
  using mset_sorted_bucket [of E opts md items ig placed k] by (metis set_filter set_mset_mset)

lemma mset_sorted_groups [simp]: "mset (sorted_groups E opts md items ig placed) = mset placed"
proof -
  have "mset (sorted_groups E opts md items ig placed) =
      mset (concat (map snd (buckets_of (node_group opts items) placed)))"
    by (simp add: sorted_groups_def buckets_of_def mset_concat o_def comp_def)
  then show ?thesis by (simp only: mset_buckets)
qed

lemma set_sorted_groups [simp]: "set (sorted_groups E opts md items ig placed) = set placed"
  by (metis mset_sorted_groups set_mset_mset)

lemma length_sorted_groups [simp]: "length (sorted_groups E opts md items ig placed) = length placed"
  by (metis mset_sorted_groups size_mset)

lemma sort_by_groups_refill:
  "sort_by_groups E opts md items nodes ignore_disabled ig =
     refill (stays ignore_disabled items) nodes
       (sorted_groups E opts md items ig (filter (\<lambda>n. \<not> stays ignore_disabled items n) nodes))"
proof -
  let ?placed = "filter (\<lambda>n. \<not> stays ignore_disabled items n) nodes"
  have "sort_by_groups E opts md items nodes ignore_disabled ig =
      put_back (filter (\<lambda>(i, n). stays ignore_disabled items n) (List.enumerate 0 nodes))
        (sorted_groups E opts md items ig ?placed)"
    unfolding sort_by_groups_def sorted_groups_def buckets_of_def sorted_bucket_eta
    by (simp only: Let_def map_map o_def prod.case node_group_eta stays_def)
  then show ?thesis by (simp add: put_back_fixed)
qed

lemma sort_by_groups_facts:
  assumes "result = sort_by_groups E opts md items nodes ignore_disabled ig"
    and "fixed = stays ignore_disabled items"
  shows "length result = length nodes"
    "\<forall>i < length nodes. fixed (nodes ! i) \<longrightarrow> result ! i = nodes ! i"
    "filter (\<lambda>n. \<not> fixed n) result = sorted_groups E opts md items ig (filter (\<lambda>n. \<not> fixed n) nodes)"
  using refill_facts [of "sorted_groups E opts md items ig (filter (\<lambda>n. \<not> fixed n) nodes)" fixed nodes]
  by (simp_all add: assms sort_by_groups_refill)

lemma mset_refill:
  "length kept = length (filter (\<lambda>x. \<not> p x) xs) \<Longrightarrow> mset (refill p xs kept) = mset (filter p xs) + mset kept"
proof (induction p xs kept rule: refill.induct)
  case (2 p x xs kept)
  then show ?case by (cases kept) (auto split: if_splits)
qed simp

lemma mset_filter_both: "mset (filter p xs) + mset (filter (\<lambda>x. \<not> p x) xs) = mset xs"
  by (induction xs) auto

lemma mset_sort_by_groups [simp]: "mset (sort_by_groups E opts md items nodes ignore_disabled ig) = mset nodes"
  by (simp add: sort_by_groups_refill mset_refill mset_filter_both del: mset_filter)

text \<open>
  C20: Sorting a partition by groups permutes it, whatever the comparators are; a disabled element that
  must not move keeps its index; and the others come out in the order of their groups.
\<close>

theorem sorting_by_groups_permutes:
  assumes "sort_by_groups E opts md items nodes ignore_disabled ignored = result"
  shows "mset result = mset nodes \<and>
     (\<forall>i < length nodes. ignore_disabled \<longrightarrow> it_disabled (items ! (nodes ! i)) \<longrightarrow> result ! i = nodes ! i) \<and>
     sorted (map (node_group opts items)
       (filter (\<lambda>n. \<not> (ignore_disabled \<and> it_disabled (items ! n))) result))"
proof -
  have "sorted (map (node_group opts items) (sorted_groups E opts md items ignored placed))" for placed
    unfolding sorted_groups_def by (rule sorted_buckets) simp_all
  with sort_by_groups_facts [OF assms [symmetric] refl] assms show ?thesis
    by (auto simp: stays_def)
qed


section \<open>Lawful comparators\<close>

text \<open>
  The sort kinds whose comparators are total preorders: all but the natural one, which the code itself
  calls through for numbers. Ordering by subgroup is one among elements of the same group.
\<close>

fun by_numbers :: "mode \<Rightarrow> bool" where
  "by_numbers (EnumMode by_value numeric) \<longleftrightarrow> numeric \<and> by_value \<noteq> NeverByValue"
| "by_numbers _ \<longleftrightarrow> False"

definition lawful_sort :: "mode \<Rightarrow> sort_spec \<Rightarrow> bool" where
  "lawful_sort md s \<longleftrightarrow>
     so_kind s \<noteq> Natural \<and> (by_numbers md \<longrightarrow> so_kind s = Unsorted \<or> so_kind s = SubgroupOrder)"

definition lawful_options :: "mode \<Rightarrow> options \<Rightarrow> bool" where
  "lawful_options md opts \<longleftrightarrow>
     comparing (tx_collate (op_text opts)) \<and>
     (\<forall>k. lawful_sort md (gs_sort (spec_of opts k)) \<and> lawful_sort md (fallback_sort (spec_of opts k)))"

text \<open>Where a group name stands in its array group.\<close>

definition subgroup_rank :: "options \<Rightarrow> string \<Rightarrow> nat" where
  "subgroup_rank opts name =
     (case subgroup opts name of Some i \<Rightarrow> subgroup_position opts i name | None \<Rightarrow> 0)"

definition flat_key :: "'f sort_env \<Rightarrow> options \<Rightarrow> sort_spec \<Rightarrow> sort_key_of \<Rightarrow> 'f item \<Rightarrow> 'f item \<Rightarrow> ordering" where
  "flat_key E opts s b x y =
     (if so_kind s = SubgroupOrder
      then ordered (ord_cmp (subgroup_rank opts (it_group x)) (subgroup_rank opts (it_group y))) (so_order s)
      else by_key E opts s b x y)"

lemma position_Some:
  "position p xs = Some i \<longleftrightarrow> i < length xs \<and> p (xs ! i) \<and> (\<forall>j < i. \<not> p (xs ! j))"
proof (induction xs arbitrary: i)
  case (Cons x xs)
  then show ?case by (cases i) (auto simp: nth_Cons less_Suc_eq_0_disj split: nat.splits)
qed simp

lemma position_None: "position p xs = None \<longleftrightarrow> (\<forall>x \<in> set xs. \<not> p x)"
  by (induction xs) auto

lemma holds_subgroup_group: "holds_subgroup name g \<Longrightarrow> group_holds name g"
  by (auto simp: holds_subgroup_def group_holds_def split: option.splits group_names.splits)

lemma position_index:
  "position (group_holds name) (op_groups opts) =
     (if group_index opts name < length (op_groups opts) then Some (group_index opts name) else None)"
proof (cases "position (group_holds name) (op_groups opts)")
  case (Some i)
  then have "i < length (op_groups opts)" by (simp add: position_Some)
  with Some show ?thesis by (simp add: group_index_def unwrap_or_def)
qed (simp add: group_index_def unwrap_or_def)

lemma same_group_subgroup:
  assumes "group_index opts a = group_index opts b"
  shows "subgroup opts a = subgroup opts b"
proof (cases "position (group_holds a) (op_groups opts)")
  case None
  with assms have "position (group_holds b) (op_groups opts) = None"
    by (simp add: position_index split: if_splits)
  with None show ?thesis
    by (metis holds_subgroup_group position_None subgroup_def)
next
  case (Some i)
  with assms have b: "position (group_holds b) (op_groups opts) = Some i"
    by (simp add: position_index split: if_splits)
  show ?thesis
  proof (cases "names_of (op_groups opts ! i)")
    case None
    with Some show ?thesis by (simp add: position_Some group_holds_def)
  next
    case names: (Some ns)
    show ?thesis
    proof (cases ns)
      case (OneName n)
      with Some b names have "a = b" by (auto simp: position_Some group_holds_def)
      then show ?thesis by simp
    next
      case (ManyNames l)
      have "position (holds_subgroup c) (op_groups opts) = Some i"
        if "position (group_holds c) (op_groups opts) = Some i" for c
        using that names ManyNames holds_subgroup_group
        by (auto simp: position_Some group_holds_def holds_subgroup_def)
      with Some b show ?thesis by (simp add: subgroup_def)
    qed
  qed
qed

lemma by_key_flat:
  assumes "group_index opts (it_group x) = group_index opts (it_group y)"
  shows "by_key E opts s b x y = flat_key E opts s b x y"
  using same_group_subgroup [OF assms]
  by (auto simp: flat_key_def by_key_def Let_def subgroup_rank_def ordered_def ord_cmp_def
      split: sort_kind.splits option.splits sort_order.splits)

lemma comparing_flat_key:
  assumes "comparing (tx_collate (op_text opts))" "so_kind s \<noteq> Natural"
  shows "comparing (flat_key E opts s b)"
proof (cases "so_kind s")
  case SubgroupOrder
  then have "flat_key E opts s b = (\<lambda>x y. ordered (ord_cmp (subgroup_rank opts (it_group x))
      (subgroup_rank opts (it_group y))) (so_order s))"
    by (simp add: fun_eq_iff flat_key_def)
  then show ?thesis by (simp only: comparing_ordered comparing_ord_cmp)
next
  case LineLength
  then have "flat_key E opts s b = (\<lambda>x y. ordered (ord_cmp (it_size x) (it_size y)) (so_order s))"
    by (simp add: fun_eq_iff flat_key_def by_key_def Let_def)
  then show ?thesis by (simp only: comparing_ordered sizes.comparing_axioms)
next
  case Alphabetical
  then have "flat_key E opts s b = (\<lambda>x y. ordered (tx_collate (op_text opts)
      (format_text E (op_text opts) (key_of b x)) (format_text E (op_text opts) (key_of b y))) (so_order s))"
    by (simp add: fun_eq_iff flat_key_def by_key_def Let_def)
  then show ?thesis by (simp only: comparing_ordered comparing_key [OF assms(1)])
next
  case CustomOrder
  then have "flat_key E opts s b = (\<lambda>x y. ordered (custom_compare (op_text opts)
      (format_text E (op_text opts) (key_of b x)) (format_text E (op_text opts) (key_of b y))) (so_order s))"
    by (simp add: fun_eq_iff flat_key_def by_key_def Let_def)
  then show ?thesis by (simp only: comparing_ordered comparing_key [OF letters.comparing_axioms])
next
  case Unsorted
  then have "flat_key E opts s b = (\<lambda>x y. Same)"
    by (simp add: fun_eq_iff flat_key_def by_key_def Let_def)
  then show ?thesis by (simp only: comparing_same)
qed (use assms in simp)


fun key_used :: "mode \<Rightarrow> sort_spec \<Rightarrow> sort_key_of" where
  "key_used NameMode s = ByName"
| "key_used NameOrValueMode s = so_by s"
| "key_used (EnumMode by_value numeric) s = (if by_value = AlwaysByValue \<and> \<not> numeric then ByValue else ByName)"

lemma compare_items_key:
  assumes "lawful_sort md s"
  shows "compare_items E opts md s x y = by_key E opts s (key_used md s) x y"
proof (cases md)
  case (EnumMode v n)
  with assms show ?thesis
    by (cases v; cases n; cases "so_kind s")
      (simp_all add: compare_items_def lawful_sort_def by_number_def by_key_def Let_def)
qed (simp_all add: compare_items_def)

text \<open>A bucket whose kind is \<open>Unsorted\<close> is left as it is, whatever its fallback.\<close>

definition effective :: "'f sort_env \<Rightarrow> options \<Rightarrow> mode \<Rightarrow> 'f item list \<Rightarrow> nat \<Rightarrow> nat \<Rightarrow> ordering" where
  "effective E opts md items a b =
     (let spec = spec_of opts (node_group opts items a)
      in if so_kind (gs_sort spec) = Unsorted then Same else compare_nodes E opts md items spec a b)"

definition flat_nodes :: "'f sort_env \<Rightarrow> options \<Rightarrow> mode \<Rightarrow> 'f item list \<Rightarrow> group_spec \<Rightarrow> nat \<Rightarrow> nat \<Rightarrow> ordering" where
  "flat_nodes E opts md items spec a b =
     (if so_kind (gs_sort spec) = Unsorted then Same
      else then_with (flat_key E opts (gs_sort spec) (key_used md (gs_sort spec)) (items ! a) (items ! b))
        (flat_key E opts (fallback_sort spec) (key_used md (fallback_sort spec)) (items ! a) (items ! b)))"

lemma comparing_flat_nodes:
  assumes "lawful_options md opts"
  shows "comparing (flat_nodes E opts md items (spec_of opts k))"
proof -
  let ?s = "gs_sort (spec_of opts k)" and ?f = "fallback_sort (spec_of opts k)"
  have kinds: "so_kind ?s \<noteq> Natural" "so_kind ?f \<noteq> Natural" and co: "comparing (tx_collate (op_text opts))"
    using assms by (simp_all add: lawful_options_def lawful_sort_def)
  show ?thesis
  proof (cases "so_kind ?s = Unsorted")
    case True
    then have "flat_nodes E opts md items (spec_of opts k) = (\<lambda>a b. Same)"
      by (simp add: fun_eq_iff flat_nodes_def)
    then show ?thesis by (simp only: comparing_same)
  next
    case False
    then have "flat_nodes E opts md items (spec_of opts k) = (\<lambda>a b.
        then_with (flat_key E opts ?s (key_used md ?s) (items ! a) (items ! b))
          (flat_key E opts ?f (key_used md ?f) (items ! a) (items ! b)))"
      by (simp add: fun_eq_iff flat_nodes_def)
    then show ?thesis
      by (simp only: comparing_then_with comparing_key [OF comparing_flat_key [OF co kinds(1)]]
        comparing_key [OF comparing_flat_key [OF co kinds(2)]])
  qed
qed

lemma effective_flat:
  assumes "lawful_options md opts" "node_group opts items a = k" "node_group opts items b = k"
  shows "effective E opts md items a b = flat_nodes E opts md items (spec_of opts k) a b"
proof -
  have same: "group_index opts (it_group (items ! a)) = group_index opts (it_group (items ! b))"
    using assms(2,3) by (simp add: node_group_def)
  have "lawful_sort md (gs_sort (spec_of opts k))" "lawful_sort md (fallback_sort (spec_of opts k))"
    using assms(1) by (simp_all add: lawful_options_def)
  then show ?thesis
    using assms(2)
    by (simp add: effective_def flat_nodes_def compare_nodes_def compare_items_key by_key_flat [OF same] Let_def)
qed

text \<open>The elements of a group that an \<open>ignored_in_group\<close> predicate holds at their place.\<close>

definition held :: "options \<Rightarrow> (group_spec \<Rightarrow> 'f item \<Rightarrow> bool) \<Rightarrow> 'f item list \<Rightarrow> nat \<Rightarrow> bool" where
  "held opts ig items n \<longleftrightarrow> ig (spec_of opts (node_group opts items n)) (items ! n)"

definition bucket_of :: "options \<Rightarrow> 'f item list \<Rightarrow> nat \<Rightarrow> nat list \<Rightarrow> nat list" where
  "bucket_of opts items k = filter (\<lambda>n. node_group opts items n = k)"

lemma sorted_bucket_sort_nodes:
  "sorted_bucket E opts md items ig placed k =
     sort_nodes E opts md items (bucket_of opts items k placed) (spec_of opts k)
       (\<lambda>n. n \<in> set (bucket_of opts items k placed) \<and> held opts ig items n)"
  unfolding sorted_bucket_def Let_def bucket_of_def
  by (rule arg_cong [where f = "sort_nodes E opts md items _ _"]) (auto simp: held_def)

lemma sorted_bucket_holds:
  assumes "i < length (bucket_of opts items k placed)" "held opts ig items (bucket_of opts items k placed ! i)"
  shows "sorted_bucket E opts md items ig placed k ! i = bucket_of opts items k placed ! i"
  unfolding sorted_bucket_sort_nodes using assms by (intro sort_nodes_facts(1)) simp_all

lemma sorted_bucket_merge:
  assumes "lawful_options md opts"
  shows "filter (\<lambda>n. \<not> held opts ig items n) (sorted_bucket E opts md items ig placed k) =
     merge_sort (flat_nodes E opts md items (spec_of opts k))
       (filter (\<lambda>n. \<not> held opts ig items n) (bucket_of opts items k placed))"
proof -
  let ?b = "bucket_of opts items k placed" and ?h = "held opts ig items"
  let ?free = "filter (\<lambda>n. \<not> ?h n) ?b" and ?flat = "flat_nodes E opts md items (spec_of opts k)"
  have cong: "filter (\<lambda>n. \<not> (n \<in> set ?b \<and> ?h n)) xs = filter (\<lambda>n. \<not> ?h n) xs" if "set xs \<subseteq> set ?b" for xs
    using that by (auto intro: filter_cong)
  have "filter (\<lambda>n. \<not> ?h n) (sorted_bucket E opts md items ig placed k) =
      (if so_kind (gs_sort (spec_of opts k)) = Unsorted then ?free
       else merge_sort (compare_nodes E opts md items (spec_of opts k)) ?free)"
    using sort_nodes_facts(2) [where ignored = "\<lambda>n. n \<in> set ?b \<and> ?h n" and nodes = ?b and E = E and opts = opts and md = md
      and items = items and spec = "spec_of opts k"]
    unfolding sorted_bucket_sort_nodes by (simp only: cong [OF subset_refl] cong [OF equalityD1 [OF set_sort_nodes]])
  also have "\<dots> = merge_sort ?flat ?free"
  proof (cases "so_kind (gs_sort (spec_of opts k)) = Unsorted")
    case True
    then have "?flat = (\<lambda>a b. Same)" by (simp add: fun_eq_iff flat_nodes_def)
    moreover have "merge_sort (\<lambda>a b. Same) xs = xs" for xs :: "nat list"
      using comparing.merge_sort_stable [OF comparing_same, of xs] by simp
    ultimately show ?thesis using True by simp
  next
    case False
    have "merge_sort (compare_nodes E opts md items (spec_of opts k)) ?free = merge_sort ?flat ?free"
    proof (rule merge_sort_cong)
      fix x y assume "x \<in> set ?free" "y \<in> set ?free"
      then have "node_group opts items x = k" "node_group opts items y = k" by (simp_all add: bucket_of_def)
      from effective_flat [OF assms this] this(1) False
      show "compare_nodes E opts md items (spec_of opts k) x y = ?flat x y" by (simp add: effective_def)
    qed
    with False show ?thesis by simp
  qed
  finally show ?thesis .
qed

lemma in_sorted_groups_filter:
  assumes "\<And>k'. k' \<noteq> k \<Longrightarrow> filter P (g k') = []" "k \<in> set ks \<Longrightarrow> filter P (g k) = zs"
    "k \<notin> set ks \<Longrightarrow> zs = []" "distinct ks"
  shows "filter P (concat (map g ks)) = zs"
  using assms(2-4)
proof (induction ks)
  case (Cons c ks)
  show ?case
  proof (cases "c = k")
    case True
    have "filter P (g k') = []" if "k' \<in> set ks" for k'
    proof (rule assms(1))
      show "k' \<noteq> k" using that True Cons.prems(3) by auto
    qed
    then have "filter P (concat (map g ks)) = []" by (auto simp: filter_concat filter_empty_conv)
    with True Cons.prems show ?thesis by simp
  next
    case False
    with Cons assms(1) show ?thesis by auto
  qed
qed simp

lemma sorted_wrt_concat:
  assumes "sorted ks" "distinct ks" "\<And>k. k \<in> set ks \<Longrightarrow> sorted_wrt (R k) (g k)"
    "\<And>k n. k \<in> set ks \<Longrightarrow> n \<in> set (g k) \<Longrightarrow> key n = k"
  shows "sorted_wrt (\<lambda>a b. key a < key b \<or> key a = key b \<and> R (key a) a b) (concat (map g ks))"
  using assms
proof (induction ks)
  case (Cons k ks)
  have "key n = k" if "n \<in> set (g k)" for n using that by (intro Cons.prems(4)) simp_all
  moreover have "sorted_wrt (R k) (g k)" by (rule Cons.prems(3)) simp
  ultimately have "sorted_wrt (\<lambda>a b. key a < key b \<or> key a = key b \<and> R (key a) a b) (g k)"
    by (auto elim: sorted_wrt_mono_rel [rotated])
  moreover have "key a < key b" if "a \<in> set (g k)" "b \<in> set (concat (map g ks))" for a b
  proof -
    from that(2) obtain c where c: "c \<in> set ks" "b \<in> set (g c)" by auto
    with Cons.prems have "key b = c" "key a = k" "k \<le> c" "k \<noteq> c" using that(1) by auto
    then show ?thesis by simp
  qed
  ultimately show ?case using Cons by (auto simp: sorted_wrt_append)
qed simp

lemma bucket_of_sorted_groups:
  "bucket_of opts items k (sorted_groups E opts md items ig placed) = sorted_bucket E opts md items ig placed k"
  unfolding sorted_groups_def bucket_of_def
proof (rule in_sorted_groups_filter [where k = k])
  fix k' assume "k' \<noteq> k"
  then show "filter (\<lambda>n. node_group opts items n = k) (sorted_bucket E opts md items ig placed k') = []"
    by (auto simp: filter_empty_conv)
next
  show "filter (\<lambda>n. node_group opts items n = k) (sorted_bucket E opts md items ig placed k) =
      sorted_bucket E opts md items ig placed k" by (simp add: filter_True)
next
  assume "k \<notin> set (sorted_list_of_set (node_group opts items ` set placed))"
  then have "set (sorted_bucket E opts md items ig placed k) = {}" by auto
  then show "sorted_bucket E opts md items ig placed k = []" by (simp only: set_empty)
qed simp

lemma free_sorted_groups:
  assumes "lawful_options md opts"
  shows "filter (\<lambda>n. \<not> held opts ig items n) (sorted_groups E opts md items ig placed) =
     concat (map (\<lambda>k. merge_sort (flat_nodes E opts md items (spec_of opts k))
         (bucket_of opts items k (filter (\<lambda>n. \<not> held opts ig items n) placed)))
       (sorted_list_of_set (node_group opts items ` set placed)))"
proof -
  have "filter (\<lambda>n. \<not> held opts ig items n) (bucket_of opts items k placed) =
      bucket_of opts items k (filter (\<lambda>n. \<not> held opts ig items n) placed)" for k
    by (simp add: bucket_of_def conj_commute)
  then show ?thesis
    by (simp add: sorted_groups_def filter_concat o_def sorted_bucket_merge [OF assms])
qed

text \<open>Lists made of the sorted buckets are in order, and keep the order of what compares equal.\<close>

lemma sorted_buckets_in_order:
  assumes "lawful_options md opts" "sorted ks" "distinct ks" "node_group opts items ` set nodes \<subseteq> set ks"
    and "result = concat (map (\<lambda>k. merge_sort (flat_nodes E opts md items (spec_of opts k)) (bucket_of opts items k nodes)) ks)"
  shows "sorted_wrt (\<lambda>a b. node_group opts items a < node_group opts items b \<or>
       node_group opts items a = node_group opts items b \<and> effective E opts md items a b \<noteq> Larger) result"
    and "filter (\<lambda>b. node_group opts items b = node_group opts items a \<and> effective E opts md items a b = Same) result =
       filter (\<lambda>b. node_group opts items b = node_group opts items a \<and> effective E opts md items a b = Same) nodes"
proof -
  let ?key = "node_group opts items"
  let ?cmp = "\<lambda>k. flat_nodes E opts md items (spec_of opts k)"
  let ?g = "\<lambda>k. merge_sort (?cmp k) (bucket_of opts items k nodes)"
  let ?alike = "\<lambda>b. ?key b = ?key a \<and> effective E opts md items a b = Same"
  note laws = comparing_flat_nodes [OF assms(1)]
  have "sorted_wrt (\<lambda>a b. ?key a < ?key b \<or> ?key a = ?key b \<and> ?cmp (?key a) a b \<noteq> Larger) result"
    unfolding assms(5) by (rule sorted_wrt_concat [where R = "\<lambda>k a b. ?cmp k a b \<noteq> Larger"])
      (simp_all add: assms(2,3) comparing.merge_sort_increasing [OF laws] bucket_of_def)
  then show "sorted_wrt (\<lambda>a b. ?key a < ?key b \<or> ?key a = ?key b \<and> effective E opts md items a b \<noteq> Larger) result"
    by (rule sorted_wrt_mono_rel [rotated]) (auto simp: effective_flat [OF assms(1)])
  have same: "filter ?alike xs = filter (\<lambda>b. ?cmp (?key a) a b = Same) (bucket_of opts items (?key a) xs)" for xs
    unfolding filter_filter bucket_of_def by (rule filter_cong) (auto simp: effective_flat [OF assms(1)])
  have "filter ?alike result = filter (\<lambda>b. ?cmp (?key a) a b = Same) (bucket_of opts items (?key a) nodes)"
    unfolding assms(5)
  proof (rule in_sorted_groups_filter [where k = "?key a"])
    fix k' assume "k' \<noteq> ?key a"
    then show "filter ?alike (?g k') = []" by (auto simp: filter_empty_conv bucket_of_def)
  next
    have "bucket_of opts items (?key a) (?g (?key a)) = ?g (?key a)" by (simp add: filter_True bucket_of_def)
    then show "filter ?alike (?g (?key a)) = filter (\<lambda>b. ?cmp (?key a) a b = Same) (bucket_of opts items (?key a) nodes)"
      by (simp only: same comparing.merge_sort_stable [OF laws])
  next
    assume "?key a \<notin> set ks"
    with assms(4) have "\<forall>n \<in> set nodes. ?key n \<noteq> ?key a" by (metis image_eqI subsetD)
    then show "filter (\<lambda>b. ?cmp (?key a) a b = Same) (bucket_of opts items (?key a) nodes) = []"
      by (simp add: filter_empty_conv bucket_of_def)
  qed (rule assms(3))
  then show "filter ?alike result = filter ?alike nodes" by (simp only: same)
qed

definition movable :: "options \<Rightarrow> bool \<Rightarrow> (group_spec \<Rightarrow> 'f item \<Rightarrow> bool) \<Rightarrow> 'f item list \<Rightarrow> nat \<Rightarrow> bool" where
  "movable opts ignore_disabled ig items n \<longleftrightarrow> \<not> stays ignore_disabled items n \<and> \<not> held opts ig items n"

text \<open>
  C36: With a collator that is a total preorder and no natural order, sorting a partition by groups permutes it so
  that the disabled elements stay at their index where they are to be skipped; those of a group that its \<open>ignored\<close>
  predicate names stay at their place in the group; and the others, the movable ones, are sorted stably: their
  groups ascend, none compares larger than a later one of its group, and those that compare equal keep the order
  they had.
\<close>

theorem groups_are_sorted_stably:
  assumes "lawful_options md opts"
    and "sort_by_groups E opts md items nodes ignore_disabled ig = result"
  shows "mset result = mset nodes \<and>
     (\<forall>i < length nodes. stays ignore_disabled items (nodes ! i) \<longrightarrow> result ! i = nodes ! i) \<and>
     (\<forall>k i. i < length (bucket_of opts items k (filter (\<lambda>n. \<not> stays ignore_disabled items n) nodes)) \<longrightarrow>
       held opts ig items (bucket_of opts items k (filter (\<lambda>n. \<not> stays ignore_disabled items n) nodes) ! i) \<longrightarrow>
       bucket_of opts items k (filter (\<lambda>n. \<not> stays ignore_disabled items n) result) ! i =
         bucket_of opts items k (filter (\<lambda>n. \<not> stays ignore_disabled items n) nodes) ! i) \<and>
     sorted_wrt (\<lambda>a b. node_group opts items a < node_group opts items b \<or>
       node_group opts items a = node_group opts items b \<and> effective E opts md items a b \<noteq> Larger)
       (filter (movable opts ignore_disabled ig items) result) \<and>
     filter (\<lambda>b. node_group opts items b = node_group opts items a \<and> effective E opts md items a b = Same)
         (filter (movable opts ignore_disabled ig items) result) =
       filter (\<lambda>b. node_group opts items b = node_group opts items a \<and> effective E opts md items a b = Same)
         (filter (movable opts ignore_disabled ig items) nodes)"
proof -
  let ?stays = "stays ignore_disabled items" and ?free = "\<lambda>n. \<not> held opts ig items n"
  let ?placed = "filter (\<lambda>n. \<not> ?stays n) nodes"
  let ?ks = "sorted_list_of_set (node_group opts items ` set ?placed)"
  note facts = refill_facts [of "sorted_groups E opts md items ig ?placed" ?stays nodes]
  have len: "length (sorted_groups E opts md items ig ?placed) = length ?placed"
    and moved: "\<forall>k \<in> set (sorted_groups E opts md items ig ?placed). \<not> ?stays k" by simp_all
  have result: "result = refill ?stays nodes (sorted_groups E opts md items ig ?placed)"
    using assms(2) by (simp add: sort_by_groups_refill)
  have placed: "filter (\<lambda>n. \<not> ?stays n) result = sorted_groups E opts md items ig ?placed"
    using facts [OF len moved] by (simp only: result)
  have movable: "filter (movable opts ignore_disabled ig items) xs = filter ?free (filter (\<lambda>n. \<not> ?stays n) xs)" for xs
    unfolding filter_filter by (rule filter_cong) (auto simp: movable_def)
  have "node_group opts items ` set (filter ?free ?placed) \<subseteq> set ?ks" by auto
  note order = sorted_buckets_in_order [OF assms(1) _ _ this free_sorted_groups [OF assms(1), where items = items and ig = ig and E = E and placed = ?placed]]
  show ?thesis
  proof (intro conjI allI impI)
    show "mset result = mset nodes" using assms(2) by auto
    show "result ! i = nodes ! i" if "i < length nodes" "?stays (nodes ! i)" for i
      using facts [OF len moved] that by (simp only: result)
    show "bucket_of opts items k (filter (\<lambda>n. \<not> ?stays n) result) ! i = bucket_of opts items k ?placed ! i"
      if "i < length (bucket_of opts items k ?placed)" "held opts ig items (bucket_of opts items k ?placed ! i)" for k i
      unfolding placed bucket_of_sorted_groups using that by (rule sorted_bucket_holds)
  qed (simp_all only: movable placed order sorted_sorted_list_of_set distinct_sorted_list_of_set)
qed

section \<open>Examples\<close>

definition plain_floats :: "nat float_ops" where
  "plain_floats = \<lparr>f_class = (\<lambda>n. if n = 0 then FloatZero else FloatFinite), f_negative = (\<lambda>_. False), f_infinity = 0,
     f_of_nat = (\<lambda>n. n), f_mul = (*), f_add = (+), f_neg = (\<lambda>n. n), f_parse = (\<lambda>_. None),
     f_lower_exp = (\<lambda>n. decimal n @ ''e0''), f_trunc = int, f_partial_cmp = (\<lambda>a b. Some (ord_cmp a b))\<rparr>"

definition plain_sort_env :: "nat sort_env" where
  "plain_sort_env = \<lparr>se_natural = \<lparr>nt_float = plain_floats, nt_lower = (\<lambda>s. s), nt_numbers = (\<lambda>_. []), nt_collate = compare_units\<rparr>,
     se_nan = 0, se_remove = (\<lambda>s. s), se_trim = (\<lambda>s. s)\<rparr>"

definition plain_options :: "sort_spec \<Rightarrow> group list \<Rightarrow> options" where
  "plain_options s gs = \<lparr>op_sort = s, op_fallback = no_patch\<lparr>sp_kind := Some Unsorted\<rparr>,
     op_text = \<lparr>tx_special = KeepSpecial, tx_ignore_case = False, tx_alphabet = [], tx_collate = compare_units\<rparr>,
     op_partition_comment = PartitionOff, op_partition_newline = False, op_newlines_between = IgnoreNewlines,
     op_newlines_inside = BetweenInside, op_groups = gs, op_custom_groups = [],
     op_group_names = {}, op_when = \<lparr>wh_all_names = None, wh_selector = None, wh_tag = None,
       wh_numeric_keys_only = None, wh_declaration_comment = None, wh_declaration = None,
       wh_calling_function = None, wh_object_type = None\<rparr>, op_sort_by_value = IfNumericEnum,
     op_experimental = True, op_ignore_callback = None, op_partition_by_computed_key = False,
     op_styled_components = True\<rparr>"

definition plain_item :: "u32 \<Rightarrow> string \<Rightarrow> bool \<Rightarrow> string list \<Rightarrow> string list \<Rightarrow> nat item" where
  "plain_item len gname disabled names deps = \<lparr>it_span = \<lparr>sp_start = 0, sp_end = len\<rparr>, it_name = [], it_value = [],
     it_numeric = None, it_size = len, it_group = gname, it_partition = 0, it_disabled = disabled,
     it_semicolon = False, it_dependency_names = names, it_dependencies = deps\<rparr>"

definition by_length :: sort_spec where
  "by_length = \<lparr>so_kind = LineLength, so_order = Asc, so_by = ByName\<rparr>"

definition sample_options :: options where
  "sample_options = plain_options by_length [NamesGroup (OneName ''a'')]"

definition sample_items :: "nat item list" where
  "sample_items = [plain_item 9 ''b'' False [] [], plain_item 5 ''b'' True [] [], plain_item 7 ''a'' False [] []]"

lemma sorting_by_groups_permutes_witness:
  "mset (sort_by_groups plain_sort_env sample_options NameMode sample_items [0, 1, 2] True (\<lambda>_ _. False)) =
     mset [0, 1, 2] \<and>
   sort_by_groups plain_sort_env sample_options NameMode sample_items [0, 1, 2] True (\<lambda>_ _. False) ! 1 = 1"
proof -
  have "it_disabled (sample_items ! ([0, 1, 2] ! 1))" by (simp add: sample_items_def plain_item_def)
  with sorting_by_groups_permutes [OF refl, of plain_sort_env sample_options NameMode sample_items "[0, 1, 2]" True
      "\<lambda>_ _. False"]
  show ?thesis by force
qed

lemma spec_of_plain [simp]:
  assumes "\<forall>g \<in> set gs. \<exists>ns. g = NamesGroup ns"
  shows "spec_of (plain_options s gs) k = \<lparr>gs_sort = s, gs_fallback = no_patch\<lparr>sp_kind := Some Unsorted\<rparr>\<rparr>"
proof (cases "k < length gs")
  case True
  with assms obtain ns where "gs ! k = NamesGroup ns" by (meson nth_mem)
  with True show ?thesis
    by (simp add: spec_of_def plain_options_def group_at_def custom_named_def Let_def split: option.splits)
qed (simp add: spec_of_def plain_options_def group_at_def custom_named_def)

text \<open>Two of a group in the wrong order around a disabled one, and one that the group holds.\<close>

definition mixed_items :: "nat item list" where
  "mixed_items = [plain_item 9 ''b'' False [] [], plain_item 5 ''b'' True [] [], plain_item 7 ''b'' False [] [],
     plain_item 3 ''b'' False [] [], plain_item 8 ''a'' False [] []]"

lemma groups_are_sorted_stably_witness:
  "mset (sort_by_groups plain_sort_env sample_options NameMode mixed_items [0, 1, 2, 3, 4] True (\<lambda>_ i. it_name i = [] \<and> sp_end (it_span i) = 3)) =
     mset [0, 1, 2, 3, 4] \<and>
   sort_by_groups plain_sort_env sample_options NameMode mixed_items [0, 1, 2, 3, 4] True
     (\<lambda>_ i. it_name i = [] \<and> sp_end (it_span i) = 3) ! 1 = 1"
proof -
  have lawful: "lawful_options NameMode sample_options"
    by (simp add: lawful_options_def lawful_sort_def sample_options_def fallback_sort_def patch_apply_def
      no_patch_def unwrap_or_def by_length_def)
      (simp add: plain_options_def units.comparing_axioms)
  have disabled: "stays True mixed_items ([0, 1, 2, 3, 4] ! 1)"
    by (simp add: stays_def mixed_items_def plain_item_def)
  note claim = groups_are_sorted_stably [OF lawful refl, of plain_sort_env mixed_items "[0, 1, 2, 3, 4]" True
      "\<lambda>_ i. it_name i = [] \<and> sp_end (it_span i) = 3"]
  from claim [THEN conjunct2, THEN conjunct1, rule_format, OF _ disabled] claim [THEN conjunct1]
  show ?thesis by simp
qed

end
