(* ===== verification/SourceFacts.thy ===== *)
theory SourceFacts imports
  ReportFacts
  SortFacts
begin

text \<open>
  The loops over comments and tokens (\<^verbatim>\<open>source.rs\<close>, \<^verbatim>\<open>report.rs\<close>) end on every file whose comments are
  not empty, so every partition is reported; and the lines the directives of a file disable.
\<close>

section \<open>Files\<close>

definition file_src :: "string \<Rightarrow> parsed_comment list \<Rightarrow> src" where
  "file_src t pcs = \<lparr>src_text = t, src_index = source_index_new t pcs\<rparr>"

definition proper_file :: "string \<Rightarrow> parsed_comment list \<Rightarrow> bool" where
  "proper_file t pcs \<longleftrightarrow>
     length t < u32_max \<and>
     (\<forall>pc \<in> set pcs. sp_start (pc_span pc) < sp_end (pc_span pc) \<and> unat (sp_end (pc_span pc)) \<le> length t)"

lemma src_text_file [simp]: "src_text (file_src t pcs) = t"
  by (simp add: file_src_def)

lemma index_by_Some: "index_by f cs p = Some i \<Longrightarrow> i < length cs \<and> f (cs ! i) = p"
  by (auto simp: index_by_def in_set_enumerate_eq dest!: map_of_SomeD)

lemma comment_of_span [simp]: "cm_span (comment_of pc) = pc_span pc"
  by (simp add: comment_of_def Let_def case_prod_unfold)

lemma comment_at_file:
  assumes "proper_file t pcs" "comment_at (file_src t pcs) p = Some c"
  shows "sp_start (cm_span c) = p \<and> p < sp_end (cm_span c) \<and> unat (sp_end (cm_span c)) \<le> length t"
  using assms
  by (auto simp: comment_at_def file_src_def source_index_new_def Let_def proper_file_def dest!: index_by_Some)

lemma comment_ending_file:
  assumes "proper_file t pcs" "comment_ending (file_src t pcs) p = Some c"
  shows "sp_end (cm_span c) = p \<and> sp_start (cm_span c) < p"
  using assms
  by (auto simp: comment_ending_def file_src_def source_index_new_def Let_def proper_file_def dest!: index_by_Some)

lemma skip_space_back_le: "skip_space_back S pos \<le> pos"
proof -
  let ?t = "case str_slice (src_text S) 0 (unat pos) of Some t \<Rightarrow> t | None \<Rightarrow> []"
  have "length ?t \<le> unat pos" by (auto simp: str_slice_def span_def split: option.splits if_splits)
  then have "length (js_trim_end ?t) \<le> unat pos" using js_trim_end_length [of ?t] by simp
  then show ?thesis by (simp add: skip_space_back_def saturate_le)
qed

lemma skip_space_bounds:
  assumes "length (src_text S) < u32_max" "unat pos \<le> length (src_text S)"
  shows "pos \<le> skip_space S pos \<and> unat (skip_space S pos) \<le> length (src_text S)"
proof -
  let ?t = "case str_tail (src_text S) (unat pos) of Some t \<Rightarrow> t | None \<Rightarrow> []"
  let ?n = "length ?t - length (js_trim_start ?t)"
  have n: "?n \<le> length (src_text S) - unat pos"
    by (auto simp: str_tail_def str_slice_def span_def split: option.splits if_splits)
  with assms have "unat (saturate_u32 ?n) = ?n" by (intro saturate_small) simp
  moreover have "unat pos + ?n < 2 ^ 32" using n assms by (simp add: u32_max_def)
  ultimately have "unat (skip_space S pos) = unat pos + ?n"
    by (simp add: skip_space_def Let_def unat_word_ariths)
  with n assms(2) show ?thesis by (simp add: word_le_nat_alt)
qed

section \<open>Ends of loops\<close>

definition place_of_token :: "src \<Rightarrow> u32 \<Rightarrow> u32 option \<Rightarrow> bool" where
  "place_of_token S pos r \<longleftrightarrow> (case r of None \<Rightarrow> True | Some p \<Rightarrow> 0 < p \<and> p \<le> pos \<and> comment_ending S p = None)"

lemma token_before_ends:
  assumes "proper_file t pcs"
  shows "\<exists>r. token_before (file_src t pcs) pos = Some r \<and> place_of_token (file_src t pcs) pos r"
proof (induction "unat pos" arbitrary: pos rule: less_induct)
  case less
  let ?S = "file_src t pcs"
  let ?p = "skip_space_back ?S pos"
  show ?case
  proof (cases "comment_ending ?S ?p")
    case None
    then show ?thesis
      using skip_space_back_le [of ?S pos]
      by (subst token_before.simps) (simp add: Let_def place_of_token_def)
  next
    case (Some c)
    let ?q = "sp_start (cm_span c)"
    have "?q < pos"
      using comment_ending_file [OF assms Some] skip_space_back_le [of ?S pos] by (meson order.strict_trans2)
    then have lt: "unat ?q < unat pos" by (simp add: word_less_nat_alt)
    from less [OF lt] obtain r where "token_before ?S ?q = Some r" "place_of_token ?S ?q r" by auto
    with Some \<open>?q < pos\<close> show ?thesis
      by (subst token_before.simps) (auto simp: Let_def place_of_token_def split: option.splits)
  qed
qed

lemma comments_before_ends:
  assumes "proper_file t pcs"
  shows "\<exists>cs. comments_back (file_src t pcs) pos found = Some cs"
proof (induction "unat pos" arbitrary: pos found rule: less_induct)
  case less
  let ?S = "file_src t pcs"
  show ?case
  proof (cases "comment_ending ?S (skip_space_back ?S pos)")
    case None
    then show ?thesis by (subst comments_back.simps) simp
  next
    case (Some c)
    have "sp_start (cm_span c) < pos"
      using comment_ending_file [OF assms Some] skip_space_back_le [of ?S pos] by (meson order.strict_trans2)
    with less have "\<exists>cs. comments_back ?S (sp_start (cm_span c)) (c # found) = Some cs"
      by (simp add: word_less_nat_alt)
    with Some show ?thesis by (subst comments_back.simps) simp
  qed
qed

lemma token_after_ends:
  assumes "proper_file t pcs"
  shows "\<exists>r. token_after (file_src t pcs) pos = Some r \<and> (\<forall>p. r = Some p \<longrightarrow> unat p < length t)"
proof (induction "u32_max - unat pos" arbitrary: pos rule: less_induct)
  case less
  let ?S = "file_src t pcs"
  show ?case
  proof (cases "comment_at ?S (skip_space ?S pos)")
    case None
    then show ?thesis by (subst token_after.simps) (simp add: Let_def)
  next
    case (Some c)
    note c = comment_at_file [OF assms Some]
    have "pos \<le> skip_space ?S pos"
    proof (cases "unat pos \<le> length t")
      case True
      then show ?thesis using skip_space_bounds [of ?S pos] assms by (simp add: proper_file_def)
    next
      case False
      then show ?thesis
        by (simp add: skip_space_def str_tail_def str_slice_def saturate_u32_def js_trim_start_def)
    qed
    with c have lt: "unat pos < unat (sp_end (cm_span c))" by (simp add: word_less_nat_alt word_le_nat_alt)
    moreover have "unat (sp_end (cm_span c)) \<le> u32_max" using c assms by (simp add: proper_file_def)
    ultimately have "u32_max - unat (sp_end (cm_span c)) < u32_max - unat pos" by simp
    from less [OF this] Some show ?thesis by (subst token_after.simps) (simp add: Let_def)
  qed
qed

lemma relevant_comments_end:
  assumes "proper_file t pcs"
  shows "\<exists>cs. relevant_comments_before (file_src t pcs) pos = Some cs"
proof -
  have "\<exists>b. own_line (file_src t pcs) c = Some b" for c
    using token_before_ends [OF assms, of "sp_start (cm_span c)"] by (auto simp: own_line_def)
  then have "\<exists>ys. filter_option (own_line (file_src t pcs)) cs = Some ys" for cs
  proof (induction cs)
    case (Cons c cs)
    moreover obtain b where "own_line (file_src t pcs) c = Some b" using Cons.prems by blast
    ultimately show ?case by auto
  qed simp
  with comments_before_ends [OF assms, of pos "[]"] show ?thesis
    by (auto simp: relevant_comments_before_def comments_before_def)
qed

lemma char_at_in_file: "char_at S p = Some c \<Longrightarrow> unat p < length (src_text S)"
  by (auto simp: char_at_def str_tail_def str_slice_def span_def split: if_splits list.splits option.splits)
    (metis le_neq_implies_less diff_self_eq_0 drop_eq_Nil2 nle_le str_chars.simps(1) list.distinct(1) take_Nil)

lemma comment_after_ends:
  assumes "proper_file t pcs"
  shows "\<exists>r. comment_after_from (file_src t pcs) sp pos = Some r"
proof (induction "u32_max - unat pos" arbitrary: pos rule: less_induct)
  case less
  let ?S = "file_src t pcs"
  show ?case
  proof (cases "str_tail t (unat pos)")
    case None
    then show ?thesis by (subst comment_after_from.simps) simp
  next
    case (Some rest)
    then have le: "unat pos \<le> length t" by (auto simp: str_tail_def str_slice_def split: if_splits)
    let ?p = "pos + saturate_u32 (length rest - length (js_trim_start rest))"
    have p: "?p = skip_space ?S pos" using Some by (simp add: skip_space_def)
    show ?thesis
    proof (cases "comment_at ?S ?p = None \<and> char_is_in (char_at ?S ?p) ['','', '';'', '':''] ")
      case False
      with Some show ?thesis by (subst comment_after_from.simps) (auto simp: Let_def split: option.splits)
    next
      case True
      then obtain c where "char_at ?S ?p = Some c" by (auto simp: char_is_in_def split: option.splits)
      then have lt: "unat ?p < length t" using char_at_in_file by fastforce
      have small: "length t < u32_max" using assms by (simp add: proper_file_def)
      have "unat pos \<le> unat ?p"
        using skip_space_bounds [of ?S pos] small le by (simp add: p word_le_nat_alt)
      moreover have "unat (?p + 1) = unat ?p + 1"
        using lt assms by (simp add: proper_file_def u32_max_def unat_word_ariths)
      ultimately have "u32_max - unat (?p + 1) < u32_max - unat pos"
        using lt small by linarith
      from less [OF this] True Some show ?thesis
        by (subst comment_after_from.simps) (simp add: Let_def)
    qed
  qed
qed


section \<open>Reports\<close>

lemma node_range_ends: "proper_file t pcs \<Longrightarrow> \<exists>r. node_range (file_src t pcs) sp pc = Some r"
  using relevant_comments_end [of t pcs "sp_start sp"] by (auto simp: node_range_def)

lemma collect_fixes_end:
  "(\<And>n m. \<exists>es. f n m = Some es) \<Longrightarrow> \<exists>es. collect_fixes f ns ms = Some es"
proof (induction f ns ms rule: collect_fixes.induct)
  case (1 f n ns m ms)
  obtain es where "f n m = Some es" using 1(3) by blast
  with 1 show ?case by (cases "n = m") auto
qed simp_all

lemma order_fixes_end:
  assumes "proper_file t pcs" "rp_src R = file_src t pcs"
  shows "\<exists>es. order_fixes R ns ms = Some es"
  unfolding order_fixes_def
proof (rule collect_fixes_end)
  fix n m
  obtain a b where "node_range (file_src t pcs) (it_span (rp_items R ! m)) (rp_partition_comment R) = Some (a, b)"
    using node_range_ends [OF assms(1)] by fast
  moreover obtain c d where "node_range (file_src t pcs) (it_span (rp_items R ! n)) (rp_partition_comment R) = Some (c, d)"
    using node_range_ends [OF assms(1)] by fast
  moreover obtain r where "token_after (file_src t pcs) (sp_end (it_span (rp_items R ! n))) = Some r"
    using token_after_ends [OF assms(1)] by blast
  ultimately show "\<exists>es. map_option (\<lambda>e. [e]) (order_fix R n m) = Some es"
    by (simp add: order_fix_def assms(2) Let_def)
qed

lemma comment_fixes_end:
  assumes "proper_file t pcs" "rp_src R = file_src t pcs"
  shows "\<exists>es. comment_after_fixes R ns ms = Some es"
  unfolding comment_after_fixes_def
proof (rule collect_fixes_end)
  fix n m
  let ?S = "file_src t pcs" and ?node = "it_span (rp_items R ! n)" and ?other = "it_span (rp_items R ! m)"
  have moves: "\<exists>es. move_comment ?S ?node c p = Some es" for c p
  proof -
    obtain r where r: "insertion_point ?S ?node = Some r"
      using token_after_ends [OF assms(1), of "sp_end ?node"] by (auto simp: insertion_point_def)
    obtain r' where "token_after ?S r = Some r'" using token_after_ends [OF assms(1)] by blast
    with r show ?thesis by (simp add: move_comment_def Let_def)
  qed
  obtain f where f: "comment_after ?S ?other = Some f"
    using comment_after_ends [OF assms(1)] by (auto simp: comment_after_def)
  show "\<exists>es. comment_fix R n m = Some es"
  proof (cases f)
    case None
    with f show ?thesis by (simp add: comment_fix_def assms(2) Let_def)
  next
    case (Some c)
    obtain r where "token_before ?S (sp_start c) = Some r" using token_before_ends [OF assms(1)] by blast
    with f Some moves show ?thesis
      by (cases r) (auto simp: comment_fix_def assms(2) Let_def)
  qed
qed

lemma newline_fix_end:
  assumes "proper_file t pcs" "rp_src R = file_src t pcs"
  shows "\<exists>es. newline_fix R a b = Some es"
proof -
  obtain x y where "node_range (file_src t pcs) (it_span (rp_items R ! fst a)) PartitionOff = Some (x, y)"
    using node_range_ends [OF assms(1)] by fast
  moreover obtain z w where "node_range (file_src t pcs) (it_span (rp_items R ! snd a)) PartitionOff = Some (z, w)"
    using node_range_ends [OF assms(1)] by fast
  ultimately show ?thesis
    by (auto simp: newline_fix_def assms(2) Let_def split: newlines.splits)
qed

lemma newline_fixes_end:
  "proper_file t pcs \<Longrightarrow> rp_src R = file_src t pcs \<Longrightarrow> \<exists>es. newline_fixes R ns ms = Some es"
proof (induction R ns ms rule: newline_fixes.induct)
  case (1 R n n' ns m m' ms)
  obtain es where "newline_fix R (n, n') (m, m') = Some es" using newline_fix_end [OF 1(2,3)] by blast
  with 1 show ?case by auto
qed simp_all

lemma merge_fixes_one: "length (merge_fixes S es) \<le> 1"
  by (auto simp: merge_fixes_def Let_def split: option.splits)

text \<open>
  C37: On a file whose comments are not empty, the report of a partition is always made: every loop over
  comments and tokens ends. There is a report for each problem found, in order, and all of them carry
  the same fix, of at most one edit.
\<close>

theorem every_partition_is_reported:
  assumes "proper_file t pcs" "rp_src R = file_src t pcs"
  shows "\<exists>ps edits. report_run R nodes moved excluding = Some ps \<and>
     map (\<lambda>p. (pb_span p, pb_message p)) ps = found_problems R nodes moved excluding \<and>
     pb_fix ` set ps \<subseteq> {edits} \<and> length edits \<le> 1"
proof -
  obtain order comments lines where
    "order_fixes R nodes excluding = Some order" "comment_after_fixes R nodes excluding = Some comments"
    "newline_fixes R nodes excluding = Some lines"
    using order_fixes_end [OF assms] comment_fixes_end [OF assms] newline_fixes_end [OF assms] by fast
  then obtain fs where "fix_for R nodes excluding = Some fs" "length fs \<le> 1"
    by (cases "comments = []") (auto simp: fix_for_def merge_fixes_one [unfolded One_nat_def])
  then show ?thesis
    by (cases "found_problems R nodes moved excluding = []")
      (auto simp: report_run_def Let_def o_def case_prod_unfold intro!: exI [of _ fs])
qed

section \<open>Disabled lines\<close>

definition rule_directive :: "src \<Rightarrow> string \<Rightarrow> comment \<Rightarrow> directive option" where
  "rule_directive S rule c =
     (case directive_of (comment_value S c) of
        None \<Rightarrow> None
      | Some (d, None) \<Rightarrow> Some d
      | Some (d, Some rs) \<Rightarrow> if rule \<in> set rs then Some d else None)"

text \<open>The directives of a file that concern a rule, in the order of their comments.\<close>

definition rule_directives :: "src \<Rightarrow> string \<Rightarrow> (directive \<times> comment) list" where
  "rule_directives S rule =
     List.map_filter (\<lambda>c. map_option (\<lambda>d. (d, c)) (rule_directive S rule c)) (ix_comments (src_index S))"

text \<open>The comment since which the rule is disabled: the first \<open>eslint-disable\<close> after the last \<open>eslint-enable\<close>.\<close>

definition disabled_from :: "(directive \<times> comment) list \<Rightarrow> comment option" where
  "disabled_from es =
     map_option snd (find (\<lambda>e. fst e = Disable) (rev (takeWhile (\<lambda>e. fst e \<noteq> Enable) (rev es))))"

fun disables :: "src \<Rightarrow> (directive \<times> comment) list \<Rightarrow> directive \<times> comment \<Rightarrow> u32 \<Rightarrow> bool" where
  "disables S before (DisableNextLine, c) l \<longleftrightarrow> l = src_line S (sp_end (cm_span c)) + 1"
| "disables S before (DisableLine, c) l \<longleftrightarrow> l = src_line S (sp_start (cm_span c))"
| "disables S before (Disable, c) l \<longleftrightarrow> False"
| "disables S before (Enable, c) l \<longleftrightarrow>
     (case disabled_from before of
        None \<Rightarrow> False
      | Some d \<Rightarrow> src_line S (sp_start (cm_span d)) + 1 \<le> l \<and> l \<le> src_line S (sp_start (cm_span c)))"

lemma step_disabled_directive:
  "step_disabled S rule c st =
     (case rule_directive S rule c of None \<Rightarrow> st | Some d \<Rightarrow> apply_directive S c d st)"
  by (auto simp: step_disabled_def rule_directive_def split: option.split prod.splits)

lemma fold_step_disabled:
  "fold (step_disabled S rule) cs st =
     fold (\<lambda>(d, c). apply_directive S c d)
       (List.map_filter (\<lambda>c. map_option (\<lambda>d. (d, c)) (rule_directive S rule c)) cs) st"
  by (induction cs arbitrary: st)
    (auto simp: step_disabled_directive List.map_filter_simps split: option.split)

lemma disabled_from_snoc:
  "disabled_from (es @ [e]) =
     (if fst e = Enable then None
      else case disabled_from es of Some d \<Rightarrow> Some d | None \<Rightarrow> if fst e = Disable then Some (snd e) else None)"
proof -
  have "find P (xs @ ys) = (case find P xs of Some z \<Rightarrow> Some z | None \<Rightarrow> find P ys)"
    for P and xs ys :: "(directive \<times> comment) list"
    by (induction xs) simp_all
  then show ?thesis by (auto simp: disabled_from_def split: option.split)
qed

lemma saturate_positive: "saturate_u32 (Suc n) \<noteq> 0"
proof -
  have "unat (saturate_u32 (Suc n)) \<noteq> 0"
    using saturate_small [of "Suc n"] saturate_small [of u32_max]
    by (cases "Suc n \<le> u32_max") (auto simp: saturate_u32_def u32_max_def)
  then show ?thesis by auto
qed

lemma src_line_positive: "src_line (file_src t pcs) p \<noteq> 0"
  by (simp add: src_line_def index_line_def file_src_def source_index_new_def Let_def partition_point_def
      saturate_positive)

lemma snoc_split:
  "es @ [x] = pre @ e # post \<longleftrightarrow>
     (post = [] \<and> pre = es \<and> e = x) \<or> (\<exists>post'. post = post' @ [x] \<and> es = pre @ e # post')"
  by (cases post rule: rev_cases) auto

lemma apply_directive_disables:
  fixes t pcs
  defines "S \<equiv> file_src t pcs"
  shows "apply_directive S c d (A, map_option (\<lambda>c. src_line S (sp_start (cm_span c))) (disabled_from es)) =
     (A \<union> {l. disables S es (d, c) l},
      map_option (\<lambda>c. src_line S (sp_start (cm_span c))) (disabled_from (es @ [(d, c)])))"
  by (cases d) (auto simp: apply_directive_def disabled_from_snoc src_line_positive S_def split: option.splits)

lemma fold_directives:
  fixes t pcs
  defines "S \<equiv> file_src t pcs"
  shows "fold (\<lambda>(d, c). apply_directive S c d) es ({}, None) =
     ({l. \<exists>pre e post. es = pre @ e # post \<and> disables S pre e l},
      map_option (\<lambda>c. src_line S (sp_start (cm_span c))) (disabled_from es))"
proof (induction es rule: rev_induct)
  case Nil
  then show ?case by (simp add: disabled_from_def)
next
  case (snoc x es)
  obtain d c where x: "x = (d, c)" by (cases x)
  have "{l. \<exists>pre e post. es @ [x] = pre @ e # post \<and> disables S pre e l} =
      {l. \<exists>pre e post. es = pre @ e # post \<and> disables S pre e l} \<union> {l. disables S es x l}"
    unfolding snoc_split by blast
  then show ?case
    using snoc apply_directive_disables [of t pcs c d _ es]
    by (simp only: x S_def fold_append comp_def fold_simps prod.case id_apply)
qed

text \<open>
  The lines disabled for a rule are those its directives name: the line after an
  \<open>eslint-disable-next-line\<close>, the line of an \<open>eslint-disable-line\<close>, and, for each \<open>eslint-enable\<close>, the
  lines up to it since the first \<open>eslint-disable\<close> after the one before (and no line for an
  \<open>eslint-disable\<close> that no \<open>eslint-enable\<close> follows).
\<close>

theorem disabled_lines_are_those_named:
  "l \<in> disabled_lines (file_src t pcs) rule \<longleftrightarrow>
     (\<exists>pre e post. rule_directives (file_src t pcs) rule = pre @ e # post \<and> disables (file_src t pcs) pre e l)"
  by (simp add: disabled_lines_def fold_step_disabled rule_directives_def fold_directives)

definition empty_report :: "nat report" where
  "empty_report = \<lparr>rp_src = file_src ''a b'' [], rp_options = plain_options by_length [],
     rp_items = [plain_item 3 ''u'' False [] [], plain_item 2 ''u'' False [] []],
     rp_messages = \<lparr>ms_order = ''o'', ms_group_order = ''g'', ms_extra_spacing = ''e'', ms_missed_spacing = ''m'',
       ms_dependency_order = None\<rparr>, rp_partition_comment = PartitionOff\<rparr>"

lemma every_partition_is_reported_witness:
  "report_run empty_report [0, 1] [1, 0] [1, 0] \<noteq> None"
  using every_partition_is_reported [of "''a b''" "[]" empty_report "[0, 1]" "[1, 0]" "[1, 0]"]
  by (auto simp: proper_file_def u32_max_def empty_report_def)

end
