(* ===== verification/PerfParse.thy ===== *)
theory PerfParse imports
  PerfOptions
begin

text \<open>
  \<^verbatim>\<open>crates/lint/src/rules/perfectionist/options.rs\<close>: reading the options of a rule from JSON (defaults,
  then settings, then the option itself), and the checks every rule makes of them. What a locale tag
  means and the collator it gives are arguments.
\<close>

section \<open>Values\<close>

record schema =
  sc_selectors :: "string list"
  sc_modifiers :: "string list"
  sc_match_keys :: "string list"
  sc_sort_by :: bool
  sc_partition_by_comment :: bool
  sc_when_keys :: "string list"
  sc_extra_keys :: "string list"
  sc_defaults :: json

record perf_env =
  pe_engine :: regex_engine
  pe_locale_error :: "string \<Rightarrow> string option"
  pe_collator :: "string \<Rightarrow> string + (string \<Rightarrow> string \<Rightarrow> ordering)"

type_synonym json_map = "(string \<times> json) list"

text \<open>\<open>serde_json::Map\<close> keeps the order of insertion; a key set again stays in its place.\<close>

fun map_put :: "string \<times> json \<Rightarrow> json_map \<Rightarrow> json_map" where
  "map_put (k, v) [] = [(k, v)]"
| "map_put (k, v) ((k', v') # m) = (if k' = k then (k, v) # m else (k', v') # map_put (k, v) m)"

definition map_extend :: "json_map \<Rightarrow> json_map \<Rightarrow> json_map" where
  "map_extend m entries = fold map_put entries m"

definition as_str :: "json \<Rightarrow> string option" where
  "as_str v = (case v of JString s \<Rightarrow> Some s | _ \<Rightarrow> None)"

definition json_string :: "json \<Rightarrow> string \<Rightarrow> string + string" where
  "json_string v key = (case v of JString s \<Rightarrow> Inr s | _ \<Rightarrow> Inl (quoted key @ '' must be a string''))"

definition json_object :: "json \<Rightarrow> string \<Rightarrow> string + json_map" where
  "json_object v key = (case v of JObject m \<Rightarrow> Inr m | _ \<Rightarrow> Inl (quoted key @ '' must be an object''))"

definition json_array :: "json \<Rightarrow> string \<Rightarrow> string + json list" where
  "json_array v key = (case v of JArray xs \<Rightarrow> Inr xs | _ \<Rightarrow> Inl (quoted key @ '' must be an array''))"

definition json_boolean :: "json option \<Rightarrow> string \<Rightarrow> string + bool option" where
  "json_boolean v key =
     (case v of
        None \<Rightarrow> Inr None
      | Some (JBool b) \<Rightarrow> Inr (Some b)
      | Some _ \<Rightarrow> Inl (quoted key @ '' must be a boolean''))"

definition parse_kind :: "json \<Rightarrow> string \<Rightarrow> string + sort_kind" where
  "parse_kind v key =
     (let s = as_str v in
      if s = Some ''alphabetical'' then Inr Alphabetical
      else if s = Some ''natural'' then Inr Natural
      else if s = Some ''line-length'' then Inr LineLength
      else if s = Some ''custom'' then Inr CustomOrder
      else if s = Some ''unsorted'' then Inr Unsorted
      else if s = Some ''subgroup-order'' then Inr SubgroupOrder
      else Inl (quoted key @ '' must be one of alphabetical, natural, line-length, custom, unsorted, subgroup-order''))"

definition parse_order :: "json \<Rightarrow> string \<Rightarrow> string + sort_order" where
  "parse_order v key =
     (let s = as_str v in
      if s = Some ''asc'' then Inr Asc
      else if s = Some ''desc'' then Inr Desc
      else Inl (quoted key @ '' must be '' @ quoted ''asc'' @ '' or '' @ quoted ''desc''))"

definition parse_by :: "json \<Rightarrow> string \<Rightarrow> string + sort_key_of" where
  "parse_by v key =
     (let s = as_str v in
      if s = Some ''name'' then Inr ByName
      else if s = Some ''value'' then Inr ByValue
      else Inl (quoted key @ '' must be '' @ quoted ''name'' @ '' or '' @ quoted ''value''))"

definition parse_special :: "json \<Rightarrow> string + special" where
  "parse_special v =
     (if v = JNull \<or> v = JString ''keep'' then Inr KeepSpecial
      else if v = JString ''trim'' then Inr TrimSpecial
      else if v = JString ''remove'' then Inr RemoveSpecial
      else Inl (quoted ''specialCharacters'' @ '' must be '' @ quoted ''remove'' @ '', '' @ quoted ''trim'' @
        '' or '' @ quoted ''keep''))"

definition newlines_error :: "string \<Rightarrow> string" where
  "newlines_error key = quoted key @ '' must be '' @ quoted ''ignore'' @ '' or a non-negative integer''"

definition parse_newlines :: "json \<Rightarrow> string \<Rightarrow> string + newlines" where
  "parse_newlines v key =
     (case v of
        JString s \<Rightarrow> if s = ''ignore'' then Inr IgnoreNewlines else Inl (newlines_error key)
      | JNumber n \<Rightarrow> if 0 \<le> n \<and> n < 2 ^ 32 then Inr (CountNewlines (of_int n)) else Inl (newlines_error key)
      | _ \<Rightarrow> Inl (newlines_error key))"

definition unexpected :: "string \<Rightarrow> string \<Rightarrow> string" where
  "unexpected key name = quoted key @ '': unexpected '' @ quoted name"

definition fallback_key :: "bool \<Rightarrow> string \<Rightarrow> string \<times> json \<Rightarrow> sort_patch \<Rightarrow> string + sort_patch" where
  "fallback_key sort_by key entry p =
     (let (name, v) = entry in
      if name = ''type'' then then_ok (parse_kind v (key @ ''.type'')) (\<lambda>k. Inr (p\<lparr>sp_kind := Some k\<rparr>))
      else if name = ''order'' then then_ok (parse_order v (key @ ''.order'')) (\<lambda>d. Inr (p\<lparr>sp_order := Some d\<rparr>))
      else if name = ''sortBy'' \<and> sort_by then then_ok (parse_by v (key @ ''.sortBy'')) (\<lambda>b. Inr (p\<lparr>sp_by := Some b\<rparr>))
      else Inl (unexpected key name))"

definition parse_fallback :: "json \<Rightarrow> bool \<Rightarrow> string \<Rightarrow> string + sort_patch" where
  "parse_fallback v sort_by key =
     then_ok (json_object v key) (\<lambda>m.
       then_ok (fold_ok (fallback_key sort_by key) m no_patch) (\<lambda>p.
         if sp_kind p = None then Inl (quoted key @ '' needs a '' @ quoted ''type'') else Inr p))"

text \<open>The last index of a code point stands first, where \<open>map_of\<close> finds it.\<close>

definition parse_alphabet :: "json option \<Rightarrow> string + (nat \<times> nat) list" where
  "parse_alphabet v =
     then_ok (case v of None \<Rightarrow> Inr [] | Some w \<Rightarrow> json_string w ''alphabet'') (\<lambda>t.
       Inr (rev (map (\<lambda>(i, c). (code_point c, i)) (List.enumerate 0 (str_chars t)))))"

definition locales_error :: string where
  "locales_error = quoted ''locales'' @ '' must be a string or an array of strings''"

definition locale_tag :: "json option \<Rightarrow> string + string" where
  "locale_tag v =
     (case v of
        None \<Rightarrow> Inr ''en-US''
      | Some (JString t) \<Rightarrow> Inr t
      | Some (JArray []) \<Rightarrow> Inr ''en-US''
      | Some (JArray (JString t # _)) \<Rightarrow> Inr t
      | Some _ \<Rightarrow> Inl locales_error)"

definition parse_collator :: "perf_env \<Rightarrow> json option \<Rightarrow> string + (string \<Rightarrow> string \<Rightarrow> ordering)" where
  "parse_collator E v =
     then_ok (locale_tag v) (\<lambda>tag.
       case pe_locale_error E tag of
         Some e \<Rightarrow> Inl (''invalid locale '' @ quoted tag @ '': '' @ e)
       | None \<Rightarrow>
           (case pe_collator E tag of
              Inl e \<Rightarrow> Inl (''no collation data for '' @ quoted tag @ '': '' @ e)
            | Inr c \<Rightarrow> Inr c))"

section \<open>Comments\<close>

definition parse_comment_match :: "perf_env \<Rightarrow> json \<Rightarrow> string \<Rightarrow> string + comment_match" where
  "parse_comment_match E v key =
     (case v of
        JBool b \<Rightarrow> Inr (MatchBool b)
      | _ \<Rightarrow> then_ok (regex_parse (pe_engine E) v False key) (\<lambda>r. Inr (MatchRegex r)))"

type_synonym comment_sides = "comment_match option \<times> comment_match option"

definition partition_key :: "perf_env \<Rightarrow> string \<times> json \<Rightarrow> comment_sides \<Rightarrow> string + comment_sides" where
  "partition_key E entry st =
     (let (name, v) = entry; (block, line) = st in
      if name = ''block''
      then then_ok (parse_comment_match E v ''partitionByComment.block'') (\<lambda>m. Inr (Some m, line))
      else if name = ''line''
      then then_ok (parse_comment_match E v ''partitionByComment.line'') (\<lambda>m. Inr (block, Some m))
      else Inl (unexpected ''partitionByComment'' name))"

definition parse_partition_any :: "perf_env \<Rightarrow> json \<Rightarrow> string + partition_comment" where
  "parse_partition_any E v =
     then_ok (parse_comment_match E v ''partitionByComment'') (\<lambda>m. Inr (PartitionAny m))"

definition parse_partition :: "perf_env \<Rightarrow> json option \<Rightarrow> string + partition_comment" where
  "parse_partition E value =
     (case value of
        None \<Rightarrow> Inr PartitionOff
      | Some v \<Rightarrow>
          (if v = JBool False \<or> v = JString [] then Inr PartitionOff
           else case v of
             JObject m \<Rightarrow>
               if map_of m ''pattern'' = None then
                 if m = [] then Inl (quoted ''partitionByComment'' @ '' objects need '' @ quoted ''block'' @ '' or '' @ quoted ''line'')
                 else then_ok (fold_ok (partition_key E) m (None, None)) (\<lambda>(block, line). Inr (PartitionSplit block line))
               else parse_partition_any E v
           | _ \<Rightarrow> parse_partition_any E v))"

section \<open>Groups\<close>

definition parse_names :: "json \<Rightarrow> string \<Rightarrow> string + group_names" where
  "parse_names v key =
     (case v of
        JString n \<Rightarrow> Inr (OneName n)
      | JArray (x # xs) \<Rightarrow> then_ok (map_ok (\<lambda>item. json_string item key) (x # xs)) (\<lambda>ns. Inr (ManyNames ns))
      | _ \<Rightarrow> Inl (quoted key @ '' must be a group name or a non-empty array of them''))"

type_synonym override = "sort_patch \<times> sort_patch \<times> newlines option"

definition override_key :: "bool \<Rightarrow> string \<times> json \<Rightarrow> override \<Rightarrow> string + override" where
  "override_key sort_by entry st =
     (let (name, v) = entry; (p, fb, nl) = st in
      if name = ''group'' \<or> name = ''commentAbove'' then Inr st
      else if name = ''type'' then then_ok (parse_kind v ''groups.type'') (\<lambda>k. Inr (p\<lparr>sp_kind := Some k\<rparr>, fb, nl))
      else if name = ''order'' then then_ok (parse_order v ''groups.order'') (\<lambda>d. Inr (p\<lparr>sp_order := Some d\<rparr>, fb, nl))
      else if name = ''sortBy'' \<and> sort_by then then_ok (parse_by v ''groups.sortBy'') (\<lambda>b. Inr (p\<lparr>sp_by := Some b\<rparr>, fb, nl))
      else if name = ''fallbackSort'' then then_ok (parse_fallback v sort_by ''groups.fallbackSort'') (\<lambda>f. Inr (p, f, nl))
      else if name = ''newlinesInside'' then then_ok (parse_newlines v ''groups.newlinesInside'') (\<lambda>n. Inr (p, fb, Some n))
      else Inl (unexpected ''groups'' name))"

definition group_needs :: "string \<Rightarrow> string" where
  "group_needs what = quoted ''groups'' @ '' objects need '' @ what"

definition parse_override :: "bool \<Rightarrow> json_map \<Rightarrow> string + group" where
  "parse_override sort_by m =
     then_ok (ok_or (map_of m ''group'') (group_needs (''a '' @ quoted ''group''))) (\<lambda>g.
       then_ok (parse_names g ''groups.group'') (\<lambda>ns.
         if length m < 2 then Inl (group_needs (''an option besides '' @ quoted ''group''))
         else then_ok (fold_ok (override_key sort_by) m (no_patch, no_patch, None)) (\<lambda>(p, fb, nl).
           then_ok (case map_of m ''commentAbove'' of
               None \<Rightarrow> Inr [] | Some c \<Rightarrow> json_string c ''groups.commentAbove'') (\<lambda>_.
             Inr (OverrideGroup ns p fb nl)))))"

definition parse_group :: "bool \<Rightarrow> json \<Rightarrow> string + group" where
  "parse_group sort_by item =
     (case item of
        JString _ \<Rightarrow> then_ok (parse_names item ''groups'') (\<lambda>ns. Inr (NamesGroup ns))
      | JArray _ \<Rightarrow> then_ok (parse_names item ''groups'') (\<lambda>ns. Inr (NamesGroup ns))
      | JObject m \<Rightarrow>
          (case map_of m ''newlinesBetween'' of
             Some v \<Rightarrow>
               if map_of m ''group'' = None then
                 if length m \<noteq> 1 then Inl (quoted ''groups'' @ '': `newlinesBetween` objects take nothing else'')
                 else then_ok (parse_newlines v ''groups.newlinesBetween'') (\<lambda>n. Inr (NewlinesGroup n))
               else parse_override sort_by m
           | None \<Rightarrow> parse_override sort_by m)
      | _ \<Rightarrow> Inl (quoted ''groups'' @ '' items must be strings, arrays of strings or objects''))"

definition parse_groups :: "json option \<Rightarrow> bool \<Rightarrow> string + group list" where
  "parse_groups v sort_by =
     (case v of
        None \<Rightarrow> Inr []
      | Some w \<Rightarrow> then_ok (json_array w ''groups'') (map_ok (parse_group sort_by)))"

section \<open>Custom groups\<close>

definition one_of :: "string \<Rightarrow> string list \<Rightarrow> string \<Rightarrow> string" where
  "one_of key allow what = quoted key @ what @ join_with '', '' allow"

definition parse_modifier :: "schema \<Rightarrow> json \<Rightarrow> string + string" where
  "parse_modifier sc item =
     then_ok (json_string item ''modifiers'') (\<lambda>s.
       if s \<in> set (sc_modifiers sc) then Inr s
       else Inl (one_of ''modifiers'' (sc_modifiers sc) '' items must be one of ''))"

definition matcher_key :: "perf_env \<Rightarrow> schema \<Rightarrow> string list \<Rightarrow> string \<times> json \<Rightarrow> matcher \<Rightarrow> string + matcher" where
  "matcher_key E sc skip entry m =
     (let (name, v) = entry in
      if name \<in> set skip then Inr m
      else if name = ''elementNamePattern''
      then then_ok (regex_parse (pe_engine E) v False ''elementNamePattern'') (\<lambda>r. Inr (m\<lparr>mt_name := Some r\<rparr>))
      else if name = ''elementValuePattern'' \<and> name \<in> set (sc_match_keys sc)
      then then_ok (regex_parse (pe_engine E) v False ''elementValuePattern'') (\<lambda>r. Inr (m\<lparr>mt_value := Some r\<rparr>))
      else if name = ''selector'' \<and> name \<in> set (sc_match_keys sc)
      then then_ok (json_string v ''selector'') (\<lambda>s.
        if s \<in> set (sc_selectors sc) then Inr (m\<lparr>mt_selector := Some s\<rparr>)
        else Inl (one_of ''selector'' (sc_selectors sc) '' must be one of ''))
      else if name = ''modifiers'' \<and> name \<in> set (sc_match_keys sc)
      then then_ok (json_array v ''modifiers'') (\<lambda>xs.
        then_ok (map_ok (parse_modifier sc) xs) (\<lambda>ms. Inr (m\<lparr>mt_modifiers := Some ms\<rparr>)))
      else Inl (unexpected ''customGroups'' name))"

definition parse_matcher :: "perf_env \<Rightarrow> schema \<Rightarrow> string list \<Rightarrow> json_map \<Rightarrow> string + matcher" where
  "parse_matcher E sc skip m = fold_ok (matcher_key E sc skip) m no_matcher"

definition COMMON :: "string list" where
  "COMMON = [''groupName'', ''type'', ''order'', ''sortBy'', ''fallbackSort'', ''newlinesInside'']"

definition custom_key :: "bool \<Rightarrow> string \<times> json \<Rightarrow> override \<Rightarrow> string + override" where
  "custom_key sort_by entry st =
     (let (name, v) = entry; (p, fb, nl) = st in
      if name = ''type'' then then_ok (parse_kind v ''customGroups.type'') (\<lambda>k. Inr (p\<lparr>sp_kind := Some k\<rparr>, fb, nl))
      else if name = ''order'' then then_ok (parse_order v ''customGroups.order'') (\<lambda>d. Inr (p\<lparr>sp_order := Some d\<rparr>, fb, nl))
      else if name = ''sortBy''
      then if sort_by then then_ok (parse_by v ''customGroups.sortBy'') (\<lambda>b. Inr (p\<lparr>sp_by := Some b\<rparr>, fb, nl))
           else Inl (unexpected ''customGroups'' ''sortBy'')
      else if name = ''fallbackSort'' then then_ok (parse_fallback v sort_by ''customGroups.fallbackSort'') (\<lambda>f. Inr (p, f, nl))
      else if name = ''newlinesInside'' then then_ok (parse_newlines v ''customGroups.newlinesInside'') (\<lambda>n. Inr (p, fb, Some n))
      else Inr st)"

definition parse_matchers :: "perf_env \<Rightarrow> schema \<Rightarrow> json_map \<Rightarrow> string + matcher list" where
  "parse_matchers E sc m =
     (case map_of m ''anyOf'' of
        Some any_of \<Rightarrow>
          then_ok (json_array any_of ''anyOf'') (\<lambda>items.
            if items = [] then Inl (quoted ''anyOf'' @ '' must not be empty'')
            else case find (\<lambda>k. k \<notin> set (COMMON @ [''anyOf''])) (map fst m) of
              Some other \<Rightarrow> Inl (unexpected ''customGroups'' other @ '' next to '' @ quoted ''anyOf'')
            | None \<Rightarrow> map_ok (\<lambda>item. then_ok (json_object item ''anyOf'') (parse_matcher E sc [])) items)
      | None \<Rightarrow>
          if length m < 2 then Inl (quoted ''customGroups'' @ '' items need an option besides '' @ quoted ''groupName'')
          else then_ok (parse_matcher E sc COMMON m) (\<lambda>x. Inr [x]))"

definition parse_custom_group :: "perf_env \<Rightarrow> schema \<Rightarrow> json \<Rightarrow> string + custom_group" where
  "parse_custom_group E sc item =
     then_ok (json_object item ''customGroups'') (\<lambda>m.
       then_ok (ok_or (map_of m ''groupName'') (quoted ''customGroups'' @ '' items need a '' @ quoted ''groupName'')) (\<lambda>g.
         then_ok (json_string g ''groupName'') (\<lambda>name.
           then_ok (fold_ok (custom_key (sc_sort_by sc)) m (no_patch, no_patch, None)) (\<lambda>(p, fb, nl).
             then_ok (parse_matchers E sc m) (\<lambda>ms.
               Inr \<lparr>cg_name = name, cg_matchers = ms, cg_sort = p, cg_fallback = fb, cg_newlines_inside = nl\<rparr>)))))"

definition parse_custom_groups :: "perf_env \<Rightarrow> schema \<Rightarrow> json option \<Rightarrow> string + custom_group list" where
  "parse_custom_groups E sc v =
     (case v of
        None \<Rightarrow> Inr []
      | Some w \<Rightarrow> then_ok (json_array w ''customGroups'') (map_ok (parse_custom_group E sc)))"

section \<open>Conditions\<close>

definition no_when :: use_when where
  "no_when = \<lparr>wh_all_names = None, wh_selector = None, wh_tag = None, wh_numeric_keys_only = None,
     wh_declaration_comment = None, wh_declaration = None, wh_calling_function = None, wh_object_type = None\<rparr>"

definition parse_object_type :: "json \<Rightarrow> string + object_type" where
  "parse_object_type v =
     (if as_str v = Some ''destructured'' then Inr Destructured
      else if as_str v = Some ''non-destructured'' then Inr NonDestructured
      else Inl (quoted ''objectType'' @ '' must be '' @ quoted ''destructured'' @ '' or '' @ quoted ''non-destructured''))"

definition when_key :: "perf_env \<Rightarrow> schema \<Rightarrow> string \<times> json \<Rightarrow> use_when \<Rightarrow> string + use_when" where
  "when_key E sc entry w =
     (let (key, v) = entry; regex = (\<lambda>scoped. regex_parse (pe_engine E) v scoped key) in
      if key \<noteq> ''allNamesMatchPattern'' \<and> key \<notin> set (sc_when_keys sc) then Inl (unexpected ''useConfigurationIf'' key)
      else if key = ''allNamesMatchPattern'' then then_ok (regex False) (\<lambda>r. Inr (w\<lparr>wh_all_names := Some r\<rparr>))
      else if key = ''matchesAstSelector''
      then then_ok (json_string v key) (\<lambda>s. then_ok (selector_parse s) (\<lambda>x. Inr (w\<lparr>wh_selector := Some x\<rparr>)))
      else if key = ''tagMatchesPattern'' then then_ok (regex False) (\<lambda>r. Inr (w\<lparr>wh_tag := Some r\<rparr>))
      else if key = ''hasNumericKeysOnly''
      then then_ok (json_boolean (Some v) key) (\<lambda>b. Inr (w\<lparr>wh_numeric_keys_only := b\<rparr>))
      else if key = ''declarationCommentMatchesPattern''
      then then_ok (regex True) (\<lambda>r. Inr (w\<lparr>wh_declaration_comment := Some r\<rparr>))
      else if key = ''declarationMatchesPattern'' then then_ok (regex True) (\<lambda>r. Inr (w\<lparr>wh_declaration := Some r\<rparr>))
      else if key = ''callingFunctionNamePattern''
      then then_ok (regex True) (\<lambda>r. Inr (w\<lparr>wh_calling_function := Some r\<rparr>))
      else if key = ''objectType'' then then_ok (parse_object_type v) (\<lambda>t. Inr (w\<lparr>wh_object_type := Some t\<rparr>))
      else Inr w)"

definition parse_when :: "perf_env \<Rightarrow> schema \<Rightarrow> json option \<Rightarrow> string + use_when" where
  "parse_when E sc v =
     (case v of
        None \<Rightarrow> Inr no_when
      | Some w \<Rightarrow> then_ok (json_object w ''useConfigurationIf'') (\<lambda>m. fold_ok (when_key E sc) m no_when))"

end
