(* ===== verification/PerfBuild.thy ===== *)
theory PerfBuild imports
  PerfParse
begin

text \<open>
  \<^verbatim>\<open>crates/lint/src/rules/perfectionist/options.rs\<close>: \<open>parse\<close>, \<open>validate\<close> and \<open>build\<close>, and
  \<^verbatim>\<open>perfectionist/mod.rs\<close>: the candidates a rule chooses its options from. What valid options promise
  the sorting code is stated at the end.
\<close>

section \<open>Reading\<close>

definition missing :: "string \<Rightarrow> string" where
  "missing key = ''missing '' @ quoted key"

definition parse_sort :: "schema \<Rightarrow> json_map \<Rightarrow> string + sort_spec" where
  "parse_sort sc m =
     then_ok (ok_or (map_of m ''type'') (missing ''type'')) (\<lambda>t.
     then_ok (parse_kind t ''type'') (\<lambda>k.
     then_ok (ok_or (map_of m ''order'') (missing ''order'')) (\<lambda>d.
     then_ok (parse_order d ''order'') (\<lambda>ord.
     then_ok (if sc_sort_by sc
         then then_ok (ok_or (map_of m ''sortBy'') (missing ''sortBy'')) (\<lambda>b. parse_by b ''sortBy'')
         else Inr ByName) (\<lambda>b.
       Inr \<lparr>so_kind = k, so_order = ord, so_by = b\<rparr>)))))"

definition parse_text :: "perf_env \<Rightarrow> json_map \<Rightarrow> string + text_settings" where
  "parse_text E m =
     then_ok (parse_special (unwrap_or (map_of m ''specialCharacters'') JNull)) (\<lambda>sp.
     then_ok (json_boolean (map_of m ''ignoreCase'') ''ignoreCase'') (\<lambda>ic.
     then_ok (parse_alphabet (map_of m ''alphabet'')) (\<lambda>al.
     then_ok (parse_collator E (map_of m ''locales'')) (\<lambda>co.
       Inr \<lparr>tx_special = sp, tx_ignore_case = unwrap_or ic True, tx_alphabet = al, tx_collate = co\<rparr>))))"

definition parse_inside :: "json option \<Rightarrow> string + inside" where
  "parse_inside v =
     (case v of
        None \<Rightarrow> Inr BetweenInside
      | Some w \<Rightarrow>
          if w = JString ''newlinesBetween'' then Inr BetweenInside
          else then_ok (parse_newlines w ''newlinesInside'') (\<lambda>n.
            case n of IgnoreNewlines \<Rightarrow> Inr IgnoreInside | CountNewlines k \<Rightarrow> Inr (CountInside k)))"

definition parse_sort_by_value :: "json option \<Rightarrow> string + sort_by_value" where
  "parse_sort_by_value v =
     (case Option.bind v as_str of
        None \<Rightarrow> Inr IfNumericEnum
      | Some s \<Rightarrow>
          if s = ''ifNumericEnum'' then Inr IfNumericEnum
          else if s = ''always'' then Inr AlwaysByValue
          else if s = ''never'' then Inr NeverByValue
          else Inl (quoted ''sortByValue'' @ '' must be '' @ quoted ''always'' @ '', '' @ quoted ''ifNumericEnum'' @
            '' or '' @ quoted ''never'' @ '', not '' @ quoted s))"

definition group_names_of :: "group list \<Rightarrow> string list" where
  "group_names_of gs = concat (map (\<lambda>g. case names_of g of None \<Rightarrow> [] | Some ns \<Rightarrow> all_names ns) gs)"

definition parse_flag :: "json_map \<Rightarrow> string \<Rightarrow> bool \<Rightarrow> string + bool" where
  "parse_flag m key d = then_ok (json_boolean (map_of m key) key) (\<lambda>b. Inr (unwrap_or b d))"

definition parse_options :: "perf_env \<Rightarrow> schema \<Rightarrow> json_map \<Rightarrow> string + options" where
  "parse_options E sc m =
     then_ok (parse_sort sc m) (\<lambda>sort.
     then_ok (case map_of m ''fallbackSort'' of
         Some v \<Rightarrow> parse_fallback v (sc_sort_by sc) ''fallbackSort''
       | None \<Rightarrow> Inr (no_patch\<lparr>sp_kind := Some Unsorted\<rparr>)) (\<lambda>fb.
     then_ok (parse_text E m) (\<lambda>tx.
     then_ok (if sc_partition_by_comment sc then parse_partition E (map_of m ''partitionByComment'')
         else Inr PartitionOff) (\<lambda>pc.
     then_ok (parse_groups (map_of m ''groups'') (sc_sort_by sc)) (\<lambda>gs.
     then_ok (parse_flag m ''partitionByNewLine'' False) (\<lambda>pn.
     then_ok (case map_of m ''newlinesBetween'' of
         Some v \<Rightarrow> parse_newlines v ''newlinesBetween''
       | None \<Rightarrow> Inr IgnoreNewlines) (\<lambda>nb.
     then_ok (parse_inside (map_of m ''newlinesInside'')) (\<lambda>ni.
     then_ok (parse_custom_groups E sc (map_of m ''customGroups'')) (\<lambda>cgs.
     then_ok (parse_when E sc (map_of m ''useConfigurationIf'')) (\<lambda>w.
     then_ok (parse_sort_by_value (map_of m ''sortByValue'')) (\<lambda>sbv.
     then_ok (parse_flag m ''useExperimentalDependencyDetection'' True) (\<lambda>ex.
     then_ok (case map_of m ''ignoreCallbackDependenciesPatterns'' of
         None \<Rightarrow> Inr None
       | Some v \<Rightarrow> then_ok (regex_parse (pe_engine E) v False ''ignoreCallbackDependenciesPatterns'') (\<lambda>r. Inr (Some r))) (\<lambda>ig.
     then_ok (parse_flag m ''partitionByComputedKey'' False) (\<lambda>ck.
     then_ok (parse_flag m ''styledComponents'' True) (\<lambda>st.
       Inr \<lparr>op_sort = sort, op_fallback = fb, op_text = tx, op_partition_comment = pc, op_partition_newline = pn,
         op_newlines_between = nb, op_newlines_inside = ni, op_groups = gs, op_custom_groups = cgs,
         op_group_names = set (group_names_of gs), op_when = w, op_sort_by_value = sbv, op_experimental = ex,
         op_ignore_callback = ig, op_partition_by_computed_key = ck, op_styled_components = st\<rparr>)))))))))))))))"

section \<open>Checks\<close>

definition ALLOWED_SETTINGS :: "string list" where
  "ALLOWED_SETTINGS =
     [''partitionByComment'', ''partitionByNewLine'', ''specialCharacters'', ''newlinesBetween'', ''newlinesInside'',
      ''fallbackSort'', ''ignoreCase'', ''tsconfig'', ''alphabet'', ''locales'', ''order'', ''type'']"

definition check_settings :: "json_map \<Rightarrow> string + unit" where
  "check_settings m =
     (let invalid = filter (\<lambda>k. k \<notin> set ALLOWED_SETTINGS) (map fst m) in
      if invalid = [] then Inr () else Inl (''Invalid Perfectionist setting(s): '' @ join_with '', '' invalid))"

definition COMMON_KEYS :: "string list" where
  "COMMON_KEYS =
     [''fallbackSort'', ''type'', ''specialCharacters'', ''ignoreCase'', ''alphabet'', ''locales'', ''order'',
      ''customGroups'', ''newlinesInside'', ''groups'', ''newlinesBetween'', ''useConfigurationIf'', ''partitionByNewLine'']"

definition known_key :: "schema \<Rightarrow> string \<Rightarrow> bool" where
  "known_key sc key \<longleftrightarrow>
     key \<in> set COMMON_KEYS \<or> (sc_sort_by sc \<and> key = ''sortBy'') \<or>
     (sc_partition_by_comment sc \<and> key = ''partitionByComment'') \<or> key \<in> set (sc_extra_keys sc)"

definition check_keys :: "schema \<Rightarrow> json_map \<Rightarrow> string + unit" where
  "check_keys sc m =
     (case find (\<lambda>k. \<not> known_key sc k) (map fst m) of
        Some key \<Rightarrow> Inl (''unknown option '' @ quoted key)
      | None \<Rightarrow> Inr ())"

text \<open>The longest of the last three, two or one words that is allowed.\<close>

definition longest_word :: "string list \<Rightarrow> string list \<Rightarrow> (string \<times> nat) option" where
  "longest_word ws allow =
     find (\<lambda>(w, n). w \<noteq> [] \<and> w \<in> set allow)
       (map (\<lambda>n. (join_with ''-'' (drop (length ws - n) ws), n)) (filter (\<lambda>n. n \<le> length ws) [3, 2, 1]))"

lemma longest_word_count: "longest_word ws allow = Some (w, n) \<Longrightarrow> 1 \<le> n \<and> n \<le> length ws"
  by (auto simp: longest_word_def find_Some_iff split: if_splits) (auto simp: nth_Cons split: nat.splits)

function modifiers_parse :: "string list \<Rightarrow> string list \<Rightarrow> string list \<Rightarrow> bool" where
  "modifiers_parse allow parsed rest =
     (if rest = [] then True
      else case longest_word rest allow of
        None \<Rightarrow> False
      | Some (w, n) \<Rightarrow> if w \<in> set parsed then False else modifiers_parse allow (w # parsed) (take (length rest - n) rest))"
  by pat_completeness auto
termination
  by (relation "measure (\<lambda>(allow, parsed, rest). length rest)") (auto dest: longest_word_count)

declare modifiers_parse.simps [simp del]

definition is_predefined :: "schema \<Rightarrow> string \<Rightarrow> bool" where
  "is_predefined sc input =
     (if input = ''unknown'' then True
      else
        let ws = split_on (CHR ''-'') input in
        case longest_word ws (sc_selectors sc) of
          None \<Rightarrow> False
        | Some (_, n) \<Rightarrow> modifiers_parse (sc_modifiers sc) [] (take (length ws - n) ws))"

text \<open>The names already seen and, in order, those seen twice.\<close>

fun duplicated_names :: "string list \<Rightarrow> string list \<Rightarrow> string list \<Rightarrow> string list" where
  "duplicated_names seen dup [] = dup"
| "duplicated_names seen dup (n # ns) =
     (if n \<in> set seen \<and> n \<notin> set dup then duplicated_names seen (dup @ [n]) ns
      else duplicated_names (n # seen) dup ns)"

fun consecutive_newlines :: "bool \<Rightarrow> group list \<Rightarrow> bool" where
  "consecutive_newlines previous [] \<longleftrightarrow> False"
| "consecutive_newlines previous (g # gs) \<longleftrightarrow>
     (let here = (names_of g = None) in if here \<and> previous then True else consecutive_newlines here gs)"

definition overrides_kind :: "sort_kind \<Rightarrow> group \<Rightarrow> bool" where
  "overrides_kind k g = (case g of OverrideGroup _ p _ _ \<Rightarrow> sp_kind p = Some k | _ \<Rightarrow> False)"

definition not_ignored :: "newlines option \<Rightarrow> bool" where
  "not_ignored v \<longleftrightarrow> v \<noteq> None \<and> v \<noteq> Some IgnoreNewlines"

definition separates :: "group \<Rightarrow> bool" where
  "separates g = (case g of NewlinesGroup n \<Rightarrow> n \<noteq> IgnoreNewlines | _ \<Rightarrow> False)"

definition spaces_inside :: "group \<Rightarrow> bool" where
  "spaces_inside g = (case g of OverrideGroup _ _ _ n \<Rightarrow> not_ignored n | _ \<Rightarrow> False)"

definition counts_inside :: "inside \<Rightarrow> bool" where
  "counts_inside i = (case i of CountInside _ \<Rightarrow> True | _ \<Rightarrow> False)"

definition not_together :: "string \<Rightarrow> string" where
  "not_together other = ''The '' @ [CHR 0x27] @ ''partitionByNewLine'' @ [CHR 0x27] @ '' and '' @
     [CHR 0x27] @ other @ [CHR 0x27] @ '' options cannot be used together''"

definition validate_options :: "schema \<Rightarrow> options \<Rightarrow> string + unit" where
  "validate_options sc opts =
     (let groups = op_groups opts;
          names = group_names_of groups;
          customs = map cg_name (op_custom_groups opts);
          invalid = filter (\<lambda>n. \<not> is_predefined sc n \<and> n \<notin> set customs) names;
          dup = duplicated_names [] [] names
      in if (so_kind (op_sort opts) = CustomOrder \<or> list_ex (overrides_kind CustomOrder) groups) \<and>
           tx_alphabet (op_text opts) = []
         then Inl ''`alphabet` option must not be empty''
         else if invalid \<noteq> [] then Inl (''Invalid group(s): '' @ join_with '', '' invalid)
         else if dup \<noteq> [] then Inl (''Duplicated group(s): '' @ join_with '', '' dup)
         else if consecutive_newlines False groups
         then Inl ''Consecutive `newlinesBetween` objects are not allowed''
         else if op_partition_newline opts \<and>
           (op_newlines_between opts \<noteq> IgnoreNewlines \<or> list_ex separates groups)
         then Inl (not_together ''newlinesBetween'')
         else if op_partition_newline opts \<and>
           (counts_inside (op_newlines_inside opts) \<or>
            list_ex (\<lambda>c. not_ignored (cg_newlines_inside c)) (op_custom_groups opts) \<or> list_ex spaces_inside groups)
         then Inl (not_together ''newlinesInside'')
         else Inr ())"

section \<open>Building\<close>

definition merge_settings :: "json option \<Rightarrow> json_map \<Rightarrow> string + json_map" where
  "merge_settings settings m =
     (case settings of
        None \<Rightarrow> Inr m
      | Some (JObject s) \<Rightarrow> then_ok (check_settings s) (\<lambda>_. Inr (map_extend m s))
      | Some _ \<Rightarrow> Inl ''perfectionist settings must be an object'')"

definition merge_option :: "schema \<Rightarrow> json option \<Rightarrow> json_map \<Rightarrow> string + json_map" where
  "merge_option sc option m =
     (case option of
        None \<Rightarrow> Inr m
      | Some (JObject s) \<Rightarrow> then_ok (check_keys sc s) (\<lambda>_. Inr (map_extend m s))
      | Some _ \<Rightarrow> Inl ''options must be objects'')"

definition build_options :: "perf_env \<Rightarrow> schema \<Rightarrow> json option \<Rightarrow> json option \<Rightarrow> string + options" where
  "build_options E sc option settings =
     (let defaults = (case sc_defaults sc of JObject m \<Rightarrow> m | _ \<Rightarrow> []) in
      then_ok (merge_settings settings defaults) (\<lambda>m1.
        then_ok (merge_option sc option m1) (\<lambda>m2.
          then_ok (parse_options E sc m2) (\<lambda>opts.
            then_ok (validate_options sc opts) (\<lambda>_. Inr opts)))))"

section \<open>Candidates\<close>

text \<open>Two objects are equal when they have the same entries, in any order.\<close>

fun json_sorted :: "json \<Rightarrow> json" where
  "json_sorted (JArray xs) = JArray (map json_sorted xs)"
| "json_sorted (JObject m) = JObject (sort_key fst (map (\<lambda>(k, v). (k, json_sorted v)) m))"
| "json_sorted v = v"

record rule_base =
  rb_directive :: string
  rb_candidates :: "options list"
  rb_fallback :: options

definition base_new :: "perf_env \<Rightarrow> schema \<Rightarrow> json list \<Rightarrow> json option \<Rightarrow> string \<Rightarrow> string + rule_base" where
  "base_new E sc entries settings directive =
     (if \<not> distinct (map json_sorted entries) then Inl ''options must be unique''
      else then_ok (map_ok (\<lambda>v. build_options E sc (Some v) settings) entries) (\<lambda>cs.
        then_ok (build_options E sc None settings) (\<lambda>fb.
          Inr \<lparr>rb_directive = directive, rb_candidates = cs, rb_fallback = fb\<rparr>)))"

definition base_select :: "rule_base \<Rightarrow> (options \<Rightarrow> bool) \<Rightarrow> options" where
  "base_select b accepts = (case find accepts (rb_candidates b) of Some opts \<Rightarrow> opts | None \<Rightarrow> rb_fallback b)"

end
