(* ===== verification/PerfRules.thy ===== *)
theory PerfRules imports
  PerfReport
  PerfBuild
begin

text \<open>
  The six sorting rules (\<^verbatim>\<open>enums.rs\<close>, \<^verbatim>\<open>heritage.rs\<close>, \<^verbatim>\<open>jsx_props.rs\<close>, \<^verbatim>\<open>object_types.rs\<close>, \<^verbatim>\<open>objects.rs\<close> under
  \<^verbatim>\<open>crates/lint/src/rules/perfectionist\<close>): their schemas and defaults, and how each turns the elements of
  a node into items and partitions, orders them and reports. The syntax tree is the parser's: an element
  comes with what the rules read from it (its span, its name, the references inside it).
\<close>

section \<open>Schemas\<close>

definition unsorted_fallback :: json where
  "unsorted_fallback = JObject [(''type'', JString ''unsorted'')]"

definition enum_defaults :: json where
  "enum_defaults = JObject [(''useExperimentalDependencyDetection'', JBool True), (''fallbackSort'', unsorted_fallback),
     (''newlinesInside'', JString ''newlinesBetween''), (''sortByValue'', JString ''ifNumericEnum''),
     (''partitionByComment'', JBool False), (''partitionByNewLine'', JBool False),
     (''specialCharacters'', JString ''keep''), (''newlinesBetween'', JString ''ignore''),
     (''useConfigurationIf'', JObject []), (''type'', JString ''alphabetical''), (''ignoreCase'', JBool True),
     (''locales'', JString ''en-US''), (''customGroups'', JArray []), (''alphabet'', JString []),
     (''order'', JString ''asc''), (''groups'', JArray [])]"

definition enum_schema :: schema where
  "enum_schema = \<lparr>sc_selectors = [], sc_modifiers = [], sc_match_keys = [''elementValuePattern''], sc_sort_by = False,
     sc_partition_by_comment = True, sc_when_keys = [''matchesAstSelector''],
     sc_extra_keys = [''sortByValue'', ''useExperimentalDependencyDetection''], sc_defaults = enum_defaults\<rparr>"

definition enum_messages :: messages where
  "enum_messages = \<lparr>ms_order = ''unexpectedEnumsOrder'', ms_group_order = ''unexpectedEnumsGroupOrder'',
     ms_extra_spacing = ''extraSpacingBetweenEnumsMembers'', ms_missed_spacing = ''missedSpacingBetweenEnumsMembers'',
     ms_dependency_order = Some ''unexpectedEnumsDependencyOrder''\<rparr>"

definition heritage_defaults :: json where
  "heritage_defaults = JObject [(''fallbackSort'', unsorted_fallback), (''newlinesInside'', JString ''newlinesBetween''),
     (''specialCharacters'', JString ''keep''), (''newlinesBetween'', JString ''ignore''),
     (''partitionByNewLine'', JBool False), (''partitionByComment'', JBool False),
     (''useConfigurationIf'', JObject []), (''type'', JString ''alphabetical''), (''ignoreCase'', JBool True),
     (''customGroups'', JArray []), (''locales'', JString ''en-US''), (''alphabet'', JString []),
     (''order'', JString ''asc''), (''groups'', JArray [])]"

definition heritage_schema :: schema where
  "heritage_schema = \<lparr>sc_selectors = [], sc_modifiers = [], sc_match_keys = [], sc_sort_by = False,
     sc_partition_by_comment = True, sc_when_keys = [''matchesAstSelector''], sc_extra_keys = [],
     sc_defaults = heritage_defaults\<rparr>"

definition heritage_messages :: messages where
  "heritage_messages = \<lparr>ms_order = ''unexpectedHeritageClausesOrder'',
     ms_group_order = ''unexpectedHeritageClausesGroupOrder'',
     ms_extra_spacing = ''extraSpacingBetweenHeritageClauses'',
     ms_missed_spacing = ''missedSpacingBetweenHeritageClauses'', ms_dependency_order = None\<rparr>"

definition jsx_defaults :: json where
  "jsx_defaults = JObject [(''fallbackSort'', unsorted_fallback), (''newlinesInside'', JString ''newlinesBetween''),
     (''specialCharacters'', JString ''keep''), (''newlinesBetween'', JString ''ignore''),
     (''partitionByNewLine'', JBool False), (''useConfigurationIf'', JObject []),
     (''type'', JString ''alphabetical''), (''ignoreCase'', JBool True), (''customGroups'', JArray []),
     (''locales'', JString ''en-US''), (''alphabet'', JString []), (''order'', JString ''asc''), (''groups'', JArray [])]"

definition jsx_schema :: schema where
  "jsx_schema = \<lparr>sc_selectors = [''prop''], sc_modifiers = [''shorthand'', ''multiline''],
     sc_match_keys = [''elementValuePattern'', ''selector'', ''modifiers''], sc_sort_by = False,
     sc_partition_by_comment = False, sc_when_keys = [''matchesAstSelector'', ''tagMatchesPattern''],
     sc_extra_keys = [], sc_defaults = jsx_defaults\<rparr>"

definition jsx_messages :: messages where
  "jsx_messages = \<lparr>ms_order = ''unexpectedJSXPropsOrder'', ms_group_order = ''unexpectedJSXPropsGroupOrder'',
     ms_extra_spacing = ''extraSpacingBetweenJSXPropsMembers'',
     ms_missed_spacing = ''missedSpacingBetweenJSXPropsMembers'', ms_dependency_order = None\<rparr>"

definition object_type_defaults :: json where
  "object_type_defaults = JObject [
     (''fallbackSort'', JObject [(''type'', JString ''unsorted''), (''sortBy'', JString ''name'')]),
     (''newlinesInside'', JString ''newlinesBetween''), (''partitionByComment'', JBool False),
     (''partitionByNewLine'', JBool False), (''newlinesBetween'', JString ''ignore''),
     (''specialCharacters'', JString ''keep''), (''useConfigurationIf'', JObject []),
     (''type'', JString ''alphabetical''), (''ignoreCase'', JBool True), (''customGroups'', JArray []),
     (''locales'', JString ''en-US''), (''sortBy'', JString ''name''), (''alphabet'', JString []),
     (''order'', JString ''asc''), (''groups'', JArray [])]"

definition object_type_schema :: schema where
  "object_type_schema = \<lparr>sc_selectors = [''index-signature'', ''member'', ''method'', ''property''],
     sc_modifiers = [''optional'', ''required'', ''multiline''],
     sc_match_keys = [''elementValuePattern'', ''selector'', ''modifiers''], sc_sort_by = True,
     sc_partition_by_comment = True,
     sc_when_keys = [''hasNumericKeysOnly'', ''declarationCommentMatchesPattern'', ''matchesAstSelector'',
       ''declarationMatchesPattern''],
     sc_extra_keys = [], sc_defaults = object_type_defaults\<rparr>"

definition interface_messages :: messages where
  "interface_messages = \<lparr>ms_order = ''unexpectedInterfacePropertiesOrder'',
     ms_group_order = ''unexpectedInterfacePropertiesGroupOrder'',
     ms_extra_spacing = ''extraSpacingBetweenInterfaceMembers'',
     ms_missed_spacing = ''missedSpacingBetweenInterfaceMembers'', ms_dependency_order = None\<rparr>"

definition object_type_messages :: messages where
  "object_type_messages = \<lparr>ms_order = ''unexpectedObjectTypesOrder'',
     ms_group_order = ''unexpectedObjectTypesGroupOrder'',
     ms_extra_spacing = ''extraSpacingBetweenObjectTypeMembers'',
     ms_missed_spacing = ''missedSpacingBetweenObjectTypeMembers'', ms_dependency_order = None\<rparr>"

definition object_defaults :: json where
  "object_defaults = JObject [(''useExperimentalDependencyDetection'', JBool True),
     (''ignoreCallbackDependenciesPatterns'', JArray []), (''fallbackSort'', unsorted_fallback),
     (''newlinesInside'', JString ''newlinesBetween''), (''partitionByComputedKey'', JBool False),
     (''partitionByNewLine'', JBool False), (''partitionByComment'', JBool False),
     (''newlinesBetween'', JString ''ignore''), (''specialCharacters'', JString ''keep''),
     (''styledComponents'', JBool True), (''useConfigurationIf'', JObject []),
     (''type'', JString ''alphabetical''), (''ignoreCase'', JBool True), (''customGroups'', JArray []),
     (''locales'', JString ''en-US''), (''sortBy'', JString ''name''), (''alphabet'', JString []),
     (''order'', JString ''asc''), (''groups'', JArray [])]"

definition object_schema :: schema where
  "object_schema = \<lparr>sc_selectors = [''member'', ''method'', ''property''], sc_modifiers = [''multiline''],
     sc_match_keys = [''elementValuePattern'', ''selector'', ''modifiers''], sc_sort_by = True,
     sc_partition_by_comment = True,
     sc_when_keys = [''objectType'', ''hasNumericKeysOnly'', ''declarationCommentMatchesPattern'',
       ''callingFunctionNamePattern'', ''matchesAstSelector'', ''declarationMatchesPattern''],
     sc_extra_keys = [''partitionByComputedKey'', ''styledComponents'', ''useExperimentalDependencyDetection'',
       ''ignoreCallbackDependenciesPatterns''],
     sc_defaults = object_defaults\<rparr>"

definition object_messages :: messages where
  "object_messages = \<lparr>ms_order = ''unexpectedObjectsOrder'', ms_group_order = ''unexpectedObjectsGroupOrder'',
     ms_extra_spacing = ''extraSpacingBetweenObjectMembers'', ms_missed_spacing = ''missedSpacingBetweenObjectMembers'',
     ms_dependency_order = Some ''unexpectedObjectsDependencyOrder''\<rparr>"

text \<open>\<open>build\<close> of \<^verbatim>\<open>mod.rs\<close>: the schema of a rule by its name.\<close>

definition rule_schema :: "string \<Rightarrow> schema option" where
  "rule_schema rule =
     map_of [(''sort-enums'', enum_schema), (''sort-heritage-clauses'', heritage_schema),
       (''sort-interfaces'', object_type_schema), (''sort-jsx-props'', jsx_schema),
       (''sort-object-types'', object_type_schema), (''sort-objects'', object_schema)] rule"

definition settings_entry :: "json option \<Rightarrow> json option" where
  "settings_entry settings = (case settings of Some (JObject m) \<Rightarrow> map_of m ''perfectionist'' | _ \<Rightarrow> None)"

definition build_rule :: "perf_env \<Rightarrow> string \<Rightarrow> json list \<Rightarrow> json option \<Rightarrow> string \<Rightarrow> string + rule_base" where
  "build_rule E rule entries settings directive =
     (case rule_schema rule of
        Some sc \<Rightarrow> base_new E sc entries (settings_entry settings) directive
      | None \<Rightarrow> Inl (''unknown perfectionist rule '' @ quoted rule))"

section \<open>Items and partitions\<close>

record 'f building =
  bd_items :: "'f item list"
  bd_partitions :: "nat list list"

definition no_building :: "'f building" where
  "no_building = \<lparr>bd_items = [], bd_partitions = [[]]\<rparr>"

definition open_partition :: "'f building \<Rightarrow> 'f building" where
  "open_partition b = b\<lparr>bd_partitions := bd_partitions b @ [[]]\<rparr>"

definition last_option :: "'a list \<Rightarrow> 'a option" where
  "last_option xs = (if xs = [] then None else Some (last xs))"

text \<open>The span of the last element of the current partition.\<close>

definition last_span :: "'f building \<Rightarrow> source_span option" where
  "last_span b =
     map_option (\<lambda>i. it_span (bd_items b ! i)) (Option.bind (last_option (bd_partitions b)) last_option)"

definition push_last :: "nat \<Rightarrow> nat list list \<Rightarrow> nat list list" where
  "push_last i ps = (if ps = [] then [] else butlast ps @ [last ps @ [i]])"

text \<open>
  An element starts a new partition when a comment or a blank line says so. The heritage rule leaves the
  number of the partition at its default.
\<close>

definition add_item :: "src \<Rightarrow> partition_comment \<Rightarrow> options \<Rightarrow> bool \<Rightarrow> source_span option \<Rightarrow> 'f item \<Rightarrow>
    'f building \<Rightarrow> 'f building option" where
  "add_item S pc opts numbered previous i b =
     map_option (\<lambda>split.
       let ps = bd_partitions (if split then open_partition b else b)
       in \<lparr>bd_items = bd_items b @ [i\<lparr>it_partition := (if numbered then length ps else 0)\<rparr>],
           bd_partitions = push_last (length (bd_items b)) ps\<rparr>)
     (should_partition S pc (op_partition_newline opts) previous (it_span i))"

definition new_item :: "src \<Rightarrow> u32 set \<Rightarrow> source_span \<Rightarrow> string \<Rightarrow> string \<Rightarrow> 'f item" where
  "new_item S disabled sp name gname =
     \<lparr>it_span = sp, it_name = name, it_value = [], it_numeric = None, it_size = size_of S sp, it_group = gname,
      it_partition = 0, it_disabled = is_node_disabled S disabled sp, it_semicolon = False,
      it_dependency_names = [], it_dependencies = []\<rparr>"

fun fold_option :: "('a \<Rightarrow> 's \<Rightarrow> 's option) \<Rightarrow> 'a list \<Rightarrow> 's \<Rightarrow> 's option" where
  "fold_option f [] s = Some s"
| "fold_option f (x # xs) s = Option.bind (f x s) (fold_option f xs)"

definition multiline :: "src \<Rightarrow> source_span \<Rightarrow> bool" where
  "multiline S sp \<longleftrightarrow> src_line S (sp_start sp) \<noteq> src_line S (sp_end sp)"

section \<open>Ordering\<close>

definition order_partitions :: "'f sort_env \<Rightarrow> options \<Rightarrow> mode \<Rightarrow> 'f building \<Rightarrow> bool \<Rightarrow>
    (group_spec \<Rightarrow> 'f item \<Rightarrow> bool) \<Rightarrow> nat list" where
  "order_partitions E opts md b ignore_disabled ignored =
     concat (map (\<lambda>p. sort_by_groups E opts md (bd_items b) p ignore_disabled ignored) (bd_partitions b))"

text \<open>Each partition reported by itself (heritage clauses, JSX attributes).\<close>

definition report_partitions :: "'f sort_env \<Rightarrow> 'f report \<Rightarrow> nat list list \<Rightarrow> problem list option" where
  "report_partitions E R ps =
     map_option concat (those (map (\<lambda>p.
       report_run R p
         (sort_by_groups E (rp_options R) NameMode (rp_items R) p False (\<lambda>_ _. False))
         (sort_by_groups E (rp_options R) NameMode (rp_items R) p True (\<lambda>_ _. False))) ps))"

text \<open>\<open>deps::apply\<close>: the dependencies of an item are the names of the items it refers to.\<close>

definition apply_references :: "nat list list \<Rightarrow> 'f item list \<Rightarrow> 'f item list" where
  "apply_references refs items =
     map (\<lambda>(i, it). if i < length refs
       then it\<lparr>it_dependencies := concat (map (\<lambda>n. it_dependency_names (items ! n)) (refs ! i))\<rparr>
       else it) (List.enumerate 0 items)"

section \<open>Heritage clauses\<close>

definition heritage_item :: "src \<Rightarrow> u32 set \<Rightarrow> options \<Rightarrow> source_span \<times> string \<Rightarrow> 'f item" where
  "heritage_item S disabled opts clause =
     new_item S disabled (fst clause) (snd clause)
       (compute_group opts [] (\<lambda>m. matcher_matches m (snd clause) None [] []))"

definition sort_heritage :: "'f sort_env \<Rightarrow> src \<Rightarrow> u32 set \<Rightarrow> options \<Rightarrow> (source_span \<times> string) list \<Rightarrow> problem list option" where
  "sort_heritage E S disabled opts clauses =
     Option.bind (fold_option (\<lambda>c b. add_item S (op_partition_comment opts) opts False (last_span b)
         (heritage_item S disabled opts c) b) clauses no_building) (\<lambda>b.
       report_partitions E \<lparr>rp_src = S, rp_options = opts, rp_items = bd_items b, rp_messages = heritage_messages,
         rp_partition_comment = op_partition_comment opts\<rparr> (bd_partitions b))"

section \<open>JSX attributes\<close>

datatype jsx_attribute = SpreadAttribute | NamedAttribute source_span string "source_span option"

definition jsx_item :: "src \<Rightarrow> u32 set \<Rightarrow> options \<Rightarrow> source_span \<Rightarrow> string \<Rightarrow> source_span option \<Rightarrow> 'f item" where
  "jsx_item S disabled opts sp name value =
     (let modifiers = (if value = None then [''shorthand''] else []) @ (if multiline S sp then [''multiline''] else [])
      in new_item S disabled sp name (compute_group opts (predefined_groups [''prop''] modifiers)
           (\<lambda>m. matcher_matches m name (map_option (text_of S) value) [''prop''] modifiers)))"

fun jsx_step :: "src \<Rightarrow> u32 set \<Rightarrow> options \<Rightarrow> jsx_attribute \<Rightarrow> 'f building \<Rightarrow> 'f building option" where
  "jsx_step S disabled opts SpreadAttribute b = Some (open_partition b)"
| "jsx_step S disabled opts (NamedAttribute sp name value) b =
     add_item S PartitionOff opts True (last_span b) (jsx_item S disabled opts sp name value) b"

definition sort_jsx :: "'f sort_env \<Rightarrow> src \<Rightarrow> u32 set \<Rightarrow> options \<Rightarrow> jsx_attribute list \<Rightarrow> problem list option" where
  "sort_jsx E S disabled opts attributes =
     Option.bind (fold_option (jsx_step S disabled opts) attributes no_building) (\<lambda>b.
       report_partitions E \<lparr>rp_src = S, rp_options = opts, rp_items = bd_items b, rp_messages = jsx_messages,
         rp_partition_comment = PartitionOff\<rparr> (bd_partitions b))"

section \<open>Object types\<close>

datatype signature_kind = CallOrConstruct | IndexSignature | MethodSignature | PropertySignature

record type_element =
  te_kind :: signature_kind
  te_span :: source_span
  te_name :: string
  te_function :: bool
  te_optional :: bool
  te_type :: "source_span option"

definition type_item :: "src \<Rightarrow> u32 set \<Rightarrow> options \<Rightarrow> type_element \<Rightarrow> 'f item" where
  "type_item S disabled opts e =
     (let early = (if te_kind e = IndexSignature then [''index-signature''] else []) @
            (if te_function e then [''method''] else []);
          selectors = early @ (if early = [] then [''property''] else []) @ [''member''];
          modifiers = (if multiline S (te_span e) then [''multiline''] else []) @
            [if (te_kind e = PropertySignature \<or> te_kind e = MethodSignature) \<and> te_optional e then ''optional'' else ''required''];
          value = (if te_kind e = PropertySignature then map_option (text_of S) (te_type e) else None);
          gname = compute_group opts (predefined_groups selectors modifiers)
            (\<lambda>m. matcher_matches m (te_name e) value selectors modifiers)
      in (new_item S disabled (te_span e) (te_name e) gname)\<lparr>it_value := unwrap_or value [], it_semicolon := True\<rparr>)"

definition type_step :: "src \<Rightarrow> u32 set \<Rightarrow> options \<Rightarrow> type_element \<Rightarrow> 'f building \<Rightarrow> 'f building option" where
  "type_step S disabled opts e b =
     (if te_kind e = CallOrConstruct then Some (open_partition b)
      else add_item S (op_partition_comment opts) opts True (last_span b) (type_item S disabled opts e) b)"

definition ignored_by_value :: "group_spec \<Rightarrow> 'f item \<Rightarrow> bool" where
  "ignored_by_value spec i \<longleftrightarrow> so_by (gs_sort spec) = ByValue \<and> it_value i = []"

definition sort_object_types :: "'f sort_env \<Rightarrow> src \<Rightarrow> u32 set \<Rightarrow> options \<Rightarrow> messages \<Rightarrow> type_element list \<Rightarrow>
    problem list option" where
  "sort_object_types E S disabled opts ms elements =
     Option.bind (fold_option (type_step S disabled opts) elements no_building) (\<lambda>b.
       report_run \<lparr>rp_src = S, rp_options = opts, rp_items = bd_items b, rp_messages = ms,
           rp_partition_comment = op_partition_comment opts\<rparr>
         [0..<length (bd_items b)]
         (order_partitions E opts NameOrValueMode b False ignored_by_value)
         (order_partitions E opts NameOrValueMode b True ignored_by_value))"

section \<open>Objects\<close>

record object_property =
  pp_span :: source_span
  pp_computed :: bool
  pp_name :: string
  pp_method :: bool
  pp_value :: "string option"
  pp_legacy :: "string list option"
  pp_bound :: "string list"

datatype object_entry = EntryBreak | EntryProperty object_property

fun unique_names :: "string list \<Rightarrow> string list \<Rightarrow> string list" where
  "unique_names seen [] = []"
| "unique_names seen (n # ns) = (if n \<in> set seen then unique_names seen ns else n # unique_names (n # seen) ns)"

definition object_item :: "src \<Rightarrow> u32 set \<Rightarrow> options \<Rightarrow> bool \<Rightarrow> object_property \<Rightarrow> 'f item" where
  "object_item S disabled opts destructured p =
     (let selectors = [if pp_method p then ''method'' else ''property'', ''member''];
          modifiers = (if multiline S (pp_span p) then [''multiline''] else []);
          gname = compute_group opts (predefined_groups selectors modifiers)
            (\<lambda>m. matcher_matches m (pp_name p) (pp_value p) selectors modifiers)
      in (new_item S disabled (pp_span p) (pp_name p) gname)\<lparr>
           it_value := unwrap_or (pp_value p) [],
           it_dependency_names := (if destructured then unique_names [] (pp_bound p) else [pp_name p]),
           it_dependencies := (if op_experimental opts then [] else unwrap_or (pp_legacy p) [])\<rparr>)"

fun object_step :: "src \<Rightarrow> u32 set \<Rightarrow> options \<Rightarrow> bool \<Rightarrow> object_entry \<Rightarrow> 'f building \<Rightarrow> 'f building option" where
  "object_step S disabled opts destructured EntryBreak b = Some (open_partition b)"
| "object_step S disabled opts destructured (EntryProperty p) b =
     (if destructured \<or> \<not> op_partition_by_computed_key opts \<or> \<not> pp_computed p
      then add_item S (op_partition_comment opts) opts True (last_span b) (object_item S disabled opts destructured p) b
      else Some (open_partition b))"

text \<open>The references the scope analysis finds inside each item are an argument.\<close>

definition with_references :: "options \<Rightarrow> nat list list \<Rightarrow> 'f building \<Rightarrow> 'f building" where
  "with_references opts refs b =
     (if op_experimental opts then b\<lparr>bd_items := apply_references refs (bd_items b)\<rparr> else b)"

definition order_by_dependencies :: "'f sort_env \<Rightarrow> options \<Rightarrow> mode \<Rightarrow> 'f building \<Rightarrow> bool \<Rightarrow> nat list" where
  "order_by_dependencies E opts md b ignore_disabled =
     sort_by_dependencies (bd_items b) (order_partitions E opts md b ignore_disabled (\<lambda>_ _. False)) ignore_disabled"

definition report_ordered :: "'f sort_env \<Rightarrow> src \<Rightarrow> options \<Rightarrow> messages \<Rightarrow> mode \<Rightarrow> 'f building \<Rightarrow> problem list option" where
  "report_ordered E S opts ms md b =
     report_run \<lparr>rp_src = S, rp_options = opts, rp_items = bd_items b, rp_messages = ms,
         rp_partition_comment = op_partition_comment opts\<rparr>
       [0..<length (bd_items b)] (order_by_dependencies E opts md b False) (order_by_dependencies E opts md b True)"

definition sort_objects :: "'f sort_env \<Rightarrow> src \<Rightarrow> u32 set \<Rightarrow> options \<Rightarrow> bool \<Rightarrow> nat list list \<Rightarrow> object_entry list \<Rightarrow>
    problem list option" where
  "sort_objects E S disabled opts destructured refs entries =
     Option.bind (fold_option (object_step S disabled opts destructured) entries no_building) (\<lambda>b.
       report_ordered E S opts object_messages NameOrValueMode (with_references opts refs b))"

section \<open>Enums\<close>

record 'f enum_member =
  em_span :: source_span
  em_name :: string
  em_initializer :: source_span
  em_literal :: "string option"
  em_is_null :: bool
  em_number :: "'f option"
  em_legacy :: "string list"

definition enum_item :: "src \<Rightarrow> u32 set \<Rightarrow> options \<Rightarrow> 'f enum_member \<Rightarrow> 'f item" where
  "enum_item S disabled opts e =
     (let gname = compute_group opts []
            (\<lambda>m. matcher_matches m (em_name e) (Some (text_of S (em_initializer e))) [] [])
      in (new_item S disabled (em_span e) (em_name e) gname)\<lparr>
           it_value := (if em_is_null e then [] else unwrap_or (em_literal e) []),
           it_numeric := em_number e,
           it_dependency_names := [em_name e],
           it_dependencies := (if op_experimental opts then [] else em_legacy e)\<rparr>)"

text \<open>Here the element before is the last item, in whatever partition.\<close>

definition enum_step :: "src \<Rightarrow> u32 set \<Rightarrow> options \<Rightarrow> 'f enum_member \<Rightarrow> 'f building \<Rightarrow> 'f building option" where
  "enum_step S disabled opts e b =
     add_item S (op_partition_comment opts) opts True (map_option it_span (last_option (bd_items b)))
       (enum_item S disabled opts e) b"

definition sort_enum :: "'f sort_env \<Rightarrow> src \<Rightarrow> u32 set \<Rightarrow> options \<Rightarrow> nat list list \<Rightarrow> 'f enum_member list \<Rightarrow>
    problem list option" where
  "sort_enum E S disabled opts refs members =
     Option.bind (fold_option (enum_step S disabled opts) members no_building) (\<lambda>b0.
       let b = with_references opts refs b0;
           numeric = list_all (\<lambda>i. it_numeric i \<noteq> None) (bd_items b)
       in report_ordered E S opts enum_messages (EnumMode (op_sort_by_value opts) numeric) b)"

end
