(* ===== verification/OrderFacts.thy ===== *)
theory OrderFacts imports
  SortFacts
begin

text \<open>
  The ordering by dependencies (\<^verbatim>\<open>sort.rs\<close>: \<open>circular\<close> and \<open>sort_by_dependencies\<close>): the search marks
  only elements that lie on a cycle, and one of every cycle, so what is left to wait for has no cycle, and the order
  found puts every element after all it waits for.
\<close>

section \<open>The search for cycles\<close>

definition waits :: "(nat \<Rightarrow> nat list) \<Rightarrow> nat set \<Rightarrow> nat set \<Rightarrow> (nat \<times> nat) set" where
  "waits needs skip A = {(v, u). u \<in> A \<and> v \<in> set (needs u) \<and> v \<notin> skip}"

lemma acyclic_add_last:
  assumes "finite A" "acyclic R" "e \<notin> Domain R" "e \<notin> A"
  shows "acyclic (R \<union> A \<times> {e})"
  using assms
proof (induction A)
  case (insert v A)
  let ?R = "R \<union> A \<times> {e}"
  have "e \<notin> Domain ?R" using insert by auto
  then have "(e, v) \<in> ?R\<^sup>* \<Longrightarrow> e = v" by (meson Domain.DomainI converse_rtranclE)
  then have "(e, v) \<notin> ?R\<^sup>*" using insert.prems by auto
  moreover have "acyclic ?R" using insert by auto
  moreover have "R \<union> insert v A \<times> {e} = insert (v, e) ?R" by auto
  ultimately show ?case by (simp add: acyclic_insert)
qed simp

definition searched :: "'f item list \<Rightarrow> nat list \<Rightarrow> search \<Rightarrow> bool" where
  "searched items nodes st \<longleftrightarrow>
     (\<forall>u \<in> sr_visited st. set (providers items nodes u) \<subseteq> sr_cycles st \<union> sr_visited st) \<and>
     acyclic (waits (providers items nodes) (sr_cycles st) (sr_visited st))"

definition search_step :: "'f item list \<Rightarrow> nat list \<Rightarrow> nat list \<Rightarrow> nat list \<Rightarrow> search \<Rightarrow> search \<Rightarrow> bool" where
  "search_step items nodes es path st st' \<longleftrightarrow>
     searched items nodes st' \<and> sr_cycles st \<subseteq> sr_cycles st' \<and> sr_visited st \<subseteq> sr_visited st' \<and>
     set path \<inter> sr_visited st' = {} \<and>
     (\<forall>e \<in> set es. e \<in> sr_visited st' \<or> e \<in> set path \<and> e \<in> sr_cycles st')"

lemma waits_mono: "skip \<subseteq> skip' \<Longrightarrow> waits needs skip' A \<subseteq> waits needs skip A"
  by (auto simp: waits_def)

lemma searched_more_cycles:
  "searched items nodes st \<Longrightarrow> searched items nodes (st\<lparr>sr_cycles := sr_cycles st \<union> C\<rparr>)"
  using waits_mono [of "sr_cycles st" "sr_cycles st \<union> C"]
  by (auto simp: searched_def intro: acyclic_subset)

lemma in_providers:
  "v \<in> set (providers items nodes e) \<longleftrightarrow>
     (\<exists>d \<in> set (it_dependencies (items ! e)). provider items nodes e d = Some v)"
proof -
  have "v \<in> set (List.map_filter f xs) \<longleftrightarrow> (\<exists>x \<in> set xs. f x = Some v)" for f :: "string \<Rightarrow> nat option" and xs
    by (induction xs) (auto simp: List.map_filter_simps split: option.split)
  then show ?thesis by (simp add: providers_def)
qed

lemma provider_Some:
  "provider items nodes e d = Some v \<Longrightarrow> v \<in> set nodes \<and> v \<noteq> e \<and> d \<in> set (it_dependency_names (items ! v))"
  by (auto simp: provider_def find_Some_iff)

lemma providers_in_nodes: "set (providers items nodes e) \<subseteq> set nodes - {e}"
  by (auto simp: in_providers dest: provider_Some)

lemma searched_finish:
  assumes st: "searched items nodes st" and e: "e \<notin> sr_visited st"
    and all: "set (providers items nodes e) \<subseteq> sr_cycles st \<union> sr_visited st"
  shows "searched items nodes (st\<lparr>sr_visited := insert e (sr_visited st)\<rparr>)"
proof -
  let ?p = "providers items nodes" and ?C = "sr_cycles st" and ?V = "sr_visited st"
  have "waits ?p ?C (insert e ?V) = waits ?p ?C ?V \<union> (set (?p e) - ?C) \<times> {e}"
    by (auto simp: waits_def)
  moreover have "e \<notin> Domain (waits ?p ?C ?V)"
    using st e by (auto simp: searched_def waits_def)
  moreover have "acyclic (waits ?p ?C ?V)" using st by (simp add: searched_def)
  ultimately have "acyclic (waits ?p ?C (insert e ?V))"
    using providers_in_nodes [of items nodes e] by (simp add: acyclic_add_last subset_Diff_insert)
  with st all show ?thesis by (auto simp: searched_def)
qed

lemma circular_search:
  "e \<in> set nodes \<Longrightarrow> searched items nodes st \<Longrightarrow> set path \<inter> sr_visited st = {} \<Longrightarrow>
     search_step items nodes [e] path st (circular_visit items nodes e path st)"
  "set es \<subseteq> set nodes \<Longrightarrow> searched items nodes st \<Longrightarrow> set path \<inter> sr_visited st = {} \<Longrightarrow>
     search_step items nodes es path st (circular_each items nodes es path st)"
proof (induction items nodes e path st and items nodes es path st rule: circular_visit_circular_each.induct)
  case (1 items nodes e path st)
  show ?case
  proof (cases "e \<in> sr_visited st")
    case True
    with 1 show ?thesis by (subst circular_visit.simps) (simp add: search_step_def)
  next
    case new: False
    show ?thesis
    proof (cases "e \<in> set path")
      case True
      then have "e \<in> set (dropWhile (\<lambda>n. n \<noteq> e) path)"
        by (metis (mono_tags, lifting) append_Nil2 dropWhile_eq_Nil_conv hd_dropWhile list.set_sel(1))
      with True new 1 show ?thesis
        by (subst circular_visit.simps) (auto simp: search_step_def searched_more_cycles)
    next
      case False
      let ?st = "circular_each items nodes (providers items nodes e) (path @ [e]) st"
      have step: "search_step items nodes (providers items nodes e) (path @ [e]) st ?st"
        using providers_in_nodes [of items nodes e] 1(3,4) new False 1(2)
        by (intro 1(1)) auto
      have fin: "searched items nodes (?st\<lparr>sr_visited := insert e (sr_visited ?st)\<rparr>)"
        using step by (intro searched_finish) (auto simp: search_step_def)
      have "circular_visit items nodes e path st = ?st\<lparr>sr_visited := insert e (sr_visited ?st)\<rparr>"
        using new False 1(2) by (subst circular_visit.simps) (simp add: Let_def)
      with fin step False show ?thesis by (auto simp: search_step_def)
    qed
  qed
next
  case (2 items nodes path st)
  then show ?case by (simp add: search_step_def)
next
  case (3 items nodes e es path st)
  let ?s1 = "circular_visit items nodes e path st"
  have a: "search_step items nodes [e] path st ?s1" using 3(3-) by (intro 3(1)) simp_all
  then have b: "search_step items nodes es path ?s1 (circular_each items nodes es path ?s1)"
    using 3(3) by (intro 3(2)) (simp_all add: search_step_def)
  from a b show ?case by (auto simp: search_step_def)
qed

text \<open>What remains between the nodes once those of the cycles are skipped has no cycle.\<close>

lemma circular_breaks_cycles:
  "acyclic (waits (providers items nodes) (circular items nodes) (set nodes))"
proof -
  let ?s0 = "\<lparr>sr_cycles = {}, sr_visited = {}\<rparr>"
  let ?st = "circular_each items nodes nodes [] ?s0"
  have "searched items nodes ?s0" by (simp add: searched_def waits_def acyclic_def)
  then have "search_step items nodes nodes [] ?s0 ?st" by (intro circular_search) simp_all
  then have "acyclic (waits (providers items nodes) (sr_cycles ?st) (sr_visited ?st))" "set nodes \<subseteq> sr_visited ?st"
    by (auto simp: search_step_def searched_def)
  then show ?thesis
    unfolding circular_def by (auto simp: waits_def intro: acyclic_subset)
qed

section \<open>The order\<close>

definition placed_ok :: "nat list \<Rightarrow> placing \<Rightarrow> bool" where
  "placed_ok nodes st \<longleftrightarrow> set (snd st) = fst st \<and> distinct (snd st) \<and> fst st \<subseteq> set nodes"

definition place_step :: "nat list \<Rightarrow> nat set \<Rightarrow> nat list \<Rightarrow> placing \<Rightarrow> placing \<Rightarrow> bool" where
  "place_step nodes visiting ns st st' \<longleftrightarrow>
     placed_ok nodes st' \<and> fst st \<subseteq> fst st' \<and> fst st' \<inter> visiting = fst st \<inter> visiting \<and>
     set ns \<subseteq> fst st' \<union> visiting"

lemma place_permutes:
  "node \<in> set nodes \<Longrightarrow> \<forall>n. set (needs n) \<subseteq> set nodes \<Longrightarrow> placed_ok nodes st \<Longrightarrow>
     place_step nodes visiting [node] st (place_node needs nodes visiting node st)"
  "set ns \<subseteq> set nodes \<Longrightarrow> \<forall>n. set (needs n) \<subseteq> set nodes \<Longrightarrow> placed_ok nodes st \<Longrightarrow>
     place_step nodes visiting ns st (place_each needs nodes visiting ns st)"
proof (induction needs nodes visiting node st and needs nodes visiting ns st rule: place_node_place_each.induct)
  case (1 needs nodes visiting node st)
  show ?case
  proof (cases "node \<in> fst st \<or> node \<in> visiting")
    case True
    with 1 show ?thesis by (subst place_node.simps) (auto simp: place_step_def)
  next
    case False
    let ?r = "place_each needs nodes (insert node visiting) (needs node) st"
    have step: "place_step nodes (insert node visiting) (needs node) st ?r"
      using False 1(2-) by (intro 1(1)) simp_all
    have "place_node needs nodes visiting node st = (insert node (fst ?r), snd ?r @ [node])"
      using False 1(2) by (subst place_node.simps) (simp add: case_prod_unfold Let_def)
    moreover have "node \<notin> fst ?r" using step False by (auto simp: place_step_def)
    ultimately show ?thesis using step False 1(2) by (auto simp: place_step_def placed_ok_def)
  qed
next
  case (2 needs nodes visiting st)
  then show ?case by (simp add: place_step_def)
next
  case (3 needs nodes visiting n ns st)
  let ?s1 = "place_node needs nodes visiting n st"
  have a: "place_step nodes visiting [n] st ?s1" using 3(3-) by (intro 3(1)) simp_all
  then have b: "place_step nodes visiting ns ?s1 (place_each needs nodes visiting ns ?s1)"
    using 3(3,4) by (intro 3(2)) (simp_all add: place_step_def)
  from a b show ?case by (auto simp: place_step_def)
qed

definition in_order :: "(nat \<Rightarrow> nat list) \<Rightarrow> nat list \<Rightarrow> bool" where
  "in_order needs out \<longleftrightarrow> (\<forall>xs u ys. out = xs @ u # ys \<longrightarrow> set (needs u) \<subseteq> set xs)"

lemma in_order_snoc:
  "in_order needs (out @ [u]) \<longleftrightarrow> in_order needs out \<and> set (needs u) \<subseteq> set out"
  unfolding in_order_def
proof (intro iffI conjI allI impI, goal_cases)
  case (1 xs v ys)
  then show ?case by (metis append_Cons append_assoc)
next
  case 2
  then show ?case by (metis append.right_neutral append_Nil2)
next
  case (3 xs v ys)
  then show ?case by (cases ys rule: rev_cases) (auto simp flip: append_assoc append_Cons)
qed

lemma place_in_order:
  fixes needs nodes
  defines "N \<equiv> waits needs {} (set nodes)"
  assumes "\<forall>n. set (needs n) \<subseteq> set nodes" "acyclic N"
  shows "node \<in> set nodes \<Longrightarrow> placed_ok nodes st \<Longrightarrow> in_order needs (snd st) \<Longrightarrow> \<forall>w \<in> visiting. (node, w) \<in> N\<^sup>+ \<Longrightarrow>
     in_order needs (snd (place_node needs nodes visiting node st))"
  and "set ns \<subseteq> set nodes \<Longrightarrow> placed_ok nodes st \<Longrightarrow> in_order needs (snd st) \<Longrightarrow>
     \<forall>n \<in> set ns. \<forall>w \<in> visiting. (n, w) \<in> N\<^sup>+ \<Longrightarrow>
     in_order needs (snd (place_each needs nodes visiting ns st))"
  using assms(2,3) unfolding N_def
proof (induction needs nodes visiting node st and needs nodes visiting ns st rule: place_node_place_each.induct)
  case (1 needs nodes visiting node st)
  let ?N = "waits needs {} (set nodes)"
  show ?case
  proof (cases "node \<in> fst st \<or> node \<in> visiting")
    case True
    with 1 show ?thesis by (subst place_node.simps) auto
  next
    case False
    let ?r = "place_each needs nodes (insert node visiting) (needs node) st"
    have edge: "(n, node) \<in> ?N" if "n \<in> set (needs node)" for n
      using that 1(2) by (simp add: waits_def)
    have reach: "\<forall>n \<in> set (needs node). \<forall>w \<in> insert node visiting. (n, w) \<in> ?N\<^sup>+"
      using edge 1(5) by (auto intro: trancl_into_trancl2)
    have ord: "in_order needs (snd ?r)"
      using False 1(2-) reach by (intro 1(1)) simp_all
    have step: "place_step nodes (insert node visiting) (needs node) st ?r"
      using 1(3,6) by (intro place_permutes) simp_all
    have out: "n \<notin> insert node visiting" if "n \<in> set (needs node)" for n
      using reach that 1(7) by (auto simp: acyclic_def)
    from step have "set (needs node) \<subseteq> set (snd ?r) \<union> insert node visiting"
      by (simp add: place_step_def placed_ok_def)
    with out have "set (needs node) \<subseteq> set (snd ?r)" by blast
    with ord False 1(2) show ?thesis
      by (subst place_node.simps) (simp add: case_prod_unfold Let_def in_order_snoc)
  qed
next
  case (2 needs nodes visiting st)
  from 2(3) show ?case by (simp only: place_each.simps)
next
  case (3 needs nodes visiting n ns st)
  let ?s1 = "place_node needs nodes visiting n st"
  have a: "place_step nodes visiting [n] st ?s1" using 3(3-) by (intro place_permutes) simp_all
  have o1: "in_order needs (snd ?s1)"
    by (rule 3(1)) (use 3(3-) in \<open>simp_all\<close>)
  then have "in_order needs (snd (place_each needs nodes visiting ns ?s1))"
    using a 3(3,6-) by (intro 3(2)) (simp_all add: place_step_def)
  then show ?case by simp
qed


section \<open>Dependencies first\<close>

definition names_unique :: "'f item list \<Rightarrow> nat list \<Rightarrow> bool" where
  "names_unique items nodes \<longleftrightarrow>
     (\<forall>a \<in> set nodes. \<forall>b \<in> set nodes. a \<noteq> b \<longrightarrow>
        set (it_dependency_names (items ! a)) \<inter> set (it_dependency_names (items ! b)) = {})"

lemma depends_provider:
  assumes "names_unique items nodes" "a \<in> set nodes" "depends items a b"
  shows "a \<in> set (providers items nodes b)"
proof -
  from assms(3) obtain d where d: "a \<noteq> b" "d \<in> set (it_dependency_names (items ! a))" "d \<in> set (it_dependencies (items ! b))"
    by (auto simp: depends_def list_ex_iff)
  have "provider items nodes b d \<noteq> None" using d assms(2) by (auto simp: provider_def find_None_iff)
  then obtain v where v: "provider items nodes b d = Some v" by auto
  from provider_Some [OF v] d assms(1,2) have "v = a" by (auto simp: names_unique_def)
  with v d show ?thesis by (auto simp: in_providers)
qed

lemma awaited_in_nodes: "set (awaited items nodes ignore_disabled u) \<subseteq> set nodes"
  by (auto simp: awaited_def)

lemma acyclic_awaited:
  assumes "names_unique items nodes"
  shows "acyclic (waits (awaited items nodes ignore_disabled) {} (set nodes))"
proof (rule acyclic_subset [OF circular_breaks_cycles])
  show "waits (awaited items nodes ignore_disabled) {} (set nodes)
      \<subseteq> waits (providers items nodes) (circular items nodes) (set nodes)"
    using depends_provider [OF assms] by (auto simp: waits_def awaited_def)
qed

lemma sort_by_dependencies_placed:
  "place_step nodes {} nodes ({}, []) (place_each (awaited items nodes ignore_disabled) nodes {} nodes ({}, []))"
  by (rule place_permutes(2)) (simp_all add: placed_ok_def awaited_in_nodes)

lemma mset_sort_by_dependencies:
  assumes "distinct nodes"
  shows "mset (sort_by_dependencies items nodes ignore_disabled) = mset nodes"
proof -
  from sort_by_dependencies_placed [of nodes items ignore_disabled]
  have "distinct (sort_by_dependencies items nodes ignore_disabled)"
    "set (sort_by_dependencies items nodes ignore_disabled) = set nodes"
    by (auto simp: place_step_def placed_ok_def sort_by_dependencies_def)
  with assms show ?thesis by (simp add: set_eq_iff_mset_eq_distinct [symmetric])
qed

section \<open>Only what lies on a cycle is marked\<close>

definition dependence :: "'f item list \<Rightarrow> nat list \<Rightarrow> (nat \<times> nat) set" where
  "dependence items nodes = {(v, u). v \<in> set nodes \<and> u \<in> set nodes \<and> depends items v u}"

lemma provider_dependence:
  "u \<in> set nodes \<Longrightarrow> v \<in> set (providers items nodes u) \<Longrightarrow> (v, u) \<in> dependence items nodes"
  by (auto simp: in_providers dependence_def depends_def list_ex_iff dest!: provider_Some)

definition back_path :: "'f item list \<Rightarrow> nat list \<Rightarrow> nat list \<Rightarrow> bool" where
  "back_path items nodes = successively (\<lambda>u v. (v, u) \<in> dependence items nodes)"

lemma back_path_reaches:
  "back_path items nodes (x # ys @ [y]) \<Longrightarrow> z \<in> set ys \<union> {y} \<Longrightarrow> (z, x) \<in> (dependence items nodes)\<^sup>+"
proof (induction ys arbitrary: x)
  case Nil
  then show ?case by (auto simp: back_path_def)
next
  case (Cons a ys)
  then have edge: "(a, x) \<in> dependence items nodes" and rest: "back_path items nodes (a # ys @ [y])"
    by (auto simp: back_path_def)
  show ?case
  proof (cases "z = a")
    case False
    with Cons.prems have "(z, a) \<in> (dependence items nodes)\<^sup>+" by (intro Cons.IH [OF rest]) auto
    then show ?thesis using edge by (rule trancl_into_trancl)
  qed (use edge in blast)
qed

lemma back_path_suffix: "back_path items nodes (xs @ ys) \<Longrightarrow> back_path items nodes ys"
  by (simp add: back_path_def successively_append_iff)

lemma closed_path_cycles:
  assumes "back_path items nodes (path @ [e])" "e \<in> set path" "v \<in> set (dropWhile (\<lambda>n. n \<noteq> e) path)"
  shows "(v, v) \<in> (dependence items nodes)\<^sup>+"
proof -
  obtain ys where drop: "dropWhile (\<lambda>n. n \<noteq> e) path = e # ys"
    using assms(2) by (metis (mono_tags, lifting) dropWhile_eq_Nil_conv hd_dropWhile list.exhaust_sel)
  have "path @ [e] = takeWhile (\<lambda>n. n \<noteq> e) path @ e # ys @ [e]"
    using drop by (metis append_Cons append_assoc takeWhile_dropWhile_id)
  with assms(1) have closed: "back_path items nodes (e # ys @ [e])" by (metis back_path_suffix)
  have e: "(e, e) \<in> (dependence items nodes)\<^sup>+" using back_path_reaches [OF closed] by blast
  show ?thesis
  proof (cases "v = e")
    case False
    with assms(3) drop have "v \<in> set ys" by simp
    then obtain as bs where ys: "ys = as @ v # bs" by (auto simp: in_set_conv_decomp)
    have "back_path items nodes (v # bs @ [e])"
      using back_path_suffix [of items nodes "e # as" "v # bs @ [e]"] closed ys by simp
    then have "(e, v) \<in> (dependence items nodes)\<^sup>+" by (rule back_path_reaches) simp
    moreover have "(v, e) \<in> (dependence items nodes)\<^sup>+"
      using back_path_reaches [OF closed] \<open>v \<in> set ys\<close> by blast
    ultimately show ?thesis by (rule trancl_trans [rotated])
  qed (use e in simp)
qed

definition on_cycles :: "'f item list \<Rightarrow> nat list \<Rightarrow> search \<Rightarrow> bool" where
  "on_cycles items nodes st \<longleftrightarrow> (\<forall>v \<in> sr_cycles st. (v, v) \<in> (dependence items nodes)\<^sup>+)"

lemma circular_on_cycles:
  "e \<in> set nodes \<Longrightarrow> back_path items nodes (path @ [e]) \<Longrightarrow> on_cycles items nodes st \<Longrightarrow>
     on_cycles items nodes (circular_visit items nodes e path st)"
  "set es \<subseteq> set nodes \<Longrightarrow> \<forall>e \<in> set es. back_path items nodes (path @ [e]) \<Longrightarrow> on_cycles items nodes st \<Longrightarrow>
     on_cycles items nodes (circular_each items nodes es path st)"
proof (induction items nodes e path st and items nodes es path st rule: circular_visit_circular_each.induct)
  case (1 items nodes e path st)
  show ?case
  proof (cases "e \<in> sr_visited st \<or> e \<in> set path")
    case True
    then show ?thesis
      using 1(4) closed_path_cycles [OF 1(3)] by (subst circular_visit.simps) (auto simp: on_cycles_def)
  next
    case False
    let ?st = "circular_each items nodes (providers items nodes e) (path @ [e]) st"
    have "back_path items nodes ((path @ [e]) @ [v])" if "v \<in> set (providers items nodes e)" for v
      using 1(3) provider_dependence [OF 1(2) that] by (simp add: back_path_def successively_append_iff)
    then have "on_cycles items nodes ?st"
      using False 1(2,4) providers_in_nodes [of items nodes e] by (intro 1(1)) auto
    then show ?thesis
      using False 1(2) by (subst circular_visit.simps) (simp add: Let_def on_cycles_def)
  qed
next
  case (2 items nodes path st)
  then show ?case by simp
next
  case (3 items nodes e es path st)
  then show ?case by simp
qed

lemma circular_is_on_a_cycle:
  "v \<in> circular items nodes \<Longrightarrow> (v, v) \<in> (dependence items nodes)\<^sup>+"
  using circular_on_cycles(2) [of nodes nodes items "[]" "\<lparr>sr_cycles = {}, sr_visited = {}\<rparr>"]
  by (simp add: circular_def on_cycles_def back_path_def)

section \<open>The claim\<close>

text \<open>
  C21: Sorting by dependencies permutes the nodes. An element is marked as circular only where a
  chain of dependencies leads from it back to itself. When no two nodes go by the same name, every node
  comes after all the nodes it depends on, those on such a cycle (and the disabled ones that must not
  move) excepted: the marked elements are enough to leave what remains without a cycle.
\<close>

theorem dependencies_come_first:
  assumes "distinct nodes" "sort_by_dependencies items nodes ignore_disabled = result"
  shows "mset result = mset nodes \<and>
     (\<forall>w. w \<in> circular items nodes \<longrightarrow> (w, w) \<in> (dependence items nodes)\<^sup>+) \<and>
     (names_unique items nodes \<longrightarrow> result = xs @ u # ys \<longrightarrow> v \<in> set nodes \<longrightarrow> depends items v u \<longrightarrow>
        v \<notin> circular items nodes \<or> (v, v) \<notin> (dependence items nodes)\<^sup>+ \<longrightarrow>
        \<not> (ignore_disabled \<and> it_disabled (items ! v)) \<longrightarrow> v \<in> set xs)"
proof -
  let ?needs = "awaited items nodes ignore_disabled"
  have needs: "\<forall>n. set (?needs n) \<subseteq> set nodes" by (simp add: awaited_in_nodes)
  have "in_order ?needs result" if "names_unique items nodes"
    unfolding assms(2) [symmetric] sort_by_dependencies_def
    by (rule place_in_order(2) [OF needs acyclic_awaited [OF that]]) (simp_all add: placed_ok_def in_order_def)
  with mset_sort_by_dependencies [OF assms(1)] assms(2) have main: "mset result = mset nodes \<and>
     (names_unique items nodes \<longrightarrow> result = xs @ u # ys \<longrightarrow> v \<in> set nodes \<longrightarrow> depends items v u \<longrightarrow>
        v \<notin> circular items nodes \<longrightarrow> \<not> (ignore_disabled \<and> it_disabled (items ! v)) \<longrightarrow> v \<in> set xs)"
    by (auto simp: in_order_def awaited_def)
  have cycles: "\<forall>w. w \<in> circular items nodes \<longrightarrow> (w, w) \<in> (dependence items nodes)\<^sup>+"
    using circular_is_on_a_cycle by blast
  then have iff: "v \<notin> circular items nodes \<or> (v, v) \<notin> (dependence items nodes)\<^sup>+ \<longleftrightarrow> v \<notin> circular items nodes"
    by blast
  show ?thesis unfolding iff using main cycles by blast
qed

definition dependent_items :: "nat item list" where
  "dependent_items = [plain_item 1 ''a'' False [''x''] [''y''], plain_item 2 ''a'' False [''y''] [''z''],
     plain_item 3 ''a'' False [''z''] []]"

lemma dependencies_come_first_witness:
  "sort_by_dependencies dependent_items [0, 1, 2] False = [2] @ 1 # [0] \<and>
   mset [2, 1, 0 :: nat] = mset [0, 1, 2] \<and> (2 :: nat) \<in> set [2]"
proof -
  have result: "sort_by_dependencies dependent_items [0, 1, 2] False = [2] @ 1 # [0]" by code_simp
  moreover have "names_unique dependent_items [0, 1, 2]"
    by (simp add: names_unique_def dependent_items_def plain_item_def)
  moreover have "depends dependent_items 2 1" by (simp add: depends_def dependent_items_def plain_item_def)
  moreover have "2 \<notin> circular dependent_items [0, 1, 2]" by code_simp
  ultimately show ?thesis
    using dependencies_come_first [OF _ result, where xs = "[2]" and u = 1 and ys = "[0]" and v = 2] by simp
qed

end
