(* ===== verification/RuleFacts.thy ===== *)
theory RuleFacts imports
  PerfRules
  OrderFacts
begin

text \<open>
  What options that pass \<open>validate\<close> promise (\<^verbatim>\<open>options.rs\<close>), that the defaults of the six rules do, and
  that the orders the rules report against are permutations of their items.
\<close>

section \<open>Valid options\<close>

lemma duplicated_names_Nil:
  "duplicated_names seen dup ns = [] \<longleftrightarrow> dup = [] \<and> distinct ns \<and> set ns \<inter> set seen = {}"
proof (induction ns arbitrary: seen dup)
  case (Cons n ns)
  then show ?case by auto
qed simp

lemma validate_options_ok:
  assumes "validate_options sc opts = Inr ()"
  shows "distinct (group_names_of (op_groups opts))"
    "\<forall>n \<in> set (group_names_of (op_groups opts)). is_predefined sc n \<or> n \<in> cg_name ` set (op_custom_groups opts)"
    "\<not> consecutive_newlines False (op_groups opts)"
    "op_partition_newline opts \<Longrightarrow> op_newlines_between opts = IgnoreNewlines \<and> list_all (Not \<circ> separates) (op_groups opts)"
  using assms
  by (auto simp: validate_options_def Let_def duplicated_names_Nil filter_empty_conv list_ex_iff list_all_iff
      split: if_splits)

lemma parse_options_names:
  "parse_options E sc m = Inr opts \<Longrightarrow> op_group_names opts = set (group_names_of (op_groups opts))"
  by (auto simp: parse_options_def then_ok_Inr_iff)

lemma build_options_ok:
  assumes "build_options E sc option settings = Inr opts"
  shows "validate_options sc opts = Inr () \<and> op_group_names opts = set (group_names_of (op_groups opts))"
  using assms by (auto simp: build_options_def Let_def then_ok_Inr_iff dest: parse_options_names)

lemma in_group_names: "n \<in> set (group_names_of gs) \<longleftrightarrow> (\<exists>g \<in> set gs. group_holds n g)"
proof -
  have "n \<in> set (case names_of g of None \<Rightarrow> [] | Some ns \<Rightarrow> all_names ns) \<longleftrightarrow> group_holds n g" for g
  proof (cases "names_of g")
    case (Some ns)
    then show ?thesis by (cases ns) (auto simp: group_holds_def)
  qed (simp add: group_holds_def)
  then show ?thesis by (simp add: group_names_of_def)
qed

lemma distinct_group_names_one:
  "distinct (group_names_of gs) \<Longrightarrow> i < length gs \<Longrightarrow> j < length gs \<Longrightarrow>
     group_holds n (gs ! i) \<Longrightarrow> group_holds n (gs ! j) \<Longrightarrow> i = j"
proof (induction gs arbitrary: i j)
  case (Cons g gs)
  have split: "group_names_of (g # gs) = group_names_of [g] @ group_names_of gs"
    by (simp add: group_names_of_def)
  have one: "n \<notin> set (group_names_of gs)" if "group_holds n g"
    using Cons.prems(1) that in_group_names [of n "[g]"] unfolding split by auto
  have tail: "group_holds n (gs ! k) \<Longrightarrow> k < length gs \<Longrightarrow> n \<in> set (group_names_of gs)" for k
    using in_group_names by auto
  have "distinct (group_names_of gs)" using Cons.prems(1) unfolding split by simp
  then show ?case
    using Cons.IH [of "i - 1" "j - 1"] Cons.prems(2-5) one tail [of "i - 1"] tail [of "j - 1"]
    by (cases i; cases j) auto
qed simp

text \<open>
  C38: Options that build are sound: every group name they list is a predefined group of the rule or one
  of the custom groups; no name is listed twice, in two groups or within one; and the group computed for an element is either
  \<open>unknown\<close> and after all groups, or it is listed in exactly one group, at its index.
\<close>

theorem built_options_are_sound:
  assumes "build_options E sc option settings = Inr opts" "g = compute_group opts predefined accepts"
  shows "distinct (group_names_of (op_groups opts)) \<and>
     (\<forall>n \<in> set (group_names_of (op_groups opts)). is_predefined sc n \<or> n \<in> cg_name ` set (op_custom_groups opts)) \<and>
     (if g \<in> set (group_names_of (op_groups opts))
      then group_index opts g < length (op_groups opts) \<and>
        {i. i < length (op_groups opts) \<and> group_holds g (op_groups opts ! i)} = {group_index opts g}
      else g = ''unknown'' \<and> group_index opts g = length (op_groups opts))"
proof -
  from build_options_ok [OF assms(1)] have names: "op_group_names opts = set (group_names_of (op_groups opts))"
    and valid: "validate_options sc opts = Inr ()" by simp_all
  note ok = validate_options_ok [OF valid]
  have unknown: "g \<in> set (group_names_of (op_groups opts)) \<or> g = ''unknown''"
    using assms(2) names by (auto simp: compute_group_def find_Some_iff split: option.splits)
  show ?thesis
  proof (cases "g \<in> set (group_names_of (op_groups opts))")
    case True
    then have "position (group_holds g) (op_groups opts) \<noteq> None"
      by (simp add: position_None in_group_names)
    then have pos: "position (group_holds g) (op_groups opts) = Some (group_index opts g)"
      by (simp add: position_index split: if_splits)
    then have at: "group_index opts g < length (op_groups opts)" "group_holds g (op_groups opts ! group_index opts g)"
      by (simp_all add: position_Some)
    then have "{i. i < length (op_groups opts) \<and> group_holds g (op_groups opts ! i)} = {group_index opts g}"
      using distinct_group_names_one [OF ok(1)] by auto
    with True at ok(1,2) show ?thesis by simp
  next
    case False
    then have "position (group_holds g) (op_groups opts) = None"
      by (simp add: position_None in_group_names)
    then have "group_index opts g = length (op_groups opts)"
      by (simp add: group_index_def unwrap_or_def)
    with False unknown ok(1,2) show ?thesis by simp
  qed
qed

section \<open>Defaults\<close>

definition plain_env :: perf_env where
  "plain_env = \<lparr>pe_engine = (\<lambda>p f. Inr (\<lambda>_. None, \<lambda>_. None)), pe_locale_error = (\<lambda>_. None),
     pe_collator = (\<lambda>_. Inr compare_units)\<rparr>"

lemma plain_env_regex: "regex_parse (pe_engine E) (JArray []) b k = Inr []"
  by (simp add: regex_parse_def)

lemmas default_parsers = parse_options_def parse_sort_def parse_kind_def parse_order_def parse_by_def
  parse_fallback_def fallback_key_def json_object_def parse_text_def parse_special_def json_boolean_def
  parse_alphabet_def json_string_def parse_collator_def locale_tag_def parse_partition_def parse_groups_def
  json_array_def parse_flag_def parse_newlines_def parse_inside_def parse_custom_groups_def parse_when_def
  parse_sort_by_value_def as_str_def ok_or_def unwrap_or_def

lemmas default_rules = build_options_def merge_settings_def merge_option_def unsorted_fallback_def
  validate_options_def group_names_of_def default_parsers

text \<open>Without options and settings, each of the six rules runs on its defaults.\<close>

lemma defaults_build:
  assumes "pe_locale_error E ''en-US'' = None" "pe_collator E ''en-US'' = Inr c"
  shows "\<exists>opts. build_options E enum_schema None None = Inr opts"
    "\<exists>opts. build_options E heritage_schema None None = Inr opts"
    "\<exists>opts. build_options E jsx_schema None None = Inr opts"
    "\<exists>opts. build_options E object_type_schema None None = Inr opts"
    "\<exists>opts. build_options E object_schema None None = Inr opts"
  by (simp_all add: default_rules plain_env_regex assms enum_schema_def enum_defaults_def heritage_schema_def
    heritage_defaults_def jsx_schema_def jsx_defaults_def object_type_schema_def object_type_defaults_def
    object_schema_def object_defaults_def)

lemma rules_build_without_options:
  assumes "pe_locale_error E ''en-US'' = None" "pe_collator E ''en-US'' = Inr c" "rule_schema rule = Some sc"
  shows "\<exists>b. build_rule E rule [] None directive = Inr b"
proof -
  have "\<exists>opts. build_options E sc None None = Inr opts"
    using assms(3) defaults_build [OF assms(1,2)] by (auto simp: rule_schema_def split: if_splits)
  with assms(3) show ?thesis
    by (auto simp: build_rule_def base_new_def settings_entry_def)
qed

lemma built_options_are_sound_witness:
  "\<exists>opts. build_options plain_env object_schema None None = Inr opts \<and>
     group_index opts (compute_group opts [''member''] (\<lambda>_. True)) \<le> length (op_groups opts)"
proof -
  obtain opts where o: "build_options plain_env object_schema None None = Inr opts"
    using defaults_build(5) [of plain_env compare_units] by (auto simp: plain_env_def)
  from built_options_are_sound [OF o refl, of "[''member'']" "\<lambda>_. True"]
  have "group_index opts (compute_group opts [''member''] (\<lambda>_. True)) \<le> length (op_groups opts)"
    by (auto split: if_splits)
  with o show ?thesis by blast
qed

section \<open>Items and partitions\<close>

text \<open>The partitions hold the indexes of all items, each once and in order.\<close>

definition building_ok :: "'f building \<Rightarrow> bool" where
  "building_ok b \<longleftrightarrow> bd_partitions b \<noteq> [] \<and> concat (bd_partitions b) = [0..<length (bd_items b)]"

lemma no_building_ok: "building_ok no_building"
  by (simp add: building_ok_def no_building_def)

lemma open_partition_ok: "building_ok b \<Longrightarrow> building_ok (open_partition b)"
  by (simp add: building_ok_def open_partition_def)

lemma concat_push_last: "ps \<noteq> [] \<Longrightarrow> concat (push_last i ps) = concat ps @ [i]"
  by (cases ps rule: rev_cases) (simp_all add: push_last_def)

lemma push_last_Nil [simp]: "push_last i ps = [] \<longleftrightarrow> ps = []"
  by (simp add: push_last_def)

lemma add_item_ok:
  assumes "building_ok b" "add_item S pc opts numbered previous i b = Some b'"
  shows "building_ok b'"
proof -
  from assms(2) obtain split where b': "bd_items b' = bd_items b @ [last (bd_items b')]"
      "bd_partitions b' = push_last (length (bd_items b)) (bd_partitions (if split then open_partition b else b))"
    by (auto simp: add_item_def Let_def)
  have "building_ok (if split then open_partition b else b)"
    using assms(1) by (simp add: open_partition_ok)
  then have ps: "bd_partitions (if split then open_partition b else b) \<noteq> []"
      "concat (bd_partitions (if split then open_partition b else b)) = [0..<length (bd_items b)]"
    by (simp_all add: building_ok_def open_partition_def split: if_splits)
  have "length (bd_items b') = Suc (length (bd_items b))" by (subst b'(1)) simp
  with ps b'(2) show ?thesis by (simp add: building_ok_def concat_push_last)
qed

lemma fold_option_invariant:
  assumes "fold_option f xs s = Some s'" "P s" "\<And>x u v. P u \<Longrightarrow> f x u = Some v \<Longrightarrow> P v"
  shows "P s'"
  using assms(1,2)
proof (induction xs arbitrary: s)
  case (Cons x xs)
  then obtain u where "f x s = Some u" "fold_option f xs u = Some s'" by (auto split: bind_splits)
  with Cons assms(3) show ?case by blast
qed simp

lemma rule_steps_ok:
  assumes "building_ok b"
  shows "jsx_step S disabled opts a b = Some b' \<Longrightarrow> building_ok b'"
    and "type_step S disabled opts e b = Some b' \<Longrightarrow> building_ok b'"
    and "object_step S disabled opts destructured p b = Some b' \<Longrightarrow> building_ok b'"
    and "enum_step S disabled opts m b = Some b' \<Longrightarrow> building_ok b'"
  using assms
  by (cases a; cases p; auto simp: type_step_def enum_step_def intro: open_partition_ok add_item_ok split: if_splits)+

lemma mset_order_partitions:
  "building_ok b \<Longrightarrow> mset (order_partitions E opts md b ignore_disabled ignored) = mset [0..<length (bd_items b)]"
proof -
  have "mset (concat (map (\<lambda>p. sort_by_groups E opts md items p ignore_disabled ignored) ps)) = mset (concat ps)" for items ps
    by (induction ps) simp_all
  then show "building_ok b \<Longrightarrow> ?thesis" by (simp add: order_partitions_def building_ok_def)
qed

lemma mset_order_by_dependencies:
  assumes "building_ok b"
  shows "mset (order_by_dependencies E opts md b ignore_disabled) = mset [0..<length (bd_items b)]"
proof -
  note m = mset_order_partitions [OF assms, of E opts md ignore_disabled]
  then have "distinct (order_partitions E opts md b ignore_disabled (\<lambda>_ _. False))"
    by (metis distinct_upt mset_eq_imp_distinct_iff)
  with m show ?thesis by (simp add: order_by_dependencies_def mset_sort_by_dependencies)
qed


section \<open>Blank lines before elements of no group\<close>

text \<open>
  An element of the group \<open>unknown\<close>, which comes after all the groups, must follow an element of a
  group two or more before it with no blank line, whatever the options say of blank lines: the slice of
  groups up to the index after the last one does not exist.
\<close>

lemma unknown_group_wants_no_blank_line:
  assumes "left + 2 < length (op_groups opts)"
  shows "newlines_between opts left (length (op_groups opts)) = CountNewlines 0"
  using assms by (simp add: newlines_between_def Let_def)

lemma no_newlines_between_groups:
  assumes "left + 2 < right" "right < length (op_groups opts)" "\<forall>g \<in> set (op_groups opts). \<not> is_newlines_group g"
    "op_newlines_between opts = IgnoreNewlines"
  shows "newlines_between opts left right = IgnoreNewlines"
proof -
  have vals: "newline_values IgnoreNewlines (Some p) gs = replicate (length gs) IgnoreNewlines"
    if "\<forall>g \<in> set (p # gs). \<not> is_newlines_group g" for p gs
    using that
  proof (induction gs arbitrary: p)
    case (Cons g gs)
    then show ?case by (cases g) (auto simp: is_newlines_group_def split: group.splits)
  qed simp
  let ?r = "take (right + 1 - left) (drop left (op_groups opts))"
  have "2 < length ?r" using assms(1,2) by simp
  moreover have "2 < length xs \<Longrightarrow> \<exists>g gs. xs = g # gs \<and> gs \<noteq> []" for xs :: "group list"
    by (cases xs) auto
  ultimately obtain g gs where r: "?r = g # gs" "gs \<noteq> []" by blast
  have "set ?r \<subseteq> set (op_groups opts)" by (meson order_trans set_drop_subset set_take_subset)
  with assms(3) r(1) have none: "\<forall>h \<in> set (g # gs). \<not> is_newlines_group h" by auto
  have counts: "newline_counts (replicate n IgnoreNewlines) = []" for n by (induction n) simp_all
  have "newline_values IgnoreNewlines None ?r = replicate (length gs) IgnoreNewlines"
    unfolding r(1) using none vals [OF none] by (cases g) (simp_all add: is_newlines_group_def)
  with r(2) assms show ?thesis by (simp add: newlines_between_def Let_def counts)
qed

end
