(* ===== verification/TsSyntax.thy ===== *)
theory TsSyntax imports
  Edits
  Langs
begin

text \<open>
  The tree the passes of \<^verbatim>\<open>crates/ts\<close> read, and the text queries of \<^verbatim>\<open>crates/ts/src/syntax.rs\<close>. The
  parser (oxc) is third-party code: what it answers is an argument, and a tree is a value of \<open>node\<close>, whose
  types bear oxc's names. A node has its children in the order oxc visits them, each with the field of
  its parent it is; a type no code of the crate tells apart is \<open>Plain\<close> with its number. Operators are their
  discriminants.
\<close>

section \<open>Trees\<close>

datatype var_kind = Var | Const | Let | Using | AwaitUsing

datatype property_kind = InitProperty | GetProperty | SetProperty

datatype method_kind = ConstructorMethod | PlainMethod | GetMethod | SetMethod

datatype function_type =
  FunctionDeclaration | FunctionExpression | TSDeclareFunction | TSEmptyBodyFunctionExpression

datatype name_kind =
  IdentifierName | IdentifierReference | BindingIdentifier | LabelIdentifier | PrivateIdentifier | JSXIdentifier

datatype literal =
  StringLiteral string | BigIntLiteral string | NumericLiteral u64 | BooleanLiteral bool | NullLiteral
| RegExpLiteral string u8 | TemplateElement string | Hashbang string | JSXText string

datatype operation =
  BinaryExpression | LogicalExpression | UnaryExpression | AssignmentExpression | TSTypeOperator

datatype statement_type =
  Program | Directive | BlockStatement | FunctionBody | StaticBlock | SwitchCase | SwitchStatement | ClassBody
| IfStatement | ForStatement | ForInStatement | WhileStatement | DoWhileStatement | WithStatement | TryStatement
| CatchClause | ReturnStatement | ExpressionStatement | EmptyStatement | BreakStatement | ContinueStatement
| ImportDeclaration | ImportSpecifier | ImportNamespaceSpecifier | ImportDefaultSpecifier | ExportDeclaration
| ExportDefaultDeclaration | VariableDeclarator | Class

datatype expression_type =
  ObjectExpression | ArrayExpression | SpreadElement | Elision | CallExpression | StaticMemberExpression
| ComputedMemberExpression | PrivateFieldExpression | ChainExpression | ParenthesizedExpression
| AwaitExpression | ConditionalExpression | TemplateLiteral | TaggedTemplateExpression | Decorator
| JSXElement | JSXOpeningElement | JSXAttribute | JSXExpressionContainer

datatype type_type =
  TSNonNullExpression | TSAsExpression | TSSatisfiesExpression | TSTypeAssertion | TSParenthesizedType
| TSUnionType | TSIntersectionType | TSEnumDeclaration | TSExternalModuleDeclaration | TSNamespaceDeclaration
| TSGlobalDeclaration | TSTypeAliasDeclaration | TSInterfaceDeclaration | TSIndexSignature
| TSInstantiationExpression

text \<open>
  \<open>AstKind\<close>, less what no pass reads. Of the arguments that are truth values: \<open>Function\<close> has \<open>async\<close> and
  \<open>generator\<close>, \<open>ArrowFunctionExpression\<close> has \<open>async\<close>, \<open>ForOfStatement\<close> has \<open>await\<close>, \<open>UpdateExpression\<close> has
  \<open>prefix\<close>, \<open>ObjectProperty\<close> has \<open>method\<close>, \<open>shorthand\<close> and \<open>computed\<close>, \<open>MethodDefinition\<close> and
  \<open>PropertyDefinition\<close> have \<open>static\<close>, \<open>computed\<close> and whether they are the abstract type, \<open>AccessorProperty\<close>
  whether it is the abstract type.
\<close>

datatype kind =
  Stmt statement_type
| Expr expression_type
| Tst type_type
| Name name_kind string
| Literal literal
| Operation operation u8
| UpdateExpression u8 bool
| VariableDeclaration var_kind
| Function function_type bool bool
| ArrowFunctionExpression bool
| ForOfStatement bool
| ObjectProperty property_kind bool bool bool
| MethodDefinition method_kind bool bool bool
| PropertyDefinition bool bool bool
| AccessorProperty bool
| Plain u8

text \<open>The fields the passes tell apart.\<close>

datatype field =
  Root | Directives | Body | Test | Consequent | Alternate | Callee | TypeArguments | Arguments | Object | Property
| Key | Value | Id | Init | Properties | Elements | Expressions | Types | Declarations | DeclarationField | Tag | Quasi
| Opening | Attributes | Children | NameField | Label | Cases | Statements | LeftField | RightField | ExpressionField
| Decorators | TypeAnnotation | Update | Discriminant | Param | Specifiers | SourceField | Imported | LocalField
| OtherField

type_synonym span32 = "u32 \<times> u32"

datatype node = Node (nd_field: field) (nd_kind: kind) (nd_span: span32) (nd_children: "node list")

abbreviation nd_start :: "node \<Rightarrow> u32" where "nd_start n \<equiv> fst (nd_span n)"

abbreviation nd_end :: "node \<Rightarrow> u32" where "nd_end n \<equiv> snd (nd_span n)"

definition in_field :: "field \<Rightarrow> node \<Rightarrow> node list" where
  "in_field f n = filter (\<lambda>c. nd_field c = f) (nd_children n)"

definition the_field :: "field \<Rightarrow> node \<Rightarrow> node option" where
  "the_field f n = (case in_field f n of [] \<Rightarrow> None | c # _ \<Rightarrow> Some c)"

text \<open>Every node below and with a node, in the order \<open>enter_node\<close> is called.\<close>

fun preorder :: "node \<Rightarrow> node list" where
  "preorder (Node f k s cs) = Node f k s cs # concat (map preorder cs)"

lemma preorder_unfold: "preorder n = n # concat (map preorder (nd_children n))"
  by (cases n) simp

lemma child_size: "c \<in> set (nd_children n) \<Longrightarrow> size c < size n"
  by (cases n) (auto dest: size_list_estimation' [where f = size, OF _ order_refl])

lemma the_field_child: "the_field f n = Some c \<Longrightarrow> c \<in> set (nd_children n) \<and> nd_field c = f"
  unfolding the_field_def in_field_def
  by (auto split: list.splits dest!: Cons_eq_filterD [OF sym])

lemma the_field_size [termination_simp]: "the_field f n = Some c \<Longrightarrow> size c < size n"
  by (blast dest: the_field_child child_size)

lemma in_field_size [termination_simp]: "c \<in> set (in_field f n) \<Longrightarrow> size c < size n"
  by (auto simp: in_field_def dest: child_size)

text \<open>\<open>Comment\<close>: its span, its content's span, and whether it is a block comment.\<close>

record comment_span =
  cs_span :: span32
  cs_content :: span32
  cs_block :: bool

record program =
  pg_root :: node
  pg_comments :: "comment_span list"

section \<open>Source types\<close>

text \<open>\<open>SourceType\<close>: what an extension stands for, and whether the file is a declaration file.\<close>

datatype source_type = SourceType (st_extension: string) (st_definition: bool)

text \<open>\<open>is_typescript\<close> of \<open>SourceType::from_extension\<close>\<close>

definition is_typescript :: "string \<Rightarrow> bool" where
  "is_typescript e \<longleftrightarrow> e \<in> {''ts'', ''tsx'', ''mts'', ''cts''}"

definition source_extension :: "lang \<Rightarrow> string option" where
  "source_extension l = (case l of
     Ts \<Rightarrow> Some ''ts'' | Tsx \<Rightarrow> Some ''tsx'' | Mts \<Rightarrow> Some ''mts'' | Cts \<Rightarrow> Some ''cts''
   | Js \<Rightarrow> Some ''js'' | Jsx \<Rightarrow> Some ''jsx'' | Mjs \<Rightarrow> Some ''mjs'' | Cjs \<Rightarrow> Some ''cjs''
   | _ \<Rightarrow> None)"

definition source_type_of :: "lang \<Rightarrow> string \<Rightarrow> source_type option" where
  "source_type_of l rel =
     map_option (\<lambda>e. SourceType e (is_typescript e \<and> is_declaration rel)) (source_extension l)"

lemma source_type_scripts: "source_type_of l rel \<noteq> None \<longleftrightarrow> is_script l"
  by (cases l) (simp_all add: source_type_of_def source_extension_def is_script_def)

section \<open>Text\<close>

definition to_u32 :: "nat \<Rightarrow> u32" where
  "to_u32 n = (if n < 2 ^ 32 then of_nat n else - 1)"

definition node_text :: "string \<Rightarrow> span32 \<Rightarrow> string" where
  "node_text text s = span text (unat (fst s)) (unat (snd s))"

definition is_blank :: "char \<Rightarrow> bool" where
  "is_blank c \<longleftrightarrow> c = CHR '' '' \<or> c = CHR 0x09"

text \<open>\<open>line_start\<close>, as the text before the line and the line up to the position.\<close>

definition line_before :: "string \<Rightarrow> u32 \<Rightarrow> string" where
  "line_before text position = rev (takeWhile (\<lambda>c. c \<noteq> newline) (rev (take (unat position) text)))"

definition line_start_at :: "string \<Rightarrow> u32 \<Rightarrow> u32" where
  "line_start_at text position =
     (case rsplit_once newline (take (unat position) text) of
        None \<Rightarrow> 0
      | Some (before, _) \<Rightarrow> to_u32 (length before + 1))"

definition line_indent :: "string \<Rightarrow> u32 \<Rightarrow> string" where
  "line_indent text position =
     takeWhile is_blank (span text (unat (line_start_at text position)) (unat position))"

text \<open>\<open>char::is_whitespace\<close> of the character a text starts with.\<close>

definition starts_white :: "string \<Rightarrow> bool" where
  "starts_white s \<longleftrightarrow> (\<exists>w \<in> set WHITE_SPACE. prefix w s)"

definition content_indent :: "string \<Rightarrow> string option" where
  "content_indent line =
     (case dropWhile is_blank line of
        [] \<Rightarrow> None
      | c # rest \<Rightarrow> if starts_white (c # rest) \<or> c = CHR ''*'' then None else Some (takeWhile is_blank line))"

definition content_indents :: "string \<Rightarrow> string list" where
  "content_indents text = List.map_filter content_indent (split_on newline text)"

fun shortest :: "string option \<Rightarrow> string list \<Rightarrow> string option" where
  "shortest best [] = best"
| "shortest best (i # is) =
     shortest (case best of Some b \<Rightarrow> if length i < length b then Some i else best | None \<Rightarrow> Some i) is"

definition indent_unit :: "string \<Rightarrow> string" where
  "indent_unit text =
     (case shortest None (content_indents text) of
        None \<Rightarrow> [CHR 0x09]
      | Some base \<Rightarrow>
          (case find (\<lambda>i. length i > length base) (content_indents text) of
             None \<Rightarrow> [CHR 0x09]
           | Some i \<Rightarrow> drop (length base) i))"

text \<open>\<open>partition_point\<close> on comments in the order of their start.\<close>

definition has_comment_between :: "comment_span list \<Rightarrow> u32 \<Rightarrow> u32 \<Rightarrow> bool" where
  "has_comment_between cs from till =
     (case dropWhile (\<lambda>c. fst (cs_span c) < from) cs of
        [] \<Rightarrow> False
      | c # _ \<Rightarrow> snd (cs_span c) \<le> till)"

definition contains_comment_opener :: "string \<Rightarrow> bool" where
  "contains_comment_opener text \<longleftrightarrow> contains_sub ''//'' text \<or> contains_sub ''/*'' text"

definition call_parens :: "string \<Rightarrow> node \<Rightarrow> u32 \<Rightarrow> (u32 \<times> u32) option" where
  "call_parens text call callee_end =
     (let types_end = (case the_field TypeArguments call of None \<Rightarrow> 0 | Some a \<Rightarrow> nd_end a);
          from = unat (max callee_end types_end)
      in case str_slice text from (length text) of
           None \<Rightarrow> None
         | Some rest \<Rightarrow>
             (case find_sub ''('' rest of
                None \<Rightarrow> None
              | Some i \<Rightarrow>
                  if nd_end call = 0 then None
                  else
                    let opened = to_u32 (from + i); closed = nd_end call - 1
                    in if opened < nd_end call \<and> unat closed < length text \<and> text ! unat closed = CHR '')''
                       then Some (opened, closed) else None))"

section \<open>Expressions through their wrappers\<close>

datatype chained = CalledNode node | MemberNode node | NonNullNode node | OtherNode node

definition is_member :: "node \<Rightarrow> bool" where
  "is_member n \<longleftrightarrow> nd_kind n \<in>
     {Expr StaticMemberExpression, Expr ComputedMemberExpression, Expr PrivateFieldExpression}"

definition chained_of :: "node \<Rightarrow> chained" where
  "chained_of e =
     (if nd_kind e = Expr CallExpression then CalledNode e
      else if nd_kind e = Expr ChainExpression then
        (case the_field ExpressionField e of
           None \<Rightarrow> OtherNode e
         | Some i \<Rightarrow>
             if nd_kind i = Expr CallExpression then CalledNode i
             else if nd_kind i = Tst TSNonNullExpression then NonNullNode i
             else if is_member i then MemberNode i else OtherNode e)
      else if is_member e then MemberNode e else OtherNode e)"

fun chained_node :: "chained \<Rightarrow> node" where
  "chained_node (CalledNode n) = n"
| "chained_node (MemberNode n) = n"
| "chained_node (NonNullNode n) = n"
| "chained_node (OtherNode n) = n"

definition chained_span :: "chained \<Rightarrow> span32" where
  "chained_span c = nd_span (chained_node c)"

definition is_wrapper :: "node \<Rightarrow> bool" where
  "is_wrapper n \<longleftrightarrow> nd_kind n \<in>
     {Expr ParenthesizedExpression, Tst TSAsExpression, Tst TSSatisfiesExpression, Tst TSNonNullExpression,
      Tst TSTypeAssertion}"

lemma chained_of_size: "size (chained_node (chained_of e)) \<le> size e"
  by (auto simp: chained_of_def dest: the_field_size split: option.split)

text \<open>What a wrapper holds is looked at in turn; a node without the field ends the search.\<close>

function unwrap_chained :: "chained \<Rightarrow> chained" where
  "unwrap_chained c =
     (case c of
        NonNullNode n \<Rightarrow> (case the_field ExpressionField n of None \<Rightarrow> c | Some e \<Rightarrow> unwrap_chained (chained_of e))
      | OtherNode n \<Rightarrow>
          if is_wrapper n
          then (case the_field ExpressionField n of None \<Rightarrow> c | Some e \<Rightarrow> unwrap_chained (chained_of e))
          else c
      | _ \<Rightarrow> c)"
  by pat_completeness auto
termination
  by (relation "measure (\<lambda>c. size (chained_node c))")
    (auto dest!: the_field_size intro: le_less_trans [OF chained_of_size])

declare unwrap_chained.simps [simp del]

definition unwrap_expression :: "node \<Rightarrow> chained" where
  "unwrap_expression e = unwrap_chained (chained_of e)"

text \<open>The identifier of a node that has one.\<close>

definition node_name :: "node \<Rightarrow> string option" where
  "node_name n = (case nd_kind n of Name _ s \<Rightarrow> Some s | _ \<Rightarrow> None)"

definition is_identifier :: "node \<Rightarrow> string \<Rightarrow> bool" where
  "is_identifier n s \<longleftrightarrow> nd_kind n = Name IdentifierReference s"

definition static_property_name :: "node \<Rightarrow> string option" where
  "static_property_name member =
     (if nd_kind member = Expr StaticMemberExpression
      then Option.bind (the_field Property member) node_name else None)"

definition property_span :: "node \<Rightarrow> span32" where
  "property_span member = (case the_field Property member of None \<Rightarrow> nd_span member | Some p \<Rightarrow> nd_span p)"

section \<open>Facts\<close>

lemma to_u32_small: "n < 2 ^ 32 \<Longrightarrow> unat (to_u32 n) = n"
  by (simp add: to_u32_def unat_of_nat)

lemma rev_takeWhile_rsplit:
  "rsplit_once c s = Some (a, b) \<Longrightarrow> rev (takeWhile (\<lambda>x. x \<noteq> c) (rev s)) = b"
proof -
  assume "rsplit_once c s = Some (a, b)"
  then have s: "s = a @ c # b" "c \<notin> set b" by (simp_all add: rsplit_once_Some)
  then have "takeWhile (\<lambda>x. x \<noteq> c) (rev b @ c # rev a) = rev b" by (subst takeWhile_append2) auto
  with s show ?thesis by simp
qed

lemma line_start_before:
  assumes "unat position \<le> length text"
  shows "unat (line_start_at text position) = unat position - length (line_before text position)"
proof (cases "rsplit_once newline (take (unat position) text)")
  case None
  then have "newline \<notin> set (take (unat position) text)" by (simp add: rsplit_once_None)
  then have "line_before text position = take (unat position) text"
    unfolding line_before_def by (subst takeWhile_eq_all_conv [THEN iffD2]) auto
  with None assms show ?thesis by (simp add: line_start_at_def)
next
  case (Some r)
  obtain a b where r: "r = (a, b)" by fastforce
  with Some have s: "take (unat position) text = a @ newline # b" by (simp add: rsplit_once_Some)
  have l: "length (a @ newline # b) = unat position" unfolding s [symmetric] using assms by simp
  moreover have "unat position < 2 ^ 32" by (rule order_less_le_trans [OF unsigned_less]) simp
  ultimately have "length a + 1 < 2 ^ 32" by simp
  with Some r l show ?thesis
    by (simp add: line_start_at_def line_before_def rev_takeWhile_rsplit [OF Some [unfolded r]] to_u32_small)
qed

lemma line_indent_before:
  assumes "unat position \<le> length text"
  shows "line_indent text position = takeWhile is_blank (line_before text position)"
proof -
  have "suffix (line_before text position) (take (unat position) text)"
    unfolding line_before_def by (metis rev_rev_ident suffix_to_prefix takeWhile_is_prefix)
  then obtain a where a: "take (unat position) text = a @ line_before text position" by (auto elim: suffixE)
  moreover have "length (take (unat position) text) = unat position" using assms by simp
  ultimately have "unat position = length a + length (line_before text position)" by (metis length_append)
  then have "span text (unat (line_start_at text position)) (unat position) = line_before text position"
    using a [THEN arg_cong [where f = "drop (length a)"]]
    by (simp add: span_def line_start_before [OF assms] drop_take)
  then show ?thesis by (simp add: line_indent_def)
qed

lemma set_line_indent: "set (line_indent text position) \<subseteq> {CHR '' '', CHR 0x09}"
  by (auto simp: line_indent_def is_blank_def dest: set_takeWhileD)

lemma content_indent_Some: "content_indent line = Some i \<Longrightarrow> i = takeWhile is_blank line"
  by (cases "dropWhile is_blank line") (simp_all add: content_indent_def split: if_splits)

lemma set_blanks: "set (takeWhile is_blank line) \<subseteq> {CHR '' '', CHR 0x09}"
  by (auto simp: is_blank_def dest: set_takeWhileD)

lemma content_indents_blank: "i \<in> set (content_indents text) \<Longrightarrow> set i \<subseteq> {CHR '' '', CHR 0x09}"
  using set_blanks by (fastforce simp: content_indents_def map_filter_def dest: content_indent_Some)

lemma set_indent_unit: "set (indent_unit text) \<subseteq> {CHR '' '', CHR 0x09}"
proof (cases "shortest None (content_indents text)")
  case (Some base)
  show ?thesis
  proof (cases "find (\<lambda>i. length i > length base) (content_indents text)")
    case (Some i)
    then have "i \<in> set (content_indents text)" by (rule find_mem [THEN conjunct1])
    then have "set (drop n i) \<subseteq> {CHR '' '', CHR 0x09}" for n
      by (rule order_trans [OF set_drop_subset content_indents_blank])
    with Some \<open>shortest None _ = _\<close> show ?thesis by (simp add: indent_unit_def)
  qed (use Some in \<open>simp add: indent_unit_def\<close>)
qed (simp add: indent_unit_def)

lemma indent_unit_not_Nil: "indent_unit text \<noteq> []"
proof (cases "shortest None (content_indents text)")
  case (Some base)
  show ?thesis
  proof (cases "find (\<lambda>i. length i > length base) (content_indents text)")
    case (Some i)
    then have "length i > length base" by (rule find_mem [THEN conjunct2])
    with Some \<open>shortest None _ = _\<close> show ?thesis by (simp add: indent_unit_def)
  qed (use Some in \<open>simp add: indent_unit_def\<close>)
qed (simp add: indent_unit_def)

end
