(* ===== verification/Fingerprint.thy ===== *)
theory Fingerprint imports
  TsSyntax
  JsText
  "HOL-Library.Monad_Syntax"
begin

unbundle bit_operations_syntax

text \<open>
  \<^verbatim>\<open>crates/ts/src/fingerprint.rs\<close>: the structural hash that every step of the pipeline must preserve. The
  hash (\<open>FxHasher\<close>), the numbers oxc gives types and enumerations, and \<open>get_inner_expression\<close> are third-party
  code and arguments. A panic (\<open>expect\<close>, a slice out of range) is \<open>None\<close>.
\<close>

section \<open>What is hashed\<close>

datatype hash_write = WriteU8 u8 | WriteU64 u64 | WriteUsize nat | WriteBytes string

record oxc =
  ox_hash :: "hash_write list \<Rightarrow> u64"
  ox_type :: "kind \<Rightarrow> u8"
  ox_var :: "var_kind \<Rightarrow> u8"
  ox_property :: "property_kind \<Rightarrow> u8"
  ox_method :: "method_kind \<Rightarrow> u8"
  ox_inner :: "node \<Rightarrow> node"

definition NAME :: u64 where "NAME = 0x100"
definition BLOCK :: u64 where "BLOCK = 0x101"
definition WORD :: u64 where "WORD = 0x102"

definition OTHER :: u8 where "OTHER = 0"
definition IMPORT :: u8 where "IMPORT = 1"
definition CONSTS :: u8 where "CONSTS = 2"

datatype list_mode = Ordered | ListMode | MembersMode | Transparent | Skipped

definition hash_str :: "oxc \<Rightarrow> u64 \<Rightarrow> string \<Rightarrow> u64" where
  "hash_str ox tag text = ox_hash ox [WriteU64 tag, WriteBytes text]"

definition word_writes :: "string \<Rightarrow> hash_write list" where
  "word_writes text = concat (map (\<lambda>w. [WriteBytes w, WriteU8 0]) (split_whitespace text))"

definition hash_words :: "oxc \<Rightarrow> string \<Rightarrow> u64" where
  "hash_words ox text = ox_hash ox (word_writes text)"

text \<open>Sort each maximal run of imports and of consts by hash.\<close>

function sort_runs :: "('a \<Rightarrow> u64) \<Rightarrow> (u8 \<times> 'a) list \<Rightarrow> (u8 \<times> 'a) list" where
  "sort_runs h [] = []"
| "sort_runs h (c # cs) =
     (let same = takeWhile (\<lambda>d. fst d = fst c) (c # cs);
          rest = dropWhile (\<lambda>d. fst d = fst c) (c # cs)
      in (if fst c \<noteq> OTHER then sort_key (\<lambda>d. h (snd d)) same else same) @ sort_runs h rest)"
  by pat_completeness auto
termination
  by (relation "measure (\<lambda>(h, cs). length cs)") (auto simp: le_imp_less_Suc length_dropWhile_le)

definition sort_members :: "(u8 \<times> 'a) list \<Rightarrow> (u8 \<times> 'a) list" where
  "sort_members cs = sort_key (\<lambda>d. fst d) cs"

definition arrange :: "('a \<Rightarrow> u64) \<Rightarrow> list_mode \<Rightarrow> nat \<Rightarrow> (u8 \<times> 'a) list \<Rightarrow> (u8 \<times> 'a) list" where
  "arrange h m prefix_length cs =
     (let p = min prefix_length (length cs) in
      case m of
        ListMode \<Rightarrow> take p cs @ sort_runs h (drop p cs)
      | MembersMode \<Rightarrow> sort_members cs
      | _ \<Rightarrow> cs)"

section \<open>What is read of a node\<close>

definition node_tag :: "oxc \<Rightarrow> kind \<Rightarrow> u64" where
  "node_tag ox k =
     (case k of
        Literal (StringLiteral _) \<Rightarrow> NAME
      | Name IdentifierName _ \<Rightarrow> NAME
      | Stmt BlockStatement \<Rightarrow> BLOCK
      | _ \<Rightarrow> ucast (ox_type ox k))"

definition node_mode :: "node \<Rightarrow> bool \<Rightarrow> list_mode" where
  "node_mode n in_attribute =
     (case nd_kind n of
        Expr ParenthesizedExpression \<Rightarrow> Transparent
      | Tst TSParenthesizedType \<Rightarrow> Transparent
      | Stmt EmptyStatement \<Rightarrow> Transparent
      | Literal (JSXText _) \<Rightarrow> Transparent
      | Tst TSUnionType \<Rightarrow> if length (in_field Types n) = 1 then Transparent else Ordered
      | Tst TSIntersectionType \<Rightarrow> if length (in_field Types n) = 1 then Transparent else Ordered
      | Expr JSXExpressionContainer \<Rightarrow>
          (case the_field ExpressionField n of
             Some e \<Rightarrow>
               (case nd_kind e of
                  Literal (StringLiteral v) \<Rightarrow> if \<not> in_attribute \<and> trim_ws v = [] then Skipped else Transparent
                | _ \<Rightarrow> Ordered)
           | None \<Rightarrow> Ordered)
      | Stmt t \<Rightarrow>
          if t \<in> {Program, BlockStatement, FunctionBody, StaticBlock, SwitchCase} then ListMode
          else if t = ClassBody then MembersMode else Ordered
      | _ \<Rightarrow> Ordered)"

definition node_class :: "kind \<Rightarrow> u8" where
  "node_class k =
     (if k = Stmt ImportDeclaration then IMPORT
      else if k = VariableDeclaration Const then CONSTS
      else OTHER)"

text \<open>\<open>classify_kind\<close> of \<^verbatim>\<open>crates/ts/src/passes/spacing.rs\<close>\<close>

datatype member_kind = PropertyMember | ConstructorMember | MethodMember

definition classify_kind :: "kind \<Rightarrow> member_kind option" where
  "classify_kind k =
     (case k of
        PropertyDefinition _ _ _ \<Rightarrow> Some PropertyMember
      | Tst TSIndexSignature \<Rightarrow> Some PropertyMember
      | Stmt StaticBlock \<Rightarrow> Some PropertyMember
      | AccessorProperty abstract \<Rightarrow> Some (if abstract then MethodMember else PropertyMember)
      | MethodDefinition m _ _ _ \<Rightarrow> Some (if m = ConstructorMethod then ConstructorMember else MethodMember)
      | _ \<Rightarrow> None)"

definition member_class :: "kind \<Rightarrow> u8" where
  "member_class k =
     (case classify_kind k of
        Some PropertyMember \<Rightarrow> 1
      | Some ConstructorMember \<Rightarrow> 2
      | Some MethodMember \<Rightarrow> 3
      | None \<Rightarrow> OTHER)"

definition unblocked :: "node option \<Rightarrow> span32 option" where
  "unblocked s =
     (case s of
        None \<Rightarrow> None
      | Some n \<Rightarrow> if nd_kind n = Stmt BlockStatement then None else Some (nd_span n))"

text \<open>The non-block bodies of a control statement; an \<open>else if\<close> is not one.\<close>

definition node_bodies :: "node \<Rightarrow> span32 option \<times> span32 option" where
  "node_bodies n =
     (case nd_kind n of
        Stmt IfStatement \<Rightarrow>
          (unblocked (the_field Consequent n),
           unblocked (case the_field Alternate n of
             Some a \<Rightarrow> if nd_kind a = Stmt IfStatement then None else Some a
           | None \<Rightarrow> None))
      | Stmt t \<Rightarrow>
          if t \<in> {ForStatement, ForInStatement, WhileStatement, DoWhileStatement, WithStatement}
          then (unblocked (the_field Body n), None) else (None, None)
      | ForOfStatement _ \<Rightarrow> (unblocked (the_field Body n), None)
      | _ \<Rightarrow> (None, None))"

definition node_prefix :: "node \<Rightarrow> nat" where
  "node_prefix n = (if nd_kind n = Stmt SwitchCase \<and> the_field Test n \<noteq> None then 1 else 0)"

text \<open>\<open>str::replace\<close> of a carriage return with and without its line feed.\<close>

fun crlf_to_lf :: "string \<Rightarrow> string" where
  "crlf_to_lf [] = []"
| "crlf_to_lf [c] = [c]"
| "crlf_to_lf (c # d # s) =
     (if c = carriage_return \<and> d = newline then newline # crlf_to_lf s else c # crlf_to_lf (d # s))"

definition line_feeds :: "string \<Rightarrow> string" where
  "line_feeds s = map (\<lambda>c. if c = carriage_return then newline else c) (crlf_to_lf s)"

text \<open>The parts of a node that are not children: names, values, operators, flags.\<close>

fun literal_payload :: "literal \<Rightarrow> hash_write list" where
  "literal_payload (StringLiteral v) = [WriteBytes v]"
| "literal_payload (TemplateElement raw) =
     [WriteBytes (if carriage_return \<in> set raw then line_feeds raw else raw)]"
| "literal_payload (BigIntLiteral v) = [WriteBytes v]"
| "literal_payload (Hashbang v) = [WriteBytes v]"
| "literal_payload (NumericLiteral v) = [WriteU64 v]"
| "literal_payload (BooleanLiteral b) = [WriteU8 (of_bool b)]"
| "literal_payload (RegExpLiteral p f) = [WriteBytes p, WriteU8 f]"
| "literal_payload NullLiteral = []"
| "literal_payload (JSXText _) = []"

fun payload :: "oxc \<Rightarrow> kind \<Rightarrow> hash_write list" where
  "payload ox (Name _ s) = [WriteBytes s]"
| "payload ox (Literal l) = literal_payload l"
| "payload ox (Operation _ code) = [WriteU8 code]"
| "payload ox (UpdateExpression code pre) = [WriteU8 code, WriteU8 (of_bool pre)]"
| "payload ox (VariableDeclaration v) = [WriteU8 (ox_var ox v)]"
| "payload ox (Function _ async generator) = [WriteU8 (of_bool async OR push_bit 1 (of_bool generator))]"
| "payload ox (ArrowFunctionExpression async) = [WriteU8 (of_bool async)]"
| "payload ox (ForOfStatement await) = [WriteU8 (of_bool await)]"
| "payload ox (ObjectProperty k meth shorthand computed) =
     [WriteU8 (ox_property ox k),
      WriteU8 (of_bool meth OR push_bit 1 (of_bool shorthand) OR push_bit 2 (of_bool computed))]"
| "payload ox (MethodDefinition k static computed _) =
     [WriteU8 (ox_method ox k), WriteU8 (of_bool static OR push_bit 1 (of_bool computed))]"
| "payload ox (PropertyDefinition static computed _) =
     [WriteU8 (of_bool static OR push_bit 1 (of_bool computed))]"
| "payload ox _ = []"

section \<open>Templates of another language\<close>

definition EMBEDDED_TAGS :: "string list" where
  "EMBEDDED_TAGS = [''css'', ''styled'', ''gql'', ''graphql'', ''html'', ''md'', ''markdown'']"

text \<open>\<open>get_inner_expression\<close> answers a part of the expression, so what it answers is no larger.\<close>

function tag_name :: "(node \<Rightarrow> node) \<Rightarrow> node \<Rightarrow> string option" where
  "tag_name inner e =
     (let i = inner e in
      if size i \<le> size e then
        (case nd_kind i of
           Name IdentifierReference s \<Rightarrow> Some s
         | Expr StaticMemberExpression \<Rightarrow>
             (case the_field Object i of Some m \<Rightarrow> tag_name inner m | None \<Rightarrow> None)
         | Expr ComputedMemberExpression \<Rightarrow>
             (case the_field Object i of Some m \<Rightarrow> tag_name inner m | None \<Rightarrow> None)
         | Expr CallExpression \<Rightarrow>
             (case the_field Callee i of Some m \<Rightarrow> tag_name inner m | None \<Rightarrow> None)
         | _ \<Rightarrow> None)
      else None)"
  by pat_completeness auto
termination
  by (relation "measure (\<lambda>(inner, e). size e)") (auto dest: the_field_size)

declare tag_name.simps [simp del]

definition is_template :: "node \<Rightarrow> bool" where
  "is_template n \<longleftrightarrow> nd_kind n = Expr TemplateLiteral"

definition template_starts :: "node list \<Rightarrow> u32 list" where
  "template_starts ns = map nd_start (filter is_template ns)"

text \<open>The template in the braces of a JSX child or attribute value.\<close>

definition contained_template :: "node \<Rightarrow> u32 list" where
  "contained_template container =
     (if nd_kind container = Expr JSXExpressionContainer
      then template_starts (option_list (the_field ExpressionField container)) else [])"

definition jsx_named :: "node option \<Rightarrow> string \<Rightarrow> bool" where
  "jsx_named n s = (case n of None \<Rightarrow> False | Some i \<Rightarrow> nd_kind i = Name JSXIdentifier s)"

definition is_style_jsx :: "node \<Rightarrow> bool" where
  "is_style_jsx element =
     (case the_field Opening element of
        None \<Rightarrow> False
      | Some opening \<Rightarrow>
          jsx_named (the_field NameField opening) ''style'' \<and>
          (\<exists>a \<in> set (in_field Attributes opening).
             nd_kind a = Expr JSXAttribute \<and> jsx_named (the_field NameField a) ''jsx''))"

text \<open>\<open>template\<close> and \<open>styles\<close> of an object given to \<open>@Component\<close>.\<close>

definition component_property :: "node \<Rightarrow> u32 list" where
  "component_property p =
     (case nd_kind p of
        ObjectProperty _ _ _ computed \<Rightarrow>
          (case (the_field Key p, the_field Value p) of
             (Some key, Some v) \<Rightarrow>
               if computed \<or> nd_kind key \<notin> {Name IdentifierName ''template'', Name IdentifierName ''styles''} then []
               else if is_template v then [nd_start v]
               else if nd_kind v = Expr ArrayExpression then template_starts (in_field Elements v)
               else []
           | _ \<Rightarrow> [])
      | _ \<Rightarrow> [])"

definition component_templates :: "node \<Rightarrow> u32 list" where
  "component_templates decorator =
     (case the_field ExpressionField decorator of
        None \<Rightarrow> []
      | Some call \<Rightarrow>
          if nd_kind call = Expr CallExpression \<and>
             (case the_field Callee call of Some c \<Rightarrow> is_identifier c ''Component'' | None \<Rightarrow> False)
          then concat (map component_property (concat (map (in_field Properties)
                 (filter (\<lambda>a. nd_kind a = Expr ObjectExpression) (in_field Arguments call)))))
          else [])"

definition mark_embedded :: "oxc \<Rightarrow> node \<Rightarrow> u32 list" where
  "mark_embedded ox n =
     (case nd_kind n of
        Expr TaggedTemplateExpression \<Rightarrow>
          (case (the_field Tag n, the_field Quasi n) of
             (Some t, Some q) \<Rightarrow>
               (case tag_name (ox_inner ox) t of
                  Some name \<Rightarrow> if name \<in> set EMBEDDED_TAGS then [nd_start q] else []
                | None \<Rightarrow> [])
           | _ \<Rightarrow> [])
      | Expr CallExpression \<Rightarrow>
          (case the_field Callee n of
             Some c \<Rightarrow> if is_identifier c ''graphql'' then template_starts (in_field Arguments n) else []
           | None \<Rightarrow> [])
      | Expr JSXAttribute \<Rightarrow>
          if jsx_named (the_field NameField n) ''css''
          then concat (map contained_template (option_list (the_field Value n))) else []
      | Expr JSXElement \<Rightarrow>
          if is_style_jsx n then concat (map contained_template (in_field Children n)) else []
      | Expr Decorator \<Rightarrow> component_templates n
      | _ \<Rightarrow> [])"

definition ascii_whitespace :: "char \<Rightarrow> bool" where
  "ascii_whitespace c \<longleftrightarrow> c \<in> {CHR '' '', CHR 0x09, newline, CHR 0x0C, carriage_return}"

definition has_language_comment :: "string \<Rightarrow> comment_span list \<Rightarrow> u32 \<Rightarrow> bool" where
  "has_language_comment text cs start =
     (case rev (takeWhile (\<lambda>c. snd (cs_span c) \<le> start) cs) of
        [] \<Rightarrow> False
      | c # _ \<Rightarrow>
          cs_block c \<and>
          str_slice text (unat (fst (cs_content c))) (unat (snd (cs_content c))) \<in>
            {Some '' HTML '', Some '' GraphQL ''} \<and>
          (case str_slice text (unat (snd (cs_span c))) (unat start) of
             None \<Rightarrow> False
           | Some gap \<Rightarrow> list_all ascii_whitespace gap))"

section \<open>The walker\<close>

record frame =
  ff_start :: nat
  ff_mode :: list_mode
  ff_class :: u8
  ff_prefix :: nat
  ff_bodies :: "span32 option \<times> span32 option"
  ff_wrapped :: bool
  ff_attribute :: bool
  ff_embedded :: bool
  ff_logical :: "u8 option"

definition root_frame :: frame where
  "root_frame =
     \<lparr>ff_start = 0, ff_mode = Ordered, ff_class = OTHER, ff_prefix = 0, ff_bodies = (None, None), ff_wrapped = False,
      ff_attribute = False, ff_embedded = False, ff_logical = None\<rparr>"

text \<open>The last frame is the first of the list.\<close>

record walker =
  fp_frames :: "frame list"
  fp_stack :: "(u8 \<times> u64) list"
  fp_embedded :: "u32 set"

definition close_frame :: "oxc \<Rightarrow> frame \<Rightarrow> u64 \<Rightarrow> hash_write list \<Rightarrow> walker \<Rightarrow> walker option" where
  "close_frame ox fr tag pl w =
     (if ff_start fr \<le> length (fp_stack w) then
        let children = arrange (\<lambda>h. h) (ff_mode fr) (ff_prefix fr) (drop (ff_start fr) (fp_stack w));
            h = ox_hash ox (WriteU64 tag # pl @ WriteUsize (length children) # map (\<lambda>c. WriteU64 (snd c)) children)
        in Some (w\<lparr>fp_stack := take (ff_start fr) (fp_stack w) @ [(ff_class fr, h)]\<rparr>)
      else None)"

text \<open>The first body with a node's span, and the bodies left.\<close>

fun take_body :: "span32 \<Rightarrow> span32 option \<times> span32 option \<Rightarrow> bool \<times> (span32 option \<times> span32 option)" where
  "take_body s (a, b) =
     (if a = Some s then (True, (None, b)) else if b = Some s then (True, (a, None)) else (False, (a, b)))"

definition node_embedded :: "string \<Rightarrow> comment_span list \<Rightarrow> u32 set \<Rightarrow> node \<Rightarrow> bool" where
  "node_embedded text cs marks n \<longleftrightarrow>
     is_template n \<and> (nd_start n \<in> marks \<or> has_language_comment text cs (nd_start n))"

definition node_logical :: "kind \<Rightarrow> u8 option \<Rightarrow> u8 option" where
  "node_logical k outer =
     (case k of
        Operation LogicalExpression code \<Rightarrow> Some code
      | Expr ParenthesizedExpression \<Rightarrow> outer
      | _ \<Rightarrow> None)"

definition continues_chain :: "kind \<Rightarrow> u8 option \<Rightarrow> bool" where
  "continues_chain k outer =
     (case k of Operation LogicalExpression code \<Rightarrow> outer = Some code | _ \<Rightarrow> False)"

definition class_in :: "list_mode \<Rightarrow> kind \<Rightarrow> u8" where
  "class_in m k = (case m of ListMode \<Rightarrow> node_class k | MembersMode \<Rightarrow> member_class k | _ \<Rightarrow> OTHER)"

definition frame_for :: "string \<Rightarrow> comment_span list \<Rightarrow> u32 set \<Rightarrow> nat \<Rightarrow> frame \<Rightarrow> bool \<Rightarrow> node \<Rightarrow> frame" where
  "frame_for text cs marks start parent wrapped n =
     \<lparr>ff_start = start,
      ff_mode = (if continues_chain (nd_kind n) (ff_logical parent) then Transparent
                 else node_mode n (ff_attribute parent)),
      ff_class = class_in (ff_mode parent) (nd_kind n),
      ff_prefix = node_prefix n,
      ff_bodies = node_bodies n,
      ff_wrapped = wrapped,
      ff_attribute = (nd_kind n = Expr JSXAttribute),
      ff_embedded = node_embedded text cs marks n,
      ff_logical = node_logical (nd_kind n) (ff_logical parent)\<rparr>"

definition jsx_words :: "kind \<Rightarrow> string list" where
  "jsx_words k = (case k of Literal (JSXText t) \<Rightarrow> split_whitespace t | _ \<Rightarrow> [])"

definition block_frame :: "nat \<Rightarrow> frame" where
  "block_frame start = root_frame\<lparr>ff_start := start, ff_mode := ListMode\<rparr>"

definition enter_node :: "oxc \<Rightarrow> string \<Rightarrow> comment_span list \<Rightarrow> node \<Rightarrow> walker \<Rightarrow> walker option" where
  "enter_node ox text cs n w =
     (case fp_frames w of
        [] \<Rightarrow> None
      | parent # frames \<Rightarrow>
          let marks = fp_embedded w \<union> set (mark_embedded ox n);
              (wrapped, bodies) = take_body (nd_span n) (ff_bodies parent);
              frames1 = parent\<lparr>ff_bodies := bodies\<rparr> # frames;
              start = length (fp_stack w);
              frames2 = (if wrapped then block_frame start # frames1 else frames1);
              new = frame_for text cs marks start (hd frames2) wrapped n;
              ws = map (\<lambda>x. (OTHER, hash_str ox WORD x)) (jsx_words (nd_kind n))
          in Some \<lparr>fp_frames = new # frames2, fp_stack = fp_stack w @ ws, fp_embedded = marks\<rparr>)"

definition is_template_element :: "kind \<Rightarrow> bool" where
  "is_template_element k = (case k of Literal (TemplateElement _) \<Rightarrow> True | _ \<Rightarrow> False)"

definition leave_node :: "oxc \<Rightarrow> node \<Rightarrow> walker \<Rightarrow> walker option" where
  "leave_node ox n w =
     (case fp_frames w of
        fr # parent # frames \<Rightarrow>
          let embedded_text = is_template_element (nd_kind n) \<and> ff_embedded parent;
              w1 = w\<lparr>fp_frames := parent # frames\<rparr>
          in do {
            w2 \<leftarrow> (case ff_mode fr of
                Transparent \<Rightarrow> Some w1
              | Skipped \<Rightarrow> Some (w1\<lparr>fp_stack := take (ff_start fr) (fp_stack w1)\<rparr>)
              | _ \<Rightarrow> close_frame ox fr (node_tag ox (nd_kind n))
                       (if embedded_text then [] else payload ox (nd_kind n)) w1);
            if ff_wrapped fr
            then close_frame ox parent BLOCK [] (w2\<lparr>fp_frames := frames\<rparr>)
            else Some w2 }
      | _ \<Rightarrow> None)"

fun visit_node :: "oxc \<Rightarrow> string \<Rightarrow> comment_span list \<Rightarrow> node \<Rightarrow> walker \<Rightarrow> walker option"
and visit_nodes :: "oxc \<Rightarrow> string \<Rightarrow> comment_span list \<Rightarrow> node list \<Rightarrow> walker \<Rightarrow> walker option" where
  "visit_node ox text cs (Node f k s ns) w = do {
     w1 \<leftarrow> enter_node ox text cs (Node f k s ns) w;
     w2 \<leftarrow> visit_nodes ox text cs ns w1;
     leave_node ox (Node f k s ns) w2 }"
| "visit_nodes ox text cs [] w = Some w"
| "visit_nodes ox text cs (n # ns) w = do {
     w1 \<leftarrow> visit_node ox text cs n w;
     visit_nodes ox text cs ns w1 }"

definition comment_hashes :: "oxc \<Rightarrow> string \<Rightarrow> comment_span list \<Rightarrow> u64 list" where
  "comment_hashes ox text cs = sort (map (\<lambda>c. hash_words ox (node_text text (cs_span c))) cs)"

definition fingerprint :: "oxc \<Rightarrow> string \<Rightarrow> program \<Rightarrow> u64 option" where
  "fingerprint ox text p = do {
     w \<leftarrow> visit_node ox text (pg_comments p) (pg_root p)
            \<lparr>fp_frames = [root_frame], fp_stack = [], fp_embedded = {}\<rparr>;
     Some (ox_hash ox (map (\<lambda>c. WriteU64 (snd c)) (fp_stack w) @
       map WriteU64 (comment_hashes ox text (pg_comments p)))) }"

end
