(* ===== verification/Pipeline.thy ===== *)
theory Pipeline imports
  Fingerprint
  Lines
  ScriptLane
begin

text \<open>
  \<^verbatim>\<open>crates/ts/src/pipeline.rs\<close>, \<^verbatim>\<open>lib.rs\<close> and \<^verbatim>\<open>format.rs\<close>: the step loop over one script. The parser, the
  printer (with its embedded-language services) and the limits of its options are third-party code and
  arguments; what the passes propose and how a program is scored are arguments here, defined by the theories
  of the passes and of the scorer. A panic is the \<open>Panicked\<close> of the script lane.
\<close>

section \<open>Steps\<close>

datatype pass =
  BodyWrap | ClassReorder | DeclarationReorder | BlankLine | FluentChain | DrizzleQuery | ExpandedCall

fun pass_name :: "pass \<Rightarrow> string" where
  "pass_name BodyWrap = ''body-wrap''"
| "pass_name ClassReorder = ''class-reorder''"
| "pass_name DeclarationReorder = ''declaration-reorder''"
| "pass_name BlankLine = ''blank-lines''"
| "pass_name FluentChain = ''fluent-chains''"
| "pass_name DrizzleQuery = ''drizzle-queries''"
| "pass_name ExpandedCall = ''expanded-calls''"

datatype step = PassStep pass | FormatStep

fun step_name :: "step \<Rightarrow> string" where
  "step_name (PassStep p) = pass_name p"
| "step_name FormatStep = ''oxfmt''"

record stage =
  sg_step :: step
  sg_budget :: nat

definition STABLE_BUDGET :: nat where "STABLE_BUDGET = 5"

definition stage_once :: "step \<Rightarrow> stage" where
  "stage_once s = \<lparr>sg_step = s, sg_budget = 1\<rparr>"

definition stage_until_stable :: "step \<Rightarrow> stage" where
  "stage_until_stable s = \<lparr>sg_step = s, sg_budget = STABLE_BUDGET\<rparr>"

definition SEGMENT :: "stage list" where
  "SEGMENT =
     [stage_until_stable (PassStep BodyWrap), stage_until_stable (PassStep ClassReorder),
      stage_until_stable (PassStep DeclarationReorder), stage_once (PassStep BlankLine)]"

definition FULL :: "stage list" where
  "FULL =
     SEGMENT @
     [stage_once FormatStep, stage_once (PassStep FluentChain), stage_once (PassStep DrizzleQuery),
      stage_once (PassStep ExpandedCall)] @
     SEGMENT"

definition EXTRA_ROUNDS :: nat where "EXTRA_ROUNDS = 3"

definition IDEMPOTENCY :: string where "IDEMPOTENCY = ''idempotency''"

section \<open>Errors\<close>

datatype ts_error = SyntaxError u32 u32 string | InvariantError string string

fun show_ts_error :: "ts_error \<Rightarrow> string" where
  "show_ts_error (SyntaxError line column message) =
     decimal (unat line) @ '':'' @ decimal (unat column) @ '': '' @ message"
| "show_ts_error (InvariantError s message) = s @ '' produced invalid output: '' @ message"

definition invariant_error :: "step \<Rightarrow> string \<Rightarrow> ts_error" where
  "invariant_error s message = InvariantError (step_name s) message"

text \<open>A parse failure of the input, with a 1-based line and byte column.\<close>

definition syntax_error :: "string \<Rightarrow> u32 \<Rightarrow> string \<Rightarrow> ts_error" where
  "syntax_error text offset message =
     (case line_col (line_index_new text) (min offset (to_u32 (length text))) of
        Some (line, column) \<Rightarrow> SyntaxError line column message
      | None \<Rightarrow> SyntaxError 0 0 message)"

definition show_conflict :: "edit \<Rightarrow> edit \<Rightarrow> string" where
  "show_conflict a b =
     ''overlapping edits ['' @ decimal (unat (e_start a)) @ '', '' @ decimal (unat (e_end a)) @ '') and ['' @
     decimal (unat (e_start b)) @ '', '' @ decimal (unat (e_end b)) @ '')''"

section \<open>The printer\<close>

record js_options =
  jo_tabs :: bool
  jo_indent_width :: u8
  jo_line_width :: "16 word"
  jo_single_quote :: bool
  jo_semicolons :: bool
  jo_trailing_commas :: trailing_comma
  jo_arrow_parens_always :: bool

text \<open>What is third-party code: the defaults of the options, which widths they take, the parser, the printer.\<close>

record ts_library =
  tl_oxc :: oxc
  tl_defaults :: js_options
  tl_indent_ok :: "u8 \<Rightarrow> bool"
  tl_line_ok :: "16 word \<Rightarrow> bool"
  tl_parse :: "source_type \<Rightarrow> string \<Rightarrow> (u32 \<times> string) + program"
  tl_print :: "js_options \<Rightarrow> ts_format \<Rightarrow> source_type \<Rightarrow> string \<Rightarrow> string + string"
  tl_panic :: "string option"

definition js_options_of :: "ts_library \<Rightarrow> ts_format \<Rightarrow> js_options" where
  "js_options_of lib tf =
     (tl_defaults lib)\<lparr>
       jo_tabs := tf_use_tabs tf,
       jo_indent_width := (if tl_indent_ok lib (tf_tab_width tf) then tf_tab_width tf else jo_indent_width (tl_defaults lib)),
       jo_line_width := (if tl_line_ok lib (tf_print_width tf) then tf_print_width tf else jo_line_width (tl_defaults lib)),
       jo_single_quote := tf_single_quote tf,
       jo_semicolons := tf_semi tf,
       jo_trailing_commas := tf_trailing_comma tf,
       jo_arrow_parens_always := (tf_arrow_parens tf = ArrowAlways)\<rparr>"

definition format_text_with :: "ts_library \<Rightarrow> ts_format \<Rightarrow> source_type \<Rightarrow> string \<Rightarrow> string + string" where
  "format_text_with lib tf st text =
     (if trim_ws text = [] then Inr [] else tl_print lib (js_options_of lib tf) tf st text)"

text \<open>The spans of every template element, in source order.\<close>

definition template_elements :: "node \<Rightarrow> span32 list" where
  "template_elements root = map nd_span (filter (\<lambda>n. is_template_element (nd_kind n)) (preorder root))"

text \<open>The text before the elements and theirs, and how far the source is copied; \<open>None\<close> for a slice that panics.\<close>

fun feed_elements :: "string \<Rightarrow> string \<Rightarrow> nat \<Rightarrow> span32 list \<Rightarrow> (string \<times> nat) option" where
  "feed_elements text out copied [] = Some (out, copied)"
| "feed_elements text out copied (s # ss) = do {
     element \<leftarrow> str_slice text (unat (fst s)) (unat (snd s));
     if carriage_return \<notin> set element then feed_elements text out copied ss
     else do {
       before \<leftarrow> str_slice text copied (unat (fst s));
       feed_elements text (out @ before @ line_feeds element) (unat (snd s)) ss } }"

definition template_line_breaks :: "string \<Rightarrow> program \<Rightarrow> string option" where
  "template_line_breaks text p =
     (if carriage_return \<notin> set text then Some text
      else do {
        (out, copied) \<leftarrow> feed_elements text [] 0 (template_elements (pg_root p));
        if copied = 0 then Some text
        else do { rest \<leftarrow> str_slice text copied (length text); Some (out @ rest) } })"

section \<open>One round\<close>

text \<open>The passes' edits before \<open>normalize\<close> (\<open>None\<close> is a panic) and the scores of a program.\<close>

record ts_parts =
  tp_edits :: "pass \<Rightarrow> string \<Rightarrow> program \<Rightarrow> edit list option"
  tp_score :: "string \<Rightarrow> program \<Rightarrow> string \<Rightarrow> complexity_score list"

text \<open>\<open>Pass::edits\<close>\<close>

definition pass_edits :: "ts_parts \<Rightarrow> pass \<Rightarrow> string \<Rightarrow> program \<Rightarrow> bool \<Rightarrow> edit list option" where
  "pass_edits tp p text prog declaration =
     (if declaration \<and> p \<in> {DrizzleQuery, ExpandedCall} then Some []
      else map_option (normalize text) (tp_edits tp p text prog))"

record round =
  re_library :: ts_library
  re_parts :: ts_parts
  re_rel :: string
  re_source_type :: source_type
  re_options :: ts_format
  re_score :: bool
  re_schedule :: "stage list"
  re_declaration :: bool

definition round_new ::
  "ts_library \<Rightarrow> ts_parts \<Rightarrow> string \<Rightarrow> source_type \<Rightarrow> ts_format \<Rightarrow> bool \<Rightarrow> stage list \<Rightarrow> round" where
  "round_new lib tp rel st tf score schedule =
     \<lparr>re_library = lib, re_parts = tp, re_rel = rel, re_source_type = st, re_options = tf, re_score = score,
      re_schedule = (if is_declaration rel then [] else schedule), re_declaration = is_declaration rel\<rparr>"

text \<open>What a step makes of a text: nothing, or a new text.\<close>

definition run_step :: "round \<Rightarrow> string \<Rightarrow> program \<Rightarrow> step \<Rightarrow> (ts_error + string option) attempt" where
  "run_step r text prog s =
     (case s of
        PassStep p \<Rightarrow>
          (case pass_edits (re_parts r) p text prog (re_declaration r) of
             None \<Rightarrow> Panicked (tl_panic (re_library r))
           | Some es \<Rightarrow>
               if es = [] then Returned (Inr None)
               else (case apply_edits es text of
                 Inl (EditConflict a b) \<Rightarrow> Returned (Inl (invariant_error s (show_conflict a b)))
               | Inl SlicePanic \<Rightarrow> Panicked (tl_panic (re_library r))
               | Inr out \<Rightarrow> Returned (Inr (Some out))))
      | FormatStep \<Rightarrow>
          (case template_line_breaks text prog of
             None \<Rightarrow> Panicked (tl_panic (re_library r))
           | Some input \<Rightarrow>
               (case format_text_with (re_library r) (re_options r) (re_source_type r) input of
                  Inl message \<Rightarrow> Returned (Inl (invariant_error s message))
                | Inr out \<Rightarrow> Returned (Inr (Some out)))))"

text \<open>The cursor moves on to the next step that changes the text: the text, the step, and the cursor after it.\<close>

function next_change ::
  "round \<Rightarrow> string \<Rightarrow> program \<Rightarrow> nat \<Rightarrow> nat \<Rightarrow> (ts_error + (string \<times> step \<times> nat \<times> nat) option) attempt" where
  "next_change r text prog i runs =
     (if length (re_schedule r) \<le> i then Returned (Inr None)
      else
        let sg = re_schedule r ! i in
        if sg_budget sg \<le> runs then next_change r text prog (i + 1) 0
        else (case run_step r text prog (sg_step sg) of
          Panicked p \<Rightarrow> Panicked p
        | Returned (Inl e) \<Rightarrow> Returned (Inl e)
        | Returned (Inr None) \<Rightarrow> next_change r text prog (i + 1) 0
        | Returned (Inr (Some out)) \<Rightarrow>
            if out = text then next_change r text prog (i + 1) 0
            else Returned (Inr (Some (out, sg_step sg, i, runs + 1)))))"
  by pat_completeness auto
termination
  by (relation "measure (\<lambda>(r, text, prog, i, runs). length (re_schedule r) - i)") auto

declare next_change.simps [simp del]

text \<open>A step that changes the text uses up a run of its stage.\<close>

lemma next_change_Some:
  assumes "next_change r text prog i runs = Returned (Inr (Some (out, s, j, k)))"
  obtains (here) "i < length (re_schedule r)" "runs < sg_budget (re_schedule r ! i)" "out \<noteq> text"
      "s = sg_step (re_schedule r ! i)" "run_step r text prog s = Returned (Inr (Some out))" "j = i" "k = runs + 1"
    | (later) "i < length (re_schedule r)" "next_change r text prog (i + 1) 0 = Returned (Inr (Some (out, s, j, k)))"
proof -
  let ?s = "sg_step (re_schedule r ! i)"
  note nc = assms [unfolded next_change.simps [of r "text" prog i runs] Let_def]
  show thesis
  proof (cases "length (re_schedule r) \<le> i")
    case False
    then have i: "i < length (re_schedule r)" by simp
    show ?thesis
    proof (cases "sg_budget (re_schedule r ! i) \<le> runs")
      case True
      with nc i show ?thesis by (intro later) simp_all
    next
      case room: False
      show ?thesis
      proof (cases "run_step r text prog ?s")
        case (Returned x)
        show ?thesis
        proof (cases x)
          case x: (Inr y)
          show ?thesis
          proof (cases y)
            case None
            with nc i room Returned x show ?thesis by (intro later) simp_all
          next
            case (Some new)
            show ?thesis
            proof (cases "new = text")
              case True
              with nc i room Returned x Some show ?thesis by (intro later) simp_all
            next
              case False
              with nc i room Returned x Some have "new = out" "s = ?s" "j = i" "k = runs + 1" by auto
              with False i room Returned x Some show ?thesis by (intro here) simp_all
            qed
          qed
        qed (use nc i room Returned in simp)
      qed (use nc i room in simp)
    qed
  qed (use nc in simp)
qed

lemma next_change_advances:
  "next_change r text prog i runs = Returned (Inr (Some (out, s, j, k))) \<Longrightarrow>
     out \<noteq> text \<and> i \<le> j \<and> j < length (re_schedule r) \<and> 0 < k \<and> k \<le> sg_budget (re_schedule r ! j) \<and>
     (j = i \<longrightarrow> k = runs + 1)"
proof (induction "length (re_schedule r) - i" arbitrary: i runs rule: less_induct)
  case less
  from less.prems show ?case
  proof (cases rule: next_change_Some)
    case later
    then have "length (re_schedule r) - (i + 1) < length (re_schedule r) - i" by linarith
    from less.hyps [OF this later(2)] show ?thesis by auto
  qed simp
qed

lemma next_change_decreases:
  assumes "next_change r text prog i runs = Returned (Inr (Some (out, s, j, k)))"
  shows "length (re_schedule r) - j < length (re_schedule r) - i \<or>
     j = i \<and> sg_budget (re_schedule r ! i) - k < sg_budget (re_schedule r ! i) - runs"
  using next_change_advances [OF assms] by (cases "j = i") auto

definition add_applied :: "string \<Rightarrow> string list \<Rightarrow> string list" where
  "add_applied s applied = (if s \<in> set applied then applied else applied @ [s])"

text \<open>
  The loop of \<open>Round::run\<close>: the text, the steps applied so far, the cursor, the prev step, and the input's
  fingerprint once it is known.
\<close>

definition bad_parse :: "string \<Rightarrow> step option \<Rightarrow> u32 \<times> string \<Rightarrow> ts_error" where
  "bad_parse text prev failure =
     (case prev of
        Some s \<Rightarrow> invariant_error s (snd failure)
      | None \<Rightarrow> syntax_error text (fst failure) (snd failure))"

definition NOT_THE_PROGRAM :: string where
  "NOT_THE_PROGRAM = ''the output is not the same program as the input''"

definition other_program :: "u64 option \<Rightarrow> step option \<Rightarrow> u64 \<Rightarrow> ts_error option" where
  "other_program expected prev print =
     (case (expected, prev) of
        (Some input, Some s) \<Rightarrow> if input \<noteq> print then Some (invariant_error s NOT_THE_PROGRAM) else None
      | _ \<Rightarrow> None)"

definition finish_round :: "round \<Rightarrow> string \<Rightarrow> string \<Rightarrow> program \<Rightarrow> string list \<Rightarrow> formatted" where
  "finish_round r source text prog applied =
     (let done = (if text = source then [] else applied) in
      \<lparr>fd_output = text, fd_applied = done,
       fd_complexity = (if re_score r \<and> done = [] then tp_score (re_parts r) (re_rel r) prog text else [])\<rparr>)"

function round_loop ::
  "round \<Rightarrow> string \<Rightarrow> string \<Rightarrow> string list \<Rightarrow> nat \<Rightarrow> nat \<Rightarrow> step option \<Rightarrow> u64 option \<Rightarrow>
    (ts_error + formatted) attempt" where
  "round_loop r source text applied i runs prev expected =
     (case tl_parse (re_library r) (re_source_type r) text of
        Inl failure \<Rightarrow> Returned (Inl (bad_parse text prev failure))
      | Inr prog \<Rightarrow>
          (case fingerprint (tl_oxc (re_library r)) text prog of
             None \<Rightarrow> Panicked (tl_panic (re_library r))
           | Some print \<Rightarrow>
               (case other_program expected prev print of
                  Some e \<Rightarrow> Returned (Inl e)
                | None \<Rightarrow>
                    (case next_change r text prog i runs of
                       Panicked p \<Rightarrow> Panicked p
                     | Returned (Inl e) \<Rightarrow> Returned (Inl e)
                     | Returned (Inr None) \<Rightarrow> Returned (Inr (finish_round r source text prog applied))
                     | Returned (Inr (Some (out, s, j, k))) \<Rightarrow>
                         round_loop r source out (add_applied (step_name s) applied) j k (Some s)
                           (Some (case expected of None \<Rightarrow> print | Some input \<Rightarrow> input))))))"
  by pat_completeness auto
termination
  by (relation "measures
      [\<lambda>(r, source, text, applied, i, runs, prev, expected). length (re_schedule r) - i,
       \<lambda>(r, source, text, applied, i, runs, prev, expected). sg_budget (re_schedule r ! i) - runs]")
    (auto dest!: next_change_decreases)

declare round_loop.simps [simp del]

definition run_round :: "round \<Rightarrow> string \<Rightarrow> (ts_error + formatted) attempt" where
  "run_round r source = round_loop r source source [] 0 0 None None"

section \<open>Rounds\<close>

definition NOT_STABLE :: string where
  "NOT_STABLE = ''the output still changes after '' @ decimal EXTRA_ROUNDS @ '' extra rounds''"

fun more_rounds ::
  "(string \<Rightarrow> (ts_error + formatted) attempt) \<Rightarrow> nat \<Rightarrow> formatted \<Rightarrow> (ts_error + formatted) attempt" where
  "more_rounds round 0 formatted = Returned (Inl (InvariantError IDEMPOTENCY NOT_STABLE))"
| "more_rounds round (Suc n) formatted =
     (case round (fd_output formatted) of
        Panicked p \<Rightarrow> Panicked p
      | Returned (Inl e) \<Rightarrow> Returned (Inl e)
      | Returned (Inr f) \<Rightarrow>
          if fd_applied f = [] then Returned (Inr (f\<lparr>fd_applied := fd_applied formatted\<rparr>))
          else more_rounds round n
                 (formatted\<lparr>fd_applied := fold add_applied (fd_applied f) (fd_applied formatted),
                   fd_output := fd_output f\<rparr>))"

definition fixed_point ::
  "string \<Rightarrow> (string \<Rightarrow> (ts_error + formatted) attempt) \<Rightarrow> (ts_error + formatted) attempt" where
  "fixed_point source round =
     (case round source of
        Panicked p \<Rightarrow> Panicked p
      | Returned (Inl e) \<Rightarrow> Returned (Inl e)
      | Returned (Inr f) \<Rightarrow>
          if fd_applied f = [] then Returned (Inr f) else more_rounds round EXTRA_ROUNDS f)"

definition pipeline_run ::
  "ts_library \<Rightarrow> ts_parts \<Rightarrow> string \<Rightarrow> source_type \<Rightarrow> string \<Rightarrow> ts_format \<Rightarrow> bool \<Rightarrow> stage list \<Rightarrow>
    (ts_error + formatted) attempt" where
  "pipeline_run lib tp rel st source tf score schedule =
     fixed_point source (run_round (round_new lib tp rel st tf score schedule))"

section \<open>The lane's entry points\<close>

definition lang_name :: "lang \<Rightarrow> string" where
  "lang_name l = (case l of
     Go \<Rightarrow> ''Go'' | Ts \<Rightarrow> ''Ts'' | Tsx \<Rightarrow> ''Tsx'' | Mts \<Rightarrow> ''Mts'' | Cts \<Rightarrow> ''Cts'' | Js \<Rightarrow> ''Js'' | Jsx \<Rightarrow> ''Jsx''
   | Mjs \<Rightarrow> ''Mjs'' | Cjs \<Rightarrow> ''Cjs'' | Vue \<Rightarrow> ''Vue'' | Html \<Rightarrow> ''Html'' | Markdown \<Rightarrow> ''Markdown'')"

definition require_source_type :: "lang \<Rightarrow> string \<Rightarrow> ts_error + source_type" where
  "require_source_type l rel =
     (case source_type_of l rel of
        Some st \<Rightarrow> Inr st
      | None \<Rightarrow> Inl (InvariantError ''parse'' (lang_name l @ '' is not a script language'')))"

definition format_source ::
  "ts_library \<Rightarrow> ts_parts \<Rightarrow> string \<Rightarrow> lang \<Rightarrow> string \<Rightarrow> ts_format \<Rightarrow> bool \<Rightarrow> (ts_error + formatted) attempt" where
  "format_source lib tp rel l source tf score =
     (case require_source_type l rel of
        Inl e \<Rightarrow> Returned (Inl e)
      | Inr st \<Rightarrow> pipeline_run lib tp rel st source tf score FULL)"

definition format_embedded ::
  "ts_library \<Rightarrow> ts_parts \<Rightarrow> lang \<Rightarrow> string \<Rightarrow> ts_format \<Rightarrow> (ts_error + string) attempt" where
  "format_embedded lib tp l source tf =
     (case format_source lib tp [] l source tf False of
        Panicked p \<Rightarrow> Panicked p
      | Returned (Inl e) \<Rightarrow> Returned (Inl e)
      | Returned (Inr f) \<Rightarrow> Returned (Inr (fd_output f)))"

definition with_program ::
  "ts_library \<Rightarrow> string \<Rightarrow> lang \<Rightarrow> string \<Rightarrow> (program \<Rightarrow> 'a) \<Rightarrow> ts_error + 'a" where
  "with_program lib rel l source f =
     (case require_source_type l rel of
        Inl e \<Rightarrow> Inl e
      | Inr st \<Rightarrow>
          (case tl_parse lib st source of
             Inl (offset, message) \<Rightarrow> Inl (syntax_error source offset message)
           | Inr prog \<Rightarrow> Inr (f prog)))"

definition score_source :: "ts_library \<Rightarrow> ts_parts \<Rightarrow> string \<Rightarrow> lang \<Rightarrow> string \<Rightarrow> ts_error + complexity_score list" where
  "score_source lib tp rel l source = with_program lib rel l source (\<lambda>prog. tp_score tp rel prog source)"

definition validate_source :: "ts_library \<Rightarrow> string \<Rightarrow> lang \<Rightarrow> string \<Rightarrow> ts_error + unit" where
  "validate_source lib rel l source = with_program lib rel l source (\<lambda>_. ())"

text \<open>The formatters of the script lane, with this pipeline for scripts.\<close>

definition show_result :: "ts_error + 'a \<Rightarrow> string + 'a" where
  "show_result r = (case r of Inl e \<Rightarrow> Inl (show_ts_error e) | Inr x \<Rightarrow> Inr x)"

definition script_formatters :: "ts_library \<Rightarrow> ts_parts \<Rightarrow> formatters \<Rightarrow> formatters" where
  "script_formatters lib tp fm =
     fm\<lparr>fs_source := (\<lambda>rel l source tf score.
          case format_source lib tp rel l source tf score of
            Panicked p \<Rightarrow> Panicked p
          | Returned x \<Rightarrow> Returned (show_result x)),
        fs_score := (\<lambda>rel l source. Returned (show_result (score_source lib tp rel l source)))\<rparr>"

end
