(* ===== verification/PrintFacts.thy ===== *)
theory PrintFacts imports
  Fingerprint
begin

text \<open>
  What the fingerprint is: the walker of frames and a shared stack computes, without ever panicking, the hash of
  the tree's shape, and two programs without hash collisions have one fingerprint exactly when their shapes and
  the words of their comments agree.
\<close>

section \<open>Shapes\<close>

datatype shape = WordShape string | Shape u64 "hash_write list" "shape list"

fun hash_shape :: "oxc \<Rightarrow> shape \<Rightarrow> u64" where
  "hash_shape ox (WordShape x) = hash_str ox WORD x"
| "hash_shape ox (Shape t p cs) =
     ox_hash ox (WriteU64 t # p @ WriteUsize (length cs) # map (\<lambda>c. WriteU64 (hash_shape ox c)) cs)"

text \<open>The templates the nodes of a tree mark.\<close>

definition all_marks :: "oxc \<Rightarrow> node \<Rightarrow> u32 set" where
  "all_marks ox n = (\<Union>m \<in> set (preorder n). set (mark_embedded ox m))"

definition closed_shape :: "oxc \<Rightarrow> frame \<Rightarrow> u64 \<Rightarrow> hash_write list \<Rightarrow> (u8 \<times> shape) list \<Rightarrow> u8 \<times> shape" where
  "closed_shape ox fr tag pl cs =
     (ff_class fr, Shape tag pl (map snd (arrange (hash_shape ox) (ff_mode fr) (ff_prefix fr) cs)))"

text \<open>What a node adds to its parent's children, given the parent's frame and the templates marked before it.\<close>

fun shapes :: "oxc \<Rightarrow> string \<Rightarrow> comment_span list \<Rightarrow> node \<Rightarrow> frame \<Rightarrow> bool \<Rightarrow> u32 set \<Rightarrow> (u8 \<times> shape) list"
and shapes_in :: "oxc \<Rightarrow> string \<Rightarrow> comment_span list \<Rightarrow> node list \<Rightarrow> frame \<Rightarrow> u32 set \<Rightarrow> (u8 \<times> shape) list" where
  "shapes ox text cs (Node f k s ns) parent wrapped marks =
     (let n = Node f k s ns;
          marks1 = marks \<union> set (mark_embedded ox n);
          around = (if wrapped then block_frame 0 else parent);
          own = frame_for text cs marks1 0 around wrapped n;
          inner = map (\<lambda>x. (OTHER, WordShape x)) (jsx_words k) @ shapes_in ox text cs ns own marks1;
          pl = (if is_template_element k \<and> ff_embedded around then [] else payload ox k);
          result = (case ff_mode own of
              Transparent \<Rightarrow> inner
            | Skipped \<Rightarrow> []
            | _ \<Rightarrow> [closed_shape ox own (node_tag ox k) pl inner])
      in if wrapped then [closed_shape ox (block_frame 0) BLOCK [] result] else result)"
| "shapes_in ox text cs [] parent marks = []"
| "shapes_in ox text cs (n # ns) parent marks =
     (let (wrapped, bodies) = take_body (nd_span n) (ff_bodies parent)
      in shapes ox text cs n parent wrapped marks @
         shapes_in ox text cs ns (parent\<lparr>ff_bodies := bodies\<rparr>) (marks \<union> all_marks ox n))"

lemma all_marks_unfold: "all_marks ox (Node f k s ns) = set (mark_embedded ox (Node f k s ns)) \<union> \<Union> (all_marks ox ` set ns)"
  by (auto simp: all_marks_def)

section \<open>Arranging children\<close>

lemma insort_key_map: "map f (insort_key (\<lambda>x. h (f x)) x xs) = insort_key h (f x) (map f xs)"
  by (induction xs) simp_all

lemma sort_key_map: "sort_key h (map f xs) = map f (sort_key (\<lambda>x. h (f x)) xs)"
  by (induction xs) (simp_all add: insort_key_map)

abbreviation hashed :: "oxc \<Rightarrow> (u8 \<times> shape) list \<Rightarrow> (u8 \<times> u64) list" where
  "hashed ox \<equiv> map (apsnd (hash_shape ox))"

lemma sort_runs_hashed: "sort_runs (\<lambda>h. h) (map (apsnd h) cs) = map (apsnd h) (sort_runs h cs)"
proof (induction h cs rule: sort_runs.induct)
  case (2 h c cs)
  let ?P = "\<lambda>d. fst d = fst c"
  have split: "takeWhile ?P (map (apsnd h) (c # cs)) = map (apsnd h) (takeWhile ?P (c # cs))"
      "dropWhile ?P (map (apsnd h) (c # cs)) = map (apsnd h) (dropWhile ?P (c # cs))"
    by (simp_all add: takeWhile_map dropWhile_map o_def)
  with 2 show ?case
    by (simp add: Let_def sort_key_map o_def del: takeWhile.simps dropWhile.simps)
qed simp

lemma arrange_hashed: "arrange (\<lambda>h. h) m p (map (apsnd h) cs) = map (apsnd h) (arrange h m p cs)"
  by (cases m) (simp_all add: arrange_def Let_def sort_runs_hashed sort_members_def sort_key_map take_map drop_map)

lemma close_frame_shape:
  assumes "length st = ff_start fr" "fp_stack w = st @ hashed ox cs"
  shows "close_frame ox fr tag pl w =
     Some (w\<lparr>fp_stack := st @ hashed ox [closed_shape ox (fr\<lparr>ff_start := a\<rparr>) tag pl cs]\<rparr>)"
  using assms by (simp add: close_frame_def closed_shape_def Let_def arrange_hashed o_def)

section \<open>The walker computes the shape\<close>

lemma frame_for_start [simp]:
  "frame_for text cs marks st (p\<lparr>ff_start := a\<rparr>) wr n = frame_for text cs marks st p wr n"
  "(frame_for text cs marks st p wr n)\<lparr>ff_start := a\<rparr> = frame_for text cs marks a p wr n"
  "frame_for text cs marks st (p\<lparr>ff_bodies := b\<rparr>) wr n = frame_for text cs marks st p wr n"
  "(block_frame a)\<lparr>ff_start := c\<rparr> = block_frame c"
  by (simp_all add: frame_for_def block_frame_def)

lemma frame_for_fields [simp]:
  "ff_start (frame_for text cs marks st p wr n) = st"
  "ff_wrapped (frame_for text cs marks st p wr n) = wr"
  "ff_bodies (frame_for text cs marks st p wr n) = node_bodies n"
  by (simp_all add: frame_for_def)

lemma block_frame_fields [simp]:
  "ff_start (block_frame a) = a" "ff_embedded (block_frame a) = False"
  by (simp_all add: block_frame_def root_frame_def)

lemma start_bodies: "p\<lparr>ff_start := a, ff_bodies := b\<rparr> = p\<lparr>ff_bodies := b, ff_start := a\<rparr>"
  by (cases p) simp

lemma shapes_start:
  "shapes ox text cs n (p\<lparr>ff_start := a\<rparr>) wr marks = shapes ox text cs n p wr marks"
  "shapes_in ox text cs ns (p\<lparr>ff_start := a\<rparr>) marks = shapes_in ox text cs ns p marks"
proof (induction ox "text" cs n p wr marks and ox "text" cs ns p marks rule: shapes_shapes_in.induct)
  case (3 ox src cs n ns p marks)
  then show ?case by (cases "take_body (nd_span n) (ff_bodies p)") (simp add: start_bodies)
qed simp_all

lemma shapes_in_own:
  "shapes_in ox text cs ns (frame_for text cs marks a p wr n) m =
   shapes_in ox text cs ns (frame_for text cs marks 0 p wr n) m"
  using shapes_start(2) [where p = "frame_for text cs marks a p wr n" and a = 0] by simp

lemma frame_for_around:
  "frame_for text cs marks a (block_frame b) wr n = frame_for text cs marks a (block_frame 0) wr n"
  using frame_for_start(1) [where p = "block_frame 0" and a = b and st = a] by simp

lemma closed_shape_start [simp]:
  "closed_shape ox (fr\<lparr>ff_start := a\<rparr>) t q cs = closed_shape ox fr t q cs"
  "closed_shape ox (fr\<lparr>ff_bodies := b\<rparr>) t q cs = closed_shape ox fr t q cs"
  by (simp_all add: closed_shape_def)

lemma walker_updates: "w\<lparr>fp_stack := st, fp_frames := fs\<rparr> = w\<lparr>fp_frames := fs, fp_stack := st\<rparr>"
  by (cases w) simp

text \<open>What entering, visiting the children and leaving come to.\<close>

lemma leave_node_shape:
  assumes "fp_stack w = st @ hashed ox inner"
    and "fp_frames w = own\<lparr>ff_start := length st, ff_bodies := b\<rparr> # (if wr then block_frame (length st) # frames else frames)"
    and "frames \<noteq> []" "ff_wrapped own = wr"
    and "pl = (if is_template_element (nd_kind n) \<and> ff_embedded (if wr then block_frame 0 else hd frames)
               then [] else payload ox (nd_kind n))"
    and "result = (case ff_mode own of Transparent \<Rightarrow> inner | Skipped \<Rightarrow> []
               | _ \<Rightarrow> [closed_shape ox own (node_tag ox (nd_kind n)) pl inner])"
  shows "leave_node ox n w =
     Some (w\<lparr>fp_frames := frames,
       fp_stack := st @ hashed ox (if wr then [closed_shape ox (block_frame 0) BLOCK [] result] else result)\<rparr>)"
proof -
  let ?own = "own\<lparr>ff_start := length st, ff_bodies := b\<rparr>"
  obtain parent rest where fs: "(if wr then block_frame (length st) # frames else frames) = parent # rest"
    using assms(3) by (cases wr; cases frames) auto
  then have emb: "ff_embedded parent = ff_embedded (if wr then block_frame 0 else hd frames)"
    by (auto split: if_splits)
  let ?w1 = "w\<lparr>fp_frames := parent # rest\<rparr>"
  have closed: "(case ff_mode ?own of
       Transparent \<Rightarrow> Some ?w1 | Skipped \<Rightarrow> Some (?w1\<lparr>fp_stack := take (ff_start ?own) (fp_stack ?w1)\<rparr>)
     | _ \<Rightarrow> close_frame ox ?own (node_tag ox (nd_kind n)) pl ?w1) =
     Some (w\<lparr>fp_frames := parent # rest, fp_stack := st @ hashed ox result\<rparr>)"
    using close_frame_shape [of st ?own ?w1 ox inner "node_tag ox (nd_kind n)" pl "length st"] assms(1,6)
    by (cases "ff_mode own") simp_all
  have pl: "pl = (if is_template_element (nd_kind n) \<and> ff_embedded parent then [] else payload ox (nd_kind n))"
    using assms(5) emb by simp
  have "leave_node ox n w = do {
      w2 \<leftarrow> (case ff_mode ?own of
         Transparent \<Rightarrow> Some ?w1 | Skipped \<Rightarrow> Some (?w1\<lparr>fp_stack := take (ff_start ?own) (fp_stack ?w1)\<rparr>)
       | _ \<Rightarrow> close_frame ox ?own (node_tag ox (nd_kind n)) pl ?w1);
      if wr then close_frame ox parent BLOCK [] (w2\<lparr>fp_frames := rest\<rparr>) else Some w2 }"
    unfolding leave_node_def assms(2) fs pl using assms(4) by (simp add: Let_def)
  then have leave: "leave_node ox n w =
     (let w2 = w\<lparr>fp_frames := parent # rest, fp_stack := st @ hashed ox result\<rparr>
      in if wr then close_frame ox parent BLOCK [] (w2\<lparr>fp_frames := rest\<rparr>) else Some w2)"
    unfolding closed by (simp add: Let_def)
  show ?thesis
  proof (cases wr)
    case True
    with fs have pr: "parent = block_frame (length st)" "rest = frames" by simp_all
    from close_frame_shape [of st parent "w\<lparr>fp_frames := frames, fp_stack := st @ hashed ox result\<rparr>" ox result BLOCK "[]" 0]
    have "close_frame ox parent BLOCK [] (w\<lparr>fp_frames := frames, fp_stack := st @ hashed ox result\<rparr>) =
        Some (w\<lparr>fp_frames := frames, fp_stack := st @ hashed ox [closed_shape ox (block_frame 0) BLOCK [] result]\<rparr>)"
      using pr by simp
    with leave pr True show ?thesis by (simp add: Let_def walker_updates)
  next
    case False
    with leave fs show ?thesis by (simp add: Let_def)
  qed
qed

theorem visit_shape:
  "fp_frames w = parent # frames \<Longrightarrow> take_body (nd_span n) (ff_bodies parent) = (wr, bodies) \<Longrightarrow>
     visit_node ox text cs n w =
       Some \<lparr>fp_frames = parent\<lparr>ff_bodies := bodies\<rparr> # frames,
         fp_stack = fp_stack w @ hashed ox (shapes ox text cs n parent wr (fp_embedded w)),
         fp_embedded = fp_embedded w \<union> all_marks ox n\<rparr>"
  "fp_frames w = parent # frames \<Longrightarrow>
     \<exists>bodies. visit_nodes ox text cs ns w =
       Some \<lparr>fp_frames = parent\<lparr>ff_bodies := bodies\<rparr> # frames,
         fp_stack = fp_stack w @ hashed ox (shapes_in ox text cs ns parent (fp_embedded w)),
         fp_embedded = fp_embedded w \<union> \<Union> (all_marks ox ` set ns)\<rparr>"
proof (induction ox "text" cs n w and ox "text" cs ns w arbitrary: parent frames wr bodies and parent frames
    rule: visit_node_visit_nodes.induct)
  case (1 ox src cs f k s ns w)
  let ?n = "Node f k s ns"
  let ?frames1 = "parent\<lparr>ff_bodies := bodies\<rparr> # frames"
  let ?frames2 = "if wr then block_frame (length (fp_stack w)) # ?frames1 else ?frames1"
  let ?around = "if wr then block_frame 0 else parent"
  let ?marks = "fp_embedded w \<union> set (mark_embedded ox ?n)"
  let ?own = "frame_for src cs ?marks 0 ?around wr ?n"
  let ?ws = "map (\<lambda>x. (OTHER, WordShape x)) (jsx_words k)"
  let ?w1 = "\<lparr>fp_frames = ?own\<lparr>ff_start := length (fp_stack w)\<rparr> # ?frames2,
      fp_stack = fp_stack w @ hashed ox ?ws, fp_embedded = ?marks\<rparr>"
  have "frame_for src cs ?marks (length (fp_stack w)) (hd ?frames2) wr ?n = ?own\<lparr>ff_start := length (fp_stack w)\<rparr>"
    by (simp add: frame_for_around [of "src" cs _ _ "length (fp_stack w)"])
  with "1.prems" have enter: "enter_node ox src cs ?n w = Some ?w1"
    by (simp add: enter_node_def Let_def o_def del: take_body.simps)
  let ?inner = "?ws @ shapes_in ox src cs ns ?own ?marks"
  let ?pl = "if is_template_element k \<and> ff_embedded ?around then [] else payload ox k"
  let ?result = "case ff_mode ?own of Transparent \<Rightarrow> ?inner | Skipped \<Rightarrow> []
    | _ \<Rightarrow> [closed_shape ox ?own (node_tag ox k) ?pl ?inner]"
  obtain b where kids: "visit_nodes ox src cs ns ?w1 =
     Some \<lparr>fp_frames = ?own\<lparr>ff_start := length (fp_stack w), ff_bodies := b\<rparr> # ?frames2,
       fp_stack = fp_stack w @ hashed ox ?inner, fp_embedded = ?marks \<union> \<Union> (all_marks ox ` set ns)\<rparr>"
    (is "_ = Some ?w2")
    using 1(1) [OF enter, of "?own\<lparr>ff_start := length (fp_stack w)\<rparr>" "?frames2"] by (auto simp: shapes_in_own [where a = "length (fp_stack w)"])
  have shape: "shapes ox src cs ?n parent wr (fp_embedded w) =
     (if wr then [closed_shape ox (block_frame 0) BLOCK [] ?result] else ?result)"
    by (simp only: shapes.simps Let_def)
  have "leave_node ox ?n ?w2 = Some (?w2\<lparr>fp_frames := ?frames1,
      fp_stack := fp_stack w @ hashed ox (shapes ox src cs ?n parent wr (fp_embedded w))\<rparr>)"
    unfolding shape
  proof (rule leave_node_shape [where w = ?w2 and st = "fp_stack w" and own = ?own and b = b and wr = wr and pl = ?pl
        and inner = ?inner and frames = ?frames1 and n = ?n and result = ?result])
    show "fp_stack ?w2 = fp_stack w @ hashed ox ?inner" by (simp only: walker.simps)
    show "fp_frames ?w2 = ?own\<lparr>ff_start := length (fp_stack w), ff_bodies := b\<rparr> # ?frames2"
      by (simp only: walker.simps)
    show "ff_wrapped ?own = wr" by (simp only: frame_for_fields)
    show "?pl = (if is_template_element (nd_kind ?n) \<and> ff_embedded (if wr then block_frame 0 else hd ?frames1)
        then [] else payload ox (nd_kind ?n))" by (cases wr) simp_all
  qed (simp_all only: node.sel list.distinct not_False_eq_True)
  then show ?case
    unfolding visit_node.simps enter bind.bind_lunit kids by (simp add: all_marks_unfold Un_assoc)
next
  case (2 ox src cs w)
  then show ?case by (intro exI [of _ "ff_bodies parent"]) simp
next
  case (3 ox src cs n ns w)
  obtain wr bodies where tb: "take_body (nd_span n) (ff_bodies parent) = (wr, bodies)"
    by (cases "take_body (nd_span n) (ff_bodies parent)") blast
  from 3(1) [OF 3(3) tb] 3(2) [OF 3(1) [OF 3(3) tb], of "parent\<lparr>ff_bodies := bodies\<rparr>" frames] tb
  show ?case by (auto simp: Un_assoc)
qed

text \<open>The shapes of a program: one, where its root is a program.\<close>

definition program_shape :: "oxc \<Rightarrow> string \<Rightarrow> program \<Rightarrow> shape list" where
  "program_shape ox text p = map snd (shapes ox text (pg_comments p) (pg_root p) root_frame False {})"

theorem fingerprint_hashes_shape:
  "fingerprint ox text p =
     Some (ox_hash ox (map (\<lambda>s. WriteU64 (hash_shape ox s)) (program_shape ox text p) @
       map WriteU64 (comment_hashes ox text (pg_comments p))))"
proof -
  have tb: "take_body (nd_span (pg_root p)) (ff_bodies root_frame) = (False, (None, None))"
    by (simp add: root_frame_def)
  show ?thesis
    unfolding fingerprint_def
    by (subst visit_shape(1) [OF _ tb]) (simp_all add: program_shape_def o_def)
qed

lemma program_shape_one:
  "nd_kind (pg_root p) = Stmt Program \<Longrightarrow> \<exists>s. program_shape ox text p = [s]"
  by (cases "pg_root p")
    (simp add: program_shape_def Let_def frame_for_def continues_chain_def node_mode_def)

section \<open>No collision, no difference missed\<close>

fun writes_of :: "oxc \<Rightarrow> shape \<Rightarrow> hash_write list" where
  "writes_of ox (WordShape x) = [WriteU64 WORD, WriteBytes x]"
| "writes_of ox (Shape t p cs) =
     WriteU64 t # p @ WriteUsize (length cs) # map (\<lambda>c. WriteU64 (hash_shape ox c)) cs"

lemma hash_shape_writes: "hash_shape ox s = ox_hash ox (writes_of ox s)"
  by (cases s) (simp_all add: hash_str_def)

fun shape_inputs :: "oxc \<Rightarrow> shape \<Rightarrow> hash_write list set" where
  "shape_inputs ox (WordShape x) = {writes_of ox (WordShape x)}"
| "shape_inputs ox (Shape t p cs) = insert (writes_of ox (Shape t p cs)) (\<Union> (shape_inputs ox ` set cs))"

lemma writes_in_inputs: "writes_of ox s \<in> shape_inputs ox s"
  by (cases s) simp_all

lemma inj_WriteU64: "inj WriteU64"
  by (simp add: inj_def)

lemma usize_not_in_hashes: "map WriteU64 hs \<noteq> q @ WriteUsize m # r"
  by (metis (no_types, lifting) ex_map_conv hash_write.distinct(7) in_set_conv_decomp)

lemma usize_split:
  "p @ WriteUsize n # map WriteU64 hs = q @ WriteUsize m # map WriteU64 ks \<Longrightarrow> p = q \<and> n = m \<and> hs = ks"
proof (induction p arbitrary: q)
  case Nil
  then show ?case by (cases q) (auto simp: usize_not_in_hashes inj_map_eq_map [OF inj_WriteU64])
next
  case (Cons x p)
  then show ?case
    using usize_not_in_hashes [of ks "p" n "map WriteU64 hs"] by (cases q) auto
qed

lemma writes_of_eq:
  assumes "writes_of ox a = writes_of ox b"
  shows "(\<exists>x. a = WordShape x \<and> b = WordShape x) \<or>
     (\<exists>t p cs ds. a = Shape t p cs \<and> b = Shape t p ds \<and> map (hash_shape ox) cs = map (hash_shape ox) ds)"
proof (cases a)
  case (WordShape x)
  with assms show ?thesis by (cases b) (auto simp: Cons_eq_append_conv)
next
  case a: (Shape t p cs)
  show ?thesis
  proof (cases b)
    case (WordShape y)
    with a assms show ?thesis by (auto simp: append_eq_Cons_conv)
  next
    case (Shape u q ds)
    with a assms have "t = u" "p @ WriteUsize (length cs) # map WriteU64 (map (hash_shape ox) cs) =
        q @ WriteUsize (length ds) # map WriteU64 (map (hash_shape ox) ds)" by (simp_all add: o_def)
    with usize_split [OF this(2)] a Shape show ?thesis by auto
  qed
qed

lemma hash_shape_inj:
  "inj_on (ox_hash ox) (shape_inputs ox a \<union> shape_inputs ox b) \<Longrightarrow> hash_shape ox a = hash_shape ox b \<Longrightarrow> a = b"
proof (induction a arbitrary: b)
  case (WordShape x)
  then have "writes_of ox (WordShape x) = writes_of ox b"
    unfolding hash_shape_writes by (rule inj_onD) (simp_all add: writes_in_inputs)
  then show ?case using writes_of_eq by blast
next
  case (Shape t p cs)
  have "writes_of ox (Shape t p cs) = writes_of ox b"
    using Shape.prems(2) unfolding hash_shape_writes
    by (rule inj_onD [OF Shape.prems(1)]) (simp_all add: writes_in_inputs)
  then obtain ds where b: "b = Shape t p ds" and h: "map (hash_shape ox) cs = map (hash_shape ox) ds"
    using writes_of_eq by blast
  have len: "length cs = length ds" using h map_eq_imp_length_eq by blast
  have "cs ! i = ds ! i" if "i < length cs" for i
  proof (rule Shape.IH)
    show "cs ! i \<in> set cs" using that by simp
    show "inj_on (ox_hash ox) (shape_inputs ox (cs ! i) \<union> shape_inputs ox (ds ! i))"
      by (rule inj_on_subset [OF Shape.prems(1)]) (use that len nth_mem in \<open>fastforce simp: b\<close>)
    show "hash_shape ox (cs ! i) = hash_shape ox (ds ! i)" using h that len by (metis nth_map)
  qed
  with len b show ?case by (simp add: list_eq_iff_nth_eq)
qed

section \<open>Comments\<close>

definition comment_words :: "string \<Rightarrow> program \<Rightarrow> string list list" where
  "comment_words text p = map (\<lambda>c. split_whitespace (node_text text (cs_span c))) (pg_comments p)"

definition words_writes :: "string list \<Rightarrow> hash_write list" where
  "words_writes ws = concat (map (\<lambda>w. [WriteBytes w, WriteU8 0]) ws)"

lemma words_writes_inj: "words_writes vs = words_writes ws \<Longrightarrow> vs = ws"
proof (induction vs arbitrary: ws)
  case Nil
  then show ?case by (cases ws) (simp_all add: words_writes_def)
next
  case (Cons v vs)
  then show ?case by (cases ws) (simp_all add: words_writes_def)
qed

lemma comment_hashes_words:
  "mset (comment_hashes ox text (pg_comments p)) =
     image_mset (\<lambda>ws. ox_hash ox (words_writes ws)) (mset (comment_words text p))"
  by (simp add: comment_hashes_def comment_words_def hash_words_def word_writes_def words_writes_def o_def
      image_mset.compositionality)

lemma sort_eq_iff: "sort xs = sort ys \<longleftrightarrow> mset xs = mset ys"
proof
  assume "mset xs = mset ys"
  then show "sort xs = sort ys" by (intro properties_for_sort) simp_all
qed (metis mset_sort)

lemma image_mset_inj:
  assumes "inj_on f (set_mset A \<union> set_mset B)" "image_mset f A = image_mset f B"
  shows "A = B"
proof -
  let ?g = "inv_into (set_mset A \<union> set_mset B) f"
  have inv: "image_mset ?g (image_mset f M) = M" if "set_mset M \<subseteq> set_mset A \<union> set_mset B" for M
    unfolding image_mset.compositionality o_def
    by (rule multiset.map_ident_strong) (use that assms(1) in \<open>auto intro: inv_into_f_f\<close>)
  have "A = image_mset ?g (image_mset f A)" by (rule inv [symmetric]) simp
  also have "\<dots> = image_mset ?g (image_mset f B)" by (simp only: assms(2))
  also have "\<dots> = B" by (rule inv) simp
  finally show ?thesis .
qed

text \<open>Everything that is hashed for a program.\<close>

definition print_writes :: "oxc \<Rightarrow> string \<Rightarrow> program \<Rightarrow> hash_write list" where
  "print_writes ox text p =
     map (\<lambda>s. WriteU64 (hash_shape ox s)) (program_shape ox text p) @
     map WriteU64 (comment_hashes ox text (pg_comments p))"

definition print_inputs :: "oxc \<Rightarrow> string \<Rightarrow> program \<Rightarrow> hash_write list set" where
  "print_inputs ox text p =
     insert (print_writes ox text p)
       (\<Union> (shape_inputs ox ` set (program_shape ox text p)) \<union> words_writes ` set (comment_words text p))"

text \<open>
  C4: A parsed program has a fingerprint, and two among whose hashed inputs no two collide have the same exactly when their
  shapes are equal and their comments hold the same words, as a multiset.
\<close>

theorem same_fingerprint_iff:
  assumes progs: "nd_kind (pg_root p) = Stmt Program" "nd_kind (pg_root q) = Stmt Program"
    and inj: "inj_on (ox_hash ox) (print_inputs ox s p \<union> print_inputs ox t q)"
  shows "fingerprint ox s p \<noteq> None \<and> (fingerprint ox s p = fingerprint ox t q \<longleftrightarrow>
     program_shape ox s p = program_shape ox t q \<and> mset (comment_words s p) = mset (comment_words t q))"
proof -
  obtain a b where ab: "program_shape ox s p = [a]" "program_shape ox t q = [b]"
    using program_shape_one progs by meson
  let ?cs = "comment_hashes ox s (pg_comments p)" and ?ds = "comment_hashes ox t (pg_comments q)"
  have "fingerprint ox s p = fingerprint ox t q \<longleftrightarrow> print_writes ox s p = print_writes ox t q"
    unfolding fingerprint_hashes_shape print_writes_def [symmetric] option.inject
    by (rule inj_on_eq_iff [OF inj]) (simp_all add: print_inputs_def)
  also have "\<dots> \<longleftrightarrow> hash_shape ox a = hash_shape ox b \<and> ?cs = ?ds"
    by (simp add: print_writes_def ab inj_map_eq_map [OF inj_WriteU64])
  finally have "fingerprint ox s p = fingerprint ox t q \<longleftrightarrow> hash_shape ox a = hash_shape ox b \<and> ?cs = ?ds" .
  moreover have "hash_shape ox a = hash_shape ox b \<longleftrightarrow> a = b"
    using hash_shape_inj [OF inj_on_subset [OF inj], of a b] by (auto simp: print_inputs_def ab)
  moreover have "?cs = ?ds \<longleftrightarrow> mset (comment_words s p) = mset (comment_words t q)"
  proof
    have inj_words: "inj_on (\<lambda>ws. ox_hash ox (words_writes ws)) (set (comment_words s p) \<union> set (comment_words t q))"
    proof (rule inj_onI)
      fix u v
      assume "u \<in> set (comment_words s p) \<union> set (comment_words t q)"
        "v \<in> set (comment_words s p) \<union> set (comment_words t q)"
        "ox_hash ox (words_writes u) = ox_hash ox (words_writes v)"
      then have "words_writes u = words_writes v"
        by (intro inj_onD [OF inj]) (auto simp: print_inputs_def)
      then show "u = v" by (rule words_writes_inj)
    qed
    assume "?cs = ?ds"
    then have "image_mset (\<lambda>ws. ox_hash ox (words_writes ws)) (mset (comment_words s p)) =
        image_mset (\<lambda>ws. ox_hash ox (words_writes ws)) (mset (comment_words t q))"
      unfolding comment_hashes_words [symmetric] by (rule arg_cong)
    with inj_words show "mset (comment_words s p) = mset (comment_words t q)"
      by (intro image_mset_inj [where f = "\<lambda>ws. ox_hash ox (words_writes ws)"]) (simp_all only: set_mset_mset)
  next
    assume "mset (comment_words s p) = mset (comment_words t q)"
    then have "mset ?cs = mset ?ds" by (simp add: comment_hashes_words)
    then show "?cs = ?ds" unfolding comment_hashes_def mset_sort sort_eq_iff .
  qed
  ultimately show ?thesis by (simp add: ab fingerprint_hashes_shape)
qed

section \<open>A sample\<close>

fun sample_code :: "hash_write \<Rightarrow> u64" where
  "sample_code (WriteU8 b) = 4 * ucast b"
| "sample_code (WriteU64 x) = 4 * x + 1"
| "sample_code (WriteUsize n) = 4 * of_nat n + 2"
| "sample_code (WriteBytes s) = 4 * foldl (\<lambda>h c. 256 * h + of_nat (of_char c)) 0 s + 3"

definition sample_oxc :: oxc where
  "sample_oxc =
     \<lparr>ox_hash = foldl (\<lambda>h x. 31 * h + sample_code x) 7,
      ox_type = (\<lambda>k. case k of Stmt Program \<Rightarrow> 1 | Stmt ExpressionStatement \<Rightarrow> 2 | _ \<Rightarrow> 3),
      ox_var = (\<lambda>_. 0), ox_property = (\<lambda>_. 0), ox_method = (\<lambda>_. 0), ox_inner = (\<lambda>n. n)\<rparr>"

text \<open>\<open>a//x y\<close> and \<open>(a)//x  y\<close>\<close>

definition sample_bare :: program where
  "sample_bare =
     \<lparr>pg_root = Node Root (Stmt Program) (0, 6) [Node Body (Stmt ExpressionStatement) (0, 1)
        [Node ExpressionField (Name IdentifierReference ''a'') (0, 1) []]],
      pg_comments = [\<lparr>cs_span = (1, 6), cs_content = (3, 6), cs_block = False\<rparr>]\<rparr>"

definition sample_parens :: program where
  "sample_parens =
     \<lparr>pg_root = Node Root (Stmt Program) (0, 9) [Node Body (Stmt ExpressionStatement) (0, 3)
        [Node ExpressionField (Expr ParenthesizedExpression) (0, 3)
          [Node ExpressionField (Name IdentifierReference ''a'') (1, 2) []]]],
      pg_comments = [\<lparr>cs_span = (3, 9), cs_content = (5, 9), cs_block = False\<rparr>]\<rparr>"

lemma sample_shapes:
  "program_shape sample_oxc ''a//x y'' sample_bare =
     [Shape 1 [] [Shape 2 [] [Shape 3 [WriteBytes ''a''] []]]]"
  "program_shape sample_oxc ''(a)//x  y'' sample_parens =
     [Shape 1 [] [Shape 2 [] [Shape 3 [WriteBytes ''a''] []]]]"
  by code_simp+

lemma sample_words:
  "comment_words ''a//x y'' sample_bare = [[''//x'', ''y'']]"
  "comment_words ''(a)//x  y'' sample_parens = [[''//x'', ''y'']]"
  by code_simp+


text \<open>The inputs of both programs, which the sample's hash keeps apart.\<close>

definition sample_inputs :: "hash_write list list" where
  "sample_inputs =
     (let name = Shape 3 [WriteBytes ''a''] []; statement = Shape 2 [] [name]
      in map (writes_of sample_oxc) [name, statement, Shape 1 [] [statement]] @
         [print_writes sample_oxc ''a//x y'' sample_bare, words_writes [''//x'', ''y'']])"

lemma sample_no_collision: "inj_on (ox_hash sample_oxc) (set sample_inputs)"
proof -
  have "distinct (map (ox_hash sample_oxc) sample_inputs)" by code_simp
  then show ?thesis by (simp only: distinct_map)
qed

theorem same_fingerprint_iff_witness:
  "fingerprint sample_oxc ''a//x y'' sample_bare = fingerprint sample_oxc ''(a)//x  y'' sample_parens"
proof -
  have "print_writes sample_oxc ''(a)//x  y'' sample_parens = print_writes sample_oxc ''a//x y'' sample_bare"
    by code_simp
  then have "print_inputs sample_oxc ''a//x y'' sample_bare \<union> print_inputs sample_oxc ''(a)//x  y'' sample_parens =
      set sample_inputs"
    by (simp add: print_inputs_def sample_shapes sample_words sample_inputs_def insert_commute)
  with sample_no_collision have "inj_on (ox_hash sample_oxc) (print_inputs sample_oxc ''a//x y'' sample_bare \<union>
      print_inputs sample_oxc ''(a)//x  y'' sample_parens)" by simp
  moreover have "nd_kind (pg_root sample_bare) = Stmt Program" "nd_kind (pg_root sample_parens) = Stmt Program"
    by (simp_all add: sample_bare_def sample_parens_def)
  ultimately show ?thesis
    using same_fingerprint_iff [of sample_bare sample_parens sample_oxc "''a//x y''" "''(a)//x  y''"]
    by (simp add: sample_shapes sample_words)
qed

text \<open>What the fingerprint does not see: how chains of one logical operator are grouped.\<close>

section \<open>Chains of one logical operator\<close>

text \<open>The operands of a chain, in order, however it is grouped.\<close>

fun chain_leaves :: "u8 \<Rightarrow> node \<Rightarrow> node list" where
  "chain_leaves code (Node f k s ns) =
     (if k = Operation LogicalExpression code \<or> k = Expr ParenthesizedExpression
      then concat (map (chain_leaves code) ns) else [Node f k s ns])"

definition in_chain :: "u8 \<Rightarrow> frame \<Rightarrow> bool" where
  "in_chain code fr \<longleftrightarrow>
     ff_logical fr = Some code \<and> ff_mode fr \<in> {Ordered, Transparent, Skipped} \<and> \<not> ff_attribute fr \<and>
     \<not> ff_embedded fr \<and> ff_bodies fr = (None, None)"

lemma in_chain_bodies: "in_chain code fr \<Longrightarrow> fr\<lparr>ff_bodies := (None, None)\<rparr> = fr"
  by (cases fr) (simp add: in_chain_def)

lemma in_chain_frame:
  "in_chain code p \<Longrightarrow> in_chain code q \<Longrightarrow> frame_for src cs marks a p wr n = frame_for src cs marks a q wr n"
  by (auto simp: in_chain_def frame_for_def class_in_def split: list_mode.splits)

lemma in_chain_shapes:
  assumes "in_chain code p" "in_chain code q"
  shows "shapes ox src cs n p False marks = shapes ox src cs n q False marks"
proof -
  have emb: "ff_embedded p = ff_embedded q" using assms by (simp add: in_chain_def)
  show ?thesis
    by (cases n) (simp only: shapes.simps Let_def if_False in_chain_frame [OF assms] emb)
qed

lemma shapes_in_chain:
  assumes "in_chain code p"
  shows "shapes_in ox src cs (n # ns) p marks =
     shapes ox src cs n p False marks @ shapes_in ox src cs ns p (marks \<union> all_marks ox n)"
proof -
  have b: "ff_bodies p = (None, None)" using assms by (simp add: in_chain_def)
  show ?thesis unfolding shapes_in.simps b take_body.simps by (simp add: in_chain_bodies [OF assms])
qed

lemma shapes_in_chain_append:
  "in_chain code p \<Longrightarrow> shapes_in ox src cs (ns @ ms) p marks =
     shapes_in ox src cs ns p marks @ shapes_in ox src cs ms p (marks \<union> \<Union> (all_marks ox ` set ns))"
  by (induction ns arbitrary: marks) (simp_all only: append_Cons shapes_in_chain, simp_all add: Un_assoc)

lemma in_chain_shapes_in:
  assumes "in_chain code p" "in_chain code q"
  shows "shapes_in ox src cs ns p marks = shapes_in ox src cs ns q marks"
  by (induction ns arbitrary: marks)
    (simp_all add: shapes_in_chain [OF assms(1)] shapes_in_chain [OF assms(2)] in_chain_shapes [OF assms]
      del: shapes_in.simps(2))

lemma chain_node:
  assumes "k = Operation LogicalExpression code \<or> k = Expr ParenthesizedExpression"
  shows "mark_embedded ox (Node f k s ns) = []" "jsx_words k = []" "node_bodies (Node f k s ns) = (None, None)"
    "\<not> is_template_element k" "\<not> node_embedded src cs marks (Node f k s ns)"
    "node_mode (Node f k s ns) False = (if k = Expr ParenthesizedExpression then Transparent else Ordered)"
  using assms by (auto simp: mark_embedded_def jsx_words_def node_bodies_def is_template_element_def
      node_embedded_def is_template_def node_mode_def)

lemmas logical_node = chain_node [OF disjI1 [OF refl]]

lemma chain_leaves_marks: "\<Union> (all_marks ox ` set (chain_leaves code n)) = all_marks ox n"
proof (induction n)
  case (Node f k s ns)
  show ?case
  proof (cases "k = Operation LogicalExpression code \<or> k = Expr ParenthesizedExpression")
    case True
    with Node show ?thesis by (auto simp: all_marks_unfold chain_node(1))
  qed auto
qed

lemma chain_shapes:
  "in_chain code p \<Longrightarrow> shapes ox src cs n p False marks = shapes_in ox src cs (chain_leaves code n) p marks"
proof (induction n arbitrary: p marks)
  case (Node f k s ns)
  show ?case
  proof (cases "k = Operation LogicalExpression code \<or> k = Expr ParenthesizedExpression")
    case True
    let ?own = "frame_for src cs marks 0 p False (Node f k s ns)"
    have own: "in_chain code ?own" "ff_mode ?own = Transparent"
      using True Node.prems chain_node [OF True]
      by (auto simp: in_chain_def frame_for_def continues_chain_def node_logical_def)
    have "shapes_in ox src cs ms ?own m = shapes_in ox src cs (concat (map (chain_leaves code) ms)) ?own m"
      if "set ms \<subseteq> set ns" for ms m
      using that
    proof (induction ms arbitrary: m)
      case (Cons c ms)
      then have "shapes ox src cs c ?own False m = shapes_in ox src cs (chain_leaves code c) ?own m"
        using Node.IH own(1) by simp
      with Cons show ?case
        using shapes_in_chain [OF own(1)] shapes_in_chain_append [OF own(1)] by (simp add: chain_leaves_marks)
    qed simp
    from this [of ns] True own chain_node [OF True] in_chain_shapes_in [OF own(1) Node.prems]
    show ?thesis by (auto simp: Let_def)
  next
    case False
    then show ?thesis
      by (simp only: chain_leaves.simps if_False shapes_in_chain [OF Node.prems] shapes_in.simps(1) append_Nil2)
  qed
qed

lemma chain_kids:
  assumes "in_chain code fr" "nd_kind c = Operation LogicalExpression code"
  shows "shapes_in ox src cs (nd_children c) fr marks = shapes_in ox src cs (chain_leaves code c) fr marks"
proof -
  have "shapes_in ox src cs ns fr ms = shapes_in ox src cs (concat (map (chain_leaves code) ns)) fr ms" for ns ms
    by (induction ns arbitrary: ms)
      (simp_all add: shapes_in_chain [OF assms(1)] shapes_in_chain_append [OF assms(1)] chain_shapes [OF assms(1)]
        chain_leaves_marks del: shapes_in.simps(2))
  with assms(2) show ?thesis by (cases c) simp
qed

text \<open>
  Two trees, each with its text and comments, that differ in spans and in the grouping of chains. Nodes that
  correspond have the same kind; the fingerprint reads their lists alike, wraps the same of their bodies, and no
  node marks a template of another language by its tag or its place.
\<close>

fun wraps :: "span32 option \<times> span32 option \<Rightarrow> span32 list \<Rightarrow> bool list" where
  "wraps bodies [] = []"
| "wraps bodies (sp # sps) = (let (wrapped, rest) = take_body sp bodies in wrapped # wraps rest sps)"

definition like_node :: "oxc \<Rightarrow> string \<Rightarrow> comment_span list \<Rightarrow> string \<Rightarrow> comment_span list \<Rightarrow> node \<Rightarrow> node \<Rightarrow> bool" where
  "like_node ox s cs t ds n m \<longleftrightarrow>
     nd_kind n = nd_kind m \<and> node_prefix n = node_prefix m \<and>
     node_mode n False = node_mode m False \<and> node_mode n True = node_mode m True \<and>
     node_embedded s cs {} n = node_embedded t ds {} m \<and> mark_embedded ox n = [] \<and> mark_embedded ox m = [] \<and>
     wraps (node_bodies n) (map nd_span (nd_children n)) = wraps (node_bodies m) (map nd_span (nd_children m))"

inductive regrouped ::
  "oxc \<Rightarrow> string \<Rightarrow> comment_span list \<Rightarrow> string \<Rightarrow> comment_span list \<Rightarrow> node \<Rightarrow> node \<Rightarrow> bool" for ox s cs t ds where
  chain: "nd_kind n = Operation LogicalExpression code \<Longrightarrow> nd_kind m = Operation LogicalExpression code \<Longrightarrow>
    list_all2 (regrouped ox s cs t ds) (chain_leaves code n) (chain_leaves code m) \<Longrightarrow> regrouped ox s cs t ds n m"
| same: "like_node ox s cs t ds n m \<Longrightarrow> list_all2 (regrouped ox s cs t ds) (nd_children n) (nd_children m) \<Longrightarrow>
    regrouped ox s cs t ds n m"

definition same_shapes ::
  "oxc \<Rightarrow> string \<Rightarrow> comment_span list \<Rightarrow> string \<Rightarrow> comment_span list \<Rightarrow> node \<Rightarrow> node \<Rightarrow> bool" where
  "same_shapes ox s cs t ds n m \<longleftrightarrow>
     all_marks ox n = {} \<and> all_marks ox m = {} \<and>
     (\<forall>p wrapped. shapes ox s cs n p wrapped {} = shapes ox t ds m p wrapped {})"

lemma shapes_bodies: "shapes ox src cs n (p\<lparr>ff_bodies := b\<rparr>) wrapped marks = shapes ox src cs n p wrapped marks"
proof (cases n)
  case (Node f k sp ns)
  have "ff_embedded (if wrapped then block_frame 0 else p\<lparr>ff_bodies := b\<rparr>) =
      ff_embedded (if wrapped then block_frame 0 else p)" by simp
  moreover have "frame_for src cs m a (if wrapped then block_frame 0 else p\<lparr>ff_bodies := b\<rparr>) w c =
      frame_for src cs m a (if wrapped then block_frame 0 else p) w c" for m a w c by simp
  ultimately show ?thesis unfolding Node by (simp only: shapes.simps Let_def)
qed

lemma same_shapes_in:
  "list_all2 (same_shapes ox s cs t ds) ns ms \<Longrightarrow> wraps b (map nd_span ns) = wraps c (map nd_span ms) \<Longrightarrow>
     shapes_in ox s cs ns (p\<lparr>ff_bodies := b\<rparr>) {} = shapes_in ox t ds ms (p\<lparr>ff_bodies := c\<rparr>) {}"
proof (induction ns ms arbitrary: b c rule: list_all2_induct)
  case (Cons n ns m ms)
  obtain w b' c' where w: "take_body (nd_span n) b = (w, b')" "take_body (nd_span m) c = (w, c')"
    using Cons.prems by (cases "take_body (nd_span n) b"; cases "take_body (nd_span m) c") simp
  with Cons have "shapes_in ox s cs ns (p\<lparr>ff_bodies := b'\<rparr>) {} = shapes_in ox t ds ms (p\<lparr>ff_bodies := c'\<rparr>) {}"
    by simp
  with Cons.hyps(1) w show ?case
    unfolding shapes_in.simps by (simp add: same_shapes_def shapes_bodies del: take_body.simps)
qed simp

lemma chain_same_shapes:
  assumes "nd_kind n = Operation LogicalExpression code" "nd_kind m = Operation LogicalExpression code"
    and leaves: "list_all2 (same_shapes ox s cs t ds) (chain_leaves code n) (chain_leaves code m)"
  shows "same_shapes ox s cs t ds n m"
  unfolding same_shapes_def
proof (intro conjI allI)
  have "\<Union> (all_marks ox ` set (chain_leaves code n)) = {}" "\<Union> (all_marks ox ` set (chain_leaves code m)) = {}"
    using leaves by (auto simp: list_all2_conv_all_nth in_set_conv_nth same_shapes_def)
  then show "all_marks ox n = {}" "all_marks ox m = {}" by (simp_all only: chain_leaves_marks)
  fix p wrapped
  obtain f a ns g b ms where nm: "n = Node f (Operation LogicalExpression code) a ns"
      "m = Node g (Operation LogicalExpression code) b ms"
    using assms(1,2) by (cases n; cases m) auto
  let ?around = "if wrapped then block_frame 0 else p"
  let ?own = "frame_for s cs {} 0 ?around wrapped n"
  have same: "?own = frame_for t ds {} 0 ?around wrapped m" and chain: "in_chain code ?own"
    by (auto simp: nm frame_for_def in_chain_def continues_chain_def node_logical_def node_mode_def
        node_prefix_def logical_node)
  have "wraps (None, None) sps = replicate (length sps) False" for sps by (induction sps) simp_all
  then have "shapes_in ox s cs (chain_leaves code n) ?own {} = shapes_in ox t ds (chain_leaves code m) ?own {}"
    using same_shapes_in [OF leaves, of "(None, None)" "(None, None)" ?own] list_all2_lengthD [OF leaves]
    by (simp add: in_chain_bodies [OF chain])
  then have inner: "shapes_in ox s cs ns ?own {} = shapes_in ox t ds ms ?own {}"
    using chain_kids [OF chain assms(1)] chain_kids [OF chain assms(2)] by (simp add: nm)
  show "shapes ox s cs n p wrapped {} = shapes ox t ds m p wrapped {}"
    using same inner unfolding nm
    by (simp only: shapes.simps Let_def logical_node list.set Un_empty_right if_False simp_thms)
qed

lemma like_same_shapes:
  assumes like: "like_node ox s cs t ds n m" and kids: "list_all2 (same_shapes ox s cs t ds) (nd_children n) (nd_children m)"
  shows "same_shapes ox s cs t ds n m"
  unfolding same_shapes_def
proof (intro conjI allI)
  obtain f k a ns g b ms where nm: "n = Node f k a ns" "m = Node g k b ms"
    using like by (cases n; cases m) (simp add: like_node_def)
  have quiet: "mark_embedded ox n = []" "mark_embedded ox m = []" using like by (simp_all add: like_node_def)
  show "all_marks ox n = {}" "all_marks ox m = {}"
    using kids quiet by (auto simp: nm all_marks_unfold list_all2_conv_all_nth in_set_conv_nth same_shapes_def)
  fix p wrapped
  let ?around = "if wrapped then block_frame 0 else p"
  let ?own = "frame_for s cs {} 0 ?around wrapped n" and ?other = "frame_for t ds {} 0 ?around wrapped m"
  have own: "?other = ?own\<lparr>ff_bodies := node_bodies m\<rparr>"
    using like by (cases "ff_attribute ?around") (simp_all add: frame_for_def like_node_def)
  have keep: "?own\<lparr>ff_bodies := node_bodies n\<rparr> = ?own" by (simp add: frame_for_def)
  have "wraps (node_bodies n) (map nd_span (nd_children n)) = wraps (node_bodies m) (map nd_span (nd_children m))"
    using like by (simp add: like_node_def)
  from same_shapes_in [OF kids this, of ?own]
  have inner: "shapes_in ox s cs (nd_children n) ?own {} = shapes_in ox t ds (nd_children m) ?other {}"
    unfolding keep own .
  have closed: "closed_shape ox ?other tag pl xs = closed_shape ox ?own tag pl xs" "ff_mode ?other = ff_mode ?own" for tag pl xs
    unfolding own by simp_all
  show "shapes ox s cs n p wrapped {} = shapes ox t ds m p wrapped {}"
    using inner closed quiet unfolding nm by (simp only: shapes.simps Let_def list.set Un_empty_right node.sel)
qed

lemma regrouped_shapes: "regrouped ox s cs t ds n m \<Longrightarrow> same_shapes ox s cs t ds n m"
proof (induction rule: regrouped.induct)
  case (chain n code m)
  then show ?case by (intro chain_same_shapes) (auto elim: list_all2_mono)
next
  case (same n m)
  then show ?case by (intro like_same_shapes) (auto elim: list_all2_mono)
qed

text \<open>
  C12: How the chains of one logical operator are grouped, and the parentheses in them, do not show in the
  fingerprint: two programs, each with its own text and spans, whose trees agree up to such grouping anywhere in
  them, and whose comments hold the same words, have the same fingerprint. The programs have no templates marked as
  another language's by a tag or by their place.
\<close>

theorem regrouped_chains_agree:
  assumes "regrouped ox s (pg_comments p) t (pg_comments q) (pg_root p) (pg_root q)"
    and "mset (comment_words s p) = mset (comment_words t q)"
  shows "fingerprint ox s p = fingerprint ox t q \<and> fingerprint ox s p \<noteq> None"
proof -
  have "program_shape ox s p = program_shape ox t q"
    using regrouped_shapes [OF assms(1)] by (simp add: program_shape_def same_shapes_def)
  moreover have "comment_hashes ox s (pg_comments p) = comment_hashes ox t (pg_comments q)"
  proof -
    have "mset (comment_hashes ox s (pg_comments p)) = mset (comment_hashes ox t (pg_comments q))"
      using assms(2) by (simp add: comment_hashes_words)
    then show ?thesis unfolding comment_hashes_def mset_sort sort_eq_iff .
  qed
  ultimately show ?thesis by (simp add: fingerprint_hashes_shape)
qed

text \<open>\<open>a&&(b&&c)\<close> and \<open>a&&b&&c\<close>.\<close>

definition sample_operand :: "string \<Rightarrow> u32 \<Rightarrow> node" where
  "sample_operand x at = Node OtherField (Name IdentifierReference x) (at, at + 1) []"

definition sample_and :: "span32 \<Rightarrow> node \<Rightarrow> node \<Rightarrow> node" where
  "sample_and sp a b = Node OtherField (Operation LogicalExpression 7) sp [a, b]"

definition sample_chain :: "node \<Rightarrow> program" where
  "sample_chain c =
     \<lparr>pg_root = Node Root (Stmt Program) (nd_span c) [Node Body (Stmt ExpressionStatement) (nd_span c) [c]], pg_comments = []\<rparr>"

definition sample_right :: program where
  "sample_right = sample_chain (sample_and (0, 9) (sample_operand ''a'' 0)
     (Node OtherField (Expr ParenthesizedExpression) (3, 9)
       [sample_and (4, 8) (sample_operand ''b'' 4) (sample_operand ''c'' 7)]))"

definition sample_left :: program where
  "sample_left = sample_chain (sample_and (0, 7)
     (sample_and (0, 4) (sample_operand ''a'' 0) (sample_operand ''b'' 3)) (sample_operand ''c'' 6))"

lemma sample_operands:
  "regrouped sample_oxc s [] t [] (Node OtherField (Name IdentifierReference x) a []) (Node OtherField (Name IdentifierReference x) b [])"
  by (rule regrouped.same)
    (simp_all add: like_node_def node_mode_def node_prefix_def node_embedded_def is_template_def mark_embedded_def node_bodies_def)

lemma sample_statements:
  "regrouped sample_oxc s [] t [] c d \<Longrightarrow>
     regrouped sample_oxc s [] t [] (Node Body (Stmt ExpressionStatement) a [c]) (Node Body (Stmt ExpressionStatement) b [d])"
  by (rule regrouped.same)
    (simp_all add: like_node_def node_mode_def node_prefix_def node_embedded_def is_template_def mark_embedded_def node_bodies_def)

theorem regrouped_chains_agree_witness:
  "fingerprint sample_oxc ''a&&(b&&c)'' sample_right = fingerprint sample_oxc ''a&&b&&c'' sample_left"
proof -
  let ?R = "regrouped sample_oxc ''a&&(b&&c)'' [] ''a&&b&&c'' []"
  have chain: "?R (sample_and (0, 9) (sample_operand ''a'' 0)
      (Node OtherField (Expr ParenthesizedExpression) (3, 9)
        [sample_and (4, 8) (sample_operand ''b'' 4) (sample_operand ''c'' 7)]))
      (sample_and (0, 7) (sample_and (0, 4) (sample_operand ''a'' 0) (sample_operand ''b'' 3)) (sample_operand ''c'' 6))"
    by (rule regrouped.chain [where code = 7]) (simp_all add: sample_and_def sample_operand_def sample_operands)
  have "?R (pg_root sample_right) (pg_root sample_left)"
    unfolding sample_right_def sample_left_def sample_chain_def program.simps
    by (rule regrouped.same)
      (simp_all add: like_node_def node_mode_def node_prefix_def node_embedded_def is_template_def
        mark_embedded_def node_bodies_def sample_statements chain)
  moreover have "pg_comments sample_right = []" "pg_comments sample_left = []"
    by (simp_all add: sample_right_def sample_left_def sample_chain_def)
  ultimately show ?thesis
    using regrouped_chains_agree [of sample_oxc "''a&&(b&&c)''" sample_right "''a&&b&&c''" sample_left]
    by (simp add: comment_words_def)
qed

end
