(* ===== verification/PipeFacts.thy ===== *)
theory PipeFacts imports
  Pipeline
  PrintFacts
begin

text \<open>
  What a run of the script pipeline promises: its output parses to the input's program, is a fixed point, and
  a syntax error is reported for an input that does not parse and for nothing else.
\<close>

section \<open>Rounds that settle\<close>

text \<open>
  The contract of a round (\<open>fixed_point\<close>): it reports no steps exactly when its output is its input, and its output
  is in a transitive relation to its input.
\<close>

lemma set_add_applied [simp]: "set (add_applied s xs) = insert s (set xs)"
  by (auto simp: add_applied_def)

lemma set_fold_add [simp]: "set (fold add_applied ss xs) = set ss \<union> set xs"
  by (induction ss arbitrary: xs) auto

locale settling =
  fixes round :: "string \<Rightarrow> (ts_error + formatted) attempt"
    and same :: "string \<Rightarrow> string \<Rightarrow> bool"
  assumes settled: "round s = Returned (Inr f) \<Longrightarrow> fd_applied f = [] \<longleftrightarrow> fd_output f = s"
    and kept: "round s = Returned (Inr f) \<Longrightarrow> same s (fd_output f)"
    and trans: "same s t \<Longrightarrow> same t u \<Longrightarrow> same s u"
begin

lemma more_rounds_result:
  "more_rounds round n g = Returned (Inr f) \<Longrightarrow>
     round (fd_output f) = Returned (Inr (f\<lparr>fd_applied := []\<rparr>)) \<and> set (fd_applied g) \<subseteq> set (fd_applied f) \<and>
     same (fd_output g) (fd_output f)"
proof (induction n arbitrary: g)
  case (Suc n)
  then obtain h where h: "round (fd_output g) = Returned (Inr h)"
    by (auto split: attempt.splits sum.splits)
  show ?case
  proof (cases "fd_applied h = []")
    case True
    with Suc.prems h have f: "f = h\<lparr>fd_applied := fd_applied g\<rparr>" by simp
    moreover have "fd_output h = fd_output g" using settled [OF h] True by simp
    moreover have "h\<lparr>fd_applied := []\<rparr> = h" using True by (cases h) simp
    ultimately show ?thesis using h kept [OF h] by simp
  next
    case False
    let ?g = "g\<lparr>fd_applied := fold add_applied (fd_applied h) (fd_applied g), fd_output := fd_output h\<rparr>"
    from Suc.prems h False have "more_rounds round n ?g = Returned (Inr f)" by simp
    from Suc.IH [OF this] kept [OF h] set_fold_add show ?thesis by (auto dest: trans)
  qed
qed simp

theorem fixed_point_result:
  assumes "fixed_point source round = Returned (Inr f)"
  shows "round (fd_output f) = Returned (Inr (f\<lparr>fd_applied := []\<rparr>))"
    and "fd_applied f = [] \<longleftrightarrow> fd_output f = source"
    and "same source (fd_output f)"
proof -
  obtain g where g: "round source = Returned (Inr g)"
    using assms by (auto simp: fixed_point_def split: attempt.splits sum.splits)
  have "round (fd_output f) = Returned (Inr (f\<lparr>fd_applied := []\<rparr>)) \<and> (fd_applied f = [] \<longleftrightarrow> fd_output f = source) \<and>
      same source (fd_output f)"
  proof (cases "fd_applied g = []")
    case True
    with assms g have "f = g" by (simp add: fixed_point_def)
    moreover have "g\<lparr>fd_applied := []\<rparr> = g" using True by (cases g) simp
    ultimately show ?thesis using g settled [OF g] kept [OF g] True by simp
  next
    case False
    with assms g have "more_rounds round EXTRA_ROUNDS g = Returned (Inr f)" by (simp add: fixed_point_def)
    note more = more_rounds_result [OF this]
    have "fd_applied f \<noteq> []" using more False by auto
    moreover have "fd_output f \<noteq> source"
    proof
      assume "fd_output f = source"
      with more g have "g = f\<lparr>fd_applied := []\<rparr>" by simp
      with False show False by simp
    qed
    ultimately show ?thesis using more kept [OF g] trans by blast
  qed
  then show "round (fd_output f) = Returned (Inr (f\<lparr>fd_applied := []\<rparr>))"
    and "fd_applied f = [] \<longleftrightarrow> fd_output f = source" and "same source (fd_output f)" by auto
qed

corollary fixed_point_again:
  "fixed_point source round = Returned (Inr f) \<Longrightarrow>
     fixed_point (fd_output f) round = Returned (Inr (f\<lparr>fd_applied := []\<rparr>))"
  using fixed_point_result(1) by (simp add: fixed_point_def)

end

section \<open>One round\<close>

text \<open>The fingerprint of the program a text parses to.\<close>

definition text_print :: "ts_library \<Rightarrow> source_type \<Rightarrow> string \<Rightarrow> u64 option" where
  "text_print lib st text =
     (case tl_parse lib st text of Inl _ \<Rightarrow> None | Inr p \<Rightarrow> fingerprint (tl_oxc lib) text p)"

definition same_program :: "ts_library \<Rightarrow> source_type \<Rightarrow> string \<Rightarrow> string \<Rightarrow> bool" where
  "same_program lib st s t \<longleftrightarrow> text_print lib st s \<noteq> None \<and> text_print lib st s = text_print lib st t"

lemma fingerprint_exists: "\<exists>h. fingerprint ox text p = Some h"
  by (simp add: fingerprint_hashes_shape)

text \<open>How an iteration of the loop goes on, or ends.\<close>

lemma round_loop_cases:
  assumes "round_loop r source text applied i runs prev expected = Returned x"
  obtains (unparsed) failure where "tl_parse (re_library r) (re_source_type r) text = Inl failure"
      "x = Inl (bad_parse text prev failure)"
    | (failed) prog e where "tl_parse (re_library r) (re_source_type r) text = Inr prog" "x = Inl e"
      "(\<exists>print. other_program expected prev print = Some e) \<or> next_change r text prog i runs = Returned (Inl e)"
    | (finished) prog print where "tl_parse (re_library r) (re_source_type r) text = Inr prog"
      "fingerprint (tl_oxc (re_library r)) text prog = Some print" "other_program expected prev print = None"
      "next_change r text prog i runs = Returned (Inr None)" "x = Inr (finish_round r source text prog applied)"
    | (changed) prog print out s j k where "tl_parse (re_library r) (re_source_type r) text = Inr prog"
      "fingerprint (tl_oxc (re_library r)) text prog = Some print" "other_program expected prev print = None"
      "next_change r text prog i runs = Returned (Inr (Some (out, s, j, k)))"
      "round_loop r source out (add_applied (step_name s) applied) j k (Some s)
         (Some (case expected of None \<Rightarrow> print | Some input \<Rightarrow> input)) = Returned x"
proof (cases "tl_parse (re_library r) (re_source_type r) text")
  case (Inl failure)
  with assms show ?thesis by (intro unparsed [of failure]) (auto simp: round_loop.simps [of r source "text"])
next
  case (Inr prog)
  obtain print where print: "fingerprint (tl_oxc (re_library r)) text prog = Some print"
    using fingerprint_exists by blast
  note loop = assms [unfolded round_loop.simps [of r source "text"] Inr sum.case print option.case]
  show ?thesis
  proof (cases "other_program expected prev print")
    case (Some e)
    with loop Inr show ?thesis by (intro failed) auto
  next
    case None
    show ?thesis
    proof (cases "next_change r text prog i runs")
      case (Returned y)
      show ?thesis
      proof (cases y)
        case (Inl e)
        with loop None Returned \<open>tl_parse _ _ _ = _\<close> show ?thesis by (intro failed [of prog e]) simp_all
      next
        case y: (Inr z)
        show ?thesis
        proof (cases z)
          case None
          with loop \<open>other_program _ _ _ = _\<close> Returned y Inr print show ?thesis
            by (intro finished [of prog print]) simp_all
        next
          case (Some w)
          obtain out s j k where "w = (out, s, j, k)" by (cases w)
          with loop \<open>other_program _ _ _ = _\<close> Returned y Inr Some print show ?thesis
            by (intro changed [of prog print out s j k]) simp_all
        qed
      qed
    qed (use loop None in simp)
  qed
qed

text \<open>
  What is known while a round runs: either nothing has happened yet, or the text is not the first any more, a step
  is to blame, and the input's fingerprint is known.
\<close>

definition loop_ok :: "round \<Rightarrow> string \<Rightarrow> string \<Rightarrow> string list \<Rightarrow> step option \<Rightarrow> u64 option \<Rightarrow> bool" where
  "loop_ok r source text applied prev expected \<longleftrightarrow>
     (if prev = None then text = source \<and> applied = [] \<and> expected = None
      else applied \<noteq> [] \<and> expected = text_print (re_library r) (re_source_type r) source \<and> expected \<noteq> None)"

lemma add_applied_not_Nil [simp]: "add_applied s xs \<noteq> []"
  by (auto simp: add_applied_def)

lemma loop_ok_start: "loop_ok r source source [] None None"
  by (simp add: loop_ok_def)

lemma loop_ok_change:
  assumes "loop_ok r source text applied prev expected"
    and "tl_parse (re_library r) (re_source_type r) text = Inr prog"
    and "fingerprint (tl_oxc (re_library r)) text prog = Some print"
  shows "loop_ok r source out (add_applied nm applied) (Some s)
     (Some (case expected of None \<Rightarrow> print | Some input \<Rightarrow> input))"
  using assms by (auto simp: loop_ok_def text_print_def split: if_splits option.splits)

theorem round_loop_result:
  "round_loop r source text applied i runs prev expected = Returned (Inr f) \<Longrightarrow>
     loop_ok r source text applied prev expected \<Longrightarrow>
     (fd_applied f = [] \<longleftrightarrow> fd_output f = source) \<and>
     same_program (re_library r) (re_source_type r) source (fd_output f)"
proof (induction r source "text" applied i runs prev expected rule: round_loop.induct)
  case (1 r source src applied i runs prev expected)
  from "1.prems"(1) show ?case
  proof (cases rule: round_loop_cases)
    case (finished prog print)
    then have "text_print (re_library r) (re_source_type r) src = Some print" by (simp add: text_print_def)
    with finished "1.prems"(2) show ?thesis
      by (auto simp: finish_round_def Let_def loop_ok_def same_program_def other_program_def split: if_splits option.splits)
  next
    case (changed prog print out s j k)
    show ?thesis
      by (rule "1.IH" [OF changed(1-4) refl refl refl refl refl changed(5) loop_ok_change [OF "1.prems"(2) changed(1,2)]])
  qed simp_all
qed

interpretation rounds: settling "run_round r" "same_program (re_library r) (re_source_type r)" for r
proof
  show "run_round r s = Returned (Inr f) \<Longrightarrow> (fd_applied f = []) = (fd_output f = s)" for s f
    unfolding run_round_def using round_loop_result [OF _ loop_ok_start] by blast
  show "run_round r s = Returned (Inr f) \<Longrightarrow> same_program (re_library r) (re_source_type r) s (fd_output f)" for s f
    unfolding run_round_def using round_loop_result [OF _ loop_ok_start] by blast
qed (unfold same_program_def, metis)

lemma round_new_fields [simp]:
  "re_library (round_new lib tp rel st tf score schedule) = lib"
  "re_source_type (round_new lib tp rel st tf score schedule) = st"
  "re_rel (round_new lib tp rel st tf score schedule) = rel"
  "re_parts (round_new lib tp rel st tf score schedule) = tp"
  "re_score (round_new lib tp rel st tf score schedule) = score"
  by (simp_all add: round_new_def)

lemma run_step_not_syntax: "run_step r text prog s \<noteq> Returned (Inl (SyntaxError l c m))"
  by (auto simp: run_step_def invariant_error_def
      split: step.splits option.splits sum.splits apply_error.splits)

lemma next_change_Inl:
  "next_change r text prog i runs = Returned (Inl e) \<Longrightarrow> \<exists>s. run_step r text prog s = Returned (Inl e)"
proof (induction "length (re_schedule r) - i" arbitrary: i runs rule: less_induct)
  case less
  let ?s = "sg_step (re_schedule r ! i)"
  note nc = less.prems [unfolded next_change.simps [of r "text" prog i runs] Let_def]
  show ?case
  proof (cases "next_change r text prog (i + 1) 0 = Returned (Inl e) \<and> i < length (re_schedule r)")
    case True
    then have "length (re_schedule r) - (i + 1) < length (re_schedule r) - i" by linarith
    with less.hyps True show ?thesis by blast
  next
    case False
    with nc have "run_step r text prog ?s = Returned (Inl e)"
      by (cases "run_step r text prog ?s"; cases "length (re_schedule r) \<le> i"; cases "sg_budget (re_schedule r ! i) \<le> runs")
        (simp_all split: sum.splits option.splits if_splits)
    then show ?thesis by blast
  qed
qed

lemma round_loop_syntax:
  "round_loop r source text applied i runs prev expected = Returned (Inl (SyntaxError l c m)) \<Longrightarrow>
     prev = None \<and> (\<exists>failure. tl_parse (re_library r) (re_source_type r) text = Inl failure \<and>
       syntax_error text (fst failure) (snd failure) = SyntaxError l c m)"
proof (induction r source "text" applied i runs prev expected rule: round_loop.induct)
  case (1 r source src applied i runs prev expected)
  from "1.prems" show ?case
  proof (cases rule: round_loop_cases)
    case (unparsed failure)
    then show ?thesis by (auto simp: bad_parse_def invariant_error_def split: option.splits)
  next
    case (failed prog e)
    then have "e = SyntaxError l c m" by simp
    moreover have "other_program expected prev print \<noteq> Some (SyntaxError l c m)" for print
      by (auto simp: other_program_def invariant_error_def split: option.splits)
    ultimately show ?thesis using failed next_change_Inl run_step_not_syntax by metis
  next
    case (changed prog print out s j k)
    from "1.IH" [OF changed(1-4) refl refl refl refl refl changed(5)] show ?thesis by simp
  qed simp
qed

lemma more_rounds_syntax:
  "more_rounds round n g = Returned (Inl (SyntaxError l c m)) \<Longrightarrow>
     \<exists>h. round (fd_output h) = Returned (Inl (SyntaxError l c m)) \<and>
       (h = g \<or> (\<exists>s f. round s = Returned (Inr f) \<and> fd_output h = fd_output f))"
proof (induction n arbitrary: g)
  case (Suc n)
  show ?case
  proof (cases "round (fd_output g)")
    case (Returned x)
    show ?thesis
    proof (cases x)
      case (Inr f)
      let ?g = "g\<lparr>fd_applied := fold add_applied (fd_applied f) (fd_applied g), fd_output := fd_output f\<rparr>"
      from Suc.prems Returned Inr have "more_rounds round n ?g = Returned (Inl (SyntaxError l c m))"
        by (simp split: if_splits)
      from Suc.IH [OF this] obtain h where h: "round (fd_output h) = Returned (Inl (SyntaxError l c m))"
          "h = ?g \<or> (\<exists>s f. round s = Returned (Inr f) \<and> fd_output h = fd_output f)" by blast
      moreover have "fd_output ?g = fd_output f" by simp
      ultimately show ?thesis using Returned Inr by metis
    qed (use Suc Returned in auto)
  qed (use Suc in simp)
qed (simp add: IDEMPOTENCY_def)

section \<open>Properties\<close>

lemma format_source_again:
  assumes "format_source lib tp rel l source tf score = Returned (Inr f)"
  shows "format_source lib tp rel l (fd_output f) tf score = Returned (Inr (f\<lparr>fd_applied := []\<rparr>))"
    and "fd_applied f = [] \<longleftrightarrow> fd_output f = source"
  using assms rounds.fixed_point_again rounds.fixed_point_result(2)
  by (auto simp: format_source_def pipeline_run_def split: sum.splits)

text \<open>
  C2: A script's output is a fixed point of the pipeline: run on it, the pipeline returns it unchanged, with the
  same scores, and names no steps; and it names steps exactly when the output is not the input.
\<close>

theorem formatting_is_idempotent:
  assumes "format_source lib tp rel l source tf score = Returned (Inr f)"
  shows "format_source lib tp rel l (fd_output f) tf score = Returned (Inr (f\<lparr>fd_applied := []\<rparr>)) \<and>
     (fd_applied f = [] \<longleftrightarrow> fd_output f = source)"
  using format_source_again [OF assms] by blast

text \<open>
  C1: What the pipeline writes is the input's program: the output of a run that returns one parses, and to a
  program with the fingerprint of the one the input parses to, whatever the passes propose and the printer prints.
\<close>

theorem formatting_keeps_the_program:
  assumes "format_source lib tp rel l source tf score = Returned (Inr f)"
  shows "\<exists>st p q h. source_type_of l rel = Some st \<and> tl_parse lib st source = Inr p \<and>
     tl_parse lib st (fd_output f) = Inr q \<and> fingerprint (tl_oxc lib) source p = Some h \<and>
     fingerprint (tl_oxc lib) (fd_output f) q = Some h"
proof -
  obtain st where st: "source_type_of l rel = Some st"
    and run: "fixed_point source (run_round (round_new lib tp rel st tf score FULL)) = Returned (Inr f)"
    using assms by (auto simp: format_source_def require_source_type_def pipeline_run_def split: sum.splits option.splits)
  from rounds.fixed_point_result(3) [OF run] have "same_program lib st source (fd_output f)" by simp
  then obtain h where "text_print lib st source = Some h" "text_print lib st (fd_output f) = Some h"
    unfolding same_program_def by fastforce
  with st show ?thesis by (auto simp: text_print_def split: sum.splits)
qed

section \<open>Where a round stands\<close>

text \<open>
  The states of the loop of a round on \<open>source\<close>: the text, the cursor, the step that made the text, and the input's
  fingerprint once it is known. The texts the rounds of a run start from are the source and the outputs of the
  rounds that changed theirs.
\<close>

inductive round_at ::
  "round \<Rightarrow> string \<Rightarrow> string \<Rightarrow> nat \<Rightarrow> nat \<Rightarrow> step option \<Rightarrow> u64 option \<Rightarrow> bool" for r source where
  starts: "round_at r source source 0 0 None None"
| changes: "round_at r source text i runs prev expected \<Longrightarrow> tl_parse (re_library r) (re_source_type r) text = Inr prog \<Longrightarrow>
    fingerprint (tl_oxc (re_library r)) text prog = Some print \<Longrightarrow> other_program expected prev print = None \<Longrightarrow>
    next_change r text prog i runs = Returned (Inr (Some (out, s, j, k))) \<Longrightarrow>
    round_at r source out j k (Some s) (Some (case expected of None \<Rightarrow> print | Some input \<Rightarrow> input))"

inductive round_starts :: "(string \<Rightarrow> (ts_error + formatted) attempt) \<Rightarrow> string \<Rightarrow> nat \<Rightarrow> string \<Rightarrow> bool" for run source where
  first: "round_starts run source 0 source"
| again: "round_starts run source n text \<Longrightarrow> run text = Returned (Inr f) \<Longrightarrow> fd_applied f \<noteq> [] \<Longrightarrow>
    round_starts run source (Suc n) (fd_output f)"

lemma round_at_runs:
  "round_at r source text i runs prev expected \<Longrightarrow>
     \<exists>applied. run_round r source = round_loop r source text applied i runs prev expected"
proof (induction rule: round_at.induct)
  case starts
  show ?case by (auto simp: run_round_def)
next
  case (changes t i runs prev expected prog print out s j k)
  then obtain applied where "run_round r source = round_loop r source t applied i runs prev expected" by blast
  with changes(2-5) show ?case by (auto simp: round_loop.simps [of r source t])
qed

lemma round_starts_runs:
  "round_starts run source n text \<Longrightarrow> n \<le> EXTRA_ROUNDS \<Longrightarrow>
     n = 0 \<and> text = source \<or> (\<exists>g. 0 < n \<and> fd_output g = text \<and>
       fixed_point source run = more_rounds run (Suc EXTRA_ROUNDS - n) g)"
proof (induction rule: round_starts.induct)
  case (again n t f)
  show ?case
  proof (cases n)
    case 0
    with again show ?thesis by (auto simp: fixed_point_def)
  next
    case (Suc m)
    with again obtain g where g: "fd_output g = t" "fixed_point source run = more_rounds run (Suc EXTRA_ROUNDS - n) g"
      by auto
    moreover have "Suc EXTRA_ROUNDS - n = Suc (Suc EXTRA_ROUNDS - Suc n)" using again.prems by simp
    ultimately show ?thesis
      using again.hyps(2,3) by (intro disjI2 exI [of _ "g\<lparr>fd_applied := fold add_applied (fd_applied f) (fd_applied g),
        fd_output := fd_output f\<rparr>"]) simp
  qed
qed simp

lemma round_start_error:
  assumes "round_starts run source n text" "n \<le> EXTRA_ROUNDS" "run text = Returned (Inl e)"
  shows "fixed_point source run = Returned (Inl e)"
  using round_starts_runs [OF assms(1,2)]
proof (elim disjE exE conjE)
  fix g
  assume "fd_output g = text" "fixed_point source run = more_rounds run (Suc EXTRA_ROUNDS - n) g"
  moreover have "Suc EXTRA_ROUNDS - n = Suc (EXTRA_ROUNDS - n)" using assms(2) by simp
  ultimately show ?thesis using assms(3) by simp
qed (use assms(3) in \<open>simp add: fixed_point_def\<close>)

lemma broken_text_is_the_steps:
  assumes "round_starts (run_round r) source n start" "n \<le> EXTRA_ROUNDS"
    and "round_at r start text i runs (Some s) expected" "tl_parse (re_library r) (re_source_type r) text = Inl failure"
  shows "fixed_point source (run_round r) = Returned (Inl (InvariantError (step_name s) (snd failure)))"
proof (rule round_start_error [OF assms(1,2)])
  from round_at_runs [OF assms(3)] obtain applied
    where "run_round r start = round_loop r start text applied i runs (Some s) expected" by blast
  with assms(4) show "run_round r start = Returned (Inl (InvariantError (step_name s) (snd failure)))"
    by (simp add: round_loop.simps [of r start "text"] bad_parse_def invariant_error_def)
qed

text \<open>
  C26: A syntax error is reported exactly when the input does not parse, with the parser's message and position.
  And where a step of any of the run's rounds makes a text that does not parse, the run fails with the invariant
  error of that step and the parser's message.
\<close>

theorem syntax_errors_are_the_inputs:
  assumes "source_type_of l rel = Some st"
  shows "(format_source lib tp rel l source tf score = Returned (Inl (SyntaxError line column message)) \<longleftrightarrow>
     (\<exists>failure. tl_parse lib st source = Inl failure \<and>
       syntax_error source (fst failure) (snd failure) = SyntaxError line column message)) \<and>
     (\<forall>r n start text i runs s expected failure. r = round_new lib tp rel st tf score FULL \<and>
       round_starts (run_round r) source n start \<and> n \<le> EXTRA_ROUNDS \<and>
       round_at r start text i runs (Some s) expected \<and> tl_parse lib st text = Inl failure \<longrightarrow>
         format_source lib tp rel l source tf score = Returned (Inl (InvariantError (step_name s) (snd failure))))"
proof -
  let ?r = "round_new lib tp rel st tf score FULL"
  let ?e = "SyntaxError line column message"
  have fs: "format_source lib tp rel l source tf score = fixed_point source (run_round ?r)"
    using assms by (simp add: format_source_def require_source_type_def pipeline_run_def)
  have parses: "\<exists>p. tl_parse lib st (fd_output f) = Inr p" if "run_round ?r s = Returned (Inr f)" for s f
    using rounds.kept [OF that] by (auto simp: same_program_def text_print_def split: sum.splits)
  have first: "run_round ?r s = Returned (Inl ?e) \<longleftrightarrow>
      (\<exists>failure. tl_parse lib st s = Inl failure \<and> syntax_error s (fst failure) (snd failure) = ?e)" for s
  proof
    assume "run_round ?r s = Returned (Inl ?e)"
    from round_loop_syntax [OF this [unfolded run_round_def]]
    show "\<exists>failure. tl_parse lib st s = Inl failure \<and> syntax_error s (fst failure) (snd failure) = ?e" by simp
  next
    assume "\<exists>failure. tl_parse lib st s = Inl failure \<and> syntax_error s (fst failure) (snd failure) = ?e"
    then show "run_round ?r s = Returned (Inl ?e)"
      by (auto simp: run_round_def bad_parse_def round_loop.simps [of ?r s s])
  qed
  have "run_round ?r source = Returned (Inl ?e)" if "fixed_point source (run_round ?r) = Returned (Inl ?e)"
  proof (cases "run_round ?r source")
    case (Returned x)
    show ?thesis
    proof (cases x)
      case (Inr f)
      with that Returned have "more_rounds (run_round ?r) EXTRA_ROUNDS f = Returned (Inl ?e)"
        by (simp add: fixed_point_def split: if_splits)
      from more_rounds_syntax [OF this] obtain h where h: "run_round ?r (fd_output h) = Returned (Inl ?e)"
          "h = f \<or> (\<exists>s g. run_round ?r s = Returned (Inr g) \<and> fd_output h = fd_output g)"
        by (elim exE conjE)
      from h(2) obtain p where "tl_parse lib st (fd_output h) = Inr p"
        using parses Returned Inr by (elim disjE exE conjE) auto
      with h(1) first [of "fd_output h"] show ?thesis by simp
    qed (use that Returned in \<open>simp add: fixed_point_def\<close>)
  qed (use that in \<open>simp add: fixed_point_def\<close>)
  moreover have "fixed_point source (run_round ?r) = Returned (Inl ?e)" if "run_round ?r source = Returned (Inl ?e)"
    using that by (simp add: fixed_point_def)
  ultimately have "fixed_point source (run_round ?r) = Returned (Inl ?e) \<longleftrightarrow>
      (\<exists>failure. tl_parse lib st source = Inl failure \<and> syntax_error source (fst failure) (snd failure) = ?e)"
    using first by metis
  with broken_text_is_the_steps [of ?r] fs show ?thesis by (auto simp: round_new_def)
qed

text \<open>
  A declaration file is parsed and scored, and never changed: the run is the parse.
\<close>

theorem declarations_are_only_checked:
  assumes "source_type_of l rel = Some st" "is_declaration rel"
  shows "format_source lib tp rel l source tf score =
     Returned (case tl_parse lib st source of
         Inl (offset, message) \<Rightarrow> Inl (syntax_error source offset message)
       | Inr p \<Rightarrow> Inr \<lparr>fd_output = source, fd_applied = [],
           fd_complexity = (if score then tp_score tp rel p source else [])\<rparr>)"
proof -
  let ?r = "round_new lib tp rel st tf score FULL"
  have stop: "next_change ?r source p 0 0 = Returned (Inr None)" for p
    using assms(2) by (simp add: next_change.simps round_new_def)
  show ?thesis
  proof (cases "tl_parse lib st source")
    case (Inr p)
    obtain h where "fingerprint (tl_oxc lib) source p = Some h" using fingerprint_exists by blast
    with Inr stop assms(1) show ?thesis
      by (simp add: format_source_def require_source_type_def pipeline_run_def fixed_point_def run_round_def
          round_loop.simps [of ?r source source] other_program_def finish_round_def)
  next
    case (Inl failure)
    with assms(1) show ?thesis
      by (simp add: format_source_def require_source_type_def pipeline_run_def fixed_point_def run_round_def
          round_loop.simps [of ?r source source] bad_parse_def split: prod.split)
  qed
qed

text \<open>
  \<open>--stdin-filepath\<close> on a script, without a linter: formatting what was printed prints it again.
\<close>

theorem printed_text_prints_itself:
  assumes "is_script l"
    and "lane_format_text (script_formatters lib tp fm) c None rel l source = Inr out"
  shows "lane_format_text (script_formatters lib tp fm) c None rel l out = Inr out"
proof -
  have host: "\<not> is_host l" using assms(1) by (cases l) (simp_all add: is_script_def is_host_def)
  have lane: "lane_format_text (script_formatters lib tp fm) c None rel l s = Inr t \<longleftrightarrow>
      (\<exists>f. format_source lib tp rel l s (cf_ts c) False = Returned (Inr f) \<and> fd_output f = t)" for s t
    using host
    by (auto simp: lane_format_text_def transform_def run_format_def final_lint_def script_formatters_def first_lint_def
        show_result_def Let_def split: attempt.splits sum.splits)
  from assms(2) obtain f where "format_source lib tp rel l source (cf_ts c) False = Returned (Inr f)" "fd_output f = out"
    by (auto simp: lane)
  with format_source_again show ?thesis unfolding lane by fastforce
qed

section \<open>A sample\<close>

text \<open>A parser that reads \<open>a\<close> among line breaks, and a printer that puts one after it.\<close>

definition sample_library :: ts_library where
  "sample_library =
     \<lparr>tl_oxc = sample_oxc,
      tl_defaults = \<lparr>jo_tabs = True, jo_indent_width = 2, jo_line_width = 100, jo_single_quote = False,
        jo_semicolons = True, jo_trailing_commas = TrailingAll, jo_arrow_parens_always = True\<rparr>,
      tl_indent_ok = (\<lambda>w. w \<le> 24), tl_line_ok = (\<lambda>w. w \<le> 320),
      tl_parse = (\<lambda>_ text.
        if filter (\<lambda>c. c \<noteq> newline) text = ''a''
        then Inr \<lparr>pg_root = Node Root (Stmt Program) (0, 1) [Node Body (Stmt ExpressionStatement) (0, 1)
          [Node ExpressionField (Name IdentifierReference ''a'') (0, 1) []]], pg_comments = []\<rparr>
        else Inl (0, ''unexpected'')),
      tl_print = (\<lambda>_ _ _ text. Inr (filter (\<lambda>c. c \<noteq> newline) text @ [newline])),
      tl_panic = None\<rparr>"

definition sample_parts :: ts_parts where
  "sample_parts =
     \<lparr>tp_edits = (\<lambda>p text _. Some (if p = BlankLine \<and> prefix [newline] text then [new_edit 0 1 []] else [])),
      tp_score = (\<lambda>rel _ _. [\<lparr>s_key = rel, s_name = ''f'', s_line = 1, s_cyclomatic = 1, s_cognitive = 0\<rparr>])\<rparr>"

definition sample_ts_format :: ts_format where
  "sample_ts_format =
     \<lparr>tf_use_tabs = True, tf_tab_width = 4, tf_print_width = 100, tf_single_quote = True, tf_semi = True,
      tf_trailing_comma = TrailingAll, tf_arrow_parens = ArrowAlways\<rparr>"

abbreviation sample_output :: formatted where
  "sample_output \<equiv> \<lparr>fd_output = [CHR ''a'', newline], fd_applied = [''blank-lines'', ''oxfmt''], fd_complexity = []\<rparr>"

definition sample_program :: program where
  "sample_program =
     \<lparr>pg_root = Node Root (Stmt Program) (0, 1) [Node Body (Stmt ExpressionStatement) (0, 1)
        [Node ExpressionField (Name IdentifierReference ''a'') (0, 1) []]], pg_comments = []\<rparr>"

definition sample_round :: round where
  "sample_round =
     round_new sample_library sample_parts ''a.ts'' (SourceType ''ts'' False) sample_ts_format False FULL"

lemma sample_round_fields:
  "re_library sample_round = sample_library" "re_source_type sample_round = SourceType ''ts'' False"
  "re_score sample_round = False" "tl_oxc sample_library = sample_oxc"
  by (simp_all add: sample_round_def sample_library_def)

lemma sample_parse:
  "filter (\<lambda>c. c \<noteq> newline) text = ''a'' \<Longrightarrow> tl_parse sample_library st text = Inr sample_program"
  by (simp add: sample_library_def sample_program_def)

lemma sample_print:
  "fingerprint sample_oxc [newline, CHR ''a''] sample_program = fingerprint sample_oxc [] sample_program"
  "fingerprint sample_oxc ''a'' sample_program = fingerprint sample_oxc [] sample_program"
  "fingerprint sample_oxc [CHR ''a'', newline] sample_program = fingerprint sample_oxc [] sample_program"
  by code_simp+

lemma sample_changes:
  "next_change sample_round [newline, CHR ''a''] sample_program 0 0 =
     Returned (Inr (Some (''a'', PassStep BlankLine, 3, 1)))"
  "next_change sample_round ''a'' sample_program 3 1 =
     Returned (Inr (Some ([CHR ''a'', newline], FormatStep, 4, 1)))"
  "next_change sample_round [CHR ''a'', newline] sample_program 4 1 = Returned (Inr None)"
  "next_change sample_round [CHR ''a'', newline] sample_program 0 0 = Returned (Inr None)"
  by code_simp+

lemma sample_round_runs:
  "run_round sample_round [newline, CHR ''a''] = Returned (Inr sample_output)"
  "run_round sample_round [CHR ''a'', newline] = Returned (Inr (sample_output\<lparr>fd_applied := []\<rparr>))"
proof -
  obtain h where h: "fingerprint sample_oxc [] sample_program = Some h" using fingerprint_exists by blast
  note step = round_loop.simps [of sample_round]
  note facts = sample_round_fields sample_parse sample_print h sample_changes sample_changes [unfolded One_nat_def] other_program_def finish_round_def
    add_applied_def run_round_def
  show "run_round sample_round [newline, CHR ''a''] = Returned (Inr sample_output)"
    by (simp add: facts step [of _ "[newline, CHR ''a'']"] step [of _ "''a''"] step [of _ "[CHR ''a'', newline]"])
  show "run_round sample_round [CHR ''a'', newline] = Returned (Inr (sample_output\<lparr>fd_applied := []\<rparr>))"
    by (simp add: facts step [of _ "[CHR ''a'', newline]"])
qed

lemma sample_formatted:
  "format_source sample_library sample_parts ''a.ts'' Ts [newline, CHR ''a''] sample_ts_format False =
     Returned (Inr sample_output)"
proof -
  have "source_type_of Ts ''a.ts'' = Some (SourceType ''ts'' False)" by code_simp
  then show ?thesis
    using sample_round_runs
    by (simp add: format_source_def require_source_type_def pipeline_run_def fixed_point_def sample_round_def
        EXTRA_ROUNDS_def numeral_3_eq_3)
qed

theorem formatting_is_idempotent_witness:
  "format_source sample_library sample_parts ''a.ts'' Ts [CHR ''a'', newline] sample_ts_format False =
     Returned (Inr \<lparr>fd_output = [CHR ''a'', newline], fd_applied = [], fd_complexity = []\<rparr>)"
  using formatting_is_idempotent [OF sample_formatted] by simp

theorem printed_text_prints_itself_witness:
  "lane_format_text (script_formatters sample_library sample_parts sample_formatters) (default_config\<lparr>cf_ts := sample_ts_format\<rparr>) None
     ''a.ts'' Ts [CHR ''a'', newline] = Inr [CHR ''a'', newline]"
proof (rule printed_text_prints_itself)
  show "lane_format_text (script_formatters sample_library sample_parts sample_formatters) (default_config\<lparr>cf_ts := sample_ts_format\<rparr>)
      None ''a.ts'' Ts [newline, CHR ''a''] = Inr [CHR ''a'', newline]"
    using sample_formatted
    by (simp add: lane_format_text_def transform_def run_format_def final_lint_def script_formatters_def first_lint_def
        show_result_def is_host_def)
qed (simp add: is_script_def)

theorem formatting_keeps_the_program_witness:
  "\<exists>p q h. tl_parse sample_library (SourceType ''ts'' False) [newline, CHR ''a''] = Inr p \<and>
     tl_parse sample_library (SourceType ''ts'' False) [CHR ''a'', newline] = Inr q \<and>
     fingerprint sample_oxc [newline, CHR ''a''] p = Some h \<and> fingerprint sample_oxc [CHR ''a'', newline] q = Some h"
proof -
  have "source_type_of Ts ''a.ts'' = Some (SourceType ''ts'' False)" by code_simp
  moreover have "tl_oxc sample_library = sample_oxc" by (simp add: sample_library_def)
  ultimately show ?thesis using formatting_keeps_the_program [OF sample_formatted] by auto
qed

text \<open>The same with a printer that breaks the text.\<close>

definition broken_library :: ts_library where
  "broken_library = sample_library\<lparr>tl_print := \<lambda>_ _ _ _. Inr ''b''\<rparr>"

definition broken_round :: round where
  "broken_round = round_new broken_library sample_parts ''a.ts'' (SourceType ''ts'' False) sample_ts_format False FULL"

lemma broken_changes:
  "next_change broken_round [newline, CHR ''a''] sample_program 0 0 =
     Returned (Inr (Some (''a'', PassStep BlankLine, 3, 1)))"
  "next_change broken_round ''a'' sample_program 3 1 = Returned (Inr (Some (''b'', FormatStep, 4, 1)))"
  by code_simp+

lemma broken_fields [simp]:
  "re_library broken_round = broken_library" "re_source_type broken_round = SourceType ''ts'' False"
  "tl_oxc broken_library = sample_oxc" "tl_parse broken_library = tl_parse sample_library"
  by (simp_all add: broken_round_def broken_library_def sample_library_def)

lemma broken_reaches: "\<exists>h. round_at broken_round [newline, CHR ''a''] ''b'' 4 1 (Some FormatStep) (Some h)"
proof -
  obtain h where h: "fingerprint sample_oxc [] sample_program = Some h" using fingerprint_exists by blast
  have "round_at broken_round [newline, CHR ''a''] ''a'' 3 1 (Some (PassStep BlankLine)) (Some h)"
    using round_at.changes [OF round_at.starts, of broken_round "[newline, CHR ''a'']" sample_program h "''a''" "PassStep BlankLine" 3 1]
    by (simp add: sample_parse sample_print h broken_changes other_program_def)
  from round_at.changes [OF this, of sample_program h "''b''" FormatStep 4 1] show ?thesis
    by (auto simp: sample_parse sample_print h broken_changes [unfolded One_nat_def] other_program_def)
qed

theorem syntax_errors_are_the_inputs_witness:
  "format_source broken_library sample_parts ''a.ts'' Ts ''b'' sample_ts_format False =
     Returned (Inl (SyntaxError 1 1 ''unexpected'')) \<and>
   format_source broken_library sample_parts ''a.ts'' Ts [newline, CHR ''a''] sample_ts_format False =
     Returned (Inl (InvariantError ''oxfmt'' ''unexpected''))"
proof
  have st: "source_type_of Ts ''a.ts'' = Some (SourceType ''ts'' False)" by code_simp
  note claim = syntax_errors_are_the_inputs [OF st, of broken_library sample_parts _ sample_ts_format False 1 1 "''unexpected''"]
  have "syntax_error ''b'' 0 ''unexpected'' = SyntaxError 1 1 ''unexpected''"
    by (simp add: syntax_error_def to_u32_def line_col_def line_of_def line_index_new_def memchr_newlines_def
        partition_point_def saturate_u32_def u32_max_def)
  moreover have b: "tl_parse broken_library (SourceType ''ts'' False) ''b'' = Inl (0, ''unexpected'')"
    by (simp add: sample_library_def)
  ultimately have "\<exists>failure. tl_parse broken_library (SourceType ''ts'' False) ''b'' = Inl failure \<and>
      syntax_error ''b'' (fst failure) (snd failure) = SyntaxError 1 1 ''unexpected''"
    by (intro exI [of _ "(0, ''unexpected'')"]) (simp only: fst_conv snd_conv simp_thms)
  then show "format_source broken_library sample_parts ''a.ts'' Ts ''b'' sample_ts_format False =
      Returned (Inl (SyntaxError 1 1 ''unexpected''))"
    by (rule claim [THEN conjunct1, THEN iffD2])
  obtain h where h: "round_at broken_round [newline, CHR ''a''] ''b'' 4 1 (Some FormatStep) (Some h)"
    using broken_reaches ..
  have "format_source broken_library sample_parts ''a.ts'' Ts [newline, CHR ''a''] sample_ts_format False =
      Returned (Inl (InvariantError (step_name FormatStep) (snd (0 :: u32, ''unexpected''))))"
    by (rule claim [THEN conjunct2, rule_format, of broken_round _ 0 "[newline, CHR ''a'']" "''b''" 4 1])
      (use h b round_starts.first in \<open>simp add: broken_round_def\<close>)
  then show "format_source broken_library sample_parts ''a.ts'' Ts [newline, CHR ''a''] sample_ts_format False =
      Returned (Inl (InvariantError ''oxfmt'' ''unexpected''))"
    by simp
qed

theorem declarations_are_only_checked_witness:
  "format_source sample_library sample_parts ''a.d.ts'' Ts [newline, CHR ''a''] sample_ts_format True =
     Returned (Inr \<lparr>fd_output = [newline, CHR ''a''], fd_applied = [], fd_complexity =
       [\<lparr>s_key = ''a.d.ts'', s_name = ''f'', s_line = 1, s_cyclomatic = 1, s_cognitive = 0\<rparr>]\<rparr>)"
proof -
  have "source_type_of Ts ''a.d.ts'' = Some (SourceType ''ts'' True)" "is_declaration ''a.d.ts''" by code_simp+
  note run = declarations_are_only_checked [OF this, of sample_library sample_parts "[newline, CHR ''a'']" sample_ts_format True]
  show ?thesis unfolding run by (simp add: sample_parse) (simp add: sample_parts_def)
qed

end
