(* ===== verification/Siblings.thy ===== *)
theory Siblings imports
  Fingerprint
begin

text \<open>
  \<^verbatim>\<open>crates/ts/src/passes/lists.rs\<close> and \<^verbatim>\<open>spacing.rs\<close>: the sibling lists the blank-line and declaration passes walk,
  which neighbours need a blank line between them, and how class members group.
\<close>

section \<open>Sibling lists\<close>

datatype sibling = DirectiveItem node | StatementItem node | MemberItem node | CaseItem node

fun sibling_node :: "sibling \<Rightarrow> node" where
  "sibling_node (DirectiveItem n) = n"
| "sibling_node (StatementItem n) = n"
| "sibling_node (MemberItem n) = n"
| "sibling_node (CaseItem n) = n"

definition sibling_span :: "sibling \<Rightarrow> span32" where
  "sibling_span i = nd_span (sibling_node i)"

fun sibling_statement :: "sibling \<Rightarrow> node option" where
  "sibling_statement (StatementItem n) = Some n"
| "sibling_statement _ = None"

definition is_import :: "sibling \<Rightarrow> bool" where
  "is_import i \<longleftrightarrow> map_option nd_kind (sibling_statement i) = Some (Stmt ImportDeclaration)"

definition declaration_kind :: "sibling \<Rightarrow> var_kind option" where
  "declaration_kind i =
     (case map_option nd_kind (sibling_statement i) of
        Some (VariableDeclaration k) \<Rightarrow> Some k
      | _ \<Rightarrow> None)"

definition is_const :: "sibling \<Rightarrow> bool" where
  "is_const i \<longleftrightarrow> declaration_kind i = Some Const"

text \<open>The list a node holds, when it holds one; an expression-bodied arrow has no \<open>FunctionBody\<close>.\<close>

definition sibling_list :: "node \<Rightarrow> sibling list option" where
  "sibling_list n =
     (case nd_kind n of
        Stmt Program \<Rightarrow> Some (map DirectiveItem (in_field Directives n) @ map StatementItem (in_field Body n))
      | Stmt BlockStatement \<Rightarrow> Some (map StatementItem (in_field Body n))
      | Stmt StaticBlock \<Rightarrow> Some (map StatementItem (in_field Body n))
      | Stmt SwitchCase \<Rightarrow> Some (map StatementItem (in_field Consequent n))
      | Stmt SwitchStatement \<Rightarrow> Some (map CaseItem (in_field Cases n))
      | Stmt ClassBody \<Rightarrow> Some (map MemberItem (in_field Body n))
      | Stmt FunctionBody \<Rightarrow> Some (map DirectiveItem (in_field Directives n) @ map StatementItem (in_field Statements n))
      | _ \<Rightarrow> None)"

text \<open>\<open>for_each_list\<close>: every list, outermost first.\<close>

definition sibling_lists :: "node \<Rightarrow> sibling list list" where
  "sibling_lists root = List.map_filter sibling_list (preorder root)"

fun neighbours :: "'a list \<Rightarrow> ('a \<times> 'a) list" where
  "neighbours (a # b # xs) = (a, b) # neighbours (b # xs)"
| "neighbours _ = []"

section \<open>Class members\<close>

definition is_property_member :: "node \<Rightarrow> bool" where
  "is_property_member m =
     (case nd_kind m of
        PropertyDefinition _ _ _ \<Rightarrow> True
      | Tst TSIndexSignature \<Rightarrow> True
      | Stmt StaticBlock \<Rightarrow> True
      | AccessorProperty abstract \<Rightarrow> \<not> abstract
      | _ \<Rightarrow> False)"

definition classify :: "node \<Rightarrow> member_kind" where
  "classify m =
     (if is_property_member m then PropertyMember
      else case nd_kind m of
        MethodDefinition k _ _ _ \<Rightarrow> if k = ConstructorMethod then ConstructorMember else MethodMember
      | _ \<Rightarrow> MethodMember)"

text \<open>The order of \<open>MemberKind\<close>.\<close>

fun member_rank :: "member_kind \<Rightarrow> nat" where
  "member_rank PropertyMember = 0"
| "member_rank ConstructorMember = 1"
| "member_rank MethodMember = 2"

instantiation member_kind :: linorder
begin

definition less_eq_member_kind :: "member_kind \<Rightarrow> member_kind \<Rightarrow> bool" where
  "less_eq_member_kind a b \<longleftrightarrow> member_rank a \<le> member_rank b"

definition less_member_kind :: "member_kind \<Rightarrow> member_kind \<Rightarrow> bool" where
  "less_member_kind a b \<longleftrightarrow> member_rank a < member_rank b"

instance
proof
  fix a b :: member_kind
  show "a \<le> b \<Longrightarrow> b \<le> a \<Longrightarrow> a = b"
    by (cases a; cases b) (simp_all add: less_eq_member_kind_def)
qed (auto simp: less_eq_member_kind_def less_member_kind_def)

end

definition is_method_member :: "sibling \<Rightarrow> bool" where
  "is_method_member i =
     (case i of MemberItem m \<Rightarrow> (case nd_kind m of MethodDefinition _ _ _ _ \<Rightarrow> True | _ \<Rightarrow> False) | _ \<Rightarrow> False)"

definition is_property_item :: "sibling \<Rightarrow> bool" where
  "is_property_item i = (case i of MemberItem m \<Rightarrow> is_property_member m | _ \<Rightarrow> False)"

section \<open>Statements\<close>

definition VUE_PRIMITIVES :: "string list" where
  "VUE_PRIMITIVES =
     [''computed'', ''nextTick'', ''onActivated'', ''onBeforeMount'', ''onBeforeUnmount'', ''onBeforeUpdate'',
      ''onDeactivated'', ''onErrorCaptured'', ''onMounted'', ''onRenderTracked'', ''onRenderTriggered'',
      ''onServerPrefetch'', ''onUnmounted'', ''onUpdated'', ''reactive'', ''readonly'', ''ref'', ''shallowReactive'',
      ''shallowRef'', ''watch'', ''watchEffect'']"

text \<open>\<open>AwaitFinder\<close>: an \<open>await\<close> outside nested functions.\<close>

fun finds_await :: "node \<Rightarrow> bool" where
  "finds_await (Node f k s cs) \<longleftrightarrow>
     (case k of
        Function _ _ _ \<Rightarrow> False
      | ArrowFunctionExpression _ \<Rightarrow> False
      | _ \<Rightarrow> k = Expr AwaitExpression \<or> (\<exists>c \<in> set cs. finds_await c))"

fun contains_await :: "sibling \<Rightarrow> bool" where
  "contains_await (DirectiveItem _) = False"
| "contains_await i = finds_await (sibling_node i)"

definition is_function_declaration :: "node \<Rightarrow> bool" where
  "is_function_declaration n = (case nd_kind n of Function t _ _ \<Rightarrow> t = FunctionDeclaration | _ \<Rightarrow> False)"

definition is_type_declaration_kind :: "node \<Rightarrow> bool" where
  "is_type_declaration_kind n \<longleftrightarrow> nd_kind n \<in>
     {Tst TSTypeAliasDeclaration, Tst TSInterfaceDeclaration, Tst TSEnumDeclaration, Tst TSExternalModuleDeclaration,
      Tst TSNamespaceDeclaration, Tst TSGlobalDeclaration}"

definition in_declaration :: "(node \<Rightarrow> bool) \<Rightarrow> node \<Rightarrow> bool" where
  "in_declaration P n = (case the_field DeclarationField n of Some d \<Rightarrow> P d | None \<Rightarrow> False)"

definition is_type_declaration :: "sibling \<Rightarrow> bool" where
  "is_type_declaration i =
     (case sibling_statement i of
        None \<Rightarrow> False
      | Some s \<Rightarrow>
          if nd_kind s = Stmt ExportDeclaration then in_declaration is_type_declaration_kind s
          else is_type_declaration_kind s)"

definition is_loop_node :: "node \<Rightarrow> bool" where
  "is_loop_node n =
     (case nd_kind n of
        Stmt t \<Rightarrow> t \<in> {ForStatement, ForInStatement, WhileStatement, DoWhileStatement}
      | ForOfStatement _ \<Rightarrow> True
      | _ \<Rightarrow> False)"

definition statement_is :: "(node \<Rightarrow> bool) \<Rightarrow> sibling \<Rightarrow> bool" where
  "statement_is P i = (case sibling_statement i of Some s \<Rightarrow> P s | None \<Rightarrow> False)"

definition is_loop :: "sibling \<Rightarrow> bool" where
  "is_loop i = statement_is is_loop_node i"

definition is_branching :: "node \<Rightarrow> bool" where
  "is_branching n \<longleftrightarrow> is_loop_node n \<or> nd_kind n \<in> {Stmt IfStatement, Stmt SwitchStatement, Stmt TryStatement}"

text \<open>A class or a function with a body: the declarations that end in a block.\<close>

definition is_block_declaration :: "node \<Rightarrow> bool" where
  "is_block_declaration n \<longleftrightarrow> nd_kind n = Stmt Class \<or> is_function_declaration n"

definition is_structured :: "sibling \<Rightarrow> bool" where
  "is_structured i = statement_is (\<lambda>s.
     is_branching s \<or> is_block_declaration s \<or>
     nd_kind s \<in> {Stmt ExportDeclaration, Stmt ExportDefaultDeclaration} \<and> in_declaration is_block_declaration s) i"

definition binding_receiver :: "node \<Rightarrow> bool" where
  "binding_receiver object \<longleftrightarrow>
     is_identifier object ''bindings'' \<or> static_property_name object = Some ''bindings''"

text \<open>\<open>bindings.x(...)\<close> or \<open><object>.bindings.x(...)\<close> as an expression statement.\<close>

definition call_callee :: "node \<Rightarrow> node option" where
  "call_callee e = (if nd_kind e = Expr CallExpression then the_field Callee e else None)"

definition is_binding_call :: "sibling \<Rightarrow> bool" where
  "is_binding_call i = statement_is (\<lambda>s.
     nd_kind s = Stmt ExpressionStatement \<and>
     (case do { e \<leftarrow> the_field ExpressionField s; c \<leftarrow> call_callee e;
                if nd_kind c = Expr StaticMemberExpression then the_field Object c else None } of
        Some object \<Rightarrow> binding_receiver object
      | None \<Rightarrow> False)) i"

definition is_vue_primitive_call :: "node \<Rightarrow> bool" where
  "is_vue_primitive_call e =
     (case call_callee e of
        Some c \<Rightarrow> (case nd_kind c of Name IdentifierReference s \<Rightarrow> s \<in> set VUE_PRIMITIVES | _ \<Rightarrow> False)
      | None \<Rightarrow> False)"

definition is_vue_primitive_statement :: "node \<Rightarrow> bool" where
  "is_vue_primitive_statement s =
     (case nd_kind s of
        Stmt ExpressionStatement \<Rightarrow> (\<exists>e \<in> set (option_list (the_field ExpressionField s)). is_vue_primitive_call e)
      | VariableDeclaration k \<Rightarrow>
          k = Const \<and>
          (\<exists>d \<in> set (in_field Declarations s). \<exists>e \<in> set (option_list (the_field Init d)). is_vue_primitive_call e)
      | _ \<Rightarrow> False)"

section \<open>Blank lines\<close>

definition needs_blank_line_above :: "sibling \<Rightarrow> bool" where
  "needs_blank_line_above i =
     (case i of
        CaseItem _ \<Rightarrow> True
      | _ \<Rightarrow> statement_is (\<lambda>s.
          is_vue_primitive_statement s \<or> is_function_declaration s \<or>
          nd_kind s \<in> {Stmt ReturnStatement, Stmt SwitchStatement, Stmt Class, Tst TSEnumDeclaration,
            Tst TSExternalModuleDeclaration, Tst TSNamespaceDeclaration, Tst TSGlobalDeclaration,
            Stmt ExportDeclaration, Stmt ExportDefaultDeclaration}) i)"

text \<open>A case with no consequent is one label of a fallthrough group.\<close>

definition is_fallthrough :: "sibling \<Rightarrow> sibling \<Rightarrow> bool" where
  "is_fallthrough previous following =
     (case (previous, following) of
        (CaseItem c, CaseItem _) \<Rightarrow> in_field Consequent c = []
      | _ \<Rightarrow> False)"

definition is_let :: "sibling \<Rightarrow> bool" where
  "is_let i \<longleftrightarrow> declaration_kind i = Some Let"

text \<open>Whether a blank line belongs between two adjacent siblings.\<close>

definition needs_blank_line :: "sibling \<Rightarrow> sibling \<Rightarrow> bool" where
  "needs_blank_line previous following \<longleftrightarrow>
     (if is_fallthrough previous following then False
      else if contains_await previous \<or> contains_await following \<or> needs_blank_line_above following then True
      else if is_binding_call following \<and> \<not> is_binding_call previous then True
      else if is_loop following then \<not> is_structured previous
      else if (is_method_member previous \<or> is_property_item previous) \<and> is_method_member following
              \<or> is_type_declaration previous then True
      else if is_import previous \<and> \<not> is_import following then True
      else if is_const previous \<noteq> is_const following then True
      else if is_let previous \<noteq> is_let following then True
      else if declaration_kind previous \<noteq> None \<and> declaration_kind following = None then True
      else statement_is is_branching previous)"

section \<open>Facts\<close>

lemma neighbours_length: "length (neighbours xs) = length xs - 1"
  by (induction xs rule: neighbours.induct) simp_all

lemma neighbours_mem: "(a, b) \<in> set (neighbours xs) \<Longrightarrow> a \<in> set xs \<and> b \<in> set xs"
  by (induction xs rule: neighbours.induct) auto

text \<open>The two classifications of class members agree.\<close>

lemma classify_kind_classify: "classify_kind (nd_kind m) = Some k \<Longrightarrow> classify m = k"
  by (auto simp: classify_kind_def classify_def is_property_member_def split: kind.splits type_type.splits
      statement_type.splits if_splits)

end
