(* ===== verification/BlankLines.thy ===== *)
theory BlankLines imports
  Siblings
  "HOL-Library.Sublist"
begin

text \<open>
  \<^verbatim>\<open>crates/ts/src/passes/blank_line.rs\<close>: the line breaks the spacing policy asks for. A slice that panics is
  \<open>None\<close>.
\<close>

section \<open>Line breaks\<close>

text \<open>U+2028 and U+2029.\<close>

definition LINE_SEPARATOR :: string where "LINE_SEPARATOR = [CHR 0xE2, CHR 0x80, CHR 0xA8]"

definition PARAGRAPH_SEPARATOR :: string where "PARAGRAPH_SEPARATOR = [CHR 0xE2, CHR 0x80, CHR 0xA9]"

text \<open>The ECMAScript line terminators with their end offsets; \<open>\r\n\<close> is one.\<close>

fun line_breaks_from :: "nat \<Rightarrow> string \<Rightarrow> (nat \<times> string) list" where
  "line_breaks_from at [] = []"
| "line_breaks_from at (c # s) =
     (if c = carriage_return then
        (case s of
           [] \<Rightarrow> [(at + 1, [carriage_return])]
         | d # t \<Rightarrow>
             if d = newline then (at + 2, [carriage_return, newline]) # line_breaks_from (at + 2) t
             else (at + 1, [carriage_return]) # line_breaks_from (at + 1) s)
      else if c = newline then (at + 1, [newline]) # line_breaks_from (at + 1) s
      else if prefix LINE_SEPARATOR (c # s) then (at + 3, LINE_SEPARATOR) # line_breaks_from (at + 1) s
      else if prefix PARAGRAPH_SEPARATOR (c # s) then (at + 3, PARAGRAPH_SEPARATOR) # line_breaks_from (at + 1) s
      else line_breaks_from (at + 1) s)"

definition line_breaks :: "string \<Rightarrow> (nat \<times> string) list" where
  "line_breaks s = line_breaks_from 0 s"

section \<open>The pass\<close>

definition blank_insert :: "string \<Rightarrow> sibling \<times> sibling \<Rightarrow> edit option option" where
  "blank_insert text pair =
     (let (previous, following) = pair;
          previous_end = unat (snd (sibling_span previous));
          next_start = unat (fst (sibling_span following))
      in if \<not> needs_blank_line previous following then Some None
         else if next_start \<le> previous_end then Some None
         else case str_slice text previous_end next_start of
           None \<Rightarrow> None
         | Some gap \<Rightarrow>
             (case line_breaks gap of
                [(last_end, terminator)] \<Rightarrow>
                  Some (Some (insert_edit (to_u32 (previous_end + last_end))
                    (if terminator = [carriage_return] then [carriage_return] else [newline])))
              | _ \<Rightarrow> Some None))"

text \<open>The first edit of each position.\<close>

fun keep_unseen :: "u32 set \<Rightarrow> edit list \<Rightarrow> edit list" where
  "keep_unseen seen [] = []"
| "keep_unseen seen (e # es) =
     (if e_start e \<in> seen then keep_unseen seen es else e # keep_unseen (insert (e_start e) seen) es)"

definition sibling_pairs :: "program \<Rightarrow> (sibling \<times> sibling) list" where
  "sibling_pairs p = concat (map neighbours (sibling_lists (pg_root p)))"

definition blank_line_edits :: "string \<Rightarrow> program \<Rightarrow> edit list option" where
  "blank_line_edits text p =
     map_option (\<lambda>inserts. keep_unseen {} (concat (map option_list inserts)))
       (those (map (blank_insert text) (sibling_pairs p)))"

section \<open>Character boundaries\<close>

lemma utf8_second_range: "utf8_second a = Some (lo, hi) \<Longrightarrow> 128 \<le> lo \<and> hi < 192"
  by (auto simp: utf8_second_def split: if_splits)

lemma valid_utf8_step:
  assumes "valid_utf8 (a # s)"
  obtains (ascii) "byte_in 0 0x7F a" "valid_utf8 s"
    | (more) cs t where "s = cs @ t" "\<forall>c \<in> set cs. continuation_byte c" "cs \<noteq> []" "valid_utf8 t" "\<not> continuation_byte a"
proof (cases "byte_in 0 0x7F a")
  case True
  with assms ascii show thesis by (simp add: valid_utf8.simps(2))
next
  case False
  obtain lo hi where u: "utf8_second a = Some (lo, hi)"
    using assms False by (cases "utf8_second a") (auto simp: valid_utf8.simps(2))
  obtain b s1 where s: "s = b # s1"
    using assms False u by (cases s) (simp_all add: valid_utf8.simps(2))
  have b: "byte_in lo hi b" using assms False u s by (simp add: valid_utf8.simps(2))
  from utf8_second_range [OF u] b have cb: "continuation_byte b" by (auto simp: byte_in_def continuation_byte_def)
  have na: "\<not> continuation_byte a"
    using u by (auto simp: utf8_second_def byte_in_def continuation_byte_def split: if_splits)
  have rest: "if byte_in 0xC2 0xDF a then valid_utf8 s1
       else case s1 of [] \<Rightarrow> False | c # s2 \<Rightarrow> byte_in 0x80 0xBF c \<and>
         (if byte_in 0xE0 0xEF a then valid_utf8 s2
          else case s2 of [] \<Rightarrow> False | d # s3 \<Rightarrow> byte_in 0x80 0xBF d \<and> valid_utf8 s3)"
    using assms False u s by (simp add: valid_utf8.simps(2))
  have tail: "byte_in 0x80 0xBF c \<Longrightarrow> continuation_byte c" for c by (auto simp: byte_in_def continuation_byte_def)
  show thesis
  proof (cases "byte_in 0xC2 0xDF a")
    case True
    with rest s cb na show thesis by (intro more [of "[b]" s1]) simp_all
  next
    case nb: False
    with rest obtain c s2 where s1: "s1 = c # s2" and c: "byte_in 0x80 0xBF c"
      and r2: "if byte_in 0xE0 0xEF a then valid_utf8 s2
          else case s2 of [] \<Rightarrow> False | d # s3 \<Rightarrow> byte_in 0x80 0xBF d \<and> valid_utf8 s3"
      by (auto split: list.splits)
    show thesis
    proof (cases "byte_in 0xE0 0xEF a")
      case True
      with r2 s s1 cb na tail [OF c] show thesis by (intro more [of "[b, c]" s2]) simp_all
    next
      case False
      with r2 obtain d s3 where "s2 = d # s3" "byte_in 0x80 0xBF d" "valid_utf8 s3" by (auto split: list.splits)
      with s s1 cb na tail [OF c] tail show thesis by (intro more [of "[b, c, d]" s3]) simp_all
    qed
  qed
qed

lemma valid_utf8_hd: "valid_utf8 (a # s) \<Longrightarrow> \<not> continuation_byte a"
  by (erule valid_utf8_step) (auto simp: byte_in_def continuation_byte_def)

lemma valid_utf8_drop: "valid_utf8 (xs @ b # s) \<Longrightarrow> \<not> continuation_byte b \<Longrightarrow> valid_utf8 (b # s)"
proof (induction xs rule: length_induct)
  case (1 xs)
  show ?case
  proof (cases xs)
    case (Cons a ys)
    with 1(2) have v: "valid_utf8 (a # ys @ b # s)" by simp
    then show ?thesis
    proof (cases rule: valid_utf8_step)
      case ascii
      then show ?thesis using 1(1) [rule_format, of ys] 1(3) Cons by simp
    next
      case (more cs t)
      then obtain us where "ys = cs @ us \<and> us @ b # s = t \<or> ys @ us = cs \<and> b # s = us @ t"
        by (auto simp: append_eq_append_conv2)
      then consider (inside) zs where "ys = cs @ zs" "t = zs @ b # s" | (past) "b \<in> set cs"
        by (cases us) fastforce+
      then show ?thesis
      proof cases
        case inside
        with more(4) show ?thesis using 1(1) [rule_format, of zs] 1(3) Cons by simp
      next
        case past
        with more(2) 1(3) show ?thesis by blast
      qed
    qed
  qed (use 1 in simp)
qed

lemma utf8_E2: "utf8_second (CHR 0xE2) = Some (0x80, 0xBF)"
  by code_simp

lemma valid_breaks:
  "valid_utf8 (newline # s) = valid_utf8 s"
  "valid_utf8 (carriage_return # s) = valid_utf8 s"
  "valid_utf8 (CHR 0xE2 # CHR 0x80 # CHR 0xA8 # s) = valid_utf8 s"
  "valid_utf8 (CHR 0xE2 # CHR 0x80 # CHR 0xA9 # s) = valid_utf8 s"
  by (simp_all add: utf8_E2 byte_in_def valid_utf8.simps(2) [of newline] valid_utf8.simps(2) [of carriage_return]
      valid_utf8.simps(2) [of "CHR 0xE2"])

lemma boundary_after:
  assumes "valid_utf8 (xs @ w @ ys)"
    and "w \<in> {[newline], [carriage_return], [carriage_return, newline], LINE_SEPARATOR, PARAGRAPH_SEPARATOR}"
  shows "char_boundary (xs @ w @ ys) (length xs + length w)"
proof -
  have "w \<noteq> [] \<and> \<not> continuation_byte (hd w)"
    using assms(2) by (elim insertE emptyE)
      (simp_all add: LINE_SEPARATOR_def PARAGRAPH_SEPARATOR_def continuation_byte_def)
  then obtain b bs where w: "w = b # bs" "\<not> continuation_byte b" by (cases w) auto
  with valid_utf8_drop [of xs b "bs @ ys"] assms(1) have "valid_utf8 (w @ ys)" by simp
  with assms(2) have "valid_utf8 ys" by (elim insertE emptyE) (simp_all add: valid_breaks LINE_SEPARATOR_def PARAGRAPH_SEPARATOR_def)
  then show ?thesis by (cases ys) (auto simp: char_boundary_def nth_append dest: valid_utf8_hd)
qed

section \<open>What the pass inserts\<close>

abbreviation breaks :: "string set" where
  "breaks \<equiv> {[newline], [carriage_return], [carriage_return, newline], LINE_SEPARATOR, PARAGRAPH_SEPARATOR}"

lemma line_breaks_from_split:
  "(k, t) \<in> set (line_breaks_from at s) \<Longrightarrow> \<exists>xs ys. s = xs @ t @ ys \<and> k = at + length xs + length t \<and> t \<in> breaks"
proof (induction at s rule: line_breaks_from.induct)
  case (2 at c s)
  have first: "\<exists>xs ys. c # s = xs @ t @ ys \<and> k = at + length xs + length t \<and> t \<in> breaks"
    if "k = at + length t" "t \<in> breaks" "prefix t (c # s)"
  proof -
    from that(3) obtain ys where "c # s = t @ ys" by (auto elim: prefixE)
    with that(1,2) show ?thesis by (intro exI [of _ "[]"] exI [of _ ys]) simp
  qed
  have later: "\<exists>xs ys. c # s = xs @ t @ ys \<and> k = at + length xs + length t \<and> t \<in> breaks"
    if "\<exists>xs ys. s = xs @ t @ ys \<and> k = at + 1 + length xs + length t \<and> t \<in> breaks"
    using that by (elim exE conjE) (metis Cons_eq_appendI add.commute add.left_commute length_Cons plus_1_eq_Suc)
  show ?case
  proof (cases "c = carriage_return")
    case cr: True
    show ?thesis
    proof (cases s)
      case Nil
      with cr "2.prems" have "k = at + 1" "t = [carriage_return]" by simp_all
      with cr Nil show ?thesis by (intro first) simp_all
    next
      case (Cons d u)
      show ?thesis
      proof (cases "d = newline")
        case True
        show ?thesis
        proof (cases "(k, t) = (at + 2, [carriage_return, newline])")
          case False
          with cr Cons True 2(1) "2.prems" obtain xs ys where "u = xs @ t @ ys" "k = at + 2 + length xs + length t" "t \<in> breaks"
            by auto
          with cr Cons True show ?thesis by (intro exI [of _ "c # d # xs"] exI [of _ ys]) simp
        qed (use cr Cons True first in simp)
      next
        case False
        with cr Cons 2(2) "2.prems" first later show ?thesis by auto
      qed
    qed
  next
    case False
    have "prefix LINE_SEPARATOR (c # s) \<Longrightarrow> length LINE_SEPARATOR = 3" "length PARAGRAPH_SEPARATOR = 3"
      by (simp_all add: LINE_SEPARATOR_def PARAGRAPH_SEPARATOR_def)
    with False 2 first later show ?thesis by (auto split: if_splits)
  qed
qed simp

lemma line_breaks_split:
  "line_breaks s = [(k, t)] \<Longrightarrow> \<exists>xs ys. s = xs @ t @ ys \<and> k = length xs + length t \<and> t \<in> breaks"
  using line_breaks_from_split [of k t 0 s] by (simp add: line_breaks_def)

lemma those_Some: "those (map f xs) = Some ys \<longleftrightarrow> map f xs = map Some ys"
  by (induction xs arbitrary: ys) (auto split: option.splits simp: map_eq_Cons_conv)

text \<open>The place and the text of what a pair asks for.\<close>

definition wanted :: "string \<Rightarrow> sibling \<times> sibling \<Rightarrow> nat \<Rightarrow> bool" where
  "wanted text pair at \<longleftrightarrow>
     (let (a, b) = pair; from = unat (snd (sibling_span a)); till = unat (fst (sibling_span b))
      in needs_blank_line a b \<and> from < till \<and> (\<exists>k t. line_breaks (span text from till) = [(k, t)] \<and> at = from + k))"

lemma blank_insert_fits:
  assumes "valid_utf8 text" "length text < 2 ^ 32" "blank_insert text (a, b) = Some (Some e)"
  shows "e_end e = e_start e" "e_text e \<in> {[newline], [carriage_return]}" "fits text e"
    "wanted text (a, b) (unat (e_start e))" "unat (snd (sibling_span a)) < unat (e_start e)"
    "unat (e_start e) \<le> unat (fst (sibling_span b))"
proof -
  let ?from = "unat (snd (sibling_span a))" and ?till = "unat (fst (sibling_span b))"
  obtain gap k t where gap: "str_slice text ?from ?till = Some gap" and k: "line_breaks gap = [(k, t)]"
    and n: "needs_blank_line a b" "?from < ?till"
    and e: "e = insert_edit (to_u32 (?from + k)) (if t = [carriage_return] then [carriage_return] else [newline])"
    using assms(3) by (auto simp: blank_insert_def Let_def split: if_splits option.splits list.splits)
  from gap have g: "gap = span text ?from ?till" "?till \<le> length text" by (simp_all add: str_slice_Some_iff)
  from line_breaks_split [OF k] obtain xs ys where s: "gap = xs @ t @ ys" "k = length xs + length t" "t \<in> breaks"
    by blast
  from g n have lg: "length gap = ?till - ?from" by simp
  have "text = take ?from text @ gap @ drop ?till text"
    using g n by (simp add: span_def) (metis append_take_drop_id drop_drop le_add_diff_inverse2 less_imp_le)
  with s have "text = (take ?from text @ xs) @ t @ (ys @ drop ?till text)" by simp
  with boundary_after [of "take ?from text @ xs" t "ys @ drop ?till text"] assms(1) s g n
  have b: "char_boundary text (?from + k)" by simp (metis add.assoc)
  have p: "0 < k" "?from + k \<le> ?till" using s lg n by (auto simp: LINE_SEPARATOR_def PARAGRAPH_SEPARATOR_def)
  have u: "unat (to_u32 (?from + k)) = ?from + k" using p g assms(2) by (intro to_u32_small) linarith
  show "e_end e = e_start e" "e_text e \<in> {[newline], [carriage_return]}"
    by (simp_all add: e insert_edit_def new_edit_def)
  show "fits text e"
    using b u p g by (simp add: fits_def edit_get_def e insert_edit_def new_edit_def str_slice_def)
  show "wanted text (a, b) (unat (e_start e))"
    using n k u g by (simp add: wanted_def Let_def e insert_edit_def new_edit_def)
  show "?from < unat (e_start e)" "unat (e_start e) \<le> ?till"
    using p u by (simp_all add: e insert_edit_def new_edit_def)
qed

lemma wanted_insert:
  assumes "wanted text pair at" "blank_insert text pair = Some r" "length text < 2 ^ 32"
  shows "\<exists>e. r = Some e \<and> unat (e_start e) = at"
proof -
  obtain a b where pair: "pair = (a, b)" by fastforce
  let ?from = "unat (snd (sibling_span a))" and ?till = "unat (fst (sibling_span b))"
  from assms(1) pair obtain k t where n: "needs_blank_line a b" "?from < ?till"
    and k: "line_breaks (span text ?from ?till) = [(k, t)]" "at = ?from + k"
    by (auto simp: wanted_def Let_def)
  from assms(2) n pair have "str_slice text ?from ?till \<noteq> None"
    by (auto simp: blank_insert_def Let_def split: option.splits)
  then have g: "str_slice text ?from ?till = Some (span text ?from ?till)" "?till \<le> length text"
    by (auto simp: str_slice_def split: if_splits)
  from line_breaks_split [OF k(1)] obtain xs ys where "span text ?from ?till = xs @ t @ ys" "k = length xs + length t" by blast
  then have "k \<le> length (span text ?from ?till)" by simp
  with g n have "at < 2 ^ 32" using k(2) assms(3) by simp
  with assms(2) g n k pair show ?thesis
    by (auto simp: blank_insert_def Let_def insert_edit_def new_edit_def to_u32_small)
qed

lemma keep_unseen_props:
  "set (keep_unseen seen es) \<subseteq> set es" "distinct (map e_start (keep_unseen seen es))"
  "e_start ` set (keep_unseen seen es) = e_start ` set es - seen"
  by (induction seen es rule: keep_unseen.induct) (auto simp: image_iff)

lemma replace_zero_width:
  "e_end e = e_start e \<Longrightarrow> subseq s (replace_one e s) \<and> length (replace_one e s) = length s + length (e_text e) \<and>
     filter P (replace_one e s) =
       filter P (take (unat (e_start e)) s) @ filter P (e_text e) @ filter P (drop (unat (e_start e)) s)"
proof -
  assume "e_end e = e_start e"
  moreover have "subseq (take n s @ drop n s) (take n s @ t @ drop n s)" for n :: nat and t
    by (intro list_emb_append_mono) (simp_all add: list_emb_append2)
  ultimately show ?thesis by (simp add: replace_one_def)
qed

lemma inserts_only_add:
  "\<forall>e \<in> set es. e_end e = e_start e \<and> length (e_text e) = 1 \<and> filter P (e_text e) = [] \<Longrightarrow>
     subseq s (apply_back_to_front es s) \<and> length (apply_back_to_front es s) = length s + length es \<and>
     filter P (apply_back_to_front es s) = filter P s"
proof (induction es)
  case (Cons e es)
  then have z: "e_end e = e_start e" by simp
  let ?t = "apply_back_to_front es s"
  have "filter P (replace_one e ?t) = filter P (take (unat (e_start e)) ?t @ drop (unat (e_start e)) ?t)"
    using replace_zero_width [OF z, of ?t P] Cons.prems by (simp only: filter_append) simp
  with Cons replace_zero_width [OF z, of ?t P] show ?case by (auto intro: subseq_order.order_trans)
qed simp

text \<open>
  C6: The blank-line pass only adds line breaks: its edits apply, and the result is the text with one more line
  break per edit; and it adds them exactly where the policy wants one, once per place: after the one line break
  between two siblings that need a blank line between them.
\<close>

theorem blank_lines_where_wanted:
  assumes "valid_utf8 text" "length text < 2 ^ 32" "blank_line_edits text p = Some es"
  shows "(\<exists>out. apply_edits es text = Inr out \<and> subseq text out \<and> length out = length text + length es \<and>
       filter (\<lambda>c. c \<notin> {newline, carriage_return}) out = filter (\<lambda>c. c \<notin> {newline, carriage_return}) text) \<and>
     distinct (map e_start es) \<and>
     (\<lambda>e. unat (e_start e)) ` set es = {at. \<exists>pair \<in> set (sibling_pairs p). wanted text pair at}"
proof -
  from assms(3) obtain rs where rs: "map (blank_insert text) (sibling_pairs p) = map Some rs"
    and es: "es = keep_unseen {} (concat (map option_list rs))"
    by (auto simp: blank_line_edits_def those_Some)
  let ?all = "concat (map option_list rs)"
  have from_pair: "\<exists>pair \<in> set (sibling_pairs p). blank_insert text pair = Some (Some e)" if "e \<in> set ?all" for e
  proof -
    from that have "Some e \<in> set rs" by (auto simp: option_list_def split: option.splits)
    then have "Some (Some e) \<in> set (map (blank_insert text) (sibling_pairs p))" by (simp add: rs)
    then show ?thesis by (metis (mono_tags, lifting) imageE list.set_map)
  qed
  have fit: "e_end e = e_start e \<and> e_text e \<in> {[newline], [carriage_return]} \<and> fits text e \<and>
      (\<exists>pair \<in> set (sibling_pairs p). wanted text pair (unat (e_start e)))" if "e \<in> set ?all" for e
  proof -
    from from_pair [OF that] obtain a b where "(a, b) \<in> set (sibling_pairs p)" "blank_insert text (a, b) = Some (Some e)"
      by (metis surj_pair)
    with blank_insert_fits [OF assms(1,2) this(2)] show ?thesis by blast
  qed
  have sub: "set es \<subseteq> set ?all" using keep_unseen_props(1) es by blast
  have "\<forall>e \<in> set es. e_end e = e_start e" using fit sub by blast
  then have disj: "disjoint_edits es" by (auto simp: disjoint_edits_def sorted_wrt_nth_less overlaps_def)
  have out: "apply_edits es text = Inr (apply_back_to_front (apply_order es) text)"
    by (rule apply_edits_disjoint [OF disj]) (use fit sub in \<open>auto simp: wf_edit_def\<close>)
  have ok: "\<forall>e \<in> set (apply_order es). e_end e = e_start e \<and> length (e_text e) = 1 \<and>
      filter (\<lambda>c. c \<notin> {newline, carriage_return}) (e_text e) = []"
    using fit sub by fastforce
  have len: "length (apply_order es) = length es" by (metis mset_apply_order size_mset)
  have "at \<in> (\<lambda>e. unat (e_start e)) ` set ?all" if "pair \<in> set (sibling_pairs p)" "wanted text pair at" for pair at
  proof -
    from that(1) have "blank_insert text pair \<in> Some ` set rs"
      by (metis rs image_eqI list.set_map)
    then obtain r where r: "blank_insert text pair = Some r" "r \<in> set rs" by blast
    from wanted_insert [OF that(2) r(1) assms(2)] r(2) show ?thesis by (force simp: option_list_def)
  qed
  then have "(\<lambda>e. unat (e_start e)) ` set ?all = {at. \<exists>pair \<in> set (sibling_pairs p). wanted text pair at}"
    using fit by blast
  moreover have "e_start ` set es = e_start ` set ?all" using keep_unseen_props(3) [of "{}" ?all] es by simp
  then have "(\<lambda>e. unat (e_start e)) ` set es = (\<lambda>e. unat (e_start e)) ` set ?all"
    by (metis (no_types) image_image)
  ultimately show ?thesis
    using out inserts_only_add [OF ok, of "text"] len keep_unseen_props(2) [of "{}" ?all] es by simp
qed

definition sample_module :: program where
  "sample_module =
     \<lparr>pg_root = Node Root (Stmt Program) (0, 12)
        [Node Body (Stmt ImportDeclaration) (0, 10) [], Node Body (Stmt ExpressionStatement) (11, 12) []],
      pg_comments = []\<rparr>"

theorem blank_lines_where_wanted_witness:
  "blank_line_edits (''import abc'' @ newline # ''b'') sample_module = Some [insert_edit 11 [newline]] \<and>
   distinct (map e_start [insert_edit 11 [newline]])"
proof -
  let ?t = "''import abc'' @ newline # ''b''"
  have e: "blank_line_edits ?t sample_module = Some [insert_edit 11 [newline]]"
    by (simp add: blank_line_edits_def sibling_pairs_def sibling_lists_def sample_module_def map_filter_def
        sibling_list_def in_field_def blank_insert_def needs_blank_line_def is_fallthrough_def needs_blank_line_above_def
        statement_is_def is_vue_primitive_statement_def is_function_declaration_def is_binding_call_def is_loop_def
        is_loop_node_def is_method_member_def is_property_item_def is_type_declaration_def is_type_declaration_kind_def
        is_import_def sibling_span_def str_slice_def char_boundary_def continuation_byte_def span_def line_breaks_def
        to_u32_def option_list_def the_field_def)
  moreover have "valid_utf8 ?t" "length ?t < 2 ^ 32" by code_simp simp
  ultimately show ?thesis using blank_lines_where_wanted [of ?t sample_module] by blast
qed

end
