(* ===== verification/LinkChains.thy ===== *)
theory LinkChains imports
  Siblings
begin

text \<open>
  \<^verbatim>\<open>crates/ts/src/passes/fluent_chain.rs\<close>: every link of a chain of two or more calls on a line of its own. The
  map of the edits is a list in the order of insertion; what the code leaves to the order of a hash map is the
  order of edits with one start.
\<close>

section \<open>Model\<close>

text \<open>The gap between a call and the property of the next link.\<close>

record link =
  lk_start :: u32
  lk_end :: u32
  lk_optional :: bool

definition link_property :: "node \<Rightarrow> node option" where
  "link_property m =
     (if nd_kind m \<in> {Expr StaticMemberExpression, Expr PrivateFieldExpression} then the_field Property m else None)"

definition not_layout :: "char \<Rightarrow> bool" where
  "not_layout c \<longleftrightarrow> c \<notin> {CHR '' '', CHR 0x09, carriage_return, newline}"

text \<open>\<open>None\<close> is a slice that panics; \<open>Some None\<close> a gap the pass leaves alone.\<close>

definition link_between :: "string \<Rightarrow> comment_span list \<Rightarrow> node \<Rightarrow> node \<Rightarrow> link option option" where
  "link_between text cs m object =
     (case link_property m of
        None \<Rightarrow> Some None
      | Some p \<Rightarrow>
          if nd_start p \<le> nd_end object \<or> has_comment_between cs (nd_end object) (nd_start p) then Some None
          else (case str_slice text (unat (nd_end object)) (unat (nd_start p)) of
            None \<Rightarrow> None
          | Some gap \<Rightarrow>
              let operator = filter not_layout gap;
                  link = (\<lambda>optional. \<lparr>lk_start = nd_end object, lk_end = nd_start p, lk_optional = optional\<rparr>)
              in Some (if operator = ''.'' then Some (link False)
                       else if operator = ''?.'' then Some (link True) else None)))"

text \<open>The call and the member expression a call's callee is a link of.\<close>

definition inner_call :: "node \<Rightarrow> (node \<times> node) option" where
  "inner_call call =
     (case the_field Callee call of
        None \<Rightarrow> None
      | Some callee \<Rightarrow>
          (case chained_of callee of
             MemberNode m \<Rightarrow>
               (case the_field Object m of
                  None \<Rightarrow> None
                | Some object \<Rightarrow> (case chained_of object of CalledNode c \<Rightarrow> Some (m, c) | _ \<Rightarrow> None))
           | _ \<Rightarrow> None))"

lemma inner_call_size: "inner_call call = Some (m, c) \<Longrightarrow> size c < size call"
proof -
  assume "inner_call call = Some (m, c)"
  then obtain callee object where callee: "the_field Callee call = Some callee" "chained_of callee = MemberNode m"
    and object: "the_field Object m = Some object" "chained_of object = CalledNode c"
    by (auto simp: inner_call_def split: option.splits chained.splits)
  from chained_of_size [of callee] chained_of_size [of object] the_field_size [OF callee(1)] the_field_size [OF object(1)]
  show ?thesis by (simp add: callee(2) object(2))
qed

text \<open>The base of a chain and its links, outermost first.\<close>

function chain_from :: "string \<Rightarrow> comment_span list \<Rightarrow> node \<Rightarrow> (node \<times> link list) option option" where
  "chain_from text cs call =
     (case inner_call call of
        None \<Rightarrow> Some (Some (call, []))
      | Some (m, object) \<Rightarrow>
          (case link_between text cs m object of
             None \<Rightarrow> None
           | Some None \<Rightarrow> Some None
           | Some (Some link) \<Rightarrow>
               (case chain_from text cs object of
                  None \<Rightarrow> None
                | Some None \<Rightarrow> Some None
                | Some (Some (base, links)) \<Rightarrow> Some (Some (base, link # links)))))"
  by pat_completeness auto
termination
  by (relation "measure (\<lambda>(text, cs, call). size call)") (auto dest: inner_call_size)

declare chain_from.simps [simp del]

definition link_text :: "string \<Rightarrow> string \<Rightarrow> link \<Rightarrow> string" where
  "link_text text indent link =
     newline # indent @ indent_unit text @ (if lk_optional link then ''?.'' else ''.'')"

definition link_edits :: "string \<Rightarrow> node \<Rightarrow> link list \<Rightarrow> edit list" where
  "link_edits text base links =
     map (\<lambda>l. new_edit (lk_start l) (lk_end l) (link_text text (line_indent text (nd_start base)) l))
       (filter (\<lambda>l. span text (unat (lk_start l)) (unat (lk_end l)) \<noteq>
          link_text text (line_indent text (nd_start base)) l) links)"

definition call_edits :: "string \<Rightarrow> comment_span list \<Rightarrow> node \<Rightarrow> edit list option" where
  "call_edits text cs call =
     (case chain_from text cs call of
        None \<Rightarrow> None
      | Some None \<Rightarrow> Some []
      | Some (Some (base, links)) \<Rightarrow> Some (if length links < 2 then [] else link_edits text base links))"

text \<open>\<open>insert\<close> of the map: an edit of the same range is replaced.\<close>

fun put_edit :: "edit \<Rightarrow> edit list \<Rightarrow> edit list" where
  "put_edit e [] = [e]"
| "put_edit e (d # ds) = (if edit_range d = edit_range e then e # ds else d # put_edit e ds)"

definition fluent_chain_edits :: "string \<Rightarrow> program \<Rightarrow> edit list option" where
  "fluent_chain_edits text p =
     map_option (\<lambda>es. sort_key e_start (fold put_edit (concat es) []))
       (those (map (call_edits text (pg_comments p))
         (filter (\<lambda>n. nd_kind n = Expr CallExpression) (preorder (pg_root p)))))"

end
