(* ===== verification/ExpandCalls.thy ===== *)
theory ExpandCalls imports
  Siblings
begin

text \<open>
  \<^verbatim>\<open>crates/ts/src/passes/expanded_call.rs\<close>: the arguments of a plain call on lines of their own when one of them is
  a call, an object or an array. Spans of nodes are slices of the text, so taking them is total here.
\<close>

section \<open>Which calls\<close>

definition callee_through :: "node \<Rightarrow> chained option" where
  "callee_through call = map_option unwrap_expression (the_field Callee call)"

definition is_method_call :: "node \<Rightarrow> bool" where
  "is_method_call call = (case callee_through call of Some (MemberNode _) \<Rightarrow> True | _ \<Rightarrow> False)"

definition is_complex_argument :: "node \<Rightarrow> bool" where
  "is_complex_argument a \<longleftrightarrow>
     nd_kind a \<noteq> Expr SpreadElement \<and>
     (case unwrap_expression a of
        CalledNode _ \<Rightarrow> True
      | OtherNode n \<Rightarrow> nd_kind n \<in> {Expr ObjectExpression, Expr ArrayExpression}
      | _ \<Rightarrow> False)"

definition should_expand :: "node \<Rightarrow> bool" where
  "should_expand call \<longleftrightarrow> \<not> is_method_call call \<and> (\<exists>a \<in> set (in_field Arguments call). is_complex_argument a)"

text \<open>Every node with its ancestors, innermost first.\<close>

fun with_ancestors :: "node list \<Rightarrow> node \<Rightarrow> (node \<times> node list) list" where
  "with_ancestors up (Node f k s cs) =
     (Node f k s cs, up) # concat (map (with_ancestors (Node f k s cs # up)) cs)"

text \<open>
  A call inside an argument of the nearest call around it, when that call is not expanded itself, keeps its
  layout. Functions end the search.
\<close>

fun nested_in_unexpanded_argument :: "node \<Rightarrow> node list \<Rightarrow> bool" where
  "nested_in_unexpanded_argument call [] = False"
| "nested_in_unexpanded_argument call (a # up) =
     (case nd_kind a of
        Function _ _ _ \<Rightarrow> False
      | ArrowFunctionExpression _ \<Rightarrow> False
      | Expr CallExpression \<Rightarrow>
          (\<exists>x \<in> set (in_field Arguments a). nd_start x \<le> nd_start call \<and> nd_end call \<le> nd_end x) \<and> \<not> should_expand a
      | _ \<Rightarrow> nested_in_unexpanded_argument call up)"

definition expandable_calls :: "node \<Rightarrow> node list" where
  "expandable_calls root =
     map fst (filter (\<lambda>(n, up). nd_kind n = Expr CallExpression \<and> should_expand n \<and>
       \<not> nested_in_unexpanded_argument n up) (with_ancestors [] root))"

definition template_spans :: "node \<Rightarrow> span32 list" where
  "template_spans root = map nd_span (filter is_template (preorder root))"

section \<open>The new text\<close>

record expander =
  ex_text :: string
  ex_comments :: "comment_span list"
  ex_templates :: "span32 list"

definition argument_parens :: "expander \<Rightarrow> node \<Rightarrow> (u32 \<times> u32) option" where
  "argument_parens w call =
     (case callee_through call of
        None \<Rightarrow> None
      | Some c \<Rightarrow> call_parens (ex_text w) call (snd (chained_span c)))"

definition in_template :: "expander \<Rightarrow> nat \<Rightarrow> bool" where
  "in_template w offset \<longleftrightarrow> (\<exists>s \<in> set (ex_templates w). unat (fst s) < offset \<and> offset < unat (snd s))"

text \<open>The continuation lines of a node, each with the break before it, from where the first of them starts.\<close>

fun rebase_lines :: "expander \<Rightarrow> string \<Rightarrow> string \<Rightarrow> nat \<Rightarrow> string list \<Rightarrow> string" where
  "rebase_lines w from to_indent at [] = []"
| "rebase_lines w from to_indent at (l # ls) =
     newline #
       (if in_template w at then l
        else if trim_ws l = [] then []
        else case strip_prefix from l of
          Some rest \<Rightarrow> to_indent @ rest
        | None \<Rightarrow> l) @
     rebase_lines w from to_indent (at + length l + 1) ls"

definition rebase :: "expander \<Rightarrow> span32 \<Rightarrow> string \<Rightarrow> string" where
  "rebase w s to_indent =
     (let t = node_text (ex_text w) s;
          from = line_indent (ex_text w) (fst s)
      in if from = to_indent \<or> newline \<notin> set t then t
         else case split_on newline t of
           [] \<Rightarrow> []
         | l # ls \<Rightarrow> l @ rebase_lines w from to_indent (unat (fst s) + length l + 1) ls)"

text \<open>
  The parentheses with an argument per line; an argument that is itself expandable is expanded in turn. \<open>None\<close>
  leaves the call alone.
\<close>

function expanded_parens :: "expander \<Rightarrow> node \<Rightarrow> string \<Rightarrow> string option" where
  "expanded_parens w call indent =
     (case argument_parens w call of
        None \<Rightarrow> None
      | Some (opened, closed) \<Rightarrow>
          let args = in_field Arguments call in
          if args = [] \<or> has_comment_between (ex_comments w) opened closed \<or> \<not> should_expand call then None
          else
            let inner = indent @ indent_unit (ex_text w);
                written = map (\<lambda>a.
                  if nd_kind a = Expr CallExpression \<and> should_expand a then
                    (case (expanded_parens w a inner, argument_parens w a) of
                       (Some parens, Some (o1, _)) \<Rightarrow> span (ex_text w) (unat (nd_start a)) (unat o1) @ parens
                     | _ \<Rightarrow> rebase w (nd_span a) inner)
                  else rebase w (nd_span a) inner) args;
                trailing = (if nd_kind (last args) = Expr SpreadElement then [] else '','')
            in Some (''('' @ [newline] @ inner @ join_with ('','' @ [newline] @ inner) written @ trailing @
                 [newline] @ indent @ '')''))"
  by pat_completeness auto
termination
  by (relation "measure (\<lambda>(w, call, indent). size call)") (auto dest: in_field_size)

declare expanded_parens.simps [simp del]

definition expanded_call_edit :: "expander \<Rightarrow> node \<Rightarrow> edit option" where
  "expanded_call_edit w call =
     (case argument_parens w call of
        None \<Rightarrow> None
      | Some (opened, closed) \<Rightarrow>
          if has_comment_between (ex_comments w) opened closed then None
          else (case expanded_parens w call (line_indent (ex_text w) (nd_start call)) of
            None \<Rightarrow> None
          | Some replacement \<Rightarrow>
              if replacement = span (ex_text w) (unat opened) (unat closed + 1) then None
              else Some (new_edit opened (closed + 1) replacement)))"

definition expanded_call_edits :: "string \<Rightarrow> program \<Rightarrow> edit list" where
  "expanded_call_edits text p =
     (let w = \<lparr>ex_text = text, ex_comments = pg_comments p, ex_templates = template_spans (pg_root p)\<rparr>
      in retain_non_overlapping (List.map_filter (expanded_call_edit w) (expandable_calls (pg_root p))))"

end
