(* ===== verification/Drizzle.thy ===== *)
theory Drizzle imports
  Siblings
begin

text \<open>
  \<^verbatim>\<open>crates/ts/src/passes/drizzle\<close>: the arguments of Drizzle queries, one per line, in modules that import
  \<^verbatim>\<open>drizzle-orm\<close>. Spans of nodes are slices of the text, so taking them is total here.
\<close>

section \<open>Names\<close>

definition RECEIVERS :: "string list" where
  "RECEIVERS = [''db'', ''tx'']"

definition FORMAT_METHODS :: "string list" where
  "FORMAT_METHODS =
     [''$count'', ''as'', ''crossJoin'', ''except'', ''findFirst'', ''findMany'', ''fullJoin'', ''groupBy'', ''having'',
      ''innerJoin'', ''intersect'', ''leftJoin'', ''onConflictDoNothing'', ''onConflictDoUpdate'', ''orderBy'',
      ''returning'', ''rightJoin'', ''set'', ''union'', ''unionAll'', ''values'', ''where'']"

definition HELPERS :: "string list" where
  "HELPERS =
     [''and'', ''arrayContained'', ''arrayContains'', ''arrayOverlaps'', ''asc'', ''between'', ''desc'', ''eq'',
      ''exists'', ''gt'', ''gte'', ''ilike'', ''inArray'', ''isNotNull'', ''isNull'', ''like'', ''lt'', ''lte'', ''ne'',
      ''not'', ''notBetween'', ''notExists'', ''notIlike'', ''notInArray'', ''notLike'', ''or'', ''sql'']"

definition MULTILINE_HELPERS :: "string list" where
  "MULTILINE_HELPERS = [''and'', ''or'', ''not'', ''exists'', ''notExists'']"

definition OBJECT_KEYS :: "string list" where
  "OBJECT_KEYS =
     [''columns'', ''extras'', ''limit'', ''offset'', ''onUpdate'', ''orderBy'', ''set'', ''target'', ''targetWhere'',
      ''where'', ''with'']"

definition SET_OPERATIONS :: "string list" where
  "SET_OPERATIONS = [''except'', ''intersect'', ''union'', ''unionAll'']"

section \<open>Imports\<close>

text \<open>Local names with the exports they are bound to, the latest binding first, and the namespace imports.\<close>

record drizzle_imports =
  di_locals :: "(string \<times> string) list"
  di_namespaces :: "string list"

definition imported_name :: "node \<Rightarrow> string option" where
  "imported_name specifier =
     (case the_field Imported specifier of
        Some n \<Rightarrow>
          (case nd_kind n of
             Name k s \<Rightarrow> if k \<in> {IdentifierName, IdentifierReference} then Some s else None
           | _ \<Rightarrow> None)
      | None \<Rightarrow> None)"

definition add_specifier :: "node \<Rightarrow> drizzle_imports \<Rightarrow> drizzle_imports" where
  "add_specifier specifier di =
     (case Option.bind (the_field LocalField specifier) node_name of
        None \<Rightarrow> di
      | Some l \<Rightarrow>
          if nd_kind specifier = Stmt ImportSpecifier then
            (case imported_name specifier of
               Some s \<Rightarrow> di\<lparr>di_locals := (l, s) # di_locals di\<rparr>
             | None \<Rightarrow> di)
          else if nd_kind specifier = Stmt ImportNamespaceSpecifier then
            di\<lparr>di_namespaces := l # di_namespaces di\<rparr>
          else di)"

definition is_drizzle_import :: "node \<Rightarrow> bool" where
  "is_drizzle_import s \<longleftrightarrow>
     nd_kind s = Stmt ImportDeclaration \<and>
     (case the_field SourceField s of
        Some n \<Rightarrow> (case nd_kind n of Literal (StringLiteral v) \<Rightarrow> prefix ''drizzle-orm'' v | _ \<Rightarrow> False)
      | None \<Rightarrow> False)"

definition scan_imports :: "program \<Rightarrow> drizzle_imports" where
  "scan_imports p =
     fold add_specifier (concat (map (in_field Specifiers) (filter is_drizzle_import (in_field Body (pg_root p)))))
       \<lparr>di_locals = [], di_namespaces = []\<rparr>"

definition no_imports :: "drizzle_imports \<Rightarrow> bool" where
  "no_imports di \<longleftrightarrow> di_locals di = [] \<and> di_namespaces di = []"

definition local_import :: "drizzle_imports \<Rightarrow> string \<Rightarrow> string option" where
  "local_import di s = map_of (di_locals di) s"

section \<open>Which calls are queries\<close>

definition WHERE_METHODS :: "string list" where
  "WHERE_METHODS = [''where'', ''having'', ''$count'']"

definition JOIN_METHODS :: "string list" where
  "JOIN_METHODS = [''leftJoin'', ''rightJoin'', ''innerJoin'', ''fullJoin'', ''crossJoin'']"

definition MUTATION_METHODS :: "string list" where
  "MUTATION_METHODS = [''onConflictDoNothing'', ''onConflictDoUpdate'', ''returning'', ''set'', ''values'']"

definition STRUCTURAL_METHODS :: "string list" where
  "STRUCTURAL_METHODS = [''as'', ''except'', ''groupBy'', ''intersect'', ''orderBy'', ''union'', ''unionAll'']"

definition identifier_name :: "node \<Rightarrow> string option" where
  "identifier_name n = (case nd_kind n of Name IdentifierReference s \<Rightarrow> Some s | _ \<Rightarrow> None)"

text \<open>The Drizzle export an identifier or \<open>namespace.name\<close> refers to.\<close>

definition callee_name :: "drizzle_imports \<Rightarrow> chained \<Rightarrow> string option" where
  "callee_name di c =
     (case c of
        OtherNode n \<Rightarrow> Option.bind (identifier_name n) (local_import di)
      | MemberNode m \<Rightarrow>
          (case (static_property_name m, Option.bind (the_field Object m) identifier_name) of
             (Some property, Some object) \<Rightarrow> if object \<in> set (di_namespaces di) then Some property else None
           | _ \<Rightarrow> None)
      | _ \<Rightarrow> None)"

definition callee_of :: "node \<Rightarrow> chained option" where
  "callee_of call = map_option chained_of (the_field Callee call)"

definition called_in :: "drizzle_imports \<Rightarrow> string list \<Rightarrow> node \<Rightarrow> bool" where
  "called_in di names call =
     (case Option.bind (callee_of call) (callee_name di) of Some s \<Rightarrow> s \<in> set names | None \<Rightarrow> False)"

definition is_helper_call :: "drizzle_imports \<Rightarrow> node \<Rightarrow> bool" where
  "is_helper_call di call = called_in di HELPERS call"

definition is_set_operation :: "drizzle_imports \<Rightarrow> node \<Rightarrow> bool" where
  "is_set_operation di call = called_in di SET_OPERATIONS call"

lemma chained_of_member: "chained_of e = MemberNode m \<Longrightarrow> size m \<le> size e"
  using chained_of_size [of e] by simp

lemma chained_of_call: "chained_of e = CalledNode c \<Longrightarrow> size c \<le> size e"
  using chained_of_size [of e] by simp

lemma member_object_size:
  "chained_of e = MemberNode m \<Longrightarrow> the_field Object m = Some x \<Longrightarrow> size x < size e"
  by (blast intro: less_le_trans dest: chained_of_member the_field_size)

lemma called_member_size:
  assumes "chained_of e = CalledNode c" "the_field Callee c = Some f" "chained_of f = MemberNode m" "the_field Object m = Some x"
  shows "size x < size e"
  using member_object_size [OF assms(3,4)] the_field_size [OF assms(2)] chained_of_call [OF assms(1)] by linarith

lemma called_callee_size: "chained_of e = CalledNode c \<Longrightarrow> the_field Callee c = Some f \<Longrightarrow> size f < size e"
  by (blast intro: less_le_trans dest: chained_of_call the_field_size)

lemma grandchild_size: "p \<in> set (in_field f e) \<Longrightarrow> Some v = the_field g p \<Longrightarrow> size v < size e"
  by (metis in_field_size less_trans the_field_size)

function is_receiver :: "drizzle_imports \<Rightarrow> node \<Rightarrow> bool" where
  "is_receiver di e =
     (case chained_of e of
        OtherNode n \<Rightarrow> (case identifier_name n of Some s \<Rightarrow> s \<in> set RECEIVERS | None \<Rightarrow> False)
      | MemberNode m \<Rightarrow> (case the_field Object m of Some x \<Rightarrow> is_receiver di x | None \<Rightarrow> False)
      | CalledNode c \<Rightarrow>
          (case the_field Callee c of
             None \<Rightarrow> False
           | Some f \<Rightarrow>
               (case chained_of f of
                  OtherNode n \<Rightarrow> identifier_name n \<noteq> None \<and> is_set_operation di c
                | MemberNode m \<Rightarrow> (case the_field Object m of Some x \<Rightarrow> is_receiver di x | None \<Rightarrow> False)
                | _ \<Rightarrow> False))
      | _ \<Rightarrow> False)"
  by pat_completeness auto
termination
  by (relation "measure (\<lambda>(di, e). size e)") (auto intro: member_object_size called_member_size)

declare is_receiver.simps [simp del]

function has_query_member :: "node \<Rightarrow> bool" where
  "has_query_member e =
     (case chained_of e of
        MemberNode m \<Rightarrow>
          static_property_name m = Some ''query'' \<or>
          (case the_field Object m of Some x \<Rightarrow> has_query_member x | None \<Rightarrow> False)
      | CalledNode c \<Rightarrow> (case the_field Callee c of Some f \<Rightarrow> has_query_member f | None \<Rightarrow> False)
      | _ \<Rightarrow> False)"
  by pat_completeness auto
termination
  by (relation "measure size")
    (auto intro: member_object_size called_callee_size)

declare has_query_member.simps [simp del]

text \<open>The method a call calls and what it calls it on.\<close>

definition called_method :: "node \<Rightarrow> (string \<times> node) option" where
  "called_method call =
     (case callee_of call of
        Some (MemberNode m) \<Rightarrow>
          (case (static_property_name m, the_field Object m) of
             (Some s, Some x) \<Rightarrow> Some (s, x)
           | _ \<Rightarrow> None)
      | _ \<Rightarrow> None)"

definition is_query_method :: "drizzle_imports \<Rightarrow> node \<Rightarrow> bool" where
  "is_query_method di call =
     (case called_method call of Some (s, x) \<Rightarrow> s \<in> set FORMAT_METHODS \<and> is_receiver di x | None \<Rightarrow> False)"

definition is_relational_query :: "drizzle_imports \<Rightarrow> node \<Rightarrow> bool" where
  "is_relational_query di call =
     (case called_method call of
        Some (s, x) \<Rightarrow> s \<in> {''findMany'', ''findFirst''} \<and> has_query_member x \<and> is_receiver di x
      | None \<Rightarrow> False)"

text \<open>The identifier of a key, computed or not.\<close>

definition key_name :: "node \<Rightarrow> string option" where
  "key_name k =
     (case nd_kind k of
        Name t s \<Rightarrow> if t \<in> {IdentifierName, IdentifierReference} then Some s else None
      | _ \<Rightarrow> None)"

definition formats_property :: "node \<Rightarrow> bool" where
  "formats_property p =
     (case nd_kind p of
        ObjectProperty _ _ _ _ \<Rightarrow>
          (case the_field Value p of
             None \<Rightarrow> False
           | Some v \<Rightarrow>
               nd_kind v \<in> {Expr ObjectExpression, Expr ArrayExpression} \<or>
               nd_kind v = Expr CallExpression \<and>
               (case Option.bind (the_field Key p) key_name of Some s \<Rightarrow> s \<in> set OBJECT_KEYS | None \<Rightarrow> False))
      | _ \<Rightarrow> True)"

definition formats_object :: "node \<Rightarrow> bool" where
  "formats_object object \<longleftrightarrow>
     length (in_field Properties object) > 1 \<or> list_ex formats_property (in_field Properties object)"

definition formats_array :: "node \<Rightarrow> bool" where
  "formats_array array \<longleftrightarrow>
     length (in_field Elements array) > 1 \<or>
     list_ex (\<lambda>x. nd_kind x \<in> {Expr ObjectExpression, Expr CallExpression}) (in_field Elements array)"

definition is_complex_value :: "drizzle_imports \<Rightarrow> node \<Rightarrow> bool" where
  "is_complex_value di a =
     (if nd_kind a = Expr ObjectExpression then formats_object a
      else if nd_kind a = Expr ArrayExpression then formats_array a
      else nd_kind a = Expr CallExpression \<and> (is_helper_call di a \<or> is_set_operation di a \<or> is_query_method di a))"

definition is_structural_argument :: "drizzle_imports \<Rightarrow> node \<Rightarrow> bool" where
  "is_structural_argument di a \<longleftrightarrow>
     nd_kind a \<in> {Expr ObjectExpression, Expr ArrayExpression} \<or>
     nd_kind a = Expr CallExpression \<and> (is_set_operation di a \<or> is_query_method di a)"

definition formats_method_arguments :: "drizzle_imports \<Rightarrow> node \<Rightarrow> bool" where
  "formats_method_arguments di call =
     (let args = in_field Arguments call in
      if args = [] then False
      else if is_relational_query di call then
        list_ex (\<lambda>a. nd_kind a = Expr ObjectExpression \<and> formats_object a) args
      else case callee_of call of
        Some (MemberNode m) \<Rightarrow>
          (case static_property_name m of
             None \<Rightarrow> False
           | Some s \<Rightarrow>
               if s \<in> set WHERE_METHODS \<or> s \<in> set MUTATION_METHODS then list_ex (is_complex_value di) args
               else if s \<in> set JOIN_METHODS then length args > 1 \<and> list_ex (is_complex_value di) (tl args)
               else if s \<in> set STRUCTURAL_METHODS then length args > 1 \<or> list_ex (is_structural_argument di) args
               else length args > 1 \<and> list_ex (is_complex_value di) args)
      | _ \<Rightarrow> False)"

section \<open>The new text\<close>

record query_writer =
  qw_text :: string
  qw_comments :: "comment_span list"
  qw_imports :: drizzle_imports

definition commented :: "query_writer \<Rightarrow> node \<Rightarrow> bool" where
  "commented w n = has_comment_between (qw_comments w) (nd_start n) (nd_end n)"

definition source_of :: "query_writer \<Rightarrow> node \<Rightarrow> string" where
  "source_of w n = node_text (qw_text w) (nd_span n)"

text \<open>\<open><open>\n<item>,\n<item>,\n<indent><close>\<close> with the items one unit deeper.\<close>

definition write_list :: "query_writer \<Rightarrow> string \<Rightarrow> string \<Rightarrow> string list \<Rightarrow> string \<Rightarrow> string" where
  "write_list w opened closed items indent =
     opened @ concat (map (\<lambda>i. newline # indent @ indent_unit (qw_text w) @ i @ '','') items) @ newline # indent @ closed"

definition is_plain_property :: "node \<Rightarrow> bool" where
  "is_plain_property p =
     (case nd_kind p of
        ObjectProperty k meth shorthand computed \<Rightarrow> k = InitProperty \<and> \<not> meth \<and> \<not> shorthand \<and> \<not> computed
      | _ \<Rightarrow> False)"

definition callee_text :: "query_writer \<Rightarrow> node \<Rightarrow> string" where
  "callee_text w call =
     (case callee_of call of Some c \<Rightarrow> node_text (qw_text w) (chained_span c) | None \<Rightarrow> [])"

definition expands_helper :: "query_writer \<Rightarrow> node \<Rightarrow> bool" where
  "expands_helper w call =
     (if is_set_operation (qw_imports w) call then length (in_field Arguments call) \<ge> 2
      else is_helper_call (qw_imports w) call \<and> called_in (qw_imports w) MULTILINE_HELPERS call \<and>
        in_field Arguments call \<noteq> [])"

function write_node :: "query_writer \<Rightarrow> node \<Rightarrow> string \<Rightarrow> string" where
  "write_node w e indent =
     (let deeper = indent @ indent_unit (qw_text w) in
      case nd_kind e of
        Expr ObjectExpression \<Rightarrow>
          if \<not> formats_object e \<or> commented w e then source_of w e
          else if in_field Properties e = [] then ''{}''
          else write_list w ''{'' ''}''
            (map (\<lambda>p.
              if is_plain_property p then
                concat (map (source_of w) (option_list (the_field Key p))) @ '': '' @
                concat (map (\<lambda>v. write_node w v deeper) (option_list (the_field Value p)))
              else source_of w p) (in_field Properties e)) indent
      | Expr ArrayExpression \<Rightarrow>
          if \<not> formats_array e \<or> commented w e then source_of w e
          else if in_field Elements e = [] then ''[]''
          else write_list w ''['' '']''
            (map (\<lambda>x.
              if nd_kind x = Expr Elision then []
              else if nd_kind x = Expr SpreadElement then source_of w x
              else write_node w x deeper) (in_field Elements e)) indent
      | Expr CallExpression \<Rightarrow>
          if commented w e \<or> \<not> expands_helper w e then source_of w e
          else callee_text w e @ write_list w ''('' '')''
            (map (\<lambda>a. if nd_kind a = Expr SpreadElement then source_of w a else write_node w a deeper)
              (in_field Arguments e)) indent
      | _ \<Rightarrow> source_of w e)"
  by pat_completeness auto
termination
  by (relation "measure (\<lambda>(w, e, indent). size e)")
    (auto intro: in_field_size grandchild_size simp: option_list_def split: option.splits)

declare write_node.simps [simp del]

definition write_argument :: "query_writer \<Rightarrow> node \<Rightarrow> string \<Rightarrow> string" where
  "write_argument w a indent = (if nd_kind a = Expr SpreadElement then source_of w a else write_node w a indent)"

definition query_edit :: "query_writer \<Rightarrow> node \<Rightarrow> edit option" where
  "query_edit w call =
     (case callee_of call of
        None \<Rightarrow> None
      | Some c \<Rightarrow>
          (case call_parens (qw_text w) call (snd (chained_span c)) of
             None \<Rightarrow> None
           | Some (opened, closed) \<Rightarrow>
               if in_field Arguments call = [] \<or> has_comment_between (qw_comments w) opened closed then None
               else
                 let anchor = (case c of MemberNode m \<Rightarrow> fst (property_span m) | _ \<Rightarrow> nd_start call);
                     indent = line_indent (qw_text w) anchor;
                     replacement = write_list w ''('' '')''
                       (map (\<lambda>a. write_argument w a (indent @ indent_unit (qw_text w))) (in_field Arguments call)) indent
                 in if replacement = span (qw_text w) (unat opened) (unat closed + 1) then None
                    else Some (new_edit opened (closed + 1) replacement)))"

section \<open>The pass\<close>

definition is_eligible :: "drizzle_imports \<Rightarrow> node \<Rightarrow> bool" where
  "is_eligible di call \<longleftrightarrow>
     (if is_set_operation di call then length (in_field Arguments call) \<noteq> 1
      else (is_query_method di call \<or> is_relational_query di call) \<and> formats_method_arguments di call)"

definition drizzle_edits :: "string \<Rightarrow> program \<Rightarrow> edit list" where
  "drizzle_edits text p =
     (let di = scan_imports p;
          w = \<lparr>qw_text = text, qw_comments = pg_comments p, qw_imports = di\<rparr>
      in if no_imports di then []
         else retain_non_overlapping (List.map_filter (query_edit w)
           (filter (\<lambda>n. nd_kind n = Expr CallExpression \<and> is_eligible di n) (preorder (pg_root p)))))"

end
