(* ===== verification/Scores.thy ===== *)
theory Scores imports
  TsSyntax
  JsText
  Outcomes
begin

text \<open>
  \<^verbatim>\<open>crates/ts/src/complexity\<close>: the cyclomatic and cognitive complexity of every function of a script, in one
  walk with a stack of open functions. Which assignment operators are logical and which characters are upper
  case are facts of third-party code and arguments. The sums are 64-bit words.
\<close>

record scoring =
  sx_logical :: "u8 \<Rightarrow> bool"
  sx_upper :: "string \<Rightarrow> bool"

section \<open>Names\<close>

definition ANONYMOUS :: string where "ANONYMOUS = ''<anonymous>''"

datatype name_source =
  BindingSource node
| TargetSource node
| KeySource node string bool
| DefaultSource

definition joined :: "string \<Rightarrow> string \<Rightarrow> string" where
  "joined object property =
     (if object = [] then property else if property = [] then object else object @ ''.'' @ property)"

text \<open>\<open>write_expression\<close>, with \<open>write_member\<close> and \<open>write_private\<close>.\<close>

function expression_text :: "node \<Rightarrow> string" where
  "expression_text e =
     (let object = (case the_field Object e of Some x \<Rightarrow> expression_text x | None \<Rightarrow> [])
      in case nd_kind e of
        Name IdentifierReference s \<Rightarrow> s
      | Literal (StringLiteral v) \<Rightarrow> v
      | Expr StaticMemberExpression \<Rightarrow>
          joined object (case Option.bind (the_field Property e) node_name of Some s \<Rightarrow> s | None \<Rightarrow> [])
      | Expr ComputedMemberExpression \<Rightarrow>
          joined object (case the_field Property e of Some x \<Rightarrow> expression_text x | None \<Rightarrow> [])
      | Expr PrivateFieldExpression \<Rightarrow>
          joined object (''#'' @ (case Option.bind (the_field Property e) node_name of Some s \<Rightarrow> s | None \<Rightarrow> []))
      | _ \<Rightarrow> [])"
  by pat_completeness auto
termination
  by (relation "measure size") (auto intro: the_field_size)

declare expression_text.simps [simp del]

definition key_text :: "node \<Rightarrow> string" where
  "key_text k =
     (case nd_kind k of
        Name IdentifierName s \<Rightarrow> s
      | Name PrivateIdentifier s \<Rightarrow> ''#'' @ s
      | _ \<Rightarrow> expression_text k)"

definition target_text :: "node \<Rightarrow> string" where
  "target_text t = (case nd_kind t of Literal _ \<Rightarrow> [] | _ \<Rightarrow> expression_text t)"

fun render_name :: "string \<Rightarrow> name_source \<Rightarrow> string" where
  "render_name class_name (BindingSource b) = (case nd_kind b of Name BindingIdentifier s \<Rightarrow> s | _ \<Rightarrow> [])"
| "render_name class_name (TargetSource t) = target_text t"
| "render_name class_name (KeySource k accessor qualified) =
     (let out = accessor @ key_text k
      in if qualified \<and> out \<noteq> [] \<and> class_name \<noteq> [] then class_name @ ''.'' @ out else out)"
| "render_name class_name DefaultSource = ''default''"

fun method_accessor :: "method_kind \<Rightarrow> string" where
  "method_accessor GetMethod = ''get ''"
| "method_accessor SetMethod = ''set ''"
| "method_accessor _ = []"

fun property_accessor :: "property_kind \<Rightarrow> string" where
  "property_accessor GetProperty = ''get ''"
| "property_accessor SetProperty = ''set ''"
| "property_accessor InitProperty = []"

section \<open>Lines\<close>

record line_cursor =
  lc_offset :: nat
  lc_line :: u32

definition line_feeds_in :: "string \<Rightarrow> u32" where
  "line_feeds_in s = saturate_u32 (length (filter (\<lambda>c. c = newline) s))"

definition line_at :: "string \<Rightarrow> u32 \<Rightarrow> line_cursor \<Rightarrow> u32 \<times> line_cursor" where
  "line_at source offset lc =
     (let target = min (unat offset) (length source);
          line = (if lc_offset lc \<le> target then lc_line lc + line_feeds_in (span source (lc_offset lc) target)
                  else lc_line lc - line_feeds_in (span source target (lc_offset lc)))
      in (line, \<lparr>lc_offset = target, lc_line = line\<rparr>))"

section \<open>Order\<close>

definition ASCII_ORDER :: string where
  "ASCII_ORDER = '' _-,;:!?.'' @ [CHR 0x27, CHR 0x22] @ ''()[]{}@*/'' @ [CHR 0x5C] @ ''&#%`^+<=>|~$0123456789''"

fun position_of :: "char \<Rightarrow> string \<Rightarrow> nat option" where
  "position_of c [] = None"
| "position_of c (d # s) = (if d = c then Some 0 else map_option Suc (position_of c s))"

text \<open>The weight of a character, given as its UTF-8 bytes.\<close>

definition primary :: "string \<Rightarrow> nat" where
  "primary c =
     (let lowered = to_ascii_lowercase c; n = code_point lowered in
      if 97 \<le> n \<and> n \<le> 122 then 128 + n
      else case (case lowered of [b] \<Rightarrow> position_of b ASCII_ORDER | _ \<Rightarrow> None) of
        Some rank \<Rightarrow> rank
      | None \<Rightarrow> 256 + code_point c)"

definition collate_key :: "scoring \<Rightarrow> string \<Rightarrow> nat list \<times> bool list \<times> string" where
  "collate_key sx s = (map primary (str_chars s), map (sx_upper sx) (str_chars s), s)"

section \<open>The state of the walk\<close>

record draft =
  df_line :: u32
  df_cyclomatic :: u32
  df_cognitive :: u32
  df_named :: bool

record cost =
  co_flat :: u64
  co_weighted :: u64
  co_count :: u64

record open_function =
  of_draft :: nat
  of_owns :: bool
  of_base :: u64
  of_cyclomatic :: u32
  of_cost :: cost

text \<open>The innermost function and the innermost class come first; the latest key too.\<close>

record scorer =
  sr_lines :: line_cursor
  sr_drafts :: "draft list"
  sr_keys :: "(string \<times> nat) list"
  sr_frames :: "open_function list"
  sr_classes :: "string list"
  sr_depth :: u64

definition no_cost :: cost where
  "no_cost = \<lparr>co_flat = 0, co_weighted = 0, co_count = 0\<rparr>"

definition scorer_new :: scorer where
  "scorer_new =
     \<lparr>sr_lines = \<lparr>lc_offset = 0, lc_line = 1\<rparr>, sr_drafts = [], sr_keys = [], sr_frames = [], sr_classes = [], sr_depth = 0\<rparr>"

definition class_name :: "string list \<Rightarrow> string" where
  "class_name classes = (case classes of [] \<Rightarrow> [] | c # _ \<Rightarrow> c)"

definition render :: "string list \<Rightarrow> name_source option \<Rightarrow> string" where
  "render classes src = (case src of None \<Rightarrow> [] | Some s \<Rightarrow> render_name (class_name classes) s)"

text \<open>The keys, the drafts and the cursor are what opening a function changes.\<close>

type_synonym registry = "line_cursor \<times> draft list \<times> (string \<times> nat) list"

definition insert_draft :: "string \<Rightarrow> draft \<Rightarrow> registry \<Rightarrow> nat \<times> registry" where
  "insert_draft key d r = (case r of (lc, ds, keys) \<Rightarrow> (length ds, (lc, ds @ [d], (key, length ds) # keys)))"

definition new_draft :: "u32 \<Rightarrow> bool \<Rightarrow> draft" where
  "new_draft line named = \<lparr>df_line = line, df_cyclomatic = 0, df_cognitive = 0, df_named = named\<rparr>"

text \<open>Two same-named declarations on different lines are kept apart as \<open>name:line\<close>.\<close>

definition named_key :: "string \<Rightarrow> u32 \<Rightarrow> draft list \<Rightarrow> (string \<times> nat) list \<Rightarrow> string" where
  "named_key own line ds keys =
     (case map_of keys own of
        Some i \<Rightarrow> if df_named (ds ! i) \<and> df_line (ds ! i) \<noteq> line then own @ '':'' @ decimal (unat line) else own
      | None \<Rightarrow> own)"

definition resolve_named :: "string \<Rightarrow> u32 \<Rightarrow> string \<Rightarrow> registry \<Rightarrow> (nat \<times> bool) \<times> registry" where
  "resolve_named source start own r =
     (case r of (lc, ds, keys) \<Rightarrow>
        let (line, lc1) = line_at source start lc;
            key = named_key own line ds keys
        in case map_of keys key of
             Some i \<Rightarrow> ((i, False), (lc1, ds, keys))
           | None \<Rightarrow> (let (i, r1) = insert_draft key (new_draft line True) (lc1, ds, keys) in ((i, True), r1)))"

text \<open>An anonymous function reports under the function around it.\<close>

definition resolve_anonymous :: "string \<Rightarrow> u32 \<Rightarrow> nat option \<Rightarrow> registry \<Rightarrow> (nat \<times> bool) \<times> registry" where
  "resolve_anonymous source start owner r =
     (case owner of
        Some i \<Rightarrow> ((i, False), r)
      | None \<Rightarrow>
          (case r of (lc, ds, keys) \<Rightarrow>
             (case map_of keys ANONYMOUS of
                Some i \<Rightarrow> ((i, False), r)
              | None \<Rightarrow>
                  let (line, lc1) = line_at source start lc;
                      (i, r1) = insert_draft ANONYMOUS (new_draft line False) (lc1, ds, keys)
                  in ((i, False), r1))))"

definition resolve_key :: "string \<Rightarrow> u32 \<Rightarrow> string \<Rightarrow> nat option \<Rightarrow> registry \<Rightarrow> (nat \<times> bool) \<times> registry" where
  "resolve_key source start own owner r =
     (if own = [] then resolve_anonymous source start owner r else resolve_named source start own r)"

definition sr_registry :: "scorer \<Rightarrow> registry" where
  "sr_registry st = (sr_lines st, sr_drafts st, sr_keys st)"

definition open_function_at :: "string \<Rightarrow> u32 \<Rightarrow> string \<Rightarrow> scorer \<Rightarrow> scorer" where
  "open_function_at source start own st =
     (let owner = (case sr_frames st of [] \<Rightarrow> None | fr # _ \<Rightarrow> Some (of_draft fr));
          ((i, owns), (lc, ds, keys)) = resolve_key source start own owner (sr_registry st)
      in st\<lparr>sr_lines := lc, sr_drafts := ds, sr_keys := keys, sr_depth := sr_depth st + 1,
           sr_frames := \<lparr>of_draft = i, of_owns = owns, of_base = sr_depth st + 1, of_cyclomatic = 1, of_cost = no_cost\<rparr> #
             sr_frames st\<rparr>)"

definition settle_draft :: "u32 \<Rightarrow> u64 \<Rightarrow> bool \<Rightarrow> draft \<Rightarrow> draft" where
  "settle_draft cyclomatic cognitive owns d =
     d\<lparr>df_cyclomatic := max (df_cyclomatic d) cyclomatic,
       df_cognitive := (if owns then saturate_u32 (unat cognitive) else df_cognitive d)\<rparr>"

definition add_cost :: "cost \<Rightarrow> cost \<Rightarrow> cost" where
  "add_cost a b =
     \<lparr>co_flat = co_flat a + co_flat b, co_weighted = co_weighted a + co_weighted b, co_count = co_count a + co_count b\<rparr>"

definition change_top :: "(open_function \<Rightarrow> open_function) \<Rightarrow> scorer \<Rightarrow> scorer" where
  "change_top f st = (case sr_frames st of [] \<Rightarrow> st | fr # frames \<Rightarrow> st\<lparr>sr_frames := f fr # frames\<rparr>)"

definition close_function :: "scorer \<Rightarrow> scorer" where
  "close_function st =
     (case sr_frames st of
        [] \<Rightarrow> st
      | fr # frames \<Rightarrow>
          let c = of_cost fr;
              cognitive = co_flat c + co_weighted c - co_count c * of_base fr;
              st1 = st\<lparr>sr_frames := frames,
                sr_drafts := (sr_drafts st)[of_draft fr :=
                  settle_draft (of_cyclomatic fr) cognitive (of_owns fr) (sr_drafts st ! of_draft fr)]\<rparr>;
              st2 = change_top (\<lambda>parent. parent\<lparr>of_cost := add_cost (of_cost parent) c\<rparr>) st1
          in st2\<lparr>sr_depth := sr_depth st2 - 1\<rparr>)"

definition decision :: "scorer \<Rightarrow> scorer" where
  "decision st = change_top (\<lambda>fr. fr\<lparr>of_cyclomatic := of_cyclomatic fr + 1\<rparr>) st"

definition weighted :: "scorer \<Rightarrow> scorer" where
  "weighted st = change_top (\<lambda>fr. fr\<lparr>of_cost := (of_cost fr)\<lparr>
     co_weighted := co_weighted (of_cost fr) + (1 + sr_depth st), co_count := co_count (of_cost fr) + 1\<rparr>\<rparr>) st"

definition flat :: "u64 \<Rightarrow> scorer \<Rightarrow> scorer" where
  "flat n st = change_top (\<lambda>fr. fr\<lparr>of_cost := (of_cost fr)\<lparr>co_flat := co_flat (of_cost fr) + n\<rparr>\<rparr>) st"

section \<open>What a visit does\<close>

text \<open>
  The calls of a \<open>visit\<close> method, in its order: a branch point, an increment of one plus the depth, one that
  ignores depth, a visit (with the place of the name, when the method passes one), a visit one deeper.
\<close>

datatype action = Decision | Weighted | Flat nat | Visit node "name_source option" | Deeper node

definition visit_fields :: "field list \<Rightarrow> node \<Rightarrow> action list" where
  "visit_fields fs n = concat (map (\<lambda>f. map (\<lambda>c. Visit c None) (in_field f n)) fs)"

definition deeper_field :: "field \<Rightarrow> node \<Rightarrow> action list" where
  "deeper_field f n = map Deeper (in_field f n)"

definition named_field :: "field \<Rightarrow> node \<Rightarrow> name_source option \<Rightarrow> action list" where
  "named_field f n src = map (\<lambda>c. Visit c src) (option_list (the_field f n))"

definition key_source :: "node \<Rightarrow> string \<Rightarrow> bool \<Rightarrow> name_source option" where
  "key_source n accessor qualified = map_option (\<lambda>k. KeySource k accessor qualified) (the_field Key n)"

text \<open>\<open>if_chain\<close>: an \<open>if\<close> and its \<open>else\<close> ladder.\<close>

function if_actions :: "node \<Rightarrow> bool \<Rightarrow> action list" where
  "if_actions n leading =
     [Decision, if leading then Weighted else Flat 1] @ visit_fields [Test] n @ deeper_field Consequent n @
     (case the_field Alternate n of
        None \<Rightarrow> []
      | Some a \<Rightarrow> if nd_kind a = Stmt IfStatement then if_actions a False else [Flat 1, Deeper a])"
  by pat_completeness auto
termination
  by (relation "measure (\<lambda>(n, leading). size n)") (auto dest: the_field_size)

declare if_actions.simps [simp del]

text \<open>
  \<open>logical_chain\<close>: the calls, the operator of the run so far, and the runs. Only bare logical operands join the
  chain.
\<close>

definition logical_code :: "node \<Rightarrow> u8 option" where
  "logical_code n = (case nd_kind n of Operation LogicalExpression code \<Rightarrow> Some code | _ \<Rightarrow> None)"

function logical_operand :: "node \<Rightarrow> u8 option \<times> nat \<Rightarrow> action list \<times> u8 option \<times> nat" where
  "logical_operand n run =
     (case logical_code n of
        None \<Rightarrow> ([Visit n None], run)
      | Some code \<Rightarrow>
          (case (the_field LeftField n, the_field RightField n) of
             (Some l, Some r) \<Rightarrow>
               let (as, prev, runs) = logical_operand l run;
                   run1 = (if prev \<noteq> Some code then (Some code, runs + 1) else (prev, runs));
                   (bs, run2) = logical_operand r run1
               in (Decision # as @ bs, run2)
           | _ \<Rightarrow> ([], run)))"
  by pat_completeness auto
termination
  by (relation "measure (\<lambda>(n, run). size n)") (auto dest: the_field_size the_field_size [OF sym])

declare logical_operand.simps [simp del]

definition logical_actions :: "node \<Rightarrow> action list" where
  "logical_actions n = (case logical_operand n (None, 0) of (as, _, runs) \<Rightarrow> as @ [Flat runs])"

definition loop_fields :: "statement_type \<Rightarrow> field list" where
  "loop_fields t =
     (if t = ForStatement then [Init, Test, Update] else if t = ForInStatement then [LeftField, RightField] else [Test])"

definition statement_actions :: "statement_type \<Rightarrow> node \<Rightarrow> action list" where
  "statement_actions t n =
     (case t of
        IfStatement \<Rightarrow> if_actions n True
      | SwitchStatement \<Rightarrow> Weighted # visit_fields [Discriminant] n @ deeper_field Cases n
      | SwitchCase \<Rightarrow>
          (if the_field Test n \<noteq> None then [Decision] else []) @ map (\<lambda>c. Visit c None) (nd_children n)
      | ForStatement \<Rightarrow> [Decision, Weighted] @ visit_fields (loop_fields t) n @ deeper_field Body n
      | ForInStatement \<Rightarrow> [Decision, Weighted] @ visit_fields (loop_fields t) n @ deeper_field Body n
      | WhileStatement \<Rightarrow> [Decision, Weighted] @ visit_fields (loop_fields t) n @ deeper_field Body n
      | DoWhileStatement \<Rightarrow> [Decision, Weighted] @ deeper_field Body n @ visit_fields [Test] n
      | CatchClause \<Rightarrow> [Decision, Weighted] @ visit_fields [Param] n @ deeper_field Body n
      | BreakStatement \<Rightarrow> if the_field Label n \<noteq> None then [Flat 1] else []
      | ContinueStatement \<Rightarrow> if the_field Label n \<noteq> None then [Flat 1] else []
      | VariableDeclarator \<Rightarrow>
          visit_fields [Id, TypeAnnotation] n @ named_field Init n (map_option BindingSource (the_field Id n))
      | ExportDefaultDeclaration \<Rightarrow> named_field DeclarationField n (Some DefaultSource)
      | _ \<Rightarrow> map (\<lambda>c. Visit c None) (nd_children n))"

definition node_actions :: "scoring \<Rightarrow> node \<Rightarrow> action list" where
  "node_actions sx n =
     (case nd_kind n of
        Stmt t \<Rightarrow> statement_actions t n
      | ForOfStatement _ \<Rightarrow> [Decision, Weighted] @ visit_fields [LeftField, RightField] n @ deeper_field Body n
      | Expr ConditionalExpression \<Rightarrow>
          [Decision, Weighted] @ visit_fields [Test] n @ deeper_field Consequent n @ deeper_field Alternate n
      | Operation LogicalExpression _ \<Rightarrow> logical_actions n
      | Operation AssignmentExpression code \<Rightarrow>
          (if sx_logical sx code then [Decision] else []) @ visit_fields [LeftField] n @
          named_field RightField n (map_option TargetSource (the_field LeftField n))
      | MethodDefinition k _ _ abstract \<Rightarrow>
          visit_fields [Decorators, Key] n @
          named_field Value n (if abstract then None else key_source n (method_accessor k) True)
      | ObjectProperty k _ _ _ \<Rightarrow>
          visit_fields [Key] n @ named_field Value n (key_source n (property_accessor k) False)
      | PropertyDefinition _ _ abstract \<Rightarrow>
          visit_fields [Decorators, Key, TypeAnnotation] n @
          named_field Value n (if abstract then None else key_source n [] True)
      | _ \<Rightarrow> map (\<lambda>c. Visit c None) (nd_children n))"

text \<open>Every node an action visits is below the node.\<close>

fun action_node :: "action \<Rightarrow> node option" where
  "action_node (Visit c _) = Some c"
| "action_node (Deeper c) = Some c"
| "action_node _ = None"

lemma visit_fields_size: "a \<in> set (visit_fields fs n) \<Longrightarrow> action_node a = Some c \<Longrightarrow> size c < size n"
  by (auto simp: visit_fields_def in_field_size)

lemma deeper_field_size: "a \<in> set (deeper_field f n) \<Longrightarrow> action_node a = Some c \<Longrightarrow> size c < size n"
  by (auto simp: deeper_field_def in_field_size)

lemma named_field_size: "a \<in> set (named_field f n src) \<Longrightarrow> action_node a = Some c \<Longrightarrow> size c < size n"
  by (auto simp: named_field_def the_field_size)

lemma children_size: "a \<in> set (map (\<lambda>c. Visit c None) (nd_children n)) \<Longrightarrow> action_node a = Some c \<Longrightarrow> size c < size n"
  by (auto simp: child_size)

lemmas field_sizes = visit_fields_size deeper_field_size named_field_size children_size

lemma if_actions_size: "a \<in> set (if_actions n leading) \<Longrightarrow> action_node a = Some c \<Longrightarrow> size c < size n"
proof (induction n leading rule: if_actions.induct)
  case (1 n leading)
  show ?case
  proof (cases "the_field Alternate n")
    case None
    with 1(2,3) show ?thesis by (auto simp: if_actions.simps [of n] intro: field_sizes split: if_splits)
  next
    case (Some alt)
    note size = the_field_size [OF Some]
    show ?thesis
    proof (cases "nd_kind alt = Stmt IfStatement")
      case True
      with 1 Some size show ?thesis
        by (auto simp: if_actions.simps [of n] intro: field_sizes less_trans split: if_splits)
    next
      case False
      with 1(2,3) Some size show ?thesis
        by (auto simp: if_actions.simps [of n] intro: field_sizes split: if_splits)
    qed
  qed
qed

lemma logical_operand_size:
  "a \<in> set (fst (logical_operand n run)) \<Longrightarrow> action_node a = Some c \<Longrightarrow> size c \<le> size n"
proof (induction n run rule: logical_operand.induct)
  case (1 n run)
  show ?case
  proof (cases "logical_code n")
    case None
    with 1(3,4) show ?thesis by (simp add: logical_operand.simps [of n])
  next
    case (Some code)
    show ?thesis
    proof (cases "the_field LeftField n = None \<or> the_field RightField n = None")
      case True
      with 1(3) Some show ?thesis by (auto simp: logical_operand.simps [of n] split: option.splits)
    next
      case False
      then obtain l r where lr: "the_field LeftField n = Some l" "the_field RightField n = Some r" by auto
      obtain as prev runs where l: "logical_operand l run = (as, prev, runs)" by (cases "logical_operand l run")
      let ?run = "if prev \<noteq> Some code then (Some code, runs + 1) else (prev, runs)"
      obtain bs run2 where r: "logical_operand r ?run = (bs, run2)" by (cases "logical_operand r ?run")
      from 1(3) Some lr l r have "a = Decision \<or> a \<in> set as \<or> a \<in> set bs"
        by (auto simp: logical_operand.simps [of n] Let_def split: if_splits prod.splits)
      with 1(1) [OF Some refl lr(1,2)] 1(2) [OF Some refl lr(1,2) l [symmetric] refl refl, of ?run] 1(4) l r
        the_field_size [OF lr(1)] the_field_size [OF lr(2)]
      show ?thesis by fastforce
    qed
  qed
qed

lemma logical_actions_size:
  assumes "a \<in> set (logical_actions n)" "action_node a = Some c" "logical_code n = Some code"
  shows "size c < size n"
proof (cases "the_field LeftField n = None \<or> the_field RightField n = None")
  case True
  with assms show ?thesis by (auto simp: logical_actions_def logical_operand.simps [of n] split: option.splits)
next
  case False
  then obtain l r where lr: "the_field LeftField n = Some l" "the_field RightField n = Some r" by auto
  obtain as prev runs where l: "logical_operand l (None, 0) = (as, prev, runs)" by (cases "logical_operand l (None, 0)")
  let ?run = "if prev \<noteq> Some code then (Some code, runs + 1) else (prev, runs)"
  obtain bs run2 where r: "logical_operand r ?run = (bs, run2)" by (cases "logical_operand r ?run")
  from assms lr l r have "a \<in> set as \<or> a \<in> set bs"
    by (auto simp: logical_actions_def logical_operand.simps [of n] Let_def split: if_splits prod.splits)
  with logical_operand_size [of a l "(None, 0)" c] logical_operand_size [of a r ?run c] assms(2) l r
    the_field_size [OF lr(1)] the_field_size [OF lr(2)]
  show ?thesis by fastforce
qed

lemma node_actions_size: "a \<in> set (node_actions sx n) \<Longrightarrow> action_node a = Some c \<Longrightarrow> size c < size n"
proof -
  assume a: "a \<in> set (node_actions sx n)" "action_node a = Some c"
  have logical: "size c < size n" if "nd_kind n = Operation LogicalExpression code" "a \<in> set (logical_actions n)" for code
    using logical_actions_size [OF that(2) a(2), of code] that(1) by (simp add: logical_code_def)
  show ?thesis
  proof (cases "nd_kind n")
    case (Stmt t)
    with a show ?thesis
      by (cases t) (auto simp: node_actions_def statement_actions_def intro: field_sizes if_actions_size child_size
          split: if_splits)
  next
    case (Operation oper code)
    with a logical show ?thesis
      by (cases oper) (auto simp: node_actions_def intro: field_sizes child_size split: if_splits)
  next
    case (Expr x)
    with a show ?thesis
      by (cases x) (auto simp: node_actions_def intro: field_sizes child_size)
  qed (use a in \<open>auto simp: node_actions_def intro: field_sizes child_size split: if_splits\<close>)
qed

section \<open>The walk\<close>

text \<open>The functions v1 knew: declarations and expressions with a body, and arrows.\<close>

definition is_counted :: "node \<Rightarrow> bool" where
  "is_counted n =
     (case nd_kind n of
        Function t _ _ \<Rightarrow> t \<in> {FunctionDeclaration, FunctionExpression}
      | ArrowFunctionExpression _ \<Rightarrow> True
      | _ \<Rightarrow> False)"

definition is_class :: "node \<Rightarrow> bool" where
  "is_class n \<longleftrightarrow> nd_kind n = Stmt Class"

text \<open>The name of its own, which an arrow never has, or the one its place gives it.\<close>

definition own_name :: "string list \<Rightarrow> node \<Rightarrow> name_source option \<Rightarrow> string" where
  "own_name classes n src =
     (case Option.bind (the_field Id n) node_name of
        Some s \<Rightarrow> s
      | None \<Rightarrow> render classes src)"

fun enter_scope :: "string \<Rightarrow> node \<Rightarrow> name_source option \<Rightarrow> scorer \<Rightarrow> scorer" where
  "enter_scope source n src st =
     (if is_counted n then open_function_at source (nd_start n) (own_name (sr_classes st) n src) st
      else if is_class n then st\<lparr>sr_classes := own_name (sr_classes st) n src # sr_classes st\<rparr>
      else st)"

fun leave_scope :: "node \<Rightarrow> scorer \<Rightarrow> scorer" where
  "leave_scope n st =
     (if is_counted n then close_function st
      else if is_class n then st\<lparr>sr_classes := tl (sr_classes st)\<rparr>
      else st)"

function visit_scored :: "scoring \<Rightarrow> string \<Rightarrow> node \<Rightarrow> name_source option \<Rightarrow> scorer \<Rightarrow> scorer" where
  "visit_scored sx source n src st =
     leave_scope n
       (fold (\<lambda>a st. case a of
           Decision \<Rightarrow> decision st
         | Weighted \<Rightarrow> weighted st
         | Flat k \<Rightarrow> flat (of_nat k) st
         | Visit c s \<Rightarrow> visit_scored sx source c s st
         | Deeper c \<Rightarrow>
             (let st1 = visit_scored sx source c None (st\<lparr>sr_depth := sr_depth st + 1\<rparr>)
              in st1\<lparr>sr_depth := sr_depth st1 - 1\<rparr>))
         (node_actions sx n) (enter_scope source n src st))"
  by pat_completeness auto
termination
  by (relation "measure (\<lambda>(sx, source, n, src, st). size n)") (auto dest: node_actions_size)

declare visit_scored.simps [simp del]

definition key_score :: "string \<Rightarrow> draft list \<Rightarrow> string \<times> nat \<Rightarrow> complexity_score" where
  "key_score rel ds entry =
     (case entry of (name, i) \<Rightarrow>
        \<lparr>s_key = rel @ ''#'' @ name, s_name = name, s_line = df_line (ds ! i), s_cyclomatic = df_cyclomatic (ds ! i),
         s_cognitive = df_cognitive (ds ! i)\<rparr>)"

definition finish_scores :: "scoring \<Rightarrow> string \<Rightarrow> draft list \<Rightarrow> (string \<times> nat) list \<Rightarrow> complexity_score list" where
  "finish_scores sx rel ds keys =
     sort_key (\<lambda>s. (unat (s_line s), collate_key sx (s_name s))) (map (key_score rel ds) keys)"

definition score_program :: "scoring \<Rightarrow> string \<Rightarrow> program \<Rightarrow> string \<Rightarrow> complexity_score list" where
  "score_program sx rel p source =
     (let st = visit_scored sx source (pg_root p) None scorer_new
      in finish_scores sx rel (sr_drafts st) (sr_keys st))"

section \<open>The two metrics, walked apart\<close>

text \<open>
  The branch points and the cognitive cost of what is below a node, on a tree walk of their own: nested
  functions have branch points of their own, and are one deeper for the cost.
\<close>

function branch_points :: "scoring \<Rightarrow> node \<Rightarrow> nat" where
  "branch_points sx n =
     sum_list (map (\<lambda>a. case a of
         Decision \<Rightarrow> 1
       | Visit c _ \<Rightarrow> if is_counted c then 0 else branch_points sx c
       | Deeper c \<Rightarrow> if is_counted c then 0 else branch_points sx c
       | _ \<Rightarrow> 0) (node_actions sx n))"
  by pat_completeness auto
termination
  by (relation "measure (\<lambda>(sx, n). size n)") (auto dest: node_actions_size)

declare branch_points.simps [simp del]

function cognitive_cost :: "scoring \<Rightarrow> node \<Rightarrow> nat \<Rightarrow> nat" where
  "cognitive_cost sx n depth =
     sum_list (map (\<lambda>a. case a of
         Weighted \<Rightarrow> 1 + depth
       | Flat k \<Rightarrow> k
       | Visit c _ \<Rightarrow> cognitive_cost sx c (depth + of_bool (is_counted c))
       | Deeper c \<Rightarrow> cognitive_cost sx c (depth + 1 + of_bool (is_counted c))
       | _ \<Rightarrow> 0) (node_actions sx n))"
  by pat_completeness auto
termination
  by (relation "measure (\<lambda>(sx, n, depth). size n)") (auto dest: node_actions_size)

declare cognitive_cost.simps [simp del]

end
