(* ===== verification/ScoreFacts.thy ===== *)
theory ScoreFacts imports
  Scores
begin

text \<open>
  The one walk of the scorer against the two metrics computed on walks of their own: the stack of open functions
  with its absolute depths and its sums handed up gives each function exactly its branch points and its cost.
\<close>

section \<open>The walk without counters\<close>

text \<open>Names and keys as the walk assigns them; the scores of a function from the metrics of its subtree.\<close>

function rewalk ::
  "scoring \<Rightarrow> string \<Rightarrow> node \<Rightarrow> name_source option \<Rightarrow> nat option \<Rightarrow> string list \<Rightarrow> registry \<Rightarrow> registry" where
  "rewalk sx source n src owner classes r =
     (let scope = (if is_counted n then Some (resolve_key source (nd_start n) (own_name classes n src) owner r) else None);
          owner1 = (case scope of Some ((i, _), _) \<Rightarrow> Some i | None \<Rightarrow> owner);
          classes1 = (if scope = None \<and> is_class n then own_name classes n src # classes else classes);
          r1 = (case scope of Some (_, opened) \<Rightarrow> opened | None \<Rightarrow> r);
          r2 = fold (\<lambda>a r. case a of
                 Visit c s \<Rightarrow> rewalk sx source c s owner1 classes1 r
               | Deeper c \<Rightarrow> rewalk sx source c None owner1 classes1 r
               | _ \<Rightarrow> r) (node_actions sx n) r1
      in case scope of
           None \<Rightarrow> r2
         | Some ((i, owns), _) \<Rightarrow>
             (case r2 of (lc, ds, keys) \<Rightarrow>
               (lc, ds[i := settle_draft (of_nat (1 + branch_points sx n)) (of_nat (cognitive_cost sx n 0)) owns (ds ! i)],
                keys)))"
  by pat_completeness auto
termination
  by (relation "measure (\<lambda>(sx, source, n, src, owner, classes, r). size n)") (auto dest: node_actions_size)

declare rewalk.simps [simp del]

definition rewalk_scores :: "scoring \<Rightarrow> string \<Rightarrow> program \<Rightarrow> string \<Rightarrow> complexity_score list" where
  "rewalk_scores sx rel p source =
     (case rewalk sx source (pg_root p) None None [] (sr_registry scorer_new) of
        (lc, ds, keys) \<Rightarrow> finish_scores sx rel ds keys)"

section \<open>Sums\<close>

definition points_of :: "scoring \<Rightarrow> action \<Rightarrow> nat" where
  "points_of sx a = (case a of
       Decision \<Rightarrow> 1
     | Visit c _ \<Rightarrow> if is_counted c then 0 else branch_points sx c
     | Deeper c \<Rightarrow> if is_counted c then 0 else branch_points sx c
     | _ \<Rightarrow> 0)"

definition cost_of :: "scoring \<Rightarrow> nat \<Rightarrow> action \<Rightarrow> nat" where
  "cost_of sx depth a = (case a of
       Weighted \<Rightarrow> 1 + depth
     | Flat k \<Rightarrow> k
     | Visit c _ \<Rightarrow> cognitive_cost sx c (depth + of_bool (is_counted c))
     | Deeper c \<Rightarrow> cognitive_cost sx c (depth + 1 + of_bool (is_counted c))
     | _ \<Rightarrow> 0)"

function weighted_count :: "scoring \<Rightarrow> node \<Rightarrow> nat" where
  "weighted_count sx n =
     sum_list (map (\<lambda>a. case a of
         Weighted \<Rightarrow> 1
       | Visit c _ \<Rightarrow> weighted_count sx c
       | Deeper c \<Rightarrow> weighted_count sx c
       | _ \<Rightarrow> 0) (node_actions sx n))"
  by pat_completeness auto
termination
  by (relation "measure (\<lambda>(sx, n). size n)") (auto dest: node_actions_size)

declare weighted_count.simps [simp del]

definition count_of :: "scoring \<Rightarrow> action \<Rightarrow> nat" where
  "count_of sx a = (case a of
       Weighted \<Rightarrow> 1
     | Visit c _ \<Rightarrow> weighted_count sx c
     | Deeper c \<Rightarrow> weighted_count sx c
     | _ \<Rightarrow> 0)"

lemma sums_of_actions:
  "branch_points sx n = sum_list (map (points_of sx) (node_actions sx n))"
  "cognitive_cost sx n depth = sum_list (map (cost_of sx depth) (node_actions sx n))"
  "weighted_count sx n = sum_list (map (count_of sx) (node_actions sx n))"
  unfolding branch_points.simps [of sx n] cognitive_cost.simps [of sx n depth] weighted_count.simps [of sx n]
    points_of_def cost_of_def count_of_def by (rule refl)+

lemma sum_list_affine:
  fixes depth :: nat
  shows "\<forall>a \<in> set as. f depth a = f 0 a + g a * depth \<Longrightarrow>
    sum_list (map (f depth) as) = sum_list (map (f 0) as) + sum_list (map g as) * depth"
  by (induction as) (simp_all add: algebra_simps)

text \<open>One level deeper costs one more for every increment that depends on depth.\<close>

lemma cost_affine: "cognitive_cost sx n depth = cognitive_cost sx n 0 + weighted_count sx n * depth"
proof (induction n arbitrary: depth rule: measure_induct_rule [where f = size])
  case (less n)
  have "\<forall>a \<in> set (node_actions sx n). cost_of sx depth a = cost_of sx 0 a + count_of sx a * depth"
  proof
    fix a
    assume a: "a \<in> set (node_actions sx n)"
    have c: "cognitive_cost sx c d = cognitive_cost sx c 0 + weighted_count sx c * d" if "action_node a = Some c" for c d
      using less node_actions_size [OF a that] by blast
    show "cost_of sx depth a = cost_of sx 0 a + count_of sx a * depth"
    proof (cases a)
      case (Visit n1 s)
      with c [of n1 "depth + of_bool (is_counted n1)"] c [of n1 "of_bool (is_counted n1)"] show ?thesis
        by (simp add: cost_of_def count_of_def algebra_simps)
    next
      case (Deeper n1)
      with c [of n1 "depth + 1 + of_bool (is_counted n1)"] c [of n1 "1 + of_bool (is_counted n1)"] show ?thesis
        by (simp add: cost_of_def count_of_def algebra_simps)
    qed (simp_all add: cost_of_def count_of_def)
  qed
  then show ?case unfolding sums_of_actions by (rule sum_list_affine)
qed

section \<open>The stack of open functions\<close>

text \<open>What counts of an open function: the two sums of its cost enter its score together.\<close>

type_synonym view = "nat \<times> bool \<times> u64 \<times> u32 \<times> u64 \<times> u64"

definition view :: "open_function \<Rightarrow> view" where
  "view fr = (of_draft fr, of_owns fr, of_base fr, of_cyclomatic fr,
     co_flat (of_cost fr) + co_weighted (of_cost fr), co_count (of_cost fr))"

text \<open>The innermost function after branch points, cost at depth 0 and depth-weighted increments at a depth.\<close>

fun bump :: "nat \<Rightarrow> nat \<Rightarrow> nat \<Rightarrow> u64 \<Rightarrow> view list \<Rightarrow> view list" where
  "bump b s c depth [] = []"
| "bump b s c depth ((d, owns, base, points, spent, k) # vs) =
     (d, owns, base, points + of_nat b, spent + of_nat s + of_nat c * depth, k + of_nat c) # vs"

lemma bump_bump: "bump b1 s1 c1 depth (bump b s c depth vs) = bump (b + b1) (s + s1) (c + c1) depth vs"
  by (cases "(b, s, c, depth, vs)" rule: bump.cases) (simp_all add: algebra_simps)

lemma bump_deeper: "bump b s c (depth + 1) vs = bump b (s + c) c depth vs"
  by (cases "(b, s, c, depth, vs)" rule: bump.cases) (simp_all add: algebra_simps)

lemma bump_0 [simp]: "bump 0 0 0 depth vs = vs"
  by (cases "(0 :: nat, 0 :: nat, 0 :: nat, depth, vs)" rule: bump.cases) simp_all

definition views :: "scorer \<Rightarrow> view list" where
  "views st = map view (sr_frames st)"

definition owner_of :: "view list \<Rightarrow> nat option" where
  "owner_of vs = (case vs of [] \<Rightarrow> None | v # _ \<Rightarrow> Some (fst v))"

lemma owner_of_bump [simp]: "owner_of (bump b s c depth vs) = owner_of vs"
  by (cases "(b, s, c, depth, vs)" rule: bump.cases) (simp_all add: owner_of_def)

text \<open>A part of the walk that does to the keys what \<open>g\<close> does and adds the given counts to the innermost function.\<close>

definition walked :: "(nat option \<Rightarrow> string list \<Rightarrow> registry \<Rightarrow> registry) \<Rightarrow> nat \<Rightarrow> nat \<Rightarrow> nat \<Rightarrow> scorer \<Rightarrow> scorer \<Rightarrow> bool" where
  "walked g b s c st st1 \<longleftrightarrow>
     sr_registry st1 = g (owner_of (views st)) (sr_classes st) (sr_registry st) \<and>
     sr_classes st1 = sr_classes st \<and> sr_depth st1 = sr_depth st \<and>
     views st1 = bump b s c (sr_depth st) (views st)"

lemma walked_id: "walked (\<lambda>_ _ r. r) 0 0 0 st st"
  by (simp add: walked_def)

lemma walked_trans:
  "walked g b s c st st1 \<Longrightarrow> walked g1 b1 s1 c1 st1 st2 \<Longrightarrow>
     walked (\<lambda>owner classes r. g1 owner classes (g owner classes r)) (b + b1) (s + s1) (c + c1) st st2"
  by (simp add: walked_def bump_bump)

lemma walked_decision: "walked (\<lambda>_ _ r. r) 1 0 0 st (decision st)"
  by (cases "sr_frames st") (simp_all add: walked_def decision_def change_top_def views_def sr_registry_def view_def)

lemma walked_weighted: "walked (\<lambda>_ _ r. r) 0 1 1 st (weighted st)"
  by (cases "sr_frames st")
    (simp_all add: walked_def weighted_def change_top_def views_def sr_registry_def view_def algebra_simps)

lemma walked_flat: "walked (\<lambda>_ _ r. r) 0 k 0 st (flat (of_nat k) st)"
  by (cases "sr_frames st")
    (simp_all add: walked_def flat_def change_top_def views_def sr_registry_def view_def algebra_simps)

lemma walked_deeper:
  assumes "walked g b s c (st\<lparr>sr_depth := sr_depth st + 1\<rparr>) st1"
  shows "walked g b (s + c) c st (st1\<lparr>sr_depth := sr_depth st1 - 1\<rparr>)"
  using assms by (simp add: walked_def views_def sr_registry_def bump_deeper)

section \<open>Actions\<close>

definition act :: "scoring \<Rightarrow> string \<Rightarrow> action \<Rightarrow> scorer \<Rightarrow> scorer" where
  "act sx source a st =
     (case a of
        Decision \<Rightarrow> decision st
      | Weighted \<Rightarrow> weighted st
      | Flat k \<Rightarrow> flat (of_nat k) st
      | Visit c s \<Rightarrow> visit_scored sx source c s st
      | Deeper c \<Rightarrow>
          (let st1 = visit_scored sx source c None (st\<lparr>sr_depth := sr_depth st + 1\<rparr>)
           in st1\<lparr>sr_depth := sr_depth st1 - 1\<rparr>))"

definition react :: "scoring \<Rightarrow> string \<Rightarrow> action \<Rightarrow> nat option \<Rightarrow> string list \<Rightarrow> registry \<Rightarrow> registry" where
  "react sx source a owner classes r =
     (case a of
        Visit c s \<Rightarrow> rewalk sx source c s owner classes r
      | Deeper c \<Rightarrow> rewalk sx source c None owner classes r
      | _ \<Rightarrow> r)"

lemma visit_scored_act:
  "visit_scored sx source n src st =
     leave_scope n (fold (act sx source) (node_actions sx n) (enter_scope source n src st))"
  unfolding visit_scored.simps [of sx source n src st] act_def by (rule refl)

definition visits_like_rewalk :: "scoring \<Rightarrow> string \<Rightarrow> node \<Rightarrow> bool" where
  "visits_like_rewalk sx source n \<longleftrightarrow>
     (\<forall>src st. walked (rewalk sx source n src) (if is_counted n then 0 else branch_points sx n)
        (cognitive_cost sx n (of_bool (is_counted n))) (weighted_count sx n) st (visit_scored sx source n src st))"

lemma react_simps:
  "react sx source Decision = (\<lambda>_ _ r. r)" "react sx source Weighted = (\<lambda>_ _ r. r)"
  "react sx source (Flat k) = (\<lambda>_ _ r. r)" "react sx source (Visit c s) = rewalk sx source c s"
  "react sx source (Deeper c) = rewalk sx source c None"
  by (simp_all add: react_def fun_eq_iff)

lemma walked_act:
  assumes "\<forall>c. action_node a = Some c \<longrightarrow> visits_like_rewalk sx source c"
  shows "walked (react sx source a) (points_of sx a) (cost_of sx 0 a) (count_of sx a) st (act sx source a st)"
proof (cases a)
  case Decision
  with walked_decision [of st] show ?thesis by (simp add: act_def react_simps points_of_def cost_of_def count_of_def)
next
  case Weighted
  with walked_weighted [of st] show ?thesis by (simp add: act_def react_simps points_of_def cost_of_def count_of_def)
next
  case (Flat k)
  with walked_flat [of k st] show ?thesis by (simp add: act_def react_simps points_of_def cost_of_def count_of_def)
next
  case (Visit c s)
  with assms show ?thesis
    by (simp add: act_def react_simps points_of_def cost_of_def count_of_def visits_like_rewalk_def)
next
  case (Deeper c)
  let ?deeper = "st\<lparr>sr_depth := sr_depth st + 1\<rparr>"
  from assms Deeper have "walked (rewalk sx source c None) (if is_counted c then 0 else branch_points sx c)
      (cognitive_cost sx c (of_bool (is_counted c))) (weighted_count sx c) ?deeper (visit_scored sx source c None ?deeper)"
    by (simp add: visits_like_rewalk_def)
  note w = walked_deeper [OF this]
  have "cost_of sx 0 a = cognitive_cost sx c (of_bool (is_counted c)) + weighted_count sx c"
    using Deeper cost_affine [of sx c "of_bool (is_counted c)"] cost_affine [of sx c "1 + of_bool (is_counted c)"]
    by (simp add: cost_of_def algebra_simps)
  moreover have "points_of sx a = (if is_counted c then 0 else branch_points sx c)" "count_of sx a = weighted_count sx c"
    "react sx source a = rewalk sx source c None"
    using Deeper by (simp_all add: points_of_def count_of_def react_simps)
  moreover have "act sx source a st = (visit_scored sx source c None ?deeper)\<lparr>sr_depth :=
      sr_depth (visit_scored sx source c None ?deeper) - 1\<rparr>"
    using Deeper by (simp add: act_def Let_def)
  ultimately show ?thesis using w by simp
qed

lemma walked_fold:
  "\<forall>a \<in> set as. \<forall>c. action_node a = Some c \<longrightarrow> visits_like_rewalk sx source c \<Longrightarrow>
     walked (\<lambda>owner classes. fold (\<lambda>a. react sx source a owner classes) as) (sum_list (map (points_of sx) as))
       (sum_list (map (cost_of sx 0) as)) (sum_list (map (count_of sx) as)) st (fold (act sx source) as st)"
proof (induction as arbitrary: st)
  case (Cons a as)
  from walked_trans [OF walked_act [of a sx source st] Cons.IH [of "act sx source a st"]] Cons.prems
  show ?case by simp
qed (simp add: walked_id id_def)

section \<open>Functions\<close>

lemma close_function_top:
  assumes "views st = (d, owns, base, points, spent, k) # vs"
  shows "sr_lines (close_function st) = sr_lines st" "sr_keys (close_function st) = sr_keys st"
    "sr_drafts (close_function st) =
       (sr_drafts st)[d := settle_draft points (spent - k * base) owns (sr_drafts st ! d)]"
    "sr_classes (close_function st) = sr_classes st" "sr_depth (close_function st) = sr_depth st - 1"
    "views (close_function st) =
       (case vs of [] \<Rightarrow> [] | (d, owns, base, points, n, m) # ws \<Rightarrow> (d, owns, base, points, n + spent, m + k) # ws)"
proof -
  from assms obtain fr frames where f: "sr_frames st = fr # frames" "map view frames = vs"
    and v: "of_draft fr = d" "of_owns fr = owns" "of_base fr = base" "of_cyclomatic fr = points"
      "co_flat (of_cost fr) + co_weighted (of_cost fr) = spent" "co_count (of_cost fr) = k"
    by (auto simp: views_def view_def)
  show "sr_lines (close_function st) = sr_lines st" "sr_keys (close_function st) = sr_keys st"
    "sr_drafts (close_function st) =
       (sr_drafts st)[d := settle_draft points (spent - k * base) owns (sr_drafts st ! d)]"
    "sr_classes (close_function st) = sr_classes st" "sr_depth (close_function st) = sr_depth st - 1"
    using f v by (cases frames; simp add: close_function_def change_top_def Let_def)+
  show "views (close_function st) =
       (case vs of [] \<Rightarrow> [] | (d, owns, base, points, n, m) # ws \<Rightarrow> (d, owns, base, points, n + spent, m + k) # ws)"
  proof (cases frames)
    case Nil
    with f v show ?thesis by (simp add: close_function_def change_top_def Let_def views_def)
  next
    case (Cons parent rest)
    obtain d1 o1 b1 p1 n1 m1 where p: "view parent = (d1, o1, b1, p1, n1, m1)" by (metis prod.exhaust)
    with Cons f v show ?thesis
      by (auto simp: close_function_def change_top_def Let_def views_def view_def add_cost_def algebra_simps)
  qed
qed

lemma open_function_at_fields:
  assumes "resolve_key source start own (owner_of (views st)) (sr_registry st) = ((i, owns), r)"
  shows "sr_registry (open_function_at source start own st) = r"
    "sr_classes (open_function_at source start own st) = sr_classes st"
    "sr_depth (open_function_at source start own st) = sr_depth st + 1"
    "views (open_function_at source start own st) = (i, owns, sr_depth st + 1, 1, 0, 0) # views st"
proof -
  have "owner_of (views st) = (case sr_frames st of [] \<Rightarrow> None | fr # _ \<Rightarrow> Some (of_draft fr))"
    by (cases "sr_frames st") (simp_all add: views_def owner_of_def view_def)
  moreover obtain lc ds keys where "r = (lc, ds, keys)" by (metis prod.exhaust)
  ultimately have "open_function_at source start own st =
      st\<lparr>sr_lines := lc, sr_drafts := ds, sr_keys := keys, sr_depth := sr_depth st + 1,
        sr_frames := \<lparr>of_draft = i, of_owns = owns, of_base = sr_depth st + 1, of_cyclomatic = 1, of_cost = no_cost\<rparr> #
          sr_frames st\<rparr>" "r = (lc, ds, keys)"
    using assms by (simp_all add: open_function_at_def Let_def)
  then show "sr_registry (open_function_at source start own st) = r"
    "sr_classes (open_function_at source start own st) = sr_classes st"
    "sr_depth (open_function_at source start own st) = sr_depth st + 1"
    "views (open_function_at source start own st) = (i, owns, sr_depth st + 1, 1, 0, 0) # views st"
    by (simp_all add: sr_registry_def views_def view_def no_cost_def)
qed

lemma react_fun:
  "react sx source a owner classes = (\<lambda>r. case a of
       Visit c s \<Rightarrow> rewalk sx source c s owner classes r
     | Deeper c \<Rightarrow> rewalk sx source c None owner classes r
     | _ \<Rightarrow> r)"
  by (rule ext) (simp add: react_def)

lemma rewalk_react:
  "rewalk sx source n src owner classes r =
     (if is_counted n then
        (case resolve_key source (nd_start n) (own_name classes n src) owner r of ((i, owns), r1) \<Rightarrow>
          (case fold (\<lambda>a. react sx source a (Some i) classes) (node_actions sx n) r1 of (lc, ds, keys) \<Rightarrow>
            (lc, ds[i := settle_draft (of_nat (1 + branch_points sx n)) (of_nat (cognitive_cost sx n 0)) owns (ds ! i)],
             keys)))
      else fold (\<lambda>a. react sx source a owner (if is_class n then own_name classes n src # classes else classes))
             (node_actions sx n) r)"
proof (cases "is_counted n")
  case True
  obtain i owns r1 where res: "resolve_key source (nd_start n) (own_name classes n src) owner r = ((i, owns), r1)"
    by (metis prod.exhaust)
  show ?thesis
    by (simp only: rewalk.simps [of sx source n] True res if_True Let_def option.case prod.case react_fun option.distinct simp_thms if_False)
next
  case False
  show ?thesis
    by (simp only: rewalk.simps [of sx source n] False if_False Let_def option.case react_fun simp_thms)
qed

lemma visit_function_walked:
  assumes "\<forall>a \<in> set (node_actions sx n). \<forall>c. action_node a = Some c \<longrightarrow> visits_like_rewalk sx source c" "is_counted n"
  shows "walked (rewalk sx source n src) 0 (cognitive_cost sx n 1) (weighted_count sx n) st (visit_scored sx source n src st)"
proof -
  obtain i owns r where res: "resolve_key source (nd_start n) (own_name (sr_classes st) n src) (owner_of (views st))
      (sr_registry st) = ((i, owns), r)"
    by (metis prod.exhaust)
  let ?st0 = "open_function_at source (nd_start n) (own_name (sr_classes st) n src) st"
  let ?st1 = "fold (act sx source) (node_actions sx n) ?st0"
  note opened = open_function_at_fields [OF res]
  note inner = walked_fold [OF assms(1), of ?st0, folded sums_of_actions, unfolded walked_def opened, simplified]
  have visit: "visit_scored sx source n src st = close_function ?st1"
    using assms(2) by (simp add: visit_scored_act)
  have top: "views ?st1 = (i, owns, sr_depth st + 1, 1 + of_nat (branch_points sx n),
      of_nat (cognitive_cost sx n 0) + of_nat (weighted_count sx n) * (sr_depth st + 1), of_nat (weighted_count sx n)) # views st"
    using inner by simp
  note closed = close_function_top [OF top]
  obtain lc ds keys where f: "fold (\<lambda>a. react sx source a (Some i) (sr_classes st)) (node_actions sx n) r = (lc, ds, keys)"
    by (metis prod.exhaust)
  then have reg: "sr_lines ?st1 = lc" "sr_drafts ?st1 = ds" "sr_keys ?st1 = keys"
    using inner by (simp_all add: owner_of_def sr_registry_def)
  have "sr_registry (close_function ?st1) = rewalk sx source n src (owner_of (views st)) (sr_classes st) (sr_registry st)"
    using assms(2) res f by (simp add: rewalk_react sr_registry_def closed reg)
  moreover have "views (close_function ?st1) = bump 0 (cognitive_cost sx n 1) (weighted_count sx n) (sr_depth st) (views st)"
    unfolding closed(6) using cost_affine [of sx n 1]
    by (cases "views st") (auto simp: algebra_simps)
  ultimately show ?thesis
    using inner by (simp add: walked_def visit closed)
qed

lemma visit_other_walked:
  assumes "\<forall>a \<in> set (node_actions sx n). \<forall>c. action_node a = Some c \<longrightarrow> visits_like_rewalk sx source c" "\<not> is_counted n"
  shows "walked (rewalk sx source n src) (branch_points sx n) (cognitive_cost sx n 0) (weighted_count sx n) st
     (visit_scored sx source n src st)"
proof (cases "is_class n")
  case True
  let ?st0 = "st\<lparr>sr_classes := own_name (sr_classes st) n src # sr_classes st\<rparr>"
  have same: "views ?st0 = views st" "sr_registry ?st0 = sr_registry st"
    by (simp_all add: views_def sr_registry_def)
  note inner = walked_fold [OF assms(1), of ?st0, folded sums_of_actions, unfolded walked_def same, simplified]
  have "sr_registry (st1\<lparr>sr_classes := cs\<rparr>) = sr_registry st1" "views (st1\<lparr>sr_classes := cs\<rparr>) = views st1" for st1 cs
    by (simp_all add: sr_registry_def views_def)
  with inner assms(2) True show ?thesis
    by (simp add: walked_def visit_scored_act rewalk_react)
next
  case False
  with walked_fold [OF assms(1), of st, folded sums_of_actions] assms(2) show ?thesis
    by (simp add: walked_def visit_scored_act rewalk_react)
qed

theorem visit_is_rewalk: "visits_like_rewalk sx source n"
proof (induction n rule: measure_induct_rule [where f = size])
  case (less n)
  then have below: "\<forall>a \<in> set (node_actions sx n). \<forall>c. action_node a = Some c \<longrightarrow> visits_like_rewalk sx source c"
    by (blast intro: node_actions_size)
  show ?case
    unfolding visits_like_rewalk_def
    using visit_function_walked [OF below] visit_other_walked [OF below] by (cases "is_counted n") simp_all
qed

text \<open>
  C3: The scorer's one walk with a stack of open functions scores every function as walks of its own would: its
  cyclomatic number is one more than the branch points of its subtree outside nested functions, and its cognitive
  score the recursive cost of its subtree from depth 0, nested functions one deeper, folded into the same keys.
\<close>

theorem one_walk_scores_like_rewalks: "score_program sx rel p source = rewalk_scores sx rel p source"
proof -
  let ?st = "visit_scored sx source (pg_root p) None scorer_new"
  have "owner_of (views scorer_new) = None" "sr_classes scorer_new = []"
    by (simp_all add: scorer_new_def views_def owner_of_def)
  with visit_is_rewalk [of sx source "pg_root p"]
  have "sr_registry ?st = rewalk sx source (pg_root p) None None [] (sr_registry scorer_new)"
    by (simp add: visits_like_rewalk_def walked_def)
  then show ?thesis
    by (cases "sr_registry ?st") (simp add: score_program_def rewalk_scores_def sr_registry_def Let_def)
qed

end
