(* ===== verification/Reorders.thy ===== *)
theory Reorders imports
  Siblings
begin

text \<open>
  \<^verbatim>\<open>crates/ts/src/passes/body_wrap.rs\<close>, \<^verbatim>\<open>class_reorder.rs\<close> and \<^verbatim>\<open>declaration_reorder.rs\<close>: blocks around
  unbraced bodies, the order of class members, and the groups of imports and of consts. The span of a node is a
  slice of the text its tree was parsed from, so taking it is total here; a gap between nodes may be out of range
  or reversed, and then the slice panics, which is \<open>None\<close>.
\<close>

section \<open>Unbraced bodies\<close>

text \<open>The bodies \<open>enter_node\<close> tries to wrap; an \<open>else if\<close> is not one.\<close>

definition statement_bodies :: "node \<Rightarrow> node list" where
  "statement_bodies n =
     (case nd_kind n of
        Stmt IfStatement \<Rightarrow>
          option_list (the_field Consequent n) @
          filter (\<lambda>a. nd_kind a \<noteq> Stmt IfStatement) (option_list (the_field Alternate n))
      | Stmt t \<Rightarrow>
          if t \<in> {ForStatement, ForInStatement, WhileStatement, DoWhileStatement, WithStatement}
          then option_list (the_field Body n) else []
      | ForOfStatement _ \<Rightarrow> option_list (the_field Body n)
      | _ \<Rightarrow> [])"

definition wrap_body :: "string \<Rightarrow> u32 \<Rightarrow> node \<Rightarrow> edit list" where
  "wrap_body text owner_start body =
     (if nd_kind body = Stmt BlockStatement then []
      else
        let indent = line_indent text owner_start
        in [new_edit (nd_start body) (nd_end body)
              (''{'' @ [newline] @ indent @ indent_unit text @ node_text text (nd_span body) @ [newline] @ indent @ ''}'')])"

definition wrap_edits :: "string \<Rightarrow> node \<Rightarrow> edit list" where
  "wrap_edits text n = concat (map (wrap_body text (nd_start n)) (statement_bodies n))"

definition body_wrap_edits :: "string \<Rightarrow> program \<Rightarrow> edit list" where
  "body_wrap_edits text p = retain_non_overlapping (concat (map (wrap_edits text) (preorder (pg_root p))))"

section \<open>Class members\<close>

text \<open>Whether one of the gaps holds a comment; the first that does ends the search.\<close>

fun gaps_hold_comment :: "string \<Rightarrow> (u32 \<times> u32) list \<Rightarrow> bool option" where
  "gaps_hold_comment text [] = Some False"
| "gaps_hold_comment text ((a, b) # gaps) =
     (case str_slice text (unat a) (unat b) of
        None \<Rightarrow> None
      | Some gap \<Rightarrow> if contains_comment_opener gap then Some True else gaps_hold_comment text gaps)"

text \<open>A member without a terminating \<open>;\<close> or \<open>}\<close> would run into the next one.\<close>

definition HAZARDS :: "char list" where
  "HAZARDS = ''[(*<`+-/''"

definition continues_onto :: "string \<Rightarrow> string \<Rightarrow> bool" where
  "continues_onto previous following \<longleftrightarrow>
     \<not> (suffix '';'' previous \<or> suffix ''}'' previous) \<and>
     (case following of [] \<Rightarrow> False | b # _ \<Rightarrow> b \<in> set HAZARDS)"

text \<open>The places of the members in the order properties, constructors, methods; the sort is stable.\<close>

definition desired_order :: "node list \<Rightarrow> nat list" where
  "desired_order members = sort_key (\<lambda>i. classify (members ! i)) [0..<length members]"

definition member_gaps :: "node list \<Rightarrow> (u32 \<times> u32) list" where
  "member_gaps members = map (\<lambda>(a, b). (nd_end a, nd_start b)) (neighbours members)"

definition class_reorder :: "string \<Rightarrow> node \<Rightarrow> edit option option" where
  "class_reorder text body =
     (let members = in_field Body body;
          desired = desired_order members;
          inner_start = nd_start body + 1;
          inner_end = nd_end body - 1;
          first_start = nd_start (hd members);
          last_end = nd_end (last members)
      in if length members < 2 then Some None
         else if desired = [0..<length members] then Some None
         else case gaps_hold_comment text
                     ((inner_start, first_start) # member_gaps members @ [(last_end, inner_end)]) of
           None \<Rightarrow> None
         | Some True \<Rightarrow> Some None
         | Some False \<Rightarrow>
             (case rsplit_once newline (span text (unat inner_start) (unat first_start)) of
                None \<Rightarrow> Some None
              | Some (_, indent) \<Rightarrow>
                  let slices = map (\<lambda>i. node_text text (nd_span (members ! i))) desired;
                      separator = newline # indent
                  in if \<not> list_all is_blank indent then Some None
                     else if \<exists>(a, b) \<in> set (neighbours slices). continues_onto a b then Some None
                     else Some (Some (new_edit inner_start inner_end
                            (separator @ join_with separator slices @ span text (unat last_end) (unat inner_end))))))"

definition class_reorder_edits :: "string \<Rightarrow> program \<Rightarrow> edit list option" where
  "class_reorder_edits text p =
     map_option (\<lambda>es. retain_non_overlapping (concat (map option_list es)))
       (those (map (class_reorder text) (filter (\<lambda>n. nd_kind n = Stmt ClassBody) (preorder (pg_root p)))))"

section \<open>Imports and consts\<close>

function chunks_by :: "('a \<Rightarrow> bool) \<Rightarrow> 'a list \<Rightarrow> 'a list list" where
  "chunks_by P [] = []"
| "chunks_by P (x # xs) =
     (x # takeWhile (\<lambda>y. P y = P x) xs) # chunks_by P (dropWhile (\<lambda>y. P y = P x) xs)"
  by pat_completeness auto
termination
  by (relation "measure (\<lambda>(P, xs). length xs)") (auto simp: le_imp_less_Suc length_dropWhile_le)

text \<open>Maximal item_runs of two or more consecutive items that match.\<close>

definition item_runs :: "('a \<Rightarrow> bool) \<Rightarrow> 'a list \<Rightarrow> 'a list list" where
  "item_runs P xs = filter (\<lambda>run. length run > 1 \<and> P (hd run)) (chunks_by P xs)"

definition sibling_text :: "string \<Rightarrow> sibling \<Rightarrow> string" where
  "sibling_text text i = node_text text (sibling_span i)"

definition is_multiline :: "string \<Rightarrow> sibling \<Rightarrow> bool" where
  "is_multiline text i \<longleftrightarrow> newline \<in> set (sibling_text text i)"

text \<open>A gap that ends before it starts is not read.\<close>

definition sibling_gaps :: "sibling list \<Rightarrow> (u32 \<times> u32) list" where
  "sibling_gaps items =
     filter (\<lambda>(a, b). a < b)
       (map (\<lambda>(a, b). (snd (sibling_span a), fst (sibling_span b))) (neighbours items))"

definition reordered_group :: "string \<Rightarrow> sibling list \<Rightarrow> bool \<Rightarrow> sibling list" where
  "reordered_group text items can_reorder =
     (if can_reorder
      then filter (\<lambda>i. \<not> is_multiline text i) items @ filter (is_multiline text) items
      else items)"

definition placed_text :: "string \<Rightarrow> sibling \<Rightarrow> string" where
  "placed_text text i = line_indent text (fst (sibling_span i)) @ sibling_text text i"

fun write_group :: "string \<Rightarrow> sibling list \<Rightarrow> string" where
  "write_group text [] = []"
| "write_group text [a] = placed_text text a"
| "write_group text (a # b # is) =
     placed_text text a @
     (if is_multiline text a \<or> is_multiline text b then [newline, newline] else [newline]) @
     write_group text (b # is)"

definition group_edit :: "string \<Rightarrow> sibling list \<Rightarrow> bool \<Rightarrow> edit option option" where
  "group_edit text items can_reorder =
     (let multiline_count = length (filter (is_multiline text) items);
          first_start = fst (sibling_span (hd items));
          last_end = snd (sibling_span (last items));
          start = line_start_at text first_start;
          replacement = write_group text (reordered_group text items can_reorder)
      in case gaps_hold_comment text (sibling_gaps items) of
           None \<Rightarrow> None
         | Some True \<Rightarrow> Some None
         | Some False \<Rightarrow>
             if multiline_count = 0 \<or> multiline_count = length items then Some None
             else (case str_slice text (unat start) (unat first_start) of
               None \<Rightarrow> None
             | Some leading \<Rightarrow>
                 if \<not> list_all is_blank leading then Some None
                 else (case str_slice text (unat start) (unat last_end) of
                   None \<Rightarrow> None
                 | Some original \<Rightarrow>
                     Some (if replacement = original then None
                           else Some (new_edit start last_end replacement)))))"

text \<open>\<open>is_side_effect_free\<close>; a computed key is an expression, any other is not asked for.\<close>

function is_side_effect_free :: "node \<Rightarrow> bool" where
  "is_side_effect_free e =
     (case nd_kind e of
        ArrowFunctionExpression _ \<Rightarrow> True
      | Function t _ _ \<Rightarrow> t = FunctionExpression
      | Name k _ \<Rightarrow> k = IdentifierReference
      | Literal l \<Rightarrow>
          (case l of
             BooleanLiteral _ \<Rightarrow> True | NullLiteral \<Rightarrow> True | NumericLiteral _ \<Rightarrow> True | BigIntLiteral _ \<Rightarrow> True
           | RegExpLiteral _ _ \<Rightarrow> True | StringLiteral _ \<Rightarrow> True
           | _ \<Rightarrow> False)
      | Expr ArrayExpression \<Rightarrow>
          (\<forall>x \<in> set (in_field Elements e).
             nd_kind x = Expr Elision \<or> nd_kind x \<noteq> Expr SpreadElement \<and> is_side_effect_free x)
      | Expr ObjectExpression \<Rightarrow>
          (\<forall>x \<in> set (in_field Properties e).
             case nd_kind x of
               ObjectProperty _ _ _ computed \<Rightarrow>
                 (computed \<longrightarrow> (\<exists>k \<in> set (in_field Key x). is_side_effect_free k)) \<and>
                 (\<exists>v \<in> set (in_field Value x). is_side_effect_free v)
             | _ \<Rightarrow> (\<exists>a \<in> set (in_field ExpressionField x). is_side_effect_free a))
      | Expr TemplateLiteral \<Rightarrow> (\<forall>x \<in> set (in_field Expressions e). is_side_effect_free x)
      | _ \<Rightarrow> False)"
  by pat_completeness auto
termination
  by (relation "measure size") (auto dest!: in_field_size)

declare is_side_effect_free.simps [simp del]

definition binding_name :: "node \<Rightarrow> string option" where
  "binding_name declarator =
     (case the_field Id declarator of
        Some i \<Rightarrow> (case nd_kind i of Name BindingIdentifier s \<Rightarrow> Some s | _ \<Rightarrow> None)
      | None \<Rightarrow> None)"

definition sibling_declarators :: "sibling \<Rightarrow> node list option" where
  "sibling_declarators i =
     (case sibling_statement i of
        Some s \<Rightarrow> (case nd_kind s of VariableDeclaration _ \<Rightarrow> Some (in_field Declarations s) | _ \<Rightarrow> None)
      | None \<Rightarrow> None)"

definition is_safe_declarator :: "node \<Rightarrow> bool" where
  "is_safe_declarator d \<longleftrightarrow> binding_name d \<noteq> None \<and> list_all is_side_effect_free (option_list (the_field Init d))"

definition is_safe :: "sibling \<Rightarrow> bool" where
  "is_safe i = (case sibling_declarators i of None \<Rightarrow> False | Some ds \<Rightarrow> list_all is_safe_declarator ds)"

definition declared_names :: "sibling \<Rightarrow> string set" where
  "declared_names i = set (List.map_filter binding_name (concat (option_list (sibling_declarators i))))"

text \<open>Whether an identifier at or below the item has one of the names.\<close>

definition used_name :: "node \<Rightarrow> string option" where
  "used_name n =
     (case nd_kind n of
        Name k s \<Rightarrow> if k \<in> {IdentifierReference, IdentifierName, BindingIdentifier, LabelIdentifier} then Some s else None
      | _ \<Rightarrow> None)"

definition uses_any :: "sibling \<Rightarrow> string set \<Rightarrow> bool" where
  "uses_any i names =
     (\<exists>s \<in> set (option_list (sibling_statement i)). \<exists>n \<in> set (preorder s). \<exists>x \<in> set (option_list (used_name n)). x \<in> names)"

fun later_uses :: "string \<Rightarrow> sibling list \<Rightarrow> bool" where
  "later_uses text [] = False"
| "later_uses text (i # is) \<longleftrightarrow>
     is_multiline text i \<and> (\<exists>later \<in> set is. \<not> is_multiline text later \<and> uses_any later (declared_names i)) \<or>
     later_uses text is"

definition can_reorder_consts :: "string \<Rightarrow> sibling list \<Rightarrow> bool" where
  "can_reorder_consts text items \<longleftrightarrow> list_all is_safe items \<and> \<not> later_uses text items"

definition list_group_edits :: "string \<Rightarrow> sibling list \<Rightarrow> edit option option list" where
  "list_group_edits text items =
     map (\<lambda>items. group_edit text items True) (item_runs is_import items) @
     map (\<lambda>items. group_edit text items (can_reorder_consts text items)) (item_runs is_const items)"

definition declaration_reorder_edits :: "string \<Rightarrow> program \<Rightarrow> edit list option" where
  "declaration_reorder_edits text p =
     map_option (\<lambda>es. retain_non_overlapping (concat (map option_list es)))
       (those (concat (map (list_group_edits text) (sibling_lists (pg_root p)))))"

end
