(* ===== verification/ReorderFacts.thy ===== *)
theory ReorderFacts imports
  Reorders
begin

text \<open>
  What the reordering passes may move: class members by kind, in the order the fingerprint reads a class body in,
  and consts whose reordering leaves every use behind what it uses.
\<close>

section \<open>Class members\<close>

lemma map_nth_sort: "map ((!) xs) (sort_key (\<lambda>i. f (xs ! i)) is) = sort_key f (map ((!) xs) is)"
proof -
  have "map ((!) xs) (insort_key (\<lambda>i. f (xs ! i)) i js) = insort_key f (xs ! i) (map ((!) xs) js)" for i js
    by (induction js) simp_all
  then show ?thesis by (induction "is") simp_all
qed

text \<open>The members in their new order: the stable sort by kind.\<close>

lemma desired_members: "map ((!) ms) (desired_order ms) = sort_key classify ms"
  by (simp add: desired_order_def map_nth_sort map_nth)

lemma insort_key_mono_cong:
  "\<forall>x \<in> insert a (set xs). \<forall>y \<in> insert a (set xs). (f x \<le> f y) = (g x \<le> g y) \<Longrightarrow>
     insort_key f a xs = insort_key g a xs"
  by (induction xs) auto

lemma sort_key_mono_cong:
  "\<forall>x \<in> set xs. \<forall>y \<in> set xs. (f x \<le> f y) = (g x \<le> g y) \<Longrightarrow> sort_key f xs = sort_key g xs"
proof (induction xs)
  case (Cons a xs)
  then have "sort_key f xs = sort_key g xs" by simp
  with Cons.prems insort_key_mono_cong [of a "sort_key g xs" f g] show ?case by simp
qed simp

lemma member_class_rank:
  "classify_kind (nd_kind m) \<noteq> None \<Longrightarrow> unat (member_class (nd_kind m)) = member_rank (classify m) + 1"
  using classify_kind_classify [of m] by (cases "classify m") (auto simp: member_class_def)

text \<open>The fingerprint's order of the children of a class body is the order of this pass.\<close>

lemma fingerprint_order:
  assumes "\<forall>m \<in> set ms. classify_kind (nd_kind m) \<noteq> None"
  shows "sort_key (\<lambda>m. member_class (nd_kind m)) ms = sort_key classify ms"
proof (rule sort_key_mono_cong, intro ballI)
  fix a b
  assume "a \<in> set ms" "b \<in> set ms"
  with assms member_class_rank show "(member_class (nd_kind a) \<le> member_class (nd_kind b)) = (classify a \<le> classify b)"
    by (simp add: word_le_nat_alt less_eq_member_kind_def)
qed

lemma concat_join: "xs \<noteq> [] \<Longrightarrow> concat (map (\<lambda>x. sep @ x) xs) = sep @ join_with sep xs"
  by (induction sep xs rule: join_with.induct) simp_all

lemma class_reorder_Some:
  assumes "class_reorder text body = Some (Some e)"
  obtains pre indent where
    "desired_order (in_field Body body) \<noteq> [0..<length (in_field Body body)]"
    "e_text e = newline # indent @ join_with (newline # indent)
       (map (\<lambda>m. node_text text (nd_span m)) (sort_key classify (in_field Body body))) @
       span text (unat (nd_end (last (in_field Body body)))) (unat (nd_end body - 1))"
    "list_all is_blank indent"
    "rsplit_once newline (span text (unat (nd_start body + 1)) (unat (nd_start (hd (in_field Body body))))) = Some (pre, indent)"
    "e_start e = nd_start body + 1" "e_end e = nd_end body - 1"
    "gaps_hold_comment text ((nd_start body + 1, nd_start (hd (in_field Body body))) #
       member_gaps (in_field Body body) @ [(nd_end (last (in_field Body body)), nd_end body - 1)]) = Some False"
    "\<forall>(a, b) \<in> set (neighbours (map (\<lambda>m. node_text text (nd_span m)) (sort_key classify (in_field Body body)))).
       \<not> continues_onto a b"
    "in_field Body body \<noteq> []"
proof -
  let ?ms = "in_field Body body"
  have m: "map (\<lambda>i. node_text text (nd_span (?ms ! i))) (desired_order ?ms) =
      map (\<lambda>m. node_text text (nd_span m)) (sort_key classify ?ms)"
    unfolding desired_members [symmetric] by simp
  obtain pre indent where rs:
      "rsplit_once newline (span text (unat (nd_start body + 1)) (unat (nd_start (hd ?ms)))) = Some (pre, indent)"
    using assms by (auto simp: class_reorder_def Let_def split: if_splits option.splits bool.splits)
  with assms show thesis
    by (intro that [of indent pre]) (auto simp: class_reorder_def Let_def m new_edit_def split: if_splits option.splits bool.splits)
qed

lemma gaps_without_comments:
  "gaps_hold_comment text gaps = Some False \<Longrightarrow> (a, b) \<in> set gaps \<Longrightarrow>
     \<not> contains_comment_opener (span text (unat a) (unat b))"
  by (induction "text" gaps rule: gaps_hold_comment.induct)
    (auto simp: str_slice_Some_iff split: option.splits if_splits)

text \<open>
  C10: A class reorder only moves whole members: it replaces exactly what stands between the braces with every
  member's own text, each on a line of its own at the first member's indent, in the stable order properties,
  constructors, methods, which is the order the program's fingerprint reads class bodies in, and what stood behind
  the last member. It is proposed only when the members were not in that order, when no comment stands ahead of the
  first, between two, or behind the last of them, and when no member that ends in neither a semicolon nor a brace
  comes to stand ahead of one that starts with a punctuation mark of \<open>HAZARDS\<close>. Words that continue a member
  are not looked for (lemma \<open>getter_is_made\<close>).
\<close>

theorem class_members_are_sorted:
  assumes "class_reorder text body = Some (Some e)"
  shows "let members = in_field Body body; moved = sort_key classify members in
     mset moved = mset members \<and> sorted (map classify moved) \<and>
     (\<forall>k. filter (\<lambda>m. classify m = k) moved = filter (\<lambda>m. classify m = k) members) \<and>
     \<not> sorted (map classify members) \<and>
     ((\<forall>m \<in> set members. classify_kind (nd_kind m) \<noteq> None) \<longrightarrow>
       sort_key (\<lambda>m. member_class (nd_kind m)) members = moved) \<and>
     e_start e = nd_start body + 1 \<and> e_end e = nd_end body - 1 \<and>
     (\<exists>pre indent. list_all is_blank indent \<and>
       span text (unat (nd_start body + 1)) (unat (nd_start (hd members))) = pre @ newline # indent \<and>
       e_text e = concat (map (\<lambda>m. newline # indent @ node_text text (nd_span m)) moved) @
         span text (unat (nd_end (last members))) (unat (nd_end body - 1))) \<and>
     \<not> contains_comment_opener (span text (unat (nd_start body + 1)) (unat (nd_start (hd members)))) \<and>
     (\<forall>(a, b) \<in> set (neighbours members). \<not> contains_comment_opener (span text (unat (nd_end a)) (unat (nd_start b)))) \<and>
     \<not> contains_comment_opener (span text (unat (nd_end (last members))) (unat (nd_end body - 1))) \<and>
     (\<forall>(a, b) \<in> set (neighbours (map (\<lambda>m. node_text text (nd_span m)) moved)).
       suffix '';'' a \<or> suffix ''}'' a \<or> b = [] \<or> hd b \<notin> set HAZARDS)"
proof -
  let ?ms = "in_field Body body"
  from assms obtain pre indent where
    r: "desired_order ?ms \<noteq> [0..<length ?ms]" "list_all is_blank indent" "?ms \<noteq> []"
      "\<forall>(a, b) \<in> set (neighbours (map (\<lambda>m. node_text text (nd_span m)) (sort_key classify ?ms))). \<not> continues_onto a b"
    and pre: "rsplit_once newline (span text (unat (nd_start body + 1)) (unat (nd_start (hd ?ms)))) = Some (pre, indent)"
    and ends: "e_start e = nd_start body + 1" "e_end e = nd_end body - 1"
    and t: "e_text e = newline # indent @ join_with (newline # indent)
       (map (\<lambda>m. node_text text (nd_span m)) (sort_key classify ?ms)) @
       span text (unat (nd_end (last ?ms))) (unat (nd_end body - 1))"
    and g: "gaps_hold_comment text ((nd_start body + 1, nd_start (hd ?ms)) # member_gaps ?ms @
      [(nd_end (last ?ms), nd_end body - 1)]) = Some False"
    by (rule class_reorder_Some)
  have gaps: "\<forall>(a, b) \<in> set (neighbours ?ms). \<not> contains_comment_opener (span text (unat (nd_end a)) (unat (nd_start b)))"
  proof clarify
    fix a b
    assume "(a, b) \<in> set (neighbours ?ms)" "contains_comment_opener (span text (unat (nd_end a)) (unat (nd_start b)))"
    moreover from this(1) have "(nd_end a, nd_start b) \<in> set (member_gaps ?ms)" by (force simp: member_gaps_def)
    ultimately show False using gaps_without_comments [OF g, of "nd_end a" "nd_start b"] by simp
  qed
  have outer: "\<not> contains_comment_opener (span text (unat (nd_start body + 1)) (unat (nd_start (hd ?ms))))"
    "\<not> contains_comment_opener (span text (unat (nd_end (last ?ms))) (unat (nd_end body - 1)))"
    by (rule gaps_without_comments [OF g], simp)+
  have "suffix '';'' a \<or> suffix ''}'' a \<or> b = [] \<or> hd b \<notin> set HAZARDS" if "\<not> continues_onto a b" for a b
    using that by (cases b) (auto simp: continues_onto_def)
  with r(4) have apart: "\<forall>(a, b) \<in> set (neighbours (map (\<lambda>m. node_text text (nd_span m)) (sort_key classify ?ms))).
      suffix '';'' a \<or> suffix ''}'' a \<or> b = [] \<or> hd b \<notin> set HAZARDS" by blast
  have "map (\<lambda>i. classify (?ms ! i)) [0..<length ?ms] = map classify ?ms"
    by (rule nth_equalityI) simp_all
  then have "desired_order ?ms = [0..<length ?ms]" if "sorted (map classify ?ms)"
    unfolding desired_order_def using that by (intro sort_key_id_if_sorted) simp
  with r(1) have new: "\<not> sorted (map classify ?ms)" by blast
  have "map (\<lambda>m. node_text text (nd_span m)) (sort_key classify ?ms) \<noteq> []"
    using r(3) by (metis map_is_Nil_conv mset_sort mset_zero_iff)
  from concat_join [OF this, of "newline # indent"] t
  have "e_text e = concat (map (\<lambda>m. newline # indent @ node_text text (nd_span m)) (sort_key classify ?ms)) @
      span text (unat (nd_end (last ?ms))) (unat (nd_end body - 1))"
    by (simp add: comp_def)
  with r(2) pre have lines: "\<exists>pre indent. list_all is_blank indent \<and>
      span text (unat (nd_start body + 1)) (unat (nd_start (hd ?ms))) = pre @ newline # indent \<and>
      e_text e = concat (map (\<lambda>m. newline # indent @ node_text text (nd_span m)) (sort_key classify ?ms)) @
        span text (unat (nd_end (last ?ms))) (unat (nd_end body - 1))"
    unfolding rsplit_once_Some by blast
  show ?thesis
    unfolding Let_def
    by (intro conjI allI impI) (fact new ends lines gaps outer apart mset_sort sorted_sort_key sort_key_stable |
      erule fingerprint_order)+
qed

definition sample_class :: node where
  "sample_class =
     Node Body (Stmt ClassBody) (0, 17)
       [Node Body (MethodDefinition PlainMethod False False False) (3, 9) [],
        Node Body (PropertyDefinition False False False) (11, 15) []]"

abbreviation sample_class_text :: string where
  "sample_class_text \<equiv>
     ''{'' @ [newline, CHR 0x09] @ ''x() {}'' @ [newline, CHR 0x09] @ ''v=1;'' @ [newline] @ ''}''"

abbreviation sample_class_edit :: edit where
  "sample_class_edit \<equiv>
     new_edit 1 16 ([newline, CHR 0x09] @ ''v=1;'' @ [newline, CHR 0x09] @ ''x() {}'' @ [newline])"

lemmas evaluate_reorder =
  class_reorder_def in_field_def desired_order_def classify_def is_property_member_def less_eq_member_kind_def
  member_gaps_def str_slice_def char_boundary_def continuation_byte_def span_def contains_comment_opener_def
  contains_sub_def node_text_def is_blank_def continues_onto_def HAZARDS_def Let_def new_edit_def

lemma sample_class_moves: "class_reorder sample_class_text sample_class = Some (Some sample_class_edit)"
  by (simp add: sample_class_def evaluate_reorder upt_rec)

theorem class_members_are_sorted_witness:
  "class_reorder sample_class_text sample_class = Some (Some sample_class_edit) \<and>
   \<not> sorted (map classify (in_field Body sample_class)) \<and>
   sorted (map classify (sort_key classify (in_field Body sample_class)))"
  using class_members_are_sorted [OF sample_class_moves] sample_class_moves by (simp add: Let_def)

text \<open>
  A field without a value and without a semicolon: before a method, \<open>get\<close> makes it a getter. The hazard is a
  word, which \<open>continues_onto\<close> does not look for; the fingerprint then refuses the output.
\<close>

lemma getter_is_made:
  "class_reorder (''{'' @ [newline, CHR 0x09] @ ''x() {}'' @ [newline, CHR 0x09] @ ''get'' @ [newline] @ ''}'')
     (Node Body (Stmt ClassBody) (0, 16)
       [Node Body (MethodDefinition PlainMethod False False False) (3, 9) [],
        Node Body (PropertyDefinition False False False) (11, 14) []]) =
   Some (Some (new_edit 1 15 ([newline, CHR 0x09] @ ''get'' @ [newline, CHR 0x09] @ ''x() {}'' @ [newline])))"
  by (simp add: evaluate_reorder upt_rec)

section \<open>Consts\<close>

text \<open>One element before another in a list.\<close>

definition comes_before :: "'a list \<Rightarrow> 'a \<Rightarrow> 'a \<Rightarrow> bool" where
  "comes_before xs a b \<longleftrightarrow> (\<exists>us vs ws. xs = us @ a # vs @ b # ws)"

lemma comes_before_filter: "comes_before xs a b \<Longrightarrow> P a \<Longrightarrow> P b \<Longrightarrow> comes_before (filter P xs) a b"
  unfolding comes_before_def by (elim exE) (simp, blast)

lemma comes_before_mem: "comes_before xs a b \<Longrightarrow> a \<in> set xs \<and> b \<in> set xs"
  by (auto simp: comes_before_def)

lemma comes_before_left: "comes_before xs a b \<Longrightarrow> comes_before (xs @ ys) a b"
  unfolding comes_before_def by (metis append.assoc append_Cons)

lemma comes_before_right: "comes_before ys a b \<Longrightarrow> comes_before (xs @ ys) a b"
  unfolding comes_before_def by (metis append.assoc)

lemma comes_before_across: "a \<in> set xs \<Longrightarrow> b \<in> set ys \<Longrightarrow> comes_before (xs @ ys) a b"
  unfolding comes_before_def by (metis append.assoc append_Cons split_list)

lemma later_uses_iff:
  "later_uses text items \<longleftrightarrow>
     (\<exists>a b. comes_before items a b \<and> is_multiline text a \<and> \<not> is_multiline text b \<and> uses_any b (declared_names a))"
proof (induction items)
  case (Cons i items)
  have "comes_before (i # items) a b \<longleftrightarrow> a = i \<and> b \<in> set items \<or> comes_before items a b" for a b
  proof
    assume "comes_before (i # items) a b"
    then obtain us vs ws where "i # items = us @ a # vs @ b # ws" by (auto simp: comes_before_def)
    then show "a = i \<and> b \<in> set items \<or> comes_before items a b"
      by (cases us) (auto simp: comes_before_def)
  next
    assume "a = i \<and> b \<in> set items \<or> comes_before items a b"
    then show "comes_before (i # items) a b"
      using comes_before_across [of a "[i]" b items] comes_before_right [of items a b "[i]"] by auto
  qed
  with Cons show ?case by auto
qed (simp add: comes_before_def)

lemma reordered_mset: "mset (reordered_group text items c) = mset items"
  by (simp add: reordered_group_def)

lemma reordered_keeps:
  assumes "can_reorder_consts text items" "comes_before items a b" "uses_any b (declared_names a)"
  shows "comes_before (reordered_group text items True) a b"
proof -
  from assms have "\<not> (is_multiline text a \<and> \<not> is_multiline text b)"
    by (auto simp: can_reorder_consts_def later_uses_iff)
  then consider (singles) "\<not> is_multiline text a" "\<not> is_multiline text b"
    | (multis) "is_multiline text a" "is_multiline text b" | (across) "\<not> is_multiline text a" "is_multiline text b"
    by blast
  then show ?thesis
  proof cases
    case singles
    with assms(2) show ?thesis by (simp add: reordered_group_def comes_before_left comes_before_filter)
  next
    case multis
    with assms(2) show ?thesis by (simp add: reordered_group_def comes_before_right comes_before_filter)
  next
    case across
    with comes_before_mem [OF assms(2)] show ?thesis by (simp add: reordered_group_def comes_before_across)
  qed
qed

text \<open>
  C11: Regrouping a run of consts writes the very same declarations again, the single-line ones first when they may
  move, and moves none in front of a declaration before it whose name it uses; it never drops a comment between
  declarations, and replaces exactly the lines of the run.
\<close>

theorem consts_stay_behind_what_they_use:
  assumes "group_edit text items (can_reorder_consts text items) = Some (Some e)"
  shows "\<exists>order. e_text e = write_group text order \<and> mset order = mset items \<and>
     (can_reorder_consts text items \<longrightarrow>
       (\<exists>singles multis. order = singles @ multis \<and> (\<forall>i \<in> set singles. \<not> is_multiline text i) \<and>
         (\<forall>i \<in> set multis. is_multiline text i))) \<and>
     (\<forall>a b. comes_before items a b \<and> uses_any b (declared_names a) \<longrightarrow> comes_before order a b) \<and>
     (\<forall>(a, b) \<in> set (sibling_gaps items). \<not> contains_comment_opener (span text (unat a) (unat b))) \<and>
     e_start e = line_start_at text (fst (sibling_span (hd items))) \<and> e_end e = snd (sibling_span (last items))"
proof -
  let ?c = "can_reorder_consts text items"
  have e: "e_text e = write_group text (reordered_group text items ?c)"
      "e_start e = line_start_at text (fst (sibling_span (hd items)))" "e_end e = snd (sibling_span (last items))"
    and g: "gaps_hold_comment text (sibling_gaps items) = Some False"
    using assms by (auto simp: group_edit_def Let_def new_edit_def split: option.splits bool.splits if_splits)
  have "comes_before (reordered_group text items ?c) a b" if "comes_before items a b" "uses_any b (declared_names a)" for a b
    using that reordered_keeps [of "text" items a b] by (cases ?c) (simp_all add: reordered_group_def)
  moreover have "\<exists>singles multis. reordered_group text items ?c = singles @ multis \<and>
      (\<forall>i \<in> set singles. \<not> is_multiline text i) \<and> (\<forall>i \<in> set multis. is_multiline text i)" if ?c
    using that
    by (intro exI [of _ "filter (\<lambda>i. \<not> is_multiline text i) items"] exI [of _ "filter (is_multiline text) items"])
      (simp add: reordered_group_def)
  ultimately show ?thesis
    using e gaps_without_comments [OF g] reordered_mset [of "text" items ?c]
    by (intro exI [of _ "reordered_group text items ?c"]) auto
qed

definition sample_const :: "u32 \<Rightarrow> u32 \<Rightarrow> string \<Rightarrow> node \<Rightarrow> sibling" where
  "sample_const a b s init =
     StatementItem (Node Body (VariableDeclaration Const) (a, b)
       [Node Declarations (Stmt VariableDeclarator) (a, b) [Node Id (Name BindingIdentifier s) (a, b) [], init]])"

definition sample_consts :: "sibling list" where
  "sample_consts =
     [sample_const 0 15 ''a'' (Node Init (Expr ArrayExpression) (10, 14) []),
      sample_const 16 28 ''b'' (Node Init (Literal (NumericLiteral 1)) (26, 27) [])]"

abbreviation sample_consts_text :: string where
  "sample_consts_text \<equiv> ''const a = ['' @ [newline] @ ''1];'' @ [newline] @ ''const b = 1;''"

lemma sample_consts_may_move: "can_reorder_consts sample_consts_text sample_consts"
  by (simp add: can_reorder_consts_def sample_consts_def sample_const_def is_safe_def sibling_declarators_def in_field_def
      is_safe_declarator_def binding_name_def the_field_def option_list_def is_side_effect_free.simps uses_any_def
      declared_names_def used_name_def map_filter_def)

lemma sample_consts_edit:
  "group_edit sample_consts_text sample_consts True =
     Some (Some (new_edit 0 28 (''const b = 1;'' @ [newline, newline] @ ''const a = ['' @ [newline] @ ''1];'')))"
  by (simp add: group_edit_def sample_consts_def sample_const_def is_multiline_def sibling_text_def sibling_span_def
      node_text_def span_def reordered_group_def placed_text_def line_indent_def line_start_at_def to_u32_def
      sibling_gaps_def str_slice_def char_boundary_def continuation_byte_def contains_comment_opener_def contains_sub_def
      Let_def)

theorem consts_stay_behind_what_they_use_witness:
  "\<exists>order. ''const b = 1;'' @ [newline, newline] @ ''const a = ['' @ [newline] @ ''1];'' =
     write_group sample_consts_text order \<and> mset order = mset sample_consts"
  using consts_stay_behind_what_they_use [of sample_consts_text sample_consts] sample_consts_may_move sample_consts_edit
  by (fastforce simp: new_edit_def)

end
