(* ===== verification/ScriptParts.thy ===== *)
theory ScriptParts imports
  PipeFacts
  BlankLines
  Reorders
  LinkChains
  ExpandCalls
  Drizzle
  ScoreFacts
begin

text \<open>
  The passes and the scorer put into the pipeline (\<open>Pass::edits\<close> of \<^verbatim>\<open>crates/ts/src/passes/mod.rs\<close>), and why the
  edits of a pass never conflict.
\<close>

section \<open>The parts of the pipeline\<close>

fun script_edits :: "pass \<Rightarrow> string \<Rightarrow> program \<Rightarrow> edit list option" where
  "script_edits BodyWrap text p = Some (body_wrap_edits text p)"
| "script_edits ClassReorder text p = class_reorder_edits text p"
| "script_edits DeclarationReorder text p = declaration_reorder_edits text p"
| "script_edits BlankLine text p = blank_line_edits text p"
| "script_edits FluentChain text p = fluent_chain_edits text p"
| "script_edits DrizzleQuery text p = Some (drizzle_edits text p)"
| "script_edits ExpandedCall text p = Some (expanded_call_edits text p)"

definition script_parts :: "scoring \<Rightarrow> ts_parts" where
  "script_parts sx = \<lparr>tp_edits = script_edits, tp_score = (\<lambda>rel p source. score_program sx rel p source)\<rparr>"

section \<open>Nested spans\<close>

text \<open>
  What the passes rely on of a parsed tree: a child lies within its parent, two children with children of their
  own do not overlap, a member expression has its object and then its property, a chain wraps one expression.
\<close>

definition is_linked :: "kind \<Rightarrow> bool" where
  "is_linked k \<longleftrightarrow> k \<in> {Expr StaticMemberExpression, Expr PrivateFieldExpression}"

definition apart :: "node \<Rightarrow> node \<Rightarrow> bool" where
  "apart a b \<longleftrightarrow> nd_children a = [] \<or> nd_children b = [] \<or> nd_end a \<le> nd_start b \<or> nd_end b \<le> nd_start a"

definition is_member_pair :: "node list \<Rightarrow> bool" where
  "is_member_pair cs =
     (case cs of
        [object, property] \<Rightarrow>
          nd_field object = Object \<and> nd_field property = Property \<and> nd_children property = [] \<and>
          nd_end object \<le> nd_start property
      | _ \<Rightarrow> False)"

fun tidy :: "node \<Rightarrow> bool" where
  "tidy (Node f k s cs) \<longleftrightarrow>
     fst s \<le> snd s \<and>
     (\<forall>c \<in> set cs. tidy c \<and> fst s \<le> nd_start c \<and> nd_end c \<le> snd s) \<and>
     sorted_wrt apart cs \<and>
     (is_linked k \<longrightarrow> is_member_pair cs) \<and>
     (k = Expr ChainExpression \<longrightarrow> length cs = 1)"

lemma tidy_span: "tidy n \<Longrightarrow> nd_start n \<le> nd_end n"
  by (cases n) simp

lemma preorder_self [simp]: "n \<in> set (preorder n)"
  by (cases n) simp

lemma preorder_child: "c \<in> set (nd_children n) \<Longrightarrow> m \<in> set (preorder c) \<Longrightarrow> m \<in> set (preorder n)"
  by (cases n) auto

lemma preorder_cases:
  assumes "m \<in> set (preorder n)"
  obtains "m = n" | c where "c \<in> set (nd_children n)" "m \<in> set (preorder c)"
  using assms by (cases n) auto

lemma preorder_trans: "m \<in> set (preorder n) \<Longrightarrow> n \<in> set (preorder r) \<Longrightarrow> m \<in> set (preorder r)"
proof (induction r rule: measure_induct_rule [where f = size])
  case (less r)
  from less.prems(2) show ?case
  proof (cases rule: preorder_cases)
    case (2 c)
    with less.IH [OF child_size [OF 2(1)] less.prems(1)] show ?thesis by (blast intro: preorder_child)
  qed (use less.prems in simp)
qed

lemma the_field_preorder: "the_field f n = Some c \<Longrightarrow> c \<in> set (preorder n)"
  by (blast dest: the_field_child intro: preorder_child preorder_self)

lemma tidy_child: "tidy n \<Longrightarrow> c \<in> set (nd_children n) \<Longrightarrow> tidy c \<and> nd_start n \<le> nd_start c \<and> nd_end c \<le> nd_end n"
  by (cases n) simp

lemma tidy_within: "tidy n \<Longrightarrow> m \<in> set (preorder n) \<Longrightarrow> tidy m \<and> nd_start n \<le> nd_start m \<and> nd_end m \<le> nd_end n"
proof (induction n rule: measure_induct_rule [where f = size])
  case (less n)
  from less.prems(2) show ?case
  proof (cases rule: preorder_cases)
    case (2 c)
    with less.IH [OF child_size [OF 2(1)]] tidy_child [OF less.prems(1) 2(1)] show ?thesis by (meson order_trans)
  qed (use less.prems in simp)
qed

section \<open>Gaps of links\<close>

definition gap_of :: "node \<Rightarrow> (u32 \<times> u32) option" where
  "gap_of m =
     (case (link_property m, the_field Object m) of
        (Some p, Some object) \<Rightarrow>
          (case chained_of object of CalledNode c \<Rightarrow> Some (nd_end c, nd_start p) | _ \<Rightarrow> None)
      | _ \<Rightarrow> None)"

lemma gap_of_pair:
  assumes "tidy m" "gap_of m = Some (a, b)"
  obtains object property c where "nd_children m = [object, property]" "nd_children property = []"
    "chained_of object = CalledNode c" "a = nd_end c" "b = nd_start property"
    "\<forall>x \<in> set (preorder object). x \<in> set (preorder c) \<or> gap_of x = None" "nd_start object \<le> nd_start c"
    "nd_start c \<le> nd_end c" "nd_end c \<le> nd_end object" "nd_end object \<le> nd_start property"
proof -
  obtain f k s cs where m: "m = Node f k s cs" by (cases m)
  from assms obtain p object c where p: "link_property m = Some p" and ob: "the_field Object m = Some object"
    and c: "chained_of object = CalledNode c" "a = nd_end c" "b = nd_start p"
    by (auto simp: gap_of_def split: option.splits chained.splits)
  from p have "is_linked k" and fp: "the_field Property m = Some p"
    by (auto simp: link_property_def is_linked_def m split: if_splits)
  with assms(1) m obtain o1 p1 where cs: "cs = [o1, p1]" "nd_field o1 = Object" "nd_field p1 = Property"
      "nd_children p1 = []" "nd_end o1 \<le> nd_start p1"
    by (auto simp: is_member_pair_def split: list.splits)
  with m ob fp have eq: "o1 = object" "p1 = p" by (simp_all add: the_field_def in_field_def)
  from assms(1) m cs eq have tidy: "tidy object" by simp
  have inner: "object = c \<or> (nd_kind object = Expr ChainExpression \<and> the_field ExpressionField object = Some c)"
    using c(1) by (auto simp: chained_of_def split: if_splits option.splits)
  have "c \<in> set (preorder object)" using inner the_field_preorder [of ExpressionField object c] by auto
  from tidy_within [OF tidy this] have span: "tidy c" "nd_start object \<le> nd_start c" "nd_end c \<le> nd_end object" by simp_all
  have "\<forall>x \<in> set (preorder object). x \<in> set (preorder c) \<or> gap_of x = None"
  proof (cases "object = c")
    case False
    with inner have ch: "nd_kind object = Expr ChainExpression" "the_field ExpressionField object = Some c" by auto
    with tidy obtain only where only: "nd_children object = [only]"
      by (cases object) (auto simp: length_Suc_conv)
    with the_field_child [OF ch(2)] have "nd_children object = [c]" by simp
    moreover have "gap_of object = None" using ch(1) by (simp add: gap_of_def link_property_def)
    ultimately show ?thesis by (auto elim: preorder_cases)
  qed simp
  with that [of object p c] m cs eq c span tidy_span [OF span(1)] show thesis by simp
qed

lemma gap_within:
  assumes "tidy m" "gap_of m = Some (a, b)"
  shows "nd_start m \<le> a \<and> b \<le> nd_end m"
  using assms
proof (cases rule: gap_of_pair)
  case (1 object property c)
  from tidy_child [OF assms(1), of object] tidy_child [OF assms(1), of property] 1(1)
  have "nd_start m \<le> nd_start object" "tidy property" "nd_end property \<le> nd_end m" by simp_all
  with 1 tidy_span [of property] show ?thesis by (auto intro: order_trans)
qed

lemma leaf_no_gap: "tidy m \<Longrightarrow> nd_children m = [] \<Longrightarrow> gap_of m = None"
  by (cases "gap_of m") (auto elim: gap_of_pair)

abbreviation (input) gaps_apart :: "u32 \<times> u32 \<Rightarrow> u32 \<times> u32 \<Rightarrow> bool" where
  "gaps_apart g h \<equiv> g = h \<or> snd g \<le> fst h \<or> snd h \<le> fst g"

text \<open>The gaps of two links of a tree are the same or apart.\<close>

lemma gap_of_own:
  assumes "tidy n" "gap_of n = Some g" "c \<in> set (nd_children n)" "m \<in> set (preorder c)" "gap_of m = Some h"
  shows "snd h \<le> fst g"
proof -
  obtain a b where g: "g = (a, b)" by fastforce
  from assms(1) assms(2) [unfolded g] show ?thesis
  proof (cases rule: gap_of_pair)
    case (1 object property call)
    from assms(3) 1(1) have "c = object \<or> c = property" by auto
    then show ?thesis
    proof
      assume "c = property"
      with assms(4) 1(2) have "m = property" by (auto elim: preorder_cases)
      with leaf_no_gap [OF _ 1(2)] tidy_child [OF assms(1,3)] \<open>c = property\<close> assms(5) show ?thesis by simp
    next
      assume c: "c = object"
      with 1(6) assms(4,5) have m: "m \<in> set (preorder call)" by auto
      from tidy_child [OF assms(1,3)] c have "tidy object" by simp
      moreover have "call \<in> set (preorder object)"
        using 1(3) by (auto simp: chained_of_def split: if_splits option.splits intro: the_field_preorder)
      ultimately have "tidy call" using tidy_within by blast
      from tidy_within [OF this m] gap_within [of m] assms(5) 1(4) g
      show ?thesis by (cases h) (auto intro: order_trans)
    qed
  qed
qed

lemma gaps_of_tree:
  "tidy n \<Longrightarrow> m1 \<in> set (preorder n) \<Longrightarrow> m2 \<in> set (preorder n) \<Longrightarrow> gap_of m1 = Some g \<Longrightarrow> gap_of m2 = Some h \<Longrightarrow>
     gaps_apart g h"
proof (induction n rule: measure_induct_rule [where f = size])
  case (less n)
  from less.prems(2) show ?case
  proof (cases rule: preorder_cases)
    case 1
    from less.prems(3) show ?thesis
    proof (cases rule: preorder_cases)
      case (2 c)
      with gap_of_own [OF less.prems(1) _ 2, of g h] 1 less.prems show ?thesis by simp
    qed (use 1 less.prems in simp)
  next
    case c1: (2 c1)
    from less.prems(3) show ?thesis
    proof (cases rule: preorder_cases)
      case 1
      with gap_of_own [OF less.prems(1) _ c1, of h g] less.prems show ?thesis by simp
    next
      case c2: (2 c2)
      note t1 = tidy_child [OF less.prems(1) c1(1)] and t2 = tidy_child [OF less.prems(1) c2(1)]
      show ?thesis
      proof (cases "c1 = c2")
        case True
        with less.IH [OF child_size [OF c1(1)] _ c1(2) _ less.prems(4,5)] t1 c2(2) show ?thesis by simp
      next
        case False
        have apart: "sorted_wrt apart (nd_children n)" using less.prems(1) by (cases n) simp
        obtain i j where ij: "i < length (nd_children n)" "j < length (nd_children n)" "nd_children n ! i = c1"
            "nd_children n ! j = c2"
          using c1(1) c2(1) by (auto simp: in_set_conv_nth)
        with False have "apart c1 c2 \<or> apart c2 c1"
          using apart by (metis linorder_neqE_nat sorted_wrt_nth_less)
        then have "apart c1 c2" by (auto simp: apart_def)
        moreover have "nd_children c1 \<noteq> []" "nd_children c2 \<noteq> []"
          using leaf_no_gap c1(2) c2(2) t1 t2 less.prems(4,5) by (auto elim: preorder_cases)
        ultimately have "nd_end c1 \<le> nd_start c2 \<or> nd_end c2 \<le> nd_start c1" by (auto simp: apart_def)
        moreover have "nd_start c1 \<le> fst g \<and> snd g \<le> nd_end c1" "nd_start c2 \<le> fst h \<and> snd h \<le> nd_end c2"
          using tidy_within [of c1 m1] tidy_within [of c2 m2] gap_within [of m1] gap_within [of m2] t1 t2 c1(2) c2(2)
            less.prems(4,5) by (cases g; cases h; auto intro: order_trans)+
        ultimately show ?thesis by (meson order_trans)
      qed
    qed
  qed
qed

section \<open>Edits that never conflict\<close>

lemma normalize_sorted_wrt: "sorted_wrt P es \<Longrightarrow> sorted_wrt P (normalize_from s seen es)"
  by (induction s seen es rule: normalize_from.induct) (auto simp: normalize_from_set)

lemma disjoint_normalize: "disjoint_edits es \<Longrightarrow> disjoint_edits (normalize s es)"
  unfolding disjoint_edits_def normalize_def by (rule normalize_sorted_wrt)

lemma retain_disjoint: "disjoint_edits (retain_non_overlapping es)"
  unfolding retain_non_overlapping_def by (rule keep_free_disjoint) (simp add: disjoint_edits_def)

lemma inserts_disjoint: "\<forall>e \<in> set es. e_end e = e_start e \<Longrightarrow> disjoint_edits es"
  by (auto simp: disjoint_edits_def sorted_wrt_nth_less overlaps_def)

text \<open>Edits of the same range are one edit, two of different ranges are apart.\<close>

lemma apart_ranges_disjoint:
  assumes "distinct (map edit_range es)"
    and "\<And>a b. a \<in> set es \<Longrightarrow> b \<in> set es \<Longrightarrow> gaps_apart (e_start a, e_end a) (e_start b, e_end b)"
  shows "disjoint_edits es"
  using assms
proof (induction es)
  case (Cons e es)
  have "\<not> overlaps e b" if "b \<in> set es" for b
  proof -
    from Cons.prems(1) that have "edit_range b \<noteq> edit_range e" by (auto simp: image_iff)
    with Cons.prems(2) [of e b] that show ?thesis by (auto simp: edit_range_def overlaps_def)
  qed
  with Cons show ?case by (simp add: disjoint_edits_def)
qed (simp add: disjoint_edits_def)

lemma put_edit_set: "set (put_edit e es) \<subseteq> insert e (set es)"
  by (induction e es rule: put_edit.induct) auto

lemma put_edit_ranges: "edit_range ` set (put_edit e es) = insert (edit_range e) (edit_range ` set es)"
  by (induction e es rule: put_edit.induct) auto

lemma put_edit_distinct: "distinct (map edit_range es) \<Longrightarrow> distinct (map edit_range (put_edit e es))"
proof (induction e es rule: put_edit.induct)
  case (2 e d ds)
  then show ?case using put_edit_ranges [of e ds] by (auto simp: image_iff)
qed simp

lemma fold_put_edit:
  "set (fold put_edit es ds) \<subseteq> set es \<union> set ds"
  "distinct (map edit_range ds) \<Longrightarrow> distinct (map edit_range (fold put_edit es ds))"
proof (induction es arbitrary: ds)
  case (Cons e es)
  { case 1 show ?case using Cons.IH(1) [of "put_edit e ds"] put_edit_set [of e ds] by auto }
  { case 2 then show ?case using Cons.IH(2) put_edit_distinct by simp }
qed simp_all

section \<open>Fluent chains\<close>

lemma link_between_gap:
  assumes "link_between text cs m object = Some (Some l)" "the_field Object m = Some x" "chained_of x = CalledNode object"
  shows "gap_of m = Some (lk_start l, lk_end l)"
  using assms by (auto simp: link_between_def gap_of_def Let_def split: option.splits if_splits)

lemma inner_call_preorder:
  assumes "inner_call call = Some (m, c)"
  obtains x where "m \<in> set (preorder call)" "the_field Object m = Some x" "chained_of x = CalledNode c"
    "c \<in> set (preorder call)"
proof -
  from assms obtain callee x where callee: "the_field Callee call = Some callee" "chained_of callee = MemberNode m"
    and x: "the_field Object m = Some x" "chained_of x = CalledNode c"
    by (auto simp: inner_call_def split: option.splits chained.splits)
  have m: "m \<in> set (preorder callee)"
    using callee(2) by (auto simp: chained_of_def split: if_splits option.splits intro: the_field_preorder)
  have c: "c \<in> set (preorder x)"
    using x(2) by (auto simp: chained_of_def split: if_splits option.splits intro: the_field_preorder)
  from preorder_trans [OF m the_field_preorder [OF callee(1)]] have mc: "m \<in> set (preorder call)" .
  with preorder_trans [OF preorder_trans [OF c the_field_preorder [OF x(1)]] mc] that x show thesis by blast
qed

lemma chain_links_are_gaps:
  "chain_from text cs call = Some (Some (base, links)) \<Longrightarrow> call \<in> set (preorder root) \<Longrightarrow> l \<in> set links \<Longrightarrow>
     \<exists>m \<in> set (preorder root). gap_of m = Some (lk_start l, lk_end l)"
proof (induction "text" cs call arbitrary: links rule: chain_from.induct)
  case (1 "text" cs call)
  show ?case
  proof (cases "inner_call call")
    case None
    with 1 show ?thesis by (simp add: chain_from.simps [of "text" cs call])
  next
    case (Some mc)
    obtain m c where mc: "mc = (m, c)" by fastforce
    with Some "1.prems"(1) obtain k rest where k: "link_between text cs m c = Some (Some k)"
      and rest: "chain_from text cs c = Some (Some (base, rest))" "links = k # rest"
      by (auto simp: chain_from.simps [of "text" cs call] split: option.splits)
    from Some mc obtain x where x: "m \<in> set (preorder call)" "the_field Object m = Some x"
        "chained_of x = CalledNode c" "c \<in> set (preorder call)"
      by (auto elim: inner_call_preorder)
    show ?thesis
    proof (cases "l = k")
      case True
      with link_between_gap [OF k x(2,3)] preorder_trans [OF x(1) "1.prems"(2)] show ?thesis by blast
    next
      case False
      with "1.prems"(3) rest have "l \<in> set rest" by simp
      with "1.IH" [OF Some mc [symmetric] k refl rest(1) preorder_trans [OF x(4) "1.prems"(2)]] show ?thesis by blast
    qed
  qed
qed

lemma call_edits_gaps:
  assumes "call_edits text cs call = Some es" "call \<in> set (preorder root)" "e \<in> set es"
  shows "\<exists>m \<in> set (preorder root). gap_of m = Some (e_start e, e_end e)"
proof -
  from assms(1,3) obtain base links where "chain_from text cs call = Some (Some (base, links))"
    and e: "e \<in> set (link_edits text base links)"
    by (auto simp: call_edits_def split: option.splits if_splits)
  with chain_links_are_gaps [OF this(1) assms(2)] show ?thesis
    by (auto simp: link_edits_def new_edit_def)
qed

lemma fluent_chain_disjoint:
  assumes "tidy (pg_root p)" "fluent_chain_edits text p = Some es"
  shows "disjoint_edits es"
proof -
  obtain ess where ess: "map (call_edits text (pg_comments p))
      (filter (\<lambda>n. nd_kind n = Expr CallExpression) (preorder (pg_root p))) = map Some ess"
    and es: "es = sort_key e_start (fold put_edit (concat ess) [])"
    using assms(2) by (auto simp: fluent_chain_edits_def those_Some)
  have gap: "\<exists>m \<in> set (preorder (pg_root p)). gap_of m = Some (e_start e, e_end e)" if "e \<in> set es" for e
  proof -
    from that es fold_put_edit(1) [of "concat ess" "[]"] obtain fs where fs: "fs \<in> set ess" "e \<in> set fs" by auto
    then have "Some fs \<in> set (map (call_edits text (pg_comments p))
        (filter (\<lambda>n. nd_kind n = Expr CallExpression) (preorder (pg_root p))))" by (simp add: ess)
    then obtain call where "call_edits text (pg_comments p) call = Some fs" "call \<in> set (preorder (pg_root p))" by force
    from call_edits_gaps [OF this fs(2)] show ?thesis .
  qed
  have "disjoint_edits (fold put_edit (concat ess) [])"
  proof (rule apart_ranges_disjoint)
    show "distinct (map edit_range (fold put_edit (concat ess) []))" by (rule fold_put_edit(2)) simp
    fix a b assume "a \<in> set (fold put_edit (concat ess) [])" "b \<in> set (fold put_edit (concat ess) [])"
    with gap [of a] gap [of b] es obtain m n where "m \<in> set (preorder (pg_root p))" "n \<in> set (preorder (pg_root p))"
        "gap_of m = Some (e_start a, e_end a)" "gap_of n = Some (e_start b, e_end b)" by auto
    with gaps_of_tree [OF assms(1)] show "gaps_apart (e_start a, e_end a) (e_start b, e_end b)" by blast
  qed
  moreover have "mset es = mset (fold put_edit (concat ess) [])" by (simp add: es)
  ultimately show ?thesis
    unfolding disjoint_edits_def using sorted_wrt_mset_cong [of "\<lambda>a b. \<not> overlaps a b"] overlaps_sym by metis
qed

section \<open>The claim\<close>

lemma blank_insert_zero_width: "blank_insert text pair = Some (Some e) \<Longrightarrow> e_end e = e_start e"
  by (cases pair)
    (auto simp: blank_insert_def Let_def insert_edit_def new_edit_def split: if_splits option.splits list.splits)

lemma blank_line_disjoint:
  assumes "blank_line_edits text p = Some es"
  shows "disjoint_edits es"
proof (rule inserts_disjoint, rule ballI)
  fix e assume e: "e \<in> set es"
  obtain rs where rs: "map (blank_insert text) (sibling_pairs p) = map Some rs"
    and es: "es = keep_unseen {} (concat (map option_list rs))"
    using assms by (auto simp: blank_line_edits_def those_Some)
  from e es keep_unseen_props(1) have "e \<in> set (concat (map option_list rs))" by blast
  then have "Some e \<in> set rs" by (auto simp: option_list_def split: option.splits)
  then have "Some (Some e) \<in> set (map (blank_insert text) (sibling_pairs p))" by (simp add: rs)
  then obtain pair where "blank_insert text pair = Some (Some e)" by force
  then show "e_end e = e_start e" by (rule blank_insert_zero_width)
qed

lemma script_edits_disjoint:
  assumes "tidy (pg_root prog)" "script_edits p text prog = Some es"
  shows "disjoint_edits es"
proof (cases p)
  case BodyWrap
  with assms(2) show ?thesis by (auto simp: body_wrap_edits_def retain_disjoint)
next
  case ClassReorder
  with assms(2) show ?thesis by (auto simp: class_reorder_edits_def retain_disjoint)
next
  case DeclarationReorder
  with assms(2) show ?thesis by (auto simp: declaration_reorder_edits_def retain_disjoint)
next
  case BlankLine
  with assms(2) show ?thesis by (simp add: blank_line_disjoint)
next
  case FluentChain
  with assms show ?thesis by (simp add: fluent_chain_disjoint)
next
  case DrizzleQuery
  with assms(2) show ?thesis by (auto simp: drizzle_edits_def Let_def retain_disjoint disjoint_edits_def [of "[]"])
next
  case ExpandedCall
  with assms(2) show ?thesis by (auto simp: expanded_call_edits_def Let_def retain_disjoint)
qed

lemma disjoint_no_conflict: "disjoint_edits es \<Longrightarrow> apply_edits es text \<noteq> Inl (EditConflict a b)"
  by (auto simp: apply_edits_def Let_def disjoint_first_conflict split: option.splits)

text \<open>
  C7: No pass ever fails on a conflict of its own edits. On a tree nested as the parser nests it (\<open>tidy\<close>), a step of the pipeline that runs one of
  the seven passes does not end in the error its \<open>apply\<close> could report, whatever the text: what a pass collects is
  thinned out, at one position each, or sits in the gaps of a tree's call links, which are apart.
\<close>

theorem passes_never_conflict:
  assumes "tidy (pg_root prog)" "re_parts r = script_parts sx"
  shows "run_step r text prog (PassStep p) \<noteq> Returned (Inl e)"
proof
  assume "run_step r text prog (PassStep p) = Returned (Inl e)"
  then obtain es a b where es: "pass_edits (re_parts r) p text prog (re_declaration r) = Some es" "es \<noteq> []"
    and conflict: "apply_edits es text = Inl (EditConflict a b)"
    by (auto simp: run_step_def split: option.splits if_splits sum.splits apply_error.splits)
  from es assms(2) obtain raw where "script_edits p text prog = Some raw" "es = normalize text raw"
    by (auto simp: pass_edits_def script_parts_def split: if_splits)
  with script_edits_disjoint [OF assms(1)] disjoint_normalize have "disjoint_edits es" by blast
  with disjoint_no_conflict conflict show False by blast
qed

definition sample_chain :: program where
  "sample_chain =
     \<lparr>pg_root = Node Root (Expr CallExpression) (0, 11)
        [Node Callee (Expr StaticMemberExpression) (0, 9)
           [Node Object (Expr CallExpression) (0, 7)
              [Node Callee (Expr StaticMemberExpression) (0, 5)
                 [Node Object (Expr CallExpression) (0, 3) [Node Callee (Name IdentifierReference ''f'') (0, 1) []],
                  Node Property (Name IdentifierName ''g'') (4, 5) []]],
            Node Property (Name IdentifierName ''h'') (8, 9) []]],
      pg_comments = []\<rparr>"

lemma sample_chain_edits:
  "fluent_chain_edits ''f().g().h()'' sample_chain =
     Some [new_edit 3 4 ([newline] @ indent_unit ''f().g().h()'' @ ''.''),
           new_edit 7 8 ([newline] @ indent_unit ''f().g().h()'' @ ''.'')]"
  by code_simp

lemma sample_chain_tidy: "tidy (pg_root sample_chain)"
  by code_simp

definition sample_script_round :: round where
  "sample_script_round =
     round_new sample_library (script_parts \<lparr>sx_logical = (\<lambda>_. False), sx_upper = (\<lambda>_. False)\<rparr>) ''a.ts''
       (SourceType ''ts'' False) sample_ts_format False FULL"

theorem passes_never_conflict_witness:
  "(\<forall>e. run_step sample_script_round ''f().g().h()'' sample_chain (PassStep FluentChain) \<noteq> Returned (Inl e)) \<and>
   length (the (fluent_chain_edits ''f().g().h()'' sample_chain)) = 2"
proof -
  have "re_parts sample_script_round = script_parts \<lparr>sx_logical = (\<lambda>_. False), sx_upper = (\<lambda>_. False)\<rparr>"
    by (simp add: sample_script_round_def)
  from passes_never_conflict [OF sample_chain_tidy this] sample_chain_edits show ?thesis by simp
qed

end
