(* ===== verification/Linting.thy ===== *)
theory Linting imports
  ScriptLane
  Edits
  Lines
  "HOL-Library.AList"
begin

text \<open>
  \<^verbatim>\<open>crates/lint/src/lib.rs\<close>, \<^verbatim>\<open>oxc_bridge.rs\<close> and \<^verbatim>\<open>rules/mod.rs\<close>: how a linter is put together from the policy
  and the settings, one pass over a text, and the rounds of fixes. The parser, the semantic model, oxc_linter and
  the native rules themselves are arguments.
\<close>

section \<open>Settings\<close>

definition invalid_setting :: "string \<Rightarrow> string \<times> string" where
  "invalid_setting name = (name, ''expected \"off\", \"warn\", \"error\", or [severity, options...]'')"

definition setting_severity :: "json \<Rightarrow> severity option option" where
  "setting_severity v =
     (case v of
        JString s \<Rightarrow>
          if s \<in> {''off'', ''allow''} then Some None
          else if s = ''warn'' then Some (Some SevWarning)
          else if s \<in> {''error'', ''deny''} then Some (Some SevError) else None
      | JNumber n \<Rightarrow>
          if n = 0 then Some None else if n = 1 then Some (Some SevWarning) else if n = 2 then Some (Some SevError)
          else None
      | _ \<Rightarrow> None)"

text \<open>The severity (\<open>None\<close> when off) and the options; an error names the rule.\<close>

definition split_setting :: "string \<Rightarrow> json \<Rightarrow> (string \<times> string) + (severity option \<times> json list)" where
  "split_setting name setting =
     (case (case setting of
              JArray [] \<Rightarrow> None
            | JArray (s # options) \<Rightarrow> Some (s, options)
            | v \<Rightarrow> Some (v, [])) of
        None \<Rightarrow> Inl (invalid_setting name)
      | Some (s, options) \<Rightarrow>
          (case setting_severity s of
             None \<Rightarrow> Inl (invalid_setting name)
           | Some severity \<Rightarrow> Inr (severity, options)))"

section \<open>Native rules\<close>

type_synonym span_of_text = "u32 \<times> u32"

record lint_section =
  ls_text :: string
  ls_start :: u32

record lint_finding =
  fi_rule :: string
  fi_span :: span_of_text
  fi_message :: string
  fi_name :: "string option"
  fi_fix :: "edit list"

text \<open>A rule reports the place, the message, the name of an entry and a fix, per file and per node.\<close>

type_synonym reported = "(span_of_text \<times> string \<times> string option \<times> edit list) list"

record native_rule =
  nr_name :: string
  nr_once :: "string \<Rightarrow> lint_section \<Rightarrow> reported"
  nr_node :: "string \<Rightarrow> lint_section \<Rightarrow> nat \<Rightarrow> reported"

definition findings_of :: "native_rule \<Rightarrow> reported \<Rightarrow> lint_finding list" where
  "findings_of r xs =
     map (\<lambda>(s, message, name, fix). \<lparr>fi_rule = nr_name r, fi_span = s, fi_message = message, fi_name = name,
       fi_fix = fix\<rparr>) xs"

definition run_all :: "native_rule list \<Rightarrow> nat \<Rightarrow> string \<Rightarrow> lint_section \<Rightarrow> lint_finding list" where
  "run_all rules nodes rel s =
     concat (map (\<lambda>r. findings_of r (nr_once r rel s)) rules) @
     concat (map (\<lambda>n. concat (map (\<lambda>r. findings_of r (nr_node r rel s n)) rules)) [0..<nodes])"

section \<open>Building a linter\<close>

record natives =
  na_rules :: "native_rule list"
  na_severities :: "string \<rightharpoonup> severity"

text \<open>
  What oxc_linter knows: how names of rules and plugins are normalised, which plugin a name stands for, the rules it
  ships, and the store of a configuration (the bundled one or an empty one, its overrides kept or not).
\<close>

record 's lint_setup =
  lu_policy :: "(string \<times> json) list"
  lu_plugins :: "string list"
  lu_registry :: "string \<rightharpoonup> (json list \<Rightarrow> string + native_rule)"
  lu_normalize :: "string \<Rightarrow> string"
  lu_plugin_name :: "string \<Rightarrow> string"
  lu_plugin :: "string \<Rightarrow> string option"
  lu_rules :: "(string \<times> string) list"
  lu_store :: "bool \<Rightarrow> bool \<Rightarrow> string list \<Rightarrow> (string \<times> json) list \<Rightarrow> string + 's"

definition rule_key :: "'s lint_setup \<Rightarrow> string \<Rightarrow> string" where
  "rule_key lu name = (if lu_registry lu name \<noteq> None then name else lu_normalize lu name)"

datatype owner = OwnerEslint | OwnerPlugin string | OwnerUnknown

definition rule_owner :: "'s lint_setup \<Rightarrow> string \<Rightarrow> owner" where
  "rule_owner lu key =
     (case (if prefix ''@'' key then rsplit_once CHR ''/'' key else split_once CHR ''/'' key) of
        None \<Rightarrow> OwnerEslint
      | Some (p, _) \<Rightarrow>
          (case lu_plugin lu (lu_plugin_name lu p) of
             None \<Rightarrow> OwnerUnknown
           | Some plugin \<Rightarrow> if plugin = ''eslint'' then OwnerEslint else OwnerPlugin plugin))"

definition known_oxc_rule :: "'s lint_setup \<Rightarrow> string \<Rightarrow> bool" where
  "known_oxc_rule lu key =
     (let (plugin, rule) = (case split_once CHR ''/'' key of None \<Rightarrow> (''eslint'', key) | Some pr \<Rightarrow> pr);
          internal = (if plugin = ''jsx-a11y'' then ''jsx_a11y'' else if plugin = ''react-perf'' then ''react_perf''
            else if plugin = ''next'' then ''nextjs'' else plugin)
      in \<exists>(p, r) \<in> set (lu_rules lu). r = rule \<and> (p = internal \<or> internal = ''typescript'' \<and> p = ''eslint''))"

text \<open>The last setting of a key wins, with the name it was written under; keys are visited in order.\<close>

definition merged_settings :: "'s lint_setup \<Rightarrow> lint_config \<Rightarrow> (string \<times> string \<times> json) list" where
  "merged_settings lu c =
     sort_key fst (fold (\<lambda>(name, setting). AList.update (rule_key lu name) (name, setting))
       ((if lc_bundled c then lu_policy lu else []) @ lc_rules c) [])"

record building =
  bu_natives :: natives
  bu_oxc :: "(string \<times> json) list"
  bu_plugins :: "string list"

definition add_setting ::
  "'s lint_setup \<Rightarrow> string \<times> string \<times> json \<Rightarrow> building \<Rightarrow> (string \<times> string) + building" where
  "add_setting lu entry b =
     (let (key, name, setting) = entry in
      case split_setting name setting of
        Inl e \<Rightarrow> Inl e
      | Inr (severity, options) \<Rightarrow>
          (case lu_registry lu key of
             Some factory \<Rightarrow>
               (case severity of
                  None \<Rightarrow> Inr b
                | Some s \<Rightarrow>
                    (case factory options of
                       Inl message \<Rightarrow> Inl (name, message)
                     | Inr r \<Rightarrow> Inr (b\<lparr>bu_natives := \<lparr>na_rules = na_rules (bu_natives b) @ [r],
                         na_severities = (na_severities (bu_natives b))(nr_name r \<mapsto> s)\<rparr>\<rparr>)))
           | None \<Rightarrow>
               let owner = rule_owner lu key in
               if owner = OwnerUnknown \<or> \<not> known_oxc_rule lu key then Inl (name, ''unknown rule'')
               else Inr (b\<lparr>bu_oxc := bu_oxc b @ [(key, setting)],
                 bu_plugins := (case owner of
                    OwnerPlugin plugin \<Rightarrow>
                      if \<exists>p \<in> set (bu_plugins b). lu_plugin lu p = Some plugin then bu_plugins b
                      else bu_plugins b @ [plugin]
                  | _ \<Rightarrow> bu_plugins b)\<rparr>)))"

fun add_settings ::
  "'s lint_setup \<Rightarrow> (string \<times> string \<times> json) list \<Rightarrow> building \<Rightarrow> (string \<times> string) + building" where
  "add_settings lu [] b = Inr b"
| "add_settings lu (entry # entries) b =
     (case add_setting lu entry b of Inl e \<Rightarrow> Inl e | Inr b' \<Rightarrow> add_settings lu entries b')"

text \<open>The rule whose options oxc_linter rejects alone.\<close>

definition attribute_error ::
  "'s lint_setup \<Rightarrow> bool \<Rightarrow> string list \<Rightarrow> (string \<times> json) list \<Rightarrow> string \<Rightarrow> string \<times> string" where
  "attribute_error lu bundled plugins rules message =
     (case List.map_filter (\<lambda>r. case lu_store lu bundled False plugins [r] of
          Inl m \<Rightarrow> Some (fst r, m) | Inr _ \<Rightarrow> None) rules of
        [] \<Rightarrow> (''overrides'', message)
      | e # _ \<Rightarrow> e)"

definition build_linter :: "'s lint_setup \<Rightarrow> lint_config \<Rightarrow> (string \<times> string) + ('s \<times> natives)" where
  "build_linter lu c =
     (case add_settings lu (merged_settings lu c)
        \<lparr>bu_natives = \<lparr>na_rules = [], na_severities = Map.empty\<rparr>, bu_oxc = [],
         bu_plugins = (if lc_bundled c then lu_plugins lu else [])\<rparr> of
        Inl e \<Rightarrow> Inl e
      | Inr b \<Rightarrow>
          (case lu_store lu (lc_bundled c) True (bu_plugins b) (bu_oxc b) of
             Inl message \<Rightarrow> Inl (attribute_error lu (lc_bundled c) (bu_plugins b) (bu_oxc b) message)
           | Inr store \<Rightarrow> Inr (store, bu_natives b)))"

section \<open>One pass\<close>

record fix_unit =
  fu_start :: u32
  fu_end :: u32
  fu_edits :: "edit list"

definition fix_unit_new :: "edit list \<Rightarrow> fix_unit option" where
  "fix_unit_new es =
     (if es = [] then None
      else Some \<lparr>fu_start = Min (e_start ` set es), fu_end = Max (e_end ` set es), fu_edits = es\<rparr>)"

record lint_pass =
  ps_diagnostics :: "diagnostic list"
  ps_fixes :: "fix_unit list"
  ps_syntax_error :: bool

text \<open>A message of oxc_linter: its code, its place, and its fixes, each with whether it has a place.\<close>

record oxc_message =
  om_scope :: "string option"
  om_number :: "string option"
  om_span :: span_of_text
  om_message :: string
  om_error :: bool
  om_fixes :: "(bool \<times> edit) list"

text \<open>
  The sections of a Vue file; the offsets and messages of the errors a section has for the parser and for the
  semantic model; the number of its nodes and its disable directives; what oxc_linter says about the sections.
\<close>

record lint_library =
  ll_blocks :: "string \<Rightarrow> lint_section list"
  ll_parse :: "string \<Rightarrow> lang \<Rightarrow> lint_section \<Rightarrow> (u32 option \<times> string) list"
  ll_semantic :: "string \<Rightarrow> lang \<Rightarrow> lint_section \<Rightarrow> (u32 option \<times> string) list"
  ll_nodes :: "string \<Rightarrow> lang \<Rightarrow> lint_section \<Rightarrow> nat"
  ll_disabled :: "string \<Rightarrow> lang \<Rightarrow> lint_section \<Rightarrow> string \<Rightarrow> span_of_text \<Rightarrow> bool"
  ll_oxc :: "bool \<Rightarrow> string \<Rightarrow> lang \<Rightarrow> lint_section list \<Rightarrow> oxc_message list"
  ll_natives :: natives
  ll_panic :: "string option"

definition lint_sections :: "lint_library \<Rightarrow> lang \<Rightarrow> string \<Rightarrow> lint_section list" where
  "lint_sections lib lang text = (if lang = Vue then ll_blocks lib text else [\<lparr>ls_text = text, ls_start = 0\<rparr>])"

definition diagnostic_at :: "string \<Rightarrow> string \<Rightarrow> string \<Rightarrow> u32 \<Rightarrow> string \<Rightarrow> severity \<Rightarrow> diagnostic" where
  "diagnostic_at rule rel text start message severity =
     (let (line, column) = (case line_col (line_index_new text) start of Some lc \<Rightarrow> lc | None \<Rightarrow> (0, 0))
      in \<lparr>d_rule = rule, d_file = rel, d_line = line, d_column = column, d_message = message, d_severity = severity\<rparr>)"

definition SYNTAX_RULE :: string where "SYNTAX_RULE = ''syntax''"

definition syntax_diagnostics :: "string \<Rightarrow> string \<Rightarrow> u32 \<Rightarrow> (u32 option \<times> string) list \<Rightarrow> diagnostic list" where
  "syntax_diagnostics rel text offset errors =
     map (\<lambda>(label, message). diagnostic_at SYNTAX_RULE rel text ((case label of None \<Rightarrow> 0 | Some l \<Rightarrow> l) + offset)
       message SevError) errors"

definition finding_rule :: "lint_finding \<Rightarrow> string" where
  "finding_rule f = (case fi_name f of None \<Rightarrow> fi_rule f | Some name \<Rightarrow> fi_rule f @ ''/'' @ name)"

definition moved_edit :: "u32 \<Rightarrow> edit \<Rightarrow> edit" where
  "moved_edit start e = new_edit (e_start e + start) (e_end e + start) (e_text e)"

definition section_errors :: "lint_library \<Rightarrow> string \<Rightarrow> lang \<Rightarrow> lint_section \<Rightarrow> (u32 option \<times> string) list" where
  "section_errors lib rel lang s =
     (if ll_parse lib rel lang s \<noteq> [] then ll_parse lib rel lang s else ll_semantic lib rel lang s)"

definition section_findings :: "lint_library \<Rightarrow> string \<Rightarrow> lang \<Rightarrow> lint_section \<Rightarrow> lint_finding list" where
  "section_findings lib rel lang s =
     filter (\<lambda>f. \<not> ll_disabled lib rel lang s (fi_rule f) (fi_span f))
       (run_all (na_rules (ll_natives lib)) (ll_nodes lib rel lang s) rel s)"

definition native_diagnostic :: "lint_library \<Rightarrow> string \<Rightarrow> string \<Rightarrow> lint_section \<Rightarrow> lint_finding \<Rightarrow> diagnostic" where
  "native_diagnostic lib rel text s f =
     diagnostic_at (finding_rule f) rel text (fst (fi_span f) + ls_start s) (fi_message f)
       (case na_severities (ll_natives lib) (fi_rule f) of Some sev \<Rightarrow> sev | None \<Rightarrow> SevError)"

definition lint_section_step ::
  "lint_library \<Rightarrow> string \<Rightarrow> lang \<Rightarrow> string \<Rightarrow> bool \<Rightarrow> lint_section \<Rightarrow> lint_pass \<times> lint_section list \<Rightarrow>
    lint_pass \<times> lint_section list" where
  "lint_section_step lib rel lang text fix s st =
     (let (p, hosts) = st; errors = section_errors lib rel lang s in
      if errors \<noteq> [] then
        (p\<lparr>ps_syntax_error := True, ps_diagnostics := ps_diagnostics p @ syntax_diagnostics rel text (ls_start s) errors\<rparr>, hosts)
      else
        let fs = section_findings lib rel lang s in
        (p\<lparr>ps_diagnostics := ps_diagnostics p @ map (native_diagnostic lib rel text s) fs,
           ps_fixes := ps_fixes p @ (if fix then
             concat (map (\<lambda>f. option_list (fix_unit_new (map (moved_edit (ls_start s)) (fi_fix f)))) fs) else [])\<rparr>,
         hosts @ [s]))"

definition oxc_fix :: "oxc_message \<Rightarrow> fix_unit option" where
  "oxc_fix m =
     (case om_fixes m of
        [] \<Rightarrow> None
      | (unspanned, e) # _ \<Rightarrow> if unspanned \<and> e_text e = [] then None else fix_unit_new [e])"

definition message_rule :: "oxc_message \<Rightarrow> string" where
  "message_rule m =
     (case (om_scope m, om_number m) of
        (Some scope, Some number) \<Rightarrow> scope @ ''/'' @ number
      | (None, Some number) \<Rightarrow> number
      | (Some scope, None) \<Rightarrow> scope
      | (None, None) \<Rightarrow> SYNTAX_RULE)"

definition to_diagnostic :: "string \<Rightarrow> string \<Rightarrow> oxc_message \<Rightarrow> diagnostic" where
  "to_diagnostic rel text m =
     diagnostic_at (message_rule m) rel text (fst (om_span m)) (om_message m)
       (if om_error m then SevError else SevWarning)"

definition lint_run :: "lint_library \<Rightarrow> string \<Rightarrow> lang \<Rightarrow> string \<Rightarrow> bool \<Rightarrow> lint_pass" where
  "lint_run lib rel lang text fix =
     (let (p, hosts) = fold (lint_section_step lib rel lang text fix) (lint_sections lib lang text)
            (\<lparr>ps_diagnostics = [], ps_fixes = [], ps_syntax_error = False\<rparr>, [])
      in if hosts = [] then p
         else let ms = ll_oxc lib fix rel lang hosts
              in p\<lparr>ps_diagnostics := ps_diagnostics p @ map (to_diagnostic rel text) ms,
                   ps_fixes := ps_fixes p @ (if fix then List.map_filter oxc_fix ms else [])\<rparr>)"

section \<open>Rounds of fixes\<close>

definition MAX_FIX_ROUNDS :: nat where "MAX_FIX_ROUNDS = 10"

definition unit_key :: "fix_unit \<Rightarrow> nat \<times> nat" where
  "unit_key u = (unat (fu_start u), unat (fu_end u))"

fun keep_units :: "u32 option \<Rightarrow> fix_unit list \<Rightarrow> fix_unit list" where
  "keep_units last_end [] = []"
| "keep_units last_end (u # us) =
     (if (case last_end of None \<Rightarrow> False | Some e \<Rightarrow> fu_start u \<le> e) then keep_units last_end us
      else u # keep_units (Some (fu_end u)) us)"

text \<open>A conflict inside a unit gives up the round; a range out of the text panics.\<close>

definition apply_fixes :: "string option \<Rightarrow> string \<Rightarrow> fix_unit list \<Rightarrow> string option attempt" where
  "apply_fixes panic text units =
     (case apply_edits (normalize text (concat (map fu_edits (keep_units None (sort_key unit_key units))))) text of
        Inl SlicePanic \<Rightarrow> Panicked panic
      | Inl (EditConflict a b) \<Rightarrow> Returned None
      | Inr out \<Rightarrow> Returned (if out = text then None else Some out))"

fun fix_rounds ::
  "lint_library \<Rightarrow> string \<Rightarrow> lang \<Rightarrow> nat \<Rightarrow> string \<Rightarrow> lint_pass \<Rightarrow> (string \<times> lint_pass) attempt" where
  "fix_rounds lib rel lang 0 text p = Returned (text, p)"
| "fix_rounds lib rel lang (Suc n) text p =
     (if ps_syntax_error p \<or> ps_fixes p = [] then Returned (text, p)
      else case apply_fixes (ll_panic lib) text (ps_fixes p) of
        Panicked m \<Rightarrow> Panicked m
      | Returned None \<Rightarrow> Returned (text, p)
      | Returned (Some out) \<Rightarrow>
          let relinted = lint_run lib rel lang out True in
          if ps_syntax_error relinted then Returned (text, p\<lparr>ps_fixes := []\<rparr>)
          else fix_rounds lib rel lang n out relinted)"

definition lint_key :: "diagnostic \<Rightarrow> nat \<times> nat \<times> string \<times> string" where
  "lint_key d = (unat (d_line d), unat (d_column d), d_rule d, d_message d)"

definition sorted_diagnostics :: "diagnostic list \<Rightarrow> diagnostic list" where
  "sorted_diagnostics ds = remdups_adj (sort_key lint_key ds)"

definition lint_text :: "lint_library \<Rightarrow> string \<Rightarrow> lang \<Rightarrow> string \<Rightarrow> bool \<Rightarrow> linted attempt" where
  "lint_text lib rel lang source fix =
     (if \<not> fix then
        Returned \<lparr>lt_diagnostics = sorted_diagnostics (ps_diagnostics (lint_run lib rel lang source False)), lt_fixed = None\<rparr>
      else and_then (fix_rounds lib rel lang MAX_FIX_ROUNDS source (lint_run lib rel lang source True)) (\<lambda>(text, p).
        Returned \<lparr>lt_diagnostics = sorted_diagnostics (ps_diagnostics p),
          lt_fixed = (if text \<noteq> source then Some text else None)\<rparr>))"

text \<open>The linter a run uses, with what the ignore patterns match.\<close>

definition linter_of :: "lint_library \<Rightarrow> (string \<Rightarrow> bool) option \<Rightarrow> linter" where
  "linter_of lib ignore =
     \<lparr>ln_ignores = (\<lambda>rel. case ignore of None \<Rightarrow> False | Some matches \<Rightarrow> matches rel), ln_lint = lint_text lib\<rparr>"

text \<open>
  What the rounds of fixes promise: a fix is applied whole or not at all, the rounds end on a text whose
  problems are the ones reported, and a text that settled is left alone by the next run.
\<close>

section \<open>One round\<close>

text \<open>What is expected of a fix: edits of the text, none twice, none over another (\<open>Must not overlap\<close>).\<close>

definition wf_unit :: "string \<Rightarrow> fix_unit \<Rightarrow> bool" where
  "wf_unit text u \<longleftrightarrow>
     fix_unit_new (fu_edits u) = Some u \<and> disjoint_edits (fu_edits u) \<and> distinct (fu_edits u) \<and>
     (\<forall>e \<in> set (fu_edits u). wf_edit e \<and> fits text e)"

lemma unit_covers:
  assumes "wf_unit text u" "e \<in> set (fu_edits u)"
  shows "fu_start u \<le> e_start e" "e_start e \<le> e_end e" "e_end e \<le> fu_end u"
proof -
  from assms(1) have u: "fu_start u = Min (e_start ` set (fu_edits u))" "fu_end u = Max (e_end ` set (fu_edits u))"
    by (cases u; auto simp: wf_unit_def fix_unit_new_def split: if_splits)+
  from assms show "fu_start u \<le> e_start e" "e_start e \<le> e_end e" "e_end e \<le> fu_end u"
    by (simp_all add: u wf_unit_def wf_edit_def)
qed

lemma unit_span:
  assumes "wf_unit text u"
  shows "fu_start u \<le> fu_end u"
proof -
  from assms obtain e where "e \<in> set (fu_edits u)"
    by (cases "fu_edits u") (auto simp: wf_unit_def fix_unit_new_def)
  with unit_covers [OF assms this] show ?thesis by (meson order_trans)
qed

abbreviation (input) units_apart :: "fix_unit list \<Rightarrow> bool" where
  "units_apart us \<equiv> sorted_wrt (\<lambda>u v. fu_end u < fu_start v) us"

lemma keep_units_after:
  "\<forall>u \<in> set us. fu_start u \<le> fu_end u \<Longrightarrow> v \<in> set (keep_units (Some e) us) \<Longrightarrow> e < fu_start v"
proof (induction "Some e" us arbitrary: e rule: keep_units.induct)
  case (2 u us)
  then show ?case by (auto split: if_splits)
qed simp

lemma keep_units_apart:
  "\<forall>u \<in> set us. fu_start u \<le> fu_end u \<Longrightarrow> units_apart (keep_units last_end us)"
  by (induction last_end us rule: keep_units.induct) (auto dest: keep_units_after)

lemma keep_units_mset: "mset (keep_units last_end us) \<subseteq># mset us"
  by (induction last_end us rule: keep_units.induct) (auto intro: subset_mset_add)

lemma keep_units_set: "u \<in> set (keep_units last_end us) \<Longrightarrow> u \<in> set us"
  using mset_subset_eqD [OF keep_units_mset] by fastforce

lemma keep_units_dropped:
  "sorted (map unit_key us) \<Longrightarrow> u \<in> set us \<Longrightarrow> u \<notin> set (keep_units last_end us) \<Longrightarrow>
     (\<exists>e. last_end = Some e \<and> fu_start u \<le> e) \<or>
     (\<exists>k \<in> set (keep_units last_end us). unit_key k \<le> unit_key u \<and> fu_start u \<le> fu_end k)"
proof (induction last_end us rule: keep_units.induct)
  case (2 last_end v us)
  show ?case
  proof (cases "case last_end of None \<Rightarrow> False | Some e \<Rightarrow> fu_start v \<le> e")
    case True
    with 2 show ?thesis by (auto split: option.splits)
  next
    case False
    with 2(5) have "u \<noteq> v" "u \<notin> set (keep_units (Some (fu_end v)) us)" by auto
    with 2(2) [OF False] 2(3,4) False show ?thesis by auto
  qed
qed simp

lemma units_disjoint:
  assumes "units_apart us" "\<forall>u \<in> set us. wf_unit text u"
  shows "disjoint_edits (concat (map fu_edits us)) \<and> distinct (concat (map fu_edits us))"
  using assms
proof (induction us)
  case (Cons u us)
  have later: "e_end e < e_start f" if "e \<in> set (fu_edits u)" "v \<in> set us" "f \<in> set (fu_edits v)" for e f v
    using unit_covers [of "text" u e] unit_covers [of "text" v f] Cons.prems that
    by (auto intro: le_less_trans less_le_trans)
  have "\<forall>e \<in> set (fu_edits u). \<forall>f \<in> set (concat (map fu_edits us)). \<not> overlaps e f"
    using later by (fastforce simp: overlaps_def dest: less_trans)
  moreover have "set (fu_edits u) \<inter> set (concat (map fu_edits us)) = {}"
    using later unit_covers(2) [of "text" u] Cons.prems by (fastforce simp: not_less [symmetric])
  ultimately show ?case using Cons by (simp add: disjoint_edits_def sorted_wrt_append wf_unit_def)
qed (simp add: disjoint_edits_def)

text \<open>
  C16: A fix is applied whole or not at all. When each fix is a set of edits of the text that do not overlap, a
  round never meets a conflict: it applies exactly the edits of the fixes it keeps, which lie strictly apart, and
  it drops a fix only because a fix that starts no later and was kept reaches up to it.
\<close>

theorem fixes_apply_whole:
  assumes "\<forall>u \<in> set units. wf_unit text u"
  shows "let kept = keep_units None (sort_key unit_key units) in
    (\<exists>out. apply_edits (concat (map fu_edits kept)) text = Inr out \<and>
       apply_fixes panic text units = Returned (if out = text then None else Some out)) \<and>
    units_apart kept \<and> mset kept \<subseteq># mset units \<and>
    (\<forall>u \<in> set units - set kept. \<exists>k \<in> set kept. unit_key k \<le> unit_key u \<and> fu_start u \<le> fu_end k)"
proof -
  define kept where "kept = keep_units None (sort_key unit_key units)"
  let ?es = "concat (map fu_edits kept)"
  have wf: "\<forall>u \<in> set kept. wf_unit text u" using assms keep_units_set by (fastforce simp: kept_def)
  have apart: "units_apart kept" unfolding kept_def by (rule keep_units_apart) (use assms unit_span in auto)
  note d = units_disjoint [OF apart wf]
  have fit: "\<forall>e \<in> set ?es. wf_edit e" "\<forall>e \<in> set ?es. fits text e" using wf by (auto simp: wf_unit_def)
  obtain out where out: "apply_edits ?es text = Inr out" using apply_edits_disjoint [OF _ fit] d by blast
  from normalize_keeps_result [OF this fit(1)] d
  have "apply_fixes panic text units = Returned (if out = text then None else Some out)"
    by (simp add: apply_fixes_def kept_def)
  moreover have "mset kept \<subseteq># mset units" using keep_units_mset [of None "sort_key unit_key units"] by (simp add: kept_def)
  moreover have "\<exists>k \<in> set kept. unit_key k \<le> unit_key u \<and> fu_start u \<le> fu_end k" if "u \<in> set units - set kept" for u
    using keep_units_dropped [of "sort_key unit_key units" u None] that by (auto simp: kept_def)
  ultimately show ?thesis using out apart unfolding kept_def [symmetric] Let_def by blast
qed

definition sample_units :: "fix_unit list" where
  "sample_units =
     map (\<lambda>es. the (fix_unit_new es))
       [[new_edit 4 6 ''=='', new_edit 8 8 ''!''], [new_edit 0 1 ''x''], [new_edit 8 9 ''0'']]"

theorem fixes_apply_whole_witness:
  "\<exists>out. apply_edits [new_edit 0 1 ''x'', new_edit 4 6 ''=='', new_edit 8 8 ''!''] ''a = !=  bc'' = Inr out \<and>
     apply_fixes None ''a = !=  bc'' sample_units = Returned (if out = ''a = !=  bc'' then None else Some out)"
proof -
  have "\<forall>u \<in> set sample_units. wf_unit ''a = !=  bc'' u" by code_simp
  note applied = fixes_apply_whole [OF this, of None, unfolded Let_def, THEN conjunct1]
  have "concat (map fu_edits (keep_units None (sort_key unit_key sample_units))) =
      [new_edit 0 1 ''x'', new_edit 4 6 ''=='', new_edit 8 8 ''!'']"
    by code_simp
  with applied show ?thesis by simp
qed

section \<open>Rounds\<close>

text \<open>A pass that computes fixes reports what a pass that does not reports.\<close>

definition fixing_reports_as_checking :: "lint_library \<Rightarrow> bool" where
  "fixing_reports_as_checking lib \<longleftrightarrow>
     (\<forall>rel lang text hosts. map (to_diagnostic rel text) (ll_oxc lib True rel lang hosts) =
        map (to_diagnostic rel text) (ll_oxc lib False rel lang hosts))"

lemma sections_report_alike:
  "ps_diagnostics (fst a) = ps_diagnostics (fst b) \<and> ps_syntax_error (fst a) = ps_syntax_error (fst b) \<and> snd a = snd b \<Longrightarrow>
     ps_diagnostics (fst (fold (lint_section_step lib rel lang text x) ss a)) =
       ps_diagnostics (fst (fold (lint_section_step lib rel lang text y) ss b)) \<and>
     snd (fold (lint_section_step lib rel lang text x) ss a) = snd (fold (lint_section_step lib rel lang text y) ss b)"
proof (induction ss arbitrary: a b)
  case (Cons s ss)
  have "ps_diagnostics (fst (lint_section_step lib rel lang text x s a)) =
        ps_diagnostics (fst (lint_section_step lib rel lang text y s b)) \<and>
      ps_syntax_error (fst (lint_section_step lib rel lang text x s a)) =
        ps_syntax_error (fst (lint_section_step lib rel lang text y s b)) \<and>
      snd (lint_section_step lib rel lang text x s a) = snd (lint_section_step lib rel lang text y s b)"
    using Cons.prems by (cases a; cases b) (simp add: lint_section_step_def Let_def)
  from Cons.IH [OF this] show ?case by simp
qed simp

lemma run_reports_alike:
  assumes "fixing_reports_as_checking lib"
  shows "ps_diagnostics (lint_run lib rel lang text True) = ps_diagnostics (lint_run lib rel lang text False)"
proof -
  let ?start = "(\<lparr>ps_diagnostics = [], ps_fixes = [], ps_syntax_error = False\<rparr>, [])"
  obtain p hosts where p: "fold (lint_section_step lib rel lang text True) (lint_sections lib lang text) ?start = (p, hosts)"
    by fastforce
  obtain q more where q: "fold (lint_section_step lib rel lang text False) (lint_sections lib lang text) ?start = (q, more)"
    by fastforce
  from sections_report_alike [of ?start ?start lib rel lang "text" True "lint_sections lib lang text" False] p q
  have "ps_diagnostics p = ps_diagnostics q" "hosts = more" by simp_all
  with p q assms show ?thesis by (simp add: lint_run_def Let_def fixing_reports_as_checking_def)
qed

definition fix_step :: "lint_library \<Rightarrow> string \<Rightarrow> lang \<Rightarrow> string \<Rightarrow> string \<Rightarrow> bool" where
  "fix_step lib rel lang a b \<longleftrightarrow>
     \<not> ps_syntax_error (lint_run lib rel lang a True) \<and>
     apply_fixes (ll_panic lib) a (ps_fixes (lint_run lib rel lang a True)) = Returned (Some b) \<and>
     \<not> ps_syntax_error (lint_run lib rel lang b True)"

lemma fix_rounds_reach:
  "fix_rounds lib rel lang n text (lint_run lib rel lang text True) = Returned (t, p) \<Longrightarrow>
     \<exists>k \<le> n. (fix_step lib rel lang ^^ k) text t \<and> ps_diagnostics p = ps_diagnostics (lint_run lib rel lang t True) \<and>
       (k < n \<longrightarrow> (\<forall>m. \<exists>q. fix_rounds lib rel lang m t (lint_run lib rel lang t True) = Returned (t, q) \<and>
          ps_diagnostics q = ps_diagnostics p))"
proof (induction n arbitrary: "text")
  case (Suc n)
  let ?run = "\<lambda>t. lint_run lib rel lang t True"
  consider (stop) p' where "fix_rounds lib rel lang (Suc n) text (?run text) = Returned (text, p')"
      "ps_diagnostics p' = ps_diagnostics (?run text)" "\<And>m. \<exists>q. fix_rounds lib rel lang m text (?run text) = Returned (text, q) \<and>
        ps_diagnostics q = ps_diagnostics (?run text)"
    | (move) out where "fix_step lib rel lang text out"
      "fix_rounds lib rel lang (Suc n) text (?run text) = fix_rounds lib rel lang n out (?run out)"
  proof -
    show thesis
    proof (cases "ps_syntax_error (?run text) \<or> ps_fixes (?run text) = []")
      case True
      have "\<exists>q. fix_rounds lib rel lang m text (?run text) = Returned (text, q) \<and>
          ps_diagnostics q = ps_diagnostics (?run text)" for m by (cases m) (simp_all add: True)
      with True show thesis by (intro stop [of "?run text"]) simp_all
    next
      case going: False
      show thesis
      proof (cases "apply_fixes (ll_panic lib) text (ps_fixes (?run text))")
        case (Panicked m)
        with going Suc.prems show thesis by simp
      next
        case (Returned r)
        show thesis
        proof (cases r)
          case None
          have "\<exists>q. fix_rounds lib rel lang m text (?run text) = Returned (text, q) \<and>
              ps_diagnostics q = ps_diagnostics (?run text)" for m by (cases m) (simp_all add: going Returned None)
          with going Returned None show thesis by (intro stop [of "?run text"]) simp_all
        next
          case (Some out)
          show thesis
          proof (cases "ps_syntax_error (?run out)")
            case True
            have "\<exists>q. fix_rounds lib rel lang m text (?run text) = Returned (text, q) \<and>
                ps_diagnostics q = ps_diagnostics (?run text)" for m
              by (cases m) (simp_all add: going Returned Some True)
            with going Returned Some True show thesis
              by (intro stop [of "?run text\<lparr>ps_fixes := []\<rparr>"]) simp_all
          next
            case False
            with going Returned Some show thesis by (intro move [of out]) (simp_all add: fix_step_def)
          qed
        qed
      qed
    qed
  qed
  then show ?case
  proof cases
    case (stop p')
    with Suc.prems show ?thesis by (intro exI [of _ 0]) auto
  next
    case (move out)
    with Suc.prems Suc.IH [of out] obtain k where k: "k \<le> n" "(fix_step lib rel lang ^^ k) out t"
        "ps_diagnostics p = ps_diagnostics (?run t)"
        "k < n \<longrightarrow> (\<forall>m. \<exists>q. fix_rounds lib rel lang m t (?run t) = Returned (t, q) \<and> ps_diagnostics q = ps_diagnostics p)"
      by auto
    from relpowp_Suc_I2 [OF move(1) k(2)] k show ?thesis by (intro exI [of _ "Suc k"]) auto
  qed
qed simp

text \<open>
  C8: A fixing run reports the problems of the text it leaves. Provided oxc_linter says the same with and without
  fixes, what it reports is what a check of its output reports, in the same order; it never returns its input as
  fixed; a text it changed lints without syntax errors before and after; it takes at most ten rounds, and after
  fewer than ten the next fixing run leaves its output alone and reports the same.
\<close>

theorem lint_reports_its_text:
  assumes "fixing_reports_as_checking lib" "lint_text lib rel lang source True = Returned l"
    "text = (case lt_fixed l of None \<Rightarrow> source | Some t \<Rightarrow> t)"
  shows "lint_text lib rel lang text False = Returned (l\<lparr>lt_fixed := None\<rparr>) \<and>
    lt_fixed l \<noteq> Some source \<and>
    (text \<noteq> source \<longrightarrow> \<not> ps_syntax_error (lint_run lib rel lang source True) \<and>
       \<not> ps_syntax_error (lint_run lib rel lang text True)) \<and>
    (\<exists>n \<le> 10. (fix_step lib rel lang ^^ n) source text \<and>
       (n < 10 \<longrightarrow> lint_text lib rel lang text True = Returned (l\<lparr>lt_fixed := None\<rparr>)))"
proof -
  let ?run = "\<lambda>t. lint_run lib rel lang t True"
  from assms(2) obtain t p where rounds: "fix_rounds lib rel lang 10 source (?run source) = Returned (t, p)"
    and l: "l = \<lparr>lt_diagnostics = sorted_diagnostics (ps_diagnostics p), lt_fixed = (if t \<noteq> source then Some t else None)\<rparr>"
    by (cases "fix_rounds lib rel lang 10 source (?run source)") (auto simp: lint_text_def MAX_FIX_ROUNDS_def)
  with assms(3) have t: "text = t" by simp
  from fix_rounds_reach [OF rounds] obtain n where n: "n \<le> 10" "(fix_step lib rel lang ^^ n) source t"
      "ps_diagnostics p = ps_diagnostics (?run t)"
      "n < 10 \<longrightarrow> (\<forall>m. \<exists>q. fix_rounds lib rel lang m t (?run t) = Returned (t, q) \<and> ps_diagnostics q = ps_diagnostics p)"
    by blast
  have same: "lint_text lib rel lang text False = Returned (l\<lparr>lt_fixed := None\<rparr>)"
    using n(3) run_reports_alike [OF assms(1)] by (simp add: lint_text_def t l)
  have again: "n < 10 \<longrightarrow> lint_text lib rel lang text True = Returned (l\<lparr>lt_fixed := None\<rparr>)"
  proof
    assume "n < 10"
    with n(4) obtain q where "fix_rounds lib rel lang 10 t (?run t) = Returned (t, q)" "ps_diagnostics q = ps_diagnostics p"
      by blast
    then show "lint_text lib rel lang text True = Returned (l\<lparr>lt_fixed := None\<rparr>)"
      by (simp add: lint_text_def t l MAX_FIX_ROUNDS_def)
  qed
  have clean: "\<not> ps_syntax_error (?run source) \<and> \<not> ps_syntax_error (?run text)" if "text \<noteq> source"
  proof -
    from that n(2) t have "n \<noteq> 0" by (cases n) simp_all
    then obtain k where k: "n = Suc k" by (cases n) simp_all
    from n(2) obtain a b where "fix_step lib rel lang source a" "fix_step lib rel lang b t"
      unfolding k by (metis relpowp_Suc_D2 relpowp_Suc_E)
    then show ?thesis by (simp add: fix_step_def t)
  qed
  show ?thesis using same again clean n(1,2) by (auto simp: l t)
qed

definition sample_lint_library :: lint_library where
  "sample_lint_library =
     \<lparr>ll_blocks = (\<lambda>_. []), ll_parse = (\<lambda>_ _ _. []), ll_semantic = (\<lambda>_ _ _. []), ll_nodes = (\<lambda>_ _ _. 0),
      ll_disabled = (\<lambda>_ _ _ _ _. False),
      ll_oxc = (\<lambda>_ _ _ hosts.
        if map ls_text hosts = [''a==b'']
        then [\<lparr>om_scope = Some ''eslint'', om_number = Some ''eqeqeq'', om_span = (1, 3), om_message = ''use ==='',
          om_error = True, om_fixes = [(False, new_edit 1 3 ''==='')]\<rparr>]
        else []),
      ll_natives = \<lparr>na_rules = [], na_severities = Map.empty\<rparr>, ll_panic = None\<rparr>"


lemma sample_lint:
  "lint_text sample_lint_library ''a.ts'' Ts ''a==b'' True = Returned \<lparr>lt_diagnostics = [], lt_fixed = Some ''a===b''\<rparr>"
proof -
  have run: "ps_fixes (lint_run sample_lint_library ''a.ts'' Ts ''a==b'' True) =
      [\<lparr>fu_start = 1, fu_end = 3, fu_edits = [new_edit 1 3 ''===''] \<rparr>]"
    "\<not> ps_syntax_error (lint_run sample_lint_library ''a.ts'' Ts ''a==b'' True)"
    by (simp_all add: lint_run_def lint_sections_def lint_section_step_def section_errors_def section_findings_def
        run_all_def sample_lint_library_def List.map_filter_def oxc_fix_def fix_unit_new_def new_edit_def)
  have rest: "lint_run sample_lint_library ''a.ts'' Ts ''a===b'' True =
      \<lparr>ps_diagnostics = [], ps_fixes = [], ps_syntax_error = False\<rparr>"
    by (simp add: lint_run_def lint_sections_def lint_section_step_def section_errors_def section_findings_def
        run_all_def sample_lint_library_def List.map_filter_def)
  have "apply_fixes None ''a==b'' [\<lparr>fu_start = 1, fu_end = 3, fu_edits = [new_edit 1 3 ''==='']\<rparr>] = Returned (Some ''a===b'')"
    by code_simp
  with run rest show ?thesis
    by (simp add: lint_text_def MAX_FIX_ROUNDS_def eval_nat_numeral sorted_diagnostics_def sample_lint_library_def [THEN arg_cong, of ll_panic])
qed

theorem lint_reports_its_text_witness:
  "lint_text sample_lint_library ''a.ts'' Ts ''a===b'' False = Returned \<lparr>lt_diagnostics = [], lt_fixed = None\<rparr>"
proof -
  have "fixing_reports_as_checking sample_lint_library"
    by (simp add: fixing_reports_as_checking_def sample_lint_library_def)
  from lint_reports_its_text [OF this sample_lint refl] show ?thesis by simp
qed

end
