(* ===== verification/RawBlocks.thy ===== *)
theory RawBlocks imports
  TsSyntax
begin

text \<open>
  \<^verbatim>\<open>crates/hosts/src/raw.rs\<close> and \<^verbatim>\<open>embed.rs\<close>: the blocks of a Vue or HTML document that markup_fmt must not touch.
  Their bodies are swapped for placeholders before formatting and put back afterwards.
\<close>

section \<open>Language tags\<close>

datatype css_variant = Css | Scss | Less

datatype embedded = Script lang | Style css_variant

definition from_tag :: "string \<Rightarrow> embedded option" where
  "from_tag tag =
     (let t = to_ascii_lowercase tag in
      if t \<in> {''ts'', ''typescript''} then Some (Script Ts)
      else if t = ''tsx'' then Some (Script Tsx)
      else if t = ''mts'' then Some (Script Mts)
      else if t = ''cts'' then Some (Script Cts)
      else if t \<in> {''js'', ''javascript''} then Some (Script Js)
      else if t = ''jsx'' then Some (Script Jsx)
      else if t = ''mjs'' then Some (Script Mjs)
      else if t = ''cjs'' then Some (Script Cjs)
      else if t \<in> {''css'', ''postcss''} then Some (Style Css)
      else if t = ''scss'' then Some (Style Scss)
      else if t = ''less'' then Some (Style Less)
      else None)"

definition is_script_tag :: "string \<Rightarrow> bool" where
  "is_script_tag tag = (case from_tag tag of Some (Script _) \<Rightarrow> True | _ \<Rightarrow> False)"

definition is_style_tag :: "string \<Rightarrow> bool" where
  "is_style_tag tag = (case from_tag tag of Some (Style _) \<Rightarrow> True | _ \<Rightarrow> False)"

section \<open>Tags\<close>

text \<open>\<open>str::find\<close> of a predicate on what the text starts with, and \<open>find('<')\<close> from an offset.\<close>

fun find_at :: "(string \<Rightarrow> bool) \<Rightarrow> string \<Rightarrow> nat option" where
  "find_at P [] = None"
| "find_at P (c # s) = (if P (c # s) then Some 0 else map_option Suc (find_at P s))"

definition find_from :: "string \<Rightarrow> nat \<Rightarrow> string \<Rightarrow> nat option" where
  "find_from p cursor text = map_option (\<lambda>i. cursor + i) (find_sub p (drop cursor text))"

definition same_name :: "string \<Rightarrow> string \<Rightarrow> bool" where
  "same_name a b \<longleftrightarrow> to_ascii_lowercase a = to_ascii_lowercase b"

definition is_ascii_alpha :: "char \<Rightarrow> bool" where
  "is_ascii_alpha c \<longleftrightarrow> byte_in 65 90 c \<or> byte_in 97 122 c"

definition is_alphanumeric :: "char \<Rightarrow> bool" where
  "is_alphanumeric c \<longleftrightarrow> is_ascii_alpha c \<or> is_digit c"

definition is_name_char :: "char \<Rightarrow> bool" where
  "is_name_char c \<longleftrightarrow> is_alphanumeric c \<or> c \<in> set ''-_:.''"

text \<open>The offset after the tag's \<open>>\<close>, outside quoted values.\<close>

fun tag_end :: "char option \<Rightarrow> nat \<Rightarrow> string \<Rightarrow> nat option" where
  "tag_end quote at [] = None"
| "tag_end (Some q) at (c # s) = (if c = q then tag_end None (at + 1) s else tag_end (Some q) (at + 1) s)"
| "tag_end None at (c # s) =
     (if c \<in> {CHR 0x22, CHR 0x27} then tag_end (Some c) (at + 1) s
      else if c = CHR ''>'' then Some (at + 1)
      else if c = CHR ''<'' then None
      else tag_end None (at + 1) s)"

definition open_tag :: "string \<Rightarrow> nat \<Rightarrow> (string \<times> nat) option" where
  "open_tag text start =
     (let rest = drop (start + 1) text; name = takeWhile is_name_char rest in
      if length name = length rest then None
      else if name = [] \<or> \<not> is_ascii_alpha (hd name) then None
      else map_option (Pair name) (tag_end None (start + 1 + length name) (drop (length name) rest)))"

definition closes :: "string \<Rightarrow> string \<Rightarrow> bool" where
  "closes name s \<longleftrightarrow>
     same_name (take (length name) s) name \<and>
     (case drop (length name) s of [] \<Rightarrow> True | b # _ \<Rightarrow> \<not> is_alphanumeric b \<and> b \<noteq> CHR ''-'')"

text \<open>The first closing tag; one that would run past the end ends the search.\<close>

fun find_closing_at :: "string \<Rightarrow> nat \<Rightarrow> string \<Rightarrow> nat option" where
  "find_closing_at name at [] = None"
| "find_closing_at name at (c # s) =
     (if prefix ''</'' (c # s) then
        (if length (drop 1 s) < length name then None
         else if closes name (drop 1 s) then Some at
         else find_closing_at name (at + 1) s)
      else find_closing_at name (at + 1) s)"

definition find_closing :: "string \<Rightarrow> nat \<Rightarrow> string \<Rightarrow> nat option" where
  "find_closing text from name = find_closing_at name from (drop from text)"

lemma find_closing_at_bound:
  "find_closing_at name at s = Some i \<Longrightarrow> at \<le> i \<and> i + 2 \<le> at + length s \<and> prefix ''</'' (drop (i - at) s)"
proof (induction name at s rule: find_closing_at.induct)
  case (2 name at c s)
  show ?case
  proof (cases "i = at")
    case True
    with 2 have "prefix ''</'' (c # s)" by (auto split: if_splits)
    with True show ?thesis by (auto dest: prefix_length_le)
  next
    case False
    with 2 have "at + 1 \<le> i \<and> i + 2 \<le> at + 1 + length s \<and> prefix ''</'' (drop (i - (at + 1)) s)"
      by (auto split: if_splits)
    then show ?thesis by (simp add: drop_Cons' Suc_diff_le)
  qed
qed simp

lemma find_closing_bound:
  "find_closing text from name = Some i \<Longrightarrow> from \<le> i \<and> i + 2 \<le> length text \<and> prefix ''</'' (drop i text)"
  using find_closing_at_bound [of name "from" "drop from text" i]
  by (cases "from \<le> length text") (auto simp: find_closing_def)

text \<open>The closing tag of a template, which nests.\<close>

definition opens_template :: "string \<Rightarrow> nat \<Rightarrow> bool" where
  "opens_template text at \<longleftrightarrow>
     (case open_tag text at of
        None \<Rightarrow> False
      | Some (name, till) \<Rightarrow> same_name name ''template'' \<and> \<not> suffix ''/>'' (take till text))"

function closing_template :: "string \<Rightarrow> nat \<Rightarrow> nat \<Rightarrow> nat option" where
  "closing_template text depth cursor =
     (case find_closing text cursor ''template'' of
        None \<Rightarrow> None
      | Some close \<Rightarrow>
          let nested = length (filter (\<lambda>i. text ! i = CHR ''<'' \<and> opens_template text i) [cursor..<close]);
              left = depth + nested - 1
          in if left = 0 then Some close else closing_template text left (close + 2))"
  by pat_completeness auto
termination
  by (relation "measure (\<lambda>(text, depth, cursor). length text - cursor)") (auto dest: find_closing_bound)

declare closing_template.simps [simp del]

lemma closing_template_bound:
  "closing_template text depth cursor = Some i \<Longrightarrow> cursor \<le> i \<and> i + 2 \<le> length text \<and> prefix ''</'' (drop i text)"
proof (induction "text" depth cursor rule: closing_template.induct)
  case (1 "text" depth cursor)
  then obtain close where close: "find_closing text cursor ''template'' = Some close"
    by (auto simp: closing_template.simps [of "text"] split: option.splits)
  note b = find_closing_bound [OF close]
  let ?left = "depth + length (filter (\<lambda>i. text ! i = CHR ''<'' \<and> opens_template text i) [cursor..<close]) - 1"
  show ?case
  proof (cases "?left = 0")
    case True
    with "1.prems" close b show ?thesis by (simp add: closing_template.simps [of "text"] Let_def)
  next
    case False
    with "1.prems" close have "closing_template text ?left (close + 2) = Some i"
      by (simp add: closing_template.simps [of "text" depth cursor] Let_def)
    from "1.IH" [OF close refl refl False this] b show ?thesis by simp
  qed
qed

section \<open>Elements\<close>

record element =
  el_name :: string
  el_open_tag :: string
  el_from :: nat
  el_till :: nat

lemma find_from_bound:
  assumes "find_from p cursor text = Some start" "p \<noteq> []"
  shows "cursor \<le> start \<and> start < length text \<and> prefix p (drop start text)"
proof -
  from assms(1) obtain i where i: "find_sub p (drop cursor text) = Some i" "start = cursor + i"
    by (auto simp: find_from_def)
  from find_sub_Some [OF i(1)] i(2) assms(2) show ?thesis by (cases p) (auto simp: add.commute)
qed

lemma tag_end_bound: "tag_end quote at s = Some i \<Longrightarrow> at < i \<and> i \<le> at + length s \<and> s ! (i - at - 1) = CHR ''>''"
  by (induction quote at s rule: tag_end.induct) (auto split: if_splits simp: nth_Cons')

lemma open_tag_bound:
  assumes "open_tag text start = Some (name, till)"
  shows "start < till \<and> till \<le> length text \<and> text ! (till - 1) = CHR ''>''"
proof -
  from assms have "tag_end None (start + 1 + length name) (drop (start + 1 + length name) text) = Some till"
    by (auto simp: open_tag_def Let_def add.commute split: if_splits)
  from tag_end_bound [OF this] have "start + 1 + length name < till \<and> till \<le> length text \<and>
      text ! (start + 1 + length name + (till - (start + 1 + length name) - 1)) = CHR ''>''" by auto
  moreover from this obtain k where "till = start + 1 + length name + Suc k" using less_iff_Suc_add by force
  ultimately show ?thesis by simp
qed

text \<open>The blocks of a Vue component, and the script and style elements of an HTML document.\<close>

function top_level_blocks :: "string \<Rightarrow> nat \<Rightarrow> element list" where
  "top_level_blocks text cursor =
     (case find_from ''<'' cursor text of
        None \<Rightarrow> []
      | Some start \<Rightarrow>
          if prefix ''<!--'' (drop start text) then
            (case find_from ''-->'' start text of
               None \<Rightarrow> []
             | Some close \<Rightarrow> top_level_blocks text (close + 3))
          else (case open_tag text start of
            None \<Rightarrow> top_level_blocks text (start + 1)
          | Some (name, opened) \<Rightarrow>
              let tag = span text start opened in
              if suffix ''/>'' tag then top_level_blocks text opened
              else (case (if same_name name ''template'' then closing_template text 1 opened
                          else find_closing text opened name) of
                None \<Rightarrow> []
              | Some close \<Rightarrow>
                  \<lparr>el_name = name, el_open_tag = tag, el_from = opened, el_till = close\<rparr> #
                    top_level_blocks text close)))"
  by pat_completeness auto
termination
  by (relation "measure (\<lambda>(text, cursor). length text - cursor)")
    (auto dest!: find_from_bound open_tag_bound closing_template_bound find_closing_bound split: if_splits)

declare top_level_blocks.simps [simp del]

function raw_text_elements :: "string \<Rightarrow> nat \<Rightarrow> element list" where
  "raw_text_elements text cursor =
     (case find_from ''<'' cursor text of
        None \<Rightarrow> []
      | Some start \<Rightarrow>
          (case open_tag text start of
             None \<Rightarrow> raw_text_elements text (start + 1)
           | Some (name, opened) \<Rightarrow>
               if \<not> (same_name name ''script'' \<or> same_name name ''style'') then raw_text_elements text (start + 1)
               else (case find_closing text opened name of
                 None \<Rightarrow> []
               | Some close \<Rightarrow>
                   \<lparr>el_name = name, el_open_tag = span text start opened, el_from = opened, el_till = close\<rparr> #
                     raw_text_elements text close)))"
  by pat_completeness auto
termination
  by (relation "measure (\<lambda>(text, cursor). length text - cursor)")
    (auto dest!: find_from_bound open_tag_bound closing_template_bound find_closing_bound split: if_splits)

declare raw_text_elements.simps [simp del]

section \<open>Attributes\<close>

lemma WHITE_SPACE_nonempty: "[] \<notin> set WHITE_SPACE"
  by code_simp

lemma strip_seqs_stops: "find (\<lambda>w. w \<noteq> [] \<and> prefix w (strip_seqs ws s)) ws = None"
proof (induction ws s rule: strip_seqs.induct)
  case (1 ws s)
  show ?case
  proof (cases "find (\<lambda>w. w \<noteq> [] \<and> prefix w s) ws")
    case None
    then show ?thesis by (simp add: strip_seqs.simps [of ws s])
  next
    case (Some w)
    with 1 [OF Some] show ?thesis by (simp add: strip_seqs.simps [of ws s])
  qed
qed

lemma trimmed_not_white: "\<not> starts_white (trim_start s)"
  using strip_seqs_stops [of WHITE_SPACE s] WHITE_SPACE_nonempty
  by (auto simp: starts_white_def trim_start_def find_None_iff)

lemma trim_start_length: "length (trim_start s) \<le> length s"
  unfolding trim_start_def by (rule suffix_length_le [OF strip_seqs_suffix])

definition skip_until :: "(string \<Rightarrow> bool) \<Rightarrow> string \<Rightarrow> string \<times> string" where
  "skip_until P s = (case find_at P s of None \<Rightarrow> (s, []) | Some n \<Rightarrow> (take n s, drop n s))"

lemma skip_until_append: "skip_until P s = (a, b) \<Longrightarrow> s = a @ b \<and> (a = [] \<longrightarrow> s = [] \<or> P s)"
proof (induction s arbitrary: a)
  case (Cons c s)
  then show ?case by (cases "find_at P s") (auto simp: skip_until_def split: if_splits)
qed (simp add: skip_until_def)

text \<open>A quoted value ends at its quote or at the end; a bare one at white space.\<close>

definition attribute_value :: "string \<Rightarrow> string \<times> string" where
  "attribute_value s =
     (case s of
        [] \<Rightarrow> ([], [])
      | q # t \<Rightarrow>
          if q \<in> {CHR 0x22, CHR 0x27} then
            (case find_sub [q] t of None \<Rightarrow> (t, []) | Some i \<Rightarrow> (take i t, drop (i + 1) t))
          else skip_until starts_white s)"

lemma attribute_value_length: "length (snd (attribute_value s)) \<le> length s"
proof -
  obtain a b where ab: "skip_until starts_white s = (a, b)" by fastforce
  then have "length b \<le> length s" using skip_until_append [OF ab] by simp
  with ab have "length (snd (skip_until starts_white s)) \<le> length s" by simp
  then show ?thesis by (cases s) (auto simp: attribute_value_def split: option.split)
qed

definition ends_name :: "string \<Rightarrow> bool" where
  "ends_name s \<longleftrightarrow> starts_white s \<or> prefix ''='' s"

definition next_attribute :: "string \<Rightarrow> string \<times> string option \<times> string" where
  "next_attribute rest =
     (let (name, after_name) = skip_until ends_name rest; rest1 = trim_start after_name in
      case strip_prefix ''='' rest1 of
        None \<Rightarrow> (name, None, rest1)
      | Some after \<Rightarrow> let (value, rest2) = attribute_value (trim_start after) in (name, Some value, rest2))"

lemma next_attribute_shorter:
  assumes "next_attribute rest = (name, value, rest2)" "rest \<noteq> []" "\<not> starts_white rest"
  shows "length rest2 < length rest"
proof -
  obtain a b where ab: "skip_until ends_name rest = (a, b)" by fastforce
  note split = skip_until_append [OF ab]
  show ?thesis
  proof (cases "strip_prefix ''='' (trim_start b)")
    case None
    have "a \<noteq> []"
    proof
      assume "a = []"
      with split assms(2,3) have p: "prefix ''='' b" by (auto simp: ends_name_def)
      then have "\<not> starts_white b" using split \<open>a = []\<close> assms(3) by simp
      then have "strip_seqs WHITE_SPACE b = b"
        by (subst strip_seqs.simps) (auto simp: starts_white_def find_None_iff split: option.splits dest: find_mem)
      with None p show False by (simp add: strip_prefix_def trim_start_def)
    qed
    moreover have "rest2 = trim_start b" using assms(1) ab None by (simp add: next_attribute_def)
    moreover have "length (trim_start b) \<le> length b" by (rule trim_start_length)
    ultimately show ?thesis using split by (cases a) simp_all
  next
    case (Some after)
    then have "length after < length (trim_start b)" by (auto simp: strip_prefix_Some)
    moreover have "rest2 = snd (attribute_value (trim_start after))"
      using assms(1) ab Some by (auto simp: next_attribute_def split: prod.splits)
    ultimately show ?thesis
      using split attribute_value_length [of "trim_start after"] trim_start_length [of after] trim_start_length [of b]
      by simp
  qed
qed

function attribute_in :: "string \<Rightarrow> string \<Rightarrow> string option" where
  "attribute_in name s =
     (let rest = trim_start s in
      if rest = [] then None
      else let (attr, value, rest2) = next_attribute rest in
        if same_name attr name then map_option to_ascii_lowercase value else attribute_in name rest2)"
  by pat_completeness auto
termination
proof (relation "measure (\<lambda>(name, s). length s)")
  fix name s rest x attr y and "value" :: "string option" and rest2
  assume "rest = trim_start s" "rest \<noteq> []" "x = next_attribute rest" "(attr, y) = x" "(value, rest2) = y"
  with next_attribute_shorter [of rest attr "value" rest2] trimmed_not_white [of s] trim_start_length [of s]
  show "((name, rest2), name, s) \<in> measure (\<lambda>(name, s). length s)" by simp
qed simp

declare attribute_in.simps [simp del]

definition trim_end_matches :: "char \<Rightarrow> string \<Rightarrow> string" where
  "trim_end_matches c s = rev (dropWhile (\<lambda>x. x = c) (rev s))"

definition attribute :: "string \<Rightarrow> string \<Rightarrow> string option" where
  "attribute tag name =
     (case strip_prefix ''<'' tag of
        None \<Rightarrow> None
      | Some t \<Rightarrow>
          attribute_in name (snd (skip_until starts_white (trim_end_matches CHR ''/'' (trim_end_matches CHR ''>'' t)))))"

definition is_raw :: "lang \<Rightarrow> element \<Rightarrow> bool" where
  "is_raw lang el =
     (let tag = attribute (el_open_tag el) ''lang'' in
      if same_name (el_name el) ''script'' then (case tag of None \<Rightarrow> False | Some v \<Rightarrow> \<not> is_script_tag v)
      else if same_name (el_name el) ''style'' then (case tag of None \<Rightarrow> False | Some v \<Rightarrow> \<not> is_style_tag v)
      else if same_name (el_name el) ''template'' then lang = Vue \<and> (case tag of None \<Rightarrow> False | Some v \<Rightarrow> v \<noteq> ''html'')
      else lang = Vue)"

section \<open>Masking\<close>

definition TOKEN :: string where "TOKEN = ''__fmtkit_raw_block_''"

definition placeholder :: "nat \<Rightarrow> string" where
  "placeholder i = TOKEN @ decimal i @ ''__''"

record masked =
  mk_text :: string
  mk_bodies :: "string list"
  mk_swaps :: "(nat \<times> nat \<times> nat) list"

text \<open>The body from the line of its first character that is not white space.\<close>

definition tidy_body :: "string \<Rightarrow> string option" where
  "tidy_body body =
     (if trim_start body = [] then None
      else let blank = take (length body - length (trim_start body)) body;
               start = (case rsplit_once newline blank of None \<Rightarrow> 0 | Some (ahead, _) \<Rightarrow> length ahead + 1)
           in Some (trim_end (drop start body)))"

fun mask_elements :: "string \<Rightarrow> nat \<Rightarrow> element list \<Rightarrow> masked \<Rightarrow> masked \<times> nat" where
  "mask_elements text cursor [] m = (m, cursor)"
| "mask_elements text cursor (el # els) m =
     (case tidy_body (span text (el_from el) (el_till el)) of
        None \<Rightarrow> mask_elements text cursor els m
      | Some body \<Rightarrow>
          let token = placeholder (length (mk_bodies m)); ahead = mk_text m @ span text cursor (el_from el) in
          mask_elements text (el_till el) els
            \<lparr>mk_text = ahead @ token, mk_bodies = mk_bodies m @ [body],
             mk_swaps = mk_swaps m @ [(length ahead, length token, el_till el - el_from el)]\<rparr>)"

definition raw_elements :: "lang \<Rightarrow> string \<Rightarrow> element list" where
  "raw_elements lang text =
     filter (is_raw lang) (if lang = Vue then top_level_blocks text 0 else raw_text_elements text 0)"

definition mask :: "lang \<Rightarrow> string \<Rightarrow> masked option" where
  "mask lang text =
     (if contains_sub TOKEN text then None
      else let (m, cursor) = mask_elements text 0 (raw_elements lang text) \<lparr>mk_text = [], mk_bodies = [], mk_swaps = []\<rparr>
           in if mk_bodies m = [] then None
              else Some (m\<lparr>mk_text := mk_text m @ drop cursor text\<rparr>))"

fun shift_offset :: "nat \<Rightarrow> nat \<Rightarrow> (nat \<times> nat \<times> nat) list \<Rightarrow> nat" where
  "shift_offset offset shifted [] = shifted"
| "shift_offset offset shifted ((start, token, body) # swaps) =
     (if offset < start then shifted
      else shift_offset offset
        (if offset < start + token then shifted - (offset - start) else shifted - token + body) swaps)"

definition original_offset :: "masked \<Rightarrow> nat \<Rightarrow> nat" where
  "original_offset m offset = shift_offset offset offset (mk_swaps m)"

section \<open>Restoring\<close>

text \<open>The offset after the last \<open>c\<close>.\<close>

definition after_last :: "char \<Rightarrow> string \<Rightarrow> nat option" where
  "after_last c s = (case rsplit_once c s of None \<Rightarrow> None | Some (ahead, _) \<Rightarrow> Some (length ahead + 1))"

definition restore_one :: "nat \<Rightarrow> string \<Rightarrow> string \<Rightarrow> string option" where
  "restore_one index body out =
     (let token = placeholder index in
      case find_sub token out of
        None \<Rightarrow> None
      | Some at \<Rightarrow>
          (case after_last CHR ''>'' (take at out) of
             None \<Rightarrow> None
           | Some opened \<Rightarrow>
               (case find_from ''<'' (at + length token) out of
                  None \<Rightarrow> None
                | Some close \<Rightarrow>
                    let line = (case after_last newline (take close out) of None \<Rightarrow> 0 | Some l \<Rightarrow> l);
                        till = (if opened < line \<and> trim_ws (span out line close) = [] then line else close)
                    in Some (take opened out @ [newline] @ body @ [newline] @ drop till out))))"

fun restore_from :: "nat \<Rightarrow> string list \<Rightarrow> string \<Rightarrow> string option" where
  "restore_from index [] out = Some out"
| "restore_from index (body # bodies) out =
     (case restore_one index body out of None \<Rightarrow> None | Some next \<Rightarrow> restore_from (index + 1) bodies next)"

definition restore :: "masked \<Rightarrow> string \<Rightarrow> string option" where
  "restore m formatted = restore_from 0 (mk_bodies m) formatted"

text \<open>
  What masking keeps: every raw body comes back verbatim apart from the blank lines around it, however the
  document around the placeholders was formatted, and offsets of the masked text are offsets of the document.
\<close>

section \<open>White space\<close>

lemma strip_seqs_split: "\<exists>p. s = p @ strip_seqs ws s \<and> set p \<subseteq> \<Union> (set ` set ws)"
proof (induction ws s rule: strip_seqs.induct)
  case (1 ws s)
  show ?case
  proof (cases "find (\<lambda>w. w \<noteq> [] \<and> prefix w s) ws")
    case None
    then show ?thesis by (simp add: strip_seqs.simps [of ws s])
  next
    case (Some w)
    from 1 [OF Some] obtain p where p: "drop (length w) s = p @ strip_seqs ws (drop (length w) s)"
        "set p \<subseteq> \<Union> (set ` set ws)" by blast
    from find_mem [OF Some] have "w \<in> set ws" "s = w @ drop (length w) s" by (auto elim: prefixE)
    with p Some show ?thesis by (intro exI [of _ "w @ p"]) (auto simp: strip_seqs.simps [of ws s])
  qed
qed

lemma underscore_not_white: "CHR ''_'' \<notin> \<Union> (set ` set WHITE_SPACE)"
  by code_simp

lemma trimmed_has_no_word:
  assumes "trim_ws s = []"
  shows "CHR ''_'' \<notin> set s"
proof -
  obtain p where p: "s = p @ trim_start s" "set p \<subseteq> \<Union> (set ` set WHITE_SPACE)"
    using strip_seqs_split [of s WHITE_SPACE] by (auto simp: trim_start_def)
  obtain r where r: "rev (trim_start s) = r @ strip_seqs (map rev WHITE_SPACE) (rev (trim_start s))"
      "set r \<subseteq> \<Union> (set ` set (map rev WHITE_SPACE))"
    using strip_seqs_split [of "rev (trim_start s)" "map rev WHITE_SPACE"] by blast
  from assms have "strip_seqs (map rev WHITE_SPACE) (rev (trim_start s)) = []" by (simp add: trim_ws_def trim_end_def)
  with r(1) have "set (trim_start s) = set r" using set_rev [of "trim_start s"] by simp
  moreover have "\<Union> (set ` set (map rev WHITE_SPACE)) = \<Union> (set ` set WHITE_SPACE)" by simp
  ultimately have "set (trim_start s) \<subseteq> \<Union> (set ` set WHITE_SPACE)" using r(2) by simp
  moreover have "set s = set p \<union> set (trim_start s)" using arg_cong [OF p(1), of set] by simp
  ultimately show ?thesis using p(2) underscore_not_white by blast
qed

definition blank_chars :: "char set" where
  "blank_chars = {CHR '' '', CHR 0x09, newline}"

lemma blank_first: "c \<in> blank_chars \<Longrightarrow> find (\<lambda>w. w \<noteq> [] \<and> prefix w (c # s)) WHITE_SPACE = Some [c]"
  unfolding blank_chars_def WHITE_SPACE_code by (elim insertE emptyE) simp_all

lemma trim_blank: "set s \<subseteq> blank_chars \<Longrightarrow> trim_ws s = []"
proof -
  assume "set s \<subseteq> blank_chars"
  then have "strip_seqs WHITE_SPACE s = []"
  proof (induction s)
    case Nil
    then show ?case by (subst strip_seqs.simps) (auto split: option.split dest: find_mem)
  next
    case (Cons c s)
    then show ?case by (subst strip_seqs.simps) (simp add: blank_first)
  qed
  then show ?thesis
    by (simp add: trim_ws_def trim_start_def trim_end_def)
      (subst strip_seqs.simps, auto split: option.split dest: find_mem)
qed

section \<open>Finding\<close>

lemma sublist_apart:
  assumes "c \<notin> set t" "t \<noteq> []"
  shows "sublist t (a @ c # b) \<longleftrightarrow> sublist t a \<or> sublist t b"
proof
  assume "sublist t (a @ c # b)"
  then obtain x y where xy: "a @ c # b = x @ t @ y" by (auto simp: sublist_def)
  show "sublist t a \<or> sublist t b"
  proof (cases "length (x @ t) \<le> length a")
    case True
    with xy have "take (length (x @ t)) a = x @ t" by (metis append.assoc append_eq_append_conv_if append_eq_conv_conj)
    then have "a = x @ t @ drop (length (x @ t)) a" by (metis append.assoc append_take_drop_id)
    then show ?thesis by (auto simp: sublist_def)
  next
    case False
    have "length a < length x"
    proof (rule ccontr)
      assume "\<not> length a < length x"
      then have l: "length x \<le> length a" "length a < length x + length t" using False by simp_all
      have "(x @ t @ y) ! length a = c" by (metis xy nth_append_length)
      moreover have "length a - length x < length t" using l by linarith
      ultimately have "t ! (length a - length x) = c" using l by (simp add: nth_append)
      moreover have "length a - length x < length t" using l by linarith
      ultimately show False using assms(1) nth_mem by fastforce
    qed
    then have "drop (Suc (length a)) x @ t @ y = b"
      using arg_cong [OF xy, of "drop (Suc (length a))"] by simp
    then show ?thesis by (auto simp: sublist_def)
  qed
next
  assume "sublist t a \<or> sublist t b"
  then show "sublist t (a @ c # b)" by (auto simp: sublist_append sublist_Cons_right)
qed

lemma sublist_apart_list:
  "set w \<inter> set t = {} \<Longrightarrow> t \<noteq> [] \<Longrightarrow> sublist t (a @ w) \<longleftrightarrow> sublist t a"
proof (induction w arbitrary: a)
  case (Cons c w)
  from Cons.prems have "sublist t (a @ c # w) \<longleftrightarrow> sublist t a \<or> sublist t ([] @ w)" by (simp add: sublist_apart)
  also have "sublist t ([] @ w) \<longleftrightarrow> sublist t []" using Cons.IH [of "[]"] Cons.prems by simp
  finally show ?case using Cons.prems by simp
qed simp

lemma find_sub_first:
  assumes "\<not> sublist t r" "r \<noteq> []" "last r \<notin> set t" "t \<noteq> []"
  shows "find_sub t (r @ t @ s) = Some (length r)"
proof -
  have "find_sub t (r' @ t @ s) = Some (length r')"
    if "\<not> sublist t r'" "r' = [] \<or> last r' \<notin> set t" for r'
    using that
  proof (induction r')
    case Nil
    obtain c u where cu: "t @ s = c # u" using assms(4) by (cases t) auto
    then have "prefix t (c # u)" by (metis prefixI)
    with cu show ?case by simp
  next
    case (Cons c r')
    have "\<not> prefix t (c # r' @ t @ s)"
    proof
      assume "prefix t (c # r' @ t @ s)"
      then obtain z where z: "c # r' @ t @ s = t @ z" by (auto elim: prefixE)
      show False
      proof (cases "length t \<le> length (c # r')")
        case True
        moreover have "prefix (c # r') (c # r' @ t @ s)" by simp
        ultimately have "prefix t (c # r')" using \<open>prefix t (c # r' @ t @ s)\<close> by (metis prefix_length_prefix)
        with Cons.prems(1) show False by (auto intro: prefix_imp_sublist)
      next
        case False
        then have k: "length r' < length t" by simp
        have "(c # r' @ t @ s) ! length r' = last (c # r')" by (metis append_Cons last_conv_nth length_Cons lessI list.distinct(1) nth_append diff_Suc_1)
        with k have "t ! length r' = last (c # r')" by (simp add: z nth_append)
        with k Cons.prems(2) nth_mem [OF k] show False by simp
      qed
    qed
    moreover have "\<not> sublist t r'" using Cons.prems(1) by (auto simp: sublist_Cons_right)
    moreover have "r' = [] \<or> last r' \<notin> set t" using Cons.prems(2) by auto
    ultimately show ?case using Cons.IH by simp
  qed
  with assms show ?thesis by blast
qed

lemma after_last_of: "c \<notin> set w \<Longrightarrow> after_last c (a @ c # w) = Some (length a + 1)"
proof -
  assume "c \<notin> set w"
  then have "rsplit_once c (a @ c # w) = Some (a, w)" by (simp add: rsplit_once_Some)
  then show ?thesis by (simp add: after_last_def)
qed

lemma find_less: "CHR ''<'' \<notin> set v \<Longrightarrow> find_sub ''<'' (v @ CHR ''<'' # z) = Some (length v)"
  by (induction v) auto

section \<open>Restoring\<close>

lemma token_chars:
  "TOKEN \<noteq> []" "\<not> is_digit c \<Longrightarrow> c \<notin> set ''_fmtkirawbloc'' \<Longrightarrow> c \<notin> set (placeholder i) \<and> c \<notin> set TOKEN"
  "CHR ''_'' \<in> set (placeholder i)" "prefix TOKEN (placeholder i)" "placeholder i \<noteq> []"
  using decimal_digits [of c i] by (auto simp: TOKEN_def placeholder_def is_digit_def)

lemma outside_token:
  "c \<in> {CHR ''<'', CHR ''>'', newline} \<union> blank_chars \<Longrightarrow> c \<notin> set (placeholder i) \<and> c \<notin> set TOKEN"
  by (rule token_chars(2)) (auto simp: blank_chars_def is_digit_def)

lemma placeholder_sublist: "sublist (placeholder i) s \<Longrightarrow> sublist TOKEN s"
  using token_chars(4) [of i] by (meson prefix_imp_sublist sublist_order.order_trans)

text \<open>A document of pieces, each before a placeholder between white space, and what follows the last.\<close>

type_synonym pieces = "(string \<times> string \<times> string) list"

fun lay :: "nat \<Rightarrow> pieces \<Rightarrow> string \<Rightarrow> string" where
  "lay i [] rest = rest"
| "lay i ((q, w, v) # ps) rest = q @ w @ placeholder i @ v @ lay (i + 1) ps rest"

definition next_piece :: "pieces \<Rightarrow> string \<Rightarrow> string" where
  "next_piece ps rest = (case ps of [] \<Rightarrow> rest | (q, _, _) # _ \<Rightarrow> q)"

fun framed :: "pieces \<Rightarrow> string \<Rightarrow> bool" where
  "framed [] rest = True"
| "framed ((q, w, v) # ps) rest \<longleftrightarrow>
     suffix ''>'' q \<and> \<not> sublist TOKEN q \<and> set w \<subseteq> blank_chars \<and> set v \<subseteq> blank_chars \<and>
     prefix ''<'' (next_piece ps rest) \<and> framed ps rest"

definition last_line :: "string \<Rightarrow> string" where
  "last_line v = (case rsplit_once newline v of None \<Rightarrow> [] | Some (_, l) \<Rightarrow> l)"

fun unlay :: "pieces \<Rightarrow> string list \<Rightarrow> string \<Rightarrow> string" where
  "unlay ((q, w, v) # ps) (body # bodies) rest = q @ newline # body @ newline # last_line v @ unlay ps bodies rest"
| "unlay ps bodies rest = rest"

lemma last_line_blank: "set v \<subseteq> blank_chars \<Longrightarrow> set (last_line v) \<subseteq> blank_chars"
  by (cases "rsplit_once newline v") (auto simp: last_line_def rsplit_once_Some)

lemma lay_starts: "prefix ''<'' (next_piece ps rest) \<Longrightarrow> \<exists>z. lay i ps rest = CHR ''<'' # z"
  by (cases ps) (auto simp: next_piece_def elim!: prefixE split: prod.splits)

lemma restore_one_step:
  assumes "suffix ''>'' q" "\<not> sublist TOKEN (ahead @ q)" "set w \<subseteq> blank_chars" "set v \<subseteq> blank_chars"
  shows "restore_one i body (ahead @ q @ w @ placeholder i @ v @ CHR ''<'' # z) =
    Some (ahead @ q @ newline # body @ newline # last_line v @ CHR ''<'' # z)"
proof -
  let ?r = "ahead @ q @ w" and ?t = "placeholder i"
  let ?out = "?r @ ?t @ v @ CHR ''<'' # z"
  from assms(1) obtain q' where q: "q = q' @ [CHR ''>'']" by (auto elim: suffixE)
  have "set w \<inter> set TOKEN = {}" using assms(3) outside_token by blast
  then have "\<not> sublist TOKEN ?r" using assms(2) sublist_apart_list [of w TOKEN "ahead @ q"] token_chars(1) by simp
  then have free: "\<not> sublist ?t ?r" using placeholder_sublist by blast
  have "last ?r \<in> {CHR ''<'', CHR ''>'', newline} \<union> blank_chars" using assms(3) q by (cases w rule: rev_cases) auto
  then have "last ?r \<notin> set ?t" using outside_token by blast
  from find_sub_first [OF free _ this token_chars(5)] q
  have at: "find_sub ?t ?out = Some (length ?r)" by simp
  have "CHR ''>'' \<notin> set w" using assms(3) by (auto simp: blank_chars_def)
  from after_last_of [OF this, of "ahead @ q'"] have opened: "after_last CHR ''>'' ?r = Some (length (ahead @ q))"
    by (simp add: q)
  have "CHR ''<'' \<notin> set v" using assms(4) by (auto simp: blank_chars_def)
  then have close: "find_from ''<'' (length ?r + length ?t) ?out = Some (length (?r @ ?t @ v))"
    by (simp add: find_from_def find_less)
  define line where "line = (case after_last newline (?r @ ?t @ v) of None \<Rightarrow> 0 | Some l \<Rightarrow> l)"
  have "drop (if length (ahead @ q) < line \<and> trim_ws (span ?out line (length (?r @ ?t @ v))) = []
      then line else length (?r @ ?t @ v)) ?out = last_line v @ CHR ''<'' # z"
  proof (cases "newline \<in> set v")
    case True
    then obtain v1 v2 where v: "v = v1 @ newline # v2" "newline \<notin> set v2" by (meson split_list_last)
    then have line: "line = length (?r @ ?t @ v1) + 1"
      using after_last_of [of newline v2 "?r @ ?t @ v1"] by (simp add: line_def)
    have "span ?out line (length (?r @ ?t @ v)) = v2" by (simp add: line span_def v)
    moreover have "trim_ws v2 = []" using v assms(4) by (intro trim_blank) auto
    moreover have "last_line v = v2"
      using v rsplit_once_Some [of newline v v1 v2] by (simp add: last_line_def)
    ultimately show ?thesis by (simp add: line v)
  next
    case False
    have none: "last_line v = []" using False by (simp add: last_line_def rsplit_once_None [THEN iffD2])
    have nl: "newline \<notin> set ?t" using outside_token by blast
    have "line \<le> length ?r"
    proof (cases "rsplit_once newline (?r @ ?t @ v)")
      case (Some ab)
      obtain a b where ab: "ab = (a, b)" by fastforce
      with Some have s: "?r @ ?t @ v = a @ newline # b" by (simp add: rsplit_once_Some)
      have "length a < length ?r"
      proof (rule ccontr)
        assume "\<not> length a < length ?r"
        moreover have "(?r @ ?t @ v) ! length a = newline" by (simp only: s nth_append_length)
        moreover have "length a < length (?r @ ?t @ v)" by (simp only: s) simp
        ultimately have "newline \<in> set (?t @ v)" by (metis add_diff_inverse_nat length_append nat_add_left_cancel_less nth_append nth_mem)
        with nl False show False by simp
      qed
      with Some ab show ?thesis by (simp add: line_def after_last_def)
    qed (simp add: line_def after_last_def)
    have "span ((?r @ ?t @ v) @ CHR ''<'' # z) line (length (?r @ ?t @ v)) = drop line (?r @ ?t @ v)"
      by (simp only: span_def drop_append take_append) (use \<open>line \<le> length ?r\<close> in simp)
    then have "span ?out line (length (?r @ ?t @ v)) = drop line (?r @ ?t @ v)" by simp
    then have "CHR ''_'' \<in> set (span ?out line (length (?r @ ?t @ v)))"
      using token_chars(3) [of i] \<open>line \<le> length ?r\<close> by simp
    then have "trim_ws (span ?out line (length (?r @ ?t @ v))) \<noteq> []" using trimmed_has_no_word by blast
    then show ?thesis by (simp add: none)
  qed
  note till = this
  have "take (length ?r) ?out = ?r" "take (length (?r @ ?t @ v)) ?out = ?r @ ?t @ v"
    "take (length (ahead @ q)) ?out = ahead @ q" by simp_all
  note taken = this
  have "restore_one i body ?out = Some ((ahead @ q) @ [newline] @ body @ [newline] @ last_line v @ CHR ''<'' # z)"
    by (simp only: restore_one_def Let_def at option.case taken opened close line_def [symmetric] till)
  then show ?thesis by simp
qed

lemma free_after_tag:
  assumes "\<not> sublist TOKEN ahead" "ahead = [] \<or> prefix ''<'' q" "\<not> sublist TOKEN q"
  shows "\<not> sublist TOKEN (ahead @ q)"
proof (cases "ahead = []")
  case False
  with assms(2) obtain q' where q: "q = CHR ''<'' # q'" by (auto elim: prefixE)
  have lt: "CHR ''<'' \<notin> set TOKEN" using outside_token by blast
  have "\<not> sublist TOKEN q'" using assms(3) by (simp add: q sublist_Cons_right)
  with assms(1) sublist_apart [OF lt token_chars(1)] show ?thesis by (simp add: q)
qed (use assms in simp)

lemma restore_lay:
  assumes "framed ps rest" "length ps = length bodies" "\<forall>b \<in> set bodies. \<not> sublist TOKEN b"
    "\<not> sublist TOKEN ahead" "ahead = [] \<or> prefix ''<'' (next_piece ps rest)"
  shows "restore_from i bodies (ahead @ lay i ps rest) = Some (ahead @ unlay ps bodies rest)"
  using assms
proof (induction bodies arbitrary: ps ahead i)
  case (Cons body bodies)
  then obtain q w v ps' where ps: "ps = (q, w, v) # ps'" by (cases ps) auto
  with Cons.prems have f: "suffix ''>'' q" "\<not> sublist TOKEN q" "set w \<subseteq> blank_chars" "set v \<subseteq> blank_chars"
      "prefix ''<'' (next_piece ps' rest)" "framed ps' rest" by simp_all
  from Cons.prems(5) have "ahead = [] \<or> prefix ''<'' q" by (auto simp: ps next_piece_def)
  from free_after_tag [OF Cons.prems(4) this f(2)] have free: "\<not> sublist TOKEN (ahead @ q)" .
  obtain z where z: "lay (i + 1) ps' rest = CHR ''<'' # z" using lay_starts [OF f(5)] by blast
  from restore_one_step [OF f(1) free f(3,4), of i body z] z
  have step: "restore_one i body (ahead @ lay i ps rest) =
      Some ((ahead @ q @ newline # body @ newline # last_line v) @ lay (i + 1) ps' rest)"
    by (simp add: ps)
  have nl: "newline \<notin> set TOKEN" using outside_token by blast
  have "set (last_line v) \<inter> set TOKEN = {}" using last_line_blank [OF f(4)] outside_token by blast
  from sublist_apart_list [OF this token_chars(1), of "[]"] have "\<not> sublist TOKEN (last_line v)"
    using token_chars(1) by simp
  then have "\<not> sublist TOKEN ((ahead @ q) @ newline # body @ newline # last_line v)"
    using free Cons.prems(3) by (simp only: sublist_apart [OF nl token_chars(1)]) simp
  then have "restore_from (i + 1) bodies ((ahead @ q @ newline # body @ newline # last_line v) @ lay (i + 1) ps' rest) =
      Some ((ahead @ q @ newline # body @ newline # last_line v) @ unlay ps' bodies rest)"
    using Cons.prems(2,3) f(5,6) by (intro Cons.IH) (simp_all add: ps)
  with step show ?case by (simp add: ps)
qed (cases ps; simp)

section \<open>Where the elements lie\<close>

fun placed :: "string \<Rightarrow> nat \<Rightarrow> element list \<Rightarrow> bool" where
  "placed text cursor [] = True"
| "placed text cursor (el # els) \<longleftrightarrow>
     cursor < el_from el \<and> el_from el \<le> el_till el \<and> el_till el \<le> length text \<and> text ! (el_from el - 1) = CHR ''>'' \<and>
     prefix ''<'' (drop (el_till el) text) \<and> placed text (el_till el) els"

lemma placed_earlier: "placed text cursor els \<Longrightarrow> at \<le> cursor \<Longrightarrow> placed text at els"
  by (cases els) auto

lemma placed_filter: "placed text cursor els \<Longrightarrow> placed text cursor (filter P els)"
proof (induction els arbitrary: cursor)
  case (Cons el els)
  then have "placed text (el_till el) (filter P els)" by simp
  with Cons.prems placed_earlier [OF this, of cursor] show ?case by simp
qed simp

lemma closing_starts: "prefix ''</'' s \<Longrightarrow> prefix ''<'' s"
  by (auto elim!: prefixE)

lemma placed_blocks: "placed text cursor (top_level_blocks text cursor)"
proof (induction "text" cursor rule: top_level_blocks.induct)
  case (1 "text" cursor)
  show ?case
  proof (cases "find_from ''<'' cursor text")
    case None
    then show ?thesis by (simp add: top_level_blocks.simps [of "text" cursor])
  next
    case (Some start)
    note s = find_from_bound [OF Some, simplified]
    show ?thesis
    proof (cases "prefix ''<!--'' (drop start text)")
      case comment: True
      show ?thesis
      proof (cases "find_from ''-->'' start text")
        case None
        with Some comment show ?thesis by (simp add: top_level_blocks.simps [of "text" cursor])
      next
        case (Some close)
        from "1.IH"(1) [OF \<open>find_from ''<'' cursor text = Some start\<close> comment Some]
          find_from_bound [OF Some, simplified] s placed_earlier
        have "placed text cursor (top_level_blocks text (close + 3))" by (meson le_trans le_add1)
        with Some comment \<open>find_from ''<'' cursor text = Some start\<close> show ?thesis
          by (simp add: top_level_blocks.simps [of "text" cursor])
      qed
    next
      case plain: False
      show ?thesis
      proof (cases "open_tag text start")
        case None
        from "1.IH"(2) [OF Some plain None] s placed_earlier
        have "placed text cursor (top_level_blocks text (start + 1))" by (meson le_trans le_add1)
        with Some plain None show ?thesis by (simp add: top_level_blocks.simps [of "text" cursor])
      next
        case tag: (Some r)
        obtain name opened where r: "r = (name, opened)" by fastforce
        note o = open_tag_bound [OF tag [unfolded r]]
        show ?thesis
        proof (cases "suffix ''/>'' (span text start opened)")
          case True
          from "1.IH"(3) [OF Some plain tag r [symmetric] refl True] s o placed_earlier
          have "placed text cursor (top_level_blocks text opened)" by (meson le_trans less_imp_le)
          with Some plain tag r True show ?thesis by (simp add: top_level_blocks.simps [of "text" cursor] Let_def)
        next
          case False
          show ?thesis
          proof (cases "if same_name name ''template'' then closing_template text 1 opened else find_closing text opened name")
            case None
            with Some plain tag r False show ?thesis by (simp add: top_level_blocks.simps [of "text" cursor] Let_def)
          next
            case close: (Some close)
            then have c: "opened \<le> close \<and> close + 2 \<le> length text \<and> prefix ''</'' (drop close text)"
              by (auto split: if_splits dest: closing_template_bound find_closing_bound)
            from "1.IH"(4) [OF Some plain tag r [symmetric] refl False close]
            have "placed text close (top_level_blocks text close)" .
            with Some plain tag r False close c s o show ?thesis
              by (simp add: top_level_blocks.simps [of "text" cursor] Let_def closing_starts)
          qed
        qed
      qed
    qed
  qed
qed

lemma placed_raw_text: "placed text cursor (raw_text_elements text cursor)"
proof (induction "text" cursor rule: raw_text_elements.induct)
  case (1 "text" cursor)
  show ?case
  proof (cases "find_from ''<'' cursor text")
    case None
    then show ?thesis by (simp add: raw_text_elements.simps [of "text" cursor])
  next
    case (Some start)
    note s = find_from_bound [OF Some, simplified]
    show ?thesis
    proof (cases "open_tag text start")
      case None
      from "1.IH"(1) [OF Some None] s placed_earlier
      have "placed text cursor (raw_text_elements text (start + 1))" by (meson le_trans le_add1)
      with Some None show ?thesis by (simp add: raw_text_elements.simps [of "text" cursor])
    next
      case tag: (Some r)
      obtain name opened where r: "r = (name, opened)" by fastforce
      note o = open_tag_bound [OF tag [unfolded r]]
      show ?thesis
      proof (cases "same_name name ''script'' \<or> same_name name ''style''")
        case False
        then have other: "\<not> (same_name name ''script'' \<or> same_name name ''style'')" by simp
        from "1.IH"(2) [OF Some tag r [symmetric] other] s placed_earlier
        have "placed text cursor (raw_text_elements text (start + 1))" by (meson le_trans le_add1)
        with Some tag r other show ?thesis by (simp add: raw_text_elements.simps [of "text" cursor])
      next
        case True
        then have own: "\<not> \<not> (same_name name ''script'' \<or> same_name name ''style'')" by simp
        show ?thesis
        proof (cases "find_closing text opened name")
          case None
          with Some tag r True show ?thesis by (auto simp: raw_text_elements.simps [of "text" cursor])
        next
          case close: (Some close)
          note c = find_closing_bound [OF close]
          from "1.IH"(3) [OF Some tag r [symmetric] own close]
          have "placed text close (raw_text_elements text close)" .
          with Some tag r True close c s o show ?thesis
            by (auto simp: raw_text_elements.simps [of "text" cursor] closing_starts)
        qed
      qed
    qed
  qed
qed

lemma placed_raw: "placed text 0 (raw_elements lang text)"
  by (simp add: raw_elements_def placed_filter placed_blocks placed_raw_text)

section \<open>Pieces of a document\<close>

text \<open>What is in front of a raw body, the body, and the body tidied; and what is behind the last.\<close>

fun cut :: "string \<Rightarrow> nat \<Rightarrow> element list \<Rightarrow> (string \<times> string \<times> string) list \<times> string" where
  "cut text cursor [] = ([], drop cursor text)"
| "cut text cursor (el # els) =
     (case tidy_body (span text (el_from el) (el_till el)) of
        None \<Rightarrow> cut text cursor els
      | Some body \<Rightarrow>
          let (cs, rest) = cut text (el_till el) els
          in ((span text cursor (el_from el), span text (el_from el) (el_till el), body) # cs, rest))"

definition raw_pieces :: "lang \<Rightarrow> string \<Rightarrow> (string \<times> string \<times> string) list" where
  "raw_pieces lang text = fst (cut text 0 (raw_elements lang text))"

definition raw_rest :: "lang \<Rightarrow> string \<Rightarrow> string" where
  "raw_rest lang text = snd (cut text 0 (raw_elements lang text))"

abbreviation (input) bare :: "(string \<times> string \<times> string) list \<Rightarrow> pieces" where
  "bare cs \<equiv> map (\<lambda>(q, body, tidied). (q, [], [])) cs"

fun swaps_of :: "nat \<Rightarrow> nat \<Rightarrow> (string \<times> string \<times> string) list \<Rightarrow> (nat \<times> nat \<times> nat) list" where
  "swaps_of base i [] = []"
| "swaps_of base i ((q, body, tidied) # cs) =
     (base + length q, length (placeholder i), length body) #
     swaps_of (base + length q + length (placeholder i)) (i + 1) cs"

lemma cut_mask:
  assumes "placed text cursor els" "mask_elements text cursor els m = (m', c)" "cut text cursor els = (cs, rest)"
  shows "mk_text m' @ drop c text = mk_text m @ lay (length (mk_bodies m)) (bare cs) rest \<and>
    mk_bodies m' = mk_bodies m @ map (\<lambda>(q, body, tidied). tidied) cs \<and>
    mk_swaps m' = mk_swaps m @ swaps_of (length (mk_text m)) (length (mk_bodies m)) cs"
  using assms
proof (induction els arbitrary: cursor m cs)
  case (Cons el els)
  show ?case
  proof (cases "tidy_body (span text (el_from el) (el_till el))")
    case None
    have "placed text cursor els" using Cons.prems(1) placed_earlier [of "text" "el_till el" els cursor] by simp
    with Cons.IH [OF this, of m cs] Cons.prems None show ?thesis by simp
  next
    case (Some body)
    obtain cs' where cs: "cut text (el_till el) els = (cs', rest)"
      "cs = (span text cursor (el_from el), span text (el_from el) (el_till el), body) # cs'"
      using Cons.prems(3) Some by (auto split: prod.splits)
    let ?ahead = "mk_text m @ span text cursor (el_from el)" and ?token = "placeholder (length (mk_bodies m))"
    let ?m = "\<lparr>mk_text = ?ahead @ ?token, mk_bodies = mk_bodies m @ [body],
      mk_swaps = mk_swaps m @ [(length ?ahead, length ?token, el_till el - el_from el)]\<rparr>"
    have "mask_elements text (el_till el) els ?m = (m', c)" using Cons.prems(2) Some by (simp add: Let_def)
    from Cons.IH [OF _ this cs(1)] Cons.prems(1) show ?thesis by (simp add: cs(2) add.assoc)
  qed
qed simp

lemma cut_text:
  assumes "placed text cursor els" "cursor \<le> length text" "cut text cursor els = (cs, rest)"
  shows "drop cursor text = concat (map (\<lambda>(q, body, tidied). q @ body) cs) @ rest \<and>
    (\<forall>(q, body, tidied) \<in> set cs. tidy_body body = Some tidied)"
  using assms
proof (induction els arbitrary: cursor cs)
  case (Cons el els)
  show ?case
  proof (cases "tidy_body (span text (el_from el) (el_till el))")
    case None
    have "placed text cursor els" using Cons.prems(1) placed_earlier [of "text" "el_till el" els cursor] by simp
    with Cons.IH [OF this, of cs] Cons.prems None show ?thesis by simp
  next
    case (Some body)
    obtain cs' where cs: "cut text (el_till el) els = (cs', rest)"
      "cs = (span text cursor (el_from el), span text (el_from el) (el_till el), body) # cs'"
      using Cons.prems(3) Some by (auto split: prod.splits)
    have parts: "span text cursor (el_from el) @ span text (el_from el) (el_till el) = span text cursor (el_till el)"
      "span text cursor (el_till el) @ span text (el_till el) (length text) = span text cursor (length text)"
      using Cons.prems(1) by (auto intro: span_append)
    have "drop cursor text = span text cursor (el_from el) @ span text (el_from el) (el_till el) @ drop (el_till el) text"
      unfolding span_drop [symmetric] parts(2) [symmetric] parts(1) [symmetric] append_assoc ..
    with Cons.IH [OF _ _ cs(1)] Cons.prems(1) Some show ?thesis by (simp add: cs(2))
  qed
qed simp

lemma cut_framed:
  assumes "placed text cursor els" "cursor \<le> length text" "cut text cursor els = (cs, rest)" "\<not> sublist TOKEN text"
  shows "framed (bare cs) rest \<and> (prefix ''<'' (drop cursor text) \<longrightarrow> prefix ''<'' (next_piece (bare cs) rest))"
  using assms
proof (induction els arbitrary: cursor cs)
  case (Cons el els)
  show ?case
  proof (cases "tidy_body (span text (el_from el) (el_till el))")
    case None
    have "placed text cursor els" using Cons.prems(1) placed_earlier [of "text" "el_till el" els cursor] by simp
    with Cons.IH [OF this, of cs] Cons.prems None show ?thesis by simp
  next
    case (Some body)
    obtain cs' where cs: "cut text (el_till el) els = (cs', rest)"
      "cs = (span text cursor (el_from el), span text (el_from el) (el_till el), body) # cs'"
      using Cons.prems(3) Some by (auto split: prod.splits)
    let ?q = "span text cursor (el_from el)"
    from Cons.prems(1) have l: "cursor < el_from el" "el_from el \<le> length text" "text ! (el_from el - 1) = CHR ''>''" by auto
    then have "last ?q = CHR ''>''" "?q \<noteq> []"
      by (auto simp: span_def last_conv_nth)
    then have "suffix ''>'' ?q" by (metis append_butlast_last_id suffixI)
    moreover have "sublist ?q text" unfolding span_def
      by (metis sublist_order.order_trans sublist_drop sublist_take)
    with Cons.prems(4) have "\<not> sublist TOKEN ?q" by (meson sublist_order.order_trans)
    moreover have "prefix ''<'' ?q" if "prefix ''<'' (drop cursor text)"
      using that l by (cases "drop cursor text") (auto simp: span_def take_Cons')
    ultimately show ?thesis
      using Cons.IH [OF _ _ cs(1) Cons.prems(4)] Cons.prems(1) by (simp add: cs(2) next_piece_def)
  qed
qed (simp add: next_piece_def)

lemma tidy_sublist: "tidy_body body = Some b \<Longrightarrow> sublist b body"
proof -
  assume "tidy_body body = Some b"
  then obtain n where "b = trim_end (drop n body)" by (auto simp: tidy_body_def Let_def split: if_splits)
  then show ?thesis using prefix_imp_sublist [OF trim_end_prefix, of "drop n body"] sublist_drop
    by (metis sublist_order.order_trans)
qed

lemma mask_facts:
  assumes "mask lang text = Some m"
  shows "\<not> sublist TOKEN text" "mk_text m = lay 0 (bare (raw_pieces lang text)) (raw_rest lang text)"
    "mk_bodies m = map (\<lambda>(q, body, tidied). tidied) (raw_pieces lang text)"
    "mk_swaps m = swaps_of 0 0 (raw_pieces lang text)"
    "text = concat (map (\<lambda>(q, body, tidied). q @ body) (raw_pieces lang text)) @ raw_rest lang text"
    "\<forall>(q, body, tidied) \<in> set (raw_pieces lang text). tidy_body body = Some tidied"
    "framed (bare (raw_pieces lang text)) (raw_rest lang text)"
    "\<forall>b \<in> set (mk_bodies m). \<not> sublist TOKEN b"
proof -
  let ?empty = "\<lparr>mk_text = [], mk_bodies = [], mk_swaps = []\<rparr>"
  obtain m' c where mc: "mask_elements text 0 (raw_elements lang text) ?empty = (m', c)" by fastforce
  obtain cs rest where cut: "cut text 0 (raw_elements lang text) = (cs, rest)" by fastforce
  then have names: "raw_pieces lang text = cs" "raw_rest lang text = rest" by (simp_all add: raw_pieces_def raw_rest_def)
  from assms mc show free: "\<not> sublist TOKEN text" by (simp add: mask_def contains_sub_iff split: if_splits)
  from assms mc free have m: "m = m'\<lparr>mk_text := mk_text m' @ drop c text\<rparr>"
    by (simp add: mask_def contains_sub_iff split: if_splits)
  from cut_mask [OF placed_raw mc cut] m
  show "mk_text m = lay 0 (bare (raw_pieces lang text)) (raw_rest lang text)"
    and bodies: "mk_bodies m = map (\<lambda>(q, body, tidied). tidied) (raw_pieces lang text)"
    and "mk_swaps m = swaps_of 0 0 (raw_pieces lang text)"
    by (simp_all add: names)
  note ct = cut_text [OF placed_raw le0 cut, unfolded drop_0]
  show whole: "text = concat (map (\<lambda>(q, body, tidied). q @ body) (raw_pieces lang text)) @ raw_rest lang text"
    unfolding names by (rule ct [THEN conjunct1])
  show tidied: "\<forall>(q, body, tidied) \<in> set (raw_pieces lang text). tidy_body body = Some tidied"
    unfolding names by (rule ct [THEN conjunct2])
  from cut_framed [OF placed_raw _ cut free]
  show "framed (bare (raw_pieces lang text)) (raw_rest lang text)" by (simp add: names)
  show "\<forall>b \<in> set (mk_bodies m). \<not> sublist TOKEN b"
  proof
    fix b assume "b \<in> set (mk_bodies m)"
    then obtain q body where piece: "(q, body, b) \<in> set (raw_pieces lang text)" by (auto simp: bodies)
    then obtain us vs where "cs = us @ (q, body, b) # vs" by (auto simp: names in_set_conv_decomp)
    with ct have "text = (concat (map (\<lambda>(q, body, tidied). q @ body) us) @ q) @ body @
        (concat (map (\<lambda>(q, body, tidied). q @ body) vs) @ rest)" by simp
    then have "sublist body text" unfolding sublist_def by blast
    moreover have "sublist b body" using piece tidied tidy_sublist by fastforce
    ultimately show "\<not> sublist TOKEN b" using free by (meson sublist_order.order_trans)
  qed
qed

section \<open>The claims\<close>

text \<open>
  C9: No raw block is lost or changed. However markup_fmt lays out the document around the placeholders (new text
  that ends a tag in front of each and starts one behind it, any blanks and line breaks in between), restoring
  puts each body between the tags it came from, on lines of its own, and touches nothing else.
\<close>

theorem raw_bodies_survive:
  assumes "mask lang text = Some m" "framed ps rest" "length ps = length (mk_bodies m)"
  shows "restore m (lay 0 ps rest) = Some (unlay ps (mk_bodies m) rest)"
proof -
  have "\<not> sublist TOKEN []" using token_chars(1) by simp
  from restore_lay [OF assms(2,3) mask_facts(8) [OF assms(1)] this, of 0] show ?thesis by (simp add: restore_def)
qed

lemma unlay_bare:
  "unlay (bare cs) (map (\<lambda>(q, body, tidied). tidied) cs) rest =
     concat (map (\<lambda>(q, body, tidied). q @ newline # tidied @ [newline]) cs) @ rest"
  by (induction cs) (auto simp: last_line_def)

text \<open>
  C17: Masking takes exactly the raw bodies out of a document: the document is made of them and of the pieces
  between, the masked text of the same pieces and a placeholder for each body; a body is kept from the line of its
  first character to its last; and restoring the masked text itself gives the document with tidied bodies.
\<close>

theorem masking_takes_raw_bodies:
  assumes "mask lang text = Some m"
  shows "let cs = raw_pieces lang text; rest = raw_rest lang text in
    text = concat (map (\<lambda>(q, body, tidied). q @ body) cs) @ rest \<and>
    mk_text m = lay 0 (bare cs) rest \<and>
    (\<forall>(q, body, tidied) \<in> set cs. tidy_body body = Some tidied \<and> sublist tidied body) \<and>
    restore m (mk_text m) = Some (concat (map (\<lambda>(q, body, tidied). q @ newline # tidied @ [newline]) cs) @ rest)"
proof -
  note facts = mask_facts [OF assms]
  have free: "\<not> sublist TOKEN []" using token_chars(1) by simp
  have "length (bare (raw_pieces lang text)) = length (mk_bodies m)" by (simp add: facts(3))
  from restore_lay [OF facts(7) this facts(8) free, of 0]
  have "restore m (mk_text m) = Some (concat (map (\<lambda>(q, body, tidied). q @ newline # tidied @ [newline])
      (raw_pieces lang text)) @ raw_rest lang text)"
    by (simp add: restore_def facts(2,3) unlay_bare)
  moreover have "\<forall>(q, body, tidied) \<in> set (raw_pieces lang text). tidy_body body = Some tidied \<and> sublist tidied body"
    using facts(6) tidy_sublist by fastforce
  ultimately show ?thesis using facts(2,5) unfolding Let_def by blast
qed

text \<open>How long the pieces are in the masked text, and in the document.\<close>

fun masked_length :: "nat \<Rightarrow> (string \<times> string \<times> string) list \<Rightarrow> nat" where
  "masked_length i [] = 0"
| "masked_length i ((q, body, tidied) # cs) = length q + length (placeholder i) + masked_length (i + 1) cs"

fun whole_length :: "(string \<times> string \<times> string) list \<Rightarrow> nat" where
  "whole_length [] = 0"
| "whole_length ((q, body, tidied) # cs) = length q + length body + whole_length cs"

lemma lay_length: "length (lay i (bare cs) rest) = masked_length i cs + length rest"
  by (induction i cs rule: masked_length.induct) simp_all

lemma shift_past:
  "shift_offset (base + masked_length i us + k) (at + masked_length i us + k) (swaps_of base i (us @ vs)) =
   shift_offset (base + masked_length i us + k) (at + whole_length us + k)
     (swaps_of (base + masked_length i us) (i + length us) vs)"
proof (induction i us arbitrary: base at rule: masked_length.induct)
  case (2 i q body tidied us)
  let ?n = "length q + length (placeholder i)" and ?l = "masked_length (i + 1) us"
  have "shift_offset (base + (?n + ?l) + k) (at + (?n + ?l) + k) (swaps_of base i (((q, body, tidied) # us) @ vs)) =
      shift_offset ((base + ?n) + ?l + k) ((at + length q + length body) + ?l + k) (swaps_of (base + ?n) (i + 1) (us @ vs))"
    by (simp add: algebra_simps)
  also have "\<dots> = shift_offset ((base + ?n) + ?l + k) ((at + length q + length body) + whole_length us + k)
      (swaps_of ((base + ?n) + ?l) (i + 1 + length us) vs)" by (rule 2)
  finally show ?case by (simp add: algebra_simps)
qed simp


lemma shift_none: "offset < base \<Longrightarrow> shift_offset offset shifted (swaps_of base i cs) = shifted"
  by (cases cs) auto

text \<open>
  C39: A position of the masked text is reported at the same place of the document: inside a piece, as far into the
  piece; inside a placeholder, where the body it stands for starts; behind the last body, as far behind it.
\<close>

theorem masked_offsets_are_the_documents:
  assumes "mask lang text = Some m" "raw_pieces lang text = us @ (q, body, tidied) # vs"
  shows "(\<forall>k < length q. original_offset m (masked_length 0 us + k) = whole_length us + k) \<and>
    (\<forall>k < length (placeholder (length us)).
       original_offset m (masked_length 0 us + length q + k) = whole_length us + length q) \<and>
    (\<forall>k. original_offset m (masked_length 0 (raw_pieces lang text) + k) = whole_length (raw_pieces lang text) + k)"
proof (intro conjI allI impI)
  note swaps = mask_facts(4) [OF assms(1)]
  let ?c = "(q, body, tidied)"
  note past = shift_past [of 0 0 us _ 0 "?c # vs", simplified]
  show "original_offset m (masked_length 0 us + k) = whole_length us + k" if "k < length q" for k
    using past [of k] that by (simp add: original_offset_def swaps assms(2))
  show "original_offset m (masked_length 0 us + length q + k) = whole_length us + length q"
    if "k < length (placeholder (length us))" for k
    using past [of "length q + k"] that by (simp add: original_offset_def swaps assms(2) shift_none add.assoc)
  show "original_offset m (masked_length 0 (raw_pieces lang text) + k) = whole_length (raw_pieces lang text) + k" for k
    using shift_past [of 0 0 "raw_pieces lang text" k 0 "[]"] by (simp add: original_offset_def swaps)
qed

section \<open>A sample\<close>

definition sample_document :: string where
  "sample_document = ''<docs>'' @ [newline, newline] @ ''  a < b '' @ [newline] @ ''</docs>''"

definition sample_masked :: masked where
  "sample_masked =
     \<lparr>mk_text = ''<docs>__fmtkit_raw_block_0__</docs>'', mk_bodies = [''  a < b''], mk_swaps = [(6, 22, 11)]\<rparr>"

lemma sample_mask: "mask Vue sample_document = Some sample_masked"
  by code_simp

lemma sample_pieces:
  "raw_pieces Vue sample_document = [(''<docs>'', [newline, newline] @ ''  a < b '' @ [newline], ''  a < b'')]"
  by code_simp

theorem raw_bodies_survive_witness:
  "restore sample_masked (''<docs>'' @ [newline, CHR 0x09] @ ''__fmtkit_raw_block_0__'' @ [newline] @ ''</docs>'') =
     Some (''<docs>'' @ [newline] @ ''  a < b'' @ [newline] @ ''</docs>'')"
proof -
  let ?ps = "[(''<docs>'', [newline, CHR 0x09], [newline])]"
  have "\<not> sublist TOKEN ''<docs>''" unfolding contains_sub_iff [symmetric] by code_simp
  then have "framed ?ps ''</docs>''" by (simp add: next_piece_def blank_chars_def suffix_def)
  moreover have "length ?ps = length (mk_bodies sample_masked)" by (simp add: sample_masked_def)
  moreover have "lay 0 ?ps ''</docs>'' = ''<docs>'' @ [newline, CHR 0x09] @ ''__fmtkit_raw_block_0__'' @ [newline] @ ''</docs>''"
    "unlay ?ps (mk_bodies sample_masked) ''</docs>'' = ''<docs>'' @ [newline] @ ''  a < b'' @ [newline] @ ''</docs>''"
    by code_simp+
  ultimately show ?thesis using raw_bodies_survive [OF sample_mask, of ?ps "''</docs>''"] by simp
qed

theorem masking_takes_raw_bodies_witness:
  "restore sample_masked (mk_text sample_masked) = Some (''<docs>'' @ [newline] @ ''  a < b'' @ [newline] @ ''</docs>'')"
proof -
  note restored = masking_takes_raw_bodies [OF sample_mask, unfolded Let_def, THEN conjunct2, THEN conjunct2, THEN conjunct2]
  have "raw_rest Vue sample_document = ''</docs>''" by code_simp
  then show ?thesis unfolding restored by (simp add: sample_pieces)
qed

theorem masked_offsets_are_the_documents_witness:
  "original_offset sample_masked 3 = 3 \<and> original_offset sample_masked 10 = 6 \<and> original_offset sample_masked 30 = 19"
proof -
  let ?c = "(''<docs>'', [newline, newline] @ ''  a < b '' @ [newline], ''  a < b'')"
  have "raw_pieces Vue sample_document = [] @ ?c # []" by (simp add: sample_pieces)
  note offsets = masked_offsets_are_the_documents [OF sample_mask this]
  have len: "length (placeholder 0) = 22" by code_simp
  show ?thesis
    using offsets [THEN conjunct1, rule_format, of 3] offsets [THEN conjunct2, THEN conjunct1, rule_format, of 4]
      offsets [THEN conjunct2, THEN conjunct2, rule_format, of 2]
    by (simp add: sample_pieces len)
qed

end
