(* ===== verification/Hosts.thy ===== *)
theory Hosts imports
  RawBlocks
  Pipeline
begin

text \<open>
  \<^verbatim>\<open>crates/hosts/src\<close> (\<^verbatim>\<open>lib.rs\<close>, \<^verbatim>\<open>markup.rs\<close>, \<^verbatim>\<open>markdown.rs\<close>, \<^verbatim>\<open>css.rs\<close>): Vue, HTML and Markdown documents with the code in
  them. markup_fmt, the Markdown formatter with its parser and the stylesheet formatter are arguments; markup_fmt
  asks for embedded code while it runs, so it is a computation of questions and answers.
\<close>

section \<open>Errors and results\<close>

datatype host_error =
    HostSyntax u32 u32 string
  | HostEmbedded lang u32 string
  | HostInvariant string string

record host_formatted =
  hf_output :: string
  hf_applied :: "string list"

definition host_syntax_error :: "string \<Rightarrow> nat \<Rightarrow> string \<Rightarrow> host_error" where
  "host_syntax_error text offset message =
     (case line_col (line_index_new text) (saturate_u32 (min offset (length text))) of
        Some (line, column) \<Rightarrow> HostSyntax line column message
      | None \<Rightarrow> HostSyntax 0 0 message)"

definition mark :: "string \<Rightarrow> string list \<Rightarrow> string list" where
  "mark name applied = (if name \<in> set applied then applied else applied @ [name])"

section \<open>Comparing code\<close>

definition dedent :: "string \<Rightarrow> string list" where
  "dedent code =
     (let ls = map trim_end (str_lines code);
          indents = map (\<lambda>l. length l - length (trim_start l)) (filter (\<lambda>l. l \<noteq> []) ls);
          indent = (if indents = [] then 0 else Min (set indents));
          inner = rev (dropWhile (\<lambda>l. l = []) (rev (dropWhile (\<lambda>l. l = []) ls)))
      in map (\<lambda>l. case str_slice l indent (length l) of None \<Rightarrow> [] | Some t \<Rightarrow> t) inner)"

definition same_code :: "string \<Rightarrow> string \<Rightarrow> bool" where
  "same_code a b \<longleftrightarrow> dedent a = dedent b"

fun normalize_newlines :: "string \<Rightarrow> string" where
  "normalize_newlines [] = []"
| "normalize_newlines (c # s) =
     (if c = carriage_return then
        newline # (case s of [] \<Rightarrow> [] | d # t \<Rightarrow> if d = newline then normalize_newlines t else normalize_newlines s)
      else c # normalize_newlines s)"

section \<open>markup_fmt\<close>

text \<open>
  A question: the code, its tag, whether it stands in an attribute, the width, and where the code is in the
  document when it is a slice of it.
\<close>

record question =
  qu_code :: string
  qu_tag :: string
  qu_attribute :: bool
  qu_width :: nat
  qu_offset :: "nat option"

datatype markup_error = MarkupSyntax nat string | MarkupExternal "string list"

datatype markup_run =
    MarkupDone "markup_error + string"
  | MarkupAsk question "string + string \<Rightarrow> markup_run"

record host_library =
  hl_markup :: "lang \<Rightarrow> ts_format \<Rightarrow> string \<Rightarrow> markup_run"
  hl_scripts :: "lang \<Rightarrow> string \<Rightarrow> ts_format \<Rightarrow> ts_error + string"
  hl_css :: "css_variant \<Rightarrow> ts_format \<Rightarrow> nat option \<Rightarrow> string \<Rightarrow> string option"
  hl_markdown :: "ts_format \<Rightarrow> string \<Rightarrow> (nat \<times> string) + string"
  hl_fences :: "string \<Rightarrow> (string \<times> (nat \<times> nat \<times> string option \<times> string) list) option"

record router =
  ro_text :: string
  ro_input :: string
  ro_original :: "nat \<Rightarrow> nat"
  ro_options :: ts_format
  ro_applied :: "string list"
  ro_failure :: "host_error option"

text \<open>The offset of a question's code when it is the whole body of a script.\<close>

definition script_block :: "router \<Rightarrow> question \<Rightarrow> nat option" where
  "script_block r qu =
     (case qu_offset qu of
        None \<Rightarrow> None
      | Some offset \<Rightarrow>
          let till = offset + length (qu_code qu) in
          (case str_slice (ro_input r) till (length (ro_input r)) of
             None \<Rightarrow> None
           | Some closing \<Rightarrow>
               if 8 \<le> length closing \<and> same_name (take 8 closing) ''</script'' then Some offset else None))"

definition embedded_error :: "router \<Rightarrow> lang \<Rightarrow> nat \<Rightarrow> ts_error \<Rightarrow> host_error" where
  "embedded_error r lang offset e =
     (let start = line_of (line_index_new (ro_text r)) (saturate_u32 (ro_original r offset)) in
      case e of
        SyntaxError line _ message \<Rightarrow> HostEmbedded lang (start + (if line = 0 then 0 else line - 1)) message
      | _ \<Rightarrow> HostEmbedded lang start (show_ts_error e))"

definition show_host_error :: "host_error \<Rightarrow> string" where
  "show_host_error e =
     (case e of
        HostSyntax line column message \<Rightarrow> decimal (unat line) @ '':'' @ decimal (unat column) @ '': '' @ message
      | HostEmbedded lang line message \<Rightarrow>
          ''embedded '' @ lang_name lang @ '' block at line '' @ decimal (unat line) @ '': '' @ message
      | HostInvariant name message \<Rightarrow> name @ '' failed: '' @ message)"

definition route_script :: "host_library \<Rightarrow> question \<Rightarrow> lang \<Rightarrow> router \<Rightarrow> (string + string) \<times> router" where
  "route_script lib qu lang r =
     (let code = qu_code qu; block = script_block r qu;
          options = (if qu_attribute qu then (ro_options r)\<lparr>tf_single_quote := True\<rparr> else ro_options r)
      in case hl_scripts lib lang code options of
        Inr out \<Rightarrow>
          (Inr out,
           if out \<noteq> code \<and> block \<noteq> None \<and> \<not> same_code out code then r\<lparr>ro_applied := mark ''embedded'' (ro_applied r)\<rparr> else r)
      | Inl e \<Rightarrow>
          (case block of
             None \<Rightarrow> (Inr code, r)
           | Some offset \<Rightarrow>
               let failure = embedded_error r lang offset e in
               (Inl (show_host_error failure),
                r\<lparr>ro_failure := Some (case ro_failure r of None \<Rightarrow> failure | Some f \<Rightarrow> f)\<rparr>)))"

text \<open>The declarations of a style attribute on one line.\<close>

fun declaration_lines :: "string list \<Rightarrow> string list option" where
  "declaration_lines [] = Some []"
| "declaration_lines (l # ls) =
     (case strip_suffix '';'' l of
        None \<Rightarrow> None
      | Some d \<Rightarrow>
          if CHR ''{'' \<in> set d \<or> CHR ''}'' \<in> set d \<or> CHR '';'' \<in> set d \<or> prefix ''/*'' d \<or> prefix ''//'' d then None
          else map_option ((#) d) (declaration_lines ls))"

definition format_declarations :: "host_library \<Rightarrow> ts_format \<Rightarrow> string \<Rightarrow> string option" where
  "format_declarations lib options code =
     Option.bind (hl_css lib Css options None (''a {'' @ [newline] @ code @ [newline] @ ''}'')) (\<lambda>formatted.
     Option.bind (strip_prefix ''a {'' (trim_end formatted)) (\<lambda>rest.
     Option.bind (strip_suffix ''}'' rest) (\<lambda>body.
       map_option (join_with ''; '') (declaration_lines (filter (\<lambda>l. l \<noteq> []) (map trim_ws (str_lines body)))))))"

definition route_style :: "host_library \<Rightarrow> question \<Rightarrow> css_variant \<Rightarrow> router \<Rightarrow> (string + string) \<times> router" where
  "route_style lib qu variant r =
     (case (if qu_attribute qu then format_declarations lib (ro_options r) (qu_code qu)
            else hl_css lib variant (ro_options r) (Some (qu_width qu)) (qu_code qu)) of
        None \<Rightarrow> (Inr (qu_code qu), r)
      | Some out \<Rightarrow>
          (Inr out, if same_code out (qu_code qu) then r else r\<lparr>ro_applied := mark ''css'' (ro_applied r)\<rparr>))"

definition route :: "host_library \<Rightarrow> question \<Rightarrow> router \<Rightarrow> (string + string) \<times> router" where
  "route lib qu r =
     (case from_tag (qu_tag qu) of
        Some (Script lang) \<Rightarrow> route_script lib qu lang r
      | Some (Style variant) \<Rightarrow> route_style lib qu variant r
      | None \<Rightarrow> (Inr (qu_code qu), r))"

primrec run_markup :: "host_library \<Rightarrow> markup_run \<Rightarrow> router \<Rightarrow> (markup_error + string) \<times> router" where
  "run_markup lib (MarkupDone result) r = (result, r)"
| "run_markup lib (MarkupAsk qu continue) r =
     (let a = route lib qu r in run_markup lib (continue (fst a)) (snd a))"

definition markup_format ::
  "host_library \<Rightarrow> lang \<Rightarrow> string \<Rightarrow> ts_format \<Rightarrow> host_error + (string \<times> string list)" where
  "markup_format lib lang text options =
     (let masked = mask lang text;
          input = (case masked of None \<Rightarrow> text | Some m \<Rightarrow> mk_text m);
          original = (case masked of None \<Rightarrow> (\<lambda>offset. offset) | Some m \<Rightarrow> original_offset m);
          (result, r) = run_markup lib (hl_markup lib lang options input)
            \<lparr>ro_text = text, ro_input = input, ro_original = original, ro_options = options, ro_applied = [],
             ro_failure = None\<rparr>
      in case result of
        Inr out \<Rightarrow>
          Inr (case masked of
                 None \<Rightarrow> out
               | Some m \<Rightarrow> (case restore m out of None \<Rightarrow> text | Some whole \<Rightarrow> whole), ro_applied r)
      | Inl (MarkupSyntax pos message) \<Rightarrow> Inl (host_syntax_error text (original pos) message)
      | Inl (MarkupExternal errors) \<Rightarrow>
          Inl (case ro_failure r of
                 Some failure \<Rightarrow> failure
               | None \<Rightarrow> HostSyntax 1 1 (case errors of [] \<Rightarrow> ''embedded code failed'' | e # _ \<Rightarrow> e)))"

section \<open>Markdown\<close>

record splice =
  sp_start :: nat
  sp_end :: nat
  sp_body :: string

text \<open>The longest run of a character.\<close>

fun longest_run :: "char \<Rightarrow> nat \<Rightarrow> string \<Rightarrow> nat" where
  "longest_run c here [] = here"
| "longest_run c here (d # s) = (if d = c then longest_run c (here + 1) s else max here (longest_run c 0 s))"

definition fence_lines :: "string \<Rightarrow> string \<Rightarrow> string" where
  "fence_lines lead formatted =
     concat (map (\<lambda>l. (if l = [] then trim_end lead else lead @ l) @ [newline]) (split_on newline formatted))"

text \<open>
  The fence of a span rebuilt around the code: the prefix is the closing line's, and the runs are longer than any
  run of their character in the code.
\<close>

definition is_fence_char :: "char \<Rightarrow> bool" where
  "is_fence_char c \<longleftrightarrow> c \<in> {CHR ''`'', CHR ''~''}"

definition splice_fence :: "string \<Rightarrow> nat \<Rightarrow> nat \<Rightarrow> string \<Rightarrow> splice option" where
  "splice_fence source start till formatted =
     Option.bind (str_slice source start till) (\<lambda>whole.
     Option.bind (find_sub [newline] whole) (\<lambda>first.
       let open_line = take first whole; block = trim_end_matches newline whole in
     Option.bind (after_last newline block) (\<lambda>l.
       let closing_line = drop l block in
     Option.bind (find_at (\<lambda>s. is_fence_char (hd s)) closing_line) (\<lambda>marker.
       let lead = take marker closing_line; run = drop marker closing_line; fence = hd run in
     Option.bind (find_sub [fence] open_line) (\<lambda>opened.
       let info = dropWhile (\<lambda>c. c = fence) (drop opened open_line) in
       if l < length open_line + 1 \<or> length run < 3 \<or> \<not> list_all (\<lambda>c. c = fence) run then None
       else
         let runs = replicate (max (length run) (longest_run fence 0 formatted + 1)) fence in
         Some \<lparr>sp_start = start + opened, sp_end = start + length block,
           sp_body = runs @ info @ [newline] @ fence_lines lead formatted @ lead @ runs\<rparr>)))))"

definition fence_code :: "host_library \<Rightarrow> ts_format \<Rightarrow> embedded \<Rightarrow> string \<Rightarrow> string option" where
  "fence_code lib options e content =
     (case e of
        Script lang \<Rightarrow> (case hl_scripts lib lang content options of Inl _ \<Rightarrow> None | Inr out \<Rightarrow> Some out)
      | Style variant \<Rightarrow> hl_css lib variant options (Some (unat (tf_print_width options))) content)"

text \<open>What becomes of one fence: its splice and the step it counts for.\<close>

definition format_fence ::
  "host_library \<Rightarrow> ts_format \<Rightarrow> string \<Rightarrow> nat \<times> nat \<times> string option \<times> string \<Rightarrow> (splice \<times> string) option" where
  "format_fence lib options source fence =
     (let (start, till, tag, content) = fence in
      Option.bind tag (\<lambda>t.
      Option.bind (from_tag t) (\<lambda>e.
        if trim_ws content = [] then None
        else Option.bind (fence_code lib options e content) (\<lambda>out.
          let formatted = trim_end_matches newline out in
          if formatted = content \<or> trim_ws formatted = [] then None
          else map_option (\<lambda>sp. (sp, case e of Script _ \<Rightarrow> ''embedded'' | Style _ \<Rightarrow> ''css''))
            (splice_fence source start till formatted)))))"

fun splice_all :: "string \<Rightarrow> nat \<Rightarrow> splice list \<Rightarrow> string" where
  "splice_all body cursor [] = drop cursor body"
| "splice_all body cursor (sp # sps) = span body cursor (sp_start sp) @ sp_body sp @ splice_all body (sp_end sp) sps"

definition format_fences :: "host_library \<Rightarrow> ts_format \<Rightarrow> string \<Rightarrow> (string \<times> string list) option" where
  "format_fences lib options printed =
     (case hl_fences lib printed of
        None \<Rightarrow> None
      | Some (source, fences) \<Rightarrow>
          let base = length printed - length source; found = List.map_filter (format_fence lib options source) fences in
          if length printed < length source \<or> found = [] then None
          else Some (take base printed @ splice_all (drop base printed) 0 (map fst found), fold mark (map snd found) []))"

definition markdown_print :: "host_library \<Rightarrow> ts_format \<Rightarrow> string \<Rightarrow> host_error + string" where
  "markdown_print lib options text =
     (case hl_markdown lib options text of
        Inl (offset, message) \<Rightarrow> Inl (host_syntax_error text offset message)
      | Inr out \<Rightarrow> Inr out)"

definition markdown_format :: "host_library \<Rightarrow> string \<Rightarrow> ts_format \<Rightarrow> host_error + (string \<times> string list)" where
  "markdown_format lib text options =
     (case markdown_print lib options text of
        Inl e \<Rightarrow> Inl e
      | Inr printed \<Rightarrow>
          let applied = (if printed \<noteq> text then [''markdown''] else []) in
          (case format_fences lib options printed of
             None \<Rightarrow> Inr (printed, applied)
           | Some (spliced, steps) \<Rightarrow>
               (case markdown_print lib options spliced of
                  Inl _ \<Rightarrow> Inr (printed, applied)
                | Inr reprinted \<Rightarrow>
                    Inr (reprinted, if reprinted \<noteq> spliced then mark ''markdown'' (applied @ steps) else applied @ steps))))"

section \<open>The document\<close>

definition host_round :: "host_library \<Rightarrow> lang \<Rightarrow> string \<Rightarrow> ts_format \<Rightarrow> host_error + host_formatted" where
  "host_round lib lang source options =
     (if \<not> is_host lang then Inr \<lparr>hf_output = source, hf_applied = []\<rparr>
      else
        let text = normalize_newlines source;
            result = (if trim_ws text = [] then Inr ([], [])
              else if lang \<in> {Vue, Html} then markup_format lib lang text options
              else markdown_format lib text options);
            name = (if lang = Markdown then ''markdown'' else ''markup'')
        in case result of
          Inl e \<Rightarrow> Inl e
        | Inr (out, applied) \<Rightarrow> Inr \<lparr>hf_output = out, hf_applied = (if out \<noteq> source then mark name applied else applied)\<rparr>)"

definition HOST_EXTRA_ROUNDS :: nat where "HOST_EXTRA_ROUNDS = 3"

fun more_host_rounds ::
  "host_library \<Rightarrow> lang \<Rightarrow> ts_format \<Rightarrow> nat \<Rightarrow> host_formatted \<Rightarrow> host_error + host_formatted" where
  "more_host_rounds lib lang options 0 f =
     Inl (HostInvariant ''idempotency'' (''the document still changes after '' @ decimal HOST_EXTRA_ROUNDS @ '' extra rounds''))"
| "more_host_rounds lib lang options (Suc n) f =
     (case host_round lib lang (hf_output f) options of
        Inl e \<Rightarrow> Inl e
      | Inr g \<Rightarrow>
          if hf_output g = hf_output f then Inr f
          else more_host_rounds lib lang options n
            \<lparr>hf_output = hf_output g, hf_applied = fold mark (hf_applied g) (hf_applied f)\<rparr>)"

definition format_host :: "host_library \<Rightarrow> lang \<Rightarrow> string \<Rightarrow> ts_format \<Rightarrow> host_error + host_formatted" where
  "format_host lib lang source options =
     (case host_round lib lang source options of
        Inl e \<Rightarrow> Inl e
      | Inr f \<Rightarrow> if hf_output f = source then Inr f else more_host_rounds lib lang options HOST_EXTRA_ROUNDS f)"

text \<open>What formatting a document ends on, and that the code put back into a Markdown fence stays inside it.\<close>

section \<open>Fixed points\<close>

lemma set_mark [simp]: "set (mark name applied) = insert name (set applied)"
  by (auto simp: mark_def)

lemma set_fold_mark [simp]: "set (fold mark names applied) = set names \<union> set applied"
  by (induction names arbitrary: applied) auto

lemma more_host_rounds_end:
  "more_host_rounds lib lang options n f = Inr g \<Longrightarrow>
     (\<exists>h. host_round lib lang (hf_output g) options = Inr h \<and> hf_output h = hf_output g) \<and>
     set (hf_applied f) \<subseteq> set (hf_applied g)"
  by (induction lib lang options n f rule: more_host_rounds.induct)
    (auto split: sum.splits if_splits)

lemma changed_round_names_its_step:
  "host_round lib lang source options = Inr f \<Longrightarrow> hf_output f \<noteq> source \<Longrightarrow>
     (if lang = Markdown then ''markdown'' else ''markup'') \<in> set (hf_applied f)"
  by (auto simp: host_round_def Let_def split: if_splits sum.splits)

text \<open>
  C40: A document comes out as formatting leaves it. What formatting a document returns, it returns unchanged when
  run on it again; and a document that changed at all names its step, \<open>markup\<close> or \<open>markdown\<close>, among those applied.
\<close>

theorem host_output_is_fixed:
  assumes "format_host lib lang source options = Inr f"
  shows "(\<exists>g. format_host lib lang (hf_output f) options = Inr g \<and> hf_output g = hf_output f) \<and>
    (hf_output f = source \<or> (if lang = Markdown then ''markdown'' else ''markup'') \<in> set (hf_applied f))"
proof (cases "host_round lib lang source options")
  case (Inr g)
  show ?thesis
  proof (cases "hf_output g = source")
    case True
    with assms Inr show ?thesis by (simp add: format_host_def)
  next
    case False
    with assms Inr have "more_host_rounds lib lang options HOST_EXTRA_ROUNDS g = Inr f" by (simp add: format_host_def)
    from more_host_rounds_end [OF this] changed_round_names_its_step [OF Inr False]
    show ?thesis by (auto simp: format_host_def)
  qed
qed (use assms in \<open>simp add: format_host_def\<close>)

section \<open>Fences\<close>

lemma run_within:
  "longest_run c here s < n \<Longrightarrow> \<not> sublist (replicate n c) (replicate here c @ s)"
proof (induction c here s rule: longest_run.induct)
  case (1 c here)
  then show ?case using sublist_length_le [of "replicate n c" "replicate here c"] by fastforce
next
  case (2 c here d s)
  show ?case
  proof (cases "d = c")
    case True
    with 2 have "\<not> sublist (replicate n c) (replicate (here + 1) c @ s)" by simp
    then show ?thesis by (simp add: True replicate_app_Cons_same)
  next
    case False
    with 2 have "\<not> sublist (replicate n c) s" "here < n" by simp_all
    moreover from this have "\<not> sublist (replicate n c) (replicate here c)"
      using sublist_length_le [of "replicate n c" "replicate here c"] by fastforce
    ultimately show ?thesis using False sublist_apart [of d "replicate n c" "replicate here c" s] by auto
  qed
qed

lemma find_at_Some: "find_at P s = Some i \<Longrightarrow> i < length s \<and> P (drop i s) \<and> (\<forall>j < i. \<not> P (drop j s))"
proof (induction s arbitrary: i)
  case (Cons c s)
  show ?case
  proof (cases "P (c # s)")
    case False
    with Cons obtain k where "i = Suc k" "find_at P s = Some k" by auto
    with Cons.IH [of k] False show ?thesis by (auto simp: less_Suc_eq_0_disj)
  qed (use Cons in auto)
qed simp

lemma find_sub_char: "find_sub [c] s = Some i \<Longrightarrow> c \<notin> set (take i s)"
  by (induction s arbitrary: i) (auto split: if_splits)

lemma splice_parts:
  assumes "splice_fence source start till formatted = Some sp"
  obtains whole first l marker opened where "str_slice source start till = Some whole"
    "find_sub [newline] whole = Some first" "after_last newline (trim_end_matches newline whole) = Some l"
    "find_at (\<lambda>s. is_fence_char (hd s)) (drop l (trim_end_matches newline whole)) = Some marker"
    "find_sub [hd (drop marker (drop l (trim_end_matches newline whole)))] (take first whole) = Some opened"
    "length (take first whole) + 1 \<le> l" "3 \<le> length (drop marker (drop l (trim_end_matches newline whole)))"
    "list_all (\<lambda>c. c = hd (drop marker (drop l (trim_end_matches newline whole))))
      (drop marker (drop l (trim_end_matches newline whole)))"
    "sp = (let block = trim_end_matches newline whole; closing = drop l block; fence = hd (drop marker closing);
        runs = replicate (max (length (drop marker closing)) (longest_run fence 0 formatted + 1)) fence
      in \<lparr>sp_start = start + opened, sp_end = start + length block,
        sp_body = runs @ dropWhile (\<lambda>c. c = fence) (drop opened (take first whole)) @ [newline] @
          fence_lines (take marker closing) formatted @ take marker closing @ runs\<rparr>)"
proof -
  from assms obtain whole first where whole: "str_slice source start till = Some whole"
    and first: "find_sub [newline] whole = Some first"
    by (auto simp: splice_fence_def Let_def bind_eq_Some_conv)
  from assms whole first obtain l where l: "after_last newline (trim_end_matches newline whole) = Some l"
    by (auto simp: splice_fence_def Let_def bind_eq_Some_conv)
  from assms whole first l obtain marker
    where marker: "find_at (\<lambda>s. is_fence_char (hd s)) (drop l (trim_end_matches newline whole)) = Some marker"
    by (auto simp: splice_fence_def Let_def bind_eq_Some_conv)
  with assms whole first l that show thesis
    by (auto simp: splice_fence_def Let_def bind_eq_Some_conv split: if_splits)
qed

lemma trim_end_matches_split: "\<exists>tail. s = trim_end_matches c s @ tail \<and> set tail \<subseteq> {c}"
proof (intro exI conjI)
  show "s = trim_end_matches c s @ rev (takeWhile (\<lambda>x. x = c) (rev s))"
    unfolding trim_end_matches_def rev_append [symmetric] takeWhile_dropWhile_id by simp
  show "set (rev (takeWhile (\<lambda>x. x = c) (rev s))) \<subseteq> {c}" by (auto dest: set_takeWhileD)
qed

lemma find_sub_run:
  assumes "find_sub [c] s = Some i"
  shows "\<exists>k. s = take i s @ replicate (Suc k) c @ dropWhile (\<lambda>d. d = c) (drop i s)"
proof -
  from find_sub_Some [OF assms] obtain t where t: "drop i s = c # t" by (auto simp: prefix_def)
  have "takeWhile (\<lambda>d. d = c) (drop i s) = replicate (length (takeWhile (\<lambda>d. d = c) (drop i s))) c"
    by (rule replicate_length_same [symmetric]) (auto dest: set_takeWhileD)
  moreover obtain k where "length (takeWhile (\<lambda>d. d = c) (drop i s)) = Suc k" by (simp add: t)
  ultimately have "drop i s = replicate (Suc k) c @ dropWhile (\<lambda>d. d = c) (drop i s)"
    by (metis takeWhile_dropWhile_id)
  then show ?thesis by (metis append_take_drop_id)
qed

text \<open>The first and the last line of a block of at least two.\<close>

lemma block_lines:
  assumes "find_sub [newline] whole = Some first" "trim_end_matches newline whole = a @ newline # b" "first \<le> length a"
  shows "\<exists>inner tail. whole = take first whole @ newline # inner @ b @ tail \<and>
    trim_end_matches newline whole = take first whole @ newline # inner @ b \<and>
    set tail \<subseteq> {newline} \<and> (inner = [] \<or> last inner = newline)"
proof -
  obtain tail where tail: "whole = trim_end_matches newline whole @ tail" "set tail \<subseteq> {newline}"
    using trim_end_matches_split by blast
  with assms(2) have whole: "whole = a @ newline # b @ tail" by simp
  have at: "whole ! first = newline"
    using find_sub_Some [OF assms(1)] by (auto simp: prefix_def) (metis nth_via_drop)
  have "\<exists>inner. a @ [newline] = take first whole @ newline # inner \<and> (inner = [] \<or> last inner = newline)"
  proof (cases "first = length a")
    case True
    then show ?thesis by (simp add: whole)
  next
    case False
    with assms(3) have f: "first < length a" by simp
    with at have "a ! first = newline" by (simp add: whole nth_append)
    with f have "a = take first a @ newline # drop (Suc first) a" by (metis id_take_nth_drop)
    moreover have "take first whole = take first a" using f by (simp add: whole)
    ultimately show ?thesis by (intro exI [of _ "drop (Suc first) a @ [newline]"]) simp
  qed
  then obtain inner where inner: "a @ [newline] = take first whole @ newline # inner" "inner = [] \<or> last inner = newline"
    by blast
  have "trim_end_matches newline whole = (a @ [newline]) @ b" using assms(2) by simp
  then have "trim_end_matches newline whole = take first whole @ newline # inner @ b" by (simp add: inner(1))
  with tail inner(2) show ?thesis by (metis append_Cons append_assoc)
qed

text \<open>The text of a fence's span, around the lines between its first and its last.\<close>

lemma fence_text:
  fixes whole first l marker opened
  defines "open_line \<equiv> take first whole" and "block \<equiv> trim_end_matches newline whole"
  defines "lead \<equiv> take marker (drop l block)" and "run \<equiv> drop marker (drop l block)"
  defines "info \<equiv> dropWhile (\<lambda>c. c = hd run) (drop opened open_line)"
  assumes first: "find_sub [newline] whole = Some first" and l: "after_last newline block = Some l"
    and opened: "find_sub [hd run] open_line = Some opened"
    and shape: "length open_line + 1 \<le> l" "list_all (\<lambda>c. c = hd run) run"
  obtains k inner tail where
    "whole = take opened open_line @ (replicate (Suc k) (hd run) @ info @ newline # inner @ lead @ replicate (length run) (hd run)) @ tail"
    "length block = opened + length (replicate (Suc k) (hd run) @ info @ newline # inner @ lead @ replicate (length run) (hd run))"
    "set tail \<subseteq> {newline}" "inner = [] \<or> last inner = newline" "newline \<notin> set lead" "newline \<notin> set open_line"
proof -
  obtain a b where ab: "rsplit_once newline block = Some (a, b)" "l = length a + 1"
    using l by (cases "rsplit_once newline block") (auto simp: after_last_def)
  from ab(1) have block: "block = a @ newline # b" "newline \<notin> set b" by (simp_all add: rsplit_once_Some)
  from block(1) ab(2) have closing: "drop l block = b" by simp
  have "run = replicate (length run) (hd run)" using shape(2) by (intro replicate_eqI) (simp_all add: list_all_iff)
  then have b: "b = lead @ replicate (length run) (hd run)"
    unfolding closing [symmetric] lead_def run_def by (metis append_take_drop_id)
  have "first \<le> length a" using shape(1) ab(2) find_sub_Some [OF first] by (simp add: open_line_def)
  from block_lines [OF first block(1) [unfolded block_def] this] obtain inner tail where lines:
    "whole = open_line @ newline # inner @ b @ tail" "block = open_line @ newline # inner @ b"
    "set tail \<subseteq> {newline}" "inner = [] \<or> last inner = newline"
    unfolding open_line_def block_def by blast
  from find_sub_run [OF opened] obtain k where k: "open_line = take opened open_line @ replicate (Suc k) (hd run) @ info"
    unfolding info_def ..
  let ?old = "replicate (Suc k) (hd run) @ info @ newline # inner @ lead @ replicate (length run) (hd run)"
  have "open_line @ newline # inner @ b @ t = (take opened open_line @ replicate (Suc k) (hd run) @ info) @
      newline # inner @ (lead @ replicate (length run) (hd run)) @ t" for t
    by (simp only: k [symmetric] b [symmetric])
  then have cut: "open_line @ newline # inner @ b @ t = take opened open_line @ ?old @ t" for t
    by (simp only: append_assoc append_Cons)
  have "block = take opened open_line @ ?old" using trans [OF lines(2)] cut [of "[]"] by (simp only: append_Nil2)
  then have "length block = length (take opened open_line) + length ?old" by (metis length_append)
  moreover have "length (take opened open_line) = opened" using find_sub_Some [OF opened] by simp
  ultimately have "length block = opened + length ?old" by (simp only:)
  moreover have "newline \<notin> set open_line" unfolding open_line_def by (rule find_sub_char [OF first])
  moreover have "newline \<notin> set lead" using block(2) unfolding b by simp
  ultimately show thesis using that [OF trans [OF lines(1) cut]] lines(3,4) by blast
qed

text \<open>
  C18: Code put back into a Markdown fence stays inside it, and nothing but the fence is replaced. The fence is opened
  and closed by the same run of its character, at least as long as the closing one it had and at least three, which
  occurs nowhere in the code; behind the opening run stands the old info string; every line of the code stands under
  the prefix of the closing line. The text replaced runs from the first run of the character in the fence's first line
  (with its info string, and the lines after it) through the run that closes it; ahead of it stands none of that
  character and no line break, and behind it, up to the end of the block's span, only line breaks.
\<close>

theorem spliced_fence_holds_the_code:
  assumes "splice_fence source start till formatted = Some sp"
  shows "\<exists>fence n lead info ahead k inner m tail. is_fence_char fence \<and> 3 \<le> n \<and>
    sp_body sp = replicate n fence @ info @ newline # fence_lines lead formatted @ lead @ replicate n fence \<and>
    \<not> sublist (replicate n fence) formatted \<and> (info = [] \<or> hd info \<noteq> fence) \<and> newline \<notin> set info \<and>
    newline \<notin> set lead \<and> (\<forall>c \<in> set lead. \<not> is_fence_char c) \<and>
    str_slice source start till =
      Some (ahead @ (replicate k fence @ info @ newline # inner @ lead @ replicate m fence) @ tail) \<and>
    sp_start sp = start + length ahead \<and>
    sp_end sp = sp_start sp + length (replicate k fence @ info @ newline # inner @ lead @ replicate m fence) \<and>
    1 \<le> k \<and> 3 \<le> m \<and> m \<le> n \<and> fence \<notin> set ahead \<and> newline \<notin> set ahead \<and>
    (inner = [] \<or> last inner = newline) \<and> set tail \<subseteq> {newline} \<and>
    start \<le> sp_start sp \<and> sp_start sp < sp_end sp \<and> sp_end sp \<le> till"
proof -
  from splice_parts [OF assms] obtain whole first l marker opened
    where whole: "str_slice source start till = Some whole" and first: "find_sub [newline] whole = Some first"
      and l: "after_last newline (trim_end_matches newline whole) = Some l"
      and marker: "find_at (\<lambda>s. is_fence_char (hd s)) (drop l (trim_end_matches newline whole)) = Some marker"
      and opened: "find_sub [hd (drop marker (drop l (trim_end_matches newline whole)))] (take first whole) = Some opened"
      and shape: "length (take first whole) + 1 \<le> l" "3 \<le> length (drop marker (drop l (trim_end_matches newline whole)))"
      and all: "list_all (\<lambda>c. c = hd (drop marker (drop l (trim_end_matches newline whole))))
        (drop marker (drop l (trim_end_matches newline whole)))"
      and sp: "sp = (let block = trim_end_matches newline whole; closing = drop l block; fence = hd (drop marker closing);
          runs = replicate (max (length (drop marker closing)) (longest_run fence 0 formatted + 1)) fence
        in \<lparr>sp_start = start + opened, sp_end = start + length block,
          sp_body = runs @ dropWhile (\<lambda>c. c = fence) (drop opened (take first whole)) @ [newline] @
            fence_lines (take marker closing) formatted @ take marker closing @ runs\<rparr>)" .
  let ?open = "take first whole" and ?block = "trim_end_matches newline whole"
  let ?lead = "take marker (drop l ?block)" and ?run = "drop marker (drop l ?block)"
  let ?fence = "hd ?run"
  let ?n = "max (length ?run) (longest_run ?fence 0 formatted + 1)"
  let ?info = "dropWhile (\<lambda>c. c = ?fence) (drop opened ?open)"
  let ?old = "\<lambda>k inner. replicate (Suc k) ?fence @ ?info @ newline # inner @ ?lead @ replicate (length ?run) ?fence"
  note m = find_at_Some [OF marker]
  have inside: "length (take opened ?open) = opened" using find_sub_Some [OF opened] by simp
  obtain k inner tail where parts: "whole = take opened ?open @ ?old k inner @ tail"
    "length ?block = opened + length (?old k inner)" "set tail \<subseteq> {newline}" "inner = [] \<or> last inner = newline"
    "newline \<notin> set ?lead" "newline \<notin> set ?open"
    by (rule fence_text [OF first l opened shape(1) all])
  have quiet: "newline \<notin> set (take opened ?open)" using parts(6) by (meson in_set_takeD)
  have info: "newline \<notin> set ?info" using parts(6) by (meson in_set_dropD set_dropWhileD)
  have size: "start + length whole = till" using whole by (auto simp: str_slice_Some_iff)
  have fits: "length ?block \<le> length whole"
    by (simp add: trim_end_matches_def order_trans [OF length_dropWhile_le])
  have lead: "\<forall>c \<in> set ?lead. \<not> is_fence_char c"
    using m by (auto simp: in_set_conv_nth hd_drop_conv_nth add.commute)
  have at: "sp_start sp = start + length (take opened ?open)" "sp_end sp = start + length ?block"
    by (simp_all only: sp Let_def splice.simps inside)
  show ?thesis
  proof (rule exI [of _ ?fence], rule exI [of _ ?n], rule exI [of _ ?lead], rule exI [of _ ?info],
      rule exI [of _ "take opened ?open"], rule exI [of _ "Suc k"], rule exI [of _ inner], rule exI [of _ "length ?run"],
      rule exI [of _ tail], intro conjI)
    show "sp_body sp = replicate ?n ?fence @ ?info @ newline # fence_lines ?lead formatted @ ?lead @ replicate ?n ?fence"
      by (simp add: sp Let_def)
    show "\<not> sublist (replicate ?n ?fence) formatted" using run_within [of ?fence 0 formatted ?n] by simp
    show "?info = [] \<or> hd ?info \<noteq> ?fence" using hd_dropWhile [of "\<lambda>c. c = ?fence"] by auto
    show "str_slice source start till = Some (take opened ?open @ ?old k inner @ tail)"
      unfolding whole using parts(1) by (rule arg_cong)
    show "sp_end sp = sp_start sp + length (?old k inner)" by (simp only: at parts(2) inside add.assoc)
    then show "sp_start sp < sp_end sp" by simp
    show "?fence \<notin> set (take opened ?open)" by (rule find_sub_char [OF opened])
    show "sp_end sp \<le> till" unfolding at using size fits by linarith
    show "start \<le> sp_start sp" by (simp add: at)
    show "is_fence_char ?fence" using m by blast
    show "3 \<le> ?n" "1 \<le> Suc k" "length ?run \<le> ?n" using shape(2) by simp_all
  qed (fact quiet info lead parts(3-5) at(1) shape(2))+
qed

section \<open>Samples\<close>

definition sample_fence :: string where
  "sample_fence = ''  ```ts'' @ [newline] @ ''  a=1'' @ [newline] @ ''  ```'' @ [newline]"

theorem spliced_fence_holds_the_code_witness:
  "splice_fence sample_fence 0 20 ''a = `1`;'' =
     Some \<lparr>sp_start = 2, sp_end = 19, sp_body = ''```ts'' @ [newline] @ ''  a = `1`;'' @ [newline] @ ''  ```''\<rparr> \<and>
   (\<exists>fence n. 3 \<le> n \<and> is_fence_char fence \<and> \<not> sublist (replicate n fence) ''a = `1`;'')"
proof -
  have s: "splice_fence sample_fence 0 20 ''a = `1`;'' =
      Some \<lparr>sp_start = 2, sp_end = 19, sp_body = ''```ts'' @ [newline] @ ''  a = `1`;'' @ [newline] @ ''  ```''\<rparr>"
    by code_simp
  from spliced_fence_holds_the_code [OF s] s show ?thesis by blast
qed

definition sample_hosts :: host_library where
  "sample_hosts =
     \<lparr>hl_markup = (\<lambda>_ _ t. MarkupDone (Inr t)), hl_scripts = (\<lambda>_ t _. Inr t), hl_css = (\<lambda>_ _ _ _. None),
      hl_markdown = (\<lambda>_ t. Inr (if t = ''a'' then ''b'' else t)), hl_fences = (\<lambda>_. None)\<rparr>"

theorem host_output_is_fixed_witness:
  "format_host sample_hosts Markdown ''a'' default_ts_format = Inr \<lparr>hf_output = ''b'', hf_applied = [''markdown'']\<rparr> \<and>
   (\<exists>g. format_host sample_hosts Markdown ''b'' default_ts_format = Inr g \<and> hf_output g = ''b'')"
proof -
  have f: "format_host sample_hosts Markdown ''a'' default_ts_format = Inr \<lparr>hf_output = ''b'', hf_applied = [''markdown'']\<rparr>"
    by code_simp
  from host_output_is_fixed [OF f] f show ?thesis by simp
qed

end
