(* ===== verification/Spec2Isabelle.thy ===== *)
theory Spec2Isabelle imports
  Edits
  Lines
  Render
  CacheReach
  Configs
  WalkScope
  ProtoFacts
  GoLane
  DiscoverFacts
  VetFacts
  ClientFacts
  RunFacts
  SourceFacts
  RuleFacts
  PipeFacts
  BlankLines
  LinkChains
  ExpandCalls
  Drizzle
  ScoreFacts
  ReorderFacts
  ScriptParts
  Linting
  Hosts
begin

text \<open>
  \<^bold>\<open>fmtkit\<close> formats and checks repositories that mix Go with TypeScript, JavaScript, Vue, HTML and Markdown. This
  library models its Rust crates: what is computed, in which order, what fails and how. The sources named below are
  those under \<^verbatim>\<open>src/crates\<close>.

  \<^bold>\<open>The program.\<close> A run (\<^verbatim>\<open>engine/src/lib.rs\<close>) loads the settings (\<^verbatim>\<open>config\<close>), discovers the files in scope
  (\<^verbatim>\<open>discover\<close>: git's index, a walk under ignore rules, a watch), and gives each to a lane. The Go lane sends files to a
  helper process (\<^verbatim>\<open>go\<close>) and runs \<open>go vet\<close>; the script lane lints (\<^verbatim>\<open>lint\<close>), formats scripts (\<^verbatim>\<open>ts\<close>) and host documents
  (\<^verbatim>\<open>hosts\<close>), and scores complexity. Outcomes are cached (\<^verbatim>\<open>cache\<close>), judged against limits and reported (\<^verbatim>\<open>report\<close>).
  A session keeps caches, linter, helper and repository from one run to the next.

  \<^bold>\<open>How the model corresponds.\<close> A struct is a record, an enum a datatype; \<open>u8\<close>, \<open>u32\<close> and \<open>u64\<close> are words, \<open>usize\<close> is
  \<open>nat\<close> where the code cannot overflow it; a \<open>str\<close> is the list of its bytes (\<open>Prelude\<close> has UTF-8, slices that fail
  inside a character, trimming and searching); maps are functions, association lists or sharded tables. An error is
  the left of a sum, a panic \<open>None\<close> or \<open>Panicked\<close>, a loop that need not end \<open>partial_function (option)\<close>. Code that is
  not in the repository (oxc with its parser, printer and linter, markup_fmt, the Markdown and stylesheet
  formatters, gitignore matching, blake3, TOML and JSON, the file system, the clock, other processes) is an argument
  of the definitions that use it; the theorems name what they rely on as assumptions.

  \<^bold>\<open>Core.\<close> \<open>Edits\<close> (\<^verbatim>\<open>core/src/edit.rs\<close>): sets of replacements, normalised, thinned out and applied at once; applying
  equals applying one by one from the back, and fails exactly on an overlap. \<open>Lines\<close>, \<open>Langs\<close>, \<open>Outcomes\<close>: the rest of
  \<^verbatim>\<open>core\<close>. \<open>Findings\<close> and \<open>Render\<close> (\<^verbatim>\<open>report\<close>): the report grouped, counted and printed in three forms that agree.
  \<open>Configs\<close>: settings, where they are found, what is rejected.

  \<^bold>\<open>Cache.\<close> \<open>Shards\<close>, \<open>Wire\<close>, \<open>Cache\<close>, \<open>Atomic\<close>: the store, its file and the way it is written. \<open>CacheKeys\<close>: a key tells
  its parts apart. \<open>CacheRun\<close>: the contract of a map as a locale, the marks as a least-recently-used list, a flush
  read back. \<open>CacheReach\<close>: every state that operations, failures and reopenings can reach; a hit while formatting is
  a file that needs no change.

  \<^bold>\<open>Discovery.\<close> \<open>Filters\<close>, \<open>Generated\<close>, \<open>Walks\<close>, \<open>Memories\<close>: scope, the walk, the listings it remembers. \<open>WalkScope\<close>,
  \<open>WalkMemory\<close>, \<open>WalkRuns\<close>: pruning loses no file where no exclude pattern re-includes what another excludes,
  and replaying loses none, whatever changed between two full runs. \<open>GitIndex\<close>,
  \<open>Watching\<close>, \<open>WatchFacts\<close>, \<open>Repositories\<close>: the index compared with the work tree under a watch, as a state machine of
  changes, reports and comparisons. \<open>Discover\<close>, \<open>DiscoverFacts\<close>: the files of a run, with
  and without \<^verbatim>\<open>core.ignoreCase\<close>.

  \<^bold>\<open>Go.\<close> \<open>Proto\<close>, \<open>ProtoFacts\<close>: frames, requests and replies, and reading them from a stream. \<open>Locate\<close>, \<open>Client\<close>,
  \<open>ClientFacts\<close>: the helper with its callers and three threads as a step relation, with the
  history of what passed between them; every request is answered once, with the reply that came under its id.
  \<open>Paths\<close>, \<open>Vet\<close>, \<open>VetInputs\<close>, \<open>VetDigest\<close>, \<open>VetRuns\<close>, \<open>VetFacts\<close>: which packages are vetted and when a run may be
  skipped. \<open>GoLane\<close>: the pipelined lane is the lane of each file.

  \<^bold>\<open>Linter.\<close> \<open>Linting\<close>: settings, one pass, the rounds of fixes. The sorting rules (\<^verbatim>\<open>rules/perfectionist\<close>):
  \<open>JsText\<close>, \<open>JsNumbers\<close>, \<open>PerfRegex\<close>, \<open>Selectors\<close>, \<open>PerfOptions\<close>, \<open>PerfParse\<close>, \<open>PerfBuild\<close> (options),
  \<open>PerfSource\<close> (comments and tokens), \<open>PerfSort\<close>, \<open>PerfReport\<close>, \<open>PerfRules\<close>; with \<open>SortLaws\<close>, \<open>SortFacts\<close>, \<open>OrderFacts\<close>,
  \<open>ReportFacts\<close>, \<open>SourceFacts\<close>, \<open>RuleFacts\<close>: sorting permutes, is stable under lawful comparators (a locale)
  around what must stay in place, respects dependencies outside cycles, and the fixes of a report are one edit.

  \<^bold>\<open>Scripts.\<close> \<open>TsSyntax\<close>: the trees the passes read and the text queries they share. \<open>Fingerprint\<close>, \<open>PrintFacts\<close>:
  the structural hash, and what it does and does not see (how chains of one logical operator are grouped). \<open>Pipeline\<close>, \<open>PipeFacts\<close>: the schedule of passes,
  checked after every step; outputs keep the program and are fixed points. The passes: \<open>Siblings\<close>, \<open>BlankLines\<close>,
  \<open>Reorders\<close>, \<open>ReorderFacts\<close>, \<open>LinkChains\<close>, \<open>ExpandCalls\<close>, \<open>Drizzle\<close>; \<open>ScriptParts\<close> puts them into the pipeline and shows
  that none conflicts with itself. \<open>Scores\<close>, \<open>ScoreFacts\<close>: complexity in one walk.

  \<^bold>\<open>Documents.\<close> \<open>RawBlocks\<close>: what is kept away from markup_fmt and how it comes back. \<open>Hosts\<close>:
  Vue, HTML and Markdown documents with the code in them; markup_fmt is a computation that asks for embedded code.

  \<^bold>\<open>Runs.\<close> \<open>ScriptLane\<close>, \<open>Complexities\<close>, \<open>Runs\<close>, \<open>RunFacts\<close>: one file, the limits, the run, the session.

  \<^bold>\<open>Bounds.\<close> The rounds of the code are its own constants and structural recursions here: three extra rounds of the
  script pipeline and of a document, a budget of five for a pass repeated until it settles, ten rounds of fixes.
  Other loops are recursions with a measure, and where the code does not bound them (the scans over comments and
  tokens, the steps of a round) partial functions whose results are proved to exist for the inputs the code meets.
  Counts beyond \<open>u32\<close> saturate as in the code; texts are assumed shorter than \<open>2 ^ 32\<close> bytes where an offset is
  narrowed.

  \<^bold>\<open>Not modelled.\<close> The native rules other than the sorting rules (matchers over the semantic model that only report);
  languages embedded in templates (glue inside the printer); the walk outside git and the macOS watcher; the command
  line and the server's sockets; the Go helper, a program of its own; tests and fuzzing. Threads are modelled where
  their order can matter (the client, the Go lane, the watch), not where each works on files of its own.
\<close>

end
